(* ===== verification/Prelude.thy ===== *)
theory Prelude
  imports Complex_Main "HOL-Library.Word"
begin

text \<open>
  Shared ground of the development: the machine integers of the code as bounded \<open>int\<close> and
  \<open>nat\<close> values, the \<open>Result\<close> and \<open>?\<close> of the code as sums, byte strings and their
  big-endian encodings, and the lemma collections the component proofs use.

  A Rust \<open>i64\<close>, \<open>i128\<close>, \<open>u32\<close> or \<open>u64\<close> is an \<open>int\<close> or \<open>nat\<close>. The deployed
  binaries are release builds (see the Dockerfile and deploy/server/deploy.sh), whose plain
  operators wrap in two's complement; that wrap-around is written out with \<open>wrap_s\<close> and
  \<open>wrap_u\<close> wherever the code uses a plain operator that can leave its range. The
  \<open>checked_*\<close> operators of the code are \<open>chk_s\<close>. A \<open>Result<T, E>\<close> is the sum
  \<open>E + T\<close>, \<open>Inl\<close> being the error. Where a call can panic the model returns an option and
  \<open>None\<close> is the panic.
\<close>

named_theorems int_range "unfolds the ranges of the fixed-width integers"
named_theorems res_elims "elimination rules for computations of the sum type"

section \<open>Machine integers\<close>

definition in_s :: "nat \<Rightarrow> int \<Rightarrow> bool" where
  "in_s w x \<longleftrightarrow> - (2 ^ (w - 1)) \<le> x \<and> x < 2 ^ (w - 1)"

definition wrap_s :: "nat \<Rightarrow> int \<Rightarrow> int" where
  "wrap_s w x = (x + 2 ^ (w - 1)) mod 2 ^ w - 2 ^ (w - 1)"

definition chk_s :: "nat \<Rightarrow> int \<Rightarrow> int option" where
  "chk_s w x = (if in_s w x then Some x else None)"

definition wrap_u :: "nat \<Rightarrow> nat \<Rightarrow> nat" where
  "wrap_u w x = x mod 2 ^ w"

abbreviation in_i64 :: "int \<Rightarrow> bool" where "in_i64 \<equiv> in_s 64"
abbreviation in_i128 :: "int \<Rightarrow> bool" where "in_i128 \<equiv> in_s 128"
abbreviation wrap_i64 :: "int \<Rightarrow> int" where "wrap_i64 \<equiv> wrap_s 64"
abbreviation wrap_i128 :: "int \<Rightarrow> int" where "wrap_i128 \<equiv> wrap_s 128"
abbreviation chk_i128 :: "int \<Rightarrow> int option" where "chk_i128 \<equiv> chk_s 128"
abbreviation wrap_u64 :: "nat \<Rightarrow> nat" where "wrap_u64 \<equiv> wrap_u 64"

declare in_s_def [int_range]

lemma wrap_s_id: "in_s w x \<Longrightarrow> 0 < w \<Longrightarrow> wrap_s w x = x"
proof -
  assume r: "in_s w x" and w: "0 < w"
  have two: "(2::int) ^ w = 2 * 2 ^ (w - 1)"
    using w by (metis Suc_diff_1 power_Suc)
  have "(x + 2 ^ (w - 1)) mod 2 ^ w = x + 2 ^ (w - 1)"
    using r two by (intro mod_pos_pos_trivial) (auto simp: in_s_def)
  then show ?thesis by (simp add: wrap_s_def)
qed

lemma wrap_s_range: "0 < w \<Longrightarrow> in_s w (wrap_s w x)"
proof -
  assume w: "0 < w"
  have two: "(2::int) ^ w = 2 * 2 ^ (w - 1)"
    using w by (metis Suc_diff_1 power_Suc)
  have "0 \<le> (x + 2 ^ (w - 1)) mod 2 ^ w" and "(x + 2 ^ (w - 1)) mod 2 ^ w < 2 ^ w"
    by simp_all
  then show ?thesis using two by (simp add: wrap_s_def in_s_def)
qed

lemma wrap_i64_id [simp]: "in_i64 x \<Longrightarrow> wrap_i64 x = x"
  by (rule wrap_s_id) simp_all

lemma wrap_i128_id [simp]: "in_i128 x \<Longrightarrow> wrap_i128 x = x"
  by (rule wrap_s_id) simp_all

lemma wrap_u_id [simp]: "x < 2 ^ w \<Longrightarrow> wrap_u w x = x"
  by (simp add: wrap_u_def)

lemma chk_s_Some [simp]: "chk_s w x = Some y \<longleftrightarrow> in_s w x \<and> y = x"
  by (auto simp: chk_s_def)

lemma chk_s_None [simp]: "chk_s w x = None \<longleftrightarrow> \<not> in_s w x"
  by (auto simp: chk_s_def)

lemma chk_s_in: "in_s w x \<Longrightarrow> chk_s w x = Some x"
  by simp

text \<open>An \<open>i64\<close> always fits an \<open>i128\<close>.\<close>

lemma in_i64_i128: "in_i64 x \<Longrightarrow> in_i128 x"
  by (auto simp: in_s_def)

lemma in_s_between: "in_s w a \<Longrightarrow> in_s w b \<Longrightarrow> a \<le> x \<Longrightarrow> x \<le> b \<Longrightarrow> in_s w x"
  by (auto simp: in_s_def)

lemma mult_div_le_int: "0 < b \<Longrightarrow> b * (a div b) \<le> (a :: int)"
  using mult_div_mod_eq [of b a] pos_mod_sign [of b a] by linarith

section \<open>Results and the question mark operator\<close>

definition and_then :: "'e + 'a \<Rightarrow> ('a \<Rightarrow> 'e + 'b) \<Rightarrow> 'e + 'b" where
  "and_then r f = (case r of Inl e \<Rightarrow> Inl e | Inr a \<Rightarrow> f a)"

definition ok_or :: "'e \<Rightarrow> 'a option \<Rightarrow> 'e + 'a" where
  "ok_or e m = (case m of None \<Rightarrow> Inl e | Some a \<Rightarrow> Inr a)"

definition map_err :: "('e \<Rightarrow> 'f) \<Rightarrow> 'e + 'a \<Rightarrow> 'f + 'a" where
  "map_err f r = (case r of Inl e \<Rightarrow> Inl (f e) | Inr a \<Rightarrow> Inr a)"

lemma and_then_simps [simp]:
  "and_then (Inl e) f = Inl e"
  "and_then (Inr a) f = f a"
  by (simp_all add: and_then_def)

lemma and_then_Inr [simp]: "and_then r f = Inr b \<longleftrightarrow> (\<exists>a. r = Inr a \<and> f a = Inr b)"
  by (cases r) simp_all

lemma and_then_Inl: "and_then r f = Inl e \<longleftrightarrow> r = Inl e \<or> (\<exists>a. r = Inr a \<and> f a = Inl e)"
  by (cases r) auto

lemma and_then_InrE [res_elims]:
  assumes "and_then r f = Inr b"
  obtains a where "r = Inr a" and "f a = Inr b"
  using assms by auto

lemma ok_or_simps [simp]:
  "ok_or e None = Inl e"
  "ok_or e (Some a) = Inr a"
  by (simp_all add: ok_or_def)

lemma ok_or_Inr [simp]: "ok_or e m = Inr a \<longleftrightarrow> m = Some a"
  by (cases m) simp_all

lemma ok_or_Inl [simp]: "ok_or e m = Inl e' \<longleftrightarrow> m = None \<and> e' = e"
  by (cases m) auto

lemma map_err_simps [simp]:
  "map_err f (Inl e) = Inl (f e)"
  "map_err f (Inr a) = Inr a"
  by (simp_all add: map_err_def)

lemma map_err_Inr [simp]: "map_err f r = Inr a \<longleftrightarrow> r = Inr a"
  by (cases r) simp_all

text \<open>The same where the computation can also panic, \<open>None\<close>.\<close>

definition and_thenp :: "('e + 'a) option \<Rightarrow> ('a \<Rightarrow> ('e + 'b) option) \<Rightarrow> ('e + 'b) option" where
  "and_thenp m f = (case m of None \<Rightarrow> None | Some (Inl e) \<Rightarrow> Some (Inl e) | Some (Inr a) \<Rightarrow> f a)"

declare and_thenp_def [code_unfold]

lemma and_thenp_simps [simp]:
  "and_thenp None f = None"
  "and_thenp (Some (Inl e)) f = Some (Inl e)"
  "and_thenp (Some (Inr a)) f = f a"
  by (simp_all add: and_thenp_def)

lemma and_thenp_Inr: "and_thenp m f = Some (Inr b) \<longleftrightarrow> (\<exists>a. m = Some (Inr a) \<and> f a = Some (Inr b))"
  by (auto simp: and_thenp_def split: option.splits sum.splits)

text \<open>\<open>iter().map(f).collect::<Result<Vec<_>, _>>()\<close>: the first error wins.\<close>

fun collect_res :: "('a \<Rightarrow> 'e + 'b) \<Rightarrow> 'a list \<Rightarrow> 'e + 'b list" where
  "collect_res f [] = Inr []"
| "collect_res f (x # xs) =
     and_then (f x) (\<lambda>y. and_then (collect_res f xs) (\<lambda>ys. Inr (y # ys)))"

lemma collect_res_Inr:
  "collect_res f xs = Inr ys \<longleftrightarrow> list_all2 (\<lambda>x y. f x = Inr y) xs ys"
  by (induction xs arbitrary: ys) (auto simp: list_all2_Cons1)

lemma collect_res_length: "collect_res f xs = Inr ys \<Longrightarrow> length ys = length xs"
  by (auto simp: collect_res_Inr dest: list_all2_lengthD)

text \<open>\<open>try_fold\<close> over an option-valued step.\<close>

fun try_fold :: "('b \<Rightarrow> 'a \<Rightarrow> 'b option) \<Rightarrow> 'b \<Rightarrow> 'a list \<Rightarrow> 'b option" where
  "try_fold f acc [] = Some acc"
| "try_fold f acc (x # xs) = Option.bind (f acc x) (\<lambda>acc'. try_fold f acc' xs)"

lemma try_fold_append:
  "try_fold f acc (xs @ ys) = Option.bind (try_fold f acc xs) (\<lambda>a. try_fold f a ys)"
  by (induction xs arbitrary: acc) (auto split: bind_splits)

text \<open>An invariant of a fold that succeeds.\<close>

lemma try_fold_inv:
  assumes "try_fold f acc xs = Some r" and "P acc"
    and "\<And>a x a'. x \<in> set xs \<Longrightarrow> P a \<Longrightarrow> f a x = Some a' \<Longrightarrow> P a'"
  shows "P r"
  using assms
proof (induction xs arbitrary: acc)
  case Nil
  then show ?case by simp
next
  case (Cons x xs)
  then obtain a' where a': "f acc x = Some a'" and r: "try_fold f a' xs = Some r"
    by (auto split: bind_splits)
  have "P a'" using Cons.prems(2,3) a' by auto
  then show ?case using Cons.IH [OF r] Cons.prems(3) by auto
qed

text \<open>
  For evaluation in the kernel a bind is a case distinction, so that its continuation is only
  rewritten once its argument has a value.
\<close>

lemma bind_eval [code_unfold]:
  "Option.bind m f = (case m of None \<Rightarrow> None | Some x \<Rightarrow> f x)"
  by (cases m) simp_all

declare and_then_def [code_unfold]

text \<open>A fold whose every step adds a term sums the terms.\<close>

lemma try_fold_sum:
  fixes g :: "'a \<Rightarrow> 'b :: comm_monoid_add"
  assumes "\<And>a x a'. f a x = Some a' \<Longrightarrow> a' = a + g x" and "try_fold f a xs = Some v"
  shows "v = a + (\<Sum>x\<leftarrow>xs. g x)"
  using assms(2)
proof (induction xs arbitrary: a)
  case (Cons x xs)
  then obtain a' where a': "f a x = Some a'" and v: "try_fold f a' xs = Some v"
    by (auto split: bind_splits)
  show ?case using Cons.IH [OF v] assms(1) [OF a'] by (simp add: add.assoc)
qed simp

section \<open>Bytes\<close>

type_synonym byte = "8 word"
type_synonym bytes = "8 word list"

definition str_bytes :: "string \<Rightarrow> bytes" where
  "str_bytes s = map (\<lambda>c. word_of_nat (of_char c)) s"

lemma byte_of_nat_inj: "a < 256 \<Longrightarrow> b < 256 \<Longrightarrow> (word_of_nat a :: byte) = word_of_nat b \<longleftrightarrow> a = b"
  by (simp add: word_of_nat_eq_iff take_bit_eq_mod)

lemma byte_of_char_inj: "(word_of_nat (of_char c) :: byte) = word_of_nat (of_char d) \<longleftrightarrow> c = d"
proof -
  have "(of_char c :: nat) < 256" and "(of_char d :: nat) < 256"
    using of_char_mod_256 [of c, where 'a = nat] of_char_mod_256 [of d, where 'a = nat]
    by (metis mod_less_divisor zero_less_numeral)+
  then show ?thesis by (simp add: byte_of_nat_inj of_char_eq_iff)
qed

lemma str_bytes_inj [simp]: "str_bytes s = str_bytes t \<longleftrightarrow> s = t"
proof
  assume "str_bytes s = str_bytes t"
  then show "s = t"
  proof (induction s arbitrary: t)
    case Nil
    then show ?case by (simp add: str_bytes_def)
  next
    case (Cons a s)
    then obtain b t' where "t = b # t'" by (cases t) (auto simp: str_bytes_def)
    with Cons show ?case by (auto simp: str_bytes_def byte_of_char_inj)
  qed
qed simp

lemma length_str_bytes [simp]: "length (str_bytes s) = length s"
  by (simp add: str_bytes_def)

text \<open>\<open>to_be_bytes\<close>: the \<open>k\<close> bytes of a number below \<open>256^k\<close>, most significant first.\<close>

fun be_bytes :: "nat \<Rightarrow> nat \<Rightarrow> bytes" where
  "be_bytes 0 n = []"
| "be_bytes (Suc k) n = be_bytes k (n div 256) @ [word_of_nat (n mod 256)]"

lemma length_be_bytes [simp]: "length (be_bytes k n) = k"
  by (induction k arbitrary: n) auto

lemma be_bytes_inj: "m < 256 ^ k \<Longrightarrow> n < 256 ^ k \<Longrightarrow> be_bytes k m = be_bytes k n \<Longrightarrow> m = n"
proof (induction k arbitrary: m n)
  case 0
  then show ?case by simp
next
  case (Suc k)
  from Suc.prems(3) have hi: "be_bytes k (m div 256) = be_bytes k (n div 256)"
    and lo: "(word_of_nat (m mod 256) :: byte) = word_of_nat (n mod 256)" by simp_all
  have "m div 256 < 256 ^ k" and "n div 256 < 256 ^ k"
    using Suc.prems(1,2) by (simp_all add: less_mult_imp_div_less mult.commute)
  with hi have "m div 256 = n div 256" by (intro Suc.IH)
  moreover from lo have "m mod 256 = n mod 256" by (simp add: byte_of_nat_inj)
  ultimately show ?case by (metis mult_div_mod_eq)
qed

text \<open>Two's complement bytes of an \<open>i64\<close>.\<close>

definition i64_be_bytes :: "int \<Rightarrow> bytes" where
  "i64_be_bytes x = be_bytes 8 (nat (x mod 2 ^ 64))"

lemma length_i64_be_bytes [simp]: "length (i64_be_bytes x) = 8"
  by (simp add: i64_be_bytes_def)

lemma i64_be_bytes_inj: "in_i64 x \<Longrightarrow> in_i64 y \<Longrightarrow> i64_be_bytes x = i64_be_bytes y \<Longrightarrow> x = y"
proof -
  assume x: "in_i64 x" and y: "in_i64 y" and e: "i64_be_bytes x = i64_be_bytes y"
  have "nat (x mod 2 ^ 64) < 256 ^ 8" and "nat (y mod 2 ^ 64) < 256 ^ 8"
    using pos_mod_bound [of "2 ^ 64" x] pos_mod_bound [of "2 ^ 64" y] by (simp_all add: nat_less_iff)
  with e have "nat (x mod 2 ^ 64) = nat (y mod 2 ^ 64)"
    by (intro be_bytes_inj [where k = 8]) (simp_all add: i64_be_bytes_def)
  then have m: "x mod 2 ^ 64 = y mod 2 ^ 64"
    by (simp add: nat_eq_iff)
  have "(x + 2 ^ 63) mod 2 ^ 64 = (y + 2 ^ 63) mod 2 ^ 64"
    using m by (rule mod_add_cong) simp
  then have "wrap_i64 x = wrap_i64 y" by (simp add: wrap_s_def)
  then show "x = y" using x y by simp
qed

section \<open>Chunks\<close>

text \<open>\<open>slice::chunks\<close>.\<close>

function chunks :: "nat \<Rightarrow> 'a list \<Rightarrow> 'a list list" where
  "chunks n xs = (if xs = [] \<or> n = 0 then [] else take n xs # chunks n (drop n xs))"
  by pat_completeness auto
termination by (relation "measure (\<lambda>(n, xs). length xs)") auto

declare chunks.simps [simp del]

lemma chunks_concat: "0 < n \<Longrightarrow> concat (chunks n xs) = xs"
  by (induction n xs rule: chunks.induct) (subst chunks.simps, auto)

lemma chunks_length: "0 < n \<Longrightarrow> length (chunks n xs) = (length xs + n - 1) div n"
proof (induction n xs rule: chunks.induct)
  case (1 n xs)
  show ?case
  proof (cases "xs = []")
    case True
    then show ?thesis using 1 by (subst chunks.simps) simp
  next
    case False
    have "length (chunks n xs) = Suc ((length xs - n + n - 1) div n)"
      using 1 False by (subst chunks.simps) simp
    also have "\<dots> = (length xs + n - 1) div n"
    proof (cases "n \<le> length xs")
      case True
      then have e: "length xs + n - 1 = (length xs - n + n - 1) + n" using 1(2) by arith
      have "(length xs - n + n - 1 + n) div n = (length xs - n + n - 1) div n + 1"
        using 1(2) by (intro div_add_self2) simp
      then show ?thesis by (simp only: e Suc_eq_plus1)
    next
      case less: False
      have "length xs \<noteq> 0" using False by simp
      then have e: "length xs + n - 1 = (length xs - 1) + n" and s: "length xs - 1 < n" using less by arith+
      have "(length xs - 1 + n) div n = (length xs - 1) div n + 1" using 1(2) by (intro div_add_self2) simp
      moreover have "length xs - n = 0" using less by simp
      ultimately show ?thesis using s 1(2) by (simp only: e) simp
    qed
    finally show ?thesis .
  qed
qed

section \<open>Decimal rendering of integers\<close>

text \<open>\<open>to_string\<close> and \<open>format!\<close> of an unsigned and of a signed integer.\<close>

function show_nat :: "nat \<Rightarrow> string" where
  "show_nat n = (if n < 10 then [char_of (48 + n)] else show_nat (n div 10) @ [char_of (48 + n mod 10)])"
  by pat_completeness auto
termination by (relation "measure id") auto

declare show_nat.simps [simp del]

definition show_int :: "int \<Rightarrow> string" where
  "show_int x = (if x < 0 then ''-'' @ show_nat (nat (- x)) else show_nat (nat x))"

section \<open>Hash functions\<close>

text \<open>
  SHA-256 comes from the \<open>sha2\<close> crate: it is a parameter of every definition that uses it.
  Security statements are reductions: the claimed fact holds, or a concrete collision of the
  hash parameter has been found. \<open>sha256_len\<close> is the only fact about the crate that is ever
  assumed, its documented 32-byte output.
\<close>

type_synonym sha = "bytes \<Rightarrow> bytes"

definition sha256_len :: "sha \<Rightarrow> bool" where
  "sha256_len H \<longleftrightarrow> (\<forall>x. length (H x) = 32)"

definition collision :: "sha \<Rightarrow> bool" where
  "collision H \<longleftrightarrow> (\<exists>x y. x \<noteq> y \<and> H x = H y)"

lemma collisionI: "x \<noteq> y \<Longrightarrow> H x = H y \<Longrightarrow> collision H"
  by (auto simp: collision_def)

text \<open>
  The contract every hashed encoding of the code promises: on well-formed values the encoding is
  injective. Its client is the hash of the encoding, which then binds the value.
\<close>

locale injective_encoding =
  fixes enc :: "'a \<Rightarrow> bytes"
    and wf :: "'a \<Rightarrow> bool"
  assumes enc_inj: "wf x \<Longrightarrow> wf y \<Longrightarrow> enc x = enc y \<Longrightarrow> x = y"
begin

lemma hash_binds:
  assumes "wf x" and "wf y" and "H (enc x) = H (enc y)"
  shows "x = y \<or> collision H"
  using assms enc_inj collisionI by metis

lemma enc_neq: "wf x \<Longrightarrow> wf y \<Longrightarrow> x \<noteq> y \<Longrightarrow> enc x \<noteq> enc y"
  using enc_inj by blast

end

end
