(* ===== verification/Framing.thy ===== *)
theory Framing
  imports Prelude
begin

text \<open>
  Domain-separated hashing of crates/commitments: \<open>frame_hash\<close> of src/framing.rs. The model
  splits the hash input (\<open>frame_preimage\<close>) from the SHA-256 parameter, so that the
  unambiguity of the framing is a statement about bytes and the binding of the hash a reduction
  to collisions.
\<close>

datatype framing_error = TagTooLong nat | FieldTooLong nat

definition encode_len_u32 :: "nat \<Rightarrow> framing_error + bytes" where
  "encode_len_u32 len = (if len < 2 ^ 32 then Inr (be_bytes 4 len) else Inl (TagTooLong len))"

definition encode_len_u64 :: "nat \<Rightarrow> framing_error + bytes" where
  "encode_len_u64 len = (if len < 2 ^ 64 then Inr (be_bytes 8 len) else Inl (FieldTooLong len))"

text \<open>The loop over the fields: each adds its length prefix and its bytes to the hasher.\<close>

fun frame_fields :: "bytes list \<Rightarrow> framing_error + bytes" where
  "frame_fields [] = Inr []"
| "frame_fields (f # fs) =
     and_then (encode_len_u64 (length f)) (\<lambda>l.
     and_then (frame_fields fs) (\<lambda>rest. Inr (l @ f @ rest)))"

definition frame_preimage :: "string \<Rightarrow> bytes list \<Rightarrow> framing_error + bytes" where
  "frame_preimage tag fields =
     and_then (encode_len_u32 (length tag)) (\<lambda>l.
     and_then (frame_fields fields) (\<lambda>rest. Inr (l @ str_bytes tag @ rest)))"

definition frame_hash :: "sha \<Rightarrow> string \<Rightarrow> bytes list \<Rightarrow> framing_error + bytes" where
  "frame_hash H tag fields = and_then (frame_preimage tag fields) (\<lambda>p. Inr (H p))"

section \<open>When framing succeeds\<close>

lemma encode_len_u32_Inr [simp]: "encode_len_u32 n = Inr b \<longleftrightarrow> n < 2 ^ 32 \<and> b = be_bytes 4 n"
  by (auto simp: encode_len_u32_def)

lemma encode_len_u64_Inr [simp]: "encode_len_u64 n = Inr b \<longleftrightarrow> n < 2 ^ 64 \<and> b = be_bytes 8 n"
  by (auto simp: encode_len_u64_def)

definition framable :: "string \<Rightarrow> bytes list \<Rightarrow> bool" where
  "framable tag fields \<longleftrightarrow> length tag < 2 ^ 32 \<and> list_all (\<lambda>f. length f < 2 ^ 64) fields"

lemma frame_fields_total: "(\<exists>b. frame_fields fs = Inr b) \<longleftrightarrow> list_all (\<lambda>f. length f < 2 ^ 64) fs"
  by (induction fs) auto

lemma frame_preimage_total: "(\<exists>b. frame_preimage tag fs = Inr b) \<longleftrightarrow> framable tag fs"
  unfolding framable_def frame_fields_total [symmetric] by (auto simp: frame_preimage_def)

text \<open>
  The error branches: the tag is checked first, then the fields from left to right, and the error
  carries the offending length.
\<close>

lemma frame_hash_tag_error:
  "2 ^ 32 \<le> length tag \<Longrightarrow> frame_hash H tag fs = Inl (TagTooLong (length tag))"
  by (simp add: frame_hash_def frame_preimage_def encode_len_u32_def)

lemma frame_fields_error:
  assumes "list_all (\<lambda>f. length f < 2 ^ 64) fs" and "2 ^ 64 \<le> length g"
  shows "frame_fields (fs @ g # gs) = Inl (FieldTooLong (length g))"
  using assms(1)
proof (induction fs)
  case Nil
  then show ?case using assms(2) by (simp add: encode_len_u64_def)
next
  case (Cons f fs)
  then show ?case by (simp add: encode_len_u64_def)
qed

section \<open>The framing is unambiguous\<close>

lemma frame_fields_inj: "frame_fields fs = Inr b \<Longrightarrow> frame_fields gs = Inr b \<Longrightarrow> fs = gs"
proof (induction fs arbitrary: gs b)
  case Nil
  then show ?case
    by (cases gs) (auto dest: arg_cong [where f = length])
next
  case (Cons f fs)
  then obtain r where f: "length f < 2 ^ 64" and r: "frame_fields fs = Inr r"
    and b: "b = be_bytes 8 (length f) @ f @ r" by auto
  from Cons.prems(2) b obtain g gs' r' where gs: "gs = g # gs'" and g: "length g < 2 ^ 64"
    and r': "frame_fields gs' = Inr r'" and b': "b = be_bytes 8 (length g) @ g @ r'"
    by (cases gs) (auto dest: arg_cong [where f = length])
  have "be_bytes 8 (length f) = be_bytes 8 (length g)" and tl: "f @ r = g @ r'"
    using b b' by (simp_all add: append_eq_append_conv)
  then have len: "length f = length g"
    using f g be_bytes_inj [of "length f" 8 "length g"] by simp
  with tl have "f = g" and "r = r'" by simp_all
  then show ?case using Cons.IH [OF r] r' gs by simp
qed

lemma frame_preimage_inj:
  assumes "frame_preimage t fs = Inr b" and "frame_preimage u gs = Inr b"
  shows "t = u \<and> fs = gs"
proof -
  obtain r where t: "length t < 2 ^ 32" and r: "frame_fields fs = Inr r"
    and b: "b = be_bytes 4 (length t) @ str_bytes t @ r"
    using assms(1) by (auto simp: frame_preimage_def)
  obtain r' where u: "length u < 2 ^ 32" and r': "frame_fields gs = Inr r'"
    and b': "b = be_bytes 4 (length u) @ str_bytes u @ r'"
    using assms(2) by (auto simp: frame_preimage_def)
  have "be_bytes 4 (length t) = be_bytes 4 (length u)" and tl: "str_bytes t @ r = str_bytes u @ r'"
    using b b' by (simp_all add: append_eq_append_conv)
  then have "length t = length u"
    using t u be_bytes_inj [of "length t" 4 "length u"] by simp
  with tl have "t = u" and "r = r'" by simp_all
  then show ?thesis using frame_fields_inj [OF r] r' by simp
qed

interpretation fr: injective_encoding
  "\<lambda>(tag, fields). (case frame_preimage tag fields of Inr b \<Rightarrow> b | Inl _ \<Rightarrow> [])"
  "\<lambda>(tag, fields). framable tag fields"
proof unfold_locales
  fix x y :: "string \<times> bytes list"
  assume x: "case x of (tag, fields) \<Rightarrow> framable tag fields"
    and y: "case y of (tag, fields) \<Rightarrow> framable tag fields"
    and e: "(case x of (tag, fields) \<Rightarrow> case frame_preimage tag fields of Inr b \<Rightarrow> b | Inl _ \<Rightarrow> [])
      = (case y of (tag, fields) \<Rightarrow> case frame_preimage tag fields of Inr b \<Rightarrow> b | Inl _ \<Rightarrow> [])"
  obtain t fs where [simp]: "x = (t, fs)" by (cases x)
  obtain u gs where [simp]: "y = (u, gs)" by (cases y)
  obtain b c where "frame_preimage t fs = Inr b" and "frame_preimage u gs = Inr c"
    using x y frame_preimage_total by fastforce
  with e show "x = y" using frame_preimage_inj by auto
qed

text \<open>Two successful hashes that agree have the same tag and fields, or collide.\<close>

lemma frame_hash_binds:
  assumes "frame_hash H t fs = Inr d" and "frame_hash H u gs = Inr d"
  shows "(t = u \<and> fs = gs) \<or> collision H"
proof -
  have ok: "framable t fs" "framable u gs"
    using assms frame_preimage_total by (fastforce simp: frame_hash_def)+
  have "H (case frame_preimage t fs of Inr b \<Rightarrow> b | Inl _ \<Rightarrow> []) =
      H (case frame_preimage u gs of Inr b \<Rightarrow> b | Inl _ \<Rightarrow> [])"
    using assms by (auto simp: frame_hash_def)
  then show ?thesis using fr.hash_binds [of "(t, fs)" "(u, gs)" H] ok by auto
qed

lemma frame_hash_total: "framable tag fs \<Longrightarrow> \<exists>d. frame_hash H tag fs = Inr d"
  using frame_preimage_total by (fastforce simp: frame_hash_def)

lemma frame_hash_length: "sha256_len H \<Longrightarrow> frame_hash H tag fs = Inr d \<Longrightarrow> length d = 32"
  by (auto simp: frame_hash_def sha256_len_def)

end
