(* ===== verification/Canonical.thy ===== *)
theory Canonical
  imports Framing
begin

text \<open>
  Strict canonical JSON and private commitments (crates/commitments, canonical.rs and
  commitment.rs). The JSON reader, \<open>serde_json::Value\<close> and the RFC 8785 serializer are crates:
  the reader is a parameter that yields the document as the tree its visitor callbacks see (object
  keys in source order with their duplicates, the three kinds of number apart), the second read
  into a \<open>Value\<close> and the serializer are parameters too. What this crate adds, the strict visitor
  with its duplicate-key and float rules, is modelled callback by callback.
\<close>

datatype json =
    JNull
  | JBool bool
  | JI64 int
  | JU64 nat
  | JF64 string \<comment> \<open>the float as \<open>Display\<close> prints it\<close>
  | JStr string
  | JSeq "json list"
  | JMap "(string \<times> json) list"

datatype canonical_error =
    Parse string
  | DuplicateKey string
  | FloatRejected string
  | Jcs string

text \<open>
  \<open>StrictVisitor\<close>: scalars pass, a float is refused, \<open>visit_seq\<close> recurses, and \<open>visit_map\<close>
  refuses a key already in \<open>seen\<close> before it reads the key's value.
\<close>

fun visit :: "json \<Rightarrow> string + unit"
  and visit_seq :: "json list \<Rightarrow> string + unit"
  and visit_map :: "string set \<Rightarrow> (string \<times> json) list \<Rightarrow> string + unit" where
  "visit JNull = Inr ()"
| "visit (JBool v) = Inr ()"
| "visit (JI64 v) = Inr ()"
| "visit (JU64 v) = Inr ()"
| "visit (JF64 v) = Inl (''float-syntax number: '' @ v)"
| "visit (JStr v) = Inr ()"
| "visit (JSeq vs) = visit_seq vs"
| "visit (JMap kvs) = visit_map {} kvs"
| "visit_seq [] = Inr ()"
| "visit_seq (v # vs) = and_then (visit v) (\<lambda>_. visit_seq vs)"
| "visit_map seen [] = Inr ()"
| "visit_map seen ((k, v) # kvs) =
     (if k \<in> seen then Inl (''duplicate object key: '' @ k)
      else and_then (visit v) (\<lambda>_. visit_map (insert k seen) kvs))"

definition canonicalize_value :: "('v \<Rightarrow> string + bytes) \<Rightarrow> 'v \<Rightarrow> canonical_error + bytes" where
  "canonicalize_value jcs v = map_err Jcs (jcs v)"

definition canonicalize ::
  "(string \<Rightarrow> string + json) \<Rightarrow> (string \<Rightarrow> string + 'v) \<Rightarrow> ('v \<Rightarrow> string + bytes)
    \<Rightarrow> string \<Rightarrow> canonical_error + bytes" where
  "canonicalize reader from_str jcs text =
     and_then (map_err Parse (and_then (reader text) visit)) (\<lambda>_.
     and_then (map_err Parse (from_str text)) (\<lambda>v.
       canonicalize_value jcs v))"

section \<open>What the strict visitor accepts\<close>

text \<open>The specification: no float anywhere, and the keys of every object are distinct.\<close>

fun clean :: "json \<Rightarrow> bool" where
  "clean (JF64 v) = False"
| "clean (JSeq vs) = list_all clean vs"
| "clean (JMap kvs) = (distinct (map fst kvs) \<and> list_all (\<lambda>kv. clean (snd kv)) kvs)"
| "clean _ = True"

lemma visit_iff_clean:
  "visit j = Inr () \<longleftrightarrow> clean j"
  "visit_seq js = Inr () \<longleftrightarrow> list_all clean js"
  "visit_map seen kvs = Inr () \<longleftrightarrow>
     distinct (map fst kvs) \<and> seen \<inter> set (map fst kvs) = {} \<and> list_all (\<lambda>kv. clean (snd kv)) kvs"
  by (induction j and js and seen kvs rule: visit_visit_seq_visit_map.induct) auto

lemma canonicalize_Inr:
  "canonicalize reader from_str jcs text = Inr b \<longleftrightarrow>
     (\<exists>j v. reader text = Inr j \<and> clean j \<and> from_str text = Inr v \<and> jcs v = Inr b)"
  by (auto simp: canonicalize_def canonicalize_value_def visit_iff_clean(1) [symmetric])

lemma canonicalize_rejects_dirty:
  "reader text = Inr j \<Longrightarrow> \<not> clean j \<Longrightarrow> \<exists>m. canonicalize reader from_str jcs text = Inl (Parse m)"
  using visit_iff_clean(1) [of j] by (cases "visit j") (auto simp: canonicalize_def)

text \<open>
  Of the four error variants only \<open>Parse\<close> and \<open>Jcs\<close> are ever returned: a duplicate key or a
  float is reported through the reader's error and becomes a \<open>Parse\<close>.
\<close>

lemma canonicalize_error_variants:
  "canonicalize reader from_str jcs text = Inl e \<Longrightarrow> (\<exists>m. e = Parse m) \<or> (\<exists>m. e = Jcs m)"
  by (auto simp: canonicalize_def canonicalize_value_def and_then_Inl map_err_def
      split: sum.splits)

section \<open>Data commitments\<close>

datatype commitment_error = CCanonical canonical_error | CFraming framing_error

definition DATA_COMMITMENT_TAG :: string where
  "DATA_COMMITMENT_TAG = ''LZK/data/v1''"

definition data_commitment ::
  "sha \<Rightarrow> ('v \<Rightarrow> string + bytes) \<Rightarrow> bytes \<Rightarrow> 'v \<Rightarrow> commitment_error + bytes" where
  "data_commitment H jcs salt data =
     and_then (map_err CCanonical (canonicalize_value jcs data)) (\<lambda>canonical.
       map_err CFraming (frame_hash H DATA_COMMITMENT_TAG [salt, canonical]))"

lemma data_commitment_binds:
  assumes "data_commitment H jcs salt data = Inr d" and "data_commitment H jcs salt' data' = Inr d"
  shows "(salt = salt' \<and> jcs data = jcs data') \<or> collision H"
proof -
  obtain c where c: "jcs data = Inr c" "frame_hash H DATA_COMMITMENT_TAG [salt, c] = Inr d"
    using assms(1) by (auto simp: data_commitment_def canonicalize_value_def)
  obtain c' where c': "jcs data' = Inr c'" "frame_hash H DATA_COMMITMENT_TAG [salt', c'] = Inr d"
    using assms(2) by (auto simp: data_commitment_def canonicalize_value_def)
  show ?thesis using frame_hash_binds [OF c(2) c'(2)] c(1) c'(1) by auto
qed

end
