(* ===== verification/Merkle.thy ===== *)
theory Merkle
  imports Canonical
begin

text \<open>
  The Merkle tree of crates/commitments (merkle.rs): hashing of leaves, nodes and the external
  root, \<open>MerkleTree::build\<close> level by level, \<open>prove\<close> and \<open>verify_inclusion\<close>. Digests are
  byte strings, of length 32 under \<open>sha256_len\<close>. An option is around the operations that contain
  an \<open>expect\<close> or a slice index: \<open>None\<close> is the panic.
\<close>

definition LEAF_TAG :: string where "LEAF_TAG = ''LZK/leaf/v1''"
definition NODE_TAG :: string where "NODE_TAG = ''LZK/node/v1''"
definition TREE_TAG :: string where "TREE_TAG = ''LZK/tree/v1''"
definition EMPTY_TAG :: string where "EMPTY_TAG = ''LZK/empty/v1''"

datatype merkle_error =
    MCanonical canonical_error
  | MFraming framing_error
  | IndexOutOfRange nat nat
  | InvalidSiblingCount nat nat
  | RootMismatch
  | EmptyTree

definition leaf_hash ::
  "sha \<Rightarrow> ('v \<Rightarrow> string + bytes) \<Rightarrow> bytes \<Rightarrow> 'v \<Rightarrow> merkle_error + bytes" where
  "leaf_hash H jcs salt r =
     and_then (map_err MCanonical (canonicalize_value jcs r)) (\<lambda>canonical.
       map_err MFraming (frame_hash H LEAF_TAG [salt, canonical]))"

definition node_hash :: "sha \<Rightarrow> bytes \<Rightarrow> bytes \<Rightarrow> merkle_error + bytes" where
  "node_hash H left right = map_err MFraming (frame_hash H NODE_TAG [left, right])"

definition empty_top :: "sha \<Rightarrow> merkle_error + bytes" where
  "empty_top H = map_err MFraming (frame_hash H EMPTY_TAG [])"

definition external_root :: "sha \<Rightarrow> nat \<Rightarrow> bytes \<Rightarrow> merkle_error + bytes" where
  "external_root H count tp = map_err MFraming (frame_hash H TREE_TAG [be_bytes 8 count, tp])"

record inclusion_proof =
  ip_index :: nat
  ip_count :: nat
  ip_siblings :: "bytes list"

record merkle_tree =
  mt_root :: bytes
  mt_count :: nat
  mt_levels :: "bytes list list"

text \<open>\<open>reduce_level\<close>: pairs from the left, the last one of an odd level with itself.\<close>

fun reduce_level :: "sha \<Rightarrow> bytes list \<Rightarrow> bytes list option" where
  "reduce_level H [] = Some []"
| "reduce_level H [l] =
     (case node_hash H l l of Inl _ \<Rightarrow> None | Inr d \<Rightarrow> Some [d])"
| "reduce_level H (l # r # rest) =
     (case node_hash H l r of Inl _ \<Rightarrow> None
      | Inr d \<Rightarrow> map_option (\<lambda>next. d # next) (reduce_level H rest))"

lemma reduce_level_length: "reduce_level H xs = Some ys \<Longrightarrow> length ys = (length xs + 1) div 2"
  by (induction H xs arbitrary: ys rule: reduce_level.induct) (auto split: sum.splits)

text \<open>The \<open>while\<close> loop of \<open>build\<close>: reduce until one digest is left, keeping every level.\<close>

function build_levels :: "sha \<Rightarrow> bytes list \<Rightarrow> bytes list list option" where
  "build_levels H level =
     (if length level \<le> 1 then Some [level]
      else case reduce_level H level of None \<Rightarrow> None
        | Some next \<Rightarrow> map_option (\<lambda>ls. level # ls) (build_levels H next))"
  by pat_completeness auto
termination
  by (relation "measure (\<lambda>(H, level). length level)") (auto dest: reduce_level_length)

declare build_levels.simps [simp del]

definition build :: "sha \<Rightarrow> bytes list \<Rightarrow> (merkle_error + merkle_tree) option" where
  "build H leaves =
     (if leaves = [] then
        Some (and_then (empty_top H) (\<lambda>tp.
          and_then (external_root H 0 tp) (\<lambda>r. Inr \<lparr>mt_root = r, mt_count = 0, mt_levels = []\<rparr>)))
      else case build_levels H leaves of None \<Rightarrow> None
        | Some ls \<Rightarrow>
            Some (and_then (external_root H (length leaves) (hd (last ls))) (\<lambda>r.
              Inr \<lparr>mt_root = r, mt_count = length leaves, mt_levels = ls\<rparr>)))"

definition height :: "merkle_tree \<Rightarrow> nat" where
  "height t = length (mt_levels t) - 1"

definition sibling_index :: "nat \<Rightarrow> bytes list \<Rightarrow> nat" where
  "sibling_index i level =
     (if even i then (if i + 1 < length level then i + 1 else i) else i - 1)"

text \<open>The loop of \<open>prove\<close> over all levels but the last, with its indexing panic.\<close>

fun prove_siblings :: "nat \<Rightarrow> bytes list list \<Rightarrow> bytes list option" where
  "prove_siblings i [] = Some []"
| "prove_siblings i (level # rest) =
     (if sibling_index i level < length level
      then map_option (\<lambda>ss. level ! sibling_index i level # ss) (prove_siblings (i div 2) rest)
      else None)"

definition prove :: "merkle_tree \<Rightarrow> nat \<Rightarrow> (merkle_error + inclusion_proof) option" where
  "prove t i =
     (if mt_count t = 0 then Some (Inl EmptyTree)
      else if i \<ge> mt_count t then Some (Inl (IndexOutOfRange i (mt_count t)))
      else map_option (\<lambda>ss. Inr \<lparr>ip_index = i, ip_count = mt_count t, ip_siblings = ss\<rparr>)
             (prove_siblings i (butlast (mt_levels t))))"

text \<open>\<open>n.div_ceil(2)\<close> until 1, counting the steps.\<close>

function expected_height :: "nat \<Rightarrow> nat" where
  "expected_height n = (if n \<le> 1 then 0 else Suc (expected_height ((n + 1) div 2)))"
  by pat_completeness auto
termination
  by (relation "measure id") auto

declare expected_height.simps [simp del]

text \<open>The fold of \<open>verify_inclusion\<close> over the siblings, bottom up.\<close>

fun fold_path :: "sha \<Rightarrow> bytes \<Rightarrow> nat \<Rightarrow> bytes list \<Rightarrow> merkle_error + bytes" where
  "fold_path H hash i [] = Inr hash"
| "fold_path H hash i (s # ss) =
     and_then (if even i then node_hash H hash s else node_hash H s hash) (\<lambda>hash'.
       fold_path H hash' (i div 2) ss)"

definition verify_inclusion ::
  "sha \<Rightarrow> bytes \<Rightarrow> inclusion_proof \<Rightarrow> bytes \<Rightarrow> merkle_error + unit" where
  "verify_inclusion H leaf p expected_root =
     (if ip_count p = 0 then Inl EmptyTree
      else if ip_index p \<ge> ip_count p then Inl (IndexOutOfRange (ip_index p) (ip_count p))
      else if length (ip_siblings p) \<noteq> expected_height (ip_count p)
        then Inl (InvalidSiblingCount (expected_height (ip_count p)) (length (ip_siblings p)))
      else and_then (fold_path H leaf (ip_index p) (ip_siblings p)) (\<lambda>hash.
           and_then (external_root H (ip_count p) hash) (\<lambda>recomputed.
             if recomputed \<noteq> expected_root then Inl RootMismatch else Inr ())))"

section \<open>Nothing panics on digests\<close>

definition digests :: "bytes list \<Rightarrow> bool" where
  "digests xs \<longleftrightarrow> list_all (\<lambda>d. length d = 32) xs"

lemma digests_simps [simp]: "digests []" "digests (x # xs) \<longleftrightarrow> length x = 32 \<and> digests xs"
  by (simp_all add: digests_def)

lemma digests_nth: "digests xs \<Longrightarrow> i < length xs \<Longrightarrow> length (xs ! i) = 32"
  by (simp add: digests_def list_all_length)

lemma node_hash_total:
  "length l = 32 \<Longrightarrow> length r = 32 \<Longrightarrow> \<exists>d. node_hash H l r = Inr d"
  using frame_hash_total [of NODE_TAG "[l, r]" H]
  by (auto simp: node_hash_def framable_def NODE_TAG_def)

lemma node_hash_length: "sha256_len H \<Longrightarrow> node_hash H l r = Inr d \<Longrightarrow> length d = 32"
  by (auto simp: node_hash_def dest: frame_hash_length)

lemma external_root_total:
  "length tp = 32 \<Longrightarrow> \<exists>d. external_root H n tp = Inr d"
  using frame_hash_total [of TREE_TAG "[be_bytes 8 n, tp]" H]
  by (auto simp: external_root_def framable_def TREE_TAG_def)

lemma reduce_level_total:
  assumes "sha256_len H" and "digests xs"
  shows "\<exists>ys. reduce_level H xs = Some ys \<and> digests ys"
  using assms(2)
proof (induction xs rule: induct_list012)
  case 1
  then show ?case by simp
next
  case (2 l)
  then obtain d where "node_hash H l l = Inr d" using node_hash_total [of l l H] by auto
  then show ?case using node_hash_length [OF assms(1)] by auto
next
  case (3 l r rest)
  then obtain d ys where "node_hash H l r = Inr d" "reduce_level H rest = Some ys" "digests ys"
    using node_hash_total [of l r H] by auto
  then show ?case using node_hash_length [OF assms(1)] by auto
qed

text \<open>
  A chain of levels: each the reduction of the one before, down to a single digest. \<open>build\<close>
  produces one, and both directions of the inclusion proofs are inductions over it.
\<close>

inductive level_chain :: "sha \<Rightarrow> bytes list list \<Rightarrow> bool" for H where
  leaf: "level_chain H [[d]]"
| step: "1 < length level \<Longrightarrow> reduce_level H level = Some next \<Longrightarrow>
     level_chain H (next # ls) \<Longrightarrow> level_chain H (level # next # ls)"

inductive_cases level_chain_ConsE: "level_chain H (level # ls)"

lemma build_levels_short: "length xs \<le> 1 \<Longrightarrow> build_levels H xs = Some [xs]"
  by (simp add: build_levels.simps [of H xs])

lemma build_levels_long:
  "1 < length xs \<Longrightarrow> build_levels H xs = Some ls \<longleftrightarrow>
     (\<exists>n ls'. reduce_level H xs = Some n \<and> build_levels H n = Some ls' \<and> ls = xs # ls')"
  by (auto simp: build_levels.simps [of H xs] split: option.splits)

lemma build_levels_chain:
  "xs \<noteq> [] \<Longrightarrow> build_levels H xs = Some ls \<Longrightarrow> level_chain H ls \<and> hd ls = xs \<and> ls \<noteq> []"
proof (induction xs arbitrary: ls rule: length_induct)
  case (1 xs)
  show ?case
  proof (cases "length xs \<le> 1")
    case True
    with 1(2,3) obtain d where "xs = [d]" "ls = [[d]]"
      by (cases xs) (auto simp: build_levels_short)
    then show ?thesis by (auto intro: level_chain.leaf)
  next
    case False
    with 1(3) obtain n ls' where n: "reduce_level H xs = Some n" and ls': "build_levels H n = Some ls'"
      and ls: "ls = xs # ls'"
      by (auto simp: build_levels_long)
    have "n \<noteq> []" and "length n < length xs" using reduce_level_length [OF n] False by auto
    then have "level_chain H ls'" "hd ls' = n" "ls' \<noteq> []"
      using 1(1) ls' by auto
    then show ?thesis using False n ls level_chain.step by (cases ls') auto
  qed
qed

lemma build_levels_total:
  assumes "sha256_len H" and "digests xs"
  shows "\<exists>ls. build_levels H xs = Some ls \<and> list_all digests ls"
  using assms(2)
proof (induction xs rule: length_induct)
  case (1 xs)
  show ?case
  proof (cases "length xs \<le> 1")
    case True
    with 1(2) show ?thesis by (simp add: build_levels_short)
  next
    case False
    obtain n where n: "reduce_level H xs = Some n" "digests n"
      using reduce_level_total [OF assms(1) 1(2)] by auto
    then have "length n < length xs" using reduce_level_length [OF n(1)] False by auto
    with 1(1) n(2) obtain ls where "build_levels H n = Some ls" "list_all digests ls" by blast
    with n False 1(2) show ?thesis by (auto simp: build_levels_long)
  qed
qed

section \<open>Paths\<close>

lemma reduce_level_nth:
  "reduce_level H xs = Some ys \<Longrightarrow> j < length ys \<Longrightarrow>
     node_hash H (xs ! (2 * j)) (xs ! (if 2 * j + 1 < length xs then 2 * j + 1 else 2 * j)) = Inr (ys ! j)"
proof (induction xs arbitrary: ys j rule: induct_list012)
  case 1
  then show ?case by simp
next
  case (2 l)
  then show ?case by (auto split: sum.splits)
next
  case (3 l r rest)
  then obtain d ys' where e: "node_hash H l r = Inr d" "reduce_level H rest = Some ys'" "ys = d # ys'"
    by (auto split: sum.splits)
  show ?case
  proof (cases j)
    case 0
    with e show ?thesis by simp
  next
    case (Suc j')
    with 3(4) e have "j' < length ys'" by simp
    from 3(1) [OF e(2) this] show ?thesis using Suc e(3) by (auto split: if_splits)
  qed
qed

text \<open>The step of a path at one level, for the node and for its sibling.\<close>

lemma reduce_level_step:
  assumes "reduce_level H xs = Some ys" and "i < length xs"
  shows "i div 2 < length ys"
    and "sibling_index i xs < length xs"
    and "(if even i then node_hash H (xs ! i) (xs ! sibling_index i xs)
          else node_hash H (xs ! sibling_index i xs) (xs ! i)) = Inr (ys ! (i div 2))"
proof -
  show j: "i div 2 < length ys" using assms reduce_level_length by fastforce
  show "sibling_index i xs < length xs" using assms(2) by (auto simp: sibling_index_def)
  have "node_hash H (xs ! (2 * (i div 2)))
      (xs ! (if 2 * (i div 2) + 1 < length xs then 2 * (i div 2) + 1 else 2 * (i div 2))) = Inr (ys ! (i div 2))"
    using reduce_level_nth [OF assms(1) j] .
  moreover have "odd i \<Longrightarrow> i = 2 * (i div 2) + 1" and "even i \<Longrightarrow> i = 2 * (i div 2)" by simp_all
  ultimately show "(if even i then node_hash H (xs ! i) (xs ! sibling_index i xs)
          else node_hash H (xs ! sibling_index i xs) (xs ! i)) = Inr (ys ! (i div 2))"
    using assms(2) by (cases "even i") (auto simp: sibling_index_def elim!: oddE)
qed

lemma path_complete:
  "level_chain H ls \<Longrightarrow> i < length (hd ls) \<Longrightarrow>
     \<exists>ss. prove_siblings i (butlast ls) = Some ss \<and> length ss = length ls - 1
       \<and> fold_path H (hd ls ! i) i ss = Inr (hd (last ls))"
proof (induction arbitrary: i rule: level_chain.induct)
  case (leaf d)
  then show ?case by simp
next
  case (step level n ls)
  have i: "i < length level" using step.prems by simp
  obtain ss where ss: "prove_siblings (i div 2) (butlast (n # ls)) = Some ss"
    "length ss = length ls" "fold_path H (n ! (i div 2)) (i div 2) ss = Inr (hd (last (n # ls)))"
    using step.IH reduce_level_step(1) [OF step.hyps(2) i] by auto
  have "fold_path H (level ! i) i (level ! sibling_index i level # ss) = Inr (hd (last (n # ls)))"
    using reduce_level_step(3) [OF step.hyps(2) i] ss(3) by simp
  then show ?case using ss reduce_level_step(2) [OF step.hyps(2) i]
    by (intro exI [of _ "level ! sibling_index i level # ss"]) simp
qed

lemma chain_height: "level_chain H ls \<Longrightarrow> length ls - 1 = expected_height (length (hd ls))"
proof (induction rule: level_chain.induct)
  case (leaf d)
  then show ?case by (simp add: expected_height.simps)
next
  case (step level n ls)
  then show ?case
    using reduce_level_length [OF step.hyps(2)] by (simp add: expected_height.simps [of "length level"])
qed

lemma node_hash_binds:
  "node_hash H l r = Inr d \<Longrightarrow> node_hash H l' r' = Inr d \<Longrightarrow> (l = l' \<and> r = r') \<or> collision H"
  using frame_hash_binds [of H NODE_TAG "[l, r]" d NODE_TAG "[l', r']"] by (auto simp: node_hash_def)

lemma external_root_binds:
  assumes "external_root H n t = Inr d" and "external_root H m u = Inr d" and "n < 2 ^ 64" and "m < 2 ^ 64"
  shows "(n = m \<and> t = u) \<or> collision H"
proof -
  have "be_bytes 8 n = be_bytes 8 m \<and> t = u \<or> collision H"
    using frame_hash_binds [of H TREE_TAG "[be_bytes 8 n, t]" d TREE_TAG "[be_bytes 8 m, u]"] assms(1,2)
    by (auto simp: external_root_def)
  then show ?thesis using be_bytes_inj [of n 8 m] assms(3,4) by auto
qed

lemma path_sound:
  "level_chain H ls \<Longrightarrow> i < length (hd ls) \<Longrightarrow> length ss = length ls - 1 \<Longrightarrow>
     fold_path H leaf i ss = Inr (hd (last ls)) \<Longrightarrow> leaf = hd ls ! i \<or> collision H"
proof (induction arbitrary: i ss leaf rule: level_chain.induct)
  case (leaf d)
  then show ?case by simp
next
  case (step level n ls)
  have i: "i < length level" using step.prems by simp
  obtain s ss' where ss: "ss = s # ss'" "length ss' = length ls" using step.prems(2) by (cases ss) auto
  obtain h where h: "(if even i then node_hash H leaf s else node_hash H s leaf) = Inr h"
    and f: "fold_path H h (i div 2) ss' = Inr (hd (last (n # ls)))"
    using step.prems(3) ss(1) by auto
  have "h = n ! (i div 2) \<or> collision H"
    using step.IH [of "i div 2" ss' h] reduce_level_step(1) [OF step.hyps(2) i] ss(2) f by auto
  then show ?case
    using reduce_level_step(3) [OF step.hyps(2) i] h node_hash_binds
    by (auto split: if_splits) blast+
qed

lemma reduce_level_binds:
  "reduce_level H xs = Some zs \<Longrightarrow> reduce_level H ys = Some zs \<Longrightarrow> length xs = length ys \<Longrightarrow>
     xs = ys \<or> collision H"
proof -
  assume x: "reduce_level H xs = Some zs" and y: "reduce_level H ys = Some zs"
    and len: "length xs = length ys"
  have "xs ! i = ys ! i \<or> collision H" if i: "i < length xs" for i
    using reduce_level_step(3) [OF x i] reduce_level_step(3) [OF y i [unfolded len]] node_hash_binds
    by (auto split: if_splits) blast+
  then show ?thesis using len by (auto intro: nth_equalityI)
qed

lemma chain_binds:
  "level_chain H ls \<Longrightarrow> level_chain H ms \<Longrightarrow> length (hd ls) = length (hd ms) \<Longrightarrow>
     hd (last ls) = hd (last ms) \<Longrightarrow> hd ls = hd ms \<or> collision H"
proof (induction arbitrary: ms rule: level_chain.induct)
  case (leaf d)
  from leaf.prems(1) show ?case
    by (cases rule: level_chain.cases) (use leaf.prems in auto)
next
  case (step level n ls)
  from step.prems(1) step.hyps(1) step.prems(2) obtain m' n' ms' where
    ms: "ms = m' # n' # ms'" "reduce_level H m' = Some n'" "level_chain H (n' # ms')"
    by (cases rule: level_chain.cases) auto
  have "length n = length n'"
    using reduce_level_length [OF step.hyps(2)] reduce_level_length [OF ms(2)] step.prems(2) ms(1) by simp
  then have "n = n' \<or> collision H" using step.IH [OF ms(3)] step.prems(3) ms(1) by simp
  then show ?case using reduce_level_binds [OF step.hyps(2)] ms(1,2) step.prems(2) by auto
qed

section \<open>The tree\<close>

lemma build_Inr:
  assumes "build H leaves = Some (Inr t)" and "leaves \<noteq> []"
  shows "level_chain H (mt_levels t)" and "hd (mt_levels t) = leaves" and "mt_count t = length leaves"
    and "external_root H (length leaves) (hd (last (mt_levels t))) = Inr (mt_root t)"
  using assms by (auto simp: build_def split: option.splits dest: build_levels_chain)

lemma build_total:
  assumes "sha256_len H" and "digests leaves"
  shows "\<exists>t. build H leaves = Some (Inr t)"
proof (cases "leaves = []")
  case True
  obtain tp where "empty_top H = Inr tp"
    using frame_hash_total [of EMPTY_TAG "[]" H] by (auto simp: empty_top_def framable_def EMPTY_TAG_def)
  moreover from this have "length tp = 32"
    using frame_hash_length [OF assms(1)] by (auto simp: empty_top_def)
  then obtain r where "external_root H 0 tp = Inr r" using external_root_total by blast
  ultimately show ?thesis using True by (simp add: build_def)
next
  case False
  obtain ls where ls: "build_levels H leaves = Some ls" "list_all digests ls"
    using build_levels_total [OF assms] by auto
  then have "level_chain H ls" "ls \<noteq> []" using build_levels_chain False by auto
  then obtain d where "last ls = [d]" by (induction rule: level_chain.induct) auto
  moreover have "digests (last ls)" using ls(2) \<open>ls \<noteq> []\<close> by (simp add: list_all_iff)
  ultimately obtain r where "external_root H (length leaves) (hd (last ls)) = Inr r"
    using external_root_total [of d] by auto
  with ls False show ?thesis by (simp add: build_def)
qed

lemma build_root_binds:
  assumes "build H xs = Some (Inr t)" and "build H ys = Some (Inr u)" and "xs \<noteq> []" and "ys \<noteq> []"
    and "length xs < 2 ^ 64" and "length ys < 2 ^ 64" and "mt_root t = mt_root u"
  shows "xs = ys \<or> collision H"
proof -
  note b = build_Inr [OF assms(1,3)] and c = build_Inr [OF assms(2,4)]
  have "(length xs = length ys \<and> hd (last (mt_levels t)) = hd (last (mt_levels u))) \<or> collision H"
    using external_root_binds [OF b(4) _ assms(5,6)] c(4) assms(7) by simp
  then show ?thesis using chain_binds [OF b(1) c(1)] b(2) c(2) by auto
qed

section \<open>Properties\<close>

text \<open>
  Completeness of inclusion proofs: for a tree built over any non-empty list of digests,
  \<open>prove\<close> returns a proof for every index below the count, with exactly \<open>height\<close> siblings, and
  \<open>verify_inclusion\<close> accepts it for that leaf against the tree's root. Odd levels and the
  duplicated last node are included.
\<close>

theorem merkle_inclusion_complete:
  assumes "sha256_len H" and "digests leaves" and "i < length leaves"
  shows "\<exists>t p. build H leaves = Some (Inr t) \<and> prove t i = Some (Inr p) \<and>
    length (ip_siblings p) = height t \<and> verify_inclusion H (leaves ! i) p (mt_root t) = Inr ()"
proof -
  obtain t where t: "build H leaves = Some (Inr t)" using build_total [OF assms(1,2)] by blast
  have ne: "leaves \<noteq> []" using assms(3) by auto
  note b = build_Inr [OF t ne]
  obtain ss where ss: "prove_siblings i (butlast (mt_levels t)) = Some ss"
    "length ss = length (mt_levels t) - 1" "fold_path H (leaves ! i) i ss = Inr (hd (last (mt_levels t)))"
    using path_complete [OF b(1)] b(2) assms(3) by metis
  let ?p = "\<lparr>ip_index = i, ip_count = length leaves, ip_siblings = ss\<rparr>"
  have "prove t i = Some (Inr ?p)" using ss(1) b(3) assms(3) ne by (auto simp: prove_def)
  moreover have "verify_inclusion H (leaves ! i) ?p (mt_root t) = Inr ()"
    using ss b chain_height [OF b(1)] assms(3) by (auto simp: verify_inclusion_def)
  ultimately show ?thesis using t ss(2) by (auto simp: height_def)
qed

text \<open>
  C4. Soundness of inclusion proofs: whatever index, count and siblings a proof carries, if
  \<open>verify_inclusion\<close> accepts it against the root of the tree built over \<open>leaves\<close>, then its count
  is the number of leaves, its index is in range and the verified leaf is the one at that index,
  or a collision of the hash function has been found.
\<close>

theorem merkle_inclusion_sound:
  assumes "build H leaves = Some (Inr t)" and "leaves \<noteq> []" and "length leaves < 2 ^ 64"
    and "ip_count p < 2 ^ 64" and "verify_inclusion H leaf p (mt_root t) = Inr ()"
  shows "(ip_count p = length leaves \<and> ip_index p < length leaves \<and> leaf = leaves ! ip_index p)
    \<or> collision H"
proof -
  note b = build_Inr [OF assms(1,2)]
  from assms(5) obtain h where i: "ip_index p < ip_count p"
    and len: "length (ip_siblings p) = expected_height (ip_count p)"
    and h: "fold_path H leaf (ip_index p) (ip_siblings p) = Inr h"
    and r: "external_root H (ip_count p) h = Inr (mt_root t)"
    by (auto simp: verify_inclusion_def split: if_splits)
  have "(ip_count p = length leaves \<and> h = hd (last (mt_levels t))) \<or> collision H"
    using external_root_binds [OF r b(4) assms(4,3)] .
  then show ?thesis
  proof
    assume e: "ip_count p = length leaves \<and> h = hd (last (mt_levels t))"
    then have "leaf = hd (mt_levels t) ! ip_index p \<or> collision H"
      using path_sound [OF b(1)] h i len chain_height [OF b(1)] b(2) by metis
    then show ?thesis using e b(2) i by auto
  qed simp
qed

text \<open>
  The external root commits to the whole ordered list of leaves: two non-empty lists with the
  same root are equal, or a collision of the hash function has been found. Duplicating the last
  node of an odd level does not make the padded list a second preimage, because the leaf count is
  hashed into the root.
\<close>

theorem merkle_root_binds_leaves:
  assumes "build H xs = Some (Inr t)" and "build H ys = Some (Inr u)" and "xs \<noteq> []" and "ys \<noteq> []"
    and "length xs < 2 ^ 64" and "length ys < 2 ^ 64" and "mt_root t = mt_root u"
  shows "xs = ys \<or> collision H"
  using assms by (rule build_root_binds)

section \<open>Witnesses\<close>

text \<open>A concrete 32-byte function in the place of SHA-256, for evaluation only.\<close>

definition sample_sha :: sha where
  "sample_sha x = take 32 (rev x @ replicate 32 0)"

lemma sample_sha_len: "sha256_len sample_sha"
  by (auto simp: sha256_len_def sample_sha_def min_def)

definition sample_leaves :: "bytes list" where
  "sample_leaves = [replicate 32 1, replicate 32 2, replicate 32 3]"

lemma sample_leaves_digests: "digests sample_leaves"
  by (simp add: sample_leaves_def)

theorem merkle_inclusion_complete_witness:
  "\<exists>t p. build sample_sha sample_leaves = Some (Inr t) \<and> prove t 2 = Some (Inr p) \<and>
    length (ip_siblings p) = height t \<and> verify_inclusion sample_sha (sample_leaves ! 2) p (mt_root t) = Inr ()"
  by (rule merkle_inclusion_complete [OF sample_sha_len sample_leaves_digests])
    (simp add: sample_leaves_def)

theorem merkle_inclusion_sound_witness:
  "\<exists>t p. build sample_sha sample_leaves = Some (Inr t) \<and> verify_inclusion sample_sha (sample_leaves ! 1) p (mt_root t) = Inr ()
    \<and> ((ip_count p = length sample_leaves \<and> ip_index p < length sample_leaves \<and>
       sample_leaves ! 1 = sample_leaves ! ip_index p) \<or> collision sample_sha)"
proof -
  obtain t where t: "build sample_sha sample_leaves = Some (Inr t)"
    using build_total [OF sample_sha_len sample_leaves_digests] by blast
  have ne: "sample_leaves \<noteq> []" by (simp add: sample_leaves_def)
  note b = build_Inr [OF t ne]
  obtain ss where ss: "length ss = length (mt_levels t) - 1"
    "fold_path sample_sha (sample_leaves ! 1) 1 ss = Inr (hd (last (mt_levels t)))"
    using path_complete [OF b(1), of 1] b(2) by (auto simp: sample_leaves_def)
  let ?p = "\<lparr>ip_index = 1, ip_count = length sample_leaves, ip_siblings = ss\<rparr>"
  have v: "verify_inclusion sample_sha (sample_leaves ! 1) ?p (mt_root t) = Inr ()"
    using ss b chain_height [OF b(1)] ne by (auto simp: verify_inclusion_def) (simp_all add: sample_leaves_def)
  show ?thesis
    using t v merkle_inclusion_sound [OF t ne _ _ v] by (intro exI conjI) (auto simp: sample_leaves_def)
qed

definition zero_sha :: sha where
  "zero_sha x = replicate 32 0"

theorem merkle_root_binds_leaves_witness:
  "\<exists>t u. build zero_sha sample_leaves = Some (Inr t) \<and> build zero_sha (rev sample_leaves) = Some (Inr u)
    \<and> mt_root t = mt_root u \<and> (sample_leaves = rev sample_leaves \<or> collision zero_sha)"
proof -
  have len: "sha256_len zero_sha" by (simp add: sha256_len_def zero_sha_def)
  have dig: "digests (rev sample_leaves)" by (simp add: sample_leaves_def)
  have ne: "sample_leaves \<noteq> []" "rev sample_leaves \<noteq> []" by (simp_all add: sample_leaves_def)
  obtain t u where t: "build zero_sha sample_leaves = Some (Inr t)"
    and u: "build zero_sha (rev sample_leaves) = Some (Inr u)"
    using build_total [OF len] sample_leaves_digests dig by blast
  have zero: "external_root zero_sha n d = Inr r \<Longrightarrow> r = replicate 32 0" for n d r
    by (auto simp: external_root_def frame_hash_def zero_sha_def)
  have "mt_root t = mt_root u"
    using zero [OF build_Inr(4) [OF t ne(1)]] zero [OF build_Inr(4) [OF u ne(2)]] by simp
  moreover from this have "sample_leaves = rev sample_leaves \<or> collision zero_sha"
    using merkle_root_binds_leaves [OF t u ne] by (simp add: sample_leaves_def)
  ultimately show ?thesis using t u by blast
qed

end
