(* ===== verification/Checkpoint.thy ===== *)
theory Checkpoint
  imports Prelude
begin

text \<open>
  crates/domain/checkpoint: calendar-derived gaps (calendar.rs), the checkpoint chain (chain.rs)
  and continuity segments with late recovery (continuity.rs). Instants are \<open>i64\<close> milliseconds.
  The loop of \<open>derive_gaps\<close> has no bound of its own, so it is a partial function: \<open>None\<close> means
  that it does not return.
\<close>

section \<open>Calendar gaps\<close>

record calendar_policy =
  cal_interval_ms :: int
  cal_grace_ms :: int

record gap =
  gap_start_ms :: int
  gap_end_ms :: int

partial_function (option) derive_gaps_from :: "calendar_policy \<Rightarrow> int \<Rightarrow> int \<Rightarrow> gap list option" where
  "derive_gaps_from policy start now_ms =
     (let end_ms = wrap_i64 (start + cal_interval_ms policy);
          deadline = wrap_i64 (end_ms + cal_grace_ms policy)
      in if deadline > now_ms then Some []
         else Option.bind (derive_gaps_from policy end_ms now_ms)
                (\<lambda>gaps. Some (\<lparr>gap_start_ms = start, gap_end_ms = end_ms\<rparr> # gaps)))"

definition derive_gaps :: "calendar_policy \<Rightarrow> int \<Rightarrow> int \<Rightarrow> gap list option" where
  "derive_gaps policy last_committed_end_ms now_ms =
     derive_gaps_from policy last_committed_end_ms now_ms"

text \<open>The intervals a verifier expects: \<open>n\<close> consecutive ones from \<open>start\<close>.\<close>

definition intervals_from :: "calendar_policy \<Rightarrow> int \<Rightarrow> nat \<Rightarrow> gap list" where
  "intervals_from policy start n = map (\<lambda>k. \<lparr>gap_start_ms = start + int k * cal_interval_ms policy,
     gap_end_ms = start + int (Suc k) * cal_interval_ms policy\<rparr>) [0..<n]"

lemma intervals_from_0 [simp]: "intervals_from policy start 0 = []"
  by (simp add: intervals_from_def)

lemma intervals_from_Suc:
  "intervals_from policy start (Suc n) =
     \<lparr>gap_start_ms = start, gap_end_ms = start + cal_interval_ms policy\<rparr>
       # intervals_from policy (start + cal_interval_ms policy) n"
  unfolding intervals_from_def upt_conv_Cons [OF zero_less_Suc] map_Suc_upt [symmetric]
  by (simp add: algebra_simps)

definition missed_intervals :: "calendar_policy \<Rightarrow> int \<Rightarrow> int \<Rightarrow> nat" where
  "missed_intervals policy start now_ms =
     nat ((now_ms - cal_grace_ms policy - start) div cal_interval_ms policy)"

text \<open>The bounds under which no instant the loop computes overflows.\<close>

definition calendar_ok :: "calendar_policy \<Rightarrow> int \<Rightarrow> int \<Rightarrow> bool" where
  "calendar_ok policy start now_ms \<longleftrightarrow> 0 < cal_interval_ms policy \<and> 0 \<le> cal_grace_ms policy \<and> in_i64 start
     \<and> in_i64 (start + cal_interval_ms policy + cal_grace_ms policy) \<and> in_i64 (now_ms + cal_interval_ms policy)"

lemma missed_intervals_step:
  assumes "0 < cal_interval_ms policy" and "start + cal_interval_ms policy + cal_grace_ms policy \<le> now_ms"
  shows "missed_intervals policy start now_ms =
    Suc (missed_intervals policy (start + cal_interval_ms policy) now_ms)"
proof -
  let ?i = "cal_interval_ms policy"
  let ?d = "now_ms - cal_grace_ms policy - (start + ?i)"
  have "now_ms - cal_grace_ms policy - start = ?d + ?i" by simp
  then have "(now_ms - cal_grace_ms policy - start) div ?i = ?d div ?i + 1"
    using assms(1) by (metis div_add_self2 less_irrefl)
  moreover have "0 \<le> ?d div ?i" using assms by (simp add: pos_imp_zdiv_nonneg_iff)
  ultimately show ?thesis by (simp add: missed_intervals_def nat_add_distrib)
qed

lemma missed_intervals_none:
  assumes "0 < cal_interval_ms policy" and "now_ms < start + cal_interval_ms policy + cal_grace_ms policy"
  shows "missed_intervals policy start now_ms = 0"
proof -
  have "now_ms - cal_grace_ms policy - start < cal_interval_ms policy" using assms(2) by simp
  then have "(now_ms - cal_grace_ms policy - start) div cal_interval_ms policy \<le> 0"
    using assms(1) by (metis div_pos_pos_trivial div_neg_pos_less0 le_less not_le)
  then show ?thesis by (simp add: missed_intervals_def)
qed

lemma derive_gaps_from_exact:
  "calendar_ok policy start now_ms \<Longrightarrow> missed_intervals policy start now_ms = n \<Longrightarrow>
     derive_gaps_from policy start now_ms = Some (intervals_from policy start n)"
proof (induction n arbitrary: start)
  case 0
  let ?i = "cal_interval_ms policy" and ?g = "cal_grace_ms policy"
  have i: "0 < ?i" "0 \<le> ?g" "in_i64 start" "in_i64 (start + ?i + ?g)" "in_i64 (now_ms + ?i)"
    using 0(1) by (auto simp: calendar_ok_def)
  have e: "in_i64 (start + ?i)" using i by (auto simp: in_s_def)
  have "now_ms < start + ?i + ?g"
    using 0(2) missed_intervals_step [OF i(1), of start now_ms] by (cases "start + ?i + ?g \<le> now_ms") auto
  then show ?case using i e by (simp add: derive_gaps_from.simps)
next
  case (Suc n)
  let ?i = "cal_interval_ms policy" and ?g = "cal_grace_ms policy"
  have i: "0 < ?i" "0 \<le> ?g" "in_i64 start" "in_i64 (start + ?i + ?g)" "in_i64 (now_ms + ?i)"
    using Suc.prems(1) by (auto simp: calendar_ok_def)
  have e: "in_i64 (start + ?i)" using i by (auto simp: in_s_def)
  have le: "start + ?i + ?g \<le> now_ms"
    using Suc.prems(2) missed_intervals_none [OF i(1), of now_ms start]
    by (cases "start + ?i + ?g \<le> now_ms") auto
  have "calendar_ok policy (start + ?i) now_ms"
    using i e le by (auto simp: calendar_ok_def in_s_def)
  moreover have "missed_intervals policy (start + ?i) now_ms = n"
    using missed_intervals_step [OF i(1) le] Suc.prems(2) by simp
  ultimately have "derive_gaps_from policy (start + ?i) now_ms = Some (intervals_from policy (start + ?i) n)"
    by (rule Suc.IH)
  then show ?case using i e le
    by (subst derive_gaps_from.simps) (simp add: intervals_from_Suc Let_def)
qed

text \<open>Which intervals those are, without counting: all whose grace has expired.\<close>

lemma intervals_from_length [simp]: "length (intervals_from policy start n) = n"
  by (simp add: intervals_from_def)

lemma missed_intervals_less:
  assumes "0 < cal_interval_ms policy"
  shows "k < missed_intervals policy start now_ms \<longleftrightarrow>
    start + int (Suc k) * cal_interval_ms policy + cal_grace_ms policy \<le> now_ms"
proof -
  let ?i = "cal_interval_ms policy" and ?d = "now_ms - cal_grace_ms policy - start"
  have "k < nat (?d div ?i) \<longleftrightarrow> int (Suc k) \<le> ?d div ?i" by linarith
  also have "\<dots> \<longleftrightarrow> int (Suc k) * ?i \<le> ?d"
  proof
    assume "int (Suc k) \<le> ?d div ?i"
    then have "int (Suc k) * ?i \<le> ?d div ?i * ?i" using assms by (intro mult_right_mono) simp_all
    also have "\<dots> \<le> ?d" using assms pos_mod_sign [of ?i ?d] by (simp add: minus_mod_eq_div_mult [symmetric])
    finally show "int (Suc k) * ?i \<le> ?d" .
  next
    assume "int (Suc k) * ?i \<le> ?d"
    then have "int (Suc k) * ?i div ?i \<le> ?d div ?i" using assms by (intro zdiv_mono1)
    then show "int (Suc k) \<le> ?d div ?i" using assms by simp
  qed
  finally show ?thesis by (auto simp: missed_intervals_def)
qed

text \<open>
  Gap derivation terminates and is exact. For a positive interval, a non-negative grace period
  and instants that do not overflow, \<open>derive_gaps\<close> returns, and what it returns is exactly the
  run of consecutive calendar intervals after the last committed end whose deadline (end plus
  grace) has passed: interval \<open>k\<close> is reported if and only if its deadline is not after now. It
  depends on nothing but the policy, the last committed end and the time.
\<close>

theorem derive_gaps_exact:
  assumes "calendar_ok policy last_end now_ms"
  shows "\<exists>gaps. derive_gaps policy last_end now_ms = Some gaps \<and>
    (\<forall>k. k < length gaps \<longleftrightarrow>
       last_end + int (Suc k) * cal_interval_ms policy + cal_grace_ms policy \<le> now_ms) \<and>
    (\<forall>k < length gaps. gaps ! k = \<lparr>gap_start_ms = last_end + int k * cal_interval_ms policy,
       gap_end_ms = last_end + int (Suc k) * cal_interval_ms policy\<rparr>)"
proof -
  have i: "0 < cal_interval_ms policy" using assms by (simp add: calendar_ok_def)
  have "derive_gaps policy last_end now_ms =
      Some (intervals_from policy last_end (missed_intervals policy last_end now_ms))"
    unfolding derive_gaps_def using assms by (rule derive_gaps_from_exact) simp
  then show ?thesis
    using missed_intervals_less [OF i] by (simp add: intervals_from_def)
qed

definition day_policy :: calendar_policy where
  "day_policy = \<lparr>cal_interval_ms = 86400000, cal_grace_ms = 86400000\<rparr>"

theorem derive_gaps_exact_witness:
  "\<exists>gaps. derive_gaps day_policy 0 300000000 = Some gaps \<and>
    (\<forall>k. k < length gaps \<longleftrightarrow>
       0 + int (Suc k) * cal_interval_ms day_policy + cal_grace_ms day_policy \<le> 300000000) \<and>
    (\<forall>k < length gaps. gaps ! k = \<lparr>gap_start_ms = 0 + int k * cal_interval_ms day_policy,
       gap_end_ms = 0 + int (Suc k) * cal_interval_ms day_policy\<rparr>)"
  by (rule derive_gaps_exact) (simp add: calendar_ok_def day_policy_def in_s_def)

text \<open>
  With a zero interval the loop of \<open>derive_gaps\<close> never leaves: as soon as the grace period of
  the (empty) first interval has expired, the call does not return. Nothing in the code or in the
  command line of the verifier, whose \<open>--interval-ms\<close> reaches this loop, rejects that policy.
\<close>

theorem derive_gaps_zero_interval_diverges:
  assumes "cal_interval_ms policy = 0" and "in_i64 last_end"
    and "wrap_i64 (last_end + cal_grace_ms policy) \<le> now_ms"
  shows "derive_gaps policy last_end now_ms = None"
proof (rule ccontr)
  assume "derive_gaps policy last_end now_ms \<noteq> None"
  then obtain gaps where ret: "derive_gaps_from policy last_end now_ms = Some gaps"
    by (auto simp: derive_gaps_def)
  have "cal_interval_ms policy = 0 \<longrightarrow> in_i64 last_end \<longrightarrow>
      \<not> wrap_i64 (last_end + cal_grace_ms policy) \<le> now_ms"
  proof (rule derive_gaps_from.raw_induct [where P = "\<lambda>policy start now_ms gaps.
      cal_interval_ms policy = 0 \<longrightarrow> in_i64 start \<longrightarrow> \<not> wrap_i64 (start + cal_grace_ms policy) \<le> now_ms",
      OF _ ret], intro impI notI)
    fix f :: "calendar_policy \<Rightarrow> int \<Rightarrow> int \<Rightarrow> gap list option"
      and policy start now_ms gaps
    assume IH: "\<And>policy start now_ms gaps. f policy start now_ms = Some gaps \<Longrightarrow>
        cal_interval_ms policy = 0 \<longrightarrow> in_i64 start \<longrightarrow> \<not> wrap_i64 (start + cal_grace_ms policy) \<le> now_ms"
      and eq: "(let end_ms = wrap_i64 (start + cal_interval_ms policy);
          deadline = wrap_i64 (end_ms + cal_grace_ms policy)
        in if deadline > now_ms then Some []
           else Option.bind (f policy end_ms now_ms)
             (\<lambda>gaps. Some (\<lparr>gap_start_ms = start, gap_end_ms = end_ms\<rparr> # gaps))) = Some gaps"
      and z: "cal_interval_ms policy = 0" and r: "in_i64 start"
      and d: "wrap_i64 (start + cal_grace_ms policy) \<le> now_ms"
    from eq z r d obtain gs where "f policy start now_ms = Some gs"
      by (auto simp: Let_def split: bind_splits)
    with IH z r d show False by blast
  qed
  with assms show False by blast
qed

theorem derive_gaps_zero_interval_diverges_witness:
  "derive_gaps \<lparr>cal_interval_ms = 0, cal_grace_ms = 86400000\<rparr> 0 100000000 = None"
  by (rule derive_gaps_zero_interval_diverges) (simp_all add: in_s_def wrap_s_def)

section \<open>Continuity segments\<close>

record segment =
  seg_start_ms :: int
  seg_end_ms :: int

fun segments_from :: "int \<Rightarrow> int \<Rightarrow> gap list \<Rightarrow> segment list" where
  "segments_from cursor track_end_ms [] =
     (if track_end_ms > cursor then [\<lparr>seg_start_ms = cursor, seg_end_ms = track_end_ms\<rparr>] else [])"
| "segments_from cursor track_end_ms (g # gaps) =
     (if gap_start_ms g > cursor then [\<lparr>seg_start_ms = cursor, seg_end_ms = gap_start_ms g\<rparr>] else [])
     @ segments_from (max (gap_end_ms g) cursor) track_end_ms gaps"

definition segments_between :: "int \<Rightarrow> int \<Rightarrow> gap list \<Rightarrow> segment list" where
  "segments_between track_start_ms track_end_ms gaps = segments_from track_start_ms track_end_ms gaps"

record late_supplement =
  late_gap :: gap
  recovered_at_ms :: int

datatype late_recovery_error = NotLate int int

definition recover_late ::
  "calendar_policy \<Rightarrow> gap \<Rightarrow> int \<Rightarrow> late_recovery_error + late_supplement" where
  "recover_late policy g at_ms =
     (let deadline_ms = wrap_i64 (gap_end_ms g + cal_grace_ms policy) in
      if at_ms \<le> deadline_ms then Inl (NotLate at_ms deadline_ms)
      else Inr \<lparr>late_gap = g, recovered_at_ms = at_ms\<rparr>)"

definition in_gaps :: "gap list \<Rightarrow> int \<Rightarrow> bool" where
  "in_gaps gaps t \<longleftrightarrow> list_ex (\<lambda>g. gap_start_ms g \<le> t \<and> t < gap_end_ms g) gaps"

definition in_segments :: "segment list \<Rightarrow> int \<Rightarrow> bool" where
  "in_segments segs t \<longleftrightarrow> list_ex (\<lambda>s. seg_start_ms s \<le> t \<and> t < seg_end_ms s) segs"

text \<open>
  The documented precondition, gaps sorted by their start (overlaps are tolerated by the \<open>max\<close>),
  and none starting after the end of the track.
\<close>

definition gaps_ok :: "int \<Rightarrow> gap list \<Rightarrow> bool" where
  "gaps_ok track_end_ms gaps \<longleftrightarrow>
     sorted (map gap_start_ms gaps) \<and> list_all (\<lambda>g. gap_start_ms g \<le> track_end_ms) gaps"

lemma in_simps [simp]:
  "in_gaps [] t \<longleftrightarrow> False"
  "in_gaps (g # gs) t \<longleftrightarrow> gap_start_ms g \<le> t \<and> t < gap_end_ms g \<or> in_gaps gs t"
  "in_segments [] t \<longleftrightarrow> False"
  "in_segments (s # ss) t \<longleftrightarrow> seg_start_ms s \<le> t \<and> t < seg_end_ms s \<or> in_segments ss t"
  "in_segments (ss @ ss') t \<longleftrightarrow> in_segments ss t \<or> in_segments ss' t"
  by (simp_all add: in_gaps_def in_segments_def)

lemma in_gaps_ge: "sorted (map gap_start_ms (g # gs)) \<Longrightarrow> in_gaps gs t \<Longrightarrow> gap_start_ms g \<le> t"
  by (auto simp: in_gaps_def list_ex_iff dest!: bspec)

lemma segments_from_cover:
  "gaps_ok track_end gaps \<Longrightarrow>
     in_segments (segments_from cursor track_end gaps) t \<longleftrightarrow> cursor \<le> t \<and> t < track_end \<and> \<not> in_gaps gaps t"
proof (induction gaps arbitrary: cursor)
  case Nil
  then show ?case by simp
next
  case (Cons g gs)
  have "gaps_ok track_end gs" and s: "sorted (map gap_start_ms (g # gs))" and e: "gap_start_ms g \<le> track_end"
    using Cons.prems by (auto simp: gaps_ok_def)
  then show ?case using Cons.IH [of "max (gap_end_ms g) cursor"] in_gaps_ge [OF s, of t]
    by auto
qed

text \<open>Segments are non-empty, in order and apart, and lie after the cursor.\<close>

definition segments_ok :: "int \<Rightarrow> segment list \<Rightarrow> bool" where
  "segments_ok lo segs \<longleftrightarrow> list_all (\<lambda>s. lo \<le> seg_start_ms s \<and> seg_start_ms s < seg_end_ms s) segs
     \<and> sorted_wrt (\<lambda>s s'. seg_end_ms s \<le> seg_start_ms s') segs"

lemma segments_ok_simps [simp]:
  "segments_ok lo []"
  "segments_ok lo (s # ss) \<longleftrightarrow> lo \<le> seg_start_ms s \<and> seg_start_ms s < seg_end_ms s
     \<and> list_all (\<lambda>s'. seg_end_ms s \<le> seg_start_ms s') ss \<and> segments_ok lo ss"
  by (auto simp: segments_ok_def list_all_iff)

lemma segments_ok_mono: "segments_ok hi ss \<Longrightarrow> lo \<le> hi \<Longrightarrow> segments_ok lo ss"
  by (auto simp: segments_ok_def list_all_iff)

lemma segments_from_ok:
  "list_all (\<lambda>g. gap_start_ms g \<le> gap_end_ms g) gaps \<Longrightarrow> segments_ok cursor (segments_from cursor track_end gaps)"
proof (induction gaps arbitrary: cursor)
  case Nil
  then show ?case by simp
next
  case (Cons g gs)
  then have ok: "segments_ok (max (gap_end_ms g) cursor) (segments_from (max (gap_end_ms g) cursor) track_end gs)"
    by simp
  then have "list_all (\<lambda>s'. gap_start_ms g \<le> seg_start_ms s') (segments_from (max (gap_end_ms g) cursor) track_end gs)"
    using Cons.prems by (fastforce simp: segments_ok_def list_all_iff)
  then show ?case using segments_ok_mono [OF ok, of cursor] by simp
qed

text \<open>
  The continuity segments are exactly the track minus its gaps: for gaps sorted by start and
  not starting after the end of the track, an instant lies in some segment if and only if it is in
  the track's half-open interval and in no gap; the segments are non-empty, ordered and disjoint.
\<close>

theorem segments_between_partition:
  assumes "gaps_ok track_end gaps" and "list_all (\<lambda>g. gap_start_ms g \<le> gap_end_ms g) gaps"
  shows "(in_segments (segments_between track_start track_end gaps) t \<longleftrightarrow>
      track_start \<le> t \<and> t < track_end \<and> \<not> in_gaps gaps t)
    \<and> segments_ok track_start (segments_between track_start track_end gaps)"
  unfolding segments_between_def using assms by (simp add: segments_from_cover segments_from_ok)

theorem segments_between_partition_witness:
  "(in_segments (segments_between 0 100 [\<lparr>gap_start_ms = 10, gap_end_ms = 20\<rparr>]) 20 \<longleftrightarrow>
      0 \<le> (20::int) \<and> (20::int) < 100 \<and> \<not> in_gaps [\<lparr>gap_start_ms = 10, gap_end_ms = 20\<rparr>] 20)
    \<and> segments_ok 0 (segments_between 0 100 [\<lparr>gap_start_ms = 10, gap_end_ms = 20\<rparr>])"
  by (rule segments_between_partition) (simp_all add: gaps_ok_def)

text \<open>A gap that starts after the track's end is not clamped: its segment runs past the end.\<close>

lemma segments_between_not_clamped:
  "segments_between 0 100 [\<lparr>gap_start_ms = 150, gap_end_ms = 160\<rparr>]
     = [\<lparr>seg_start_ms = 0, seg_end_ms = 150\<rparr>]"
  by (simp add: segments_between_def)

lemma recover_late_Inr:
  "recover_late policy g at_ms = Inr s \<longleftrightarrow>
     wrap_i64 (gap_end_ms g + cal_grace_ms policy) < at_ms \<and> s = \<lparr>late_gap = g, recovered_at_ms = at_ms\<rparr>"
  by (auto simp: recover_late_def Let_def)

section \<open>The checkpoint chain\<close>

datatype checkpoint_state = Collecting | Reconciled | Committed | Anchored | Finalized

record checkpoint =
  cp_sequence :: nat
  cp_previous_digest :: "bytes option"
  cp_digest :: bytes
  cp_interval_start_ms :: int
  cp_interval_end_ms :: int
  cp_state :: checkpoint_state

datatype chain_error = SequenceMismatch nat nat | PreviousDigestMismatch

definition link_next :: "checkpoint \<Rightarrow> checkpoint \<Rightarrow> chain_error + unit" where
  "link_next previous next =
     (let expected_sequence = wrap_u64 (cp_sequence previous + 1) in
      if cp_sequence next \<noteq> expected_sequence
        then Inl (SequenceMismatch expected_sequence (cp_sequence next))
      else if cp_previous_digest next \<noteq> Some (cp_digest previous) then Inl PreviousDigestMismatch
      else Inr ())"

lemma link_next_Inr:
  "link_next p n = Inr () \<longleftrightarrow>
     cp_sequence n = wrap_u64 (cp_sequence p + 1) \<and> cp_previous_digest n = Some (cp_digest p)"
  by (auto simp: link_next_def Let_def)

text \<open>A track's chain: every checkpoint links to the one before.\<close>

fun linked :: "checkpoint list \<Rightarrow> bool" where
  "linked (p # n # cs) \<longleftrightarrow> link_next p n = Inr () \<and> linked (n # cs)"
| "linked _ = True"

lemma linked_sequence:
  "linked cs \<Longrightarrow> i < length cs \<Longrightarrow> cp_sequence (hd cs) + length cs \<le> 2 ^ 64 \<Longrightarrow>
     cp_sequence (cs ! i) = cp_sequence (hd cs) + i"
proof (induction cs arbitrary: i rule: linked.induct)
  case (1 p n cs)
  then have "cp_sequence n = cp_sequence p + 1" by (simp add: link_next_Inr)
  with 1 show ?case by (cases i) auto
qed auto

lemma linked_previous:
  "linked cs \<Longrightarrow> 0 < i \<Longrightarrow> i < length cs \<Longrightarrow> cp_previous_digest (cs ! i) = Some (cp_digest (cs ! (i - 1)))"
proof (induction cs arbitrary: i rule: linked.induct)
  case (1 p n cs)
  show ?case
  proof (cases "i = 1")
    case True
    with 1 show ?thesis by (simp add: link_next_Inr)
  next
    case False
    with 1 have "cp_previous_digest ((n # cs) ! (i - 1)) = Some (cp_digest ((n # cs) ! (i - 1 - 1)))"
      by (intro 1(1)) auto
    with False 1(3) show ?thesis by (simp add: nth_Cons')
  qed
qed auto

text \<open>
  In a chain whose every adjacent pair \<open>link_next\<close> accepts, no checkpoint is missing, repeated
  or reordered: the sequence numbers count up by one from the first (as long as \<open>u64\<close> does not
  wrap), so no two positions share one, and every checkpoint after the first names the digest of
  the checkpoint right before it.
\<close>

theorem linked_chain_contiguous:
  assumes "linked cs" and "cp_sequence (hd cs) + length cs \<le> 2 ^ 64"
  shows "(\<forall>i < length cs. cp_sequence (cs ! i) = cp_sequence (hd cs) + i)
    \<and> distinct (map cp_sequence cs)
    \<and> (\<forall>i < length cs. 0 < i \<longrightarrow> cp_previous_digest (cs ! i) = Some (cp_digest (cs ! (i - 1))))"
proof -
  have seq: "\<forall>i < length cs. cp_sequence (cs ! i) = cp_sequence (hd cs) + i"
    using linked_sequence [OF assms(1)] assms(2) by blast
  then have "distinct (map cp_sequence cs)" by (simp add: distinct_conv_nth)
  with seq show ?thesis using linked_previous [OF assms(1)] by blast
qed

definition sample_checkpoint :: "nat \<Rightarrow> bytes option \<Rightarrow> bytes \<Rightarrow> checkpoint" where
  "sample_checkpoint n prev d = \<lparr>cp_sequence = n, cp_previous_digest = prev, cp_digest = d,
     cp_interval_start_ms = 0, cp_interval_end_ms = 1, cp_state = Committed\<rparr>"

theorem linked_chain_contiguous_witness:
  "(let cs = [sample_checkpoint 5 None [1], sample_checkpoint 6 (Some [1]) [2], sample_checkpoint 7 (Some [2]) [3]]
    in (\<forall>i < length cs. cp_sequence (cs ! i) = cp_sequence (hd cs) + i)
    \<and> distinct (map cp_sequence cs)
    \<and> (\<forall>i < length cs. 0 < i \<longrightarrow> cp_previous_digest (cs ! i) = Some (cp_digest (cs ! (i - 1)))))"
  unfolding Let_def
  by (rule linked_chain_contiguous) (simp_all add: link_next_Inr sample_checkpoint_def)

end
