(* ===== verification/Decimal.thy ===== *)
theory Decimal
  imports Prelude
begin

text \<open>
  \<open>rust_decimal::Decimal\<close> is a crate the sources only call, so its arithmetic is a parameter: a
  record of the checked operations over the values the decimals denote. \<open>None\<close> is what the
  \<open>checked_*\<close> methods return on overflow (and for a zero divisor); the plain operators
  \<open>+ - * /\<close> panic exactly there. Comparison and equality of \<open>Decimal\<close> are by value, so a
  decimal is modelled by the rational it denotes.

  \<open>rounded_arith\<close> is the contract the metric theorems rest on: every operation returns a
  rounding of the exact result, the rounding is monotone, keeps 0 and 1 and is odd, and it only
  fails for magnitudes beyond the largest decimal. \<open>dec96\<close> is a concrete arithmetic of that
  kind with the documented format (a 96-bit mantissa and at most 28 fractional digits); it
  discharges the contract and evaluates the witnesses. No theorem depends on it otherwise.
\<close>

type_synonym decimal = rat

record arith =
  dadd :: "decimal \<Rightarrow> decimal \<Rightarrow> decimal option"
  dsub :: "decimal \<Rightarrow> decimal \<Rightarrow> decimal option"
  dmul :: "decimal \<Rightarrow> decimal \<Rightarrow> decimal option"
  ddiv :: "decimal \<Rightarrow> decimal \<Rightarrow> decimal option"

text \<open>\<open>iter().sum()\<close>: a left fold of the panicking \<open>+\<close> from zero.\<close>

definition dsum :: "arith \<Rightarrow> decimal list \<Rightarrow> decimal option" where
  "dsum A xs = try_fold (dadd A) 0 xs"

lemma dsum_Nil [simp]: "dsum A [] = Some 0"
  by (simp add: dsum_def)

section \<open>The contract\<close>

locale rounded_arith =
  fixes A :: arith
    and rnd :: "rat \<Rightarrow> rat option"
  assumes add_rnd: "dadd A x y = rnd (x + y)"
    and sub_rnd: "dsub A x y = rnd (x - y)"
    and mul_rnd: "dmul A x y = rnd (x * y)"
    and div_rnd: "ddiv A x y = (if y = 0 then None else rnd (x / y))"
    and rnd_mono: "x \<le> y \<Longrightarrow> rnd x = Some x' \<Longrightarrow> rnd y = Some y' \<Longrightarrow> x' \<le> y'"
    and rnd_int: "\<bar>n\<bar> \<le> 2 ^ 64 \<Longrightarrow> rnd (of_int n) = Some (of_int n)"
    and rnd_uminus: "rnd (- x) = map_option uminus (rnd x)"
    and rnd_total_below: "\<bar>x\<bar> \<le> \<bar>y\<bar> \<Longrightarrow> rnd y = Some y' \<Longrightarrow> \<exists>x'. rnd x = Some x'"
begin

lemma rnd_0: "rnd 0 = Some 0"
  using rnd_int [of 0] by simp

lemma rnd_1: "rnd 1 = Some 1"
  using rnd_int [of 1] by simp

lemma rnd_nonneg: "0 \<le> x \<Longrightarrow> rnd x = Some y \<Longrightarrow> 0 \<le> y"
  using rnd_mono [of 0 x 0 y] by (simp add: rnd_0)

lemma rnd_nonpos: "x \<le> 0 \<Longrightarrow> rnd x = Some y \<Longrightarrow> y \<le> 0"
  using rnd_mono [of x 0 y 0] by (simp add: rnd_0)

lemma rnd_le_1: "x \<le> 1 \<Longrightarrow> rnd x = Some y \<Longrightarrow> y \<le> 1"
  using rnd_mono [of x 1 y 1] by (simp add: rnd_1)

lemma rnd_unit: "0 \<le> x \<Longrightarrow> x \<le> 1 \<Longrightarrow> \<exists>y. rnd x = Some y \<and> 0 \<le> y \<and> y \<le> 1"
  using rnd_total_below [of x 1] rnd_1 rnd_nonneg rnd_le_1 by fastforce

end

section \<open>A concrete arithmetic with the documented format\<close>

text \<open>Rounding to the nearest integer, ties to even.\<close>

definition round_he :: "rat \<Rightarrow> int" where
  "round_he q = (let f = \<lfloor>q\<rfloor>; r = q - of_int f in
     if r < 1 / 2 then f else if r > 1 / 2 then f + 1 else if even f then f else f + 1)"

definition max_mantissa :: int where
  "max_mantissa = 79228162514264337593543950335"

text \<open>
  The largest scale, 28 digits at first, at which the rounded mantissa fits 96 bits.
\<close>

fun rnd_from :: "nat \<Rightarrow> rat \<Rightarrow> rat option" where
  "rnd_from 0 q = (let m = round_he q in if \<bar>m\<bar> \<le> max_mantissa then Some (of_int m) else None)"
| "rnd_from (Suc e) q =
     (let m = round_he (q * 10 ^ Suc e) in
      if \<bar>m\<bar> \<le> max_mantissa then Some (of_int m / 10 ^ Suc e) else rnd_from e q)"

definition rnd96 :: "rat \<Rightarrow> rat option" where
  "rnd96 = rnd_from 28"

definition dec96 :: arith where
  "dec96 = \<lparr>dadd = \<lambda>x y. rnd96 (x + y), dsub = \<lambda>x y. rnd96 (x - y), dmul = \<lambda>x y. rnd96 (x * y),
     ddiv = \<lambda>x y. if y = 0 then None else rnd96 (x / y)\<rparr>"

lemma round_he_bounds: "of_int (round_he q) - 1 / 2 \<le> q \<and> q \<le> of_int (round_he q) + 1 / 2"
proof -
  define f :: rat where "f = of_int \<lfloor>q\<rfloor>"
  have "f \<le> q" and "q < f + 1" unfolding f_def by linarith+
  then show ?thesis by (auto simp: round_he_def Let_def f_def [symmetric])
qed

lemma round_he_mono: "x \<le> y \<Longrightarrow> round_he x \<le> round_he y"
proof (cases "\<lfloor>x\<rfloor> = \<lfloor>y\<rfloor>")
  case True
  assume "x \<le> y"
  with True show ?thesis by (auto simp: round_he_def Let_def)
next
  case False
  assume "x \<le> y"
  with False have "\<lfloor>x\<rfloor> + 1 \<le> \<lfloor>y\<rfloor>" using floor_mono [of x y] by linarith
  moreover have "round_he x \<le> \<lfloor>x\<rfloor> + 1" and "\<lfloor>y\<rfloor> \<le> round_he y"
    by (simp_all add: round_he_def Let_def)
  ultimately show ?thesis by linarith
qed

lemma round_he_ge: "of_int n - 1 / 2 < q \<Longrightarrow> n \<le> round_he q"
proof -
  assume "of_int n - 1 / 2 < q"
  then have "of_int n - 1 < (of_int (round_he q) :: rat)" using round_he_bounds [of q] by linarith
  then have "of_int (n - 1) < (of_int (round_he q) :: rat)" by simp
  then show ?thesis by (simp only: of_int_less_iff)
qed

lemma round_he_int [simp]: "round_he (of_int n) = n"
  by (simp add: round_he_def)

lemma round_he_uminus: "round_he (- x) = - round_he x"
proof (cases "x = of_int \<lfloor>x\<rfloor>")
  case True
  then show ?thesis by (metis of_int_minus round_he_int)
next
  case False
  have fl: "of_int \<lfloor>x\<rfloor> \<le> x" "x < of_int \<lfloor>x\<rfloor> + 1" by linarith+
  with False have "\<lfloor>- x\<rfloor> = - \<lfloor>x\<rfloor> - 1"
    by (intro floor_unique) (simp_all add: less_le)
  then show ?thesis by (auto simp: round_he_def Let_def)
qed

lemma rnd_from_uminus: "rnd_from e (- x) = map_option uminus (rnd_from e x)"
proof (induction e)
  case 0
  then show ?case by (simp add: Let_def round_he_uminus)
next
  case (Suc e)
  have "round_he (- x * 10 ^ Suc e) = - round_he (x * 10 ^ Suc e)"
    by (metis minus_mult_left round_he_uminus)
  with Suc show ?case by (simp add: Let_def del: power_Suc)
qed

text \<open>
  If a value is too large for scale \<open>Suc e\<close>, every coarser scale rounds it to at least the
  largest mantissa at scale \<open>Suc e\<close>: so the rounding stays monotone across scales.
\<close>

lemma rnd_from_large:
  assumes "max_mantissa < round_he (y * 10 ^ Suc e)" and "rnd_from e y = Some y'"
  shows "of_int max_mantissa / 10 ^ Suc e \<le> y'"
  using assms
proof (induction e)
  case 0
  have "of_int max_mantissa + 1 / 2 \<le> y * 10"
    using 0(1) round_he_bounds [of "y * 10"] by (simp add: max_mantissa_def)
  then have "7922816251426433759354395034 \<le> round_he y"
    by (intro round_he_ge) (simp add: max_mantissa_def)
  moreover have "y' = of_int (round_he y)"
    using 0(2) by (simp add: Let_def split: if_splits)
  ultimately have "7922816251426433759354395034 \<le> y'"
    by (metis of_int_le_iff of_int_numeral)
  then show ?case by (simp add: max_mantissa_def)
next
  case (Suc e)
  show ?case
  proof (cases "\<bar>round_he (y * 10 ^ Suc e)\<bar> \<le> max_mantissa")
    case True
    then have y': "y' = of_int (round_he (y * 10 ^ Suc e)) / 10 ^ Suc e"
      using Suc.prems(2) by (simp add: Let_def del: power_Suc)
    have "of_int max_mantissa + 1 / 2 \<le> y * 10 ^ Suc (Suc e)"
      using Suc.prems(1) round_he_bounds [of "y * 10 ^ Suc (Suc e)"]
      by (simp add: max_mantissa_def del: power_Suc)
    then have "of_int max_mantissa / 10 + 1 / 20 \<le> y * 10 ^ Suc e"
      by simp
    then have "7922816251426433759354395034 \<le> round_he (y * 10 ^ Suc e)"
      by (intro round_he_ge) (simp add: max_mantissa_def del: power_Suc)
    then have "7922816251426433759354395034 \<le> (of_int (round_he (y * 10 ^ Suc e)) :: rat)"
      by (metis of_int_le_iff of_int_numeral)
    then have "of_int max_mantissa / 10 \<le> (of_int (round_he (y * 10 ^ Suc e)) :: rat)"
      by (simp add: max_mantissa_def del: power_Suc)
    then show ?thesis by (simp add: y' divide_right_mono field_simps)
  next
    case False
    then have "max_mantissa < \<bar>round_he (y * 10 ^ Suc e)\<bar>" by simp
    moreover have "0 \<le> y"
    proof (rule ccontr)
      assume "\<not> 0 \<le> y"
      then have "round_he (y * 10 ^ Suc (Suc e)) \<le> round_he 0"
        by (intro round_he_mono) (simp add: mult_nonpos_nonneg)
      with Suc.prems(1) show False by (simp add: max_mantissa_def round_he_def)
    qed
    then have "0 \<le> round_he (y * 10 ^ Suc e)"
      using round_he_mono [of 0 "y * 10 ^ Suc e"] by (simp add: round_he_def)
    ultimately have "max_mantissa < round_he (y * 10 ^ Suc e)" by simp
    moreover have "rnd_from e y = Some y'"
      using Suc.prems(2) False by (simp add: Let_def del: power_Suc)
    ultimately have "of_int max_mantissa / 10 ^ Suc e \<le> y'" by (rule Suc.IH)
    moreover have "of_int max_mantissa / 10 ^ Suc (Suc e) \<le> (of_int max_mantissa / 10 ^ Suc e :: rat)"
      by (simp add: max_mantissa_def field_simps)
    ultimately show ?thesis by linarith
  qed
qed

lemma rnd_from_mono: "x \<le> y \<Longrightarrow> rnd_from e x = Some x' \<Longrightarrow> rnd_from e y = Some y' \<Longrightarrow> x' \<le> y'"
proof (induction e)
  case 0
  then show ?case using round_he_mono [of x y] by (simp add: Let_def split: if_splits)
next
  case (Suc e)
  let ?a = "round_he (x * 10 ^ Suc e)" and ?b = "round_he (y * 10 ^ Suc e)"
  have ab: "?a \<le> ?b" using Suc.prems(1) by (intro round_he_mono mult_right_mono) simp_all
  consider (both) "\<bar>?a\<bar> \<le> max_mantissa" "\<bar>?b\<bar> \<le> max_mantissa"
    | (left) "\<bar>?a\<bar> \<le> max_mantissa" "max_mantissa < ?b"
    | (right) "?a < - max_mantissa" "\<bar>?b\<bar> \<le> max_mantissa"
    | (none) "\<not> \<bar>?a\<bar> \<le> max_mantissa" "\<not> \<bar>?b\<bar> \<le> max_mantissa"
    using ab by linarith
  then show ?case
  proof cases
    case both
    with Suc.prems ab show ?thesis by (auto simp: Let_def divide_right_mono simp del: power_Suc)
  next
    case left
    then have x': "x' = of_int ?a / 10 ^ Suc e" and y': "rnd_from e y = Some y'"
      using Suc.prems by (auto simp: Let_def simp del: power_Suc)
    have "of_int max_mantissa / 10 ^ Suc e \<le> y'" using left(2) y' by (rule rnd_from_large)
    moreover have "x' \<le> of_int max_mantissa / 10 ^ Suc e"
      unfolding x' using left(1) by (intro divide_right_mono) auto
    ultimately show ?thesis by linarith
  next
    case right
    then have y': "y' = of_int ?b / 10 ^ Suc e" and x': "rnd_from e (- x) = Some (- x')"
      using Suc.prems by (auto simp: Let_def rnd_from_uminus simp del: power_Suc)
    have "max_mantissa < round_he (- x * 10 ^ Suc e)"
      using right(1) unfolding mult_minus_left round_he_uminus by linarith
    then have "of_int max_mantissa / 10 ^ Suc e \<le> - x'" using x' by (rule rnd_from_large)
    moreover have "of_int (- max_mantissa) / 10 ^ Suc e \<le> y'"
      unfolding y' using right(2) by (intro divide_right_mono of_int_le_iff [THEN iffD2]) auto
    ultimately show ?thesis by linarith
  next
    case none
    with Suc show ?thesis by (simp add: Let_def del: power_Suc)
  qed
qed

lemma rnd_from_int: "\<bar>n\<bar> \<le> 2 ^ 64 \<Longrightarrow> rnd_from e (of_int n) = Some (of_int n)"
proof (induction e)
  case 0
  then show ?case by (simp add: max_mantissa_def)
next
  case (Suc e)
  have "round_he (of_int n * 10 ^ Suc e) = n * 10 ^ Suc e"
    by (metis of_int_mult of_int_numeral of_int_power round_he_int)
  with Suc show ?case by (simp add: Let_def del: power_Suc)
qed

lemma round_he_abs: "\<bar>round_he x\<bar> = round_he \<bar>x\<bar>"
proof (cases "0 \<le> x")
  case True
  then have "0 \<le> round_he x" using round_he_mono [of 0 x] by (simp add: round_he_def)
  with True show ?thesis by simp
next
  case False
  then have "0 \<le> round_he (- x)" using round_he_mono [of 0 "- x"] by (simp add: round_he_def)
  with False show ?thesis by (simp add: round_he_uminus)
qed

lemma rnd_from_Some_iff: "(\<exists>y. rnd_from e x = Some y) \<longleftrightarrow> \<bar>round_he x\<bar> \<le> max_mantissa"
proof (induction e)
  case 0
  then show ?case by (simp add: Let_def)
next
  case (Suc e)
  have "\<bar>round_he x\<bar> \<le> max_mantissa" if "\<bar>round_he (x * 10 ^ Suc e)\<bar> \<le> max_mantissa"
  proof -
    have "\<bar>x\<bar> * 1 \<le> \<bar>x\<bar> * 10 ^ Suc e" by (intro mult_left_mono one_le_power) simp_all
    then have "\<bar>x\<bar> \<le> \<bar>x * 10 ^ Suc e\<bar>" by (simp add: abs_mult)
    then have "round_he \<bar>x\<bar> \<le> round_he \<bar>x * 10 ^ Suc e\<bar>" by (rule round_he_mono)
    with that show ?thesis by (simp add: round_he_abs)
  qed
  with Suc show ?case by (auto simp: Let_def simp del: power_Suc)
qed

interpretation d96: rounded_arith dec96 rnd96
proof unfold_locales
  fix x y x' y' :: rat
  show "x \<le> y \<Longrightarrow> rnd96 x = Some x' \<Longrightarrow> rnd96 y = Some y' \<Longrightarrow> x' \<le> y'"
    unfolding rnd96_def by (rule rnd_from_mono)
next
  fix n :: int
  show "\<bar>n\<bar> \<le> 2 ^ 64 \<Longrightarrow> rnd96 (of_int n) = Some (of_int n)"
    unfolding rnd96_def by (rule rnd_from_int)
next
  fix x :: rat
  show "rnd96 (- x) = map_option uminus (rnd96 x)"
    unfolding rnd96_def by (rule rnd_from_uminus)
next
  fix x y y' :: rat
  assume "\<bar>x\<bar> \<le> \<bar>y\<bar>" and "rnd96 y = Some y'"
  then have "round_he \<bar>x\<bar> \<le> round_he \<bar>y\<bar>" and "\<bar>round_he y\<bar> \<le> max_mantissa"
    unfolding rnd96_def using rnd_from_Some_iff by (blast intro: round_he_mono)+
  then show "\<exists>x'. rnd96 x = Some x'"
    unfolding rnd96_def rnd_from_Some_iff round_he_abs by linarith
qed (simp_all add: dec96_def)

lemma dec96_simps [simp]:
  "dadd dec96 x y = rnd96 (x + y)"
  "dsub dec96 x y = rnd96 (x - y)"
  "dmul dec96 x y = rnd96 (x * y)"
  "ddiv dec96 x y = (if y = 0 then None else rnd96 (x / y))"
  by (simp_all add: dec96_def)

lemma rnd96_int [simp]: "\<bar>n\<bar> \<le> 2 ^ 64 \<Longrightarrow> rnd96 (of_int n) = Some (of_int n)"
  by (rule d96.rnd_int)

lemma rnd96_numeral [simp]: "numeral n \<le> (2 ^ 64 :: int) \<Longrightarrow> rnd96 (numeral n) = Some (numeral n)"
  using rnd96_int [of "numeral n"] by simp

text \<open>A value with \<open>e \<le> 28\<close> fractional digits and a mantissa that fits is kept exactly.\<close>

lemma rnd96_quarter [simp]: "rnd96 (1 / 2) = Some (1 / 2)"
  by (code_simp)

text \<open>
  Arithmetic without rounding or overflow also meets the contract. The functional theorems that
  compare a computation with its mathematical definition are stated over it.
\<close>

definition exact_arith :: arith where
  "exact_arith = \<lparr>dadd = \<lambda>x y. Some (x + y), dsub = \<lambda>x y. Some (x - y), dmul = \<lambda>x y. Some (x * y),
     ddiv = \<lambda>x y. if y = 0 then None else Some (x / y)\<rparr>"

lemma exact_arith_simps [simp]:
  "dadd exact_arith x y = Some (x + y)"
  "dsub exact_arith x y = Some (x - y)"
  "dmul exact_arith x y = Some (x * y)"
  "ddiv exact_arith x y = (if y = 0 then None else Some (x / y))"
  by (simp_all add: exact_arith_def)

interpretation ex: rounded_arith exact_arith Some
  by unfold_locales simp_all

lemma dsum_exact [simp]: "dsum exact_arith xs = Some (sum_list xs)"
proof -
  have "try_fold (dadd exact_arith) a xs = Some (a + sum_list xs)" for a
    by (induction xs arbitrary: a) (simp_all add: add.assoc)
  then show ?thesis by (simp add: dsum_def)
qed

end
