(* ===== verification/Bracket.thy ===== *)
theory Bracket
  imports Prelude "HOL-Library.Signed_Division"
begin

text \<open>
  Certified fixed-point intervals of the statistics guest
  (zkvm/methods/statistics/guest/src/bracket.rs). All values are \<open>i128\<close>; \<open>/\<close> and \<open>%\<close> truncate
  (\<open>sdiv\<close>, \<open>smod\<close>), \<open>checked_mul\<close> is \<open>chk_i128\<close>. A plain operator is written with its
  wrap-around where its operands can make it overflow.

  The Newton loop of \<open>isqrt_floor\<close> is a partial function; \<open>isqrt_floor_correct\<close> shows that it
  returns the floor of the root on every argument below \<open>i128::MAX\<close>.
\<close>

definition SCALE :: int where
  "SCALE = 1000000000000"

lemma SCALE_pos [simp]: "0 < SCALE" "SCALE \<noteq> 0" "0 \<le> SCALE"
  by (simp_all add: SCALE_def)

partial_function (option) isqrt_loop :: "int \<Rightarrow> int \<Rightarrow> int \<Rightarrow> int option" where
  "isqrt_loop n x y =
     (if y < x then
        (if y = 0 then None \<comment> \<open>division by zero\<close>
         else isqrt_loop n y (wrap_i128 (y + n sdiv y) sdiv 2))
      else Some x)"

declare isqrt_loop.simps [code]

definition isqrt_floor :: "int \<Rightarrow> int option" where
  "isqrt_floor n = (if n \<le> 0 then Some 0 else isqrt_loop n n (wrap_i128 (n + 1) sdiv 2))"

record bracket =
  lower :: int
  upper :: int

definition exact :: "int \<Rightarrow> bracket" where
  "exact v = \<lparr>lower = v, upper = v\<rparr>"

definition sqrt_bracket_scaled :: "int \<Rightarrow> int \<Rightarrow> int \<Rightarrow> bracket option" where
  "sqrt_bracket_scaled num den out_scale =
     (if den \<le> 0 \<or> num < 0 then None
      else Option.bind (chk_i128 (num * out_scale)) (\<lambda>a.
           Option.bind (chk_i128 (a * out_scale)) (\<lambda>scaled_num.
           let floor_div = scaled_num sdiv den;
               ceil_div = (if scaled_num smod den \<noteq> 0 then floor_div + 1 else floor_div)
           in Option.bind (isqrt_floor floor_div) (\<lambda>lo.
              Option.bind (isqrt_floor ceil_div) (\<lambda>up.
              Option.bind (chk_i128 (up * up)) (\<lambda>sq.
                Some \<lparr>lower = lo, upper = (if sq < ceil_div then up + 1 else up)\<rparr>))))))"

definition sqrt_of_scaled :: "int \<Rightarrow> bracket option" where
  "sqrt_of_scaled v =
     (if v < 0 then None
      else Option.bind (chk_i128 (v * SCALE)) (\<lambda>scaled.
           Option.bind (isqrt_floor scaled) (\<lambda>lo.
           Option.bind (chk_i128 (lo * lo)) (\<lambda>sq.
             Some \<lparr>lower = lo, upper = (if sq < scaled then lo + 1 else lo)\<rparr>))))"

definition sqrt_of_bracket :: "bracket \<Rightarrow> bracket option" where
  "sqrt_of_bracket b =
     Option.bind (sqrt_of_scaled (lower b)) (\<lambda>l.
     Option.bind (sqrt_of_scaled (upper b)) (\<lambda>u.
       Some \<lparr>lower = lower l, upper = upper u\<rparr>))"

definition mul_bracket_nonneg :: "bracket \<Rightarrow> bracket \<Rightarrow> bracket option" where
  "mul_bracket_nonneg a b =
     Option.bind (chk_i128 (lower a * lower b)) (\<lambda>lower_num.
     Option.bind (chk_i128 (upper a * upper b)) (\<lambda>upper_num.
       Some \<lparr>lower = lower_num sdiv SCALE,
         upper = (if upper_num smod SCALE \<noteq> 0 then upper_num sdiv SCALE + 1 else upper_num sdiv SCALE)\<rparr>))"

text \<open>\<open>div_euclid\<close> and \<open>rem_euclid\<close>: the remainder is never negative.\<close>

definition div_euclid :: "int \<Rightarrow> int \<Rightarrow> int" where
  "div_euclid a b = (if 0 < b then a div b else - (a div (- b)))"

definition rem_euclid :: "int \<Rightarrow> int \<Rightarrow> int" where
  "rem_euclid a b = a mod \<bar>b\<bar>"

definition i128_max :: int where "i128_max = 2 ^ 127 - 1"
definition i128_min :: int where "i128_min = - (2 ^ 127)"

definition corner_step :: "int \<Rightarrow> int \<Rightarrow> int \<times> int \<Rightarrow> int \<times> int \<Rightarrow> (int \<times> int) option" where
  "corner_step m n acc c =
     (case acc of (lo, up) \<Rightarrow> case c of (tc, sc) \<Rightarrow>
       Option.bind (chk_i128 (tc * m)) (\<lambda>num.
       Option.bind (chk_i128 (n * sc)) (\<lambda>den.
         if den = 0 then None
         else let fl = div_euclid num den;
                  ce = (if rem_euclid num den \<noteq> 0 then fl + 1 else fl)
              in Some (min lo fl, max up ce))))"

definition ratio_bracket :: "bracket \<Rightarrow> int \<Rightarrow> int \<Rightarrow> bracket \<Rightarrow> bracket option" where
  "ratio_bracket t m n s =
     map_option (\<lambda>(lo, up). \<lparr>lower = lo, upper = up\<rparr>)
       (try_fold (corner_step m n) (i128_max, i128_min)
          [(lower t, lower s), (lower t, upper s), (upper t, lower s), (upper t, upper s)])"

section \<open>The integer square root\<close>

definition is_floor_sqrt :: "int \<Rightarrow> int \<Rightarrow> bool" where
  "is_floor_sqrt n r \<longleftrightarrow> 0 \<le> r \<and> r * r \<le> n \<and> n < (r + 1) * (r + 1)"

lemma sdiv_nonneg: "0 \<le> a \<Longrightarrow> 0 < b \<Longrightarrow> (a::int) sdiv b = a div b"
  by (cases "a = 0") (simp_all add: signed_divide_int_def)

lemma smod_nonneg: "0 \<le> a \<Longrightarrow> 0 < b \<Longrightarrow> (a::int) smod b = a mod b"
  by (cases "a = 0") (simp_all add: signed_modulo_int_def)

text \<open>One Newton step from above stays above the root (up to rounding).\<close>

lemma newton_above:
  fixes n x :: int
  assumes "0 < x" and "0 \<le> n"
  shows "n < ((x + n div x) div 2 + 1) * ((x + n div x) div 2 + 1)"
proof -
  define q y where "q = n div x" and "y = (x + n div x) div 2"
  have q0: "0 \<le> q" using assms by (simp add: q_def pos_imp_zdiv_nonneg_iff)
  have "n = x * q + n mod x" by (simp add: q_def)
  moreover have "n mod x < x" using assms(1) by simp
  ultimately have n: "n < x * (q + 1)" by (simp add: distrib_left)
  define r where "r = (x + q) mod 2"
  have "x + q = 2 * y + r" and "r < 2" by (simp_all add: q_def y_def r_def)
  then have "x + q + 1 \<le> 2 * (y + 1)" by simp
  then have "(x + q + 1) * (x + q + 1) \<le> (2 * (y + 1)) * (2 * (y + 1))"
    using assms q0 by (intro mult_mono) simp_all
  moreover have "0 \<le> (x - (q + 1)) * (x - (q + 1))" by simp
  then have "4 * (x * (q + 1)) \<le> (x + q + 1) * (x + q + 1)" by (simp add: algebra_simps)
  ultimately have "4 * n < 4 * ((y + 1) * (y + 1))" using n by (simp add: algebra_simps)
  then show ?thesis by (simp add: y_def)
qed

lemma newton_exit:
  fixes n x :: int
  assumes "0 < x" and "0 \<le> n" and "x \<le> (x + n div x) div 2"
  shows "x * x \<le> n"
proof -
  have "x \<le> n div x" using assms(3) by linarith
  then have "x * x \<le> x * (n div x)" using assms(1) by (intro mult_left_mono) simp_all
  also have "\<dots> \<le> n" using assms(1) pos_mod_sign [of x n] by (simp add: minus_mod_eq_mult_div [symmetric])
  finally show ?thesis .
qed

lemma sum_quotient_le:
  fixes n y :: int
  assumes "1 \<le> y" and "y \<le> n"
  shows "y + n div y \<le> n + 1"
proof -
  have "1 \<le> n div y" using assms by (simp add: pos_imp_zdiv_pos_iff int_one_le_iff_zero_less)
  then have "0 \<le> (y - 1) * (n div y - 1)" using assms by simp
  then have "y + n div y \<le> y * (n div y) + 1" by (simp add: algebra_simps)
  also have "y * (n div y) \<le> n"
    using assms pos_mod_sign [of y n] by (simp add: minus_mod_eq_mult_div [symmetric])
  finally show ?thesis by simp
qed

lemma isqrt_loop_correct:
  assumes "0 < n" and "n < 2 ^ 127 - 1"
  shows "0 < x \<Longrightarrow> x \<le> n \<Longrightarrow> n < (x + 1) * (x + 1) \<Longrightarrow>
    \<exists>r. isqrt_loop n x ((x + n div x) div 2) = Some r \<and> is_floor_sqrt n r"
proof (induction "nat x" arbitrary: x rule: less_induct)
  case less
  let ?y = "(x + n div x) div 2"
  have q: "1 \<le> n div x" using less.prems by (simp add: pos_imp_zdiv_pos_iff int_one_le_iff_zero_less)
  show ?case
  proof (cases "?y < x")
    case False
    then have "x * x \<le> n" using newton_exit [OF less.prems(1)] assms(1) by simp
    then show ?thesis using False less.prems
      by (auto simp: isqrt_loop.simps [of n x] is_floor_sqrt_def)
  next
    case True
    have y: "1 \<le> ?y" using q less.prems(1) by linarith
    have "n div ?y \<le> n" using y assms(1) by (metis int_div_less_self le_less order_refl div_by_1 less_le_not_le)
    moreover have "0 \<le> n div ?y" using y assms(1) by (simp add: pos_imp_zdiv_nonneg_iff)
    moreover have "?y \<le> n" using True less.prems(2) by simp
    moreover have "?y + n div ?y < 2 ^ 127"
      using sum_quotient_le [of ?y n] y \<open>?y \<le> n\<close> assms by simp
    ultimately have w: "wrap_i128 (?y + n sdiv ?y) sdiv 2 = (?y + n div ?y) div 2"
      using y assms(1) by (subst wrap_i128_id) (simp_all add: in_s_def sdiv_nonneg)
    obtain r where "isqrt_loop n ?y ((?y + n div ?y) div 2) = Some r" "is_floor_sqrt n r"
      using less.hyps [of ?y] True y \<open>?y \<le> n\<close> newton_above [OF less.prems(1)] assms(1) by auto
    then show ?thesis using True y w by (simp add: isqrt_loop.simps [of n x])
  qed
qed


lemma isqrt_floor_correct:
  assumes "n < 2 ^ 127 - 1"
  shows "\<exists>r. isqrt_floor n = Some r \<and> (0 \<le> n \<longrightarrow> is_floor_sqrt n r)"
proof (cases "0 < n")
  case False
  then show ?thesis by (auto simp: isqrt_floor_def is_floor_sqrt_def)
next
  case True
  then have "wrap_i128 (n + 1) sdiv 2 = (n + n div n) div 2"
    using assms by (subst wrap_i128_id) (simp_all add: in_s_def sdiv_nonneg)
  moreover have "n < (n + 1) * (n + 1)" using True by (simp add: algebra_simps add_pos_nonneg)
  ultimately show ?thesis
    using isqrt_loop_correct [OF True assms True order_refl] True by (simp add: isqrt_floor_def)
qed

lemma is_floor_sqrt_unique: "is_floor_sqrt n r \<Longrightarrow> is_floor_sqrt n r' \<Longrightarrow> r = r'"
proof (rule ccontr)
  assume r: "is_floor_sqrt n r" and r': "is_floor_sqrt n r'" and "r \<noteq> r'"
  have le: "a + 1 \<le> b \<Longrightarrow> is_floor_sqrt n a \<Longrightarrow> is_floor_sqrt n b \<Longrightarrow> False" for a b
    using mult_mono [of "a + 1" b "a + 1" b] by (auto simp: is_floor_sqrt_def)
  from \<open>r \<noteq> r'\<close> have "r + 1 \<le> r' \<or> r' + 1 \<le> r" by linarith
  then show False using le r r' by blast
qed

lemma isqrt_floor_max: "isqrt_floor i128_max = Some (- (2 ^ 126))"
  by code_simp

lemma isqrt_floor_Some:
  assumes "isqrt_floor n = Some r" and "n < 2 ^ 127 - 1" and "0 \<le> n"
  shows "is_floor_sqrt n r"
  using isqrt_floor_correct [OF assms(2)] assms(1,3) by auto

section \<open>Brackets contain the real value\<close>

text \<open>\<open>encloses b v\<close>: the real number \<open>v\<close> lies in the bracket.\<close>

definition encloses :: "bracket \<Rightarrow> real \<Rightarrow> bool" where
  "encloses b v \<longleftrightarrow> real_of_int (lower b) \<le> v \<and> v \<le> real_of_int (upper b)"

lemma enclosesI: "real_of_int (lower b) \<le> v \<Longrightarrow> v \<le> real_of_int (upper b) \<Longrightarrow> encloses b v"
  by (simp add: encloses_def)

lemma floor_sqrt_le: "is_floor_sqrt n r \<Longrightarrow> real_of_int n \<le> x \<Longrightarrow> real_of_int r \<le> sqrt x"
proof -
  assume r: "is_floor_sqrt n r" and x: "real_of_int n \<le> x"
  have "real_of_int (r * r) \<le> x" using r x unfolding is_floor_sqrt_def by linarith
  then show ?thesis by (intro real_le_rsqrt) (simp add: power2_eq_square)
qed

lemma ceil_sqrt_ge:
  assumes "is_floor_sqrt n r" and "x \<le> real_of_int n"
  shows "sqrt x \<le> real_of_int (if r * r < n then r + 1 else r)"
proof (cases "r * r < n")
  case True
  have "x \<le> real_of_int ((r + 1) * (r + 1))" using assms unfolding is_floor_sqrt_def by linarith
  then have "sqrt x \<le> sqrt ((real_of_int (r + 1))\<^sup>2)"
    by (intro real_sqrt_le_mono) (simp add: power2_eq_square)
  then show ?thesis using True assms(1) by (simp add: is_floor_sqrt_def)
next
  case False
  then have "x \<le> real_of_int (r * r)" using assms unfolding is_floor_sqrt_def by linarith
  then have "sqrt x \<le> sqrt ((real_of_int r)\<^sup>2)"
    by (intro real_sqrt_le_mono) (simp add: power2_eq_square)
  then show ?thesis using False assms(1) by (simp add: is_floor_sqrt_def)
qed

text \<open>
  The square test at the end of the two square-root routines also fails the one argument,
  \<open>i128::MAX\<close>, on which \<open>isqrt_floor\<close> itself would be wrong.
\<close>

lemma isqrt_guarded:
  assumes "isqrt_floor n = Some r" and "0 \<le> n" and "in_i128 n" and "in_i128 (r * r)"
  shows "is_floor_sqrt n r"
proof (cases "n = i128_max")
  case True
  then have "r = - (2 ^ 126)" using assms(1) isqrt_floor_max by simp
  with assms(4) show ?thesis by (simp add: in_s_def)
next
  case False
  then have "n < 2 ^ 127 - 1" using assms(3) by (simp add: in_s_def i128_max_def)
  then show ?thesis using isqrt_floor_Some assms by blast
qed

lemma floor_ceil_real:
  fixes a d :: int
  assumes "0 < d"
  shows "real_of_int (a div d) \<le> real_of_int a / real_of_int d"
    and "real_of_int a / real_of_int d \<le> real_of_int (if a mod d \<noteq> 0 then a div d + 1 else a div d)"
proof -
  show "real_of_int (a div d) \<le> real_of_int a / real_of_int d"
    by (rule real_of_int_div4)
  show "real_of_int a / real_of_int d \<le> real_of_int (if a mod d \<noteq> 0 then a div d + 1 else a div d)"
  proof (cases "a mod d = 0")
    case True
    then obtain k where "a = d * k" by (metis dvd_def mod_0_imp_dvd)
    then show ?thesis using assms by simp
  next
    case False
    have "real_of_int a / real_of_int d \<le> real_of_int (a div d) + 1"
      using real_of_int_div3 [of a d] by linarith
    with False show ?thesis by simp
  qed
qed

lemma sqrt_bracket_scaled_encloses:
  assumes "sqrt_bracket_scaled num den os = Some b" and "0 \<le> os"
  shows "encloses b (os * sqrt (num / den))" and "0 \<le> lower b"
proof -
  define scaled fl ce where "scaled = num * os * os" and "fl = scaled sdiv den"
    and "ce = (if scaled smod den \<noteq> 0 then fl + 1 else fl)"
  from assms(1) obtain lo up where den: "0 < den" and num: "0 \<le> num"
    and r1: "in_i128 scaled" and lo: "isqrt_floor fl = Some lo" and up: "isqrt_floor ce = Some up"
    and r2: "in_i128 (up * up)" and b: "b = \<lparr>lower = lo, upper = (if up * up < ce then up + 1 else up)\<rparr>"
    unfolding sqrt_bracket_scaled_def scaled_def fl_def ce_def
    by (auto simp: Let_def split: if_splits bind_splits)
  have s0: "0 \<le> scaled" using num assms(2) by (simp add: scaled_def)
  have fl: "fl = scaled div den" and ce: "ce = (if scaled mod den \<noteq> 0 then scaled div den + 1 else scaled div den)"
    using s0 den by (simp_all add: fl_def ce_def sdiv_nonneg smod_nonneg)
  have fl0: "0 \<le> fl" using s0 den by (simp add: fl pos_imp_zdiv_nonneg_iff)
  have flce: "fl \<le> ce" "0 \<le> ce" using fl0 by (simp_all add: fl ce)
  have ce_le: "ce \<le> scaled"
  proof (cases "scaled mod den = 0")
    case True
    then show ?thesis using s0 den zdiv_mono2 [of scaled 1 den] by (simp add: ce)
  next
    case False
    then have "1 < den" using den by (cases "den = 1") auto
    moreover have "0 < scaled" using False s0 by (cases "scaled = 0") auto
    ultimately show ?thesis using int_div_less_self [of scaled den] False by (simp add: ce)
  qed
  have in_ce: "in_i128 ce" using in_s_between [of 128 0 scaled ce] r1 flce ce_le by (simp add: in_s_def)
  have up_ok: "is_floor_sqrt ce up" using isqrt_guarded [OF up _ in_ce r2] flce by simp
  have "ce \<noteq> i128_max" using up r2 isqrt_floor_max by (auto simp: in_s_def)
  then have "fl < 2 ^ 127 - 1" using in_ce flce by (auto simp: in_s_def i128_max_def)
  then have lo_ok: "is_floor_sqrt fl lo" using isqrt_floor_Some [OF lo] fl0 by simp
  have x: "os * sqrt (num / den) = sqrt (scaled / den)"
    using assms(2) by (simp add: scaled_def real_sqrt_mult real_sqrt_divide)
  have "real_of_int fl \<le> scaled / den" and "scaled / den \<le> real_of_int ce"
    using floor_ceil_real [OF den, of scaled] by (simp_all add: fl ce)
  then show "encloses b (os * sqrt (num / den))"
    unfolding x b using floor_sqrt_le [OF lo_ok] ceil_sqrt_ge [OF up_ok] by (intro enclosesI) auto
  show "0 \<le> lower b" using lo_ok by (simp add: b is_floor_sqrt_def)
qed

lemma sqrt_of_scaled_encloses:
  assumes "sqrt_of_scaled v = Some b"
  shows "encloses b (SCALE * sqrt (v / SCALE))" and "0 \<le> lower b" and "0 \<le> v"
proof -
  from assms obtain lo where v: "0 \<le> v" and r: "in_i128 (v * SCALE)" "in_i128 (lo * lo)"
    and lo: "isqrt_floor (v * SCALE) = Some lo"
    and b: "b = \<lparr>lower = lo, upper = (if lo * lo < v * SCALE then lo + 1 else lo)\<rparr>"
    unfolding sqrt_of_scaled_def by (auto split: if_splits bind_splits)
  have ok: "is_floor_sqrt (v * SCALE) lo" using isqrt_guarded [OF lo _ r] v by simp
  have "sqrt (real_of_int SCALE * real_of_int SCALE * (v / SCALE)) =
      sqrt (real_of_int SCALE * real_of_int SCALE) * sqrt (v / SCALE)" by (rule real_sqrt_mult)
  then have "SCALE * sqrt (v / SCALE) = sqrt (real_of_int SCALE * real_of_int SCALE * (v / SCALE))"
    by (simp only: real_sqrt_abs2) simp
  also have "\<dots> = sqrt (real_of_int (v * SCALE))" by simp
  finally show "encloses b (SCALE * sqrt (v / SCALE))"
    unfolding b using floor_sqrt_le [OF ok] ceil_sqrt_ge [OF ok] by (intro enclosesI) auto
  show "0 \<le> lower b" using ok by (simp add: b is_floor_sqrt_def)
  show "0 \<le> v" by (rule v)
qed

lemma sqrt_of_bracket_encloses:
  fixes x :: real
  assumes "sqrt_of_bracket b = Some c" and "encloses b (SCALE * x)" and "0 \<le> x"
  shows "encloses c (SCALE * sqrt x)" and "0 \<le> lower c"
proof -
  from assms(1) obtain l u where l: "sqrt_of_scaled (lower b) = Some l"
    and u: "sqrt_of_scaled (upper b) = Some u" and c: "c = \<lparr>lower = lower l, upper = upper u\<rparr>"
    unfolding sqrt_of_bracket_def by (auto split: bind_splits)
  have "lower b / SCALE \<le> x" and "x \<le> upper b / SCALE"
    using assms(2) by (simp_all add: encloses_def field_simps)
  then have m: "SCALE * sqrt (lower b / SCALE) \<le> SCALE * sqrt x" "SCALE * sqrt x \<le> SCALE * sqrt (upper b / SCALE)"
    by simp_all
  have "lower l \<le> SCALE * sqrt x" and "SCALE * sqrt x \<le> upper u"
    using m sqrt_of_scaled_encloses(1) [OF l] sqrt_of_scaled_encloses(1) [OF u]
    unfolding encloses_def by linarith+
  then show "encloses c (SCALE * sqrt x)" by (simp add: c encloses_def)
  show "0 \<le> lower c" using sqrt_of_scaled_encloses(2) [OF l] by (simp add: c)
qed

lemma mul_bracket_nonneg_encloses:
  fixes x y :: real
  assumes "mul_bracket_nonneg a b = Some c" and "encloses a (SCALE * x)" and "encloses b (SCALE * y)"
    and "0 \<le> lower a" and "0 \<le> lower b"
  shows "encloses c (SCALE * (x * y))" and "0 \<le> lower c"
proof -
  let ?l = "lower a * lower b" and ?u = "upper a * upper b"
  have pos: "0 \<le> SCALE * x" "0 \<le> SCALE * y"
    using assms(2-5) unfolding encloses_def by linarith+
  have ua: "0 \<le> upper a" "0 \<le> upper b"
    using pos assms(2,3) unfolding encloses_def by linarith+
  have l0: "0 \<le> ?l" and u0: "0 \<le> ?u" using assms(4,5) ua by simp_all
  have c: "c = \<lparr>lower = ?l div SCALE, upper = (if ?u mod SCALE \<noteq> 0 then ?u div SCALE + 1 else ?u div SCALE)\<rparr>"
    using assms(1) l0 u0 unfolding mul_bracket_nonneg_def
    by (auto simp: sdiv_nonneg smod_nonneg split: bind_splits)
  have prod: "SCALE * x * (SCALE * y) = SCALE * (SCALE * (x * y))" by simp
  have "real_of_int (lower a) * real_of_int (lower b) \<le> SCALE * x * (SCALE * y)"
    using assms(2-5) pos by (intro mult_mono) (simp_all add: encloses_def)
  then have lo: "real_of_int ?l / real_of_int SCALE \<le> SCALE * (x * y)"
    unfolding prod by (simp add: pos_divide_le_eq mult.commute)
  have "SCALE * x * (SCALE * y) \<le> real_of_int (upper a) * real_of_int (upper b)"
    using assms(2,3) pos ua by (intro mult_mono) (simp_all add: encloses_def)
  then have up: "SCALE * (x * y) \<le> real_of_int ?u / real_of_int SCALE"
    unfolding prod by (simp add: pos_le_divide_eq mult.commute)
  show "encloses c (SCALE * (x * y))"
    using floor_ceil_real [of SCALE ?l] floor_ceil_real [of SCALE ?u] lo up
    by (intro enclosesI) (simp_all add: c)
  show "0 \<le> lower c" using l0 by (simp add: c pos_imp_zdiv_nonneg_iff)
qed

text \<open>
  \<open>ratio_bracket\<close>: every corner lies between the floor and the ceiling that the loop folds in, and
  the extremes of \<open>t * m / (n * s)\<close> over the box are at corners.
\<close>

definition corner :: "int \<Rightarrow> int \<Rightarrow> int \<times> int \<Rightarrow> real" where
  "corner m n c = real_of_int (fst c * m) / real_of_int (n * snd c)"

lemma corner_step_encloses:
  assumes "corner_step m n (lo, up) (tc, sc) = Some (lo', up')" and "0 < n" and "0 \<le> sc"
  shows "lo' \<le> lo" and "up \<le> up'" and "0 < sc"
    and "real_of_int lo' \<le> corner m n (tc, sc)" and "corner m n (tc, sc) \<le> real_of_int up'"
proof -
  from assms have sc: "n * sc \<noteq> 0"
    and lo': "lo' = min lo (div_euclid (tc * m) (n * sc))"
    and up': "up' = max up (if rem_euclid (tc * m) (n * sc) \<noteq> 0
      then div_euclid (tc * m) (n * sc) + 1 else div_euclid (tc * m) (n * sc))"
    by (auto simp: corner_step_def Let_def split: if_splits bind_splits)
  show pos: "0 < sc" using sc assms(3) by (cases "sc = 0") auto
  then have den: "0 < n * sc" using assms(2) by simp
  have e: "div_euclid (tc * m) (n * sc) = tc * m div (n * sc)"
    "rem_euclid (tc * m) (n * sc) = tc * m mod (n * sc)"
    using den by (simp_all add: div_euclid_def rem_euclid_def)
  show "lo' \<le> lo" and "up \<le> up'" by (simp_all add: lo' up')
  show "real_of_int lo' \<le> corner m n (tc, sc)"
    using floor_ceil_real(1) [OF den, of "tc * m"] by (simp add: lo' e corner_def min_le_iff_disj)
  define q where "q = (if tc * m mod (n * sc) \<noteq> 0 then tc * m div (n * sc) + 1 else tc * m div (n * sc))"
  have "corner m n (tc, sc) \<le> real_of_int q"
    using floor_ceil_real(2) [OF den, of "tc * m"] by (simp only: q_def corner_def fst_conv snd_conv)
  moreover have "real_of_int q \<le> real_of_int up'"
    unfolding up' e q_def [symmetric] by simp
  ultimately show "corner m n (tc, sc) \<le> real_of_int up'" by linarith
qed

lemma ratio_bracket_corners:
  assumes "ratio_bracket t m n s = Some b" and "0 < n" and "0 \<le> lower s" and "0 \<le> upper s"
  shows "0 < lower s"
    and "c \<in> {(lower t, lower s), (lower t, upper s), (upper t, lower s), (upper t, upper s)} \<Longrightarrow>
      real_of_int (lower b) \<le> corner m n c \<and> corner m n c \<le> real_of_int (upper b)"
proof -
  from assms(1) obtain a1 b1 a2 b2 a3 b3 a4 b4 where
    s1: "corner_step m n (i128_max, i128_min) (lower t, lower s) = Some (a1, b1)"
    and s2: "corner_step m n (a1, b1) (lower t, upper s) = Some (a2, b2)"
    and s3: "corner_step m n (a2, b2) (upper t, lower s) = Some (a3, b3)"
    and s4: "corner_step m n (a3, b3) (upper t, upper s) = Some (a4, b4)"
    and b: "b = \<lparr>lower = a4, upper = b4\<rparr>"
    unfolding ratio_bracket_def by (auto split: bind_splits)
  note c1 = corner_step_encloses [OF s1 assms(2,3)] and c2 = corner_step_encloses [OF s2 assms(2,4)]
    and c3 = corner_step_encloses [OF s3 assms(2,3)] and c4 = corner_step_encloses [OF s4 assms(2,4)]
  show "0 < lower s" by (rule c1(3))
  have "real_of_int a4 \<le> real_of_int a3" "real_of_int a3 \<le> real_of_int a2" "real_of_int a2 \<le> real_of_int a1"
    "real_of_int b1 \<le> real_of_int b2" "real_of_int b2 \<le> real_of_int b3" "real_of_int b3 \<le> real_of_int b4"
    using c2(1,2) c3(1,2) c4(1,2) by simp_all
  then show "c \<in> {(lower t, lower s), (lower t, upper s), (upper t, lower s), (upper t, upper s)} \<Longrightarrow>
      real_of_int (lower b) \<le> corner m n c \<and> corner m n c \<le> real_of_int (upper b)"
    using c1(4,5) c2(4,5) c3(4,5) c4(4,5) b by auto
qed

text \<open>Quotients with a non-negative numerator and a positive denominator.\<close>

lemma quotient_mono:
  fixes t t' s s' :: real
  assumes "0 \<le> t" "t \<le> t'" "0 < s" "s \<le> s'"
  shows "t / s' \<le> t' / s"
  using assms by (intro frac_le) simp_all

lemma ratio_bracket_encloses:
  fixes tv sv :: real
  assumes "ratio_bracket t m n s = Some b" and "0 < n" and "0 \<le> lower s" and "0 \<le> lower t"
    and "encloses t tv" and "encloses s sv"
  shows "encloses b (tv * m / (n * sv))"
proof -
  have t: "lower t \<le> tv" "tv \<le> upper t" and s: "lower s \<le> sv" "sv \<le> upper s"
    using assms(5,6) by (simp_all add: encloses_def)
  have us: "0 \<le> upper s" using s assms(3) by linarith
  note rc = ratio_bracket_corners [OF assms(1,2,3) us]
  have sp: "0 < real_of_int (lower s)" "0 < sv" "0 < real_of_int (upper s)" using rc(1) s by linarith+
  have tp: "0 \<le> real_of_int (lower t)" "0 \<le> tv" "0 \<le> real_of_int (upper t)" using assms(4) t by linarith+
  have q1: "lower t / upper s \<le> tv / sv" using quotient_mono [OF tp(1) t(1) sp(2) s(2)] .
  have q2: "tv / sv \<le> upper t / lower s" using quotient_mono [OF tp(2) t(2) sp(1) s(1)] .
  define k where "k = real_of_int m / real_of_int n"
  have v: "tv * m / (n * sv) = k * (tv / sv)" by (simp add: k_def)
  have cn: "corner m n (a, c) = k * (a / c)" for a c by (simp add: corner_def k_def)
  have mem: "(lower t, upper s) \<in> {(lower t, lower s), (lower t, upper s), (upper t, lower s), (upper t, upper s)}"
    "(upper t, lower s) \<in> {(lower t, lower s), (lower t, upper s), (upper t, lower s), (upper t, upper s)}"
    by simp_all
  show ?thesis
  proof (cases "0 \<le> m")
    case True
    then have k: "0 \<le> k" using assms(2) by (simp add: k_def)
    show ?thesis unfolding v using mult_left_mono [OF q1 k] mult_left_mono [OF q2 k] rc(2) [OF mem(1)] rc(2) [OF mem(2)]
      by (intro enclosesI) (simp_all add: cn)
  next
    case False
    then have k: "k \<le> 0" using assms(2) by (simp add: k_def divide_nonpos_pos)
    show ?thesis unfolding v using mult_left_mono_neg [OF q1 k] mult_left_mono_neg [OF q2 k] rc(2) [OF mem(1)] rc(2) [OF mem(2)]
      by (intro enclosesI) (simp_all add: cn)
  qed
qed

section \<open>Evaluation\<close>

text \<open>
  The witnesses evaluate brackets in the kernel. Newton's loop costs a 128-bit division per round
  there, so the roots are evaluated with the digit-by-digit method, two bits of the argument at a
  time: \<open>sqrt_rem\<close> returns the root and the remainder. \<open>isqrt_floor_eval\<close> proves that it computes
  the result of the loop.
\<close>

fun sqrt_digit :: "int \<times> int \<Rightarrow> int \<Rightarrow> int \<times> int" where
  "sqrt_digit (r, m) d =
     (let m' = 4 * m + d; t = 4 * r + 1 in if t \<le> m' then (2 * r + 1, m' - t) else (2 * r, m'))"

fun sqrt_rem :: "num \<Rightarrow> int \<times> int" where
  "sqrt_rem num.One = (1, 0)"
| "sqrt_rem (num.Bit0 num.One) = (1, 1)"
| "sqrt_rem (num.Bit1 num.One) = (1, 2)"
| "sqrt_rem (num.Bit0 (num.Bit0 n)) = sqrt_digit (sqrt_rem n) 0"
| "sqrt_rem (num.Bit1 (num.Bit0 n)) = sqrt_digit (sqrt_rem n) 1"
| "sqrt_rem (num.Bit0 (num.Bit1 n)) = sqrt_digit (sqrt_rem n) 2"
| "sqrt_rem (num.Bit1 (num.Bit1 n)) = sqrt_digit (sqrt_rem n) 3"

lemma sqrt_digit_correct:
  assumes "sqrt_digit (r, m) d = (r', m')" and "n = r * r + m" and "0 \<le> m" and "m \<le> 2 * r" and "0 \<le> d" and "d < 4"
  shows "4 * n + d = r' * r' + m' \<and> 0 \<le> m' \<and> m' \<le> 2 * r'"
  using assms by (auto simp: Let_def algebra_simps split: if_splits)

lemma numeral_digits:
  "(numeral (num.Bit0 (num.Bit0 n)) :: int) = 4 * numeral n + 0"
  "(numeral (num.Bit1 (num.Bit0 n)) :: int) = 4 * numeral n + 1"
  "(numeral (num.Bit0 (num.Bit1 n)) :: int) = 4 * numeral n + 2"
  "(numeral (num.Bit1 (num.Bit1 n)) :: int) = 4 * numeral n + 3"
  by (simp_all add: num_eq_iff nat_of_num_mult nat_of_num_add)

lemma sqrt_rem_step:
  assumes "\<And>r m. sqrt_rem n = (r, m) \<Longrightarrow> numeral n = r * r + m \<and> 0 \<le> m \<and> m \<le> 2 * r"
    and "sqrt_digit (sqrt_rem n) d = (r', m')" and "0 \<le> d" and "d < 4" and "k = 4 * numeral n + d"
  shows "k = r' * r' + m' \<and> 0 \<le> m' \<and> m' \<le> 2 * r'"
proof -
  obtain r m where rm: "sqrt_rem n = (r, m)" by (cases "sqrt_rem n")
  note inv = assms(1) [OF rm]
  show ?thesis
    unfolding assms(5) by (rule sqrt_digit_correct [OF assms(2) [unfolded rm] _ _ _ assms(3,4)]) (use inv in simp_all)
qed

lemma sqrt_rem_correct:
  "sqrt_rem n = (r, m) \<Longrightarrow> numeral n = r * r + m \<and> 0 \<le> m \<and> m \<le> 2 * r"
proof (induction n arbitrary: r m rule: sqrt_rem.induct)
  case (4 n)
  then have s: "sqrt_digit (sqrt_rem n) 0 = (r, m)" by simp
  show ?case
    by (rule sqrt_rem_step [OF _ s _ _ numeral_digits(1)], rule "4.IH", assumption) simp_all
next
  case (5 n)
  then have s: "sqrt_digit (sqrt_rem n) 1 = (r, m)" by simp
  show ?case
    by (rule sqrt_rem_step [OF _ s _ _ numeral_digits(2)], rule "5.IH", assumption) simp_all
next
  case (6 n)
  then have s: "sqrt_digit (sqrt_rem n) 2 = (r, m)" by simp
  show ?case
    by (rule sqrt_rem_step [OF _ s _ _ numeral_digits(3)], rule "6.IH", assumption) simp_all
next
  case (7 n)
  then have s: "sqrt_digit (sqrt_rem n) 3 = (r, m)" by simp
  show ?case
    by (rule sqrt_rem_step [OF _ s _ _ numeral_digits(4)], rule "7.IH", assumption) simp_all
qed auto

lemma sqrt_rem_floor: "is_floor_sqrt (numeral n) (fst (sqrt_rem n))"
proof -
  define r m where "r = fst (sqrt_rem n)" and "m = snd (sqrt_rem n)"
  have "numeral n = r * r + m" "0 \<le> m" "m \<le> 2 * r"
    using sqrt_rem_correct [of n r m] by (simp_all add: r_def m_def)
  then show ?thesis by (simp add: is_floor_sqrt_def r_def [symmetric] distrib_left distrib_right)
qed

lemma isqrt_floor_eval [code]:
  "isqrt_floor (Int.Pos n) =
     (if Int.Pos n < 170141183460469231731687303715884105727 then Some (fst (sqrt_rem n))
      else isqrt_loop (Int.Pos n) (Int.Pos n) (wrap_i128 (Int.Pos n + 1) sdiv 2))"
  "isqrt_floor 0 = Some 0"
  "isqrt_floor (Int.Neg n) = Some 0"
proof -
  have "isqrt_floor (numeral n) = Some (fst (sqrt_rem n))" if small: "numeral n < (2 ^ 127 - 1 :: int)"
  proof -
    obtain r where "isqrt_floor (numeral n) = Some r" and "is_floor_sqrt (numeral n) r"
      using isqrt_floor_correct [OF small] by auto
    then show ?thesis using is_floor_sqrt_unique [OF _ sqrt_rem_floor [of n]] by simp
  qed
  then show "isqrt_floor (Int.Pos n) =
     (if Int.Pos n < 170141183460469231731687303715884105727 then Some (fst (sqrt_rem n))
      else isqrt_loop (Int.Pos n) (Int.Pos n) (wrap_i128 (Int.Pos n + 1) sdiv 2))"
    by (simp add: isqrt_floor_def)
  show "isqrt_floor 0 = Some 0" and "isqrt_floor (Int.Neg n) = Some 0"
    by (simp_all add: isqrt_floor_def)
qed

lemma i128_eval [code_unfold]:
  "chk_s 128 x = (if - 170141183460469231731687303715884105728 \<le> x \<and> x \<le> 170141183460469231731687303715884105727
     then Some x else None)"
  by (auto simp: chk_s_def in_s_def)

lemma wrap_i128_eval [code_unfold]:
  "wrap_s 128 x = (if - 170141183460469231731687303715884105728 \<le> x \<and> x \<le> 170141183460469231731687303715884105727
     then x else (x + 170141183460469231731687303715884105728) mod 340282366920938463463374607431768211456
       - 170141183460469231731687303715884105728)"
proof -
  have "- 170141183460469231731687303715884105728 \<le> x \<and> x \<le> 170141183460469231731687303715884105727 \<Longrightarrow>
      wrap_s 128 x = x" by (rule wrap_s_id) (auto simp: in_s_def)
  then show ?thesis by (auto simp: wrap_s_def)
qed

text \<open>
  Newton's loop in \<open>isqrt_floor\<close> ends and returns the floor of the square root on every
  non-negative argument below \<open>i128::MAX\<close>.
\<close>

theorem isqrt_floor_is_floor_root:
  assumes "0 \<le> n" and "n < i128_max"
  shows "\<exists>r. isqrt_floor n = Some r \<and> 0 \<le> r \<and> r * r \<le> n \<and> n < (r + 1) * (r + 1)"
  using isqrt_floor_correct [of n] assms by (auto simp: is_floor_sqrt_def i128_max_def)

theorem isqrt_floor_is_floor_root_witness:
  "\<exists>r. isqrt_floor 99 = Some r \<and> 0 \<le> r \<and> r * r \<le> 99 \<and> 99 < (r + 1) * (r + 1)"
  by (rule isqrt_floor_is_floor_root) (simp_all add: i128_max_def)

end
