(* ===== verification/ClaimStats.thy ===== *)
theory ClaimStats
  imports Bracket
begin

text \<open>
  The statistics claims guest (zkvm/methods/statistics/guest/src/stats.rs and lib.rs): Sharpe,
  Sortino and CAGR as brackets, the verdict on a claim, and \<open>run\<close>. Returns, rates and indices are
  \<open>SCALE\<close>-scaled \<open>i128\<close> values. The lemmas relate each bracket to the real-valued metric it
  stands for.
\<close>

definition MIN_SHARPE_SORTINO_DAYS :: nat where "MIN_SHARPE_SORTINO_DAYS = 30"
definition MIN_CAGR_DAYS :: nat where "MIN_CAGR_DAYS = 365"
definition DAYS_PER_YEAR :: int where "DAYS_PER_YEAR = 365"
definition CAGR_EXPANSION_BITS :: nat where "CAGR_EXPANSION_BITS = 40"

datatype stats_error =
    InsufficientSample nat nat
  | ZeroVariance
  | NoDownside
  | NonPositiveIndex
  | NumericRange

datatype claim_operator = GreaterThan int | LessThan int

datatype claim_verdict = Approved | Rejected | IndeterminatePrecision

definition evaluate_claim :: "bracket \<Rightarrow> claim_operator \<Rightarrow> claim_verdict" where
  "evaluate_claim b claim = (case claim of
     GreaterThan k \<Rightarrow>
       if lower b > k then Approved else if upper b \<le> k then Rejected else IndeterminatePrecision
   | LessThan k \<Rightarrow>
       if upper b < k then Approved else if lower b \<ge> k then Rejected else IndeterminatePrecision)"

definition sum_checked :: "int list \<Rightarrow> stats_error + int" where
  "sum_checked values = ok_or NumericRange (try_fold (\<lambda>acc v. chk_i128 (acc + v)) 0 values)"

definition annualization_factor :: "stats_error + bracket" where
  "annualization_factor = ok_or NumericRange (sqrt_bracket_scaled DAYS_PER_YEAR 1 SCALE)"

definition excess_over :: "int \<Rightarrow> int list \<Rightarrow> int list" where
  "excess_over rate returns = map (\<lambda>r. wrap_i128 (r - rate)) returns"

text \<open>One round of the variance loop: \<open>v_num += (e * n - sum_excess)^2\<close>, all checked.\<close>

definition variance_step :: "int \<Rightarrow> int \<Rightarrow> int \<Rightarrow> int \<Rightarrow> int option" where
  "variance_step n sum_excess v_num e =
     Option.bind (chk_i128 (e * n)) (\<lambda>en.
     Option.bind (chk_i128 (en - sum_excess)) (\<lambda>term.
     Option.bind (chk_i128 (term * term)) (\<lambda>sq.
       chk_i128 (v_num + sq))))"

definition sharpe_bracket :: "int list \<Rightarrow> int \<Rightarrow> stats_error + bracket" where
  "sharpe_bracket returns rf_daily =
     (if length returns < MIN_SHARPE_SORTINO_DAYS
      then Inl (InsufficientSample (length returns) MIN_SHARPE_SORTINO_DAYS)
      else
        let n = int (length returns); excess = excess_over rf_daily returns in
        and_then (sum_checked excess) (\<lambda>sum_excess.
        and_then (ok_or NumericRange (try_fold (variance_step n sum_excess) 0 excess)) (\<lambda>v_num.
        if v_num = 0 then Inl ZeroVariance
        else
          and_then (ok_or NumericRange (Option.bind (chk_i128 (n * n)) (\<lambda>nn. chk_i128 (nn * (n - 1))))) (\<lambda>v_den.
          and_then (ok_or NumericRange (sqrt_bracket_scaled v_num v_den 1)) (\<lambda>stdev.
          and_then annualization_factor (\<lambda>annual.
            ok_or NumericRange (ratio_bracket annual sum_excess n stdev)))))))"

definition downside_step :: "int \<Rightarrow> int \<Rightarrow> int option" where
  "downside_step acc e =
     (if e < 0 then Option.bind (chk_i128 (e * e)) (\<lambda>sq. chk_i128 (acc + sq)) else Some acc)"

definition sortino_bracket :: "int list \<Rightarrow> int \<Rightarrow> stats_error + bracket" where
  "sortino_bracket returns mar_daily =
     (if length returns < MIN_SHARPE_SORTINO_DAYS
      then Inl (InsufficientSample (length returns) MIN_SHARPE_SORTINO_DAYS)
      else
        let n = int (length returns); excess = excess_over mar_daily returns in
        and_then (sum_checked excess) (\<lambda>sum_excess.
        and_then (ok_or NumericRange (try_fold downside_step 0 excess)) (\<lambda>downside_sq_sum.
        if downside_sq_sum = 0 then Inl NoDownside
        else
          and_then (ok_or NumericRange (sqrt_bracket_scaled downside_sq_sum n 1)) (\<lambda>downside_dev.
          and_then annualization_factor (\<lambda>annual.
            ok_or NumericRange (ratio_bracket annual sum_excess n downside_dev))))))"

text \<open>The binary expansion loop of \<open>cagr_bracket\<close>: \<open>bits\<close> rounds left.\<close>

fun cagr_loop :: "nat \<Rightarrow> int \<Rightarrow> int \<Rightarrow> bracket \<Rightarrow> bracket \<Rightarrow> bracket option" where
  "cagr_loop 0 den remaining_num term result = Some result"
| "cagr_loop (Suc bits) den remaining_num term result =
     Option.bind (chk_i128 (remaining_num * 2)) (\<lambda>doubled.
     Option.bind (if doubled \<ge> den then mul_bracket_nonneg result term else Some result) (\<lambda>result'.
     Option.bind (sqrt_of_bracket term) (\<lambda>term'.
       cagr_loop bits den (if doubled \<ge> den then doubled - den else doubled) term' result')))"

definition cagr_bracket :: "int \<Rightarrow> int \<Rightarrow> nat \<Rightarrow> stats_error + bracket" where
  "cagr_bracket index_start index_end days_elapsed =
     (if days_elapsed < MIN_CAGR_DAYS then Inl (InsufficientSample days_elapsed MIN_CAGR_DAYS)
      else if index_start \<le> 0 \<or> index_end \<le> 0 then Inl NonPositiveIndex
      else
        and_then (ok_or NumericRange (chk_i128 (index_end * SCALE))) (\<lambda>scaled.
        let ratio_lower = scaled sdiv index_start;
            ratio_upper = (if scaled smod index_start \<noteq> 0 then ratio_lower + 1 else ratio_lower)
        in and_then (ok_or NumericRange (sqrt_of_bracket \<lparr>lower = ratio_lower, upper = ratio_upper\<rparr>)) (\<lambda>term.
           and_then (ok_or NumericRange
               (cagr_loop CAGR_EXPANSION_BITS (int days_elapsed) DAYS_PER_YEAR term (exact SCALE))) (\<lambda>result.
             Inr \<lparr>lower = lower result - SCALE, upper = upper result - SCALE\<rparr>))))"

datatype metric_claim =
    Sharpe "int list" int claim_operator
  | Sortino "int list" int claim_operator
  | Cagr int int nat claim_operator

record stats_output =
  bracket_lower :: int
  bracket_upper :: int
  verdict :: claim_verdict

definition run_stats :: "metric_claim \<Rightarrow> stats_error + stats_output" where
  "run_stats claim =
     and_then (case claim of
         Sharpe returns rf_daily op \<Rightarrow> and_then (sharpe_bracket returns rf_daily) (\<lambda>b. Inr (b, op))
       | Sortino returns mar_daily op \<Rightarrow> and_then (sortino_bracket returns mar_daily) (\<lambda>b. Inr (b, op))
       | Cagr index_start index_end days op \<Rightarrow>
           and_then (cagr_bracket index_start index_end days) (\<lambda>b. Inr (b, op)))
       (\<lambda>(b, op). Inr \<lparr>bracket_lower = lower b, bracket_upper = upper b, verdict = evaluate_claim b op\<rparr>)"

section \<open>The real-valued metrics\<close>

definition mean_real :: "real list \<Rightarrow> real" where
  "mean_real xs = sum_list xs / length xs"

definition stdev_sample :: "real list \<Rightarrow> real" where
  "stdev_sample xs = sqrt ((\<Sum>x\<leftarrow>xs. (x - mean_real xs)\<^sup>2) / (length xs - 1))"

definition downside_deviation :: "real list \<Rightarrow> real" where
  "downside_deviation xs = sqrt ((\<Sum>x\<leftarrow>xs. (min 0 x)\<^sup>2) / length xs)"

definition sharpe_real :: "real list \<Rightarrow> real" where
  "sharpe_real xs = sqrt 365 * mean_real xs / stdev_sample xs"

definition sortino_real :: "real list \<Rightarrow> real" where
  "sortino_real xs = sqrt 365 * mean_real xs / downside_deviation xs"

text \<open>The daily excess returns the scaled integers stand for.\<close>

definition excess_real :: "int \<Rightarrow> int list \<Rightarrow> real list" where
  "excess_real rate returns = map (\<lambda>r. real_of_int (r - rate) / SCALE) returns"

definition excess_fits :: "int \<Rightarrow> int list \<Rightarrow> bool" where
  "excess_fits rate returns \<longleftrightarrow> list_all (\<lambda>r. in_i128 (r - rate)) returns"

fun claim_holds :: "claim_operator \<Rightarrow> real \<Rightarrow> bool" where
  "claim_holds (GreaterThan k) v \<longleftrightarrow> real_of_int k < v"
| "claim_holds (LessThan k) v \<longleftrightarrow> v < real_of_int k"

lemma evaluate_claim_sound:
  assumes "encloses b v"
  shows "evaluate_claim b op = Approved \<Longrightarrow> claim_holds op v"
    and "evaluate_claim b op = Rejected \<Longrightarrow> \<not> claim_holds op v"
  subgoal using assms by (cases op) (auto simp: evaluate_claim_def encloses_def split: if_splits)
  subgoal using assms by (cases op) (auto simp: evaluate_claim_def encloses_def split: if_splits)
  done

lemma sum_list_divide: "(\<Sum>x\<leftarrow>xs. f x / (c::real)) = (\<Sum>x\<leftarrow>xs. f x) / c"
  by (induction xs) (simp_all add: add_divide_distrib)

lemma mean_scale: "mean_real (map (\<lambda>x. x / c) xs) = mean_real xs / c"
  using sum_list_divide [of "\<lambda>x. x" c xs] by (simp add: mean_real_def)

lemma sqrt_scale:
  fixes a c m :: real
  assumes "0 < c"
  shows "sqrt (a / (c\<^sup>2 * m)) = sqrt (a / m) / c"
proof -
  have "sqrt (a / (c\<^sup>2 * m)) = sqrt ((a / m) / c\<^sup>2)" by (simp add: mult.commute)
  also have "\<dots> = sqrt (a / m) / c" using assms by (simp add: real_sqrt_divide real_sqrt_mult)
  finally show ?thesis .
qed

lemma stdev_scale:
  fixes c :: real
  assumes c: "0 < c"
  shows "stdev_sample (map (\<lambda>x. x / c) xs) = stdev_sample xs / c"
proof -
  have "(\<Sum>x\<leftarrow>xs. (x / c - mean_real xs / c)\<^sup>2) = (\<Sum>x\<leftarrow>xs. (x - mean_real xs)\<^sup>2) / c\<^sup>2"
    unfolding sum_list_divide [symmetric] by (simp add: diff_divide_distrib [symmetric] power_divide)
  then show ?thesis
    by (simp add: stdev_sample_def mean_scale comp_def sqrt_scale [OF c])
qed

lemma downside_scale:
  fixes c :: real
  assumes c: "0 < c"
  shows "downside_deviation (map (\<lambda>x. x / c) xs) = downside_deviation xs / c"
proof -
  have "(\<Sum>x\<leftarrow>xs. (min 0 (x / c))\<^sup>2) = (\<Sum>x\<leftarrow>xs. (min 0 x)\<^sup>2) / c\<^sup>2"
    unfolding sum_list_divide [symmetric] using c
    by (intro arg_cong [where f = sum_list] map_cong) (auto simp: min_def power_divide divide_less_0_iff field_simps)
  then show ?thesis
    unfolding downside_deviation_def by (simp add: comp_def sqrt_scale [OF c])
qed

text \<open>Sharpe and Sortino do not depend on the scale of the returns.\<close>

lemma sharpe_scale:
  fixes c :: real
  assumes "0 < c"
  shows "sharpe_real (map (\<lambda>x. x / c) xs) = sharpe_real xs"
  using assms by (simp add: sharpe_real_def mean_scale stdev_scale)

lemma sortino_scale:
  fixes c :: real
  assumes "0 < c"
  shows "sortino_real (map (\<lambda>x. x / c) xs) = sortino_real xs"
  using assms by (simp add: sortino_real_def mean_scale downside_scale)

section \<open>The checked sums\<close>

lemma sum_checked_Inr: "sum_checked xs = Inr s \<Longrightarrow> s = sum_list xs"
  using try_fold_sum [of "\<lambda>acc v. chk_i128 (acc + v)" "\<lambda>x. x" 0 xs s] by (simp add: sum_checked_def)

lemma variance_fold:
  assumes "try_fold (variance_step n t) a xs = Some v"
  shows "v = a + (\<Sum>e\<leftarrow>xs. (e * n - t)\<^sup>2)"
  by (rule try_fold_sum [OF _ assms]) (auto simp: variance_step_def power2_eq_square split: bind_splits)

lemma downside_fold:
  assumes "try_fold downside_step a xs = Some v"
  shows "v = a + (\<Sum>e\<leftarrow>xs. (min 0 e)\<^sup>2)"
  by (rule try_fold_sum [OF _ assms])
    (auto simp: downside_step_def power2_eq_square split: bind_splits if_splits)

lemma excess_over_fits: "excess_fits rate returns \<Longrightarrow> excess_over rate returns = map (\<lambda>r. r - rate) returns"
  by (simp add: excess_over_def excess_fits_def list_all_iff)

lemma excess_real_over:
  assumes "excess_fits rate returns"
  shows "excess_real rate returns = map (\<lambda>x. x / SCALE) (map real_of_int (excess_over rate returns))"
  by (simp add: excess_real_def excess_over_fits [OF assms])

lemma sum_list_real_of_int: "real_of_int (\<Sum>x\<leftarrow>xs. f x) = (\<Sum>x\<leftarrow>xs. real_of_int (f x))"
  by (induction xs) simp_all

lemma annualization_encloses:
  assumes "annualization_factor = Inr b"
  shows "encloses b (SCALE * sqrt 365)" and "0 \<le> lower b"
  using sqrt_bracket_scaled_encloses [of DAYS_PER_YEAR 1 SCALE b] assms
  by (simp_all add: annualization_factor_def DAYS_PER_YEAR_def)

lemma variance_is_sample_variance:
  assumes "2 \<le> length xs"
  defines "n \<equiv> int (length xs)"
  shows "sqrt (real_of_int (\<Sum>e\<leftarrow>xs. (e * n - sum_list xs)\<^sup>2) / real_of_int (n * n * (n - 1)))
       = stdev_sample (map real_of_int xs)"
proof -
  define m where "m = mean_real (map real_of_int xs)"
  have n: "real_of_int n = real (length xs)" "0 < real_of_int n"
    using assms(1) by (cases xs; simp add: n_def)+
  have S: "real_of_int (sum_list xs) = n * m"
    using assms(1) sum_list_real_of_int [of "\<lambda>x. x" xs] by (cases xs) (simp_all add: m_def mean_real_def n_def)
  have sq: "(real_of_int e * n - n * m)\<^sup>2 = (real_of_int e - m)\<^sup>2 / (1 / n\<^sup>2)" for e
    by (simp add: power2_eq_square algebra_simps)
  have "real_of_int (\<Sum>e\<leftarrow>xs. (e * n - sum_list xs)\<^sup>2) = (\<Sum>e\<leftarrow>xs. (real_of_int e * n - n * m)\<^sup>2)"
    by (simp add: sum_list_real_of_int S)
  also have "\<dots> = (\<Sum>e\<leftarrow>xs. (real_of_int e - m)\<^sup>2) / (1 / n\<^sup>2)"
    unfolding sq sum_list_divide ..
  finally have "real_of_int (\<Sum>e\<leftarrow>xs. (e * n - sum_list xs)\<^sup>2) / real_of_int (n * n * (n - 1)) =
      (\<Sum>e\<leftarrow>xs. (real_of_int e - m)\<^sup>2) / (real_of_int n - 1)"
    using n(2) by (simp add: power2_eq_square)
  moreover have "real (length xs - 1) = real_of_int n - 1" using assms(1) by (cases xs) (simp_all add: n_def)
  ultimately show ?thesis by (simp add: stdev_sample_def comp_def m_def)
qed

section \<open>The brackets contain the metrics\<close>

lemma sharpe_bracket_encloses:
  assumes "sharpe_bracket returns rf = Inr b" and "excess_fits rf returns"
  shows "encloses b (SCALE * sharpe_real (excess_real rf returns))"
proof -
  define xs n where "xs = excess_over rf returns" and "n = int (length returns)"
  have len: "length xs = length returns" by (simp add: xs_def excess_over_def)
  from assms(1) obtain s v sd an where big: "30 \<le> length returns"
    and s: "sum_checked xs = Inr s" and v: "try_fold (variance_step n s) 0 xs = Some v"
    and sd: "sqrt_bracket_scaled v (n * n * (n - 1)) 1 = Some sd"
    and an: "annualization_factor = Inr an" and b: "ratio_bracket an s n sd = Some b"
    unfolding sharpe_bracket_def xs_def n_def
    by (auto simp: Let_def MIN_SHARPE_SORTINO_DAYS_def split: if_splits bind_splits)
  have s': "s = sum_list xs" using sum_checked_Inr [OF s] .
  have v': "v = (\<Sum>e\<leftarrow>xs. (e * n - s)\<^sup>2)" using variance_fold [OF v] by simp
  define rs where "rs = map real_of_int xs"
  have "encloses sd (sqrt (v / real_of_int (n * n * (n - 1))))" "0 \<le> lower sd"
    using sqrt_bracket_scaled_encloses [OF sd] by simp_all
  moreover have "sqrt (v / real_of_int (n * n * (n - 1))) = stdev_sample rs"
    unfolding v' s' rs_def using variance_is_sample_variance [of xs] big by (simp add: len n_def)
  ultimately have "encloses b (SCALE * sqrt 365 * s / (n * stdev_sample rs))"
    using ratio_bracket_encloses [OF b, of "SCALE * sqrt 365" "stdev_sample rs"] annualization_encloses [OF an] big
    by (cases "returns = []") (simp_all add: n_def)
  moreover have "SCALE * sqrt 365 * s / (n * stdev_sample rs) = SCALE * sharpe_real rs"
    using sum_list_real_of_int [of "\<lambda>x. x" xs] by (simp add: sharpe_real_def mean_real_def rs_def s' n_def len)
  ultimately show ?thesis
    using sharpe_scale [of "real_of_int SCALE" rs] by (simp only: excess_real_over [OF assms(2)] rs_def xs_def) simp
qed

lemma sortino_bracket_encloses:
  assumes "sortino_bracket returns mar = Inr b" and "excess_fits mar returns"
  shows "encloses b (SCALE * sortino_real (excess_real mar returns))"
proof -
  define xs n where "xs = excess_over mar returns" and "n = int (length returns)"
  have len: "length xs = length returns" by (simp add: xs_def excess_over_def)
  from assms(1) obtain s v sd an where big: "30 \<le> length returns"
    and s: "sum_checked xs = Inr s" and v: "try_fold downside_step 0 xs = Some v"
    and sd: "sqrt_bracket_scaled v n 1 = Some sd"
    and an: "annualization_factor = Inr an" and b: "ratio_bracket an s n sd = Some b"
    unfolding sortino_bracket_def xs_def n_def
    by (auto simp: Let_def MIN_SHARPE_SORTINO_DAYS_def split: if_splits bind_splits)
  have s': "s = sum_list xs" using sum_checked_Inr [OF s] .
  define rs where "rs = map real_of_int xs"
  have "min (0::real) (real_of_int e) = real_of_int (min 0 e)" for e :: int by (simp add: min_def)
  then have v': "real_of_int v = (\<Sum>e\<leftarrow>rs. (min 0 e)\<^sup>2)"
    using downside_fold [OF v] by (simp add: rs_def comp_def sum_list_real_of_int)
  have "encloses sd (sqrt (v / n))" "0 \<le> lower sd"
    using sqrt_bracket_scaled_encloses [OF sd] by simp_all
  moreover have "sqrt (v / n) = downside_deviation rs"
    unfolding downside_deviation_def v' by (simp add: rs_def len n_def)
  ultimately have "encloses b (SCALE * sqrt 365 * s / (n * downside_deviation rs))"
    using ratio_bracket_encloses [OF b, of "SCALE * sqrt 365" "downside_deviation rs"] annualization_encloses [OF an] big
    by (cases "returns = []") (simp_all add: n_def)
  moreover have "SCALE * sqrt 365 * s / (n * downside_deviation rs) = SCALE * sortino_real rs"
    using sum_list_real_of_int [of "\<lambda>x. x" xs] by (simp add: sortino_real_def mean_real_def rs_def s' n_def len)
  ultimately show ?thesis
    using sortino_scale [of "real_of_int SCALE" rs] by (simp only: excess_real_over [OF assms(2)] rs_def xs_def) simp
qed

text \<open>
  The loop of \<open>cagr_bracket\<close>: with \<open>term\<close> around \<open>r powr x\<close> and \<open>result\<close> around \<open>r powr e\<close> it ends
  with a bracket around \<open>r powr e'\<close>, where \<open>e'\<close> is \<open>e + 2 x rem / den\<close> cut after \<open>n\<close> more bits.
\<close>

lemma cagr_loop_encloses:
  fixes r x e :: real
  assumes "cagr_loop n den rem term result = Some b" and "0 < r"
    and "encloses term (SCALE * (r powr x))" and "0 \<le> lower term"
    and "encloses result (SCALE * (r powr e))" and "0 \<le> lower result"
    and "0 \<le> rem" and "rem \<le> den" and "0 < den" and "0 \<le> x"
  shows "\<exists>e'. encloses b (SCALE * (r powr e')) \<and> e' \<le> e + 2 * x * rem / den \<and>
    e + 2 * x * rem / den \<le> e' + 2 * x / 2 ^ n"
  using assms
proof (induction n den rem "term" result arbitrary: x e rule: cagr_loop.induct)
  case (1 den rem "term" result)
  have "2 * x * rem / den \<le> 2 * x"
    using "1.prems"(8-10) by (simp add: divide_le_eq mult_left_mono)
  then show ?case using "1.prems" by (intro exI [of _ e]) simp
next
  case (2 bits den rem "term" result)
  define rem' where "rem' = (if rem * 2 \<ge> den then rem * 2 - den else rem * 2)"
  define e1 where "e1 = (if rem * 2 \<ge> den then e + x else e)"
  from "2.prems"(1) obtain result' term' where c: "chk_i128 (rem * 2) = Some (rem * 2)"
    and res: "(if rem * 2 \<ge> den then mul_bracket_nonneg result term else Some result) = Some result'"
    and trm: "sqrt_of_bracket term = Some term'"
    and rest: "cagr_loop bits den rem' term' result' = Some b"
    by (auto simp: rem'_def split: bind_splits)
  have half: "r powr (x / 2) = sqrt (r powr x)"
    using "2.prems"(2) by (simp add: powr_half_sqrt [symmetric] powr_powr)
  have t': "encloses term' (SCALE * (r powr (x / 2)))" "0 \<le> lower term'"
    using sqrt_of_bracket_encloses [OF trm "2.prems"(3)] by (simp_all add: half)
  have r': "encloses result' (SCALE * (r powr e1)) \<and> 0 \<le> lower result'"
  proof (cases "rem * 2 \<ge> den")
    case True
    then have "mul_bracket_nonneg result term = Some result'" using res by simp
    from mul_bracket_nonneg_encloses [OF this "2.prems"(5,3,6,4)] show ?thesis
      using True "2.prems"(2) by (simp add: e1_def powr_add)
  next
    case False
    then show ?thesis using res "2.prems"(5,6) by (simp add: e1_def)
  qed
  have bounds: "0 \<le> rem'" "rem' \<le> den" "0 \<le> x / 2" using "2.prems"(7-10) by (auto simp: rem'_def)
  have total: "e1 + 2 * (x / 2) * rem' / den = e + 2 * x * rem / den"
    using "2.prems"(9) by (simp add: e1_def rem'_def field_simps)
  obtain e' where "encloses b (SCALE * (r powr e'))" and "e' \<le> e1 + 2 * (x / 2) * rem' / den"
    and "e1 + 2 * (x / 2) * rem' / den \<le> e' + 2 * (x / 2) / 2 ^ bits"
    using "2.IH" [OF c, of result' term' "x / 2" e1] res trm rest t' r' bounds "2.prems"(2,9)
    unfolding rem'_def by blast
  then show ?case unfolding total by (intro exI [of _ e']) simp
qed

lemma cagr_bracket_encloses:
  assumes "cagr_bracket index_start index_end days = Inr b"
  defines "r \<equiv> real_of_int index_end / real_of_int index_start"
  shows "\<exists>q. encloses b (SCALE * (r powr q - 1)) \<and> q \<le> 365 / days \<and> 365 / days \<le> q + 1 / 2 ^ 40"
proof -
  define scaled lo where "scaled = index_end * SCALE" and "lo = scaled div index_start"
  define up where "up = (if scaled mod index_start \<noteq> 0 then lo + 1 else lo)"
  have pos: "0 < index_start" "0 < index_end" "365 \<le> days"
    using assms(1) by (auto simp: cagr_bracket_def MIN_CAGR_DAYS_def split: if_splits)
  then have "0 \<le> scaled" by (simp add: scaled_def)
  then have sd: "scaled sdiv index_start = lo" "scaled smod index_start = scaled mod index_start"
    using pos by (simp_all add: lo_def sdiv_nonneg smod_nonneg)
  from assms(1) obtain t res where t: "sqrt_of_bracket \<lparr>lower = lo, upper = up\<rparr> = Some t"
    and res: "cagr_loop 40 (int days) 365 t (exact SCALE) = Some res"
    and b: "b = \<lparr>lower = lower res - SCALE, upper = upper res - SCALE\<rparr>"
    unfolding cagr_bracket_def
    by (auto simp: Let_def sd scaled_def [symmetric] up_def CAGR_EXPANSION_BITS_def DAYS_PER_YEAR_def split: if_splits)
  have r0: "0 < r" using pos by (simp add: r_def)
  have "SCALE * r = scaled / index_start" by (simp add: r_def scaled_def)
  then have ratio: "encloses \<lparr>lower = lo, upper = up\<rparr> (SCALE * r)"
    using floor_ceil_real [OF pos(1), of scaled] unfolding up_def lo_def by (intro enclosesI) auto
  have "r powr (1 / 2) = sqrt r" using r0 by (simp add: powr_half_sqrt)
  then have te: "encloses t (SCALE * (r powr (1 / 2)))" "0 \<le> lower t"
    using sqrt_of_bracket_encloses [OF t ratio] r0 by simp_all
  have one: "encloses (exact SCALE) (SCALE * (r powr 0))" "0 \<le> lower (exact SCALE)"
    using r0 by (simp_all add: exact_def encloses_def)
  obtain q where "encloses res (SCALE * (r powr q))" and "q \<le> 365 / days"
    and "365 / days \<le> q + 1 / 2 ^ 40"
    using cagr_loop_encloses [OF res r0 te one] pos(3) by auto
  then show ?thesis
    by (intro exI [of _ q]) (simp add: b encloses_def algebra_simps)
qed

section \<open>Properties\<close>

text \<open>
  C5. A verdict on a Sharpe claim is right: when the claims guest approves it, the annualised Sharpe
  ratio of the excess returns satisfies the claim, and when it rejects it the ratio does not; the
  published bracket contains the ratio. The hypothesis \<open>excess_fits\<close> says that no subtraction
  \<open>r - rf_daily\<close>, a plain operator, leaves the \<open>i128\<close> range.
\<close>

theorem sharpe_verdict_sound:
  assumes "run_stats (Sharpe returns rf op) = Inr out" and "excess_fits rf returns"
  defines "v \<equiv> SCALE * sharpe_real (excess_real rf returns)"
  shows "real_of_int (bracket_lower out) \<le> v \<and> v \<le> real_of_int (bracket_upper out) \<and>
    (verdict out = Approved \<longrightarrow> claim_holds op v) \<and> (verdict out = Rejected \<longrightarrow> \<not> claim_holds op v)"
proof -
  obtain b where b: "sharpe_bracket returns rf = Inr b" and out: "lower b = bracket_lower out"
      "upper b = bracket_upper out" "verdict out = evaluate_claim b op"
    using assms(1) by (auto simp: run_stats_def)
  have "encloses b v" unfolding v_def by (rule sharpe_bracket_encloses [OF b assms(2)])
  then show ?thesis using evaluate_claim_sound [of b v op] by (auto simp: out encloses_def)
qed

definition sample_returns :: "int list" where
  "sample_returns = concat (replicate 10 [20000000000, - 10000000000, 5000000000])"

definition approves :: "metric_claim \<Rightarrow> bool" where
  "approves claim = (case run_stats claim of Inl _ \<Rightarrow> False | Inr out \<Rightarrow> verdict out = Approved)"

lemma approvesE:
  assumes "approves claim"
  obtains out where "run_stats claim = Inr out" and "verdict out = Approved"
  using assms by (auto simp: approves_def split: sum.splits)

lemma sample_approved:
  "approves (Sharpe sample_returns 0 (GreaterThan 0))"
  "approves (Sortino sample_returns 0 (GreaterThan 0))"
  "approves (Cagr 100 121 730 (GreaterThan 99999999000))"
  "excess_fits 0 sample_returns"
  by code_simp+

theorem sharpe_verdict_sound_witness:
  "0 < SCALE * sharpe_real (excess_real 0 sample_returns)"
  using sharpe_verdict_sound [of sample_returns 0 "GreaterThan 0"] sample_approved(1,4)
  by (auto elim!: approvesE)

text \<open>
  The same for a Sortino claim, whose deviation counts only the returns below the minimum
  acceptable return.
\<close>

theorem sortino_verdict_sound:
  assumes "run_stats (Sortino returns mar op) = Inr out" and "excess_fits mar returns"
  defines "v \<equiv> SCALE * sortino_real (excess_real mar returns)"
  shows "real_of_int (bracket_lower out) \<le> v \<and> v \<le> real_of_int (bracket_upper out) \<and>
    (verdict out = Approved \<longrightarrow> claim_holds op v) \<and> (verdict out = Rejected \<longrightarrow> \<not> claim_holds op v)"
proof -
  obtain b where b: "sortino_bracket returns mar = Inr b" and out: "lower b = bracket_lower out"
      "upper b = bracket_upper out" "verdict out = evaluate_claim b op"
    using assms(1) by (auto simp: run_stats_def)
  have "encloses b v" unfolding v_def by (rule sortino_bracket_encloses [OF b assms(2)])
  then show ?thesis using evaluate_claim_sound [of b v op] by (auto simp: out encloses_def)
qed

theorem sortino_verdict_sound_witness:
  "0 < SCALE * sortino_real (excess_real 0 sample_returns)"
  using sortino_verdict_sound [of sample_returns 0 "GreaterThan 0"] sample_approved(2,4)
  by (auto elim!: approvesE)

text \<open>
  What the bracket of a CAGR claim certifies: it contains the growth rate for some exponent \<open>q\<close>
  at most \<open>365 / days\<close> and within \<open>2^-40\<close> of it. When the index did not fall the lower end is
  therefore below the real growth rate, so an approved "greater than" claim is true.
\<close>

theorem cagr_verdict_certified:
  assumes "run_stats (Cagr i0 i1 days op) = Inr out"
  defines "g \<equiv> real_of_int i1 / real_of_int i0"
  shows "(\<exists>q. q \<le> 365 / days \<and> 365 / days \<le> q + 1 / 2 ^ 40 \<and>
      real_of_int (bracket_lower out) \<le> SCALE * (g powr q - 1) \<and>
      SCALE * (g powr q - 1) \<le> real_of_int (bracket_upper out)) \<and>
    (i0 \<le> i1 \<and> verdict out = Approved \<and> op = GreaterThan k \<longrightarrow>
      claim_holds op (SCALE * (g powr (365 / days) - 1)))"
proof -
  obtain b where b: "cagr_bracket i0 i1 days = Inr b" and out: "lower b = bracket_lower out"
      "upper b = bracket_upper out" "verdict out = evaluate_claim b op"
    using assms(1) by (auto simp: run_stats_def)
  have pos: "0 < i0" using b by (auto simp: cagr_bracket_def split: if_splits)
  obtain q where enc: "encloses b (SCALE * (g powr q - 1))"
    and q: "q \<le> 365 / days" "365 / days \<le> q + 1 / 2 ^ 40"
    using cagr_bracket_encloses [OF b] unfolding g_def by blast
  have "claim_holds op (SCALE * (g powr (365 / days) - 1))"
    if up: "i0 \<le> i1" and v: "verdict out = Approved" and k: "op = GreaterThan k"
  proof -
    have "1 \<le> g" using up pos by (simp add: g_def)
    then have "g powr q \<le> g powr (365 / days)" using q(1) by (rule powr_mono [rotated])
    then have "SCALE * (g powr q - 1) \<le> SCALE * (g powr (365 / days) - 1)"
      by (intro mult_left_mono) simp_all
    moreover have "real_of_int k < SCALE * (g powr q - 1)"
      using evaluate_claim_sound(1) [OF enc, of op] v by (simp add: k out(3))
    ultimately have "real_of_int k < SCALE * (g powr (365 / days) - 1)" by linarith
    then show ?thesis by (simp only: k claim_holds.simps)
  qed
  then show ?thesis using enc q by (auto simp: encloses_def out)
qed

theorem cagr_verdict_certified_witness:
  "real_of_int 99999999000 < SCALE * ((121 / 100) powr (365 / 730) - 1)"
  using cagr_verdict_certified [of 100 121 730 "GreaterThan 99999999000" _ 99999999000] sample_approved(3)
  by (auto elim!: approvesE)

text \<open>
  The 74th power of 0.755750387238952592356 is below \<open>10^-9\<close>: repeated squaring, each result
  rounded up to 24 digits.
\<close>

lemma pow_double:
  fixes y :: real
  assumes "y ^ m \<le> p / d" and "0 \<le> y" and "p * p \<le> q * d" and "0 < d" and "n = m + m"
  shows "y ^ n \<le> q / d"
proof -
  have "y ^ m * y ^ m \<le> p / d * (p / d)" using assms(1,2) by (intro mult_mono) (auto intro: order_trans [OF _ assms(1)])
  also have "\<dots> \<le> q / d" using assms(3,4) by (simp add: field_simps)
  finally show ?thesis by (simp add: assms(5) power_add)
qed

lemma pow_next:
  fixes y :: real
  assumes "y ^ m \<le> p / d" and "0 \<le> y" and "y \<le> r / d" and "p * r \<le> q * d" and "0 < d" and "n = m + 1"
  shows "y ^ n \<le> q / d"
proof -
  have "y ^ m * y \<le> p / d * (r / d)" using assms(1-3) by (intro mult_mono) (auto intro: order_trans [OF _ assms(1)])
  also have "\<dots> \<le> q / d" using assms(4,5) by (simp add: field_simps)
  finally show ?thesis by (simp add: assms(6) mult.commute)
qed

lemma growth_power_bound:
  fixes y :: real
  assumes "y = 755750387238952592356000 / 1000000000000000000000000"
  shows "y ^ 74 \<le> 1 / 1000000000"
proof -
  have y0: "0 \<le> y" and p1: "y \<le> 755750387238952592356000 / 1000000000000000000000000"
    by (simp_all add: assms)
  have p1e: "y ^ 1 \<le> 755750387238952592356000 / 1000000000000000000000000" using p1 by simp
  have p2: "y ^ 2 \<le> 571158647811826797352499 / 1000000000000000000000000"
    by (rule pow_double [OF p1e y0]) simp_all
  have p4: "y ^ 4 \<le> 326222200970234400007456 / 1000000000000000000000000"
    by (rule pow_double [OF p2 y0]) simp_all
  have p8: "y ^ 8 \<le> 106420924405864001913580 / 1000000000000000000000000"
    by (rule pow_double [OF p4 y0]) simp_all
  have p9: "y ^ 9 \<le> 80427654830059020283260 / 1000000000000000000000000"
    by (rule pow_next [OF p8 y0 p1]) simp_all
  have p18: "y ^ 18 \<le> 6468607661463116054841 / 1000000000000000000000000"
    by (rule pow_double [OF p9 y0]) simp_all
  have p36: "y ^ 36 \<le> 41842885077939323042 / 1000000000000000000000000"
    by (rule pow_double [OF p18 y0]) simp_all
  have p37: "y ^ 37 \<le> 31622776600847634413 / 1000000000000000000000000"
    by (rule pow_next [OF p36 y0 p1]) simp_all
  have p74: "y ^ 74 \<le> 999999999947117 / 1000000000000000000000000"
    by (rule pow_double [OF p37 y0]) simp_all
  show ?thesis by (rule order_trans [OF p74]) simp
qed

text \<open>
  The upper end of a CAGR bracket is not an upper bound. For an index that grew by a factor of
  \<open>10^9\<close> in 370 days the guest approves the claim that the growth rate is below
  \<open>755750386238952592356\<close> (scaled), which is false: the exponent is cut to 40 bits and the lost
  factor is not added to the upper end.
\<close>

theorem cagr_upper_not_certified:
  "(case run_stats (Cagr 1 1000000000 370 (LessThan 755750386238952592356)) of
      Inl _ \<Rightarrow> False | Inr out \<Rightarrow> verdict out = Approved) \<and>
   \<not> claim_holds (LessThan 755750386238952592356)
      (SCALE * ((real_of_int 1000000000 / real_of_int 1) powr (365 / real 370) - 1))"
proof
  show "case run_stats (Cagr 1 1000000000 370 (LessThan 755750386238952592356)) of
      Inl _ \<Rightarrow> False | Inr out \<Rightarrow> verdict out = Approved"
    by code_simp
next
  define y where "y = (755750387238952592356000 / 1000000000000000000000000 :: real)"
  define g where "g = (1000000000 :: real)"
  have y: "0 \<le> y" and g: "0 < g" "1 / 1000000000 * g = 1" by (simp_all add: y_def g_def)
  have "(y * g) ^ 74 \<le> 1 / 1000000000 * g ^ 74"
    unfolding power_mult_distrib using g(1) by (intro mult_right_mono growth_power_bound) (simp_all add: y_def)
  also have "\<dots> = 1 / 1000000000 * g * g ^ 73" by (simp add: numeral_eq_Suc)
  also have "\<dots> = g ^ 73" by (simp only: g(2) mult_1_left)
  also have "\<dots> = g powr (real 74 * (73 / 74))" using powr_realpow [OF g(1), of 73] by simp
  also have "\<dots> = (g powr (73 / 74)) ^ 74" using g(1) by (subst powr_power) simp_all
  finally have "y * g \<le> g powr (73 / 74)"
    using y g(1) by (simp only: power_mono_iff mult_nonneg_nonneg powr_ge_zero less_imp_le zero_less_numeral)
  then show "\<not> claim_holds (LessThan 755750386238952592356)
      (SCALE * ((real_of_int 1000000000 / real_of_int 1) powr (365 / real 370) - 1))"
    by (simp add: y_def g_def SCALE_def)
qed

end
