(* ===== verification/Attestation.thy ===== *)
theory Attestation
  imports Prelude
begin

text \<open>
  The A0 attestation crate (services/collector/attestation/src): the canonical encoding of a
  \<open>SourceEnvelope\<close>, its digest, the collector's signature over it and the origin badge.

  The ECDSA scheme is the \<open>k256\<close> crate, a parameter \<open>ecdsa\<close> of the definitions that use it; its
  types of signing keys, verifying keys and signatures are type parameters. SHA-256 is the parameter
  \<open>H\<close>.
\<close>

section \<open>Labelled fields\<close>

definition write_field :: "bytes \<Rightarrow> string \<Rightarrow> bytes \<Rightarrow> bytes" where
  "write_field buf domain bs = buf @ str_bytes domain @ be_bytes 8 (length bs mod 2 ^ 64) @ bs"

definition write_fields :: "(string \<times> bytes) list \<Rightarrow> bytes \<Rightarrow> bytes" where
  "write_fields fs buf = fold (\<lambda>(d, bs) buf. write_field buf d bs) fs buf"

lemma write_fields_simps [simp]:
  "write_fields [] buf = buf"
  "write_fields ((d, bs) # fs) buf = write_fields fs (write_field buf d bs)"
  by (simp_all add: write_fields_def)

lemma write_fields_buf: "write_fields fs buf = buf @ write_fields fs []"
proof (induction fs arbitrary: buf)
  case (Cons f fs)
  obtain d bs where f: "f = (d, bs)" by (cases f)
  show ?case
    using Cons.IH [of "write_field buf d bs"] Cons.IH [of "write_field [] d bs"]
    by (simp add: f write_field_def)
qed simp

lemma length_field_inj:
  assumes "be_bytes 8 (length x mod 2 ^ 64) @ x @ r = be_bytes 8 (length y mod 2 ^ 64) @ y @ s"
    and "length x < 2 ^ 64" and "length y < 2 ^ 64"
  shows "x = y \<and> r = s"
proof -
  have "be_bytes 8 (length x) = be_bytes 8 (length y)" and rest: "x @ r = y @ s"
    using assms by simp_all
  then have "length x = length y" using be_bytes_inj [of "length x" 8 "length y"] assms(2,3) by simp
  then show ?thesis using rest by simp
qed

text \<open>Fields written under the same labels are recovered from the bytes, whatever follows them.\<close>

lemma write_fields_inj:
  assumes "write_fields fs [] = write_fields gs []" and "map fst fs = map fst gs"
    and "\<forall>f \<in> set fs. length (snd f) < 2 ^ 64" and "\<forall>g \<in> set gs. length (snd g) < 2 ^ 64"
  shows "fs = gs"
  using assms
proof (induction fs arbitrary: gs)
  case Nil
  then show ?case by simp
next
  case (Cons f fs)
  obtain d x where f: "f = (d, x)" by (cases f)
  obtain y gs' where gs: "gs = (d, y) # gs'" using Cons.prems(2) f by (cases gs) auto
  have "be_bytes 8 (length x mod 2 ^ 64) @ x @ write_fields fs [] =
      be_bytes 8 (length y mod 2 ^ 64) @ y @ write_fields gs' []"
    using Cons.prems(1) write_fields_buf [of fs "write_field [] d x"] write_fields_buf [of gs' "write_field [] d y"]
    by (simp add: f gs write_field_def)
  then have "x = y \<and> write_fields fs [] = write_fields gs' []"
    by (rule length_field_inj) (use Cons.prems(3,4) in \<open>simp_all add: f gs\<close>)
  then show ?case using Cons.IH [of gs'] Cons.prems by (simp add: f gs)
qed

section \<open>SourceEnvelope\<close>

record source_envelope =
  mechanism :: string
  issuer_key_id :: string
  trust_manifest_hash :: bytes
  account_binding_commitment :: bytes
  batch_commitment :: bytes
  raw_evidence_root :: bytes
  normalized_root :: bytes
  coverage_manifest_hash :: bytes
  period_start_ms :: int
  period_end_ms :: int
  observed_at_ms :: int
  expires_at_ms :: int
  policy_hash :: bytes
  environment :: string
  source_session_binding :: bytes

definition canonical_bytes :: "source_envelope \<Rightarrow> bytes" where
  "canonical_bytes e = write_fields
     [(''mechanism'', str_bytes (mechanism e)),
      (''issuerKeyId'', str_bytes (issuer_key_id e)),
      (''trustManifestHash'', trust_manifest_hash e),
      (''accountBindingCommitment'', account_binding_commitment e),
      (''batchCommitment'', batch_commitment e),
      (''rawEvidenceRoot'', raw_evidence_root e),
      (''normalizedRoot'', normalized_root e),
      (''coverageManifestHash'', coverage_manifest_hash e),
      (''periodStart'', i64_be_bytes (period_start_ms e)),
      (''periodEnd'', i64_be_bytes (period_end_ms e)),
      (''observedAt'', i64_be_bytes (observed_at_ms e)),
      (''expiresAt'', i64_be_bytes (expires_at_ms e)),
      (''policyHash'', policy_hash e),
      (''environment'', str_bytes (environment e)),
      (''sourceSessionBinding'', source_session_binding e)] []"

definition digest :: "sha \<Rightarrow> source_envelope \<Rightarrow> bytes" where
  "digest H e = H (canonical_bytes e)"

text \<open>The values the Rust type can hold: \<open>[u8; 32]\<close>, \<open>i64\<close>, and strings that fit in memory.\<close>

definition envelope_typed :: "source_envelope \<Rightarrow> bool" where
  "envelope_typed e \<longleftrightarrow>
     length (mechanism e) < 2 ^ 64 \<and> length (issuer_key_id e) < 2 ^ 64 \<and> length (environment e) < 2 ^ 64 \<and>
     length (trust_manifest_hash e) = 32 \<and> length (account_binding_commitment e) = 32 \<and>
     length (batch_commitment e) = 32 \<and> length (raw_evidence_root e) = 32 \<and>
     length (normalized_root e) = 32 \<and> length (coverage_manifest_hash e) = 32 \<and>
     length (policy_hash e) = 32 \<and> length (source_session_binding e) = 32 \<and>
     in_i64 (period_start_ms e) \<and> in_i64 (period_end_ms e) \<and>
     in_i64 (observed_at_ms e) \<and> in_i64 (expires_at_ms e)"

lemma canonical_bytes_inj:
  assumes "envelope_typed a" and "envelope_typed b" and "canonical_bytes a = canonical_bytes b"
  shows "a = b"
proof -
  note typed = assms(1,2) [unfolded envelope_typed_def]
  have "mechanism a = mechanism b \<and> issuer_key_id a = issuer_key_id b \<and>
      trust_manifest_hash a = trust_manifest_hash b \<and>
      account_binding_commitment a = account_binding_commitment b \<and>
      batch_commitment a = batch_commitment b \<and> raw_evidence_root a = raw_evidence_root b \<and>
      normalized_root a = normalized_root b \<and> coverage_manifest_hash a = coverage_manifest_hash b \<and>
      i64_be_bytes (period_start_ms a) = i64_be_bytes (period_start_ms b) \<and>
      i64_be_bytes (period_end_ms a) = i64_be_bytes (period_end_ms b) \<and>
      i64_be_bytes (observed_at_ms a) = i64_be_bytes (observed_at_ms b) \<and>
      i64_be_bytes (expires_at_ms a) = i64_be_bytes (expires_at_ms b) \<and>
      policy_hash a = policy_hash b \<and> environment a = environment b \<and>
      source_session_binding a = source_session_binding b"
    using write_fields_inj [OF assms(3) [unfolded canonical_bytes_def]] typed
    by (simp del: write_fields_simps)
  then show ?thesis using typed by (intro source_envelope.equality) (auto dest: i64_be_bytes_inj)
qed

interpretation env: injective_encoding canonical_bytes envelope_typed
  by unfold_locales (rule canonical_bytes_inj)

section \<open>Signer and badge\<close>

text \<open>The parts of the \<open>k256\<close> interface that the code uses.\<close>

record ('sk, 'vk, 'sig) ecdsa =
  ec_signing_key :: "bytes \<Rightarrow> 'sk option" \<comment> \<open>\<open>SigningKey::from_bytes\<close>\<close>
  ec_public :: "'sk \<Rightarrow> 'vk" \<comment> \<open>\<open>SigningKey::verifying_key\<close>\<close>
  ec_sign :: "'sk \<Rightarrow> bytes \<Rightarrow> 'sig" \<comment> \<open>\<open>Signer::sign\<close>\<close>
  ec_verify :: "'vk \<Rightarrow> bytes \<Rightarrow> 'sig \<Rightarrow> bool" \<comment> \<open>\<open>Verifier::verify(..).is_ok()\<close>\<close>
  ec_point :: "'vk \<Rightarrow> bytes" \<comment> \<open>\<open>to_encoded_point(true)\<close>\<close>
  ec_parse_key :: "bytes \<Rightarrow> 'vk option" \<comment> \<open>\<open>VerifyingKey::from_sec1_bytes\<close>\<close>
  ec_parse_sig :: "bytes \<Rightarrow> 'sig option" \<comment> \<open>\<open>Signature::from_slice\<close>\<close>

text \<open>Documented behaviour of ECDSA: a signature verifies under the public key of its signer.\<close>

definition ecdsa_correct :: "('sk, 'vk, 'sig, 'z) ecdsa_scheme \<Rightarrow> bool" where
  "ecdsa_correct E \<longleftrightarrow> (\<forall>k m. ec_verify E (ec_public E k) m (ec_sign E k m))"

definition FINGERPRINT_DOMAIN :: bytes where
  "FINGERPRINT_DOMAIN = str_bytes ''LZK/collector-key/v1''"

definition collector_fingerprint :: "sha \<Rightarrow> ('sk, 'vk, 'sig, 'z) ecdsa_scheme \<Rightarrow> 'vk \<Rightarrow> bytes" where
  "collector_fingerprint H E vk = H (FINGERPRINT_DOMAIN @ ec_point E vk)"

datatype signer_error = InvalidKey

definition signer_from_bytes :: "('sk, 'vk, 'sig, 'z) ecdsa_scheme \<Rightarrow> bytes \<Rightarrow> signer_error + 'sk" where
  "signer_from_bytes E bs = ok_or InvalidKey (ec_signing_key E bs)"

definition signer_verifying_key :: "('sk, 'vk, 'sig, 'z) ecdsa_scheme \<Rightarrow> 'sk \<Rightarrow> 'vk" where
  "signer_verifying_key E k = ec_public E k"

definition signer_fingerprint_of :: "sha \<Rightarrow> ('sk, 'vk, 'sig, 'z) ecdsa_scheme \<Rightarrow> 'sk \<Rightarrow> bytes" where
  "signer_fingerprint_of H E k = collector_fingerprint H E (ec_public E k)"

definition sign_envelope :: "sha \<Rightarrow> ('sk, 'vk, 'sig, 'z) ecdsa_scheme \<Rightarrow> 'sk \<Rightarrow> source_envelope \<Rightarrow> 'sig" where
  "sign_envelope H E k e = ec_sign E k (digest H e)"

definition verify_envelope ::
    "sha \<Rightarrow> ('sk, 'vk, 'sig, 'z) ecdsa_scheme \<Rightarrow> 'vk \<Rightarrow> source_envelope \<Rightarrow> 'sig \<Rightarrow> bool" where
  "verify_envelope H E vk e s \<longleftrightarrow> ec_verify E vk (digest H e) s"

datatype origin_badge = A0 | A1 | A2

definition origin_badge :: "string \<Rightarrow> origin_badge" where
  "origin_badge m = (if m = ''A1'' then A1 else if m = ''A2'' then A2 else A0)"

lemma fingerprint_binds:
  assumes "collector_fingerprint H E k = collector_fingerprint H E k'"
  shows "ec_point E k = ec_point E k' \<or> collision H"
  using assms collisionI [of "FINGERPRINT_DOMAIN @ ec_point E k" "FINGERPRINT_DOMAIN @ ec_point E k'" H]
  by (auto simp: collector_fingerprint_def)

end
