(* ===== verification/Peak.thy ===== *)
theory Peak
  imports Prelude
begin

text \<open>
  The running-peak scan behind a maximum drawdown. The performance guest (integers) and the metrics
  crate (decimals) both keep the largest value seen and the largest drop below it; the interface
  \<open>drawdown_measure\<close> is what either drop function promises, and the lemmas proved from it say that
  the single pass finds the largest drop over all pairs of an earlier peak and a later value.
\<close>

fun peak_scan :: "('v :: linorder \<Rightarrow> 'v \<Rightarrow> 'r :: linorder) \<Rightarrow> 'v \<Rightarrow> 'r \<Rightarrow> 'v list \<Rightarrow> 'r" where
  "peak_scan dd peak best [] = best"
| "peak_scan dd peak best (v # vs) = peak_scan dd (max peak v) (max best (dd (max peak v) v)) vs"

text \<open>The pairs a scan from \<open>peak\<close> over \<open>vs\<close> stands for.\<close>

fun drop_pairs :: "'v \<Rightarrow> 'v list \<Rightarrow> ('v \<times> 'v) set" where
  "drop_pairs peak [] = {}"
| "drop_pairs peak (v # vs) = {(peak, v), (v, v)} \<union> drop_pairs peak vs \<union> drop_pairs v vs"

lemma drop_pairs_nth: "i \<le> j \<Longrightarrow> j < length vs \<Longrightarrow> (vs ! i, vs ! j) \<in> drop_pairs peak vs"
proof (induction vs arbitrary: peak i j)
  case (Cons v vs)
  have first: "k < length vs \<Longrightarrow> (q, vs ! k) \<in> drop_pairs q vs" for q k
    by (induction vs arbitrary: k) (auto simp: nth_Cons split: nat.split)
  show ?case
    using Cons.prems Cons.IH first by (cases i; cases j) auto
qed simp

lemma drop_pairs_earlier:
  assumes "(p, x) \<in> drop_pairs peak vs"
  shows "\<exists>j < length vs. x = vs ! j \<and> (p = peak \<or> (\<exists>i \<le> j. p = vs ! i))"
  using assms
proof (induction vs arbitrary: peak)
  case (Cons v vs)
  then consider "x = v" "p = peak \<or> p = v" | "(p, x) \<in> drop_pairs peak vs" | "(p, x) \<in> drop_pairs v vs"
    by auto
  then show ?case
  proof cases
    case 1
    then show ?thesis by (intro exI [of _ 0]) auto
  next
    case 2
    then obtain j where "j < length vs" "x = vs ! j" "p = peak \<or> (\<exists>i \<le> j. p = vs ! i)"
      using Cons.IH by blast
    then show ?thesis by (intro exI [of _ "Suc j"]) (auto intro: exI [of _ "Suc _"])
  next
    case 3
    then obtain j where "j < length vs" "x = vs ! j" "p = v \<or> (\<exists>i \<le> j. p = vs ! i)"
      using Cons.IH by blast
    then show ?thesis
      by (intro exI [of _ "Suc j"]) (auto intro: exI [of _ "Suc _"] exI [of _ 0])
  qed
qed simp

lemma drop_pairs_members: "(p, x) \<in> drop_pairs peak vs \<Longrightarrow> p \<in> insert peak (set vs) \<and> x \<in> set vs"
  by (induction vs arbitrary: peak) auto

text \<open>Replacing the starting peak only changes the pairs that start there.\<close>

lemma drop_pairs_peak:
  "(p, x) \<in> drop_pairs q vs \<Longrightarrow> (p, x) \<in> drop_pairs m vs \<or> p = q \<and> (m, x) \<in> drop_pairs m vs"
  by (induction vs arbitrary: q m) auto

locale drawdown_measure =
  fixes dd :: "'v :: linorder \<Rightarrow> 'v \<Rightarrow> 'r :: linorder"
    and ok :: "'v \<Rightarrow> bool"
  assumes dd_mono: "ok p \<Longrightarrow> ok q \<Longrightarrow> ok v \<Longrightarrow> p \<le> q \<Longrightarrow> dd p v \<le> dd q v"
begin

lemma scan_keeps_best: "best \<le> peak_scan dd peak best vs"
proof (induction vs arbitrary: peak best)
  case (Cons v vs)
  have "best \<le> max best (dd (max peak v) v)" by simp
  also have "\<dots> \<le> peak_scan dd (max peak v) (max best (dd (max peak v) v)) vs" by (rule Cons.IH)
  finally show ?case by simp
qed simp

lemma scan_upper:
  assumes "ok peak" and "\<forall>v \<in> set vs. ok v" and "(p, x) \<in> drop_pairs peak vs"
  shows "dd p x \<le> peak_scan dd peak best vs"
  using assms
proof (induction vs arbitrary: peak best p)
  case (Cons v vs)
  define m where "m = max peak v"
  define r where "r = peak_scan dd m (max best (dd m v)) vs"
  have ok: "ok m" "ok v" using Cons.prems(1,2) by (auto simp: m_def max_def)
  have here: "dd m v \<le> r" using scan_keeps_best [of "max best (dd m v)" m vs] by (simp add: r_def)
  have later: "dd q x \<le> r" if pair: "(q, x) \<in> drop_pairs q' vs" and q': "q' \<le> m" "ok q'" for q q'
  proof -
    have mem: "q \<in> insert q' (set vs)" "x \<in> set vs" using drop_pairs_members [OF pair] by auto
    show ?thesis
    proof (cases "(q, x) \<in> drop_pairs m vs")
      case True
      then show ?thesis unfolding r_def using Cons.IH ok(1) Cons.prems(2) by simp
    next
      case False
      then have q: "q = q'" and "(m, x) \<in> drop_pairs m vs" using drop_pairs_peak [OF pair, of m] by auto
      then have "dd m x \<le> r" unfolding r_def using Cons.IH ok(1) Cons.prems(2) by simp
      moreover have "dd q x \<le> dd m x" using dd_mono [OF q'(2) ok(1) _ q'(1), of x] Cons.prems(2) mem q by simp
      ultimately show ?thesis by (rule order_trans [rotated])
    qed
  qed
  have "(p, x) = (peak, v) \<or> (p, x) = (v, v) \<or> (p, x) \<in> drop_pairs peak vs \<or> (p, x) \<in> drop_pairs v vs"
    using Cons.prems(3) by auto
  moreover have "dd peak v \<le> dd m v" "dd v v \<le> dd m v"
    using dd_mono [of peak m v] dd_mono [of v m v] ok Cons.prems(1) by (simp_all add: m_def)
  moreover have "peak \<le> m" "v \<le> m" by (simp_all add: m_def)
  ultimately have "dd p x \<le> r"
    using here later [of p peak] later [of p v] Cons.prems(1) ok(2) by (auto intro: order_trans)
  then show ?case by (simp add: r_def m_def)
qed simp

lemma scan_attained:
  "peak_scan dd peak best vs = best \<or>
    (\<exists>(p, x) \<in> drop_pairs peak vs. peak_scan dd peak best vs = dd p x)"
proof (induction vs arbitrary: peak best)
  case (Cons v vs)
  define m where "m = max peak v"
  have m: "m = peak \<or> m = v" by (auto simp: m_def max_def)
  then have here: "(m, v) \<in> drop_pairs peak (v # vs)" by auto
  have later: "drop_pairs m vs \<subseteq> drop_pairs peak (v # vs)" using m by auto
  have "max best (dd m v) = best \<or> max best (dd m v) = dd m v" by (auto simp: max_def)
  then show ?case
    using Cons.IH [of m "max best (dd m v)"] here later unfolding peak_scan.simps m_def [symmetric]
    by (smt (verit) case_prodE case_prodI subsetD bexI)
qed simp

end

end
