(* ===== verification/Performance.thy ===== *)
theory Performance
  imports Attestation Peak "HOL-Library.Signed_Division"
begin

text \<open>
  The performance claims guest (zkvm/methods/performance/guest/src): origin check, spot
  reconciliation, the chained time-weighted return index and the maximum drawdown in basis points.
  NAV samples and ledger deltas are \<open>i64\<close> values, the index is computed in \<open>i128\<close>; every plain
  operator is written with its wrap-around.
\<close>

section \<open>compute.rs\<close>

definition SCALE :: int where "SCALE = 1000000"

datatype compute_error =
    EmptyNav
  | NonPositiveNav nat int
  | ReconciliationMismatch int int

definition wrapping_sum :: "int list \<Rightarrow> int" where
  "wrapping_sum xs = fold (\<lambda>x acc. wrap_i64 (acc + x)) xs 0"

definition reconcile :: "int list \<Rightarrow> int list \<Rightarrow> compute_error + unit" where
  "reconcile nav ledger_deltas =
     (if nav = [] then Inl EmptyNav
      else
        let expected = wrap_i64 (last nav - hd nav); got = wrapping_sum ledger_deltas
        in if expected \<noteq> got then Inl (ReconciliationMismatch expected got) else Inr ())"

text \<open>The loop over \<open>nav.windows(2)\<close>, from position \<open>i\<close>.\<close>

fun twr_loop :: "nat \<Rightarrow> int \<Rightarrow> int list \<Rightarrow> compute_error + int" where
  "twr_loop i index (prev # cur # rest) =
     (if prev \<le> 0 then Inl (NonPositiveNav i prev)
      else
        let ratio = wrap_i128 (cur * SCALE) sdiv prev
        in twr_loop (i + 1) (wrap_i128 (index * ratio) sdiv SCALE) (cur # rest))"
| "twr_loop i index nav = Inr index"

definition twr_index :: "int list \<Rightarrow> compute_error + int" where
  "twr_index nav = (if nav = [] then Inl EmptyNav else twr_loop 0 SCALE nav)"

fun mdd_loop :: "nat \<Rightarrow> int \<Rightarrow> int \<Rightarrow> int list \<Rightarrow> compute_error + int" where
  "mdd_loop i peak max_dd_scaled [] = Inr max_dd_scaled"
| "mdd_loop i peak max_dd_scaled (value # rest) =
     (if value \<le> 0 then Inl (NonPositiveNav i value)
      else if value > peak then mdd_loop (i + 1) value max_dd_scaled rest
      else
        let drawdown = wrap_i128 ((peak - value) * SCALE) sdiv peak
        in mdd_loop (i + 1) peak (if drawdown > max_dd_scaled then drawdown else max_dd_scaled) rest)"

definition max_drawdown_bp :: "int list \<Rightarrow> compute_error + int" where
  "max_drawdown_bp nav =
     (case nav of
        [] \<Rightarrow> Inl EmptyNav
      | first # _ \<Rightarrow>
          if first \<le> 0 then Inl (NonPositiveNav 0 first)
          else and_then (mdd_loop 0 first 0 nav) (\<lambda>max_dd_scaled.
            Inr (wrap_i64 (wrap_i128 (max_dd_scaled * 10000) sdiv SCALE))))"

section \<open>envelope.rs and origin.rs\<close>

text \<open>The guest's own implementation of the envelope encoding and of the fingerprint.\<close>

definition guest_canonical_bytes :: "source_envelope \<Rightarrow> bytes" where
  "guest_canonical_bytes e =
     (let buf = write_field [] ''mechanism'' (str_bytes (mechanism e));
          buf = write_field buf ''issuerKeyId'' (str_bytes (issuer_key_id e));
          buf = write_field buf ''trustManifestHash'' (trust_manifest_hash e);
          buf = write_field buf ''accountBindingCommitment'' (account_binding_commitment e);
          buf = write_field buf ''batchCommitment'' (batch_commitment e);
          buf = write_field buf ''rawEvidenceRoot'' (raw_evidence_root e);
          buf = write_field buf ''normalizedRoot'' (normalized_root e);
          buf = write_field buf ''coverageManifestHash'' (coverage_manifest_hash e);
          buf = write_field buf ''periodStart'' (i64_be_bytes (period_start_ms e));
          buf = write_field buf ''periodEnd'' (i64_be_bytes (period_end_ms e));
          buf = write_field buf ''observedAt'' (i64_be_bytes (observed_at_ms e));
          buf = write_field buf ''expiresAt'' (i64_be_bytes (expires_at_ms e));
          buf = write_field buf ''policyHash'' (policy_hash e);
          buf = write_field buf ''environment'' (str_bytes (environment e))
      in write_field buf ''sourceSessionBinding'' (source_session_binding e))"

definition guest_digest :: "sha \<Rightarrow> source_envelope \<Rightarrow> bytes" where
  "guest_digest H e = H (guest_canonical_bytes e)"

definition guest_collector_fingerprint :: "sha \<Rightarrow> ('sk, 'vk, 'sig, 'z) ecdsa_scheme \<Rightarrow> 'vk \<Rightarrow> bytes" where
  "guest_collector_fingerprint H E vk = H (str_bytes ''LZK/collector-key/v1'' @ ec_point E vk)"

record verified_origin =
  vo_envelope_digest :: bytes
  vo_signer_fingerprint :: bytes

datatype origin_error = InvalidVerifyingKey | InvalidSignatureEncoding | SignatureDoesNotVerify

definition verify_origin ::
    "sha \<Rightarrow> ('sk, 'vk, 'sig, 'z) ecdsa_scheme \<Rightarrow> source_envelope \<Rightarrow> bytes \<Rightarrow> bytes \<Rightarrow> origin_error + verified_origin" where
  "verify_origin H E e verifying_key_sec1 signature_compact =
     and_then (ok_or InvalidVerifyingKey (ec_parse_key E verifying_key_sec1)) (\<lambda>vk.
     and_then (ok_or InvalidSignatureEncoding (ec_parse_sig E signature_compact)) (\<lambda>sig.
     let d = guest_digest H e in
     if \<not> ec_verify E vk d sig then Inl SignatureDoesNotVerify
     else Inr \<lparr>vo_envelope_digest = d, vo_signer_fingerprint = guest_collector_fingerprint H E vk\<rparr>))"

section \<open>lib.rs\<close>

record guest_input =
  gi_envelope :: source_envelope
  gi_verifying_key_sec1 :: bytes
  gi_signature_compact :: bytes
  gi_nav :: "int list"
  gi_ledger_deltas :: "int list"

record guest_output =
  go_envelope_digest :: bytes
  go_signer_fingerprint :: bytes
  go_period_start_ms :: int
  go_period_end_ms :: int
  go_twr_index_scaled :: int
  go_mdd_bp :: int
  go_capital :: int

datatype guest_error = OriginE origin_error | ComputeE compute_error

definition run :: "sha \<Rightarrow> ('sk, 'vk, 'sig, 'z) ecdsa_scheme \<Rightarrow> guest_input \<Rightarrow> guest_error + guest_output" where
  "run H E inp =
     and_then (map_err OriginE (verify_origin H E (gi_envelope inp) (gi_verifying_key_sec1 inp)
         (gi_signature_compact inp))) (\<lambda>origin.
     and_then (map_err ComputeE (reconcile (gi_nav inp) (gi_ledger_deltas inp))) (\<lambda>_.
     and_then (map_err ComputeE (twr_index (gi_nav inp))) (\<lambda>twr.
     and_then (map_err ComputeE (max_drawdown_bp (gi_nav inp))) (\<lambda>mdd.
     and_then (if gi_nav inp = [] then Inl (ComputeE EmptyNav) else Inr (last (gi_nav inp))) (\<lambda>capital.
       Inr \<lparr>go_envelope_digest = vo_envelope_digest origin,
            go_signer_fingerprint = vo_signer_fingerprint origin,
            go_period_start_ms = period_start_ms (gi_envelope inp),
            go_period_end_ms = period_end_ms (gi_envelope inp),
            go_twr_index_scaled = twr, go_mdd_bp = mdd, go_capital = capital\<rparr>)))))"

section \<open>The two encodings agree\<close>

lemma guest_canonical_bytes_eq: "guest_canonical_bytes e = canonical_bytes e"
  by (simp add: guest_canonical_bytes_def canonical_bytes_def Let_def)

lemma guest_digest_eq: "guest_digest H e = digest H e"
  by (simp add: guest_digest_def digest_def guest_canonical_bytes_eq)

lemma guest_fingerprint_eq: "guest_collector_fingerprint H E vk = collector_fingerprint H E vk"
  by (simp add: guest_collector_fingerprint_def collector_fingerprint_def FINGERPRINT_DOMAIN_def)

section \<open>The index\<close>

lemma div_chain:
  fixes p f x s r c :: int
  assumes "0 < p" and "0 < f" and "f * x \<le> s * p" and "0 \<le> x" and "0 \<le> r" and "p * r \<le> c * s" and "0 < s"
  shows "f * (x * r div s) \<le> s * c"
proof -
  have "p * (f * (x * r)) = (f * x) * (p * r)" by (simp add: ac_simps)
  also have "\<dots> \<le> (s * p) * (c * s)" by (rule mult_mono) (use assms in simp_all)
  also have "\<dots> = p * (s * s * c)" by (simp add: ac_simps)
  finally have "f * (x * r) \<le> s * s * c" using assms(1) by simp
  moreover have "s * (x * r div s) \<le> x * r" using assms(7) by (rule mult_div_le_int)
  then have "s * (f * (x * r div s)) \<le> f * (x * r)" using assms(2) by (simp add: mult.left_commute)
  ultimately have "s * (f * (x * r div s)) \<le> s * (s * c)" by (simp add: mult.assoc)
  then show ?thesis using assms(7) by simp
qed

text \<open>The index over unbounded integers, the reference for the \<open>i128\<close> loop.\<close>

fun twr_exact :: "int \<Rightarrow> int list \<Rightarrow> int" where
  "twr_exact index (prev # cur # rest) = twr_exact (index * (cur * SCALE div prev) div SCALE) (cur # rest)"
| "twr_exact index nav = index"

definition nav_typed :: "int list \<Rightarrow> bool" where
  "nav_typed nav \<longleftrightarrow> list_all in_i64 nav"

lemma i64_scaled: "in_i64 x \<Longrightarrow> in_i128 (x * SCALE)"
  by (auto simp: in_s_def SCALE_def)

lemma sdiv_pos: "0 \<le> a \<Longrightarrow> 0 < b \<Longrightarrow> (a::int) sdiv b = a div b"
  by (cases "a = 0") (simp_all add: signed_divide_int_def)

lemma twr_step_in_range:
  assumes f: "0 < f" and idx: "0 \<le> index" "f * index \<le> SCALE * prev"
    and nav: "0 < prev" "0 < cur" "in_i64 cur"
  defines "r \<equiv> cur * SCALE div prev"
  shows "in_i128 (index * r)" and "0 \<le> index * r div SCALE" and "f * (index * r div SCALE) \<le> SCALE * cur"
proof -
  have r: "0 \<le> r" "prev * r \<le> cur * SCALE"
    using nav mult_div_le_int [of prev "cur * SCALE"] by (simp_all add: r_def SCALE_def pos_imp_zdiv_nonneg_iff)
  show third: "f * (index * r div SCALE) \<le> SCALE * cur"
    by (rule div_chain [OF nav(1) f idx(2,1) r]) (simp add: SCALE_def)
  show "0 \<le> index * r div SCALE" using idx r by (simp add: SCALE_def pos_imp_zdiv_nonneg_iff)
  have "1 * (index * r div SCALE) \<le> f * (index * r div SCALE)"
    using f idx r by (intro mult_right_mono) (simp_all add: SCALE_def pos_imp_zdiv_nonneg_iff)
  then have "index * r div SCALE \<le> SCALE * cur" using third by linarith
  moreover have "index * r = SCALE * (index * r div SCALE) + index * r mod SCALE" by simp
  moreover have "index * r mod SCALE < SCALE" by (simp add: SCALE_def)
  ultimately have "index * r < SCALE * (SCALE * cur) + SCALE"
    using mult_left_mono [of "index * r div SCALE" "SCALE * cur" SCALE] by (simp add: SCALE_def)
  then show "in_i128 (index * r)"
    using nav(3) idx(1) r(1) by (auto simp: in_s_def SCALE_def intro: order_trans [OF _ mult_nonneg_nonneg])
qed

lemma twr_loop_exact:
  assumes "0 < f" and "0 \<le> index" and "nav \<noteq> []" and "f * index \<le> SCALE * hd nav"
    and "\<forall>v \<in> set nav. 0 < v" and "nav_typed nav"
  shows "twr_loop i index nav = Inr (twr_exact index nav) \<and> 0 \<le> twr_exact index nav \<and>
    f * twr_exact index nav \<le> SCALE * last nav"
  using assms
proof (induction i index nav rule: twr_loop.induct)
  case (1 i index prev cur rest)
  have pos: "0 < prev" "0 < cur" and typed: "in_i64 cur" using "1.prems" by (simp_all add: nav_typed_def)
  note step = twr_step_in_range [OF "1.prems"(1,2) _ pos typed]
  have idx: "f * index \<le> SCALE * prev" using "1.prems"(4) by simp
  define r where "r = cur * SCALE div prev"
  have ratio: "wrap_i128 (cur * SCALE) sdiv prev = r"
    using i64_scaled [OF typed] pos by (simp add: sdiv_pos SCALE_def r_def)
  have index': "wrap_i128 (index * r) sdiv SCALE = index * r div SCALE"
    using step [OF idx] sdiv_pos [of "index * r" SCALE] "1.prems"(2) pos
    by (simp add: r_def SCALE_def pos_imp_zdiv_nonneg_iff)
  have "twr_loop (i + 1) (index * r div SCALE) (cur # rest) =
      Inr (twr_exact (index * r div SCALE) (cur # rest)) \<and> 0 \<le> twr_exact (index * r div SCALE) (cur # rest) \<and>
      f * twr_exact (index * r div SCALE) (cur # rest) \<le> SCALE * last (cur # rest)"
    using "1.IH" [OF _ refl] pos ratio index' step(2,3) [OF idx] "1.prems" by (simp add: r_def nav_typed_def)
  moreover have "last (prev # cur # rest) = last (cur # rest)" by simp
  moreover have "twr_exact index (prev # cur # rest) = twr_exact (index * r div SCALE) (cur # rest)"
    by (simp add: r_def)
  moreover have "twr_loop i index (prev # cur # rest) = twr_loop (i + 1) (index * r div SCALE) (cur # rest)"
    using pos by (simp add: ratio index')
  ultimately show ?case by (simp only:)
qed simp_all

text \<open>A successful run of the loop saw no non-positive sample before the last.\<close>

lemma twr_loop_error:
  assumes "twr_loop i index nav = Inl e"
  shows "\<exists>k < length nav - 1. nav ! k \<le> 0 \<and> e = NonPositiveNav (i + k) (nav ! k) \<and> (\<forall>j < k. 0 < nav ! j)"
  using assms
proof (induction i index nav rule: twr_loop.induct)
  case (1 i index prev cur rest)
  show ?case
  proof (cases "prev \<le> 0")
    case True
    then show ?thesis using "1.prems" by (intro exI [of _ 0]) simp
  next
    case False
    then obtain k where "k < length (cur # rest) - 1" "(cur # rest) ! k \<le> 0"
      "e = NonPositiveNav (i + 1 + k) ((cur # rest) ! k)" "\<forall>j < k. 0 < (cur # rest) ! j"
      using "1.IH" [OF False refl] "1.prems" by (auto simp: Let_def)
    then show ?thesis using False by (intro exI [of _ "Suc k"]) (auto simp: less_Suc_eq_0_disj)
  qed
qed simp_all

section \<open>The drawdown\<close>

definition drop_scaled :: "int \<Rightarrow> int \<Rightarrow> int" where
  "drop_scaled p v = (p - v) * SCALE div p"

interpretation nav_drop: drawdown_measure drop_scaled "\<lambda>v. 0 < v"
proof
  fix p q v :: int
  assume a: "0 < p" "0 < q" "0 < v" "p \<le> q"
  have e: "drop_scaled x v = SCALE + (- (v * SCALE)) div x" if "0 < x" for x
  proof -
    have "(x - v) * SCALE = SCALE * x + (- (v * SCALE))" by (simp add: algebra_simps)
    then show ?thesis using that by (simp only: drop_scaled_def div_mult_self3)
  qed
  have "(- (v * SCALE)) div p \<le> (- (v * SCALE)) div q"
    using a by (intro zdiv_mono2_neg) (simp_all add: SCALE_def)
  then show "drop_scaled p v \<le> drop_scaled q v" using a by (simp add: e)
qed

lemma drop_scaled_le: "0 < v \<Longrightarrow> 0 < p \<Longrightarrow> drop_scaled p v \<le> SCALE"
proof -
  assume a: "0 < v" "0 < p"
  have "(p - v) * SCALE \<le> p * SCALE" using a by (simp add: SCALE_def)
  then have "(p - v) * SCALE div p \<le> p * SCALE div p" using a by (intro zdiv_mono1) simp_all
  then show ?thesis using a by (simp add: drop_scaled_def)
qed

lemma mdd_loop_scan:
  assumes "0 < peak" and "in_i64 peak" and "nav_typed nav" and "0 \<le> best"
  shows "mdd_loop i peak best nav = Inr r \<longleftrightarrow>
    (\<forall>v \<in> set nav. 0 < v) \<and> r = peak_scan drop_scaled peak best nav"
  using assms
proof (induction nav arbitrary: i peak best)
  case (Cons v nav)
  have typed: "nav_typed nav" "in_i64 v" using Cons.prems(3) by (simp_all add: nav_typed_def)
  show ?case
  proof (cases "0 < v")
    case False
    then show ?thesis by simp
  next
    case v: True
    show ?thesis
    proof (cases "v > peak")
      case True
      have "max best (drop_scaled v v) = best" using Cons.prems(4) by (simp add: drop_scaled_def)
      then show ?thesis using True v Cons.IH [of v best "i + 1"] typed Cons.prems(4) by (simp add: max_def)
    next
      case False
      have "in_i128 ((peak - v) * SCALE)"
        using Cons.prems(1,2) v False by (intro i64_scaled) (simp add: in_s_def)
      then have dd: "wrap_i128 ((peak - v) * SCALE) sdiv peak = drop_scaled peak v"
        using False v Cons.prems(1) by (simp add: sdiv_pos SCALE_def drop_scaled_def)
      have m: "max peak v = peak" using False by simp
      have "mdd_loop i peak best (v # nav) = mdd_loop (i + 1) peak (max best (drop_scaled peak v)) nav"
        using False v by (simp add: dd max_def Let_def)
      then show ?thesis
        using Cons.IH [of peak "max best (drop_scaled peak v)" "i + 1"] v Cons.prems(1,2,4) typed(1) by (simp add: m)
    qed
  qed
qed auto

text \<open>The drop between two samples in basis points, as the guest rounds it.\<close>

definition drop_bp :: "int \<Rightarrow> int \<Rightarrow> int" where
  "drop_bp p v = (p - v) * SCALE div p * 10000 div SCALE"

lemma drop_bp_scaled: "drop_bp p v = drop_scaled p v * 10000 div SCALE"
  by (simp add: drop_bp_def drop_scaled_def)

lemma max_drawdown_bp_scan:
  assumes "nav \<noteq> []" and "nav_typed nav" and "\<forall>v \<in> set nav. 0 < v"
  shows "\<exists>m. max_drawdown_bp nav = Inr (m * 10000 div SCALE) \<and> 0 \<le> m \<and> m \<le> SCALE \<and>
    (\<forall>(p, v) \<in> drop_pairs (hd nav) nav. drop_scaled p v \<le> m) \<and>
    (\<exists>(p, v) \<in> drop_pairs (hd nav) nav. m = drop_scaled p v)"
proof -
  define m where "m = peak_scan drop_scaled (hd nav) 0 nav"
  obtain f rest where nav: "nav = f # rest" using assms(1) by (cases nav) auto
  have f: "0 < f" "in_i64 f" using assms(2,3) by (simp_all add: nav nav_typed_def)
  have upper: "\<forall>(p, v) \<in> drop_pairs (hd nav) nav. drop_scaled p v \<le> m"
    using nav_drop.scan_upper [of f nav] f assms(3) by (auto simp: m_def nav)
  have zero: "drop_scaled f f = 0" and "(f, f) \<in> drop_pairs (hd nav) nav"
    by (simp_all add: nav drop_scaled_def)
  then have attained: "\<exists>(p, v) \<in> drop_pairs (hd nav) nav. m = drop_scaled p v"
    using nav_drop.scan_attained [of "hd nav" 0 nav] unfolding m_def by force
  have m0: "0 \<le> m" using nav_drop.scan_keeps_best by (simp add: m_def)
  obtain p v where pv: "(p, v) \<in> drop_pairs (hd nav) nav" "m = drop_scaled p v" using attained by blast
  have "0 < v" "0 < p" using drop_pairs_members [OF pv(1)] assms(1,3) by auto
  then have mS: "m \<le> SCALE" using drop_scaled_le pv(2) by simp
  have "mdd_loop 0 f 0 nav = Inr m" using mdd_loop_scan [OF f assms(2)] assms(3) by (simp add: m_def nav)
  moreover have "wrap_i64 (wrap_i128 (m * 10000) sdiv SCALE) = m * 10000 div SCALE"
  proof -
    have "in_i128 (m * 10000)" using m0 mS by (auto simp: in_s_def SCALE_def)
    moreover have "m * 10000 div SCALE \<le> SCALE * 10000 div SCALE"
      using mS by (intro zdiv_mono1) (simp_all add: SCALE_def)
    moreover have "0 \<le> m * 10000 div SCALE" using m0 by (simp add: SCALE_def pos_imp_zdiv_nonneg_iff)
    ultimately show ?thesis using m0 by (simp add: sdiv_pos SCALE_def in_s_def)
  qed
  ultimately have "max_drawdown_bp nav = Inr (m * 10000 div SCALE)"
    using f by (simp add: max_drawdown_bp_def nav)
  then show ?thesis using m0 mS upper attained by blast
qed

lemma run_InrE [res_elims]:
  assumes "run H E inp = Inr out"
  obtains vk sig where "ec_parse_key E (gi_verifying_key_sec1 inp) = Some vk"
    and "ec_parse_sig E (gi_signature_compact inp) = Some sig"
    and "ec_verify E vk (digest H (gi_envelope inp)) sig"
    and "go_envelope_digest out = digest H (gi_envelope inp)"
    and "go_signer_fingerprint out = collector_fingerprint H E vk"
    and "go_period_start_ms out = period_start_ms (gi_envelope inp)"
    and "go_period_end_ms out = period_end_ms (gi_envelope inp)"
    and "reconcile (gi_nav inp) (gi_ledger_deltas inp) = Inr ()"
    and "twr_index (gi_nav inp) = Inr (go_twr_index_scaled out)"
    and "max_drawdown_bp (gi_nav inp) = Inr (go_mdd_bp out)"
    and "gi_nav inp \<noteq> []" and "go_capital out = last (gi_nav inp)"
  using assms
  by (auto simp: run_def verify_origin_def Let_def guest_digest_eq guest_fingerprint_eq split: if_splits)

lemma max_drawdown_positive:
  assumes "max_drawdown_bp nav = Inr r" and "nav_typed nav"
  shows "nav \<noteq> [] \<and> (\<forall>v \<in> set nav. 0 < v)"
  using assms mdd_loop_scan [of "hd nav" nav 0 0]
  by (cases nav) (auto simp: max_drawdown_bp_def nav_typed_def split: if_splits)

section \<open>Properties\<close>

text \<open>
  C14. The return index of the guest is exact and never overstates: on positive \<open>i64\<close> samples no
  operator of the \<open>i128\<close> loop wraps, the result is the index over unbounded integers, and it is at
  most \<open>SCALE\<close> times the ratio of the last sample to the first.
\<close>

theorem performance_twr_exact:
  assumes "nav \<noteq> []" and "nav_typed nav" and "\<forall>v \<in> set nav. 0 < v"
  shows "twr_index nav = Inr (twr_exact SCALE nav) \<and> 0 \<le> twr_exact SCALE nav \<and>
    hd nav * twr_exact SCALE nav \<le> SCALE * last nav"
  using twr_loop_exact [of "hd nav" SCALE nav 0] assms by (cases nav) (simp_all add: twr_index_def SCALE_def)

definition sample_nav :: "int list" where
  "sample_nav = [1000000, 1200000, 900000, 1100000, 800000, 1300000]"

theorem performance_twr_exact_witness:
  "twr_index sample_nav = Inr (twr_exact SCALE sample_nav) \<and> 0 \<le> twr_exact SCALE sample_nav \<and>
    hd sample_nav * twr_exact SCALE sample_nav \<le> SCALE * last sample_nav"
  by (rule performance_twr_exact) (simp_all add: sample_nav_def nav_typed_def in_s_def)

text \<open>
  C13. The drawdown of the guest is the largest drop, in basis points, from any sample to a later one;
  it lies between 0 and 10000, and some pair of samples attains it.
\<close>

theorem performance_mdd_is_largest_drop:
  assumes "nav \<noteq> []" and "nav_typed nav" and "\<forall>v \<in> set nav. 0 < v"
  shows "\<exists>r. max_drawdown_bp nav = Inr r \<and> 0 \<le> r \<and> r \<le> 10000 \<and>
    (\<forall>i j. i \<le> j \<and> j < length nav \<longrightarrow> drop_bp (nav ! i) (nav ! j) \<le> r) \<and>
    (\<exists>i j. i \<le> j \<and> j < length nav \<and> r = drop_bp (nav ! i) (nav ! j))"
proof -
  obtain m where m: "max_drawdown_bp nav = Inr (m * 10000 div SCALE)" "0 \<le> m" "m \<le> SCALE"
    and upper: "\<forall>(p, v) \<in> drop_pairs (hd nav) nav. drop_scaled p v \<le> m"
    and att: "\<exists>(p, v) \<in> drop_pairs (hd nav) nav. m = drop_scaled p v"
    using max_drawdown_bp_scan [OF assms] by blast
  define r where "r = m * 10000 div SCALE"
  have mono: "x \<le> y \<Longrightarrow> x * 10000 div SCALE \<le> y * 10000 div SCALE" for x y
    by (intro zdiv_mono1) (simp_all add: SCALE_def)
  have all: "drop_bp (nav ! i) (nav ! j) \<le> r" if "i \<le> j" "j < length nav" for i j
  proof -
    have "drop_scaled (nav ! i) (nav ! j) \<le> m"
      using upper drop_pairs_nth [OF that, of "hd nav"] by blast
    then show ?thesis unfolding drop_bp_scaled r_def by (rule mono)
  qed
  obtain p v where pv: "(p, v) \<in> drop_pairs (hd nav) nav" "m = drop_scaled p v" using att by blast
  have h: "hd nav = nav ! 0" using assms(1) by (simp add: hd_conv_nth)
  obtain i j where "i \<le> j" "j < length nav" "v = nav ! j" "p = nav ! i"
    using drop_pairs_earlier [OF pv(1)] h by (metis le0)
  then have ex: "\<exists>i j. i \<le> j \<and> j < length nav \<and> r = drop_bp (nav ! i) (nav ! j)"
    using pv(2) by (auto simp: r_def drop_bp_scaled)
  have "0 \<le> r" and "r \<le> 10000" using m(2) mono [OF m(3)] by (simp_all add: r_def SCALE_def pos_imp_zdiv_nonneg_iff)
  then show ?thesis using m(1) all ex unfolding r_def [symmetric] by blast
qed

theorem performance_mdd_is_largest_drop_witness:
  "\<exists>r. max_drawdown_bp sample_nav = Inr r \<and> 0 \<le> r \<and> r \<le> 10000 \<and>
    (\<forall>i j. i \<le> j \<and> j < length sample_nav \<longrightarrow> drop_bp (sample_nav ! i) (sample_nav ! j) \<le> r) \<and>
    (\<exists>i j. i \<le> j \<and> j < length sample_nav \<and> r = drop_bp (sample_nav ! i) (sample_nav ! j))"
  by (rule performance_mdd_is_largest_drop) (simp_all add: sample_nav_def nav_typed_def in_s_def)

text \<open>
  C3. What a proof of the performance guest vouches for: the signature it checked covers the digest of
  the whole envelope, which is the digest it publishes next to the fingerprint of the signing key; all
  samples are positive, they change by the sum of the ledger deltas (wrapping at 128 bits, as the code adds them), and the published
  capital, index and drawdown are those of the samples.
\<close>

theorem performance_run_sound:
  assumes "run H E inp = Inr out" and "nav_typed (gi_nav inp)"
  shows "(\<exists>vk sig. ec_parse_key E (gi_verifying_key_sec1 inp) = Some vk \<and>
        ec_parse_sig E (gi_signature_compact inp) = Some sig \<and>
        verify_envelope H E vk (gi_envelope inp) sig \<and>
        go_signer_fingerprint out = collector_fingerprint H E vk) \<and>
    go_envelope_digest out = digest H (gi_envelope inp) \<and>
    go_period_start_ms out = period_start_ms (gi_envelope inp) \<and>
    go_period_end_ms out = period_end_ms (gi_envelope inp) \<and>
    gi_nav inp \<noteq> [] \<and> (\<forall>v \<in> set (gi_nav inp). 0 < v) \<and>
    last (gi_nav inp) = hd (gi_nav inp) + wrapping_sum (gi_ledger_deltas inp) \<and>
    go_capital out = last (gi_nav inp) \<and>
    go_twr_index_scaled out = twr_exact SCALE (gi_nav inp) \<and>
    max_drawdown_bp (gi_nav inp) = Inr (go_mdd_bp out)"
  using assms(1)
proof (rule run_InrE)
  fix vk sig
  assume k: "ec_parse_key E (gi_verifying_key_sec1 inp) = Some vk"
      "ec_parse_sig E (gi_signature_compact inp) = Some sig"
      "ec_verify E vk (digest H (gi_envelope inp)) sig"
      "go_signer_fingerprint out = collector_fingerprint H E vk"
    and o: "go_envelope_digest out = digest H (gi_envelope inp)"
      "go_period_start_ms out = period_start_ms (gi_envelope inp)"
      "go_period_end_ms out = period_end_ms (gi_envelope inp)" "go_capital out = last (gi_nav inp)"
    and rec: "reconcile (gi_nav inp) (gi_ledger_deltas inp) = Inr ()"
    and twr: "twr_index (gi_nav inp) = Inr (go_twr_index_scaled out)"
    and mdd: "max_drawdown_bp (gi_nav inp) = Inr (go_mdd_bp out)"
  have pos: "gi_nav inp \<noteq> []" "\<forall>v \<in> set (gi_nav inp). 0 < v"
    using max_drawdown_positive [OF mdd assms(2)] by simp_all
  have "twr_loop 0 SCALE (gi_nav inp) = Inr (twr_exact SCALE (gi_nav inp))"
    using twr_loop_exact [of "hd (gi_nav inp)" SCALE "gi_nav inp" 0] pos assms(2) by (simp add: SCALE_def)
  then have "go_twr_index_scaled out = twr_exact SCALE (gi_nav inp)" using twr pos(1) by (simp add: twr_index_def)
  moreover have "0 < hd (gi_nav inp)" "0 < last (gi_nav inp)"
    "in_i64 (hd (gi_nav inp))" "in_i64 (last (gi_nav inp))"
    using pos assms(2) by (simp_all add: nav_typed_def list_all_iff)
  then have "in_i64 (last (gi_nav inp) - hd (gi_nav inp))" by (auto simp: in_s_def)
  then have "last (gi_nav inp) = hd (gi_nav inp) + wrapping_sum (gi_ledger_deltas inp)"
    using rec pos(1) by (auto simp: reconcile_def Let_def split: if_splits)
  ultimately show ?thesis using k o mdd pos by (auto simp: verify_envelope_def)
qed

text \<open>A scheme for the witnesses: a key signs a message by prefixing it with itself.\<close>

definition sample_ecdsa :: "(bytes, bytes, bytes) ecdsa" where
  "sample_ecdsa = \<lparr>ec_signing_key = Some, ec_public = (\<lambda>k. k), ec_sign = (\<lambda>k m. k @ m),
     ec_verify = (\<lambda>k m s. s = k @ m), ec_point = (\<lambda>k. k), ec_parse_key = Some, ec_parse_sig = Some\<rparr>"

definition sample_envelope :: source_envelope where
  "sample_envelope = \<lparr>mechanism = ''A0'', issuer_key_id = ''collector-1'',
     trust_manifest_hash = replicate 32 1, account_binding_commitment = replicate 32 2,
     batch_commitment = replicate 32 3, raw_evidence_root = replicate 32 4, normalized_root = replicate 32 5,
     coverage_manifest_hash = replicate 32 6, period_start_ms = 0, period_end_ms = 432000000,
     observed_at_ms = 432000001, expires_at_ms = 518400000, policy_hash = replicate 32 7,
     environment = ''production'', source_session_binding = replicate 32 8\<rparr>"

definition sample_input :: guest_input where
  "sample_input = \<lparr>gi_envelope = sample_envelope, gi_verifying_key_sec1 = [2, 7],
     gi_signature_compact = sign_envelope (\<lambda>x. x) sample_ecdsa [2, 7] sample_envelope,
     gi_nav = sample_nav, gi_ledger_deltas = [200000, - 300000, 200000, - 300000, 500000]\<rparr>"

definition sample_output :: guest_output where
  "sample_output = \<lparr>go_envelope_digest = digest (\<lambda>x. x) sample_envelope,
     go_signer_fingerprint = collector_fingerprint (\<lambda>x. x) sample_ecdsa [2, 7],
     go_period_start_ms = 0, go_period_end_ms = 432000000,
     go_twr_index_scaled = twr_exact SCALE sample_nav, go_mdd_bp = 3333, go_capital = 1300000\<rparr>"

lemma sample_compute:
  "reconcile sample_nav [200000, - 300000, 200000, - 300000, 500000] = Inr ()"
  "twr_index sample_nav = Inr (twr_exact SCALE sample_nav)"
  "max_drawdown_bp sample_nav = Inr 3333" "last sample_nav = 1300000" "sample_nav \<noteq> []"
  by code_simp+

lemma sample_run: "run (\<lambda>x. x) sample_ecdsa sample_input = Inr sample_output"
  using sample_compute
  by (simp add: run_def verify_origin_def sample_input_def sample_ecdsa_def sign_envelope_def guest_digest_eq
    guest_fingerprint_eq sample_output_def Let_def) (simp add: sample_envelope_def)

theorem performance_run_sound_witness:
  "last sample_nav = hd sample_nav + wrapping_sum [200000, - 300000, 200000, - 300000, 500000]"
  using performance_run_sound [OF sample_run]
  by (simp add: sample_input_def) (simp add: sample_nav_def nav_typed_def in_s_def)

text \<open>
  C9. The signature covers the envelope and nothing else: take any accepted input and replace its NAV
  series and ledger deltas by any other positive series with matching deltas. The guest accepts that
  input too, under the same signer fingerprint and the same envelope digest, and publishes the capital,
  the index and the drawdown of the replaced series. The figures in a journal are those of whoever ran
  the guest, not of the collector whose fingerprint is published beside them.
\<close>

theorem performance_nav_not_signed:
  assumes "run H E inp = Inr out" and "nav \<noteq> []" and "nav_typed nav" and "\<forall>v \<in> set nav. 0 < v"
  shows "\<exists>mdd. run H E (inp\<lparr>gi_nav := nav, gi_ledger_deltas := [last nav - hd nav]\<rparr>) =
    Inr (out\<lparr>go_twr_index_scaled := twr_exact SCALE nav, go_mdd_bp := mdd, go_capital := last nav\<rparr>)"
  using assms(1)
proof (rule run_InrE)
  fix vk sig
  assume k: "ec_parse_key E (gi_verifying_key_sec1 inp) = Some vk"
      "ec_parse_sig E (gi_signature_compact inp) = Some sig"
      "ec_verify E vk (digest H (gi_envelope inp)) sig"
      "go_signer_fingerprint out = collector_fingerprint H E vk"
      "go_envelope_digest out = digest H (gi_envelope inp)"
      "go_period_start_ms out = period_start_ms (gi_envelope inp)"
      "go_period_end_ms out = period_end_ms (gi_envelope inp)"
  have "twr_loop 0 SCALE nav = Inr (twr_exact SCALE nav)"
    using twr_loop_exact [of "hd nav" SCALE nav 0] assms(2-4) by (simp add: SCALE_def)
  then have twr: "twr_index nav = Inr (twr_exact SCALE nav)" using assms(2) by (simp add: twr_index_def)
  obtain mdd where mdd: "max_drawdown_bp nav = Inr mdd" using max_drawdown_bp_scan [OF assms(2-4)] by blast
  have "0 < hd nav" "0 < last nav" "in_i64 (hd nav)" "in_i64 (last nav)"
    using assms(2-4) by (simp_all add: nav_typed_def list_all_iff)
  then have "in_i64 (last nav - hd nav)" by (auto simp: in_s_def)
  then have "reconcile nav [last nav - hd nav] = Inr ()"
    using assms(2) by (simp add: reconcile_def wrapping_sum_def Let_def)
  then show ?thesis using k twr mdd assms(2)
    by (intro exI [of _ mdd]) (cases out, simp add: run_def verify_origin_def guest_digest_eq guest_fingerprint_eq Let_def)
qed

theorem performance_nav_not_signed_witness:
  "\<exists>mdd. run (\<lambda>x. x) sample_ecdsa (sample_input\<lparr>gi_nav := [1, 1000000], gi_ledger_deltas := [999999]\<rparr>) =
    Inr (sample_output\<lparr>go_twr_index_scaled := twr_exact SCALE [1, 1000000], go_mdd_bp := mdd, go_capital := 1000000\<rparr>)"
  using performance_nav_not_signed [OF sample_run, of "[1, 1000000]"]
  by (simp add: nav_typed_def in_s_def)

text \<open>
  A host cannot pass one envelope through under the digest of another: two accepted inputs that
  publish the same digest carry the same envelope, unless a SHA-256 collision has been found; and two
  that publish the same fingerprint were signed with the same key point.
\<close>

theorem performance_digest_binds_envelope:
  assumes "run H E a = Inr x" and "run H E b = Inr y"
    and "envelope_typed (gi_envelope a)" and "envelope_typed (gi_envelope b)"
    and "go_envelope_digest x = go_envelope_digest y" and "go_signer_fingerprint x = go_signer_fingerprint y"
  shows "gi_envelope a = gi_envelope b \<and>
      (\<exists>k k'. ec_parse_key E (gi_verifying_key_sec1 a) = Some k \<and>
        ec_parse_key E (gi_verifying_key_sec1 b) = Some k' \<and> ec_point E k = ec_point E k') \<or>
    collision H"
proof -
  obtain k where k: "ec_parse_key E (gi_verifying_key_sec1 a) = Some k"
      "go_envelope_digest x = digest H (gi_envelope a)" "go_signer_fingerprint x = collector_fingerprint H E k"
    using assms(1) by (rule run_InrE) blast
  obtain k' where k': "ec_parse_key E (gi_verifying_key_sec1 b) = Some k'"
      "go_envelope_digest y = digest H (gi_envelope b)" "go_signer_fingerprint y = collector_fingerprint H E k'"
    using assms(2) by (rule run_InrE) blast
  have "gi_envelope a = gi_envelope b \<or> collision H"
    using env.hash_binds [OF assms(3,4)] assms(5) k(2) k'(2) by (simp add: digest_def)
  moreover have "ec_point E k = ec_point E k' \<or> collision H"
    using fingerprint_binds [of H E k k'] assms(6) k(3) k'(3) by simp
  ultimately show ?thesis using k(1) k'(1) by blast
qed

theorem performance_digest_binds_envelope_witness:
  "\<exists>k k'. ec_parse_key sample_ecdsa [2, 7] = Some k \<and> ec_parse_key sample_ecdsa [2, 7] = Some k' \<and>
      ec_point sample_ecdsa k = ec_point sample_ecdsa k' \<or> collision (\<lambda>x. x)"
  using performance_digest_binds_envelope [OF sample_run sample_run]
  by (auto simp: sample_input_def envelope_typed_def sample_envelope_def in_s_def)

text \<open>
  What the collector signs the guest accepts: for every key of the collector, an envelope it
  signed passes the origin check of the guest, under the collector's own fingerprint and digest. The
  hypotheses are the documented behaviour of the \<open>k256\<close> crate: a signature verifies under the public
  key of its signer, and encoded keys and signatures decode to themselves.
\<close>

theorem collector_signature_accepted:
  assumes "ecdsa_correct E"
    and "ec_parse_key E key_bytes = Some (signer_verifying_key E k)"
    and "ec_parse_sig E sig_bytes = Some (sign_envelope H E k e)"
  shows "verify_origin H E e key_bytes sig_bytes =
    Inr \<lparr>vo_envelope_digest = digest H e, vo_signer_fingerprint = signer_fingerprint_of H E k\<rparr>"
  using assms
  by (simp add: verify_origin_def guest_digest_eq guest_fingerprint_eq sign_envelope_def ecdsa_correct_def
    signer_verifying_key_def signer_fingerprint_of_def Let_def)

theorem collector_signature_accepted_witness:
  "verify_origin (\<lambda>x. x) sample_ecdsa sample_envelope [2, 7]
      (sign_envelope (\<lambda>x. x) sample_ecdsa [2, 7] sample_envelope) =
    Inr \<lparr>vo_envelope_digest = digest (\<lambda>x. x) sample_envelope,
      vo_signer_fingerprint = signer_fingerprint_of (\<lambda>x. x) sample_ecdsa [2, 7]\<rparr>"
  by (rule collector_signature_accepted)
    (simp_all add: ecdsa_correct_def sample_ecdsa_def signer_verifying_key_def)

end
