(* ===== verification/Returns.thy ===== *)
theory Returns
  imports Decimal
begin

text \<open>
  The time-weighted return of one continuous segment (crates/domain/returns/src/twr.rs). Decimal
  arithmetic is the parameter \<open>A\<close>; every operation of this crate is a checked one.
\<close>

datatype timeline_event = Valuation nat decimal | Flow nat decimal

datatype return_error = NonPositiveBaseline decimal | NumericRange

record twr_result =
  tw_index :: decimal
  tw_sub_returns :: "decimal list"

definition checked_ratio_minus_one :: "arith \<Rightarrow> decimal \<Rightarrow> decimal \<Rightarrow> return_error + decimal" where
  "checked_ratio_minus_one A numerator denominator =
     (if denominator \<le> 0 then Inl (NonPositiveBaseline denominator)
      else and_then (ok_or NumericRange (ddiv A numerator denominator)) (\<lambda>ratio.
           ok_or NumericRange (dsub A ratio 1)))"

definition chain :: "arith \<Rightarrow> decimal \<Rightarrow> decimal \<Rightarrow> return_error + decimal" where
  "chain A i r =
     and_then (ok_or NumericRange (dadd A 1 r)) (\<lambda>factor. ok_or NumericRange (dmul A i factor))"

definition cumulative_return :: "arith \<Rightarrow> decimal \<Rightarrow> decimal \<Rightarrow> return_error + decimal" where
  "cumulative_return A index_a index_b =
     (if index_a \<le> 0 then Inl (NonPositiveBaseline index_a)
      else checked_ratio_minus_one A index_b index_a)"

text \<open>The loop of \<open>compute_twr\<close>: the index, the returns so far, and the current NAV.\<close>

fun twr_from :: "arith \<Rightarrow> decimal \<Rightarrow> decimal list \<Rightarrow> decimal option \<Rightarrow> timeline_event list \<Rightarrow> return_error + twr_result" where
  "twr_from A i rs cur [] = Inr \<lparr>tw_index = i, tw_sub_returns = rs\<rparr>"
| "twr_from A i rs cur (Valuation t nav # es) =
     (case cur of
        None \<Rightarrow> twr_from A i rs (Some nav) es
      | Some v_start \<Rightarrow>
          if v_start \<le> 0 then Inl (NonPositiveBaseline v_start)
          else and_then (checked_ratio_minus_one A nav v_start) (\<lambda>r.
               and_then (chain A i r) (\<lambda>i'. twr_from A i' (rs @ [r]) (Some nav) es)))"
| "twr_from A i rs cur (Flow t amount # es) =
     and_then (ok_or NumericRange (dadd A (case cur of None \<Rightarrow> 0 | Some v \<Rightarrow> v) amount)) (\<lambda>after.
       twr_from A i rs (Some after) es)"

definition compute_twr :: "arith \<Rightarrow> timeline_event list \<Rightarrow> return_error + twr_result" where
  "compute_twr A events = twr_from A 1 [] None events"

section \<open>The subperiods of a stream\<close>

text \<open>The pairs of a baseline and the valuation that closes it, in order.\<close>

fun subperiods :: "decimal option \<Rightarrow> timeline_event list \<Rightarrow> (decimal \<times> decimal) list" where
  "subperiods cur [] = []"
| "subperiods None (Valuation t nav # es) = subperiods (Some nav) es"
| "subperiods (Some v) (Valuation t nav # es) = (v, nav) # subperiods (Some nav) es"
| "subperiods cur (Flow t amount # es) = subperiods (Some ((case cur of None \<Rightarrow> 0 | Some v \<Rightarrow> v) + amount)) es"

lemma ratio_exact:
  "checked_ratio_minus_one exact_arith b a = (if a \<le> 0 then Inl (NonPositiveBaseline a) else Inr (b / a - 1))"
  by (simp add: checked_ratio_minus_one_def)

lemma chain_exact: "chain exact_arith i r = Inr (i * (1 + r))"
  by (simp add: chain_def)

lemma twr_from_exact:
  "twr_from exact_arith i rs cur es =
     (case find (\<lambda>p. fst p \<le> 0) (subperiods cur es) of
        Some p \<Rightarrow> Inl (NonPositiveBaseline (fst p))
      | None \<Rightarrow> Inr \<lparr>tw_index = i * (\<Prod>p\<leftarrow>subperiods cur es. snd p / fst p),
                 tw_sub_returns = rs @ map (\<lambda>p. snd p / fst p - 1) (subperiods cur es)\<rparr>)"
proof (induction cur es arbitrary: i rs rule: subperiods.induct)
  case (3 v t nav es)
  show ?case
  proof (cases "v \<le> 0")
    case False
    then have "twr_from exact_arith i rs (Some v) (Valuation t nav # es) =
        twr_from exact_arith (i * (nav / v)) (rs @ [nav / v - 1]) (Some nav) es"
      by (simp add: ratio_exact chain_exact)
    then show ?thesis using False by (simp add: "3.IH" mult.assoc split: option.split)
  qed simp
qed (simp_all split: option.split)

section \<open>Properties\<close>

text \<open>
  C11. Without rounding the index of a segment is the product, over its subperiods, of the closing
  valuation divided by the baseline, and the returns are the factors minus one; the run fails exactly
  when a subperiod has a non-positive baseline, and then it reports the first such baseline. External
  flows enter only through the baselines.
\<close>

theorem twr_index_is_product:
  "compute_twr exact_arith events =
     (case find (\<lambda>p. fst p \<le> 0) (subperiods None events) of
        Some p \<Rightarrow> Inl (NonPositiveBaseline (fst p))
      | None \<Rightarrow> Inr \<lparr>tw_index = (\<Prod>p\<leftarrow>subperiods None events. snd p / fst p),
                 tw_sub_returns = map (\<lambda>p. snd p / fst p - 1) (subperiods None events)\<rparr>)"
  unfolding compute_twr_def twr_from_exact by (simp split: option.split)

lemma twr_from_append_flow:
  "twr_from A i rs cur (es @ [Flow t a]) = Inr r \<Longrightarrow> twr_from A i rs cur es = Inr r"
proof (induction es arbitrary: i rs cur)
  case (Cons e es)
  then show ?case by (cases e) (fastforce split: option.splits if_splits)+
qed auto

text \<open>
  A flow after the last valuation changes neither the index nor the returns, whatever the
  arithmetic: in particular a full withdrawal at the end is not a loss.
\<close>

theorem twr_trailing_flow_neutral:
  assumes "compute_twr A (events @ [Flow t amount]) = Inr r"
  shows "compute_twr A events = Inr r"
  using assms unfolding compute_twr_def by (rule twr_from_append_flow)

definition sample_events :: "timeline_event list" where
  "sample_events = [Valuation 0 100, Flow 1 100, Valuation 2 220, Valuation 3 110]"

theorem twr_trailing_flow_neutral_witness:
  "\<exists>r. compute_twr exact_arith sample_events = Inr r \<and> tw_index r = 11 / 20"
proof -
  have "compute_twr exact_arith (sample_events @ [Flow 4 (- 110)]) =
      Inr \<lparr>tw_index = 11 / 20, tw_sub_returns = [1 / 10, - (1 / 2)]\<rparr>"
    by code_simp
  then have "compute_twr exact_arith sample_events = Inr \<lparr>tw_index = 11 / 20, tw_sub_returns = [1 / 10, - (1 / 2)]\<rparr>"
    by (rule twr_trailing_flow_neutral)
  then show ?thesis by (intro exI conjI) (assumption, simp only: twr_result.select_convs)
qed

end
