(* ===== verification/Drawdown.thy ===== *)
theory Drawdown
  imports Decimal Peak
begin

text \<open>
  Maximum drawdown and recovery of an index series (crates/domain/metrics/src/drawdown.rs). The
  division and the subtraction of the loop are plain operators: \<open>None\<close> is their panic.
\<close>

record index_point =
  pt_time_ms :: nat
  pt_index :: decimal

record drawdown_episode =
  ep_peak_time_ms :: nat
  ep_peak_index :: decimal
  ep_trough_time_ms :: nat
  ep_trough_index :: decimal
  ep_magnitude :: decimal

datatype recovery_status = Recovered nat | StillOpen

fun drawdown_step :: "arith \<Rightarrow> index_point \<times> drawdown_episode option \<Rightarrow> index_point \<Rightarrow>
    (index_point \<times> drawdown_episode option) option" where
  "drawdown_step A (running_peak, best) point =
     (let peak = (if pt_index point > pt_index running_peak then point else running_peak) in
      if pt_index peak \<le> 0 then Some (peak, best)
      else
        Option.bind (ddiv A (pt_index point) (pt_index peak)) (\<lambda>q.
        Option.bind (dsub A 1 q) (\<lambda>magnitude.
          Some (peak,
            if (case best of None \<Rightarrow> True | Some current \<Rightarrow> magnitude > ep_magnitude current)
            then Some \<lparr>ep_peak_time_ms = pt_time_ms peak, ep_peak_index = pt_index peak,
              ep_trough_time_ms = pt_time_ms point, ep_trough_index = pt_index point,
              ep_magnitude = magnitude\<rparr>
            else best))))"

declare drawdown_step.simps [simp del]

definition max_drawdown :: "arith \<Rightarrow> index_point list \<Rightarrow> drawdown_episode option option" where
  "max_drawdown A points =
     (case points of [] \<Rightarrow> Some None
      | first # _ \<Rightarrow> map_option snd (try_fold (drawdown_step A) (first, None) points))"

definition recovery_time :: "index_point list \<Rightarrow> drawdown_episode \<Rightarrow> recovery_status" where
  "recovery_time points episode =
     (case find (\<lambda>p. pt_time_ms p > ep_peak_time_ms episode \<and> pt_index p \<ge> ep_peak_index episode) points of
        Some p \<Rightarrow> Recovered (pt_time_ms p) | None \<Rightarrow> StillOpen)"

section \<open>The drop below a peak\<close>

text \<open>\<open>1 - v / p\<close> as the decimals round it, and 0 at or above the peak.\<close>

definition drop :: "(rat \<Rightarrow> rat option) \<Rightarrow> decimal \<Rightarrow> decimal \<Rightarrow> decimal" where
  "drop rnd p v = (if p \<le> v then 0 else the (rnd (1 - the (rnd (v / p)))))"

context rounded_arith
begin

lemma drop_unit:
  assumes "0 \<le> v" and "v < p"
  obtains q m where "rnd (v / p) = Some q" and "0 \<le> q" "q \<le> 1" and "rnd (1 - q) = Some m" and "0 \<le> m" "m \<le> 1"
    and "drop rnd p v = m"
proof -
  have "0 \<le> v / p" "v / p \<le> 1" using assms by simp_all
  then obtain q where q: "rnd (v / p) = Some q" "0 \<le> q" "q \<le> 1" using rnd_unit by blast
  then obtain m where "rnd (1 - q) = Some m" "0 \<le> m" "m \<le> 1" using rnd_unit [of "1 - q"] by auto
  then show ?thesis using q assms by (intro that [of q m]) (simp_all add: drop_def)
qed

lemma drop_bounds: "0 \<le> v \<Longrightarrow> 0 \<le> drop rnd p v \<and> drop rnd p v \<le> 1"
proof (cases "p \<le> v")
  case True
  then show ?thesis by (simp add: drop_def)
next
  case False
  assume v: "0 \<le> v"
  have "v < p" using False by simp
  from v this obtain q m where "0 \<le> m" "m \<le> 1" "drop rnd p v = m" by (rule drop_unit)
  then show ?thesis by simp
qed

lemma drop_mono:
  assumes "0 \<le> v" and "p \<le> r"
  shows "drop rnd p v \<le> drop rnd r v"
proof (cases "p \<le> v")
  case True
  then show ?thesis using drop_bounds [OF assms(1), of r] by (simp add: drop_def)
next
  case False
  then have v: "v < p" "v < r" using assms by simp_all
  obtain q m where a: "rnd (v / p) = Some q" "rnd (1 - q) = Some m" "drop rnd p v = m"
    using assms(1) v(1) by (rule drop_unit)
  obtain q' m' where b: "rnd (v / r) = Some q'" "rnd (1 - q') = Some m'" "drop rnd r v = m'"
    using assms(1) v(2) by (rule drop_unit)
  have "v / r \<le> v / p" using assms v by (intro divide_left_mono) simp_all
  then have "q' \<le> q" using b(1) a(1) by (rule rnd_mono)
  then have "1 - q \<le> 1 - q'" by simp
  then have "m \<le> m'" using a(2) b(2) by (rule rnd_mono)
  then show ?thesis by (simp add: a b)
qed

lemma drop_measure: "drawdown_measure (drop rnd) (\<lambda>v. 0 \<le> v)"
  by unfold_locales (rule drop_mono)

text \<open>One step of the loop on a series with a positive peak.\<close>

lemma drop_computed:
  assumes "0 \<le> v" and "0 < p" and "v \<le> p"
  shows "\<exists>q. ddiv A v p = Some q \<and> dsub A 1 q = Some (drop rnd p v)"
proof (cases "v < p")
  case True
  with assms(1) obtain q m where "rnd (v / p) = Some q" "rnd (1 - q) = Some m" "drop rnd p v = m"
    by (rule drop_unit)
  then show ?thesis using assms(2) by (simp add: div_rnd sub_rnd)
next
  case False
  then have "v = p" using assms(3) by simp
  then show ?thesis using assms(2) by (simp add: div_rnd sub_rnd drop_def rnd_0 rnd_1)
qed

lemma drawdown_step_drop:
  assumes "0 < pt_index peak" and "0 \<le> pt_index point"
    and peak': "peak' = (if pt_index point > pt_index peak then point else peak)"
    and m: "m = drop rnd (pt_index peak') (pt_index point)"
  shows "drawdown_step A (peak, best) point = Some (peak',
    if (case best of None \<Rightarrow> True | Some current \<Rightarrow> m > ep_magnitude current)
    then Some \<lparr>ep_peak_time_ms = pt_time_ms peak', ep_peak_index = pt_index peak',
      ep_trough_time_ms = pt_time_ms point, ep_trough_index = pt_index point, ep_magnitude = m\<rparr>
    else best)"
proof -
  have pos: "0 < pt_index peak'" "pt_index point \<le> pt_index peak'" using assms(1,2) by (simp_all add: peak')
  obtain q where q: "ddiv A (pt_index point) (pt_index peak') = Some q" "dsub A 1 q = Some m"
    using drop_computed [OF assms(2) pos] unfolding m by blast
  have np: "\<not> pt_index peak' \<le> 0" using pos by simp
  show ?thesis
    unfolding drawdown_step.simps peak' [symmetric] Let_def q if_not_P [OF np] bind.bind_lunit q ..
qed

end

text \<open>
  The state of the loop: the peak is the first point with the largest index so far, and the best
  episode is the first point with the largest drop below the peak of its prefix.
\<close>

definition first_peak :: "index_point list \<Rightarrow> nat \<Rightarrow> bool" where
  "first_peak ps i \<longleftrightarrow> i < length ps \<and> (\<forall>k < length ps. pt_index (ps ! k) \<le> pt_index (ps ! i)) \<and>
     (\<forall>k < i. pt_index (ps ! k) < pt_index (ps ! i))"

text \<open>The drop at position \<open>k\<close>, below the largest index up to there.\<close>

definition drop_at :: "(rat \<Rightarrow> rat option) \<Rightarrow> index_point list \<Rightarrow> nat \<Rightarrow> decimal" where
  "drop_at rnd ps k = drop rnd (Max (pt_index ` set (take (Suc k) ps))) (pt_index (ps ! k))"

definition episode_of :: "(rat \<Rightarrow> rat option) \<Rightarrow> index_point list \<Rightarrow> nat \<Rightarrow> nat \<Rightarrow> drawdown_episode" where
  "episode_of rnd ps i j = \<lparr>ep_peak_time_ms = pt_time_ms (ps ! i), ep_peak_index = pt_index (ps ! i),
     ep_trough_time_ms = pt_time_ms (ps ! j), ep_trough_index = pt_index (ps ! j),
     ep_magnitude = drop rnd (pt_index (ps ! i)) (pt_index (ps ! j))\<rparr>"

text \<open>\<open>j\<close> is the earliest position with the largest drop, \<open>i\<close> the earliest peak before it.\<close>

definition worst_episode :: "(rat \<Rightarrow> rat option) \<Rightarrow> index_point list \<Rightarrow> nat \<Rightarrow> nat \<Rightarrow> bool" where
  "worst_episode rnd ps i j \<longleftrightarrow> i \<le> j \<and> j < length ps \<and> first_peak (take (Suc j) ps) i \<and>
     (\<forall>k < length ps. drop_at rnd ps k \<le> drop_at rnd ps j) \<and> (\<forall>k < j. drop_at rnd ps k < drop_at rnd ps j)"

lemma first_peak_snoc:
  assumes "first_peak ps i"
  shows "first_peak (ps @ [p]) (if pt_index p > pt_index (ps ! i) then length ps else i)"
  using assms by (auto simp: first_peak_def nth_append less_Suc_eq)

lemma first_peak_Max: "first_peak ps i \<Longrightarrow> Max (pt_index ` set ps) = pt_index (ps ! i)"
  by (intro Max_eqI) (auto simp: first_peak_def in_set_conv_nth intro!: imageI nth_mem)

lemma drop_at_snoc: "k < length ps \<Longrightarrow> drop_at rnd (ps @ [p]) k = drop_at rnd ps k"
  by (simp add: drop_at_def nth_append)

lemma drop_at_last:
  "first_peak (ps @ [p]) i \<Longrightarrow>
    drop_at rnd (ps @ [p]) (length ps) = drop rnd (pt_index ((ps @ [p]) ! i)) (pt_index p)"
  using first_peak_Max [of "ps @ [p]" i] by (simp add: drop_at_def)

lemma episode_of_snoc: "i \<le> j \<Longrightarrow> j < length ps \<Longrightarrow> episode_of rnd (ps @ [p]) i j = episode_of rnd ps i j"
  by (simp add: episode_of_def nth_append)

lemma worst_magnitude: "worst_episode rnd ps i j \<Longrightarrow> ep_magnitude (episode_of rnd ps i j) = drop_at rnd ps j"
  using first_peak_Max [of "take (Suc j) ps" i]
  by (simp add: worst_episode_def episode_of_def drop_at_def)

lemma worst_episode_snoc:
  assumes w: "worst_episode rnd ps i j" and f: "first_peak (ps @ [p]) i'"
  shows "if drop_at rnd (ps @ [p]) (length ps) > drop_at rnd ps j
    then worst_episode rnd (ps @ [p]) i' (length ps) else worst_episode rnd (ps @ [p]) i j"
proof (cases "drop_at rnd (ps @ [p]) (length ps) > drop_at rnd ps j")
  case True
  have "drop_at rnd (ps @ [p]) k < drop_at rnd (ps @ [p]) (length ps)" if "k < length ps" for k
    using w that True by (auto simp: worst_episode_def drop_at_snoc intro: le_less_trans)
  then show ?thesis using True f by (auto simp: worst_episode_def first_peak_def less_Suc_eq intro: less_imp_le)
next
  case False
  then show ?thesis using w by (auto simp: worst_episode_def drop_at_snoc less_Suc_eq)
qed

text \<open>A series the crate documents: indices are never negative and the baseline is positive.\<close>

definition index_series :: "index_point list \<Rightarrow> bool" where
  "index_series ps \<longleftrightarrow> ps \<noteq> [] \<and> 0 < pt_index (hd ps) \<and> list_all (\<lambda>p. 0 \<le> pt_index p) ps"

context rounded_arith
begin

lemma drawdown_loop:
  assumes "index_series ps"
  shows "\<exists>i i' j. try_fold (drawdown_step A) (hd ps, None) ps = Some (ps ! i, Some (episode_of rnd ps i' j)) \<and>
    first_peak ps i \<and> worst_episode rnd ps i' j"
  using assms
proof (induction ps rule: rev_induct)
  case Nil
  then show ?case by (simp add: index_series_def)
next
  case (snoc p ps)
  show ?case
  proof (cases "ps = []")
    case True
    have "drawdown_step A (p, None) p =
        Some (p, Some (episode_of rnd [p] 0 0))"
      using drawdown_step_drop [of p p p "drop rnd (pt_index p) (pt_index p)" None] snoc.prems True
      by (simp add: index_series_def episode_of_def)
    then show ?thesis using True
      by (intro exI [of _ 0]) (simp add: first_peak_def worst_episode_def)
  next
    case False
    then have "index_series ps" and p0: "0 \<le> pt_index p" using snoc.prems by (simp_all add: index_series_def)
    then obtain i i' j where run: "try_fold (drawdown_step A) (hd ps, None) ps = Some (ps ! i, Some (episode_of rnd ps i' j))"
      and f: "first_peak ps i" and w: "worst_episode rnd ps i' j"
      using snoc.IH by blast
    have "pt_index (hd ps) \<le> pt_index (ps ! i)" using f False by (simp add: first_peak_def hd_conv_nth)
    then have peak0: "0 < pt_index (ps ! i)" using snoc.prems False by (simp add: index_series_def)
    define k where "k = (if pt_index p > pt_index (ps ! i) then length ps else i)"
    have k: "first_peak (ps @ [p]) k" unfolding k_def by (rule first_peak_snoc [OF f])
    have pk: "(ps @ [p]) ! k = (if pt_index p > pt_index (ps ! i) then p else ps ! i)"
      using f by (simp add: k_def nth_append first_peak_def)
    define m where "m = drop_at rnd (ps @ [p]) (length ps)"
    have m: "m = drop rnd (pt_index ((ps @ [p]) ! k)) (pt_index p)" unfolding m_def by (rule drop_at_last [OF k])
    have ep: "episode_of rnd (ps @ [p]) k (length ps) = \<lparr>ep_peak_time_ms = pt_time_ms ((ps @ [p]) ! k),
        ep_peak_index = pt_index ((ps @ [p]) ! k), ep_trough_time_ms = pt_time_ms p,
        ep_trough_index = pt_index p, ep_magnitude = m\<rparr>" by (simp add: episode_of_def m)
    have ij: "i' \<le> j" "j < length ps" using w by (simp_all add: worst_episode_def)
    define best where "best = (if m > drop_at rnd ps j then (k, length ps) else (i', j))"
    have "drawdown_step A (ps ! i, Some (episode_of rnd ps i' j)) p =
        Some ((ps @ [p]) ! k, Some (episode_of rnd (ps @ [p]) (fst best) (snd best)))"
      using drawdown_step_drop [OF peak0 p0 pk m, of "Some (episode_of rnd ps i' j)"]
      by (simp add: ep worst_magnitude [OF w] best_def episode_of_snoc [OF ij])
    moreover have "worst_episode rnd (ps @ [p]) (fst best) (snd best)"
      using worst_episode_snoc [OF w k] by (auto simp: best_def m_def split: if_splits)
    ultimately show ?thesis using run k False by (auto simp: try_fold_append)
  qed
qed

text \<open>The drop at a position is the largest from any earlier point to it.\<close>

lemma drop_at_dominates:
  assumes "index_series ps" and "i \<le> j" and "j < length ps"
  shows "drop rnd (pt_index (ps ! i)) (pt_index (ps ! j)) \<le> drop_at rnd ps j"
proof -
  have "ps ! i \<in> set (take (Suc j) ps)" using assms(2,3) by (auto simp: in_set_conv_nth intro!: exI [of _ i])
  then have "pt_index (ps ! i) \<le> Max (pt_index ` set (take (Suc j) ps))" by simp
  moreover have "0 \<le> pt_index (ps ! j)" using assms(1,3) by (simp add: index_series_def list_all_iff)
  ultimately show ?thesis unfolding drop_at_def using drop_mono by blast
qed

lemma max_drawdown_worst:
  assumes "index_series ps"
  shows "\<exists>i j. max_drawdown A ps = Some (Some (episode_of rnd ps i j)) \<and> worst_episode rnd ps i j \<and>
    0 \<le> ep_magnitude (episode_of rnd ps i j) \<and> ep_magnitude (episode_of rnd ps i j) \<le> 1"
proof -
  obtain i i' j where run: "try_fold (drawdown_step A) (hd ps, None) ps = Some (ps ! i, Some (episode_of rnd ps i' j))"
    and w: "worst_episode rnd ps i' j" using drawdown_loop [OF assms] by blast
  have "ps \<noteq> []" "0 \<le> pt_index (ps ! j)"
    using assms w by (simp_all add: index_series_def worst_episode_def list_all_iff)
  then show ?thesis
    using run w drop_bounds by (cases ps) (auto simp: max_drawdown_def episode_of_def)
qed

end

section \<open>Properties\<close>

text \<open>
  C16. Maximum drawdown: on a series with a positive baseline and no negative index the computation
  never panics, and it returns an episode of the series, its peak no later than its trough, whose
  magnitude lies in \<open>[0, 1]\<close> and is at least the drop between any earlier and any later point. Ties
  are broken as documented: every position before the trough has a strictly smaller drop, and the peak
  is the first point with the largest index up to the trough.
\<close>

theorem max_drawdown_is_earliest_worst:
  assumes "rounded_arith A rnd" and "index_series ps"
  shows "\<exists>i j ep. max_drawdown A ps = Some (Some ep) \<and> i \<le> j \<and> j < length ps \<and>
    ep_peak_time_ms ep = pt_time_ms (ps ! i) \<and> ep_peak_index ep = pt_index (ps ! i) \<and>
    ep_trough_time_ms ep = pt_time_ms (ps ! j) \<and> ep_trough_index ep = pt_index (ps ! j) \<and>
    ep_magnitude ep = drop rnd (pt_index (ps ! i)) (pt_index (ps ! j)) \<and>
    0 \<le> ep_magnitude ep \<and> ep_magnitude ep \<le> 1 \<and>
    (\<forall>a b. a \<le> b \<and> b < length ps \<longrightarrow> drop rnd (pt_index (ps ! a)) (pt_index (ps ! b)) \<le> ep_magnitude ep) \<and>
    (\<forall>b < j. \<forall>a \<le> b. drop rnd (pt_index (ps ! a)) (pt_index (ps ! b)) < ep_magnitude ep) \<and>
    first_peak (take (Suc j) ps) i"
proof -
  obtain i j where md: "max_drawdown A ps = Some (Some (episode_of rnd ps i j))" and w: "worst_episode rnd ps i j"
    and m: "0 \<le> ep_magnitude (episode_of rnd ps i j)" "ep_magnitude (episode_of rnd ps i j) \<le> 1"
    using rounded_arith.max_drawdown_worst [OF assms] by blast
  have dom: "a \<le> b \<Longrightarrow> b < length ps \<Longrightarrow> drop rnd (pt_index (ps ! a)) (pt_index (ps ! b)) \<le> drop_at rnd ps b" for a b
    using rounded_arith.drop_at_dominates [OF assms] by blast
  have mag: "ep_magnitude (episode_of rnd ps i j) = drop_at rnd ps j" by (rule worst_magnitude [OF w])
  have all: "a \<le> b \<and> b < length ps \<longrightarrow>
      drop rnd (pt_index (ps ! a)) (pt_index (ps ! b)) \<le> ep_magnitude (episode_of rnd ps i j)" for a b
    using dom [of a b] w unfolding mag by (auto simp: worst_episode_def intro: order_trans)
  have strict: "drop rnd (pt_index (ps ! a)) (pt_index (ps ! b)) < ep_magnitude (episode_of rnd ps i j)"
    if "b < j" "a \<le> b" for a b
    using dom [of a b] w that unfolding mag by (auto simp: worst_episode_def intro: le_less_trans)
  show ?thesis
    using md m all strict w
    by (intro exI [of _ i] exI [of _ j] exI [of _ "episode_of rnd ps i j"])
      (simp add: worst_episode_def episode_of_def)
qed

definition sample_series :: "index_point list" where
  "sample_series = map (\<lambda>(t, i). \<lparr>pt_time_ms = t, pt_index = i\<rparr>) [(0, 1), (1, 2), (2, 1), (3, 4), (4, 2), (5, 5)]"

theorem max_drawdown_is_earliest_worst_witness:
  "\<exists>ep. max_drawdown exact_arith sample_series = Some (Some ep) \<and>
    drop Some (pt_index (sample_series ! 1)) (pt_index (sample_series ! 2)) \<le> ep_magnitude ep"
proof -
  have "index_series sample_series" by (simp add: index_series_def sample_series_def)
  moreover have "(1::nat) \<le> 2 \<and> 2 < length sample_series" by (simp add: sample_series_def)
  ultimately show ?thesis using max_drawdown_is_earliest_worst [OF ex.rounded_arith_axioms] by meson
qed

text \<open>
  Recovery: the status is \<open>Recovered\<close> at the first point after the peak's time whose index is
  back at the peak, and \<open>StillOpen\<close> exactly when there is none.
\<close>

theorem recovery_is_first_return:
  "case recovery_time ps ep of
     StillOpen \<Rightarrow> \<forall>p \<in> set ps. ep_peak_time_ms ep < pt_time_ms p \<longrightarrow> pt_index p < ep_peak_index ep
   | Recovered t \<Rightarrow> \<exists>k < length ps. t = pt_time_ms (ps ! k) \<and> ep_peak_time_ms ep < t \<and>
       ep_peak_index ep \<le> pt_index (ps ! k) \<and>
       (\<forall>l < k. ep_peak_time_ms ep < pt_time_ms (ps ! l) \<longrightarrow> pt_index (ps ! l) < ep_peak_index ep)"
proof (cases "find (\<lambda>p. pt_time_ms p > ep_peak_time_ms ep \<and> pt_index p \<ge> ep_peak_index ep) ps")
  case None
  then have "recovery_time ps ep = StillOpen" unfolding recovery_time_def None by simp
  moreover have "\<forall>p \<in> set ps. ep_peak_time_ms ep < pt_time_ms p \<longrightarrow> pt_index p < ep_peak_index ep"
    using None by (auto simp: find_None_iff not_le)
  ultimately show ?thesis by simp
next
  case (Some p)
  then obtain k where "k < length ps" "ps ! k = p" "pt_time_ms p > ep_peak_time_ms ep" "pt_index p \<ge> ep_peak_index ep"
    "\<forall>l < k. \<not> (pt_time_ms (ps ! l) > ep_peak_time_ms ep \<and> pt_index (ps ! l) \<ge> ep_peak_index ep)"
    by (auto simp: find_Some_iff)
  moreover have "recovery_time ps ep = Recovered (pt_time_ms p)" unfolding recovery_time_def Some by simp
  ultimately show ?thesis by (auto simp: not_le intro!: exI [of _ k])
qed

definition open_episode :: drawdown_episode where
  "open_episode = \<lparr>ep_peak_time_ms = 1, ep_peak_index = 2, ep_trough_time_ms = 2, ep_trough_index = 1,
     ep_magnitude = 1 / 2\<rparr>"

theorem recovery_is_first_return_witness:
  "\<exists>k < length sample_series. 3 = pt_time_ms (sample_series ! k) \<and> 1 < (3 :: nat) \<and>
      2 \<le> pt_index (sample_series ! k)"
proof -
  have "recovery_time sample_series open_episode = Recovered 3"
    by (simp add: recovery_time_def sample_series_def open_episode_def)
  then show ?thesis using recovery_is_first_return [of sample_series open_episode] by (auto simp: open_episode_def)
qed

end
