(* ===== verification/Metrics.thy ===== *)
theory Metrics
  imports Decimal
begin

text \<open>
  The point metrics of crates/domain/metrics/src: mean, variance, volatility, Sharpe and Sortino
  (stats.rs), CAGR (cagr.rs), and the capital figures (capital.rs). Plain decimal operators panic on
  overflow, which is the outer \<open>None\<close> of the results. \<open>sqrt\<close> and \<open>checked_powd\<close> of the decimal
  crate are the parameters \<open>sq\<close> and \<open>pw\<close>.
\<close>

section \<open>stats.rs\<close>

definition DAYS_PER_YEAR :: decimal where "DAYS_PER_YEAR = 365"
definition MIN_VOLATILITY_DAYS :: nat where "MIN_VOLATILITY_DAYS = 30"
definition MIN_SHARPE_SORTINO_DAYS :: nat where "MIN_SHARPE_SORTINO_DAYS = 30"

datatype stats_error = InsufficientSample nat nat | ZeroVariance | NoDownside | NumericRange

definition mean :: "arith \<Rightarrow> decimal list \<Rightarrow> (stats_error + decimal) option" where
  "mean A returns =
     (if returns = [] then Some (Inl (InsufficientSample 0 1))
      else Option.bind (dsum A returns) (\<lambda>sum.
        Some (ok_or NumericRange (ddiv A sum (of_nat (length returns))))))"

definition square_step :: "arith \<Rightarrow> decimal \<Rightarrow> decimal \<Rightarrow> decimal \<Rightarrow> decimal option" where
  "square_step A mu acc r =
     Option.bind (dsub A r mu) (\<lambda>diff. Option.bind (dmul A diff diff) (\<lambda>sq. dadd A acc sq))"

definition sample_variance :: "arith \<Rightarrow> decimal list \<Rightarrow> (stats_error + decimal) option" where
  "sample_variance A returns =
     (if length returns < 2 then Some (Inl (InsufficientSample (length returns) 2))
      else and_thenp (mean A returns) (\<lambda>mu.
        Some (and_then (ok_or NumericRange (try_fold (square_step A mu) 0 returns)) (\<lambda>sum_sq.
          ok_or NumericRange (ddiv A sum_sq (of_nat (length returns - 1)))))))"

definition sqrt_days_per_year :: "(decimal \<Rightarrow> decimal option) \<Rightarrow> stats_error + decimal" where
  "sqrt_days_per_year sq = ok_or NumericRange (sq DAYS_PER_YEAR)"

definition annualized_volatility ::
    "arith \<Rightarrow> (decimal \<Rightarrow> decimal option) \<Rightarrow> decimal list \<Rightarrow> (stats_error + decimal) option" where
  "annualized_volatility A sq returns =
     (if length returns < MIN_VOLATILITY_DAYS
      then Some (Inl (InsufficientSample (length returns) MIN_VOLATILITY_DAYS))
      else and_thenp (sample_variance A returns) (\<lambda>variance.
        Some (and_then (ok_or NumericRange (sq variance)) (\<lambda>stdev.
          and_then (sqrt_days_per_year sq) (\<lambda>annual. ok_or NumericRange (dmul A annual stdev))))))"

text \<open>\<open>returns.iter().map(|r| r - rate).collect()\<close>\<close>

fun excess_returns :: "arith \<Rightarrow> decimal \<Rightarrow> decimal list \<Rightarrow> decimal list option" where
  "excess_returns A rate [] = Some []"
| "excess_returns A rate (r # rs) =
     Option.bind (dsub A r rate) (\<lambda>e. map_option (\<lambda>es. e # es) (excess_returns A rate rs))"

definition sharpe ::
    "arith \<Rightarrow> (decimal \<Rightarrow> decimal option) \<Rightarrow> decimal list \<Rightarrow> decimal \<Rightarrow> (stats_error + decimal) option" where
  "sharpe A sq returns rf_daily =
     (if length returns < MIN_SHARPE_SORTINO_DAYS
      then Some (Inl (InsufficientSample (length returns) MIN_SHARPE_SORTINO_DAYS))
      else Option.bind (excess_returns A rf_daily returns) (\<lambda>excess.
        and_thenp (sample_variance A excess) (\<lambda>variance.
        if variance = 0 then Some (Inl ZeroVariance)
        else and_thenp (Some (ok_or NumericRange (sq variance))) (\<lambda>stdev.
             and_thenp (mean A excess) (\<lambda>mean_excess.
               Some (and_then (ok_or NumericRange (ddiv A mean_excess stdev)) (\<lambda>ratio.
                 and_then (sqrt_days_per_year sq) (\<lambda>annual.
                   ok_or NumericRange (dmul A annual ratio)))))))))"

definition downside_step :: "arith \<Rightarrow> decimal \<Rightarrow> decimal \<Rightarrow> decimal option" where
  "downside_step A acc e =
     (let downside = (if e < 0 then e else 0) in
      Option.bind (dmul A downside downside) (\<lambda>sq. dadd A acc sq))"

definition sortino ::
    "arith \<Rightarrow> (decimal \<Rightarrow> decimal option) \<Rightarrow> decimal list \<Rightarrow> decimal \<Rightarrow> (stats_error + decimal) option" where
  "sortino A sq returns mar_daily =
     (if length returns < MIN_SHARPE_SORTINO_DAYS
      then Some (Inl (InsufficientSample (length returns) MIN_SHARPE_SORTINO_DAYS))
      else Option.bind (excess_returns A mar_daily returns) (\<lambda>excess.
        and_thenp (Some (ok_or NumericRange (try_fold (downside_step A) 0 excess))) (\<lambda>downside_sq_sum.
        if downside_sq_sum = 0 then Some (Inl NoDownside)
        else and_thenp (Some (ok_or NumericRange (ddiv A downside_sq_sum (of_nat (length returns))))) (\<lambda>q.
             and_thenp (Some (ok_or NumericRange (sq q))) (\<lambda>downside_deviation.
             and_thenp (mean A excess) (\<lambda>mean_excess.
               Some (and_then (ok_or NumericRange (ddiv A mean_excess downside_deviation)) (\<lambda>ratio.
                 and_then (sqrt_days_per_year sq) (\<lambda>annual.
                   ok_or NumericRange (dmul A annual ratio))))))))))"

section \<open>cagr.rs\<close>

definition MIN_CAGR_DAYS :: nat where "MIN_CAGR_DAYS = 365"

datatype cagr_error = CagrInsufficientSample nat nat | CagrNonPositiveIndex decimal decimal | CagrNumericRange

definition cagr ::
    "arith \<Rightarrow> (decimal \<Rightarrow> decimal \<Rightarrow> decimal option) \<Rightarrow> decimal \<Rightarrow> decimal \<Rightarrow> nat \<Rightarrow> cagr_error + decimal" where
  "cagr A pw index_start index_end days_elapsed =
     (if days_elapsed < MIN_CAGR_DAYS then Inl (CagrInsufficientSample days_elapsed MIN_CAGR_DAYS)
      else if index_start \<le> 0 \<or> index_end \<le> 0 then Inl (CagrNonPositiveIndex index_start index_end)
      else
        and_then (ok_or CagrNumericRange (ddiv A index_end index_start)) (\<lambda>ratio.
        and_then (ok_or CagrNumericRange (ddiv A 365 (of_nat days_elapsed))) (\<lambda>exponent.
        and_then (ok_or CagrNumericRange (pw ratio exponent)) (\<lambda>powered.
          ok_or CagrNumericRange (dsub A powered 1)))))"

section \<open>capital.rs\<close>

record capital_now =
  cap_nav :: decimal
  cap_as_of_ms :: nat
  cap_age_ms :: nat

definition current_capital :: "decimal \<Rightarrow> nat \<Rightarrow> nat \<Rightarrow> capital_now" where
  "current_capital nav as_of_ms now_ms =
     \<lparr>cap_nav = nav, cap_as_of_ms = as_of_ms, cap_age_ms = now_ms - as_of_ms\<rparr>"

definition sustained_capital :: "decimal \<Rightarrow> decimal list \<Rightarrow> decimal" where
  "sustained_capital baseline daily_closes = foldl min baseline daily_closes"

record consistency_ratio =
  positive_periods :: nat
  total_periods :: nat

definition consistency :: "decimal list \<Rightarrow> consistency_ratio" where
  "consistency period_returns =
     \<lparr>positive_periods = length (filter (\<lambda>r. r > 0) period_returns), total_periods = length period_returns\<rparr>"

definition ratio :: "arith \<Rightarrow> consistency_ratio \<Rightarrow> decimal option" where
  "ratio A c = (if total_periods c = 0 then None
     else ddiv A (of_nat (positive_periods c)) (of_nat (total_periods c)))"

section \<open>The metrics without rounding\<close>

definition mean_of :: "decimal list \<Rightarrow> decimal" where
  "mean_of xs = sum_list xs / of_nat (length xs)"

definition variance_of :: "decimal list \<Rightarrow> decimal" where
  "variance_of xs = (\<Sum>x\<leftarrow>xs. (x - mean_of xs)\<^sup>2) / of_nat (length xs - 1)"

definition downside_of :: "decimal list \<Rightarrow> decimal" where
  "downside_of xs = (\<Sum>x\<leftarrow>xs. (min x 0)\<^sup>2) / of_nat (length xs)"

lemma mean_exact: "xs \<noteq> [] \<Longrightarrow> mean exact_arith xs = Some (Inr (mean_of xs))"
  by (simp add: mean_def mean_of_def)

lemma square_fold_exact: "try_fold (square_step exact_arith mu) a xs = Some (a + (\<Sum>x\<leftarrow>xs. (x - mu)\<^sup>2))"
  by (induction xs arbitrary: a) (simp_all add: square_step_def power2_eq_square add.assoc)

lemma downside_fold_exact: "try_fold (downside_step exact_arith) a xs = Some (a + (\<Sum>x\<leftarrow>xs. (min x 0)\<^sup>2))"
proof (induction xs arbitrary: a)
  case (Cons x xs)
  have "downside_step exact_arith a x = Some (a + (min x 0)\<^sup>2)"
    by (simp add: downside_step_def Let_def min_def power2_eq_square)
  then show ?case by (simp add: Cons.IH add.assoc)
qed simp

lemma variance_exact: "2 \<le> length xs \<Longrightarrow> sample_variance exact_arith xs = Some (Inr (variance_of xs))"
proof -
  assume l: "2 \<le> length xs"
  then have "xs \<noteq> []" "of_nat (length xs - 1) \<noteq> (0 :: rat)" by auto
  then show ?thesis using l
    by (simp add: sample_variance_def mean_exact square_fold_exact variance_of_def)
qed

lemma excess_exact: "excess_returns exact_arith rate xs = Some (map (\<lambda>r. r - rate) xs)"
  by (induction xs) simp_all

lemma sum_squares_zero: "(\<Sum>x\<leftarrow>xs. (f x)\<^sup>2) = (0 :: rat) \<longleftrightarrow> (\<forall>x \<in> set xs. f x = 0)"
  by (subst sum_list_nonneg_eq_0_iff) auto

lemma variance_zero_iff: "2 \<le> length xs \<Longrightarrow> variance_of xs = 0 \<longleftrightarrow> (\<forall>x \<in> set xs. x = mean_of xs)"
  by (auto simp: variance_of_def sum_squares_zero)

lemma downside_zero_iff: "xs \<noteq> [] \<Longrightarrow> downside_of xs = 0 \<longleftrightarrow> (\<forall>x \<in> set xs. 0 \<le> x)"
  by (auto simp: downside_of_def sum_squares_zero min_def)

lemma variance_nonneg: "0 \<le> variance_of xs"
  unfolding variance_of_def by (intro divide_nonneg_nonneg sum_list_nonneg) auto

section \<open>Properties\<close>

text \<open>
  The Sharpe ratio without rounding, on every branch: below thirty returns the sample is refused,
  a series without variance is never divided, and otherwise the result is the annualisation factor
  times the mean excess return over its sample deviation, for whatever square root the decimal crate
  returns. No input makes it panic.
\<close>

theorem sharpe_exact:
  "sharpe exact_arith sq returns rf =
     (if length returns < 30 then Some (Inl (InsufficientSample (length returns) 30))
      else if variance_of (map (\<lambda>r. r - rf) returns) = 0 then Some (Inl ZeroVariance)
      else Some (case (sq (variance_of (map (\<lambda>r. r - rf) returns)), sq 365) of
          (Some stdev, Some annual) \<Rightarrow>
            if stdev = 0 then Inl NumericRange
            else Inr (annual * (mean_of (map (\<lambda>r. r - rf) returns) / stdev))
        | _ \<Rightarrow> Inl NumericRange))"
proof (cases "length returns < 30")
  case False
  define ex where "ex = map (\<lambda>r. r - rf) returns"
  have l: "2 \<le> length ex" "ex \<noteq> []" using False by (auto simp: ex_def)
  show ?thesis
    using False unfolding sharpe_def excess_exact ex_def [symmetric]
    by (auto simp: MIN_SHARPE_SORTINO_DAYS_def variance_exact [OF l(1)] mean_exact [OF l(2)] sqrt_days_per_year_def
      DAYS_PER_YEAR_def and_then_def ok_or_def split: option.splits)
qed (simp add: sharpe_def MIN_SHARPE_SORTINO_DAYS_def)

text \<open>
  The Sortino ratio without rounding, on every branch: the downside counts only the returns below
  the minimum acceptable return, and a series without any is refused, not divided by zero.
\<close>

theorem sortino_exact:
  "sortino exact_arith sq returns mar =
     (if length returns < 30 then Some (Inl (InsufficientSample (length returns) 30))
      else if downside_of (map (\<lambda>r. r - mar) returns) = 0 then Some (Inl NoDownside)
      else Some (case (sq (downside_of (map (\<lambda>r. r - mar) returns)), sq 365) of
          (Some dev, Some annual) \<Rightarrow>
            if dev = 0 then Inl NumericRange
            else Inr (annual * (mean_of (map (\<lambda>r. r - mar) returns) / dev))
        | _ \<Rightarrow> Inl NumericRange))"
proof (cases "length returns < 30")
  case False
  define ex where "ex = map (\<lambda>r. r - mar) returns"
  have l: "ex \<noteq> []" and n: "length returns = length ex" "of_nat (length ex) \<noteq> (0 :: rat)"
    using False by (auto simp: ex_def)
  have z: "(\<Sum>x\<leftarrow>ex. (min x 0)\<^sup>2) = 0 \<longleftrightarrow> downside_of ex = 0" using n(2) by (simp add: downside_of_def)
  show ?thesis
    using False n(2) unfolding sortino_def excess_exact ex_def [symmetric] n(1)
    by (auto simp: MIN_SHARPE_SORTINO_DAYS_def downside_fold_exact z mean_exact [OF l] sqrt_days_per_year_def
      DAYS_PER_YEAR_def downside_of_def [symmetric] and_then_def ok_or_def split: option.splits)
qed (simp add: sortino_def MIN_SHARPE_SORTINO_DAYS_def)

lemma foldl_min: "foldl min b xs = Min (insert b (set (xs :: decimal list)))"
proof (induction xs arbitrary: b)
  case (Cons x xs)
  have "insert b (set (x # xs)) = insert b (insert x (set xs))" by simp
  then show ?case using Cons.IH [of "min b x"] by (cases "xs = []") (simp_all add: min.assoc)
qed simp

text \<open>
  Sustained capital is the minimum of the baseline and every daily close, and the consistency
  ratio of any series with at least one period lies between 0 and 1.
\<close>

theorem sustained_capital_and_consistency:
  "sustained_capital baseline closes = Min (insert baseline (set closes)) \<and>
   (case ratio exact_arith (consistency rs) of None \<Rightarrow> rs = [] | Some q \<Rightarrow> 0 \<le> q \<and> q \<le> 1)"
proof -
  have "of_nat (length (filter (\<lambda>r. r > 0) rs)) \<le> (of_nat (length rs) :: rat)" by simp
  then have "case ratio exact_arith (consistency rs) of None \<Rightarrow> rs = [] | Some q \<Rightarrow> 0 \<le> q \<and> q \<le> 1"
    by (cases "rs = []") (simp_all add: ratio_def consistency_def)
  then show ?thesis by (simp add: sustained_capital_def foldl_min)
qed

end
