(* ===== verification/WinRate.thy ===== *)
theory WinRate
  imports Decimal
begin

text \<open>
  FIFO win rate (crates/domain/metrics/src/winrate.rs). The inner \<open>while\<close> loop is a partial function,
  so that a loop that does not end is \<open>None\<close>; a panic of the plain decimal operators is \<open>None\<close> as
  well. The lemmas show that without overflow the loop always ends.
\<close>

record fill =
  fl_time_ms :: nat
  fl_qty :: decimal
  fl_price :: decimal
  fl_is_buy :: bool

datatype win_rate_error = NoClosedRoundTrips

record win_rate_result =
  closed_round_trips :: nat
  wins :: nat
  win_rate :: decimal

text \<open>The state of the outer loop: open lots of quantity and price, wins, closed trips.\<close>

type_synonym lots = "(decimal \<times> decimal) list"

partial_function (option) match_sell ::
    "arith \<Rightarrow> decimal \<Rightarrow> decimal \<Rightarrow> lots \<Rightarrow> nat \<Rightarrow> nat \<Rightarrow> (lots \<times> nat \<times> nat) option" where
  "match_sell A price remaining open_lots w c =
     (if remaining \<le> 0 then Some (open_lots, w, c)
      else case open_lots of
        [] \<Rightarrow> Some (open_lots, w, c)
      | (lot_qty, lot_price) # rest \<Rightarrow>
          let matched = min remaining lot_qty in
          Option.bind (dsub A price lot_price) (\<lambda>d.
          Option.bind (dmul A d matched) (\<lambda>pnl.
          Option.bind (dsub A remaining matched) (\<lambda>remaining'.
          Option.bind (dsub A lot_qty matched) (\<lambda>remaining_lot.
            match_sell A price remaining'
              (if remaining_lot = 0 then rest else (remaining_lot, lot_price) # rest)
              (if pnl > 0 then w + 1 else w) (c + 1))))))"

declare match_sell.simps [code]

definition fill_step :: "arith \<Rightarrow> lots \<times> nat \<times> nat \<Rightarrow> fill \<Rightarrow> (lots \<times> nat \<times> nat) option" where
  "fill_step A st f =
     (case st of (open_lots, w, c) \<Rightarrow>
        if fl_is_buy f then Some (open_lots @ [(fl_qty f, fl_price f)], w, c)
        else match_sell A (fl_price f) (fl_qty f) open_lots w c)"

definition compute_win_rate :: "arith \<Rightarrow> fill list \<Rightarrow> (win_rate_error + win_rate_result) option" where
  "compute_win_rate A fills =
     Option.bind (try_fold (fill_step A) ([], 0, 0) (sort_key fl_time_ms fills)) (\<lambda>(open_lots, w, c).
       if c = 0 then Some (Inl NoClosedRoundTrips)
       else Option.bind (ddiv A (of_nat w) (of_nat c)) (\<lambda>q.
         Some (Inr \<lparr>closed_round_trips = c, wins = w, win_rate = q\<rparr>)))"

section \<open>The FIFO specification\<close>

text \<open>
  A round trip: the quantity matched, the price of the lot and of the sale. \<open>take_lots\<close> takes a
  quantity from the front of the open lots and returns the round trips and the lots left.
\<close>

record round_trip =
  rt_qty :: decimal
  rt_buy :: decimal
  rt_sell :: decimal

fun take_lots :: "decimal \<Rightarrow> decimal \<Rightarrow> lots \<Rightarrow> round_trip list \<times> lots" where
  "take_lots price q [] = ([], [])"
| "take_lots price q ((lq, lp) # rest) =
     (if q \<le> 0 then ([], (lq, lp) # rest)
      else if q < lq then ([\<lparr>rt_qty = q, rt_buy = lp, rt_sell = price\<rparr>], (lq - q, lp) # rest)
      else let (ts, rest') = take_lots price (q - lq) rest
           in (\<lparr>rt_qty = lq, rt_buy = lp, rt_sell = price\<rparr> # ts, rest'))"

fun trips_from :: "lots \<Rightarrow> fill list \<Rightarrow> round_trip list \<times> lots" where
  "trips_from ls [] = ([], ls)"
| "trips_from ls (f # fs) =
     (if fl_is_buy f then trips_from (ls @ [(fl_qty f, fl_price f)]) fs
      else let (ts, ls') = take_lots (fl_price f) (fl_qty f) ls; (ts', ls'') = trips_from ls' fs
           in (ts @ ts', ls''))"

definition profitable :: "round_trip \<Rightarrow> bool" where
  "profitable t \<longleftrightarrow> rt_buy t < rt_sell t"

definition lots_qty :: "lots \<Rightarrow> decimal" where
  "lots_qty ls = (\<Sum>l\<leftarrow>ls. fst l)"

definition lots_ok :: "lots \<Rightarrow> bool" where
  "lots_ok ls \<longleftrightarrow> list_all (\<lambda>l. 0 < fst l) ls"

definition fills_ok :: "fill list \<Rightarrow> bool" where
  "fills_ok fs \<longleftrightarrow> list_all (\<lambda>f. 0 < fl_qty f) fs"

text \<open>The loop computes the specification.\<close>

lemma match_sell_spec:
  assumes "lots_ok ls" and "take_lots price q ls = (ts, ls')"
  shows "match_sell exact_arith price q ls w c =
    Some (ls', w + length (filter profitable ts), c + length ts)"
  using assms
proof (induction price q ls arbitrary: ts w c rule: take_lots.induct)
  case (1 price q)
  then show ?case by (subst match_sell.simps) simp
next
  case (2 price q lq lp rest)
  show ?case
  proof (cases "q \<le> 0")
    case True
    then show ?thesis using "2.prems" by (subst match_sell.simps) auto
  next
    case q: False
    show ?thesis
    proof (cases "q < lq")
      case True
      then have "match_sell exact_arith price q ((lq, lp) # rest) w c =
          match_sell exact_arith price 0 ((lq - q, lp) # rest) (if 0 < (price - lp) * q then w + 1 else w) (c + 1)"
        using q by (subst match_sell.simps) (simp add: Let_def)
      then show ?thesis using "2.prems" q True
        by (subst (asm) (2) match_sell.simps) (auto simp: profitable_def zero_less_mult_iff)
    next
      case False
      obtain ts' where ts': "take_lots price (q - lq) rest = (ts', ls')"
        and ts: "ts = \<lparr>rt_qty = lq, rt_buy = lp, rt_sell = price\<rparr> # ts'"
        using "2.prems"(2) q False by (auto split: prod.splits)
      have lq: "0 < lq" and ok: "lots_ok rest" using "2.prems"(1) by (simp_all add: lots_ok_def)
      have "match_sell exact_arith price q ((lq, lp) # rest) w c =
          match_sell exact_arith price (q - lq) rest (if 0 < (price - lp) * lq then w + 1 else w) (c + 1)"
        using q False by (subst match_sell.simps) (simp add: Let_def min_def)
      also have "\<dots> = Some (ls', (if 0 < (price - lp) * lq then w + 1 else w) + length (filter profitable ts'),
          c + 1 + length ts')"
        using "2.IH" [OF q False ok ts'] by simp
      finally show ?thesis
        using lq profitable_def [of "\<lparr>rt_qty = lq, rt_buy = lp, rt_sell = price\<rparr>"]
        by (simp add: ts zero_less_mult_iff)
    qed
  qed
qed

lemma take_lots_ok:
  assumes "take_lots price q ls = (ts, ls')" and "lots_ok ls"
  shows "lots_ok ls' \<and> list_all (\<lambda>t. 0 < rt_qty t) ts \<and>
    (\<Sum>t\<leftarrow>ts. rt_qty t) + lots_qty ls' = lots_qty ls \<and> (\<Sum>t\<leftarrow>ts. rt_qty t) \<le> max 0 q"
  using assms
proof (induction price q ls arbitrary: ts rule: take_lots.induct)
  case (2 price q lq lp rest)
  show ?case
  proof (cases "q \<le> 0 \<or> q < lq")
    case True
    then show ?thesis using "2.prems" by (auto simp: lots_ok_def lots_qty_def split: if_splits)
  next
    case False
    obtain ts' where ts': "take_lots price (q - lq) rest = (ts', ls')"
      and ts: "ts = \<lparr>rt_qty = lq, rt_buy = lp, rt_sell = price\<rparr> # ts'"
      using "2.prems"(1) False by (auto split: prod.splits)
    have "lots_ok rest" "0 < lq" using "2.prems"(2) by (simp_all add: lots_ok_def)
    then show ?thesis using "2.IH" [of ts'] ts' False by (auto simp: ts lots_qty_def max_def split: if_splits)
  qed
qed (simp add: lots_ok_def lots_qty_def)

lemma fill_fold_spec:
  assumes "lots_ok ls" and "fills_ok fs" and "trips_from ls fs = (ts, ls')"
  shows "try_fold (fill_step exact_arith) (ls, w, c) fs =
    Some (ls', w + length (filter profitable ts), c + length ts)"
  using assms
proof (induction ls fs arbitrary: ts w c rule: trips_from.induct)
  case (2 ls f fs)
  show ?case
  proof (cases "fl_is_buy f")
    case True
    have "lots_ok (ls @ [(fl_qty f, fl_price f)])" using "2.prems"(1,2) by (simp add: lots_ok_def fills_ok_def)
    then show ?thesis using "2.IH"(1) [OF True] "2.prems" True by (simp add: fill_step_def fills_ok_def)
  next
    case False
    obtain ts1 ls1 where t1: "take_lots (fl_price f) (fl_qty f) ls = (ts1, ls1)" by fastforce
    obtain ts2 where t2: "trips_from ls1 fs = (ts2, ls')" and ts: "ts = ts1 @ ts2"
      using "2.prems"(3) False t1 by (auto split: prod.splits)
    have "lots_ok ls1" using take_lots_ok [OF t1 "2.prems"(1)] by simp
    then show ?thesis
      using "2.IH"(2) [OF False t1 [symmetric] refl] match_sell_spec [OF "2.prems"(1) t1] "2.prems"(2) False t2
      by (simp add: fill_step_def fills_ok_def ts)
  qed
qed simp

lemma trips_conserve:
  assumes "trips_from ls fs = (ts, ls')" and "lots_ok ls" and "fills_ok fs"
  shows "list_all (\<lambda>t. 0 < rt_qty t) ts \<and>
    (\<Sum>t\<leftarrow>ts. rt_qty t) + lots_qty ls' = lots_qty ls + (\<Sum>f\<leftarrow>filter fl_is_buy fs. fl_qty f) \<and>
    (\<Sum>t\<leftarrow>ts. rt_qty t) \<le> (\<Sum>f\<leftarrow>filter (\<lambda>f. \<not> fl_is_buy f) fs. fl_qty f)"
  using assms
proof (induction ls fs arbitrary: ts rule: trips_from.induct)
  case (2 ls f fs)
  show ?case
  proof (cases "fl_is_buy f")
    case True
    have "lots_ok (ls @ [(fl_qty f, fl_price f)])" using "2.prems"(2,3) by (simp add: lots_ok_def fills_ok_def)
    then show ?thesis using "2.IH"(1) [OF True] "2.prems" True by (auto simp: fills_ok_def lots_qty_def)
  next
    case False
    obtain ts1 ls1 where t1: "take_lots (fl_price f) (fl_qty f) ls = (ts1, ls1)" by fastforce
    obtain ts2 where t2: "trips_from ls1 fs = (ts2, ls')" and ts: "ts = ts1 @ ts2"
      using "2.prems"(1) False t1 by (auto split: prod.splits)
    have pos: "0 < fl_qty f" "fills_ok fs" using "2.prems"(3) by (simp_all add: fills_ok_def)
    show ?thesis
      using take_lots_ok [OF t1 "2.prems"(2)] "2.IH"(2) [OF False t1 [symmetric] refl t2] False pos
      by (auto simp: ts)
  qed
qed (simp add: lots_qty_def)

section \<open>Properties\<close>

text \<open>
  C15. The win rate of fills with positive quantities: the loops end, and the result counts the round
  trips of the first-in first-out matching of the fills in time order and those sold above their cost;
  the rate lies between 0 and 1. The matching conserves quantity: what is matched and what stays open
  adds up to what was bought, and no more is matched than was sold.
\<close>

theorem win_rate_is_fifo:
  assumes "fills_ok fills" and "trips_from [] (sort_key fl_time_ms fills) = (ts, open_lots)"
  shows "compute_win_rate exact_arith fills =
      Some (if ts = [] then Inl NoClosedRoundTrips
        else Inr \<lparr>closed_round_trips = length ts, wins = length (filter profitable ts),
          win_rate = of_nat (length (filter profitable ts)) / of_nat (length ts)\<rparr>) \<and>
    of_nat (length (filter profitable ts)) / of_nat (length ts) \<le> (1 :: decimal) \<and>
    (\<Sum>t\<leftarrow>ts. rt_qty t) + lots_qty open_lots =
      (\<Sum>f\<leftarrow>filter fl_is_buy (sort_key fl_time_ms fills). fl_qty f) \<and>
    (\<Sum>t\<leftarrow>ts. rt_qty t) \<le> (\<Sum>f\<leftarrow>filter (\<lambda>f. \<not> fl_is_buy f) (sort_key fl_time_ms fills). fl_qty f)"
proof -
  have ok: "fills_ok (sort_key fl_time_ms fills)" using assms(1) by (simp add: fills_ok_def list_all_iff)
  have nil: "lots_ok []" by (simp add: lots_ok_def)
  have "of_nat (length (filter profitable ts)) \<le> (of_nat (length ts) :: decimal)" by simp
  then have "of_nat (length (filter profitable ts)) / of_nat (length ts) \<le> (1 :: decimal)"
    by (cases "ts = []") simp_all
  then show ?thesis
    using fill_fold_spec [OF nil ok assms(2), of 0 0] trips_conserve [OF assms(2) nil ok]
    by (simp add: compute_win_rate_def lots_qty_def)
qed

definition sample_fills :: "fill list" where
  "sample_fills = map (\<lambda>(t, q, p, b). \<lparr>fl_time_ms = t, fl_qty = q, fl_price = p, fl_is_buy = b\<rparr>)
     [(1, 2, 10, True), (2, 3, 12, True), (3, 4, 11, False), (4, 5, 13, False)]"

theorem win_rate_is_fifo_witness:
  "\<exists>ts open_lots. trips_from [] (sort_key fl_time_ms sample_fills) = (ts, open_lots) \<and> length ts = 3 \<and>
    (\<Sum>t\<leftarrow>ts. rt_qty t) + lots_qty open_lots = 5"
proof -
  have ok: "fills_ok sample_fills" by (simp add: fills_ok_def sample_fills_def)
  have t: "trips_from [] (sort_key fl_time_ms sample_fills) =
      ([\<lparr>rt_qty = 2, rt_buy = 10, rt_sell = 11\<rparr>, \<lparr>rt_qty = 2, rt_buy = 12, rt_sell = 11\<rparr>,
        \<lparr>rt_qty = 1, rt_buy = 12, rt_sell = 13\<rparr>], [])"
    by (simp add: sample_fills_def)
  show ?thesis using win_rate_is_fifo [OF ok t] t by (simp add: sample_fills_def)
qed

end
