(* ===== verification/Store.thy ===== *)
theory Store
  imports Prelude "HOL-Library.Multiset"
begin

text \<open>
  The contract of the program's append-only stores. \<open>append_only\<close> is what every one of them
  promises: no operation changes or removes what a key already holds. \<open>first_write_store\<close> adds the
  ingestion rule shared by the ledger and the other event stores: the first content of a key wins, the
  same content again is accepted and changes nothing, different content is refused. \<open>row_store\<close> is a
  table of the database whose rows are inserted unless their key is there. The lemmas are
  about whole runs; the components interpret the locales on their own operations.
\<close>

locale append_only =
  fixes step :: "'s \<Rightarrow> 'op \<Rightarrow> 's"
    and lookup :: "'s \<Rightarrow> 'k \<Rightarrow> 'v option"
  assumes keeps: "lookup s k = Some v \<Longrightarrow> lookup (step s x) k = Some v"
begin

lemma run_keeps: "lookup s k = Some v \<Longrightarrow> lookup (foldl step s xs) k = Some v"
  by (induction xs arbitrary: s) (auto intro: keeps)

lemma run_prefix_keeps:
  "lookup (foldl step s xs) k = Some v \<Longrightarrow> lookup (foldl step s (xs @ ys)) k = Some v"
  by (simp add: run_keeps)

end

text \<open>The states of a run, one operation at a time.\<close>

fun all_accepted :: "('s \<Rightarrow> 'op \<Rightarrow> 's) \<Rightarrow> ('s \<Rightarrow> 'op \<Rightarrow> bool) \<Rightarrow> 's \<Rightarrow> 'op list \<Rightarrow> bool" where
  "all_accepted step accepts s [] = True"
| "all_accepted step accepts s (x # xs) = (accepts s x \<and> all_accepted step accepts (step s x) xs)"

locale first_write_store = append_only step lookup
  for step :: "'s \<Rightarrow> 'op \<Rightarrow> 's" and lookup :: "'s \<Rightarrow> 'k \<Rightarrow> 'v option" +
  fixes key :: "'op \<Rightarrow> 'k"
    and content :: "'op \<Rightarrow> 'v"
    and accepts :: "'s \<Rightarrow> 'op \<Rightarrow> bool"
  assumes accepted_stored: "accepts s x \<Longrightarrow> lookup (step s x) (key x) = Some (content x)"
    and other_keys: "k \<noteq> key x \<Longrightarrow> lookup (step s x) k = lookup s k"
    and conflict_refused: "lookup s (key x) = Some v \<Longrightarrow> v \<noteq> content x \<Longrightarrow> \<not> accepts s x"
    and refused_unchanged: "\<not> accepts s x \<Longrightarrow> step s x = s"
    and retry_accepted: "lookup s (key x) = Some (content x) \<Longrightarrow> accepts s x"
    and retry_noop: "lookup s (key x) = Some (content x) \<Longrightarrow> step s x = s"
begin

lemma retry_after_run:
  assumes "accepts s x"
  shows "step (foldl step (step s x) xs) x = foldl step (step s x) xs"
  using run_keeps [OF accepted_stored [OF assms], of xs] by (rule retry_noop)

lemma accepted_run_lookup:
  assumes "all_accepted step accepts s xs"
  shows "lookup (foldl step s xs) k =
    (case find (\<lambda>x. key x = k) xs of None \<Rightarrow> lookup s k | Some x \<Rightarrow> Some (content x))"
  using assms
proof (induction xs arbitrary: s)
  case (Cons x xs)
  then have rest: "lookup (foldl step (step s x) xs) k =
      (case find (\<lambda>x. key x = k) xs of None \<Rightarrow> lookup (step s x) k | Some y \<Rightarrow> Some (content y))" by simp
  show ?case
  proof (cases "key x = k")
    case True
    then have "lookup (step s x) k = Some (content x)" using accepted_stored [of s x] Cons.prems by simp
    then show ?thesis using run_keeps True by simp
  next
    case False
    then show ?thesis using rest other_keys [of k x s] by (simp split: option.splits)
  qed
qed simp

text \<open>In an accepted run every operation's content is what its key holds at the end.\<close>

lemma accepted_run_member:
  assumes "all_accepted step accepts s xs" and "x \<in> set xs"
  shows "lookup (foldl step s xs) (key x) = Some (content x)"
  using assms
proof (induction xs arbitrary: s)
  case (Cons y xs)
  then show ?case using run_keeps [OF accepted_stored, of s y xs] by auto
qed simp

lemma accepted_order_irrelevant:
  assumes "all_accepted step accepts s xs" and "all_accepted step accepts s ys" and "set xs = set ys"
  shows "lookup (foldl step s xs) k = lookup (foldl step s ys) k"
proof (cases "\<exists>x \<in> set xs. key x = k")
  case True
  then obtain x where "x \<in> set xs" "key x = k" by blast
  then show ?thesis using accepted_run_member [OF assms(1)] accepted_run_member [OF assms(2)] assms(3) by auto
next
  case False
  then have "find (\<lambda>x. key x = k) xs = None" "find (\<lambda>x. key x = k) ys = None"
    using assms(3) by (auto simp: find_None_iff)
  then show ?thesis using accepted_run_lookup [OF assms(1)] accepted_run_lookup [OF assms(2)] by simp
qed

text \<open>Replaying an accepted run changes nothing.\<close>

lemma replay_noop:
  assumes "all_accepted step accepts s xs" and "set ys \<subseteq> set xs"
  shows "foldl step (foldl step s xs) ys = foldl step s xs"
  using assms(2)
proof (induction ys)
  case (Cons y ys)
  have "step (foldl step s xs) y = foldl step s xs"
    using accepted_run_member [OF assms(1), of y] Cons.prems by (intro retry_noop) simp
  then show ?case using Cons by simp
qed simp

end

text \<open>
  The contract of a table whose rows are inserted unless their key is there: a row may have no key, and then
  it is passed over. Inserting the same rows again changes nothing.
\<close>

locale row_store = append_only step lookup
  for step :: "'s \<Rightarrow> 'op \<Rightarrow> 's" and lookup :: "'s \<Rightarrow> 'k \<Rightarrow> 'v option" +
  fixes row_key :: "'op \<Rightarrow> 'k option" and row :: "'op \<Rightarrow> 'v" and ok :: "'s \<Rightarrow> bool"
  assumes put: "ok s \<Longrightarrow> row_key x = Some k \<Longrightarrow> lookup s k = None \<Longrightarrow> lookup (step s x) k = Some (row x)"
    and other_rows: "ok s \<Longrightarrow> row_key x \<noteq> Some k \<Longrightarrow> lookup (step s x) k = lookup s k"
    and no_key: "row_key x = None \<Longrightarrow> step s x = s"
    and held: "ok s \<Longrightarrow> row_key x = Some k \<Longrightarrow> lookup s k \<noteq> None \<Longrightarrow> step s x = s"
    and ok_step: "ok s \<Longrightarrow> ok (step s x)"
begin

lemma stored: "ok s \<Longrightarrow> row_key x = Some k \<Longrightarrow> lookup (step s x) k \<noteq> None"
  using put held by (cases "lookup s k") force+

lemma run_ok: "ok s \<Longrightarrow> ok (foldl step s xs)"
  by (induction xs arbitrary: s) (simp_all add: ok_step)

text \<open>What a table holds after a run: what it held, or else the first row of the key.\<close>

lemma run_lookup:
  "ok s \<Longrightarrow> lookup (foldl step s xs) k =
    (case lookup s k of Some v \<Rightarrow> Some v | None \<Rightarrow> map_option row (find (\<lambda>x. row_key x = Some k) xs))"
proof (induction xs arbitrary: s)
  case (Cons x xs)
  note rest = Cons.IH [OF ok_step [OF Cons.prems, of x]]
  show ?case
  proof (cases "row_key x = Some k")
    case True
    then show ?thesis using rest put [OF Cons.prems True] keeps [of s k _ x] by (cases "lookup s k") simp_all
  next
    case False
    then show ?thesis using rest other_rows [OF Cons.prems False] by (simp split: option.split)
  qed
qed (simp split: option.split)

lemma run_stored: "ok s \<Longrightarrow> x \<in> set xs \<Longrightarrow> row_key x = Some k \<Longrightarrow> lookup (foldl step s xs) k \<noteq> None"
proof (induction xs arbitrary: s)
  case (Cons y ys)
  show ?case
  proof (cases "x \<in> set ys")
    case True
    then show ?thesis using Cons.IH [OF ok_step [OF Cons.prems(1), of y] _ Cons.prems(3)] by simp
  next
    case False
    then obtain v where "lookup (step s y) k = Some v" using Cons.prems stored by force
    then show ?thesis using run_keeps by fastforce
  qed
qed simp

lemma run_held:
  "ok s \<Longrightarrow> (\<And>x k. x \<in> set xs \<Longrightarrow> row_key x = Some k \<Longrightarrow> lookup s k \<noteq> None) \<Longrightarrow> foldl step s xs = s"
proof (induction xs)
  case (Cons x xs)
  have "step s x = s" using no_key held [OF Cons.prems(1)] Cons.prems(2) [of x] by (cases "row_key x") auto
  moreover have "foldl step s xs = s" using Cons.prems by (intro Cons.IH) auto
  ultimately show ?case by simp
qed simp

lemma run_again:
  assumes "ok s" and "ok s'" and "\<And>k. lookup s' k = lookup (foldl step s xs) k"
  shows "foldl step s' xs = s'"
  using assms(2)
proof (rule run_held)
  fix x k assume "x \<in> set xs" "row_key x = Some k"
  then show "lookup s' k \<noteq> None" using run_stored [OF assms(1)] unfolding assms(3) by blast
qed

end

section \<open>Statements of a database that fail\<close>

text \<open>
  Statements that are not in one transaction: each on its own, and where one fails the ones before it stay.
  \<open>fa_read\<close> says which of the queries of an operation fail, and how; \<open>fa_write\<close> which of its writing statements does.
\<close>

record 'e db_faults =
  fa_read :: "nat \<Rightarrow> 'e option"
  fa_write :: "(nat \<times> 'e) option"

definition no_faults :: "'e db_faults" where
  "no_faults = \<lparr>fa_read = (\<lambda>_. None), fa_write = None\<rparr>"

definition run_all :: "('s \<Rightarrow> 's) list \<Rightarrow> 's \<Rightarrow> 's" where
  "run_all writes s = foldl (\<lambda>s f. f s) s writes"

definition run_writes :: "'e db_faults \<Rightarrow> ('s \<Rightarrow> 's) list \<Rightarrow> 's \<Rightarrow> ('e + unit) \<times> 's" where
  "run_writes D writes s = (case fa_write D of
     Some (n, e) \<Rightarrow> if n < length writes then (Inl e, run_all (take n writes) s) else (Inr (), run_all writes s)
   | None \<Rightarrow> (Inr (), run_all writes s))"

text \<open>What is left for the statements after the first \<open>n\<close>.\<close>

definition after_writes :: "nat \<Rightarrow> 'e db_faults \<Rightarrow> 'e db_faults" where
  "after_writes n D = D\<lparr>fa_write := (case fa_write D of
     Some (m, e) \<Rightarrow> if m < n then None else Some (m - n, e) | None \<Rightarrow> None)\<rparr>"

definition query :: "'e db_faults \<Rightarrow> nat \<Rightarrow> 'e + 'a \<Rightarrow> 'e + 'a" where
  "query D n answer = (case fa_read D n of Some e \<Rightarrow> Inl e | None \<Rightarrow> answer)"

lemma query_Inr: "query D n answer = Inr x \<longleftrightarrow> fa_read D n = None \<and> answer = Inr x"
  by (simp add: query_def split: option.split)

lemma query_no_faults [simp]: "query no_faults n answer = answer"
  by (simp add: query_def no_faults_def)

lemma run_writes_no_faults [simp]: "run_writes no_faults writes s = (Inr (), run_all writes s)"
  by (simp add: run_writes_def no_faults_def)

text \<open>A failure leaves a part of the statements, without the last one at least.\<close>

lemma run_writes_Inr: "run_writes D writes s = (Inr u, s') \<Longrightarrow> s' = run_all writes s"
  by (auto simp: run_writes_def split: option.splits if_splits)

lemma run_writes_Inl: "run_writes D writes s = (Inl e, s') \<Longrightarrow> \<exists>n < length writes. s' = run_all (take n writes) s"
  by (auto simp: run_writes_def split: option.splits if_splits)

lemma run_all_simps [simp]:
  "run_all [] s = s" "run_all (f # fs) s = run_all fs (f s)" "run_all (fs @ gs) s = run_all gs (run_all fs s)"
  by (simp_all add: run_all_def)

lemma run_all_map: "run_all (map (\<lambda>x s. step s x) xs) s = foldl step s xs"
  by (induction xs arbitrary: s) simp_all

text \<open>What every statement keeps, a part of them keeps.\<close>

lemma run_all_inv: "P s \<Longrightarrow> (\<And>f s. f \<in> set writes \<Longrightarrow> P s \<Longrightarrow> P (f s)) \<Longrightarrow> P (run_all writes s)"
  by (induction writes arbitrary: s) simp_all

lemma run_writes_inv:
  assumes "run_writes D writes s = (r, s')" "P s" "\<And>f s. f \<in> set writes \<Longrightarrow> P s \<Longrightarrow> P (f s)"
  shows "P s'"
proof -
  obtain n where "s' = run_all (take n writes) s"
    using assms(1) by (cases r) (use run_writes_Inl run_writes_Inr in \<open>fastforce intro: that [of "length writes"]\<close>)+
  then show ?thesis using assms(2,3) by (auto intro: run_all_inv dest: in_set_takeD)
qed

end
