(* ===== verification/Ledger.thy ===== *)
theory Ledger
  imports Decimal Store
begin

text \<open>
  The ledger accumulator (crates/domain/ledger/src): events keyed by namespace and source id, and the
  balance per asset. Decimal arithmetic is the parameter \<open>A\<close> and \<open>Decimal::from_str\<close> the parameter
  \<open>parse\<close>; the outer option of \<open>ingest\<close> is the overflow panic of \<open>+=\<close>. The \<open>BTreeMap\<close>s are maps.
\<close>

record ledger_leg =
  lg_asset :: string
  lg_amount :: string
  lg_is_credit :: bool

record ledger_event =
  ev_source_namespace :: string
  ev_source_id :: string
  ev_economic_time_ms :: nat
  ev_observed_time_ms :: nat
  ev_legs :: "ledger_leg list"
  ev_fee :: "ledger_leg option"

definition key :: "ledger_event \<Rightarrow> string \<times> string" where
  "key e = (ev_source_namespace e, ev_source_id e)"

datatype ledger_error = Conflict string string | InvalidAmount string string

record ledger =
  lg_events :: "string \<times> string \<Rightarrow> ledger_event option"
  lg_balances :: "string \<Rightarrow> decimal option"

definition new_ledger :: ledger where
  "new_ledger = \<lparr>lg_events = Map.empty, lg_balances = Map.empty\<rparr>"

definition signed_amount :: "(string \<Rightarrow> decimal option) \<Rightarrow> ledger_leg \<Rightarrow> ledger_error + decimal" where
  "signed_amount parse leg =
     and_then (ok_or (InvalidAmount (lg_asset leg) (lg_amount leg)) (parse (lg_amount leg))) (\<lambda>amount.
       Inr (if lg_is_credit leg then amount else - amount))"

text \<open>\<open>event.legs.iter().chain(event.fee.iter())\<close>\<close>

definition all_legs :: "ledger_event \<Rightarrow> ledger_leg list" where
  "all_legs e = ev_legs e @ (case ev_fee e of None \<Rightarrow> [] | Some f \<Rightarrow> [f])"

definition event_deltas :: "(string \<Rightarrow> decimal option) \<Rightarrow> ledger_event \<Rightarrow> ledger_error + (string \<times> decimal) list" where
  "event_deltas parse e =
     collect_res (\<lambda>leg. and_then (signed_amount parse leg) (\<lambda>a. Inr (lg_asset leg, a))) (all_legs e)"

definition add_delta :: "arith \<Rightarrow> (string \<Rightarrow> decimal option) \<Rightarrow> string \<times> decimal \<Rightarrow> (string \<Rightarrow> decimal option) option" where
  "add_delta A bs d =
     Option.bind (dadd A (case bs (fst d) of None \<Rightarrow> 0 | Some b \<Rightarrow> b) (snd d)) (\<lambda>b. Some (bs(fst d \<mapsto> b)))"

definition ingest ::
    "arith \<Rightarrow> (string \<Rightarrow> decimal option) \<Rightarrow> ledger \<Rightarrow> ledger_event \<Rightarrow> (ledger \<times> (ledger_error + unit)) option" where
  "ingest A parse l e =
     (case lg_events l (key e) of
        Some existing \<Rightarrow>
          Some (l, if existing = e then Inr () else Inl (Conflict (fst (key e)) (snd (key e))))
      | None \<Rightarrow>
          (case event_deltas parse e of
             Inl err \<Rightarrow> Some (l, Inl err)
           | Inr deltas \<Rightarrow>
               Option.bind (try_fold (add_delta A) (lg_balances l) deltas) (\<lambda>bs.
                 Some (\<lparr>lg_events = (lg_events l)(key e \<mapsto> e), lg_balances = bs\<rparr>, Inr ()))))"

definition balance :: "ledger \<Rightarrow> string \<Rightarrow> decimal" where
  "balance l asset = (case lg_balances l asset of None \<Rightarrow> 0 | Some b \<Rightarrow> b)"

definition event :: "ledger \<Rightarrow> string \<Rightarrow> string \<Rightarrow> ledger_event option" where
  "event l namespace source_id = lg_events l (namespace, source_id)"

definition event_count :: "ledger \<Rightarrow> nat" where
  "event_count l = card (dom (lg_events l))"

definition assets :: "ledger \<Rightarrow> string set" where
  "assets l = dom (lg_balances l)"

section \<open>A ledger as an append-only store\<close>

definition ingest_step :: "(string \<Rightarrow> decimal option) \<Rightarrow> ledger \<Rightarrow> ledger_event \<Rightarrow> ledger" where
  "ingest_step parse l e = (case ingest exact_arith parse l e of None \<Rightarrow> l | Some (l', r) \<Rightarrow> l')"

definition ingest_accepts :: "(string \<Rightarrow> decimal option) \<Rightarrow> ledger \<Rightarrow> ledger_event \<Rightarrow> bool" where
  "ingest_accepts parse l e =
     (case ingest exact_arith parse l e of Some (l', Inr _) \<Rightarrow> True | _ \<Rightarrow> False)"

lemma add_delta_exact:
  "add_delta exact_arith bs d = Some (bs(fst d \<mapsto> (case bs (fst d) of None \<Rightarrow> 0 | Some b \<Rightarrow> b) + snd d))"
  by (simp add: add_delta_def)

lemma deltas_total: "\<exists>bs'. try_fold (add_delta exact_arith) bs ds = Some bs'"
  by (induction ds arbitrary: bs) (simp_all add: add_delta_exact)

lemma ingest_cases:
  obtains (known) x where "lg_events l (key e) = Some x" and "ingest_step parse l e = l"
      and "ingest_accepts parse l e \<longleftrightarrow> x = e"
  | (invalid) err where "lg_events l (key e) = None" and "event_deltas parse e = Inl err"
      and "ingest_step parse l e = l" and "\<not> ingest_accepts parse l e"
  | (fresh) ds bs where "lg_events l (key e) = None" and "event_deltas parse e = Inr ds"
      and "try_fold (add_delta exact_arith) (lg_balances l) ds = Some bs"
      and "ingest_step parse l e = \<lparr>lg_events = (lg_events l)(key e \<mapsto> e), lg_balances = bs\<rparr>"
      and "ingest_accepts parse l e"
proof (cases "lg_events l (key e)")
  case (Some x)
  then show ?thesis
    by (intro known [of x]) (auto simp: ingest_step_def ingest_accepts_def ingest_def)
next
  case none: None
  show ?thesis
  proof (cases "event_deltas parse e")
    case (Inl err)
    then show ?thesis using none by (intro invalid) (simp_all add: ingest_step_def ingest_accepts_def ingest_def)
  next
    case (Inr ds)
    obtain bs where "try_fold (add_delta exact_arith) (lg_balances l) ds = Some bs" using deltas_total by blast
    then show ?thesis
      using none Inr by (intro fresh) (simp_all add: ingest_step_def ingest_accepts_def ingest_def)
  qed
qed

interpretation lstore: first_write_store "ingest_step parse" lg_events key "\<lambda>e. e" "ingest_accepts parse"
  for parse
proof
  fix l k v e
  show "lg_events l k = Some v \<Longrightarrow> lg_events (ingest_step parse l e) k = Some v"
    by (cases rule: ingest_cases [of l e parse]) auto
  show "ingest_accepts parse l e \<Longrightarrow> lg_events (ingest_step parse l e) (key e) = Some e"
    by (cases rule: ingest_cases [of l e parse]) auto
  show "k \<noteq> key e \<Longrightarrow> lg_events (ingest_step parse l e) k = lg_events l k"
    by (cases rule: ingest_cases [of l e parse]) auto
  show "lg_events l (key e) = Some v \<Longrightarrow> v \<noteq> e \<Longrightarrow> \<not> ingest_accepts parse l e"
    by (cases rule: ingest_cases [of l e parse]) auto
  show "\<not> ingest_accepts parse l e \<Longrightarrow> ingest_step parse l e = l"
    by (cases rule: ingest_cases [of l e parse]) auto
  show "lg_events l (key e) = Some e \<Longrightarrow> ingest_accepts parse l e"
    by (cases rule: ingest_cases [of l e parse]) auto
  show "lg_events l (key e) = Some e \<Longrightarrow> ingest_step parse l e = l"
    by (cases rule: ingest_cases [of l e parse]) auto
qed

section \<open>Balances\<close>

text \<open>What one event contributes to an asset: every leg and the fee once, credits minus debits.\<close>

definition leg_value :: "(string \<Rightarrow> decimal option) \<Rightarrow> ledger_leg \<Rightarrow> decimal" where
  "leg_value parse leg =
     (case parse (lg_amount leg) of None \<Rightarrow> 0 | Some a \<Rightarrow> if lg_is_credit leg then a else - a)"

definition contribution :: "(string \<Rightarrow> decimal option) \<Rightarrow> string \<Rightarrow> ledger_event \<Rightarrow> decimal" where
  "contribution parse asset e =
     (\<Sum>leg\<leftarrow>filter (\<lambda>leg. lg_asset leg = asset) (ev_legs e). leg_value parse leg) +
     (case ev_fee e of Some fee \<Rightarrow> if lg_asset fee = asset then leg_value parse fee else 0 | None \<Rightarrow> 0)"

definition reconciled :: "(string \<Rightarrow> decimal option) \<Rightarrow> ledger \<Rightarrow> bool" where
  "reconciled parse l \<longleftrightarrow> finite (dom (lg_events l)) \<and>
     (\<forall>asset. balance l asset = (\<Sum>k \<in> dom (lg_events l). contribution parse asset (the (lg_events l k))))"

lemma fold_deltas:
  assumes "try_fold (add_delta exact_arith) bs ds = Some bs'"
  shows "(case bs' a of None \<Rightarrow> 0 | Some b \<Rightarrow> b) =
    (case bs a of None \<Rightarrow> 0 | Some b \<Rightarrow> b) + (\<Sum>d\<leftarrow>filter (\<lambda>d. fst d = a) ds. snd d)"
  using assms
proof (induction ds arbitrary: bs)
  case (Cons d ds)
  then show ?case by (cases "fst d = a") (auto simp: add_delta_exact add.assoc)
qed simp

lemma deltas_contribution:
  assumes "event_deltas parse e = Inr ds"
  shows "(\<Sum>d\<leftarrow>filter (\<lambda>d. fst d = a) ds. snd d) = contribution parse a e"
proof -
  have "list_all2 (\<lambda>leg d. d = (lg_asset leg, leg_value parse leg)) (all_legs e) ds"
    using assms unfolding event_deltas_def collect_res_Inr
    by (rule list_all2_mono) (auto simp: signed_amount_def leg_value_def)
  then have ds: "ds = map (\<lambda>leg. (lg_asset leg, leg_value parse leg)) (all_legs e)"
    by (induction rule: list_all2_induct) simp_all
  show ?thesis
    unfolding ds by (cases "ev_fee e") (simp_all add: all_legs_def contribution_def filter_map comp_def)
qed

lemma ingest_reconciled:
  assumes "reconciled parse l"
  shows "reconciled parse (ingest_step parse l e)"
proof (cases rule: ingest_cases [of l e parse])
  case (fresh ds bs)
  have "balance (ingest_step parse l e) a = balance l a + contribution parse a e" for a
    using fold_deltas [OF fresh(3), of a] deltas_contribution [OF fresh(2), of a]
    by (simp add: fresh(4) balance_def)
  moreover have "(\<Sum>k \<in> dom (lg_events l) - {key e}. contribution parse a (the (((lg_events l)(key e \<mapsto> e)) k))) =
      (\<Sum>k \<in> dom (lg_events l). contribution parse a (the (lg_events l k)))" for a
    using fresh(1) by (intro sum.cong) auto
  ultimately show ?thesis
    using assms fresh(1,4) by (auto simp: reconciled_def sum.insert_remove insert_absorb add.commute)
qed (use assms in simp_all)

lemma run_reconciled: "reconciled parse l \<Longrightarrow> reconciled parse (foldl (ingest_step parse) l es)"
  by (induction es arbitrary: l) (simp_all add: ingest_reconciled)

lemma new_reconciled: "reconciled parse new_ledger"
  by (simp add: reconciled_def new_ledger_def balance_def)

section \<open>Properties\<close>

text \<open>
  C10. Balances reconcile: after any sequence of ingests, accepted or refused, the balance of every
  asset is the sum over the recorded events of their legs and fees, each counted exactly once.
\<close>

theorem ledger_balances_reconcile:
  "balance (foldl (ingest_step parse) new_ledger events) asset =
    (\<Sum>k \<in> dom (lg_events (foldl (ingest_step parse) new_ledger events)).
      contribution parse asset (the (lg_events (foldl (ingest_step parse) new_ledger events) k)))"
  using run_reconciled [OF new_reconciled] unfolding reconciled_def by blast

text \<open>
  C18. The order and the number of deliveries do not matter: two runs over the same events, in any
  order and with any repetitions, in which every event is accepted, record the same events and have
  the same balances; and delivering any of them again changes nothing.
\<close>

theorem ledger_order_and_retries_irrelevant:
  assumes "all_accepted (ingest_step parse) (ingest_accepts parse) new_ledger xs"
    and "all_accepted (ingest_step parse) (ingest_accepts parse) new_ledger ys" and "set xs = set ys"
  shows "lg_events (foldl (ingest_step parse) new_ledger xs) = lg_events (foldl (ingest_step parse) new_ledger ys) \<and>
    balance (foldl (ingest_step parse) new_ledger xs) asset = balance (foldl (ingest_step parse) new_ledger ys) asset \<and>
    foldl (ingest_step parse) (foldl (ingest_step parse) new_ledger xs) ys = foldl (ingest_step parse) new_ledger xs"
proof -
  have e: "lg_events (foldl (ingest_step parse) new_ledger xs) = lg_events (foldl (ingest_step parse) new_ledger ys)"
    by (rule ext) (rule lstore.accepted_order_irrelevant [OF assms])
  have "reconciled parse (foldl (ingest_step parse) new_ledger zs)" for zs
    by (rule run_reconciled [OF new_reconciled])
  then have "balance (foldl (ingest_step parse) new_ledger xs) asset =
      balance (foldl (ingest_step parse) new_ledger ys) asset"
    unfolding reconciled_def e [symmetric] by (simp add: e)
  then show ?thesis using e lstore.replay_noop [OF assms(1)] assms(3) by simp
qed

definition sample_parse :: "string \<Rightarrow> decimal option" where
  "sample_parse s = (if s = ''10'' then Some 10 else if s = ''1'' then Some 1 else None)"

definition sample_buy :: ledger_event where
  "sample_buy = \<lparr>ev_source_namespace = ''binance.trade'', ev_source_id = ''1'', ev_economic_time_ms = 1,
     ev_observed_time_ms = 2, ev_legs = [\<lparr>lg_asset = ''BTC'', lg_amount = ''10'', lg_is_credit = True\<rparr>],
     ev_fee = Some \<lparr>lg_asset = ''BTC'', lg_amount = ''1'', lg_is_credit = False\<rparr>\<rparr>"

definition sample_deposit :: ledger_event where
  "sample_deposit = \<lparr>ev_source_namespace = ''binance.deposit'', ev_source_id = ''1'', ev_economic_time_ms = 3,
     ev_observed_time_ms = 4, ev_legs = [\<lparr>lg_asset = ''BTC'', lg_amount = ''1'', lg_is_credit = True\<rparr>],
     ev_fee = None\<rparr>"

theorem ledger_order_and_retries_irrelevant_witness:
  "balance (foldl (ingest_step sample_parse) new_ledger [sample_buy, sample_deposit]) ''BTC'' =
   balance (foldl (ingest_step sample_parse) new_ledger [sample_deposit, sample_buy, sample_deposit]) ''BTC''"
proof -
  note eval = ingest_accepts_def ingest_step_def ingest_def event_deltas_def all_legs_def signed_amount_def
    sample_parse_def sample_buy_def sample_deposit_def new_ledger_def key_def add_delta_exact
  have "all_accepted (ingest_step sample_parse) (ingest_accepts sample_parse) new_ledger [sample_buy, sample_deposit]"
    "all_accepted (ingest_step sample_parse) (ingest_accepts sample_parse) new_ledger [sample_deposit, sample_buy, sample_deposit]"
    by (simp_all add: eval)
  moreover have "set [sample_buy, sample_deposit] = set [sample_deposit, sample_buy, sample_deposit]" by auto
  ultimately show ?thesis by (rule ledger_order_and_retries_irrelevant [THEN conjunct2, THEN conjunct1])
qed

end
