(* ===== verification/Trades.thy ===== *)
theory Trades
  imports Store
begin

text \<open>
  Trade storage and pagination of the Binance collector (services/collector/binance/trades/src). The
  \<open>BTreeMap\<close>s are maps; page counters are \<open>u32\<close> with their wrap-around.
\<close>

section \<open>pagination.rs\<close>

datatype page_outcome = Exhausted | Unproven

definition classify_page :: "nat \<Rightarrow> nat \<Rightarrow> page_outcome" where
  "classify_page returned page_capacity = (if returned < page_capacity then Exhausted else Unproven)"

record tracker =
  tk_pages_fetched :: nat
  tk_outcome :: page_outcome

definition new_tracker :: tracker where
  "new_tracker = \<lparr>tk_pages_fetched = 0, tk_outcome = Unproven\<rparr>"

definition record_page :: "tracker \<Rightarrow> nat \<Rightarrow> nat \<Rightarrow> tracker" where
  "record_page t returned page_capacity =
     \<lparr>tk_pages_fetched = wrap_u 32 (tk_pages_fetched t + 1), tk_outcome = classify_page returned page_capacity\<rparr>"

definition is_exhausted :: "tracker \<Rightarrow> bool" where
  "is_exhausted t \<longleftrightarrow> tk_outcome t = Exhausted"

section \<open>trade.rs and store.rs\<close>

record trade =
  tr_symbol :: string
  tr_id :: nat
  tr_order_id :: nat
  tr_price :: string
  tr_qty :: string
  tr_commission :: string
  tr_commission_asset :: string
  tr_time_ms :: nat
  tr_is_buyer :: bool

definition trade_key :: "trade \<Rightarrow> string \<times> nat" where
  "trade_key t = (tr_symbol t, tr_id t)"

datatype ingest_error = Conflict string nat

record trade_store =
  ts_by_symbol :: "string \<Rightarrow> (nat \<Rightarrow> trade option) option"
  ts_pagination :: "string \<Rightarrow> tracker option"

definition new_store :: trade_store where
  "new_store = \<lparr>ts_by_symbol = Map.empty, ts_pagination = Map.empty\<rparr>"

text \<open>\<open>entry(k).or_insert(v)\<close> and \<open>entry(k).or_default()\<close>\<close>

definition or_insert :: "('k \<Rightarrow> 'v option) \<Rightarrow> 'k \<Rightarrow> 'v \<Rightarrow> ('k \<Rightarrow> 'v option)" where
  "or_insert m k v = (case m k of None \<Rightarrow> m(k \<mapsto> v) | Some _ \<Rightarrow> m)"

definition ingest_page ::
    "trade_store \<Rightarrow> string \<Rightarrow> trade list \<Rightarrow> nat \<Rightarrow> trade_store \<times> (ingest_error + unit)" where
  "ingest_page st symbol trades page_capacity =
     (let by_symbol = or_insert (ts_by_symbol st) symbol Map.empty;
          symbol_trades = the (by_symbol symbol)
      in case find (\<lambda>t. case symbol_trades (tr_id t) of None \<Rightarrow> False | Some existing \<Rightarrow> existing \<noteq> t) trades of
           Some t \<Rightarrow> (st\<lparr>ts_by_symbol := by_symbol\<rparr>, Inl (Conflict symbol (tr_id t)))
         | None \<Rightarrow>
             (\<lparr>ts_by_symbol = by_symbol(symbol \<mapsto> foldl (\<lambda>m t. or_insert m (tr_id t) t) symbol_trades trades),
               ts_pagination = (ts_pagination st)(symbol \<mapsto>
                 record_page (case ts_pagination st symbol of None \<Rightarrow> new_tracker | Some t \<Rightarrow> t)
                   (length trades) page_capacity)\<rparr>, Inr ()))"

definition trade_at :: "trade_store \<Rightarrow> string \<Rightarrow> nat \<Rightarrow> trade option" where
  "trade_at st symbol i = Option.bind (ts_by_symbol st symbol) (\<lambda>m. m i)"

text \<open>\<open>trades_for\<close> returns the values of the inner map, a \<open>BTreeMap\<close>, in the order of their ids.\<close>

definition trades_for :: "trade_store \<Rightarrow> string \<Rightarrow> trade list" where
  "trades_for st symbol =
     (case ts_by_symbol st symbol of
        None \<Rightarrow> []
      | Some m \<Rightarrow> map (\<lambda>i. the (m i)) (sorted_list_of_set (dom m)))"

definition store_symbols :: "trade_store \<Rightarrow> string set" where
  "store_symbols st = dom (ts_by_symbol st)"

definition pagination_outcome :: "trade_store \<Rightarrow> string \<Rightarrow> page_outcome option" where
  "pagination_outcome st symbol = map_option tk_outcome (ts_pagination st symbol)"

definition is_symbol_exhausted :: "trade_store \<Rightarrow> string \<Rightarrow> bool" where
  "is_symbol_exhausted st symbol = (case ts_pagination st symbol of None \<Rightarrow> False | Some t \<Rightarrow> is_exhausted t)"

definition pages_fetched :: "trade_store \<Rightarrow> string \<Rightarrow> nat" where
  "pages_fetched st symbol = (case ts_pagination st symbol of None \<Rightarrow> 0 | Some t \<Rightarrow> tk_pages_fetched t)"

section \<open>Lookups after a page\<close>

lemma or_insert_lookup: "or_insert m k v x = (if x = k \<and> m k = None then Some v else m x)"
  by (auto simp: or_insert_def split: option.split)

lemma or_insert_fold:
  "foldl (\<lambda>m t. or_insert m (f t) t) m ts x =
     (case m x of Some v \<Rightarrow> Some v | None \<Rightarrow> find (\<lambda>t. f t = x) ts)"
proof (induction ts arbitrary: m)
  case (Cons t ts)
  then show ?case by (cases "m x") (auto simp: or_insert_lookup)
qed (simp split: option.split)

definition page_conflicts :: "trade_store \<Rightarrow> string \<Rightarrow> trade list \<Rightarrow> bool" where
  "page_conflicts st symbol trades \<longleftrightarrow>
     list_ex (\<lambda>t. case trade_at st symbol (tr_id t) of None \<Rightarrow> False | Some existing \<Rightarrow> existing \<noteq> t) trades"

lemma default_entry: "the (or_insert (ts_by_symbol st) symbol Map.empty symbol) i = trade_at st symbol i"
  by (cases "ts_by_symbol st symbol") (simp_all add: or_insert_lookup trade_at_def)

lemma ingest_page_conflict:
  assumes "page_conflicts st symbol trades"
  shows "\<exists>t \<in> set trades. ingest_page st symbol trades cap =
    (st\<lparr>ts_by_symbol := or_insert (ts_by_symbol st) symbol Map.empty\<rparr>, Inl (Conflict symbol (tr_id t)))"
proof -
  obtain t where "find (\<lambda>t. case trade_at st symbol (tr_id t) of None \<Rightarrow> False | Some existing \<Rightarrow> existing \<noteq> t) trades = Some t"
    using assms by (cases "find (\<lambda>t. case trade_at st symbol (tr_id t) of None \<Rightarrow> False | Some existing \<Rightarrow> existing \<noteq> t) trades")
      (auto simp: page_conflicts_def find_None_iff list_ex_iff)
  moreover have "t \<in> set trades" using calculation by (auto simp: find_Some_iff)
  ultimately show ?thesis by (auto simp: ingest_page_def Let_def default_entry)
qed

lemma ingest_page_ok:
  assumes "\<not> page_conflicts st symbol trades"
  shows "snd (ingest_page st symbol trades cap) = Inr ()"
    and "trade_at (fst (ingest_page st symbol trades cap)) s i =
      (if s = symbol then (case trade_at st symbol i of Some v \<Rightarrow> Some v | None \<Rightarrow> find (\<lambda>t. tr_id t = i) trades)
       else trade_at st s i)"
    and "ts_pagination (fst (ingest_page st symbol trades cap)) = (ts_pagination st)(symbol \<mapsto>
      record_page (case ts_pagination st symbol of None \<Rightarrow> new_tracker | Some t \<Rightarrow> t) (length trades) cap)"
proof -
  have n: "find (\<lambda>t. case trade_at st symbol (tr_id t) of None \<Rightarrow> False | Some existing \<Rightarrow> existing \<noteq> t) trades = None"
    using assms by (auto simp: page_conflicts_def find_None_iff list_ex_iff)
  show "snd (ingest_page st symbol trades cap) = Inr ()"
    and "ts_pagination (fst (ingest_page st symbol trades cap)) = (ts_pagination st)(symbol \<mapsto>
      record_page (case ts_pagination st symbol of None \<Rightarrow> new_tracker | Some t \<Rightarrow> t) (length trades) cap)"
    by (simp_all add: ingest_page_def Let_def default_entry n)
  show "trade_at (fst (ingest_page st symbol trades cap)) s i =
      (if s = symbol then (case trade_at st symbol i of Some v \<Rightarrow> Some v | None \<Rightarrow> find (\<lambda>t. tr_id t = i) trades)
       else trade_at st s i)"
  proof -
    define m where "m = the (or_insert (ts_by_symbol st) symbol Map.empty symbol)"
    have "ts_by_symbol (fst (ingest_page st symbol trades cap)) =
        (or_insert (ts_by_symbol st) symbol Map.empty)(symbol \<mapsto> foldl (\<lambda>m t. or_insert m (tr_id t) t) m trades)"
      by (simp add: ingest_page_def Let_def default_entry n m_def)
    then have "trade_at (fst (ingest_page st symbol trades cap)) s i =
        (if s = symbol then foldl (\<lambda>m t. or_insert m (tr_id t) t) m trades i
         else Option.bind (or_insert (ts_by_symbol st) symbol Map.empty s) (\<lambda>m. m i))"
      by (simp add: trade_at_def)
    then show ?thesis
      using default_entry [of st symbol i] by (simp add: or_insert_fold m_def or_insert_lookup) (simp add: trade_at_def)
  qed
qed

text \<open>A page as an operation of the store; whatever its outcome, stored trades stay.\<close>

definition page_step :: "trade_store \<Rightarrow> string \<times> trade list \<times> nat \<Rightarrow> trade_store" where
  "page_step st op = (case op of (symbol, trades, cap) \<Rightarrow> fst (ingest_page st symbol trades cap))"

definition trade_lookup :: "trade_store \<Rightarrow> string \<times> nat \<Rightarrow> trade option" where
  "trade_lookup st k = trade_at st (fst k) (snd k)"

lemma conflict_keeps:
  assumes "page_conflicts st symbol trades"
  shows "trade_at (fst (ingest_page st symbol trades cap)) s i = trade_at st s i"
    and "ts_pagination (fst (ingest_page st symbol trades cap)) = ts_pagination st"
  using ingest_page_conflict [OF assms, of cap] by (auto simp: trade_at_def or_insert_lookup)

interpretation tstore: append_only page_step trade_lookup
proof
  fix st k v and op :: "string \<times> trade list \<times> nat"
  assume a: "trade_lookup st k = Some v"
  obtain symbol trades cap where op: "op = (symbol, trades, cap)" by (cases op)
  show "trade_lookup (page_step st op) k = Some v"
  proof (cases "page_conflicts st symbol trades")
    case True
    then show ?thesis using a by (simp add: trade_lookup_def page_step_def op conflict_keeps)
  next
    case False
    then show ?thesis using a by (auto simp: trade_lookup_def page_step_def op ingest_page_ok(2))
  qed
qed

section \<open>Properties\<close>

text \<open>
  Ingesting a page: if some trade of it differs from the stored trade with its id, the page is
  refused with that conflict and no stored trade and no pagination state changes; otherwise every id
  of the page is stored, an id that was already there keeps its trade, other ids and other symbols are
  untouched, and the pagination outcome is that of this page. Over any sequence of pages a stored trade
  is never changed.
\<close>

theorem ingest_page_effect:
  "(if page_conflicts st symbol trades
    then (\<exists>t \<in> set trades. snd (ingest_page st symbol trades cap) = Inl (Conflict symbol (tr_id t))) \<and>
      (\<forall>s i. trade_at (fst (ingest_page st symbol trades cap)) s i = trade_at st s i) \<and>
      ts_pagination (fst (ingest_page st symbol trades cap)) = ts_pagination st
    else snd (ingest_page st symbol trades cap) = Inr () \<and>
      (\<forall>s i. trade_at (fst (ingest_page st symbol trades cap)) s i =
        (if s = symbol then (case trade_at st symbol i of Some v \<Rightarrow> Some v | None \<Rightarrow> find (\<lambda>t. tr_id t = i) trades)
         else trade_at st s i)) \<and>
      pagination_outcome (fst (ingest_page st symbol trades cap)) symbol = Some (classify_page (length trades) cap)) \<and>
   (trade_at st s k = Some v \<longrightarrow> trade_at (foldl page_step st pages) s k = Some v)"
proof (intro conjI)
  show "trade_at st s k = Some v \<longrightarrow> trade_at (foldl page_step st pages) s k = Some v"
    using tstore.run_keeps [of st "(s, k)" v pages] by (simp add: trade_lookup_def)
next
  show "if page_conflicts st symbol trades
    then (\<exists>t \<in> set trades. snd (ingest_page st symbol trades cap) = Inl (Conflict symbol (tr_id t))) \<and>
      (\<forall>s i. trade_at (fst (ingest_page st symbol trades cap)) s i = trade_at st s i) \<and>
      ts_pagination (fst (ingest_page st symbol trades cap)) = ts_pagination st
    else snd (ingest_page st symbol trades cap) = Inr () \<and>
      (\<forall>s i. trade_at (fst (ingest_page st symbol trades cap)) s i =
        (if s = symbol then (case trade_at st symbol i of Some v \<Rightarrow> Some v | None \<Rightarrow> find (\<lambda>t. tr_id t = i) trades)
         else trade_at st s i)) \<and>
      pagination_outcome (fst (ingest_page st symbol trades cap)) symbol = Some (classify_page (length trades) cap)"
  proof (cases "page_conflicts st symbol trades")
    case True
    then obtain t where "t \<in> set trades" "snd (ingest_page st symbol trades cap) = Inl (Conflict symbol (tr_id t))"
      using ingest_page_conflict [of st symbol trades cap] by auto
    then show ?thesis using True conflict_keeps [OF True, of cap] by (simp only: if_True) blast
  next
    case False
    then show ?thesis
      using ingest_page_ok [of st symbol trades cap] by (simp add: pagination_outcome_def record_page_def)
  qed
qed

definition sample_trade :: "nat \<Rightarrow> string \<Rightarrow> trade" where
  "sample_trade i price = \<lparr>tr_symbol = ''BTCUSDT'', tr_id = i, tr_order_id = 1, tr_price = price, tr_qty = ''1'',
     tr_commission = ''0'', tr_commission_asset = ''BNB'', tr_time_ms = 1, tr_is_buyer = True\<rparr>"

theorem ingest_page_effect_witness:
  "trade_at (foldl page_step (fst (ingest_page new_store ''BTCUSDT'' [sample_trade 7 ''100''] 500))
      [(''BTCUSDT'', [sample_trade 7 ''101''], 500), (''ETHUSDT'', [], 500)]) ''BTCUSDT'' 7 = Some (sample_trade 7 ''100'')"
proof -
  have "trade_at (fst (ingest_page new_store ''BTCUSDT'' [sample_trade 7 ''100''] 500)) ''BTCUSDT'' 7 =
      Some (sample_trade 7 ''100'')"
    by (simp add: ingest_page_def new_store_def trade_at_def or_insert_def sample_trade_def Let_def)
  then show ?thesis using ingest_page_effect by blast
qed

text \<open>
  A conflict inside one page is not detected: the check runs against the store only, so a first
  page that carries the same id twice with different contents is accepted and the second content is
  dropped without an error.
\<close>

theorem page_internal_conflict_accepted:
  "sample_trade 7 ''100'' \<noteq> sample_trade 7 ''101'' \<and>
   snd (ingest_page new_store ''BTCUSDT'' [sample_trade 7 ''100'', sample_trade 7 ''101''] 500) = Inr () \<and>
   trade_at (fst (ingest_page new_store ''BTCUSDT'' [sample_trade 7 ''100'', sample_trade 7 ''101''] 500)) ''BTCUSDT'' 7
     = Some (sample_trade 7 ''100'')"
  by (simp add: ingest_page_def new_store_def trade_at_def or_insert_def sample_trade_def Let_def)

end
