(* ===== verification/Catalog.thy ===== *)
theory Catalog
  imports Store
begin

text \<open>
  The catalog archive and the symbol universe of the Binance collector
  (services/collector/binance/catalog/src). A \<open>BTreeSet\<close> of symbols is the sorted list it iterates
  over where it is an input, and a set where it is a result.
\<close>

section \<open>archive.rs\<close>

record catalog_snapshot =
  cs_captured_at_ms :: nat
  cs_symbols :: "string list"

datatype catalog_error = NotChronological nat nat

type_synonym catalog_archive = "catalog_snapshot list"

definition archive :: "catalog_archive \<Rightarrow> catalog_snapshot \<Rightarrow> catalog_archive \<times> (catalog_error + unit)" where
  "archive versions s =
     (if versions \<noteq> [] \<and> cs_captured_at_ms s \<le> cs_captured_at_ms (last versions)
      then (versions, Inl (NotChronological (cs_captured_at_ms (last versions)) (cs_captured_at_ms s)))
      else (versions @ [s], Inr ()))"

definition latest :: "catalog_archive \<Rightarrow> catalog_snapshot option" where
  "latest versions = (if versions = [] then None else Some (last versions))"

definition has_version_at_or_before :: "catalog_archive \<Rightarrow> nat \<Rightarrow> bool" where
  "has_version_at_or_before versions timestamp_ms = list_ex (\<lambda>v. cs_captured_at_ms v \<le> timestamp_ms) versions"

definition all_symbols_ever_seen :: "catalog_archive \<Rightarrow> string set" where
  "all_symbols_ever_seen versions = fold (\<lambda>v acc. acc \<union> set (cs_symbols v)) versions {}"

definition delisted_symbols :: "catalog_archive \<Rightarrow> string set" where
  "delisted_symbols versions =
     (case latest versions of None \<Rightarrow> {} | Some v \<Rightarrow> all_symbols_ever_seen versions - set (cs_symbols v))"

section \<open>universe.rs\<close>

datatype universe_source = CatalogSource | StreamSource | KnownHistorySource

record stream_observation =
  so_symbol :: string
  so_observed_at_ms :: nat

record symbol_universe =
  su_symbols :: "string set"
  su_provenance :: "string \<Rightarrow> (universe_source \<times> nat) option"

definition new_universe :: symbol_universe where
  "new_universe = \<lparr>su_symbols = {}, su_provenance = Map.empty\<rparr>"

definition admit :: "universe_source \<Rightarrow> nat \<Rightarrow> symbol_universe \<Rightarrow> string \<Rightarrow> symbol_universe" where
  "admit source at_ms u symbol =
     (if symbol \<in> su_symbols u then u
      else \<lparr>su_symbols = insert symbol (su_symbols u), su_provenance = (su_provenance u)(symbol \<mapsto> (source, at_ms))\<rparr>)"

definition absorb_catalog_archive :: "symbol_universe \<Rightarrow> catalog_archive \<Rightarrow> symbol_universe" where
  "absorb_catalog_archive u versions =
     foldl (\<lambda>u v. foldl (admit CatalogSource (cs_captured_at_ms v)) u (cs_symbols v)) u versions"

definition absorb_stream :: "symbol_universe \<Rightarrow> stream_observation list \<Rightarrow> symbol_universe" where
  "absorb_stream u observations = foldl (\<lambda>u ob. admit StreamSource (so_observed_at_ms ob) u (so_symbol ob)) u observations"

definition absorb_known_history :: "symbol_universe \<Rightarrow> string list \<Rightarrow> nat \<Rightarrow> symbol_universe" where
  "absorb_known_history u symbols known_at_ms = foldl (admit KnownHistorySource known_at_ms) u symbols"

definition provenance_of :: "symbol_universe \<Rightarrow> string \<Rightarrow> (universe_source \<times> nat) option" where
  "provenance_of u symbol = su_provenance u symbol"

definition universe_contains :: "symbol_universe \<Rightarrow> string \<Rightarrow> bool" where
  "universe_contains u symbol \<longleftrightarrow> symbol \<in> su_symbols u"

section \<open>The archive is append-only and chronological\<close>

definition chronological :: "catalog_archive \<Rightarrow> bool" where
  "chronological versions \<longleftrightarrow> sorted_wrt (\<lambda>a b. cs_captured_at_ms a < cs_captured_at_ms b) versions"

definition archive_step :: "catalog_archive \<Rightarrow> catalog_snapshot \<Rightarrow> catalog_archive" where
  "archive_step versions s = fst (archive versions s)"

definition version_at :: "catalog_archive \<Rightarrow> nat \<Rightarrow> catalog_snapshot option" where
  "version_at versions i = (if i < length versions then Some (versions ! i) else None)"

interpretation carchive: append_only archive_step version_at
  by unfold_locales (auto simp: archive_step_def archive_def version_at_def nth_append split: if_splits)

lemma archive_chronological:
  assumes "chronological versions"
  shows "chronological (archive_step versions s)"
proof (cases "versions = []")
  case True
  then show ?thesis by (simp add: archive_step_def archive_def chronological_def)
next
  case False
  have before: "cs_captured_at_ms v \<le> cs_captured_at_ms (last versions)" if "v \<in> set versions" for v
  proof -
    have "sorted_wrt (\<lambda>a b. cs_captured_at_ms a < cs_captured_at_ms b) (butlast versions @ [last versions])"
      using assms False by (simp add: chronological_def)
    moreover have "v = last versions \<or> v \<in> set (butlast versions)"
      using that False by (metis append_butlast_last_id in_set_conv_decomp_last rotate1.simps(2) set_ConsD set_rotate1)
    ultimately show ?thesis by (auto simp: sorted_wrt_append)
  qed
  then show ?thesis
    using assms by (auto simp: archive_step_def archive_def chronological_def sorted_wrt_append dest!: before)
qed

lemma run_chronological: "chronological v \<Longrightarrow> chronological (foldl archive_step v ss)"
  by (induction ss arbitrary: v) (simp_all add: archive_chronological)

lemma all_symbols_union: "all_symbols_ever_seen versions = (\<Union>v \<in> set versions. set (cs_symbols v))"
proof -
  have "fold (\<lambda>v acc. acc \<union> set (cs_symbols v)) versions acc = acc \<union> (\<Union>v \<in> set versions. set (cs_symbols v))" for acc
    by (induction versions arbitrary: acc) auto
  then show ?thesis by (simp add: all_symbols_ever_seen_def)
qed

section \<open>The universe is monotone\<close>

text \<open>Every way to grow the universe is a list of admissions.\<close>

datatype universe_op =
    Catalog catalog_archive
  | StreamOp "stream_observation list"
  | KnownHistory "string list" nat

definition universe_step :: "symbol_universe \<Rightarrow> universe_op \<Rightarrow> symbol_universe" where
  "universe_step u op = (case op of
     Catalog versions \<Rightarrow> absorb_catalog_archive u versions
   | StreamOp obs \<Rightarrow> absorb_stream u obs
   | KnownHistory symbols t \<Rightarrow> absorb_known_history u symbols t)"

definition admissions :: "universe_op \<Rightarrow> (universe_source \<times> nat \<times> string) list" where
  "admissions op = (case op of
     Catalog versions \<Rightarrow> concat (map (\<lambda>v. map (\<lambda>s. (CatalogSource, cs_captured_at_ms v, s)) (cs_symbols v)) versions)
   | StreamOp obs \<Rightarrow> map (\<lambda>ob. (StreamSource, so_observed_at_ms ob, so_symbol ob)) obs
   | KnownHistory symbols t \<Rightarrow> map (\<lambda>s. (KnownHistorySource, t, s)) symbols)"

definition admit_one :: "symbol_universe \<Rightarrow> universe_source \<times> nat \<times> string \<Rightarrow> symbol_universe" where
  "admit_one u a = admit (fst a) (fst (snd a)) u (snd (snd a))"

lemma foldl_map: "foldl f u (map g xs) = foldl (\<lambda>u x. f u (g x)) u xs"
  by (induction xs arbitrary: u) simp_all

lemma foldl_concat: "foldl f u (concat xss) = foldl (foldl f) u xss"
  by (induction xss arbitrary: u) simp_all

lemma universe_step_admissions: "universe_step u op = foldl admit_one u (admissions op)"
proof (cases op)
  case (Catalog versions)
  then show ?thesis
    by (simp add: universe_step_def admissions_def absorb_catalog_archive_def foldl_concat foldl_map admit_one_def)
qed (simp_all add: universe_step_def admissions_def absorb_stream_def absorb_known_history_def foldl_map admit_one_def)

lemma run_admissions: "foldl universe_step u ops = foldl admit_one u (concat (map admissions ops))"
  unfolding foldl_concat foldl_map by (rule arg_cong [where f = "\<lambda>f. foldl f u ops"]) (intro ext universe_step_admissions)

lemma admit_provenance:
  assumes "dom (su_provenance u) = su_symbols u"
  shows "dom (su_provenance (admit_one u a)) = su_symbols (admit_one u a)"
    and "su_provenance (admit_one u a) k =
      (case su_provenance u k of Some p \<Rightarrow> Some p
       | None \<Rightarrow> if k = snd (snd a) then Some (fst a, fst (snd a)) else None)"
  using assms by (auto simp: admit_one_def admit_def split: option.splits)

lemma run_provenance:
  assumes "dom (su_provenance u) = su_symbols u"
  shows "dom (su_provenance (foldl admit_one u as)) = su_symbols (foldl admit_one u as) \<and>
    su_provenance (foldl admit_one u as) k =
      (case su_provenance u k of Some p \<Rightarrow> Some p
       | None \<Rightarrow> map_option (\<lambda>a. (fst a, fst (snd a))) (find (\<lambda>a. snd (snd a) = k) as))"
  using assms
proof (induction as arbitrary: u)
  case (Cons a as)
  note step = admit_provenance [OF Cons.prems, of a]
  show ?case
    using Cons.IH [OF step(1)] step(2) [of k] by (cases "su_provenance u k") (auto split: if_splits)
qed (simp split: option.split)

text \<open>The provenance of the symbols in the universe is append-only.\<close>

definition provenance_in :: "symbol_universe \<Rightarrow> string \<Rightarrow> (universe_source \<times> nat) option" where
  "provenance_in u s = (if s \<in> su_symbols u then su_provenance u s else None)"

interpretation univ: append_only universe_step provenance_in
proof
  fix u k v op
  assume a: "provenance_in u k = Some v"
  have one: "provenance_in (admit_one u a) k = Some v" if "provenance_in u k = Some v" for u a
    using that by (auto simp: provenance_in_def admit_one_def admit_def split: if_splits)
  have "provenance_in (foldl admit_one u as) k = Some v" if "provenance_in u k = Some v" for u as
    using that by (induction as arbitrary: u) (simp_all add: one)
  from this [OF a] show "provenance_in (universe_step u op) k = Some v" by (simp add: universe_step_admissions)
qed

section \<open>Properties\<close>

text \<open>
  The archive: after any sequence of \<open>archive\<close> calls the versions are in strictly increasing
  order of capture, every version once archived is still at its position, and the delisted symbols are
  those of some version that the latest one lacks.
\<close>

theorem archive_chronological_append_only:
  "chronological (foldl archive_step [] (xs @ ys)) \<and>
   (\<forall>i v. version_at (foldl archive_step [] xs) i = Some v \<longrightarrow>
     version_at (foldl archive_step [] (xs @ ys)) i = Some v) \<and>
   (foldl archive_step [] xs \<noteq> [] \<longrightarrow>
     delisted_symbols (foldl archive_step [] xs) =
       (\<Union>v \<in> set (foldl archive_step [] xs). set (cs_symbols v)) - set (cs_symbols (last (foldl archive_step [] xs))))"
proof (intro conjI allI impI)
  show "chronological (foldl archive_step [] (xs @ ys))"
    by (rule run_chronological) (simp add: chronological_def)
next
  fix i v
  assume "version_at (foldl archive_step [] xs) i = Some v"
  then show "version_at (foldl archive_step [] (xs @ ys)) i = Some v" by (rule carchive.run_prefix_keeps)
next
  assume "foldl archive_step [] xs \<noteq> []"
  then show "delisted_symbols (foldl archive_step [] xs) =
      (\<Union>v \<in> set (foldl archive_step [] xs). set (cs_symbols v)) - set (cs_symbols (last (foldl archive_step [] xs)))"
    by (simp add: delisted_symbols_def latest_def all_symbols_union)
qed

definition snap :: "nat \<Rightarrow> string list \<Rightarrow> catalog_snapshot" where
  "snap t ss = \<lparr>cs_captured_at_ms = t, cs_symbols = ss\<rparr>"

theorem archive_chronological_append_only_witness:
  "delisted_symbols (foldl archive_step [] [snap 1 [''A'', ''B''], snap 2 [''B'']]) =
    (\<Union>v \<in> set (foldl archive_step [] [snap 1 [''A'', ''B''], snap 2 [''B'']]). set (cs_symbols v)) -
      set (cs_symbols (last (foldl archive_step [] [snap 1 [''A'', ''B''], snap 2 [''B'']])))"
proof -
  have "foldl archive_step [] [snap 1 [''A'', ''B''], snap 2 [''B'']] \<noteq> []"
    by (simp add: archive_step_def archive_def snap_def)
  then show ?thesis using archive_chronological_append_only [of "[snap 1 [''A'', ''B''], snap 2 [''B'']]"] by blast
qed

text \<open>
  The universe is exactly the union of its three sources and never shrinks: after any sequence of
  absorptions a symbol is required iff some archive version, stream observation or history named it,
  its provenance is that of the first admission, and further absorptions change neither.
\<close>

theorem universe_is_union_of_sources:
  "(s \<in> su_symbols (foldl universe_step new_universe ops) \<longleftrightarrow>
     (\<exists>a \<in> set (concat (map admissions ops)). snd (snd a) = s)) \<and>
   provenance_of (foldl universe_step new_universe ops) s =
     map_option (\<lambda>a. (fst a, fst (snd a))) (find (\<lambda>a. snd (snd a) = s) (concat (map admissions ops))) \<and>
   (provenance_in (foldl universe_step new_universe ops) s = Some p \<longrightarrow>
     provenance_in (foldl universe_step new_universe (ops @ ops')) s = Some p)"
proof (intro conjI impI)
  define as where "as = concat (map admissions ops)"
  have run: "foldl universe_step new_universe ops = foldl admit_one new_universe as"
    by (simp add: as_def run_admissions)
  have "dom (su_provenance new_universe) = su_symbols new_universe" by (simp add: new_universe_def)
  from run_provenance [OF this, of as s]
  have dom: "dom (su_provenance (foldl admit_one new_universe as)) = su_symbols (foldl admit_one new_universe as)"
    and prov: "su_provenance (foldl admit_one new_universe as) s =
      map_option (\<lambda>a. (fst a, fst (snd a))) (find (\<lambda>a. snd (snd a) = s) as)"
    by (simp_all add: new_universe_def)
  show "provenance_of (foldl universe_step new_universe ops) s =
      map_option (\<lambda>a. (fst a, fst (snd a))) (find (\<lambda>a. snd (snd a) = s) (concat (map admissions ops)))"
    using prov by (simp add: run provenance_of_def as_def)
  have "s \<in> su_symbols (foldl admit_one new_universe as) \<longleftrightarrow> find (\<lambda>a. snd (snd a) = s) as \<noteq> None"
    unfolding dom [symmetric] dom_def mem_Collect_eq prov by simp
  also have "\<dots> \<longleftrightarrow> (\<exists>a \<in> set as. snd (snd a) = s)" by (simp only: find_None_iff not_not Bex_def)
  finally show "s \<in> su_symbols (foldl universe_step new_universe ops) \<longleftrightarrow>
      (\<exists>a \<in> set (concat (map admissions ops)). snd (snd a) = s)"
    by (simp only: run as_def)
next
  assume "provenance_in (foldl universe_step new_universe ops) s = Some p"
  then show "provenance_in (foldl universe_step new_universe (ops @ ops')) s = Some p"
    by (rule univ.run_prefix_keeps)
qed

theorem universe_is_union_of_sources_witness:
  "provenance_in (foldl universe_step new_universe ([KnownHistory [''A''] 5] @ [Catalog [snap 9 [''A'']]])) ''A'' =
    Some (KnownHistorySource, 5)"
proof -
  have "provenance_in (foldl universe_step new_universe [KnownHistory [''A''] 5]) ''A'' = Some (KnownHistorySource, 5)"
    by (simp add: universe_step_def absorb_known_history_def admit_def new_universe_def provenance_in_def)
  then show ?thesis using universe_is_union_of_sources by blast
qed

end
