(* ===== verification/Flows.thy ===== *)
theory Flows
  imports Prelude
begin

text \<open>
  Normalization of the six Binance flow families (services/collector/binance/flows/src) into one shape
  with legs and a fee. Amounts stay decimal strings. The two policies are the sets the caller supplies.
\<close>

section \<open>common.rs\<close>

datatype flow_family = Deposit | Withdrawal | Transfer | Convert | Dust | Dividend

definition family_name :: "flow_family \<Rightarrow> string" where
  "family_name f = (case f of Deposit \<Rightarrow> ''deposit'' | Withdrawal \<Rightarrow> ''withdrawal'' | Transfer \<Rightarrow> ''transfer''
     | Convert \<Rightarrow> ''convert'' | Dust \<Rightarrow> ''dust'' | Dividend \<Rightarrow> ''dividend'')"

record asset_leg =
  al_asset :: string
  al_amount :: string
  al_is_credit :: bool

definition credit :: "string \<Rightarrow> string \<Rightarrow> asset_leg" where
  "credit asset amount = \<lparr>al_asset = asset, al_amount = amount, al_is_credit = True\<rparr>"

definition debit :: "string \<Rightarrow> string \<Rightarrow> asset_leg" where
  "debit asset amount = \<lparr>al_asset = asset, al_amount = amount, al_is_credit = False\<rparr>"

record normalized_flow =
  nf_source_namespace :: flow_family
  nf_source_id :: string
  nf_economic_time_ms :: nat
  nf_kind :: string
  nf_legs :: "asset_leg list"
  nf_fee :: "asset_leg option"

datatype flow_error = UnknownKind flow_family string

section \<open>The families\<close>

record raw_convert =
  rc_quote_id :: string
  rc_from_asset :: string
  rc_from_amount :: string
  rc_to_asset :: string
  rc_to_amount :: string
  rc_status :: string
  rc_create_time_ms :: nat

definition classify_convert :: "string \<Rightarrow> string option" where
  "classify_convert status =
     (if status = ''SUCCESS'' then Some ''Completed'' else if status = ''PROCESS'' then Some ''Requested''
      else if status = ''FAIL'' then Some ''Failed'' else None)"

definition normalize_convert :: "raw_convert \<Rightarrow> flow_error + normalized_flow" where
  "normalize_convert raw =
     and_then (ok_or (UnknownKind Convert (rc_status raw)) (classify_convert (rc_status raw))) (\<lambda>kind.
       Inr \<lparr>nf_source_namespace = Convert, nf_source_id = rc_quote_id raw,
         nf_economic_time_ms = rc_create_time_ms raw, nf_kind = kind,
         nf_legs = (if kind = ''Completed''
           then [debit (rc_from_asset raw) (rc_from_amount raw), credit (rc_to_asset raw) (rc_to_amount raw)] else []),
         nf_fee = None\<rparr>)"

record raw_deposit =
  rd_tx_id :: string
  rd_asset :: string
  rd_amount :: string
  rd_status :: nat
  rd_insert_time_ms :: nat

definition classify_deposit :: "nat \<Rightarrow> string option" where
  "classify_deposit code =
     (if code = 0 then Some ''Pending'' else if code = 6 then Some ''Credited''
      else if code = 1 then Some ''Credited'' else if code = 2 then Some ''Pending''
      else if code = 7 then Some ''WrongDeposit'' else if code = 8 then Some ''Pending'' else None)"

definition normalize_deposit :: "raw_deposit \<Rightarrow> flow_error + normalized_flow" where
  "normalize_deposit raw =
     and_then (ok_or (UnknownKind Deposit (show_nat (rd_status raw))) (classify_deposit (rd_status raw))) (\<lambda>kind.
       Inr \<lparr>nf_source_namespace = Deposit, nf_source_id = rd_tx_id raw,
         nf_economic_time_ms = rd_insert_time_ms raw, nf_kind = kind,
         nf_legs = (if kind = ''Credited'' then [credit (rd_asset raw) (rd_amount raw)] else []),
         nf_fee = None\<rparr>)"

type_synonym dividend_policy = "string set"

definition allow_reason :: "dividend_policy \<Rightarrow> string \<Rightarrow> dividend_policy" where
  "allow_reason p reason = insert reason p"

record raw_dividend =
  rv_id :: string
  rv_asset :: string
  rv_amount :: string
  rv_reason :: string
  rv_div_time_ms :: nat

definition normalize_dividend :: "raw_dividend \<Rightarrow> dividend_policy \<Rightarrow> flow_error + normalized_flow" where
  "normalize_dividend raw policy =
     (if rv_reason raw \<notin> policy then Inl (UnknownKind Dividend (rv_reason raw))
      else Inr \<lparr>nf_source_namespace = Dividend, nf_source_id = rv_id raw,
         nf_economic_time_ms = rv_div_time_ms raw, nf_kind = rv_reason raw,
         nf_legs = [credit (rv_asset raw) (rv_amount raw)], nf_fee = None\<rparr>)"

record raw_dust_detail =
  dd_from_asset :: string
  dd_amount :: string

record raw_dust =
  ru_dribblet_id :: string
  ru_to_asset :: string
  ru_total_transferred :: string
  ru_total_service_charge :: string
  ru_details :: "raw_dust_detail list"
  ru_operate_time_ms :: nat

definition normalize_dust :: "raw_dust \<Rightarrow> flow_error + normalized_flow" where
  "normalize_dust raw =
     (if ru_details raw = [] then Inl (UnknownKind Dust ''empty details'')
      else Inr \<lparr>nf_source_namespace = Dust, nf_source_id = ru_dribblet_id raw,
         nf_economic_time_ms = ru_operate_time_ms raw, nf_kind = ''Completed'',
         nf_legs = map (\<lambda>d. debit (dd_from_asset d) (dd_amount d)) (ru_details raw)
           @ [credit (ru_to_asset raw) (ru_total_transferred raw)],
         nf_fee = (if ru_total_service_charge raw \<noteq> ''0'' \<and> ru_total_service_charge raw \<noteq> ''''
           then Some (debit (ru_to_asset raw) (ru_total_service_charge raw)) else None)\<rparr>)"

datatype transfer_direction = IntoSpot | OutOfSpot

type_synonym transfer_policy = "string \<Rightarrow> transfer_direction option"

definition allow_type :: "transfer_policy \<Rightarrow> string \<Rightarrow> transfer_direction \<Rightarrow> transfer_policy" where
  "allow_type p type_code direction = p(type_code \<mapsto> direction)"

record raw_transfer =
  rt_tran_id :: string
  rt_asset :: string
  rt_amount :: string
  rt_transfer_type :: string
  rt_timestamp_ms :: nat

definition normalize_transfer :: "raw_transfer \<Rightarrow> transfer_policy \<Rightarrow> flow_error + normalized_flow" where
  "normalize_transfer raw policy =
     and_then (ok_or (UnknownKind Transfer (rt_transfer_type raw)) (policy (rt_transfer_type raw))) (\<lambda>direction.
       Inr \<lparr>nf_source_namespace = Transfer, nf_source_id = rt_tran_id raw,
         nf_economic_time_ms = rt_timestamp_ms raw, nf_kind = rt_transfer_type raw,
         nf_legs = [case direction of
             IntoSpot \<Rightarrow> credit (rt_asset raw) (rt_amount raw) | OutOfSpot \<Rightarrow> debit (rt_asset raw) (rt_amount raw)],
         nf_fee = None\<rparr>)"

record raw_withdrawal =
  rw_id :: string
  rw_asset :: string
  rw_amount :: string
  rw_transaction_fee :: string
  rw_status :: nat
  rw_apply_time_ms :: nat

definition classify_withdrawal :: "nat \<Rightarrow> string option" where
  "classify_withdrawal code =
     (if code = 0 then Some ''Requested'' else if code = 2 then Some ''Requested''
      else if code = 4 then Some ''Requested'' else if code = 6 then Some ''Completed''
      else if code = 1 then Some ''Reversed'' else if code = 3 then Some ''Failed''
      else if code = 5 then Some ''Failed'' else None)"

definition normalize_withdrawal :: "raw_withdrawal \<Rightarrow> flow_error + normalized_flow" where
  "normalize_withdrawal raw =
     and_then (ok_or (UnknownKind Withdrawal (show_nat (rw_status raw))) (classify_withdrawal (rw_status raw))) (\<lambda>kind.
       let legs_fee =
         (if kind = ''Completed''
          then ([debit (rw_asset raw) (rw_amount raw)],
            if rw_transaction_fee raw \<noteq> ''0'' \<and> rw_transaction_fee raw \<noteq> ''''
            then Some (debit (rw_asset raw) (rw_transaction_fee raw)) else None)
          else ([], None))
       in Inr \<lparr>nf_source_namespace = Withdrawal, nf_source_id = rw_id raw,
         nf_economic_time_ms = rw_apply_time_ms raw, nf_kind = kind,
         nf_legs = fst legs_fee, nf_fee = snd legs_fee\<rparr>)"

section \<open>Properties\<close>

text \<open>The six normalizers on one input type.\<close>

datatype raw_flow =
    RawDeposit raw_deposit
  | RawWithdrawal raw_withdrawal
  | RawTransfer raw_transfer
  | RawConvert raw_convert
  | RawDust raw_dust
  | RawDividend raw_dividend

definition normalize :: "transfer_policy \<Rightarrow> dividend_policy \<Rightarrow> raw_flow \<Rightarrow> flow_error + normalized_flow" where
  "normalize tp dp raw = (case raw of
     RawDeposit r \<Rightarrow> normalize_deposit r | RawWithdrawal r \<Rightarrow> normalize_withdrawal r
   | RawTransfer r \<Rightarrow> normalize_transfer r tp | RawConvert r \<Rightarrow> normalize_convert r
   | RawDust r \<Rightarrow> normalize_dust r | RawDividend r \<Rightarrow> normalize_dividend r dp)"

text \<open>A flow that has moved money: the venue says so, or the family has no pending state.\<close>

definition settled :: "raw_flow \<Rightarrow> bool" where
  "settled raw = (case raw of
     RawDeposit r \<Rightarrow> rd_status r = 1 \<or> rd_status r = 6
   | RawWithdrawal r \<Rightarrow> rw_status r = 6
   | RawConvert r \<Rightarrow> rc_status r = ''SUCCESS''
   | _ \<Rightarrow> True)"

definition credits :: "normalized_flow \<Rightarrow> asset_leg list" where
  "credits f = filter al_is_credit (nf_legs f)"

definition debits :: "normalized_flow \<Rightarrow> asset_leg list" where
  "debits f = filter (\<lambda>l. \<not> al_is_credit l) (nf_legs f)"

lemma settled_kinds:
  "classify_deposit n = Some ''Credited'' \<longleftrightarrow> n = 1 \<or> n = 6"
  "classify_withdrawal n = Some ''Completed'' \<longleftrightarrow> n = 6"
  "classify_convert s = Some ''Completed'' \<longleftrightarrow> s = ''SUCCESS''"
  by (auto simp: classify_deposit_def classify_withdrawal_def classify_convert_def)

text \<open>
  A normalized flow moves assets exactly when it has settled: its legs are empty iff the record is
  not settled; the fee, where there is one, is a debit of a settled flow; a deposit and a dividend only
  credit, a withdrawal only debits, and a conversion that has legs has one debit and one credit.
\<close>

theorem flow_moves_iff_settled:
  assumes "normalize tp dp raw = Inr f"
  shows "(nf_legs f \<noteq> [] \<longleftrightarrow> settled raw) \<and>
    (case nf_fee f of None \<Rightarrow> True | Some fee \<Rightarrow> \<not> al_is_credit fee \<and> settled raw) \<and>
    (case raw of
       RawDeposit r \<Rightarrow> debits f = [] \<and> (settled raw \<longrightarrow> credits f = [credit (rd_asset r) (rd_amount r)])
     | RawWithdrawal r \<Rightarrow> credits f = [] \<and> (settled raw \<longrightarrow> debits f = [debit (rw_asset r) (rw_amount r)])
     | RawTransfer r \<Rightarrow> length (nf_legs f) = 1
     | RawConvert r \<Rightarrow> settled raw \<longrightarrow>
         debits f = [debit (rc_from_asset r) (rc_from_amount r)] \<and> credits f = [credit (rc_to_asset r) (rc_to_amount r)]
     | RawDust r \<Rightarrow> length (debits f) = length (ru_details r) \<and>
         credits f = [credit (ru_to_asset r) (ru_total_transferred r)]
     | RawDividend r \<Rightarrow> debits f = [] \<and> credits f = [credit (rv_asset r) (rv_amount r)])"
proof (cases raw)
  case (RawDeposit r)
  then obtain k where k: "classify_deposit (rd_status r) = Some k"
    and f: "nf_legs f = (if k = ''Credited'' then [credit (rd_asset r) (rd_amount r)] else [])" "nf_fee f = None"
    using assms by (auto simp: normalize_def normalize_deposit_def)
  have "k = ''Credited'' \<longleftrightarrow> settled raw" using settled_kinds(1) [of "rd_status r"] k RawDeposit by (auto simp: settled_def)
  then show ?thesis using f RawDeposit by (simp add: debits_def credits_def credit_def)
next
  case (RawWithdrawal r)
  then obtain k where k: "classify_withdrawal (rw_status r) = Some k"
    and f: "nf_legs f = (if k = ''Completed'' then [debit (rw_asset r) (rw_amount r)] else [])"
      "nf_fee f = (if k = ''Completed'' \<and> rw_transaction_fee r \<noteq> ''0'' \<and> rw_transaction_fee r \<noteq> ''''
         then Some (debit (rw_asset r) (rw_transaction_fee r)) else None)"
    using assms by (auto simp: normalize_def normalize_withdrawal_def Let_def split: if_splits)
  have "k = ''Completed'' \<longleftrightarrow> settled raw" using settled_kinds(2) [of "rw_status r"] k RawWithdrawal by (auto simp: settled_def)
  then show ?thesis using f RawWithdrawal by (simp add: debits_def credits_def debit_def)
next
  case (RawTransfer r)
  then show ?thesis using assms by (auto simp: normalize_def normalize_transfer_def settled_def)
next
  case (RawConvert r)
  then obtain k where k: "classify_convert (rc_status r) = Some k"
    and f: "nf_legs f = (if k = ''Completed''
      then [debit (rc_from_asset r) (rc_from_amount r), credit (rc_to_asset r) (rc_to_amount r)] else [])" "nf_fee f = None"
    using assms by (auto simp: normalize_def normalize_convert_def)
  have "k = ''Completed'' \<longleftrightarrow> settled raw" using settled_kinds(3) [of "rc_status r"] k RawConvert by (auto simp: settled_def)
  then show ?thesis using f RawConvert by (simp add: debits_def credits_def debit_def credit_def)
next
  case (RawDust r)
  have "filter al_is_credit (map (\<lambda>d. debit (dd_from_asset d) (dd_amount d)) ds) = []"
    "length (filter (\<lambda>l. \<not> al_is_credit l) (map (\<lambda>d. debit (dd_from_asset d) (dd_amount d)) ds)) = length ds" for ds
    by (induction ds) (simp_all add: debit_def)
  then show ?thesis
    using assms RawDust by (auto simp: normalize_def normalize_dust_def settled_def debits_def credits_def credit_def
      debit_def split: if_splits)
next
  case (RawDividend r)
  then show ?thesis
    using assms by (auto simp: normalize_def normalize_dividend_def settled_def debits_def credits_def credit_def split: if_splits)
qed

theorem flow_moves_iff_settled_witness:
  "nf_legs \<lparr>nf_source_namespace = Deposit, nf_source_id = ''tx'', nf_economic_time_ms = 9, nf_kind = ''Pending'',
     nf_legs = [], nf_fee = None\<rparr> = [] \<and>
   \<not> settled (RawDeposit \<lparr>rd_tx_id = ''tx'', rd_asset = ''BTC'', rd_amount = ''1'', rd_status = 0, rd_insert_time_ms = 9\<rparr>)"
proof -
  have "normalize Map.empty {} (RawDeposit \<lparr>rd_tx_id = ''tx'', rd_asset = ''BTC'', rd_amount = ''1'', rd_status = 0,
      rd_insert_time_ms = 9\<rparr>) = Inr \<lparr>nf_source_namespace = Deposit, nf_source_id = ''tx'', nf_economic_time_ms = 9,
      nf_kind = ''Pending'', nf_legs = [], nf_fee = None\<rparr>"
    by (simp add: normalize_def normalize_deposit_def classify_deposit_def)
  from flow_moves_iff_settled [OF this] show ?thesis by simp
qed

text \<open>
  Unknown codes fail closed: a status, type or reason outside the documented codes or the caller's
  policy is an error that names the family and the code, for every family, and no flow is produced.
\<close>

theorem unknown_flow_fails_closed:
  "(rd_status d \<notin> {0, 1, 2, 6, 7, 8} \<longleftrightarrow>
      normalize tp dp (RawDeposit d) = Inl (UnknownKind Deposit (show_nat (rd_status d)))) \<and>
   (rw_status w \<notin> {0, 1, 2, 3, 4, 5, 6} \<longleftrightarrow>
      normalize tp dp (RawWithdrawal w) = Inl (UnknownKind Withdrawal (show_nat (rw_status w)))) \<and>
   (rc_status c \<notin> {''SUCCESS'', ''PROCESS'', ''FAIL''} \<longleftrightarrow>
      normalize tp dp (RawConvert c) = Inl (UnknownKind Convert (rc_status c))) \<and>
   (tp (rt_transfer_type t) = None \<longleftrightarrow>
      normalize tp dp (RawTransfer t) = Inl (UnknownKind Transfer (rt_transfer_type t))) \<and>
   (rv_reason v \<notin> dp \<longleftrightarrow> normalize tp dp (RawDividend v) = Inl (UnknownKind Dividend (rv_reason v)))"
proof (intro conjI)
  show "rd_status d \<notin> {0, 1, 2, 6, 7, 8} \<longleftrightarrow>
      normalize tp dp (RawDeposit d) = Inl (UnknownKind Deposit (show_nat (rd_status d)))"
    by (auto simp: normalize_def normalize_deposit_def classify_deposit_def)
  show "rw_status w \<notin> {0, 1, 2, 3, 4, 5, 6} \<longleftrightarrow>
      normalize tp dp (RawWithdrawal w) = Inl (UnknownKind Withdrawal (show_nat (rw_status w)))"
    by (auto simp: normalize_def normalize_withdrawal_def classify_withdrawal_def Let_def)
  show "rc_status c \<notin> {''SUCCESS'', ''PROCESS'', ''FAIL''} \<longleftrightarrow>
      normalize tp dp (RawConvert c) = Inl (UnknownKind Convert (rc_status c))"
    by (auto simp: normalize_def normalize_convert_def classify_convert_def)
  show "tp (rt_transfer_type t) = None \<longleftrightarrow>
      normalize tp dp (RawTransfer t) = Inl (UnknownKind Transfer (rt_transfer_type t))"
    by (cases "tp (rt_transfer_type t)") (simp_all add: normalize_def normalize_transfer_def)
  show "rv_reason v \<notin> dp \<longleftrightarrow> normalize tp dp (RawDividend v) = Inl (UnknownKind Dividend (rv_reason v))"
    by (simp add: normalize_def normalize_dividend_def)
qed

end
