(* ===== verification/Prices.thy ===== *)
theory Prices
  imports Prelude
begin

text \<open>
  Valuation marks from closed candles (services/collector/binance/prices/src). \<open>max_by_key\<close> of the
  standard library returns the last of several maximal elements; \<open>pick\<close> writes that out. The
  subtraction in \<open>resolve_mark\<close> is guarded by the checks before it.
\<close>

record candle =
  ca_symbol :: string
  ca_open_time_ms :: nat
  ca_close_time_ms :: nat
  ca_close_price :: string
  ca_is_closed :: bool

record price_policy =
  max_age_ms :: nat

definition reference_policy :: price_policy where
  "reference_policy = \<lparr>max_age_ms = 120000\<rparr>"

record mark =
  mk_symbol :: string
  mk_price :: string
  mk_candle_close_time_ms :: nat
  mk_evaluated_at_ms :: nat
  mk_age_ms :: nat

datatype mark_error =
    MissingPrice string nat
  | CandleNotClosed string
  | CandleInTheFuture string nat nat
  | CandleTooOld string nat nat

definition pick :: "candle option \<Rightarrow> candle \<Rightarrow> candle option" where
  "pick best c = (case best of None \<Rightarrow> Some c
     | Some b \<Rightarrow> if ca_close_time_ms b \<le> ca_close_time_ms c then Some c else Some b)"

definition select_candle :: "candle list \<Rightarrow> nat \<Rightarrow> candle option" where
  "select_candle candles evaluated_at_ms =
     foldl pick None (filter (\<lambda>c. ca_is_closed c \<and> ca_close_time_ms c \<le> evaluated_at_ms) candles)"

definition resolve_mark :: "string \<Rightarrow> candle option \<Rightarrow> nat \<Rightarrow> price_policy \<Rightarrow> mark_error + mark" where
  "resolve_mark symbol candle evaluated_at_ms policy =
     and_then (ok_or (MissingPrice symbol evaluated_at_ms) candle) (\<lambda>c.
       if \<not> ca_is_closed c then Inl (CandleNotClosed symbol)
       else if ca_close_time_ms c > evaluated_at_ms
         then Inl (CandleInTheFuture symbol evaluated_at_ms (ca_close_time_ms c))
       else
         let age_ms = evaluated_at_ms - ca_close_time_ms c in
         if age_ms > max_age_ms policy then Inl (CandleTooOld symbol age_ms (max_age_ms policy))
         else Inr \<lparr>mk_symbol = symbol, mk_price = ca_close_price c,
           mk_candle_close_time_ms = ca_close_time_ms c, mk_evaluated_at_ms = evaluated_at_ms, mk_age_ms = age_ms\<rparr>)"

definition mark_from_series :: "string \<Rightarrow> candle list \<Rightarrow> nat \<Rightarrow> price_policy \<Rightarrow> mark_error + mark" where
  "mark_from_series symbol candles evaluated_at_ms policy =
     resolve_mark symbol (select_candle candles evaluated_at_ms) evaluated_at_ms policy"

lemma pick_fold:
  "case foldl pick best cs of
     None \<Rightarrow> best = None \<and> cs = []
   | Some c \<Rightarrow> (c \<in> set cs \<or> best = Some c) \<and> (\<forall>d \<in> set cs. ca_close_time_ms d \<le> ca_close_time_ms c) \<and>
       (case best of None \<Rightarrow> True | Some b \<Rightarrow> ca_close_time_ms b \<le> ca_close_time_ms c)"
proof (induction cs arbitrary: best)
  case (Cons d cs)
  obtain p where p: "pick best d = Some p" and pc: "p = d \<or> best = Some p"
    and pm: "ca_close_time_ms d \<le> ca_close_time_ms p" "case best of None \<Rightarrow> True | Some b \<Rightarrow> ca_close_time_ms b \<le> ca_close_time_ms p"
  proof (cases best)
    case (Some b)
    show ?thesis
      by (rule that [of "if ca_close_time_ms b \<le> ca_close_time_ms d then d else b"]) (simp_all add: Some pick_def)
  qed (simp add: pick_def)
  obtain c where c: "foldl pick (Some p) cs = Some c"
    using Cons.IH [of "Some p"] by (cases "foldl pick (Some p) cs") auto
  then have "(c \<in> set cs \<or> p = c) \<and> (\<forall>e \<in> set cs. ca_close_time_ms e \<le> ca_close_time_ms c) \<and> ca_close_time_ms p \<le> ca_close_time_ms c"
    using Cons.IH [of "Some p"] by simp
  then show ?case using p c pc pm by (auto split: option.splits)
qed (simp split: option.split)

lemma select_candle_latest:
  "case select_candle candles t of
     None \<Rightarrow> \<forall>c \<in> set candles. ca_is_closed c \<longrightarrow> t < ca_close_time_ms c
   | Some c \<Rightarrow> c \<in> set candles \<and> ca_is_closed c \<and> ca_close_time_ms c \<le> t \<and>
       (\<forall>d \<in> set candles. ca_is_closed d \<and> ca_close_time_ms d \<le> t \<longrightarrow> ca_close_time_ms d \<le> ca_close_time_ms c)"
  using pick_fold [of None "filter (\<lambda>c. ca_is_closed c \<and> ca_close_time_ms c \<le> t) candles"]
  by (auto simp: select_candle_def filter_empty_conv not_le split: option.splits)

text \<open>
  A mark is the close of the most recent candle that was closed at the instant of evaluation: never
  an open or a future candle, never older than the policy allows, and with that candle's own price. The
  evaluation fails only for a missing price, when no candle had closed by then, or for one too old.
\<close>

theorem mark_is_latest_closed:
  "case mark_from_series symbol candles t policy of
     Inr m \<Rightarrow> mk_age_ms m \<le> max_age_ms policy \<and> mk_candle_close_time_ms m + mk_age_ms m = t \<and>
       (\<exists>c \<in> set candles. ca_is_closed c \<and> mk_candle_close_time_ms m = ca_close_time_ms c \<and> mk_price m = ca_close_price c) \<and>
       (\<forall>d \<in> set candles. ca_is_closed d \<and> ca_close_time_ms d \<le> t \<longrightarrow> ca_close_time_ms d \<le> mk_candle_close_time_ms m)
   | Inl e \<Rightarrow>
       e = MissingPrice symbol t \<and> (\<forall>c \<in> set candles. ca_is_closed c \<longrightarrow> t < ca_close_time_ms c) \<or>
       (\<exists>age. e = CandleTooOld symbol age (max_age_ms policy) \<and> max_age_ms policy < age \<and>
         (\<forall>c \<in> set candles. ca_is_closed c \<and> ca_close_time_ms c \<le> t \<longrightarrow> ca_close_time_ms c + age \<le> t))"
proof (cases "select_candle candles t")
  case None
  then show ?thesis using select_candle_latest [of candles t] by (simp add: mark_from_series_def resolve_mark_def)
next
  case (Some c)
  then have c: "c \<in> set candles" "ca_is_closed c" "ca_close_time_ms c \<le> t"
    and top: "\<forall>d \<in> set candles. ca_is_closed d \<and> ca_close_time_ms d \<le> t \<longrightarrow> ca_close_time_ms d \<le> ca_close_time_ms c"
    using select_candle_latest [of candles t] by simp_all
  show ?thesis
  proof (cases "t - ca_close_time_ms c > max_age_ms policy")
    case True
    have "\<forall>d \<in> set candles. ca_is_closed d \<and> ca_close_time_ms d \<le> t \<longrightarrow> ca_close_time_ms d + (t - ca_close_time_ms c) \<le> t"
      using top c(3) by fastforce
    then show ?thesis using True Some c by (simp add: mark_from_series_def resolve_mark_def)
  next
    case False
    then show ?thesis using Some c top by (auto simp: mark_from_series_def resolve_mark_def Let_def)
  qed
qed

definition sample_candles :: "candle list" where
  "sample_candles = map (\<lambda>(t, p, c). \<lparr>ca_symbol = ''BTCUSDT'', ca_open_time_ms = t - 60000, ca_close_time_ms = t,
     ca_close_price = p, ca_is_closed = c\<rparr>) [(60000, ''100'', True), (120000, ''101'', True), (180000, ''102'', False)]"

theorem mark_is_latest_closed_witness:
  "ca_is_closed (hd sample_candles) \<and> ca_close_time_ms (hd sample_candles) \<le> 120000"
proof -
  have "mark_from_series ''BTCUSDT'' sample_candles 190000 reference_policy =
      Inr \<lparr>mk_symbol = ''BTCUSDT'', mk_price = ''101'', mk_candle_close_time_ms = 120000, mk_evaluated_at_ms = 190000,
        mk_age_ms = 70000\<rparr>"
    by (simp add: mark_from_series_def resolve_mark_def select_candle_def sample_candles_def pick_def reference_policy_def)
  then show ?thesis
    using mark_is_latest_closed [where symbol = "''BTCUSDT''" and candles = sample_candles and t = 190000
      and policy = reference_policy]
    by (simp add: sample_candles_def)
qed

end
