(* ===== verification/Valuations.thy ===== *)
theory Valuations
  imports Decimal
begin

text \<open>
  Valuation at a common cut (crates/domain/valuation/src): quantities are reconstructed from a balance
  snapshot and the ledger deltas around it, then priced. The plain decimal operators panic on
  overflow, the outer \<open>None\<close>.
\<close>

section \<open>reconstruct.rs\<close>

record balance_snapshot =
  bs_free :: decimal
  bs_locked :: decimal
  bs_observed_at_ms :: nat

definition total :: "arith \<Rightarrow> balance_snapshot \<Rightarrow> decimal option" where
  "total A s = dadd A (bs_free s) (bs_locked s)"

record timed_delta =
  td_time_ms :: nat
  td_delta :: decimal

datatype reconstruct_error = AmbiguousOrdering nat nat

definition reconstruct_quantity ::
    "arith \<Rightarrow> balance_snapshot \<Rightarrow> timed_delta list \<Rightarrow> nat \<Rightarrow> (reconstruct_error + decimal) option" where
  "reconstruct_quantity A s events cut_ms =
     (case find (\<lambda>e. td_time_ms e = bs_observed_at_ms s) events of
        Some e \<Rightarrow> Some (Inl (AmbiguousOrdering (td_time_ms e) (bs_observed_at_ms s)))
      | None \<Rightarrow>
          Option.bind (total A s) (\<lambda>quantity.
          map_option Inr
            (if cut_ms \<ge> bs_observed_at_ms s
             then try_fold (\<lambda>q e. if td_time_ms e > bs_observed_at_ms s \<and> td_time_ms e \<le> cut_ms
                    then dadd A q (td_delta e) else Some q) quantity events
             else try_fold (\<lambda>q e. if td_time_ms e > cut_ms \<and> td_time_ms e \<le> bs_observed_at_ms s
                    then dsub A q (td_delta e) else Some q) quantity events)))"

section \<open>valuation.rs\<close>

datatype valuation_error = AmbiguousAsset string reconstruct_error | UnsupportedAsset string

record asset_valuation =
  av_asset :: string
  av_quantity :: decimal
  av_price :: decimal
  av_value :: decimal

record valuation =
  va_cut_ms :: nat
  va_assets :: "asset_valuation list"
  va_nav :: decimal

record asset_input =
  in_asset :: string
  in_snapshot :: balance_snapshot
  in_events :: "timed_delta list"

text \<open>The loop of \<open>value_at_cut\<close>, with the assets valued so far and the running NAV.\<close>

fun value_from ::
    "arith \<Rightarrow> (string \<Rightarrow> decimal option) \<Rightarrow> nat \<Rightarrow> asset_valuation list \<Rightarrow> decimal \<Rightarrow> asset_input list \<Rightarrow>
      (valuation_error + valuation) option" where
  "value_from A prices cut_ms vs nav [] = Some (Inr \<lparr>va_cut_ms = cut_ms, va_assets = vs, va_nav = nav\<rparr>)"
| "value_from A prices cut_ms vs nav (i # inputs) =
     and_thenp (map_option (map_err (AmbiguousAsset (in_asset i)))
         (reconstruct_quantity A (in_snapshot i) (in_events i) cut_ms)) (\<lambda>quantity.
     and_thenp (Some (ok_or (UnsupportedAsset (in_asset i)) (prices (in_asset i)))) (\<lambda>price.
     Option.bind (dmul A quantity price) (\<lambda>v.
     Option.bind (dadd A nav v) (\<lambda>nav'.
       value_from A prices cut_ms
         (vs @ [\<lparr>av_asset = in_asset i, av_quantity = quantity, av_price = price, av_value = v\<rparr>]) nav' inputs))))"

definition value_at_cut ::
    "arith \<Rightarrow> asset_input list \<Rightarrow> (string \<Rightarrow> decimal option) \<Rightarrow> nat \<Rightarrow> (valuation_error + valuation) option" where
  "value_at_cut A inputs prices cut_ms = value_from A prices cut_ms [] 0 inputs"

section \<open>Reconstruction without rounding\<close>

text \<open>The movement of an asset between two instants, after the first and up to the second.\<close>

definition moved :: "timed_delta list \<Rightarrow> nat \<Rightarrow> nat \<Rightarrow> decimal" where
  "moved events a b = (\<Sum>e\<leftarrow>filter (\<lambda>e. a < td_time_ms e \<and> td_time_ms e \<le> b) events. td_delta e)"

definition unambiguous :: "balance_snapshot \<Rightarrow> timed_delta list \<Rightarrow> bool" where
  "unambiguous s events \<longleftrightarrow> list_all (\<lambda>e. td_time_ms e \<noteq> bs_observed_at_ms s) events"

lemma moved_empty [simp]: "b \<le> a \<Longrightarrow> moved events a b = 0"
  by (induction events) (auto simp: moved_def)

text \<open>The net movement between two instants in either order.\<close>

lemma moved_net:
  "moved events a b - moved events b a =
    (\<Sum>e\<leftarrow>filter (\<lambda>e. td_time_ms e \<le> b) events. td_delta e) - (\<Sum>e\<leftarrow>filter (\<lambda>e. td_time_ms e \<le> a) events. td_delta e)"
  by (induction events) (auto simp: moved_def algebra_simps)

lemma add_fold_exact:
  "try_fold (\<lambda>q e. if td_time_ms e > a \<and> td_time_ms e \<le> b then dadd exact_arith q (td_delta e) else Some q) q events
    = Some (q + moved events a b)"
  by (induction events arbitrary: q) (auto simp: moved_def)

lemma sub_fold_exact:
  "try_fold (\<lambda>q e. if td_time_ms e > a \<and> td_time_ms e \<le> b then dsub exact_arith q (td_delta e) else Some q) q events
    = Some (q - moved events a b)"
  by (induction events arbitrary: q) (auto simp: moved_def)

lemma reconstruct_exact:
  "reconstruct_quantity exact_arith s events cut_ms =
    (if unambiguous s events
     then Some (Inr (bs_free s + bs_locked s + moved events (bs_observed_at_ms s) cut_ms
        - moved events cut_ms (bs_observed_at_ms s)))
     else Some (Inl (AmbiguousOrdering (bs_observed_at_ms s) (bs_observed_at_ms s))))"
proof (cases "find (\<lambda>e. td_time_ms e = bs_observed_at_ms s) events")
  case None
  then have "unambiguous s events" by (auto simp: unambiguous_def list_all_iff find_None_iff)
  then show ?thesis
    using None by (simp add: reconstruct_quantity_def total_def add_fold_exact sub_fold_exact)
next
  case (Some e)
  then have "td_time_ms e = bs_observed_at_ms s" "e \<in> set events" by (auto simp: find_Some_iff)
  then show ?thesis using Some by (auto simp: reconstruct_quantity_def unambiguous_def list_all_iff)
qed

text \<open>A valued asset agrees with its input; a valuation that succeeds has valued every input.\<close>

definition valued :: "(string \<Rightarrow> decimal option) \<Rightarrow> nat \<Rightarrow> asset_input \<Rightarrow> asset_valuation \<Rightarrow> bool" where
  "valued prices t i av \<longleftrightarrow> av_asset av = in_asset i \<and>
     reconstruct_quantity exact_arith (in_snapshot i) (in_events i) t = Some (Inr (av_quantity av)) \<and>
     prices (in_asset i) = Some (av_price av) \<and> av_value av = av_quantity av * av_price av"

lemma value_from_exact:
  "value_from exact_arith prices t vs nav inputs = Some (Inr v) \<longleftrightarrow>
    (\<exists>avs. list_all2 (valued prices t) inputs avs \<and>
      v = \<lparr>va_cut_ms = t, va_assets = vs @ avs, va_nav = nav + (\<Sum>av\<leftarrow>avs. av_value av)\<rparr>)"
proof (induction inputs arbitrary: vs nav)
  case (Cons i inputs)
  have "value_from exact_arith prices t vs nav (i # inputs) = Some (Inr v) \<longleftrightarrow>
      (\<exists>av. valued prices t i av \<and>
        value_from exact_arith prices t (vs @ [av]) (nav + av_value av) inputs = Some (Inr v))"
  proof (cases "reconstruct_quantity exact_arith (in_snapshot i) (in_events i) t")
    case (Some r)
    have av: "valued prices t i av \<longleftrightarrow> r = Inr (av_quantity av) \<and> prices (in_asset i) = Some (av_price av) \<and>
        av = \<lparr>av_asset = in_asset i, av_quantity = av_quantity av, av_price = av_price av,
          av_value = av_quantity av * av_price av\<rparr>" for av
      using Some by (cases av) (auto simp: valued_def)
    show ?thesis
    proof (cases "\<exists>q p. r = Inr q \<and> prices (in_asset i) = Some p")
      case True
      then obtain q p where qp: "r = Inr q" "prices (in_asset i) = Some p" by blast
      then have "valued prices t i x \<longleftrightarrow> x = \<lparr>av_asset = in_asset i, av_quantity = q, av_price = p, av_value = q * p\<rparr>" for x
        using av by (cases x) auto
      then show ?thesis using Some qp by simp
    next
      case False
      then show ?thesis using Some av by (cases r) (auto split: option.splits)
    qed
  qed (simp add: valued_def)
  then show ?case by (auto simp: Cons.IH list_all2_Cons1 add.assoc)
qed auto

section \<open>Properties\<close>

text \<open>
  C19. Reconstruction is a consistent timeline: the quantity at a later cut is that at an earlier one
  plus the deltas between them, whether the cuts lie before, around or after the snapshot; and it does
  not depend on which snapshot is used, as long as that snapshot agrees with the timeline. An event at
  the instant of the snapshot is always refused.
\<close>

theorem reconstruction_is_timeline:
  assumes "unambiguous s events" and "a \<le> b"
  shows "\<exists>qa qb. reconstruct_quantity exact_arith s events a = Some (Inr qa) \<and>
    reconstruct_quantity exact_arith s events b = Some (Inr qb) \<and> qb = qa + moved events a b \<and>
    (\<forall>s'. unambiguous s' events \<and>
      reconstruct_quantity exact_arith s events (bs_observed_at_ms s') = Some (Inr (bs_free s' + bs_locked s')) \<longrightarrow>
      reconstruct_quantity exact_arith s' events b = Some (Inr qb)) \<and>
    (\<forall>e. td_time_ms e = bs_observed_at_ms s \<longrightarrow>
      reconstruct_quantity exact_arith s (e # events) a =
        Some (Inl (AmbiguousOrdering (bs_observed_at_ms s) (bs_observed_at_ms s))))"
proof -
  define net where "net x y = moved events x y - moved events y x" for x y
  have chain: "net x y + net y z = net x z" for x y z
    unfolding net_def moved_net by simp
  have q: "unambiguous u events \<Longrightarrow> reconstruct_quantity exact_arith u events c =
      Some (Inr (bs_free u + bs_locked u + net (bs_observed_at_ms u) c))" for u c
    by (simp add: reconstruct_exact net_def)
  have "net a b = moved events a b" using assms(2) by (simp add: net_def)
  then have "bs_free s + bs_locked s + net (bs_observed_at_ms s) b =
      bs_free s + bs_locked s + net (bs_observed_at_ms s) a + moved events a b"
    using chain [of "bs_observed_at_ms s" a b] by (simp add: algebra_simps)
  moreover have "unambiguous s' events \<and>
      reconstruct_quantity exact_arith s events (bs_observed_at_ms s') = Some (Inr (bs_free s' + bs_locked s')) \<longrightarrow>
      reconstruct_quantity exact_arith s' events b =
        Some (Inr (bs_free s + bs_locked s + net (bs_observed_at_ms s) b))" for s' :: balance_snapshot
    using q [of s] q [of s'] assms(1) chain [of "bs_observed_at_ms s" "bs_observed_at_ms s'" b] by auto
  moreover have "td_time_ms e = bs_observed_at_ms s \<longrightarrow> reconstruct_quantity exact_arith s (e # events) a =
      Some (Inl (AmbiguousOrdering (bs_observed_at_ms s) (bs_observed_at_ms s)))" for e :: timed_delta
    by (simp add: reconstruct_exact unambiguous_def)
  ultimately show ?thesis using q [OF assms(1)]
    by (intro exI [of _ "bs_free s + bs_locked s + net (bs_observed_at_ms s) a"]
      exI [of _ "bs_free s + bs_locked s + net (bs_observed_at_ms s) b"]) blast
qed

definition sample_snapshot :: balance_snapshot where
  "sample_snapshot = \<lparr>bs_free = 5, bs_locked = 1, bs_observed_at_ms = 10\<rparr>"

definition sample_deltas :: "timed_delta list" where
  "sample_deltas = [\<lparr>td_time_ms = 8, td_delta = 2\<rparr>, \<lparr>td_time_ms = 12, td_delta = - 3\<rparr>]"

theorem reconstruction_is_timeline_witness:
  "\<exists>qa qb. reconstruct_quantity exact_arith sample_snapshot sample_deltas 7 = Some (Inr qa) \<and>
    reconstruct_quantity exact_arith sample_snapshot sample_deltas 12 = Some (Inr qb) \<and> qb = qa - 1"
proof -
  have "unambiguous sample_snapshot sample_deltas" "(7 :: nat) \<le> 12"
    by (simp_all add: unambiguous_def sample_snapshot_def sample_deltas_def)
  moreover have "moved sample_deltas 7 12 = - 1" by (simp add: moved_def sample_deltas_def)
  ultimately show ?thesis using reconstruction_is_timeline [of sample_snapshot sample_deltas 7 12] by auto
qed

lemma value_from_total:
  "case value_from exact_arith prices t vs nav inputs of
     None \<Rightarrow> False
   | Some (Inl e) \<Rightarrow> list_ex (\<lambda>i. \<not> unambiguous (in_snapshot i) (in_events i) \<or> prices (in_asset i) = None) inputs
   | Some (Inr v) \<Rightarrow> True"
proof (induction inputs arbitrary: vs nav)
  case (Cons i inputs)
  show ?case
  proof (cases "unambiguous (in_snapshot i) (in_events i) \<and> prices (in_asset i) \<noteq> None")
    case True
    then obtain p where p: "prices (in_asset i) = Some p" by blast
    have "\<exists>vs' nav'. value_from exact_arith prices t vs nav (i # inputs) = value_from exact_arith prices t vs' nav' inputs"
      using True p by (auto simp: reconstruct_exact)
    then obtain vs' nav' where "value_from exact_arith prices t vs nav (i # inputs) = value_from exact_arith prices t vs' nav' inputs"
      by blast
    then show ?thesis using Cons.IH [of vs' nav'] by (auto simp del: value_from.simps split: option.splits sum.splits)
  next
    case False
    then show ?thesis by (cases "prices (in_asset i)") (auto simp: reconstruct_exact)
  qed
qed simp

text \<open>
  A valuation covers every asset or fails: when it succeeds, each input in order is valued at its
  reconstructed quantity times its price at the cut and the NAV is the sum of all of them; it fails
  only for an input without a price or with an ambiguous reconstruction, and never panics.
\<close>

theorem valuation_covers_every_asset:
  "case value_at_cut exact_arith inputs prices t of
     None \<Rightarrow> False
   | Some (Inl e) \<Rightarrow> list_ex (\<lambda>i. \<not> unambiguous (in_snapshot i) (in_events i) \<or> prices (in_asset i) = None) inputs
   | Some (Inr v) \<Rightarrow> list_all2 (valued prices t) inputs (va_assets v) \<and>
       va_nav v = (\<Sum>av\<leftarrow>va_assets v. av_value av) \<and> va_cut_ms v = t"
  using value_from_total [where prices = prices and t = t and vs = "[]" and nav = 0 and inputs = inputs]
    value_from_exact [where prices = prices and t = t and vs = "[]" and nav = 0 and inputs = inputs]
  by (auto simp: value_at_cut_def split: option.splits sum.splits)

end
