(* ===== verification/Consolidation.thy ===== *)
theory Consolidation
  imports Decimal
begin

text \<open>
  Multi-account consolidation (crates/domain/consolidation/src): the aggregate NAV, the flows of adding
  and removing an account, and internal transfers. The member set is a set of account ids; plain decimal
  operators panic on overflow, the outer \<open>None\<close>.
\<close>

record member_account =
  ma_account_id :: string
  ma_nav :: decimal
  ma_has_gap :: bool

datatype consolidation_error =
    MemberGap string
  | NotAMember string string
  | SameAccount string
  | AssetMismatch string string
  | UnreconciledAmounts decimal decimal

definition consolidated_nav :: "arith \<Rightarrow> member_account list \<Rightarrow> (consolidation_error + decimal) option" where
  "consolidated_nav A members =
     (case find ma_has_gap members of
        Some m \<Rightarrow> Some (Inl (MemberGap (ma_account_id m)))
      | None \<Rightarrow> map_option Inr (dsum A (map ma_nav members)))"

definition account_added_flow :: "decimal \<Rightarrow> decimal" where
  "account_added_flow entry_nav = entry_nav"

definition account_removed_flow :: "decimal \<Rightarrow> decimal" where
  "account_removed_flow exit_nav = - exit_nav"

record transfer_leg =
  tl_account_id :: string
  tl_asset :: string
  tl_amount :: decimal

record internal_transfer =
  it_link_id :: string
  it_asset :: string
  it_outgoing :: transfer_leg
  it_incoming :: transfer_leg
  it_fee :: decimal

definition consolidated_external_flow :: "internal_transfer \<Rightarrow> decimal" where
  "consolidated_external_flow t = 0"

definition link_internal_transfer ::
    "arith \<Rightarrow> string \<Rightarrow> transfer_leg \<Rightarrow> transfer_leg \<Rightarrow> decimal \<Rightarrow> string set \<Rightarrow>
      (consolidation_error + internal_transfer) option" where
  "link_internal_transfer A link_id outgoing incoming fee member_ids =
     (if tl_account_id outgoing \<notin> member_ids \<or> tl_account_id incoming \<notin> member_ids
      then Some (Inl (NotAMember (tl_account_id outgoing) (tl_account_id incoming)))
      else if tl_account_id outgoing = tl_account_id incoming
        then Some (Inl (SameAccount (tl_account_id outgoing)))
      else if tl_asset outgoing \<noteq> tl_asset incoming
        then Some (Inl (AssetMismatch (tl_asset outgoing) (tl_asset incoming)))
      else
        Option.bind (dadd A (tl_amount incoming) fee) (\<lambda>expected_outgoing.
          if tl_amount outgoing \<noteq> expected_outgoing
          then Some (Inl (UnreconciledAmounts (tl_amount outgoing) expected_outgoing))
          else Some (Inr \<lparr>it_link_id = link_id, it_asset = tl_asset outgoing, it_outgoing = outgoing,
            it_incoming = incoming, it_fee = fee\<rparr>)))"

lemma consolidated_exact:
  "consolidated_nav exact_arith members =
    (case find ma_has_gap members of
       Some m \<Rightarrow> Some (Inl (MemberGap (ma_account_id m)))
     | None \<Rightarrow> Some (Inr (\<Sum>m\<leftarrow>members. ma_nav m)))"
  by (simp add: consolidated_nav_def split: option.split)

lemma consolidated_Inr:
  "consolidated_nav exact_arith members = Some (Inr n) \<longleftrightarrow>
    list_all (\<lambda>m. \<not> ma_has_gap m) members \<and> n = (\<Sum>m\<leftarrow>members. ma_nav m)"
  by (auto simp: consolidated_exact find_None_iff find_Some_iff list_all_iff split: option.splits)

text \<open>The members after a linked transfer: the outgoing account gives, the incoming one receives.\<close>

definition apply_transfer :: "internal_transfer \<Rightarrow> member_account \<Rightarrow> member_account" where
  "apply_transfer t m =
     m\<lparr>ma_nav := ma_nav m
        - (if ma_account_id m = tl_account_id (it_outgoing t) then tl_amount (it_outgoing t) else 0)
        + (if ma_account_id m = tl_account_id (it_incoming t) then tl_amount (it_incoming t) else 0)\<rparr>"

lemma sum_single:
  fixes c :: decimal and ms :: "member_account list"
  assumes "distinct (map ma_account_id ms)" and "a \<in> set (map ma_account_id ms)"
  shows "(\<Sum>m\<leftarrow>ms. if ma_account_id m = a then c else 0) = c"
proof -
  have zero: "a \<notin> set (map ma_account_id xs) \<Longrightarrow> (\<Sum>m\<leftarrow>xs. if ma_account_id m = a then c else 0) = 0"
    for xs :: "member_account list"
    by (induction xs) auto
  show ?thesis using assms
  proof (induction ms)
    case (Cons m ms)
    show ?case
    proof (cases "ma_account_id m = a")
      case True
      then have "a \<notin> set (map ma_account_id ms)" using Cons.prems(1) by auto
      from zero [OF this] show ?thesis using True by simp
    next
      case False
      then show ?thesis using Cons by simp
    qed
  qed simp
qed

lemma apply_transfer_sum:
  assumes "distinct (map ma_account_id ms)"
    and "tl_account_id (it_outgoing t) \<in> set (map ma_account_id ms)"
    and "tl_account_id (it_incoming t) \<in> set (map ma_account_id ms)"
  shows "(\<Sum>m\<leftarrow>map (apply_transfer t) ms. ma_nav m) =
    (\<Sum>m\<leftarrow>ms. ma_nav m) - tl_amount (it_outgoing t) + tl_amount (it_incoming t)"
proof -
  have "(\<Sum>m\<leftarrow>map (apply_transfer t) ms. ma_nav m) = (\<Sum>m\<leftarrow>ms. ma_nav m)
      - (\<Sum>m\<leftarrow>ms. if ma_account_id m = tl_account_id (it_outgoing t) then tl_amount (it_outgoing t) else 0)
      + (\<Sum>m\<leftarrow>ms. if ma_account_id m = tl_account_id (it_incoming t) then tl_amount (it_incoming t) else 0)"
    by (simp add: apply_transfer_def comp_def sum_list_addf sum_list_subtractf)
  then show ?thesis unfolding sum_single [OF assms(1,2)] sum_single [OF assms(1,3)] .
qed

text \<open>
  An internal transfer is no profit and no external flow: a link is only admitted between two
  different members in one asset, and moving its amounts lowers the aggregate NAV by exactly the fee
  while it contributes nothing to the external flows.
\<close>

theorem internal_transfer_costs_fee:
  assumes "link_internal_transfer exact_arith link outgoing incoming fee (set (map ma_account_id members)) = Some (Inr t)"
    and "distinct (map ma_account_id members)" and "consolidated_nav exact_arith members = Some (Inr before)"
  shows "consolidated_nav exact_arith (map (apply_transfer t) members) = Some (Inr (before - fee)) \<and>
    consolidated_external_flow t = 0 \<and> it_fee t = fee \<and>
    tl_account_id (it_outgoing t) \<noteq> tl_account_id (it_incoming t) \<and>
    tl_asset (it_outgoing t) = it_asset t \<and> tl_asset (it_incoming t) = it_asset t"
proof -
  have t: "tl_account_id outgoing \<in> set (map ma_account_id members)" "tl_account_id incoming \<in> set (map ma_account_id members)"
    "tl_account_id outgoing \<noteq> tl_account_id incoming" "tl_asset outgoing = tl_asset incoming"
    "tl_amount outgoing = tl_amount incoming + fee"
    "t = \<lparr>it_link_id = link, it_asset = tl_asset outgoing, it_outgoing = outgoing, it_incoming = incoming, it_fee = fee\<rparr>"
    using assms(1) by (auto simp: link_internal_transfer_def split: if_splits)
  have "list_all (\<lambda>m. \<not> ma_has_gap m) (map (apply_transfer t) members)" and b: "before = (\<Sum>m\<leftarrow>members. ma_nav m)"
    using assms(3) by (simp_all add: consolidated_Inr list_all_iff apply_transfer_def)
  moreover have "(\<Sum>m\<leftarrow>map (apply_transfer t) members. ma_nav m) = before - fee"
    using apply_transfer_sum [OF assms(2), of t] t by (simp add: b)
  ultimately have "consolidated_nav exact_arith (map (apply_transfer t) members) = Some (Inr (before - fee))"
    by (simp only: consolidated_Inr)
  then show ?thesis using t by (simp add: consolidated_external_flow_def)
qed

definition sample_members :: "member_account list" where
  "sample_members = [\<lparr>ma_account_id = ''a'', ma_nav = 100, ma_has_gap = False\<rparr>,
     \<lparr>ma_account_id = ''b'', ma_nav = 50, ma_has_gap = False\<rparr>]"

definition leg :: "string \<Rightarrow> decimal \<Rightarrow> transfer_leg" where
  "leg account amount = \<lparr>tl_account_id = account, tl_asset = ''USDT'', tl_amount = amount\<rparr>"

theorem internal_transfer_costs_fee_witness:
  "\<exists>t. consolidated_nav exact_arith (map (apply_transfer t) sample_members) = Some (Inr (150 - 1))"
proof -
  have "link_internal_transfer exact_arith ''tx'' (leg ''a'' 10) (leg ''b'' 9) 1 (set (map ma_account_id sample_members)) =
      Some (Inr \<lparr>it_link_id = ''tx'', it_asset = ''USDT'', it_outgoing = leg ''a'' 10, it_incoming = leg ''b'' 9, it_fee = 1\<rparr>)"
    by (simp add: link_internal_transfer_def sample_members_def leg_def)
  moreover have "distinct (map ma_account_id sample_members)"
    and "consolidated_nav exact_arith sample_members = Some (Inr 150)"
    by (simp_all add: sample_members_def consolidated_nav_def)
  ultimately show ?thesis using internal_transfer_costs_fee by blast
qed

text \<open>
  The documented bound \<open>fee >= 0\<close> is not enforced: a link whose incoming leg is larger than its
  outgoing leg is admitted with a negative fee, and moving its amounts raises the aggregate NAV with no
  external flow to show for it.
\<close>

theorem negative_fee_accepted:
  "\<exists>t. link_internal_transfer exact_arith ''tx'' (leg ''a'' 10) (leg ''b'' 11) (- 1) (set (map ma_account_id sample_members))
      = Some (Inr t) \<and> it_fee t < 0 \<and> consolidated_external_flow t = 0 \<and>
    consolidated_nav exact_arith sample_members = Some (Inr 150) \<and>
    consolidated_nav exact_arith (map (apply_transfer t) sample_members) = Some (Inr 151)"
  by (simp add: link_internal_transfer_def sample_members_def leg_def consolidated_nav_def apply_transfer_def
    consolidated_external_flow_def)

end
