(* ===== verification/Corrections.thy ===== *)
theory Corrections
  imports Prelude
begin

text \<open>
  Corrections and disputes (crates/domain/corrections/src): admissibility, conflicting versions, reports
  and the version chain. Digests are 32-byte strings.
\<close>

datatype authority = IssuerRetraction | FinancialCorrection | MethodBugfix | TrustManifestInvalidation

record correction =
  co_target_digest :: bytes
  co_replacement_digest :: bytes
  co_reason_code :: string
  co_evidence_digest :: bytes
  co_authority :: authority

record owner_objection =
  ob_reason :: string

definition is_admissible :: "correction \<Rightarrow> owner_objection option \<Rightarrow> bool" where
  "is_admissible c objection \<longleftrightarrow> co_evidence_digest c \<noteq> replicate 32 0"

record supersession =
  superseding :: bytes

datatype resolution = Resolved bytes | Disputed bytes bytes

definition reconcile_conflicting :: "bytes \<Rightarrow> bytes \<Rightarrow> supersession option \<Rightarrow> resolution" where
  "reconcile_conflicting a_digest b_digest s =
     (case s of
        Some e \<Rightarrow> if superseding e = a_digest \<or> superseding e = b_digest then Resolved (superseding e)
          else Disputed a_digest b_digest
      | None \<Rightarrow> Disputed a_digest b_digest)"

datatype version_status = Original | Superseded bytes | InDispute

record version =
  ve_digest :: bytes
  ve_status :: version_status

record applied_correction =
  ac_original :: version
  ac_replacement :: version

definition apply_correction :: "bytes \<Rightarrow> bytes \<Rightarrow> applied_correction" where
  "apply_correction original_digest replacement_digest =
     \<lparr>ac_original = \<lparr>ve_digest = original_digest, ve_status = Superseded replacement_digest\<rparr>,
      ac_replacement = \<lparr>ve_digest = replacement_digest, ve_status = Original\<rparr>\<rparr>"

record report =
  re_target_digest :: bytes
  re_allegation :: string

definition apply_reports :: "version \<Rightarrow> report list \<Rightarrow> version" where
  "apply_reports v reports = v"

text \<open>A chain of corrections applied one after the other keeps every version it went through.\<close>

fun correction_chain :: "bytes \<Rightarrow> bytes list \<Rightarrow> version list" where
  "correction_chain d [] = [\<lparr>ve_digest = d, ve_status = Original\<rparr>]"
| "correction_chain d (r # rs) = ac_original (apply_correction d r) # correction_chain r rs"

lemma correction_chain_digests: "map ve_digest (correction_chain d rs) = d # rs"
  by (induction rs arbitrary: d) (simp_all add: apply_correction_def)

lemma correction_chain_links:
  "Suc k < length (correction_chain d rs) \<Longrightarrow>
    ve_status (correction_chain d rs ! k) = Superseded (ve_digest (correction_chain d rs ! Suc k))"
proof (induction rs arbitrary: d k)
  case (Cons r rs)
  have "ve_digest (correction_chain r rs ! 0) = r" by (cases rs) (simp_all add: apply_correction_def)
  then show ?case using Cons by (cases k) (simp_all add: apply_correction_def)
qed simp

text \<open>
  A dispute is only resolved by evidence: the winner of two conflicting versions is one of the two
  and is named by the supersession evidence, without evidence both stay disputed whichever came first,
  and neither the owner's objection nor any number of reports changes a verdict; a chain of corrections
  keeps every digest it replaced and links each version to the one that superseded it.
\<close>

theorem dispute_resolved_only_by_evidence:
  "(case reconcile_conflicting a b s of
      Resolved w \<Rightarrow> (w = a \<or> w = b) \<and> s = Some \<lparr>superseding = w\<rparr>
    | Disputed x y \<Rightarrow> x = a \<and> y = b) \<and>
   reconcile_conflicting a b None = Disputed a b \<and>
   is_admissible c objection = is_admissible c None \<and> apply_reports v reports = v \<and>
   map ve_digest (correction_chain d rs) = d # rs \<and>
   (Suc k < length (correction_chain d rs) \<longrightarrow>
     ve_status (correction_chain d rs ! k) = Superseded (ve_digest (correction_chain d rs ! Suc k)))"
  using correction_chain_digests [of d rs] correction_chain_links [of k d rs]
  by (auto simp: reconcile_conflicting_def is_admissible_def apply_reports_def split: option.split)

theorem dispute_resolved_only_by_evidence_witness:
  "ve_status (correction_chain [1] [[2], [3]] ! 1) = Superseded (ve_digest (correction_chain [1] [[2], [3]] ! Suc 1))"
  using dispute_resolved_only_by_evidence [of "[]" "[]" None _ None _ "[]" "[1]" "[[2], [3]]" 1] by simp

end
