(* ===== verification/Jobs.thy ===== *)
theory Jobs
  imports Store
begin

text \<open>
  The job queue (services/compute/jobs/src): leases, the idempotent outbox and the retry decision.
  Instants are \<open>i64\<close> milliseconds; \<open>now_ms + lease_duration_ms\<close> is a plain operator and wraps,
  \<open>saturating_mul\<close> saturates. \<open>jittered_delay_ms\<close> works on floating-point numbers and is not
  modelled.
\<close>

section \<open>job.rs and lease.rs\<close>

datatype job_state = Pending | Leased | Succeeded | Failed | DeadLettered

record job =
  jb_id :: string
  jb_job_type :: string
  jb_tenant :: string
  jb_dedup_key :: string
  jb_payload_digest :: bytes
  jb_available_at_ms :: int
  jb_lease_until_ms :: "int option"
  jb_attempt :: nat
  jb_state :: job_state
  jb_last_error_code :: "string option"

datatype lease_error = StillLeased int int

definition try_acquire :: "job \<Rightarrow> int \<Rightarrow> int \<Rightarrow> lease_error + job" where
  "try_acquire j now_ms lease_duration_ms =
     (let leased = j\<lparr>jb_state := Leased, jb_lease_until_ms := Some (wrap_i64 (now_ms + lease_duration_ms))\<rparr> in
      case jb_lease_until_ms j of
        Some until_ms \<Rightarrow> if until_ms > now_ms then Inl (StillLeased until_ms now_ms) else Inr leased
      | None \<Rightarrow> Inr leased)"

section \<open>outbox.rs\<close>

record effect =
  ef_idempotency_key :: string
  ef_payload_digest :: bytes

record outbox =
  ob_applied_keys :: "string set"
  ob_applied_effects :: "effect list"

definition new_outbox :: outbox where
  "new_outbox = \<lparr>ob_applied_keys = {}, ob_applied_effects = []\<rparr>"

definition apply_effect :: "outbox \<Rightarrow> effect \<Rightarrow> outbox \<times> bool" where
  "apply_effect ob e =
     (if ef_idempotency_key e \<in> ob_applied_keys ob then (ob, False)
      else (\<lparr>ob_applied_keys = insert (ef_idempotency_key e) (ob_applied_keys ob),
             ob_applied_effects = ob_applied_effects ob @ [e]\<rparr>, True))"

section \<open>retry.rs\<close>

record backoff =
  bo_base_ms :: int
  bo_max_ms :: int
  bo_max_attempts :: nat

definition sat_i64 :: "int \<Rightarrow> int" where
  "sat_i64 x = max (- (2 ^ 63)) (min (2 ^ 63 - 1) x)"

definition backoff_delay_ms :: "backoff \<Rightarrow> nat \<Rightarrow> int" where
  "backoff_delay_ms b attempt =
     (let shift = min attempt 62; exponential = sat_i64 (bo_base_ms b * 2 ^ shift)
      in min exponential (bo_max_ms b))"

record dead_letter =
  dl_job_id :: string
  dl_cause :: string
  dl_deadline_ms :: int
  dl_attempt :: nat

datatype retry_decision = RetryAfter int | DeadLetter dead_letter

definition decide :: "job \<Rightarrow> backoff \<Rightarrow> string \<Rightarrow> bool \<Rightarrow> retry_decision" where
  "decide j b error_code is_permanent =
     (if is_permanent \<or> jb_attempt j \<ge> bo_max_attempts b
      then DeadLetter \<lparr>dl_job_id = jb_id j, dl_cause = error_code, dl_deadline_ms = jb_available_at_ms j,
        dl_attempt = jb_attempt j\<rparr>
      else RetryAfter (backoff_delay_ms b (jb_attempt j)))"

section \<open>Leases as a state machine\<close>

text \<open>
  One attempt to lease at an instant, for a duration: granted or refused. A run is a sequence of
  attempts by any workers at non-decreasing instants; it collects the granted intervals.
\<close>

inductive lease_run :: "job \<Rightarrow> int \<Rightarrow> (int \<times> int) list \<Rightarrow> job \<Rightarrow> bool" for j0 where
  start: "lease_run j0 t [] j0"
| granted: "lease_run j0 t grants j \<Longrightarrow> t \<le> now_ms \<Longrightarrow> 0 \<le> d \<Longrightarrow> in_i64 (now_ms + d) \<Longrightarrow>
    try_acquire j now_ms d = Inr j' \<Longrightarrow> lease_run j0 now_ms (grants @ [(now_ms, now_ms + d)]) j'"
| refused: "lease_run j0 t grants j \<Longrightarrow> t \<le> now_ms \<Longrightarrow> try_acquire j now_ms d = Inl e \<Longrightarrow> lease_run j0 now_ms grants j"

lemma try_acquire_Inr:
  "try_acquire j now_ms d = Inr j' \<longleftrightarrow>
    (case jb_lease_until_ms j of None \<Rightarrow> True | Some u \<Rightarrow> u \<le> now_ms) \<and>
    j' = j\<lparr>jb_state := Leased, jb_lease_until_ms := Some (wrap_i64 (now_ms + d))\<rparr>"
  by (auto simp: try_acquire_def Let_def split: option.splits)

text \<open>The invariant: granted intervals do not overlap, and the job carries the end of the last one.\<close>

definition lease_inv :: "job \<Rightarrow> (int \<times> int) list \<Rightarrow> job \<Rightarrow> bool" where
  "lease_inv j0 grants j \<longleftrightarrow> sorted_wrt (\<lambda>g h. snd g \<le> fst h) grants \<and> list_all (\<lambda>g. fst g \<le> snd g) grants \<and>
     (if grants = [] then j = j0
      else j = j0\<lparr>jb_state := Leased, jb_lease_until_ms := Some (snd (last grants))\<rparr> \<and>
        list_all (\<lambda>g. snd g \<le> snd (last grants)) grants)"

lemma lease_run_inv: "lease_run j0 t grants j \<Longrightarrow> lease_inv j0 grants j"
proof (induction rule: lease_run.induct)
  case (start t)
  then show ?case by (simp add: lease_inv_def)
next
  case (granted t grants j now_ms d j')
  have j': "j' = j\<lparr>jb_state := Leased, jb_lease_until_ms := Some (now_ms + d)\<rparr>"
    using granted.hyps(4,5) by (simp add: try_acquire_Inr)
  show ?case
  proof (cases "grants = []")
    case True
    then show ?thesis using granted.IH granted.hyps(3) by (simp add: lease_inv_def j')
  next
    case False
    then have last: "jb_lease_until_ms j = Some (snd (last grants))" and all: "list_all (\<lambda>g. snd g \<le> snd (last grants)) grants"
      using granted.IH by (simp_all add: lease_inv_def)
    then have "snd (last grants) \<le> now_ms" using granted.hyps(5) by (simp add: try_acquire_Inr)
    then have "\<forall>g \<in> set grants. snd g \<le> now_ms" using all by (auto simp: list_all_iff intro: order_trans)
    then show ?thesis
      using granted.IH granted.hyps(3) False by (auto simp: lease_inv_def j' sorted_wrt_append list_all_iff)
  qed
qed

section \<open>The outbox as an append-only store\<close>

definition outbox_step :: "outbox \<Rightarrow> effect \<Rightarrow> outbox" where
  "outbox_step ob e = fst (apply_effect ob e)"

definition outbox_ok :: "outbox \<Rightarrow> bool" where
  "outbox_ok ob \<longleftrightarrow> ob_applied_keys ob = ef_idempotency_key ` set (ob_applied_effects ob) \<and>
     distinct (map ef_idempotency_key (ob_applied_effects ob))"

definition applied :: "outbox \<Rightarrow> string \<Rightarrow> effect option" where
  "applied ob k = find (\<lambda>e. ef_idempotency_key e = k) (ob_applied_effects ob)"

lemma find_append_Some: "find P xs = Some x \<Longrightarrow> find P (xs @ ys) = Some x"
  by (induction xs) (auto split: if_splits)

lemma find_append_None: "find P xs = None \<Longrightarrow> find P (xs @ ys) = find P ys"
  by (induction xs) (auto split: if_splits)

lemma outbox_step_ok: "outbox_ok ob \<Longrightarrow> outbox_ok (outbox_step ob e)"
  by (auto simp: outbox_ok_def outbox_step_def apply_effect_def)

lemma applied_None: "outbox_ok ob \<Longrightarrow> applied ob k = None \<longleftrightarrow> k \<notin> ob_applied_keys ob"
  by (auto simp: applied_def outbox_ok_def find_None_iff)

text \<open>The rows are the effects themselves, under their idempotency keys.\<close>

definition effect_key :: "effect \<Rightarrow> string option" where "effect_key e = Some (ef_idempotency_key e)"

lemma applied_step:
  assumes "outbox_ok ob"
  shows "applied (outbox_step ob e) k = (if applied ob k = None \<and> ef_idempotency_key e = k then Some e else applied ob k)"
proof (cases "ef_idempotency_key e \<in> ob_applied_keys ob")
  case True
  then show ?thesis using applied_None [OF assms, of k] by (auto simp: outbox_step_def apply_effect_def)
next
  case False
  then show ?thesis using applied_None [OF assms, of k]
    by (cases "applied ob k") (auto simp: outbox_step_def apply_effect_def applied_def find_append_Some find_append_None)
qed

text \<open>The rows of the outbox are the effects themselves, under their idempotency keys.\<close>

interpretation obx: row_store outbox_step applied "\<lambda>e. Some (ef_idempotency_key e)" "\<lambda>e. e" outbox_ok
proof
  show "applied (outbox_step ob e) k = Some v" if "applied ob k = Some v" for ob e k v
    using that by (auto simp: applied_def outbox_step_def apply_effect_def find_append_Some)
  show "outbox_step ob e = ob" if "outbox_ok ob" "Some (ef_idempotency_key e) = Some k" "applied ob k \<noteq> None" for ob e k
    using that applied_None [OF that(1)] by (auto simp: outbox_step_def apply_effect_def)
qed (auto simp: applied_step outbox_step_ok)

lemma run_keys: "ob_applied_keys (foldl outbox_step ob es) = ob_applied_keys ob \<union> ef_idempotency_key ` set es"
  by (induction es arbitrary: ob) (auto simp: outbox_step_def apply_effect_def)

text \<open>Effects whose keys are applied are skipped.\<close>

lemma replay_skipped: "ef_idempotency_key ` set es \<subseteq> ob_applied_keys ob \<Longrightarrow> foldl outbox_step ob es = ob"
  by (induction es) (simp_all add: outbox_step_def apply_effect_def)

section \<open>Properties\<close>

text \<open>
  C20. Leases exclude each other: in any sequence of attempts at non-decreasing instants the granted
  lease intervals never overlap, and a job whose lease has expired can always be leased again.
\<close>

theorem leases_never_overlap:
  assumes "lease_run j0 t grants j"
  shows "sorted_wrt (\<lambda>g h. snd g \<le> fst h) grants \<and>
    (case jb_lease_until_ms j of None \<Rightarrow> True | Some u \<Rightarrow> \<forall>now_ms \<ge> u. \<exists>j'. try_acquire j now_ms d = Inr j')"
proof -
  have "sorted_wrt (\<lambda>g h. snd g \<le> fst h) grants" using lease_run_inv [OF assms] by (simp add: lease_inv_def)
  moreover have "case jb_lease_until_ms j of None \<Rightarrow> True | Some u \<Rightarrow> \<forall>now_ms \<ge> u. \<exists>j'. try_acquire j now_ms d = Inr j'"
    by (auto simp: try_acquire_Inr split: option.split)
  ultimately show ?thesis ..
qed

definition sample_job :: job where
  "sample_job = \<lparr>jb_id = ''j1'', jb_job_type = ''sync'', jb_tenant = ''t'', jb_dedup_key = ''k'', jb_payload_digest = [],
     jb_available_at_ms = 0, jb_lease_until_ms = None, jb_attempt = 0, jb_state = Pending, jb_last_error_code = None\<rparr>"

theorem leases_never_overlap_witness:
  "\<exists>j. lease_run sample_job 7 [(1, 6), (7, 9)] j \<and> sorted_wrt (\<lambda>g h. snd g \<le> fst h) [(1, 6), (7, 9 :: int)]"
proof -
  have "lease_run sample_job 1 ([] @ [(1, 1 + 5)]) (sample_job\<lparr>jb_state := Leased, jb_lease_until_ms := Some (wrap_i64 (1 + 5))\<rparr>)"
    by (rule lease_run.granted [OF lease_run.start [of _ 0]]) (simp_all add: try_acquire_Inr sample_job_def in_s_def)
  then have one: "lease_run sample_job 1 [(1, 6)] (sample_job\<lparr>jb_state := Leased, jb_lease_until_ms := Some 6\<rparr>)"
    by (simp add: in_s_def)
  have "lease_run sample_job 7 ([(1, 6)] @ [(7, 7 + 2)])
      (sample_job\<lparr>jb_state := Leased, jb_lease_until_ms := Some 6\<rparr>\<lparr>jb_state := Leased, jb_lease_until_ms := Some (wrap_i64 (7 + 2))\<rparr>)"
    by (rule lease_run.granted [OF one]) (simp_all add: try_acquire_Inr in_s_def)
  then have two: "lease_run sample_job 7 [(1, 6), (7, 9)] (sample_job\<lparr>jb_state := Leased, jb_lease_until_ms := Some 9\<rparr>)"
    by (simp add: in_s_def)
  show ?thesis using two leases_never_overlap [OF two] by blast
qed

text \<open>
  C21. A crash between two effects loses and duplicates nothing: running a job's effects up to any
  point, and then the whole job again from its start, leaves the outbox exactly as one complete run. After it
  every key of the job has been applied, exactly once: with the effect it had before the job, or else with the first
  effect of the job that has the key; no other key is touched, and \<open>apply\<close> answers whether it recorded the effect.
\<close>

theorem outbox_crash_resume:
  assumes "outbox_ok ob"
  shows "foldl outbox_step (foldl outbox_step ob (take k es)) es = foldl outbox_step ob es \<and>
    distinct (map ef_idempotency_key (ob_applied_effects (foldl outbox_step ob es))) \<and>
    (\<forall>key. applied (foldl outbox_step ob es) key =
      (case applied ob key of Some e \<Rightarrow> Some e | None \<Rightarrow> find (\<lambda>e. ef_idempotency_key e = key) es)) \<and>
    (\<forall>e. snd (apply_effect ob e) \<longleftrightarrow> applied ob (ef_idempotency_key e) = None)"
proof (intro conjI allI)
  define ob1 where "ob1 = foldl outbox_step ob (take k es)"
  have "ef_idempotency_key ` set (take k es) \<subseteq> ob_applied_keys ob1" by (simp add: ob1_def run_keys)
  then have "foldl outbox_step ob1 (take k es) = ob1" by (rule replay_skipped)
  then have "foldl outbox_step ob1 (take k es @ drop k es) = foldl outbox_step ob (take k es @ drop k es)"
    by (simp only: foldl_append ob1_def)
  then show "foldl outbox_step (foldl outbox_step ob (take k es)) es = foldl outbox_step ob es"
    by (simp add: ob1_def)
next
  show "distinct (map ef_idempotency_key (ob_applied_effects (foldl outbox_step ob es)))"
    using obx.run_ok [OF assms, of es] by (simp add: outbox_ok_def)
next
  fix key
  show "applied (foldl outbox_step ob es) key =
      (case applied ob key of Some e \<Rightarrow> Some e | None \<Rightarrow> find (\<lambda>e. ef_idempotency_key e = key) es)"
    using obx.run_lookup [OF assms, of es key] by (simp add: option.map_ident split: option.split)
next
  fix e
  show "snd (apply_effect ob e) \<longleftrightarrow> applied ob (ef_idempotency_key e) = None"
    using applied_None [OF assms] by (simp add: apply_effect_def)
qed

text \<open>A job of two effects that crashes after the first: both are applied, each once.\<close>

theorem outbox_crash_resume_witness:
  "let a = \<lparr>ef_idempotency_key = ''a'', ef_payload_digest = [1]\<rparr>; b = \<lparr>ef_idempotency_key = ''b'', ef_payload_digest = [2]\<rparr>;
       ob = foldl outbox_step (foldl outbox_step new_outbox [a]) [a, b]
   in applied ob ''a'' = Some a \<and> applied ob ''b'' = Some b \<and> applied ob ''c'' = None \<and>
     distinct (map ef_idempotency_key (ob_applied_effects ob))"
proof -
  have "outbox_ok new_outbox" by (simp add: outbox_ok_def new_outbox_def)
  from outbox_crash_resume [OF this, of 1 "[\<lparr>ef_idempotency_key = ''a'', ef_payload_digest = [1]\<rparr>,
      \<lparr>ef_idempotency_key = ''b'', ef_payload_digest = [2]\<rparr>]"]
  show ?thesis by (simp add: Let_def applied_def new_outbox_def)
qed

text \<open>
  Retry decisions: a job is dead-lettered exactly when the error is permanent or its attempts are
  used up, with its id, the cause and its original deadline; otherwise the delay lies between zero and
  the cap, is at least the base where that is below the cap, and never shrinks from one attempt to the
  next, whatever the attempt count.
\<close>

theorem retry_decision_correct:
  assumes "0 \<le> bo_base_ms b" and "0 \<le> bo_max_ms b" and "bo_base_ms b < 2 ^ 63"
  shows "(case decide j b code permanent of
      DeadLetter d \<Rightarrow> (permanent \<or> bo_max_attempts b \<le> jb_attempt j) \<and> dl_job_id d = jb_id j \<and> dl_cause d = code \<and>
        dl_deadline_ms d = jb_available_at_ms j \<and> dl_attempt d = jb_attempt j
    | RetryAfter delay \<Rightarrow> \<not> permanent \<and> jb_attempt j < bo_max_attempts b \<and> 0 \<le> delay \<and> delay \<le> bo_max_ms b \<and>
        min (bo_base_ms b) (bo_max_ms b) \<le> delay \<and> delay = backoff_delay_ms b (jb_attempt j)) \<and>
    (\<forall>m n. m \<le> n \<longrightarrow> backoff_delay_ms b m \<le> backoff_delay_ms b n)"
proof -
  have sat_mono: "x \<le> y \<Longrightarrow> sat_i64 x \<le> sat_i64 y" for x y by (auto simp: sat_i64_def)
  have mono: "backoff_delay_ms b m \<le> backoff_delay_ms b n" if "m \<le> n" for m n
  proof -
    have "(2 :: int) ^ min m 62 \<le> 2 ^ min n 62" using that by (intro power_increasing) auto
    then have "bo_base_ms b * 2 ^ min m 62 \<le> bo_base_ms b * 2 ^ min n 62" using assms(1) by (rule mult_left_mono)
    from sat_mono [OF this] show ?thesis unfolding backoff_delay_ms_def Let_def by (rule min.mono) simp
  qed
  have "sat_i64 (bo_base_ms b) = bo_base_ms b" using assms by (simp add: sat_i64_def)
  then have "backoff_delay_ms b 0 = min (bo_base_ms b) (bo_max_ms b)" by (simp add: backoff_delay_ms_def)
  then have base: "min (bo_base_ms b) (bo_max_ms b) \<le> backoff_delay_ms b n" for n using mono [of 0 n] by simp
  have "backoff_delay_ms b n \<le> bo_max_ms b" for n by (simp add: backoff_delay_ms_def Let_def)
  moreover have "0 \<le> backoff_delay_ms b n" for n using base [of n] assms by (simp add: min_def split: if_splits)
  ultimately show ?thesis using mono base by (auto simp: decide_def not_le)
qed

definition reference_backoff :: backoff where
  "reference_backoff = \<lparr>bo_base_ms = 5000, bo_max_ms = 900000, bo_max_attempts = 10\<rparr>"

theorem retry_decision_correct_witness:
  "backoff_delay_ms reference_backoff 3 \<le> backoff_delay_ms reference_backoff 200"
proof -
  have "(3 :: nat) \<le> 200" by simp
  moreover have "0 \<le> bo_base_ms reference_backoff" "0 \<le> bo_max_ms reference_backoff" "bo_base_ms reference_backoff < 2 ^ 63"
    by (simp_all add: reference_backoff_def)
  ultimately show ?thesis using retry_decision_correct by blast
qed

end
