(* ===== verification/Verifier.thy ===== *)
theory Verifier
  imports Merkle Checkpoint Performance
begin

text \<open>
  crates/verifier: the offline verification of a portable bundle. The five checks (file hashes,
  account-set root, receipt, anchor, coverage), the trust list and the origin assessment, the report
  and \<open>verify\<close>, which runs them all. SHA-256, the \<open>hex\<close> crate, the JSON reader of the trust list
  and the zkVM's receipts are parameters. A \<open>BTreeMap\<close> of the bundle is its list of entries in key
  order, a \<open>HashSet\<close> a set. Where the code formats an error into the message of a failed check, the
  model keeps the error itself.
\<close>

section \<open>bundle.rs\<close>

record manifest_entry =
  me_hash :: string
  me_size_bytes :: nat

record manifest =
  mf_version :: string
  mf_files :: "(string \<times> manifest_entry) list"

record public_bundle =
  bu_manifest :: manifest
  bu_files :: "(string \<times> string) list"

record hash_mismatch =
  hm_path :: string
  hm_expected :: string
  hm_actual :: string

definition sha256_hex :: "sha \<Rightarrow> (bytes \<Rightarrow> string) \<Rightarrow> string \<Rightarrow> string" where
  "sha256_hex H hexe content = hexe (H (str_bytes content))"

fun mismatches_from :: "sha \<Rightarrow> (bytes \<Rightarrow> string) \<Rightarrow> (string \<times> string) list \<Rightarrow>
    (string \<times> manifest_entry) list \<Rightarrow> hash_mismatch list" where
  "mismatches_from H hexe files [] = []"
| "mismatches_from H hexe files ((path, entry) # rest) =
     (case map_of files path of
        None \<Rightarrow> \<lparr>hm_path = path, hm_expected = me_hash entry, hm_actual = ''<missing file>''\<rparr>
          # mismatches_from H hexe files rest
      | Some content \<Rightarrow>
          let actual = sha256_hex H hexe content
          in if actual \<noteq> me_hash entry
             then \<lparr>hm_path = path, hm_expected = me_hash entry, hm_actual = actual\<rparr>
               # mismatches_from H hexe files rest
             else mismatches_from H hexe files rest)"

definition verify_hashes :: "sha \<Rightarrow> (bytes \<Rightarrow> string) \<Rightarrow> public_bundle \<Rightarrow> hash_mismatch list" where
  "verify_hashes H hexe b = mismatches_from H hexe (bu_files b) (mf_files (bu_manifest b))"

definition bundle_file :: "public_bundle \<Rightarrow> string \<Rightarrow> string option" where
  "bundle_file b path = map_of (bu_files b) path"

section \<open>root.rs\<close>

definition member_leaf :: "sha \<Rightarrow> string \<Rightarrow> bytes" where
  "member_leaf H account_id = H (str_bytes account_id)"

definition verify_account_set_root :: "sha \<Rightarrow> bytes \<Rightarrow> string list \<Rightarrow> (merkle_error + unit) option" where
  "verify_account_set_root H claimed_root member_ids =
     (case build H (map (member_leaf H) member_ids) of
        None \<Rightarrow> None
      | Some r \<Rightarrow> Some (and_then r (\<lambda>t. if mt_root t \<noteq> claimed_root then Inl RootMismatch else Inr ())))"

section \<open>anchor.rs\<close>

record trusted_anchor =
  an_tx_hash :: string
  an_block_number :: nat

datatype anchor_error = NotTrusted string nat

definition verify_anchor :: "trusted_anchor \<Rightarrow> trusted_anchor set \<Rightarrow> anchor_error + unit" where
  "verify_anchor claimed trusted =
     (if claimed \<notin> trusted then Inl (NotTrusted (an_tx_hash claimed) (an_block_number claimed))
      else Inr ())"

section \<open>coverage.rs\<close>

record coverage_mismatch =
  cm_recomputed :: "gap list"
  cm_claimed :: "gap list"

text \<open>\<open>None\<close>: the loop of \<open>derive_gaps\<close> does not return.\<close>

definition verify_coverage ::
    "calendar_policy \<Rightarrow> int \<Rightarrow> int \<Rightarrow> gap list \<Rightarrow> (coverage_mismatch + unit) option" where
  "verify_coverage policy last_committed_end_ms now_ms claimed_gaps =
     (case derive_gaps policy last_committed_end_ms now_ms of
        None \<Rightarrow> None
      | Some recomputed \<Rightarrow>
          Some (if recomputed \<noteq> claimed_gaps
                then Inl \<lparr>cm_recomputed = recomputed, cm_claimed = claimed_gaps\<rparr> else Inr ()))"

section \<open>receipt.rs\<close>

text \<open>
  The zkVM's receipts and their verifier are code of the \<open>risc0_zkvm\<close> and \<open>bincode\<close> crates: how a
  receipt is decoded, what it verifies for and how its journal is decoded are parameters.
\<close>

record receipt =
  rc_journal :: bytes
  rc_seal :: bytes

type_synonym image_id = "32 word list"

record performance_journal =
  pj_envelope_digest :: bytes
  pj_signer_fingerprint :: bytes
  pj_period_start_ms :: int
  pj_period_end_ms :: int
  pj_twr_index_scaled :: int
  pj_mdd_bp :: int
  pj_capital :: int

record zkvm =
  zk_deserialize :: "bytes \<Rightarrow> string + receipt"
  zk_verify :: "receipt \<Rightarrow> image_id \<Rightarrow> string + unit"
  zk_decode :: "bytes \<Rightarrow> string + performance_journal"

datatype receipt_error =
    Decode string
  | VerificationFailed image_id string
  | JournalMismatch
  | JournalLayout string

definition verify_receipt :: "zkvm \<Rightarrow> bytes \<Rightarrow> image_id \<Rightarrow> bytes \<Rightarrow> receipt_error + unit" where
  "verify_receipt Z receipt_bytes img expected_journal_bytes =
     and_then (map_err Decode (zk_deserialize Z receipt_bytes)) (\<lambda>rc.
     and_then (map_err (VerificationFailed img) (zk_verify Z rc img)) (\<lambda>_.
       if rc_journal rc \<noteq> expected_journal_bytes then Inl JournalMismatch else Inr ()))"

definition decode_journal_bytes :: "zkvm \<Rightarrow> bytes \<Rightarrow> receipt_error + performance_journal" where
  "decode_journal_bytes Z journal_bytes = map_err JournalLayout (zk_decode Z journal_bytes)"

definition decode_journal :: "zkvm \<Rightarrow> bytes \<Rightarrow> receipt_error + performance_journal" where
  "decode_journal Z receipt_bytes =
     and_then (map_err Decode (zk_deserialize Z receipt_bytes)) (\<lambda>rc. decode_journal_bytes Z (rc_journal rc))"

section \<open>trust.rs\<close>

datatype trust_list_error =
    TrustJson string
  | UnsupportedVersion nat
  | BadFingerprint string
  | EmptyValidity string
  | Duplicate string

record trusted_collector =
  tc_name :: string
  tc_fingerprint :: bytes
  tc_valid_from_ms :: "int option"
  tc_valid_until_ms :: "int option"
  tc_revoked :: bool

type_synonym trust_list = "trusted_collector list"

record wire_collector =
  wc_name :: string
  wc_fingerprint :: string
  wc_valid_from_ms :: "int option"
  wc_valid_until_ms :: "int option"
  wc_revoked :: bool

record wire_list =
  wl_version :: nat
  wl_collectors :: "wire_collector list"

definition empty_list :: trust_list where
  "empty_list = []"

definition empty_window :: "wire_collector \<Rightarrow> bool" where
  "empty_window e =
     (case (wc_valid_from_ms e, wc_valid_until_ms e) of
        (Some from_ms, Some until_ms) \<Rightarrow> from_ms > until_ms
      | _ \<Rightarrow> False)"

text \<open>The loop of \<open>from_json\<close>, with the set of the fingerprints seen so far.\<close>

fun trust_entries :: "(string \<Rightarrow> bytes option) \<Rightarrow> bytes set \<Rightarrow> wire_collector list \<Rightarrow>
    trust_list_error + trust_list" where
  "trust_entries hexd seen [] = Inr []"
| "trust_entries hexd seen (e # es) =
     and_then (ok_or (BadFingerprint (wc_name e)) (hexd (wc_fingerprint e))) (\<lambda>fp.
       if length fp \<noteq> 32 then Inl (BadFingerprint (wc_name e))
       else if empty_window e then Inl (EmptyValidity (wc_name e))
       else if fp \<in> seen then Inl (Duplicate (wc_fingerprint e))
       else and_then (trust_entries hexd (insert fp seen) es) (\<lambda>cs.
         Inr (\<lparr>tc_name = wc_name e, tc_fingerprint = fp, tc_valid_from_ms = wc_valid_from_ms e,
           tc_valid_until_ms = wc_valid_until_ms e, tc_revoked = wc_revoked e\<rparr> # cs)))"

definition from_json ::
    "(string \<Rightarrow> string + wire_list) \<Rightarrow> (string \<Rightarrow> bytes option) \<Rightarrow> string \<Rightarrow> trust_list_error + trust_list" where
  "from_json parse hexd json =
     and_then (map_err TrustJson (parse json)) (\<lambda>wire.
       if wl_version wire \<noteq> 1 then Inl (UnsupportedVersion (wl_version wire))
       else trust_entries hexd {} (wl_collectors wire))"

definition lookup :: "trust_list \<Rightarrow> bytes \<Rightarrow> trusted_collector option" where
  "lookup trusted fingerprint = List.find (\<lambda>c. tc_fingerprint c = fingerprint) trusted"

datatype unavailable_reason = NoVerifiedReceipt | JournalUnreadable receipt_error

datatype origin_assessment =
    TrustedCollector string bytes
  | SelfAttested bytes
  | Revoked string bytes
  | OutsideValidity string bytes
  | OriginUnavailable unavailable_reason

fun is_trusted :: "origin_assessment \<Rightarrow> bool" where
  "is_trusted (TrustedCollector _ _) = True"
| "is_trusted _ = False"

fun label :: "origin_assessment \<Rightarrow> string" where
  "label (TrustedCollector n _) = ''TRUSTED_COLLECTOR('' @ n @ '')''"
| "label (SelfAttested _) = ''SELF_ATTESTED''"
| "label (Revoked n _) = ''REVOKED_COLLECTOR('' @ n @ '')''"
| "label (OutsideValidity n _) = ''COLLECTOR_OUTSIDE_VALIDITY('' @ n @ '')''"
| "label (OriginUnavailable _) = ''ORIGIN_UNAVAILABLE''"

definition assess_origin :: "bytes \<Rightarrow> int \<Rightarrow> trust_list \<Rightarrow> origin_assessment" where
  "assess_origin fingerprint period_end trusted =
     (case lookup trusted fingerprint of
        None \<Rightarrow> SelfAttested fingerprint
      | Some c \<Rightarrow>
          if tc_revoked c then Revoked (tc_name c) fingerprint
          else
            let too_early = (case tc_valid_from_ms c of None \<Rightarrow> False | Some f \<Rightarrow> period_end < f);
                too_late = (case tc_valid_until_ms c of None \<Rightarrow> False | Some u \<Rightarrow> period_end > u)
            in if too_early \<or> too_late then OutsideValidity (tc_name c) fingerprint
               else TrustedCollector (tc_name c) fingerprint)"

section \<open>report.rs\<close>

datatype fail_reason =
    HashesFailed "hash_mismatch list"
  | RootFailed merkle_error
  | ReceiptFailed receipt_error
  | AnchorFailed anchor_error
  | CoverageFailed nat nat

datatype check_outcome = Pass | Fail fail_reason | Unavailable string

fun is_pass :: "check_outcome \<Rightarrow> bool" where
  "is_pass Pass = True"
| "is_pass _ = False"

lemma is_pass_iff [simp]: "is_pass c \<longleftrightarrow> c = Pass"
  by (cases c) simp_all

datatype mode = Offline int | Online

record verification_report =
  vr_mode :: mode
  vr_hashes :: check_outcome
  vr_account_set_root :: check_outcome
  vr_calculation :: check_outcome
  vr_registry :: check_outcome
  vr_coverage :: check_outcome
  vr_origin :: origin_assessment

definition all_pass :: "verification_report \<Rightarrow> bool" where
  "all_pass r \<longleftrightarrow> is_pass (vr_hashes r) \<and> is_pass (vr_account_set_root r) \<and>
     is_pass (vr_calculation r) \<and> is_pass (vr_registry r) \<and> is_pass (vr_coverage r)"

definition origin_summary :: "verification_report \<Rightarrow> string" where
  "origin_summary r = ''ORIGIN='' @ label (vr_origin r)"

definition summary :: "verification_report \<Rightarrow> string" where
  "summary r =
     (if \<not> all_pass r then ''INVALID''
      else case vr_mode r of
        Offline as_of_ms \<Rightarrow> ''VALID_AS_OF('' @ show_int as_of_ms @ '')''
      | Online \<Rightarrow> ''VALID'')"

section \<open>verify.rs\<close>

record verification_input =
  vi_bundle :: public_bundle
  vi_account_set_root :: bytes
  vi_member_ids :: "string list"
  vi_receipt_bytes :: bytes
  vi_expected_journal_bytes :: bytes
  vi_image_id :: image_id
  vi_claimed_anchor :: trusted_anchor
  vi_trusted_anchors :: "trusted_anchor set"
  vi_coverage_policy :: calendar_policy
  vi_last_committed_end_ms :: int
  vi_now_ms :: int
  vi_claimed_gaps :: "gap list"
  vi_mode :: mode
  vi_trust_list :: trust_list

definition hashes_check :: "sha \<Rightarrow> (bytes \<Rightarrow> string) \<Rightarrow> verification_input \<Rightarrow> check_outcome" where
  "hashes_check H hexe inp =
     (let ms = verify_hashes H hexe (vi_bundle inp) in if ms = [] then Pass else Fail (HashesFailed ms))"

definition root_check :: "sha \<Rightarrow> verification_input \<Rightarrow> check_outcome option" where
  "root_check H inp =
     (if vi_member_ids inp = []
      then Some (Unavailable ''bundle carries no account membership to check accountSetRoot against'')
      else map_option (\<lambda>r. case r of Inr _ \<Rightarrow> Pass | Inl e \<Rightarrow> Fail (RootFailed e))
             (verify_account_set_root H (vi_account_set_root inp) (vi_member_ids inp)))"

definition calculation_check :: "zkvm \<Rightarrow> verification_input \<Rightarrow> check_outcome" where
  "calculation_check Z inp =
     (if vi_receipt_bytes inp = [] then Unavailable ''bundle carries no receipt to verify''
      else case verify_receipt Z (vi_receipt_bytes inp) (vi_image_id inp) (vi_expected_journal_bytes inp) of
        Inr _ \<Rightarrow> Pass | Inl e \<Rightarrow> Fail (ReceiptFailed e))"

definition origin_check :: "zkvm \<Rightarrow> check_outcome \<Rightarrow> verification_input \<Rightarrow> origin_assessment" where
  "origin_check Z calculation inp =
     (if is_pass calculation
      then case decode_journal Z (vi_receipt_bytes inp) of
          Inr j \<Rightarrow> assess_origin (pj_signer_fingerprint j) (pj_period_end_ms j) (vi_trust_list inp)
        | Inl e \<Rightarrow> OriginUnavailable (JournalUnreadable e)
      else OriginUnavailable NoVerifiedReceipt)"

definition registry_check :: "verification_input \<Rightarrow> check_outcome" where
  "registry_check inp =
     (if an_tx_hash (vi_claimed_anchor inp) = ''''
      then Unavailable ''bundle carries no anchor to check against trusted anchors''
      else case verify_anchor (vi_claimed_anchor inp) (vi_trusted_anchors inp) of
        Inr _ \<Rightarrow> Pass | Inl e \<Rightarrow> Fail (AnchorFailed e))"

definition coverage_check :: "verification_input \<Rightarrow> check_outcome option" where
  "coverage_check inp =
     map_option (\<lambda>r. case r of
         Inr _ \<Rightarrow> Pass
       | Inl m \<Rightarrow> Fail (CoverageFailed (length (cm_recomputed m)) (length (cm_claimed m))))
       (verify_coverage (vi_coverage_policy inp) (vi_last_committed_end_ms inp) (vi_now_ms inp)
         (vi_claimed_gaps inp))"

definition verify :: "sha \<Rightarrow> (bytes \<Rightarrow> string) \<Rightarrow> zkvm \<Rightarrow> verification_input \<Rightarrow> verification_report option" where
  "verify H hexe Z inp =
     (let hashes = hashes_check H hexe inp in
      Option.bind (root_check H inp) (\<lambda>account_set_root.
      let calculation = calculation_check Z inp;
          origin = origin_check Z calculation inp;
          registry = registry_check inp
      in Option.bind (coverage_check inp) (\<lambda>coverage.
        Some \<lparr>vr_mode = vi_mode inp, vr_hashes = hashes, vr_account_set_root = account_set_root,
          vr_calculation = calculation, vr_registry = registry, vr_coverage = coverage, vr_origin = origin\<rparr>)))"

section \<open>What each check decides\<close>

lemma no_mismatches:
  "mismatches_from H hexe files ms = [] \<longleftrightarrow>
     (\<forall>(path, entry) \<in> set ms. \<exists>content. map_of files path = Some content \<and>
        sha256_hex H hexe content = me_hash entry)"
  by (induction H hexe files ms rule: mismatches_from.induct) (auto simp: Let_def split: option.splits)

text \<open>The lemmas of the checks, under one name.\<close>

lemma hashes_check_pass:
  "hashes_check H hexe inp = Pass \<longleftrightarrow>
     (\<forall>(path, entry) \<in> set (mf_files (bu_manifest (vi_bundle inp))).
        \<exists>content. bundle_file (vi_bundle inp) path = Some content \<and>
          sha256_hex H hexe content = me_hash entry)"
  by (simp add: hashes_check_def verify_hashes_def no_mismatches bundle_file_def Let_def)

lemma root_check_pass:
  "root_check H inp = Some Pass \<longleftrightarrow> vi_member_ids inp \<noteq> [] \<and>
     (\<exists>t. build H (map (member_leaf H) (vi_member_ids inp)) = Some (Inr t) \<and>
        mt_root t = vi_account_set_root inp)"
  by (auto simp: root_check_def verify_account_set_root_def and_then_def split: option.splits sum.splits if_splits)

lemma verify_receipt_Inr:
  "verify_receipt Z bs img j = Inr u \<longleftrightarrow>
     (\<exists>rc. zk_deserialize Z bs = Inr rc \<and> zk_verify Z rc img = Inr () \<and> rc_journal rc = j)"
  by (auto simp: verify_receipt_def)

lemma calculation_check_pass:
  "calculation_check Z inp = Pass \<longleftrightarrow> vi_receipt_bytes inp \<noteq> [] \<and>
     (\<exists>rc. zk_deserialize Z (vi_receipt_bytes inp) = Inr rc \<and> zk_verify Z rc (vi_image_id inp) = Inr () \<and>
        rc_journal rc = vi_expected_journal_bytes inp)"
  by (auto simp: calculation_check_def verify_receipt_Inr split: sum.splits if_splits)
     (metis verify_receipt_Inr sum.distinct(1))

lemma registry_check_pass:
  "registry_check inp = Pass \<longleftrightarrow>
     an_tx_hash (vi_claimed_anchor inp) \<noteq> '''' \<and> vi_claimed_anchor inp \<in> vi_trusted_anchors inp"
  by (simp add: registry_check_def verify_anchor_def)

lemma coverage_check_pass:
  "coverage_check inp = Some Pass \<longleftrightarrow>
     derive_gaps (vi_coverage_policy inp) (vi_last_committed_end_ms inp) (vi_now_ms inp) =
       Some (vi_claimed_gaps inp)"
  by (auto simp: coverage_check_def verify_coverage_def split: option.splits sum.splits)

lemmas check_pass = hashes_check_pass root_check_pass calculation_check_pass registry_check_pass
  coverage_check_pass

lemma verify_Some:
  "verify H hexe Z inp = Some r \<longleftrightarrow>
     (\<exists>root cov. root_check H inp = Some root \<and> coverage_check inp = Some cov \<and>
        r = \<lparr>vr_mode = vi_mode inp, vr_hashes = hashes_check H hexe inp, vr_account_set_root = root,
          vr_calculation = calculation_check Z inp, vr_registry = registry_check inp, vr_coverage = cov,
          vr_origin = origin_check Z (calculation_check Z inp) inp\<rparr>)"
  by (auto simp: verify_def Let_def split: bind_splits)

lemma summary_INVALID: "summary r = ''INVALID'' \<longleftrightarrow> \<not> all_pass r"
  by (auto simp: summary_def split: mode.splits)

section \<open>The trust list\<close>

lemma trust_entries_ok:
  "trust_entries hexd seen es = Inr cs \<Longrightarrow>
     distinct (map tc_fingerprint cs) \<and> seen \<inter> tc_fingerprint ` set cs = {} \<and>
     list_all2 (\<lambda>e c. hexd (wc_fingerprint e) = Some (tc_fingerprint c) \<and> length (tc_fingerprint c) = 32 \<and>
       tc_name c = wc_name e \<and> tc_revoked c = wc_revoked e \<and> tc_valid_from_ms c = wc_valid_from_ms e \<and>
       tc_valid_until_ms c = wc_valid_until_ms e \<and> \<not> empty_window e) es cs"
proof (induction hexd seen es arbitrary: cs rule: trust_entries.induct)
  case (2 hexd seen e es)
  from "2.prems" obtain fp cs' where fp: "hexd (wc_fingerprint e) = Some fp" "length fp = 32"
      "\<not> empty_window e" "fp \<notin> seen"
    and cs': "trust_entries hexd (insert fp seen) es = Inr cs'"
    and cs: "cs = \<lparr>tc_name = wc_name e, tc_fingerprint = fp, tc_valid_from_ms = wc_valid_from_ms e,
        tc_valid_until_ms = wc_valid_until_ms e, tc_revoked = wc_revoked e\<rparr> # cs'"
    by (auto split: if_splits)
  have "ok_or (BadFingerprint (wc_name e)) (hexd (wc_fingerprint e)) = Inr fp" using fp by simp
  from "2.IH" [of fp cs'] fp cs' show ?case by (auto simp: cs)
qed simp

lemma lookup_Some: "lookup trusted fp = Some c \<Longrightarrow> c \<in> set trusted \<and> tc_fingerprint c = fp"
  by (auto simp: lookup_def find_Some_iff)

lemma lookup_distinct:
  "distinct (map tc_fingerprint trusted) \<Longrightarrow> c \<in> set trusted \<Longrightarrow> lookup trusted (tc_fingerprint c) = Some c"
  by (induction trusted) (auto simp: lookup_def)

definition in_window :: "trusted_collector \<Rightarrow> int \<Rightarrow> bool" where
  "in_window c t \<longleftrightarrow> (\<forall>f. tc_valid_from_ms c = Some f \<longrightarrow> f \<le> t) \<and> (\<forall>u. tc_valid_until_ms c = Some u \<longrightarrow> t \<le> u)"

lemma assess_trusted:
  "assess_origin fp t trusted = TrustedCollector n fp' \<longleftrightarrow> fp' = fp \<and>
     (\<exists>c. lookup trusted fp = Some c \<and> tc_name c = n \<and> \<not> tc_revoked c \<and> in_window c t)"
  by (auto simp: assess_origin_def in_window_def Let_def not_less split: option.splits if_splits)

lemma filter_unique_key:
  "distinct (map f xs) \<Longrightarrow> x \<in> set xs \<Longrightarrow> f x = k \<Longrightarrow> filter (\<lambda>y. f y = k) xs = [x]"
proof (induction xs)
  case (Cons y ys)
  show ?case
  proof (cases "x = y")
    case True
    then have "filter (\<lambda>y. f y = k) ys = []" using Cons.prems by (auto simp: filter_empty_conv image_iff)
    then show ?thesis using True Cons.prems(3) by simp
  next
    case False
    then have "x \<in> set ys" and "f y \<noteq> k" using Cons.prems by (auto simp: image_iff)
    then show ?thesis using Cons by simp
  qed
qed simp

section \<open>Properties\<close>

text \<open>
  C2. What a verification report means. With a calendar that does not overflow, \<open>verify\<close> always
  returns a report, and its summary is \<open>INVALID\<close> unless all of the following hold: every file of the
  manifest is in the bundle with the hash the manifest gives it; the members are not empty and their
  Merkle root is the account-set root; the receipt decodes, verifies for the image id and carries
  exactly the expected journal; the anchor is named and among the trusted ones; and the claimed gaps
  are the ones the calendar derives. If they all hold the summary is \<open>VALID_AS_OF\<close> the given time
  offline, and \<open>VALID\<close> only online. A missing input is never a pass.
\<close>

theorem verify_report_meaning:
  assumes "sha256_len H"
    and "calendar_ok (vi_coverage_policy inp) (vi_last_committed_end_ms inp) (vi_now_ms inp)"
  shows "\<exists>r. verify H hexe Z inp = Some r \<and> summary r =
    (if (\<forall>(path, entry) \<in> set (mf_files (bu_manifest (vi_bundle inp))).
           \<exists>content. bundle_file (vi_bundle inp) path = Some content \<and>
             sha256_hex H hexe content = me_hash entry) \<and>
        vi_member_ids inp \<noteq> [] \<and>
        (\<exists>t. build H (map (member_leaf H) (vi_member_ids inp)) = Some (Inr t) \<and>
           mt_root t = vi_account_set_root inp) \<and>
        vi_receipt_bytes inp \<noteq> [] \<and>
        (\<exists>rc. zk_deserialize Z (vi_receipt_bytes inp) = Inr rc \<and> zk_verify Z rc (vi_image_id inp) = Inr () \<and>
           rc_journal rc = vi_expected_journal_bytes inp) \<and>
        an_tx_hash (vi_claimed_anchor inp) \<noteq> '''' \<and> vi_claimed_anchor inp \<in> vi_trusted_anchors inp \<and>
        derive_gaps (vi_coverage_policy inp) (vi_last_committed_end_ms inp) (vi_now_ms inp) =
          Some (vi_claimed_gaps inp)
     then case vi_mode inp of
         Offline as_of_ms \<Rightarrow> ''VALID_AS_OF('' @ show_int as_of_ms @ '')''
       | Online \<Rightarrow> ''VALID''
     else ''INVALID'')"
proof -
  have "digests (map (member_leaf H) (vi_member_ids inp))"
    using assms(1) by (simp add: digests_def list_all_iff member_leaf_def sha256_len_def)
  then obtain t where "build H (map (member_leaf H) (vi_member_ids inp)) = Some (Inr t)"
    using build_total [OF assms(1)] by blast
  then have "root_check H inp \<noteq> None" by (simp add: root_check_def verify_account_set_root_def)
  then obtain root where root: "root_check H inp = Some root" by blast
  obtain gaps where "derive_gaps (vi_coverage_policy inp) (vi_last_committed_end_ms inp) (vi_now_ms inp) = Some gaps"
    using derive_gaps_from_exact [OF assms(2) refl] by (auto simp: derive_gaps_def)
  then obtain cov where cov: "coverage_check inp = Some cov"
    by (auto simp: coverage_check_def verify_coverage_def)
  let ?r = "\<lparr>vr_mode = vi_mode inp, vr_hashes = hashes_check H hexe inp, vr_account_set_root = root,
    vr_calculation = calculation_check Z inp, vr_registry = registry_check inp, vr_coverage = cov,
    vr_origin = origin_check Z (calculation_check Z inp) inp\<rparr>"
  have "all_pass ?r \<longleftrightarrow> hashes_check H hexe inp = Pass \<and> root_check H inp = Some Pass \<and>
      calculation_check Z inp = Pass \<and> registry_check inp = Pass \<and> coverage_check inp = Some Pass"
    by (simp add: all_pass_def root cov)
  moreover have "verify H hexe Z inp = Some ?r" using root cov by (simp add: verify_Some)
  ultimately show ?thesis
    by (intro exI [of _ ?r] conjI) (simp_all only: summary_def check_pass verification_report.simps conj_assoc not_not if_not_P if_P split: if_split, auto)
qed

text \<open>
  The account-set root names one list of members: two bundles that verify against the same root
  list the same accounts in the same order, unless a SHA-256 collision has been found.
\<close>

theorem verify_binds_members:
  assumes "verify H hexe Z a = Some ra" and "verify H hexe Z b = Some rb"
    and "vr_account_set_root ra = Pass" and "vr_account_set_root rb = Pass"
    and "vi_account_set_root a = vi_account_set_root b"
    and "length (vi_member_ids a) < 2 ^ 64" and "length (vi_member_ids b) < 2 ^ 64"
  shows "vi_member_ids a = vi_member_ids b \<or> collision H"
proof -
  have "root_check H a = Some Pass" and "root_check H b = Some Pass" using assms(1-4) by (auto simp: verify_Some)
  then obtain t u where ne: "vi_member_ids a \<noteq> []" "vi_member_ids b \<noteq> []"
    and t: "build H (map (member_leaf H) (vi_member_ids a)) = Some (Inr t)" "mt_root t = vi_account_set_root a"
    and u: "build H (map (member_leaf H) (vi_member_ids b)) = Some (Inr u)" "mt_root u = vi_account_set_root b"
    by (auto simp: root_check_pass)
  have "map (member_leaf H) (vi_member_ids a) = map (member_leaf H) (vi_member_ids b) \<or> collision H"
    using build_root_binds [OF t(1) u(1)] ne t(2) u(2) assms(5-7) by simp
  moreover have "inj (member_leaf H) \<or> collision H"
    by (auto simp: inj_def member_leaf_def collision_def) (metis str_bytes_inj)
  ultimately show ?thesis by (auto dest: map_injective)
qed

text \<open>
  A parsed trust list is unambiguous: it has one entry per wire entry, no fingerprint twice, and
  every listed collector is assessed by its own entry, wherever it stands in the list. A revoked
  collector reads as revoked at every date, an active one as trusted exactly inside its window, and a
  key that is not listed as self-attested.
\<close>

theorem trust_list_unambiguous:
  assumes "from_json parse hexd json = Inr trusted"
  shows "distinct (map tc_fingerprint trusted) \<and>
    (\<exists>wire. parse json = Inr wire \<and> wl_version wire = 1 \<and>
       map tc_name trusted = map wc_name (wl_collectors wire) \<and>
       map (Some \<circ> tc_fingerprint) trusted = map (hexd \<circ> wc_fingerprint) (wl_collectors wire)) \<and>
    (\<forall>fp t. assess_origin fp t trusted =
      (case filter (\<lambda>c. tc_fingerprint c = fp) trusted of
         [] \<Rightarrow> SelfAttested fp
       | c # _ \<Rightarrow> if tc_revoked c then Revoked (tc_name c) fp
           else if in_window c t then TrustedCollector (tc_name c) fp
           else OutsideValidity (tc_name c) fp))"
proof -
  obtain wire where wire: "parse json = Inr wire" "wl_version wire = 1"
      "trust_entries hexd {} (wl_collectors wire) = Inr trusted"
    using assms by (auto simp: from_json_def split: if_splits)
  note ok = trust_entries_ok [OF wire(3)]
  have m: "map tc_name trusted = map wc_name (wl_collectors wire)"
    "map (Some \<circ> tc_fingerprint) trusted = map (hexd \<circ> wc_fingerprint) (wl_collectors wire)"
    using ok by (auto simp: list_all2_conv_all_nth intro!: nth_equalityI)
  have "lookup trusted fp = (case filter (\<lambda>c. tc_fingerprint c = fp) trusted of [] \<Rightarrow> None | c # _ \<Rightarrow> Some c)" for fp
    by (induction trusted) (auto simp: lookup_def)
  then have "assess_origin fp t trusted = (case filter (\<lambda>c. tc_fingerprint c = fp) trusted of
         [] \<Rightarrow> SelfAttested fp
       | c # _ \<Rightarrow> if tc_revoked c then Revoked (tc_name c) fp
           else if in_window c t then TrustedCollector (tc_name c) fp
           else OutsideValidity (tc_name c) fp)" for fp t
    by (auto simp: assess_origin_def in_window_def Let_def not_less split: option.splits list.splits)
  then show ?thesis using ok m wire by blast
qed

text \<open>
  The journal the performance guest commits, and what the zkVM promises of the receipts for its image:
  a receipt that verifies was produced by a run of the guest that returned an output, and its journal
  decodes to that output. This is the documented soundness of \<open>risc0_zkvm\<close>, a hypothesis here.
\<close>

definition journal_of :: "guest_output \<Rightarrow> performance_journal" where
  "journal_of out = \<lparr>pj_envelope_digest = go_envelope_digest out, pj_signer_fingerprint = go_signer_fingerprint out,
     pj_period_start_ms = go_period_start_ms out, pj_period_end_ms = go_period_end_ms out,
     pj_twr_index_scaled = go_twr_index_scaled out, pj_mdd_bp = go_mdd_bp out, pj_capital = go_capital out\<rparr>"

definition zkvm_sound :: "sha \<Rightarrow> ('sk, 'vk, 'sig, 'z) ecdsa_scheme \<Rightarrow> zkvm \<Rightarrow> image_id \<Rightarrow> bool" where
  "zkvm_sound H E Z img \<longleftrightarrow> (\<forall>rc. zk_verify Z rc img = Inr () \<longrightarrow>
     (\<exists>ginp out. run H E ginp = Inr out \<and> zk_decode Z (rc_journal rc) = Inr (journal_of out)))"

text \<open>
  C1. What a trusted origin means, end to end. If the verifier reports \<open>TRUSTED_COLLECTOR\<close>, then the
  receipt verified and the guest ran over an envelope signed with a key whose fingerprint is that of
  exactly one collector of the trust list, which is not revoked and whose window contains the end of
  the envelope's period; the journal carries that envelope's digest and period.
\<close>

theorem trusted_origin_end_to_end:
  assumes "zkvm_sound H E Z (vi_image_id inp)"
    and "from_json parse hexd json = Inr (vi_trust_list inp)"
    and "verify H hexe Z inp = Some r" and "vr_origin r = TrustedCollector n fp"
  shows "vr_calculation r = Pass \<and> (\<exists>ginp out vk sig c.
    run H E ginp = Inr out \<and> zk_decode Z (vi_expected_journal_bytes inp) = Inr (journal_of out) \<and>
    go_envelope_digest out = digest H (gi_envelope ginp) \<and>
    ec_parse_key E (gi_verifying_key_sec1 ginp) = Some vk \<and> verify_envelope H E vk (gi_envelope ginp) sig \<and>
    fp = collector_fingerprint H E vk \<and> filter (\<lambda>c. tc_fingerprint c = fp) (vi_trust_list inp) = [c] \<and>
    tc_name c = n \<and> \<not> tc_revoked c \<and> in_window c (period_end_ms (gi_envelope ginp)))"
proof -
  have origin: "origin_check Z (calculation_check Z inp) inp = TrustedCollector n fp"
    and calc: "vr_calculation r = calculation_check Z inp" using assms(3,4) by (auto simp: verify_Some)
  then have pass: "calculation_check Z inp = Pass" by (auto simp: origin_check_def split: if_splits)
  then obtain rc where rc: "zk_deserialize Z (vi_receipt_bytes inp) = Inr rc"
      "zk_verify Z rc (vi_image_id inp) = Inr ()" "rc_journal rc = vi_expected_journal_bytes inp"
    by (auto simp: calculation_check_pass)
  obtain ginp out where out: "run H E ginp = Inr out" "zk_decode Z (rc_journal rc) = Inr (journal_of out)"
    using assms(1) rc(2) by (auto simp: zkvm_sound_def)
  have "assess_origin (go_signer_fingerprint out) (go_period_end_ms out) (vi_trust_list inp) = TrustedCollector n fp"
    using origin pass rc out by (simp add: origin_check_def decode_journal_def decode_journal_bytes_def journal_of_def)
  then obtain c where fp: "fp = go_signer_fingerprint out" and c: "lookup (vi_trust_list inp) fp = Some c"
      "tc_name c = n" "\<not> tc_revoked c" "in_window c (go_period_end_ms out)"
    by (auto simp: assess_trusted)
  have "distinct (map tc_fingerprint (vi_trust_list inp))"
    using assms(2) trust_entries_ok [of hexd "{}" _ "vi_trust_list inp"] by (auto simp: from_json_def split: if_splits)
  then have one: "filter (\<lambda>c. tc_fingerprint c = fp) (vi_trust_list inp) = [c]"
    using lookup_Some [OF c(1)] by (auto intro: filter_unique_key)
  from out(1) show ?thesis
  proof (rule run_InrE)
    fix vk sig
    assume "ec_parse_key E (gi_verifying_key_sec1 ginp) = Some vk"
      "ec_verify E vk (digest H (gi_envelope ginp)) sig"
      "go_envelope_digest out = digest H (gi_envelope ginp)"
      "go_signer_fingerprint out = collector_fingerprint H E vk"
      "go_period_end_ms out = period_end_ms (gi_envelope ginp)"
    then show ?thesis using out rc(3) fp c(2-4) one calc pass
      by (intro conjI exI [of _ ginp] exI [of _ out] exI [of _ vk] exI [of _ sig] exI [of _ c])
         (simp_all add: verify_envelope_def)
  qed
qed

section \<open>Witnesses\<close>

definition sample_ginp :: guest_input where
  "sample_ginp = sample_input\<lparr>gi_signature_compact := sign_envelope sample_sha sample_ecdsa [2, 7] sample_envelope\<rparr>"

definition sample_fp :: bytes where
  "sample_fp = collector_fingerprint sample_sha sample_ecdsa [2, 7]"

definition sample_gout :: guest_output where
  "sample_gout = sample_output\<lparr>go_envelope_digest := digest sample_sha sample_envelope,
     go_signer_fingerprint := sample_fp\<rparr>"

lemma sample_grun: "run sample_sha sample_ecdsa sample_ginp = Inr sample_gout"
  using sample_compute
  by (simp add: run_def verify_origin_def sample_ginp_def sample_input_def sample_ecdsa_def sign_envelope_def
    guest_digest_eq guest_fingerprint_eq sample_gout_def sample_output_def sample_fp_def Let_def)
    (simp add: sample_envelope_def)

lemma sample_fp: "length sample_fp = 32" "sample_fp \<noteq> replicate 32 0"
proof -
  show "length sample_fp = 32" using sample_sha_len by (simp add: sample_fp_def collector_fingerprint_def sha256_len_def)
  have "hd sample_fp = 7"
    by (simp add: sample_fp_def collector_fingerprint_def sample_sha_def sample_ecdsa_def hd_append)
  moreover have "hd (replicate 32 (0 :: byte)) \<noteq> 7" by simp
  ultimately show "sample_fp \<noteq> replicate 32 0" by metis
qed

definition sample_zkvm :: zkvm where
  "sample_zkvm = \<lparr>zk_deserialize = (\<lambda>bs. Inr \<lparr>rc_journal = bs, rc_seal = []\<rparr>),
     zk_verify = (\<lambda>rc img. if rc_journal rc = [42] \<and> img = [7] then Inr () else Inl ''bad seal''),
     zk_decode = (\<lambda>bs. if bs = [42] then Inr (journal_of sample_gout) else Inl ''layout'')\<rparr>"

lemma sample_zkvm_sound: "zkvm_sound sample_sha sample_ecdsa sample_zkvm [7]"
  using sample_grun by (auto simp: zkvm_sound_def sample_zkvm_def)

definition sample_wire :: wire_list where
  "sample_wire = \<lparr>wl_version = 1, wl_collectors =
     [\<lparr>wc_name = ''old'', wc_fingerprint = ''00'', wc_valid_from_ms = None, wc_valid_until_ms = None, wc_revoked = True\<rparr>,
      \<lparr>wc_name = ''main'', wc_fingerprint = ''01'', wc_valid_from_ms = Some 0, wc_valid_until_ms = None, wc_revoked = False\<rparr>]\<rparr>"

definition sample_hex :: "string \<Rightarrow> bytes option" where
  "sample_hex s = (if s = ''00'' then Some (replicate 32 0) else if s = ''01'' then Some sample_fp else None)"

definition sample_trust :: trust_list where
  "sample_trust =
     [\<lparr>tc_name = ''old'', tc_fingerprint = replicate 32 0, tc_valid_from_ms = None, tc_valid_until_ms = None, tc_revoked = True\<rparr>,
      \<lparr>tc_name = ''main'', tc_fingerprint = sample_fp, tc_valid_from_ms = Some 0, tc_valid_until_ms = None, tc_revoked = False\<rparr>]"

lemma sample_from_json: "from_json (\<lambda>_. Inr sample_wire) sample_hex json = Inr sample_trust"
  using sample_fp by (simp add: from_json_def sample_wire_def sample_hex_def empty_window_def sample_trust_def)

theorem trust_list_unambiguous_witness:
  "assess_origin (replicate 32 0) 5 sample_trust = Revoked ''old'' (replicate 32 0) \<and>
   assess_origin sample_fp 5 sample_trust = TrustedCollector ''main'' sample_fp \<and>
   assess_origin [] 5 sample_trust = SelfAttested []"
  using trust_list_unambiguous [OF sample_from_json] sample_fp
  by (simp add: sample_trust_def in_window_def) auto

definition sample_vi :: "bytes \<Rightarrow> verification_input" where
  "sample_vi rt = \<lparr>vi_bundle = \<lparr>bu_manifest = \<lparr>mf_version = ''1'',
         mf_files = [(''a'', \<lparr>me_hash = ''h'', me_size_bytes = 2\<rparr>)]\<rparr>, bu_files = [(''a'', ''{}'')]\<rparr>,
     vi_account_set_root = rt, vi_member_ids = [''acc-1'', ''acc-2''], vi_receipt_bytes = [42],
     vi_expected_journal_bytes = [42], vi_image_id = [7],
     vi_claimed_anchor = \<lparr>an_tx_hash = ''0xab'', an_block_number = 9\<rparr>,
     vi_trusted_anchors = {\<lparr>an_tx_hash = ''0xab'', an_block_number = 9\<rparr>},
     vi_coverage_policy = day_policy, vi_last_committed_end_ms = 0, vi_now_ms = 0, vi_claimed_gaps = [],
     vi_mode = Offline 7, vi_trust_list = sample_trust\<rparr>"

lemma sample_gaps: "derive_gaps day_policy 0 0 = Some []"
  by (simp add: derive_gaps_def derive_gaps_from.simps day_policy_def in_s_def)

lemma sample_root:
  "\<exists>t. build sample_sha (map (member_leaf sample_sha) [''acc-1'', ''acc-2'']) = Some (Inr t)"
  using sample_sha_len by (intro build_total) (simp_all add: digests_def member_leaf_def sha256_len_def)

theorem verify_report_meaning_witness:
  "\<exists>root r. verify sample_sha (\<lambda>_. ''h'') sample_zkvm (sample_vi root) = Some r \<and> summary r = ''VALID_AS_OF(7)''"
proof -
  obtain t where t: "build sample_sha (map (member_leaf sample_sha) [''acc-1'', ''acc-2'']) = Some (Inr t)"
    using sample_root by blast
  have cal: "calendar_ok (vi_coverage_policy (sample_vi (mt_root t))) (vi_last_committed_end_ms (sample_vi (mt_root t)))
      (vi_now_ms (sample_vi (mt_root t)))"
    by (simp add: sample_vi_def calendar_ok_def day_policy_def in_s_def)
  have show7: "show_int 7 = ''7''" by code_simp
  show ?thesis
    using verify_report_meaning [OF sample_sha_len cal, of "\<lambda>_. ''h''" sample_zkvm] t sample_gaps
    by (intro exI [of _ "mt_root t"])
      (simp add: sample_vi_def bundle_file_def sha256_hex_def sample_zkvm_def show7)
qed

theorem verify_binds_members_witness:
  "\<exists>root r. verify sample_sha (\<lambda>_. ''h'') sample_zkvm (sample_vi root) = Some r \<and> vr_account_set_root r = Pass \<and>
     (vi_member_ids (sample_vi root) = vi_member_ids (sample_vi root) \<or> collision sample_sha)"
proof -
  obtain t where t: "build sample_sha (map (member_leaf sample_sha) [''acc-1'', ''acc-2'']) = Some (Inr t)"
    using sample_root by blast
  let ?i = "sample_vi (mt_root t)"
  have root: "root_check sample_sha ?i = Some Pass" using t by (simp add: root_check_pass sample_vi_def)
  have "coverage_check ?i = Some Pass" using sample_gaps by (simp add: coverage_check_pass sample_vi_def)
  with root obtain r where r: "verify sample_sha (\<lambda>_. ''h'') sample_zkvm ?i = Some r" "vr_account_set_root r = Pass"
    by (simp add: verify_Some)
  have "length (vi_member_ids ?i) < 2 ^ 64" by (simp add: sample_vi_def)
  then show ?thesis using verify_binds_members [OF r(1) r(1) r(2) r(2) refl] r by blast
qed

theorem trusted_origin_end_to_end_witness:
  "\<exists>r. verify sample_sha (\<lambda>_. ''h'') sample_zkvm (sample_vi []) = Some r \<and> vr_calculation r = Pass \<and>
     (\<exists>(ginp :: guest_input) vk sig. verify_envelope sample_sha sample_ecdsa vk (gi_envelope ginp) sig \<and>
        sample_fp = collector_fingerprint sample_sha sample_ecdsa vk)"
proof -
  obtain t where t: "build sample_sha (map (member_leaf sample_sha) [''acc-1'', ''acc-2'']) = Some (Inr t)"
    using sample_root by blast
  let ?i = "sample_vi []"
  have "root_check sample_sha ?i \<noteq> None" using t by (simp add: root_check_def verify_account_set_root_def sample_vi_def)
  moreover have "coverage_check ?i = Some Pass" using sample_gaps by (simp add: coverage_check_pass sample_vi_def)
  moreover have calc: "calculation_check sample_zkvm ?i = Pass"
    by (simp add: calculation_check_pass sample_vi_def sample_zkvm_def)
  moreover have "origin_check sample_zkvm (calculation_check sample_zkvm ?i) ?i = TrustedCollector ''main'' sample_fp"
    using sample_fp unfolding calc
    by (simp add: origin_check_def decode_journal_def decode_journal_bytes_def sample_vi_def sample_zkvm_def journal_of_def
      sample_gout_def sample_output_def assess_origin_def lookup_def sample_trust_def)
  ultimately obtain r where r: "verify sample_sha (\<lambda>_. ''h'') sample_zkvm ?i = Some r"
      "vr_origin r = TrustedCollector ''main'' sample_fp"
    by (auto simp: verify_Some)
  have snd: "zkvm_sound sample_sha sample_ecdsa sample_zkvm (vi_image_id ?i)"
    and tr: "from_json (\<lambda>_. Inr sample_wire) sample_hex '''' = Inr (vi_trust_list ?i)"
    using sample_zkvm_sound sample_from_json by (simp_all add: sample_vi_def)
  from trusted_origin_end_to_end [OF snd tr r] show ?thesis
  proof (elim conjE exE)
    fix ginp :: guest_input and out vk sig c
    assume "vr_calculation r = Pass" "verify_envelope sample_sha sample_ecdsa vk (gi_envelope ginp) sig"
      "sample_fp = collector_fingerprint sample_sha sample_ecdsa vk"
    with r(1) show ?thesis by (intro exI conjI)
  qed
qed

end
