(* ===== verification/TlsOrigin.thy ===== *)
theory TlsOrigin
  imports Attestation
begin

text \<open>
  The TLS origin check, in its two implementations: services/collector/tlsn (session.rs, verify.rs)
  and the zkVM guest zkvm/methods/tls-origin (session.rs, verify.rs, lib.rs), which mirrors it field
  for field and decides the origin badge. SHA-256 and ECDSA are parameters, as in Attestation.
\<close>

section \<open>The session receipt\<close>

record tls_receipt =
  tr_server_name :: string
  tr_request_method :: string
  tr_request_path :: string
  tr_request_query :: string
  tr_response_status :: nat
  tr_response_body_hash :: bytes
  tr_disclosed_fields :: "string list"
  tr_wallet_binding_signature :: bytes
  tr_wallet_address :: bytes

text \<open>The bytes fed to the hasher, in the order of its updates.\<close>

definition binding_preimage :: "tls_receipt \<Rightarrow> bytes" where
  "binding_preimage r =
     str_bytes (tr_server_name r) @ str_bytes (tr_request_method r) @ str_bytes (tr_request_path r) @
     str_bytes (tr_request_query r) @ be_bytes 2 (tr_response_status r) @ tr_response_body_hash r @
     concat (map str_bytes (tr_disclosed_fields r)) @ tr_wallet_address r"

definition binding_digest :: "sha \<Rightarrow> tls_receipt \<Rightarrow> bytes" where
  "binding_digest H r = H (binding_preimage r)"

definition REQUIRED_DISCLOSED_CATEGORIES :: "string list" where
  "REQUIRED_DISCLOSED_CATEGORIES =
     [''wallet_selector'', ''symbol'', ''filter'', ''type'', ''time_window'', ''error'', ''relevant_count'']"

section \<open>services/collector/tlsn\<close>

datatype session_error =
    HostnameMismatch string string
  | RedactionHidesRequiredField string
  | WalletBindingInvalid
  | RawNotBoundToInput

fun check_disclosed :: "string list \<Rightarrow> string list \<Rightarrow> session_error + unit" where
  "check_disclosed disclosed [] = Inr ()"
| "check_disclosed disclosed (category # rest) =
     (if \<not> list_ex (\<lambda>field. field = category) disclosed then Inl (RedactionHidesRequiredField category)
      else check_disclosed disclosed rest)"

definition verify_session_shape :: "tls_receipt \<Rightarrow> string \<Rightarrow> session_error + unit" where
  "verify_session_shape r expected_hostname =
     (if tr_server_name r \<noteq> expected_hostname then Inl (HostnameMismatch expected_hostname (tr_server_name r))
      else check_disclosed (tr_disclosed_fields r) REQUIRED_DISCLOSED_CATEGORIES)"

definition verify_wallet_binding ::
    "sha \<Rightarrow> ('sk, 'vk, 'sig, 'z) ecdsa_scheme \<Rightarrow> tls_receipt \<Rightarrow> bytes \<Rightarrow> session_error + unit" where
  "verify_wallet_binding H E r verifying_key_sec1 =
     and_then (ok_or WalletBindingInvalid (ec_parse_key E verifying_key_sec1)) (\<lambda>vk.
     and_then (ok_or WalletBindingInvalid (ec_parse_sig E (tr_wallet_binding_signature r))) (\<lambda>sig.
       if ec_verify E vk (binding_digest H r) sig then Inr () else Inl WalletBindingInvalid))"

definition verify_raw_bound_to_input :: "sha \<Rightarrow> tls_receipt \<Rightarrow> bytes \<Rightarrow> session_error + unit" where
  "verify_raw_bound_to_input H r actual_input_bytes =
     (if H actual_input_bytes \<noteq> tr_response_body_hash r then Inl RawNotBoundToInput else Inr ())"

section \<open>zkvm/methods/tls-origin\<close>

definition guest_binding_digest :: "sha \<Rightarrow> tls_receipt \<Rightarrow> bytes" where
  "guest_binding_digest H r = H
     (str_bytes (tr_server_name r) @ str_bytes (tr_request_method r) @ str_bytes (tr_request_path r) @
      str_bytes (tr_request_query r) @ be_bytes 2 (tr_response_status r) @ tr_response_body_hash r @
      concat (map str_bytes (tr_disclosed_fields r)) @ tr_wallet_address r)"

datatype guest_session_error =
    GHostnameMismatch
  | GRedactionHidesRequiredField
  | GWalletBindingInvalid
  | GRawNotBoundToInput

fun guest_check_disclosed :: "string list \<Rightarrow> string list \<Rightarrow> guest_session_error + unit" where
  "guest_check_disclosed disclosed [] = Inr ()"
| "guest_check_disclosed disclosed (category # rest) =
     (if \<not> list_ex (\<lambda>field. field = category) disclosed then Inl GRedactionHidesRequiredField
      else guest_check_disclosed disclosed rest)"

definition guest_session_shape :: "tls_receipt \<Rightarrow> string \<Rightarrow> guest_session_error + unit" where
  "guest_session_shape r expected_hostname =
     (if tr_server_name r \<noteq> expected_hostname then Inl GHostnameMismatch
      else guest_check_disclosed (tr_disclosed_fields r) REQUIRED_DISCLOSED_CATEGORIES)"

definition guest_wallet_binding ::
    "sha \<Rightarrow> ('sk, 'vk, 'sig, 'z) ecdsa_scheme \<Rightarrow> tls_receipt \<Rightarrow> bytes \<Rightarrow> guest_session_error + unit" where
  "guest_wallet_binding H E r verifying_key_sec1 =
     and_then (ok_or GWalletBindingInvalid (ec_parse_key E verifying_key_sec1)) (\<lambda>vk.
     and_then (ok_or GWalletBindingInvalid (ec_parse_sig E (tr_wallet_binding_signature r))) (\<lambda>sig.
       if ec_verify E vk (guest_binding_digest H r) sig then Inr () else Inl GWalletBindingInvalid))"

definition guest_raw_bound_to_input :: "sha \<Rightarrow> tls_receipt \<Rightarrow> bytes \<Rightarrow> guest_session_error + unit" where
  "guest_raw_bound_to_input H r normalized_input_bytes =
     (if H normalized_input_bytes \<noteq> tr_response_body_hash r then Inl GRawNotBoundToInput else Inr ())"

record tls_input =
  ti_receipt :: tls_receipt
  ti_verifying_key_sec1 :: bytes
  ti_normalized_input_bytes :: bytes
  ti_expected_hostname :: string
  ti_origin_verified_in_guest :: bool

datatype tls_badge = BadgeA1 | BridgeAttested

record tls_output =
  to_badge :: tls_badge
  to_normalized_input_digest :: bytes

definition tls_run ::
    "sha \<Rightarrow> ('sk, 'vk, 'sig, 'z) ecdsa_scheme \<Rightarrow> tls_input \<Rightarrow> guest_session_error + tls_output" where
  "tls_run H E inp =
     (if \<not> ti_origin_verified_in_guest inp
      then Inr \<lparr>to_badge = BridgeAttested, to_normalized_input_digest = H (ti_normalized_input_bytes inp)\<rparr>
      else
        and_then (guest_session_shape (ti_receipt inp) (ti_expected_hostname inp)) (\<lambda>_.
        and_then (guest_wallet_binding H E (ti_receipt inp) (ti_verifying_key_sec1 inp)) (\<lambda>_.
        and_then (guest_raw_bound_to_input H (ti_receipt inp) (ti_normalized_input_bytes inp)) (\<lambda>_.
          Inr \<lparr>to_badge = BadgeA1, to_normalized_input_digest = H (ti_normalized_input_bytes inp)\<rparr>))))"

section \<open>What the checks decide\<close>

lemma guest_digest_agrees [simp]: "guest_binding_digest H r = binding_digest H r"
  by (simp add: guest_binding_digest_def binding_digest_def binding_preimage_def)

lemma check_disclosed_ok: "check_disclosed disclosed cs = Inr u \<longleftrightarrow> set cs \<subseteq> set disclosed"
  by (induction cs) (auto simp: list_ex_iff)

lemma guest_check_disclosed_ok: "guest_check_disclosed disclosed cs = Inr u \<longleftrightarrow> set cs \<subseteq> set disclosed"
  by (induction cs) (auto simp: list_ex_iff)

lemma guest_shape_ok:
  "guest_session_shape r host = Inr u \<longleftrightarrow> tr_server_name r = host \<and>
     set REQUIRED_DISCLOSED_CATEGORIES \<subseteq> set (tr_disclosed_fields r)"
  by (simp add: guest_session_shape_def guest_check_disclosed_ok)

lemma guest_binding_ok:
  "guest_wallet_binding H E r key = Inr u \<longleftrightarrow> (\<exists>vk sig. ec_parse_key E key = Some vk \<and>
     ec_parse_sig E (tr_wallet_binding_signature r) = Some sig \<and> ec_verify E vk (binding_digest H r) sig)"
  by (auto simp: guest_wallet_binding_def)

lemma guest_raw_ok: "guest_raw_bound_to_input H r bs = Inr u \<longleftrightarrow> H bs = tr_response_body_hash r"
  by (simp add: guest_raw_bound_to_input_def)

text \<open>Each check of the guest accepts exactly what the collector's accepts.\<close>

lemma shape_ok: "verify_session_shape r host = Inr u \<longleftrightarrow> guest_session_shape r host = Inr ()"
  by (simp add: verify_session_shape_def check_disclosed_ok guest_shape_ok)

lemma binding_ok: "verify_wallet_binding H E r key = Inr u \<longleftrightarrow> guest_wallet_binding H E r key = Inr ()"
  by (auto simp: verify_wallet_binding_def guest_binding_ok)

lemma raw_ok: "verify_raw_bound_to_input H r bs = Inr u \<longleftrightarrow> guest_raw_bound_to_input H r bs = Inr ()"
  by (simp add: verify_raw_bound_to_input_def guest_raw_ok)

lemmas tls_checks = guest_shape_ok guest_binding_ok guest_raw_ok

lemma tls_run_in_guest:
  "ti_origin_verified_in_guest inp \<Longrightarrow> tls_run H E inp = Inr out \<longleftrightarrow>
     guest_session_shape (ti_receipt inp) (ti_expected_hostname inp) = Inr () \<and>
     guest_wallet_binding H E (ti_receipt inp) (ti_verifying_key_sec1 inp) = Inr () \<and>
     guest_raw_bound_to_input H (ti_receipt inp) (ti_normalized_input_bytes inp) = Inr () \<and>
     out = \<lparr>to_badge = BadgeA1, to_normalized_input_digest = H (ti_normalized_input_bytes inp)\<rparr>"
  by (auto simp: tls_run_def)

lemma tls_run_bridge:
  "\<not> ti_origin_verified_in_guest inp \<Longrightarrow> tls_run H E inp =
     Inr \<lparr>to_badge = BridgeAttested, to_normalized_input_digest = H (ti_normalized_input_bytes inp)\<rparr>"
  by (simp add: tls_run_def)

section \<open>Properties\<close>

text \<open>
  The A1 badge is earned inside the guest: the guest publishes it exactly when the session is
  checked in the guest and the three checks of the collector accept it, namely the host name, all
  seven categories that redaction must not hide, a signature over the binding digest, and the equality
  of the response hash with the hash of the input actually used. A bridged input never gets it,
  whatever its receipt, and every published digest is that of the input used.
\<close>

theorem tls_a1_only_after_checks:
  "(\<exists>out. tls_run H E inp = Inr out \<and> to_badge out = BadgeA1) \<longleftrightarrow>
     ti_origin_verified_in_guest inp \<and>
     verify_session_shape (ti_receipt inp) (ti_expected_hostname inp) = Inr () \<and>
     verify_wallet_binding H E (ti_receipt inp) (ti_verifying_key_sec1 inp) = Inr () \<and>
     verify_raw_bound_to_input H (ti_receipt inp) (ti_normalized_input_bytes inp) = Inr () \<and>
     set REQUIRED_DISCLOSED_CATEGORIES \<subseteq> set (tr_disclosed_fields (ti_receipt inp)) \<and>
     tr_server_name (ti_receipt inp) = ti_expected_hostname inp \<and>
     tr_response_body_hash (ti_receipt inp) = H (ti_normalized_input_bytes inp)"
proof (cases "ti_origin_verified_in_guest inp")
  case True
  then show ?thesis
    by (auto simp: tls_run_in_guest shape_ok binding_ok raw_ok guest_shape_ok guest_raw_ok)
next
  case False
  then show ?thesis by (simp add: tls_run_bridge)
qed

text \<open>
  The binding signature does not fix the request: the digest joins path and query (and every other
  text field) without their lengths, so any receipt that passes still passes, with the same signature
  and the same badge, after characters are moved from one to the other. No hash collision is involved.
\<close>

theorem tls_binding_malleable:
  assumes "p @ q = tr_request_path (ti_receipt inp) @ tr_request_query (ti_receipt inp)"
  shows "tls_run H E (inp\<lparr>ti_receipt := (ti_receipt inp)\<lparr>tr_request_path := p, tr_request_query := q\<rparr>\<rparr>) =
    tls_run H E inp"
proof -
  have e: "str_bytes p @ str_bytes q @ rest =
      str_bytes (tr_request_path (ti_receipt inp)) @ str_bytes (tr_request_query (ti_receipt inp)) @ rest" for rest
    using arg_cong [OF assms, of str_bytes] by (simp add: str_bytes_def)
  have "guest_wallet_binding H E ((ti_receipt inp)\<lparr>tr_request_path := p, tr_request_query := q\<rparr>) k =
      guest_wallet_binding H E (ti_receipt inp) k" for k
    by (simp add: guest_wallet_binding_def binding_digest_def binding_preimage_def e)
  then show ?thesis
    by (simp add: tls_run_def guest_session_shape_def guest_raw_bound_to_input_def)
qed

text \<open>
  The wallet of a receipt is not authenticated: whoever holds any signing key can make a receipt
  that names any wallet address, any host and any input, and the guest gives it the A1 badge. The
  verifying key is an input of its own and is never compared with the wallet address.
\<close>

theorem tls_wallet_not_authenticated:
  assumes "ecdsa_correct E" and "ec_parse_key E key_bytes = Some (ec_public E k)"
    and "\<forall>m. \<exists>bs. ec_parse_sig E bs = Some (ec_sign E k m)"
  shows "\<exists>r. tr_wallet_address r = wallet \<and> tr_server_name r = host \<and>
    tls_run H E \<lparr>ti_receipt = r, ti_verifying_key_sec1 = key_bytes, ti_normalized_input_bytes = input,
      ti_expected_hostname = host, ti_origin_verified_in_guest = True\<rparr> =
    Inr \<lparr>to_badge = BadgeA1, to_normalized_input_digest = H input\<rparr>"
proof -
  define r where "r = \<lparr>tr_server_name = host, tr_request_method = ''GET'', tr_request_path = ''/'',
    tr_request_query = '''', tr_response_status = 200, tr_response_body_hash = H input,
    tr_disclosed_fields = REQUIRED_DISCLOSED_CATEGORIES, tr_wallet_binding_signature = [],
    tr_wallet_address = wallet\<rparr>"
  obtain bs where bs: "ec_parse_sig E bs = Some (ec_sign E k (binding_digest H r))" using assms(3) by blast
  let ?r = "r\<lparr>tr_wallet_binding_signature := bs\<rparr>"
  have "binding_digest H ?r = binding_digest H r" by (simp add: binding_digest_def binding_preimage_def)
  then have "guest_wallet_binding H E ?r key_bytes = Inr ()"
    using assms(1,2) bs by (simp add: guest_binding_ok ecdsa_correct_def)
  moreover have "guest_session_shape ?r host = Inr ()" "guest_raw_bound_to_input H ?r input = Inr ()"
    "tr_wallet_address ?r = wallet" "tr_server_name ?r = host"
    by (simp_all add: r_def guest_shape_ok guest_raw_ok)
  ultimately show ?thesis by (intro exI [of _ ?r]) (simp add: tls_run_def)
qed

section \<open>Witnesses\<close>

definition echo_ecdsa :: "(bytes, bytes, bytes) ecdsa" where
  "echo_ecdsa = \<lparr>ec_signing_key = Some, ec_public = (\<lambda>k. k), ec_sign = (\<lambda>k m. k @ m),
     ec_verify = (\<lambda>k m s. s = k @ m), ec_point = (\<lambda>k. k), ec_parse_key = Some, ec_parse_sig = Some\<rparr>"

definition echo_receipt :: tls_receipt where
  "echo_receipt = \<lparr>tr_server_name = ''api.binance.com'', tr_request_method = ''GET'',
    tr_request_path = ''/api/v3/myTrades'', tr_request_query = ''symbol=BTCUSDT'', tr_response_status = 200,
    tr_response_body_hash = [1, 2], tr_disclosed_fields = REQUIRED_DISCLOSED_CATEGORIES,
    tr_wallet_binding_signature = [], tr_wallet_address = replicate 20 9\<rparr>"

definition echo_input :: tls_input where
  "echo_input = \<lparr>ti_receipt = echo_receipt\<lparr>tr_wallet_binding_signature := 7 # binding_preimage echo_receipt\<rparr>,
     ti_verifying_key_sec1 = [7], ti_normalized_input_bytes = [1, 2], ti_expected_hostname = ''api.binance.com'',
     ti_origin_verified_in_guest = True\<rparr>"

lemma echo_run: "tls_run (\<lambda>x. x) echo_ecdsa echo_input =
    Inr \<lparr>to_badge = BadgeA1, to_normalized_input_digest = [1, 2]\<rparr>"
  by (simp add: tls_run_in_guest tls_checks echo_input_def echo_ecdsa_def binding_digest_def)
    (simp add: echo_receipt_def binding_preimage_def)

theorem tls_binding_malleable_witness:
  "tls_run (\<lambda>x. x) echo_ecdsa (echo_input\<lparr>ti_receipt := (ti_receipt echo_input)
      \<lparr>tr_request_path := ''/api/v3/my'', tr_request_query := ''Tradessymbol=BTCUSDT''\<rparr>\<rparr>) =
    Inr \<lparr>to_badge = BadgeA1, to_normalized_input_digest = [1, 2]\<rparr>"
  by (subst tls_binding_malleable) (simp_all add: echo_run, simp add: echo_input_def echo_receipt_def)

theorem tls_wallet_not_authenticated_witness:
  "\<exists>r. tr_wallet_address r = replicate 20 255 \<and> tr_server_name r = ''api.binance.com'' \<and>
    tls_run (\<lambda>x. x) echo_ecdsa \<lparr>ti_receipt = r, ti_verifying_key_sec1 = [7], ti_normalized_input_bytes = [4],
      ti_expected_hostname = ''api.binance.com'', ti_origin_verified_in_guest = True\<rparr> =
    Inr \<lparr>to_badge = BadgeA1, to_normalized_input_digest = [4]\<rparr>"
  by (rule tls_wallet_not_authenticated [where k = "[7]"]) (simp_all add: ecdsa_correct_def echo_ecdsa_def)

end
