(* ===== verification/Vault.thy ===== *)
theory Vault
  imports Prelude
begin

text \<open>
  services/collector/credentials: the credential vault with its revoke-then-purge life cycle
  (vault.rs) over a key management service (kms.rs). AES-GCM, the JSON of the stored pair and the
  randomness are parameters: an operation that draws random bytes takes them as an argument. The
  \<open>HashMap\<close> of the vault is a map. Instants are \<open>u64\<close> milliseconds.
\<close>

section \<open>kms.rs\<close>

datatype kms_error = WrapFailed string | UnwrapFailed string

text \<open>The trait \<open>Kms\<close>; the first argument of wrapping is the nonce the service draws.\<close>

record kms =
  wrap_dek :: "bytes \<Rightarrow> string \<Rightarrow> bytes \<Rightarrow> kms_error + bytes"
  unwrap_dek :: "string \<Rightarrow> bytes \<Rightarrow> kms_error + bytes"

text \<open>The two AES-GCM calls of the \<open>aes_gcm\<close> crate: key, nonce, then plaintext or ciphertext.\<close>

record aead =
  aead_encrypt :: "bytes \<Rightarrow> bytes \<Rightarrow> bytes \<Rightarrow> string + bytes"
  aead_decrypt :: "bytes \<Rightarrow> bytes \<Rightarrow> bytes \<Rightarrow> string + bytes"

definition local_wrap_dek ::
    "aead \<Rightarrow> (string \<Rightarrow> bytes option) \<Rightarrow> bytes \<Rightarrow> string \<Rightarrow> bytes \<Rightarrow> kms_error + bytes" where
  "local_wrap_dek A keks nonce tenant_id dek =
     and_then (ok_or (WrapFailed (''unknown tenant: '' @ tenant_id)) (keks tenant_id)) (\<lambda>kek.
     and_then (map_err WrapFailed (aead_encrypt A kek nonce dek)) (\<lambda>ciphertext.
       Inr (nonce @ ciphertext)))"

definition local_unwrap_dek ::
    "aead \<Rightarrow> (string \<Rightarrow> bytes option) \<Rightarrow> string \<Rightarrow> bytes \<Rightarrow> kms_error + bytes" where
  "local_unwrap_dek A keks tenant_id wrapped =
     (if length wrapped < 12 then Inl (UnwrapFailed ''wrapped DEK shorter than nonce'')
      else
        and_then (ok_or (UnwrapFailed (''unknown tenant: '' @ tenant_id)) (keks tenant_id)) (\<lambda>kek.
        and_then (map_err UnwrapFailed (aead_decrypt A kek (take 12 wrapped) (drop 12 wrapped))) (\<lambda>plaintext.
          if length plaintext \<noteq> 32 then Inl (UnwrapFailed ''unwrapped DEK is not 32 bytes'')
          else Inr plaintext)))"

definition local_kms :: "aead \<Rightarrow> (string \<Rightarrow> bytes option) \<Rightarrow> kms" where
  "local_kms A keks = \<lparr>wrap_dek = local_wrap_dek A keks, unwrap_dek = local_unwrap_dek A keks\<rparr>"

section \<open>vault.rs\<close>

definition PURGE_GRACE_PERIOD_MS :: nat where
  "PURGE_GRACE_PERIOD_MS = 24 * 60 * 60 * 1000"

datatype environment = Production | Test

record api_credential =
  api_key :: string
  api_secret :: string

datatype vault_error =
    NotFound string
  | AlreadyExists string
  | RevokedE string
  | AlreadyRevoked string
  | PurgeNotDue string
  | AlreadyPurged string
  | KmsE kms_error
  | Encrypt string
  | Decrypt string

record credential_record =
  cr_credential_id :: string
  cr_tenant_id :: string
  cr_venue_id :: string
  cr_environment :: environment
  cr_created_at_ms :: nat
  cr_revoked_at_ms :: "nat option"
  cr_purge_deadline_ms :: "nat option"
  cr_purged :: bool
  cr_wrapped_dek :: bytes
  cr_nonce :: bytes
  cr_ciphertext :: bytes

definition is_revoked :: "credential_record \<Rightarrow> bool" where
  "is_revoked r \<longleftrightarrow> cr_revoked_at_ms r \<noteq> None"

type_synonym vault = "string \<Rightarrow> credential_record option"

text \<open>What the vault is built over: its key service, AES-GCM and the JSON of a credential.\<close>

record vault_env =
  ve_kms :: kms
  ve_aead :: aead
  ve_to_json :: "api_credential \<Rightarrow> string + bytes"
  ve_from_json :: "bytes \<Rightarrow> string + api_credential"

record entropy =
  en_dek :: bytes
  en_wrap_nonce :: bytes
  en_nonce :: bytes

definition new_vault :: vault where
  "new_vault = Map.empty"

definition store ::
    "vault_env \<Rightarrow> entropy \<Rightarrow> vault \<Rightarrow> string \<Rightarrow> string \<Rightarrow> string \<Rightarrow> environment \<Rightarrow> api_credential \<Rightarrow> nat \<Rightarrow>
      vault_error + vault" where
  "store V rnd records credential_id tenant_id venue_id envir credential now_ms =
     (if records credential_id \<noteq> None then Inl (AlreadyExists credential_id)
      else
        and_then (map_err KmsE (wrap_dek (ve_kms V) (en_wrap_nonce rnd) tenant_id (en_dek rnd))) (\<lambda>wrapped.
        and_then (map_err Encrypt (ve_to_json V credential)) (\<lambda>plaintext.
        and_then (map_err Encrypt (aead_encrypt (ve_aead V) (en_dek rnd) (en_nonce rnd) plaintext)) (\<lambda>ciphertext.
          Inr (records(credential_id \<mapsto>
            \<lparr>cr_credential_id = credential_id, cr_tenant_id = tenant_id, cr_venue_id = venue_id,
             cr_environment = envir, cr_created_at_ms = now_ms, cr_revoked_at_ms = None,
             cr_purge_deadline_ms = None, cr_purged = False, cr_wrapped_dek = wrapped,
             cr_nonce = en_nonce rnd, cr_ciphertext = ciphertext\<rparr>))))))"

definition retrieve :: "vault_env \<Rightarrow> vault \<Rightarrow> string \<Rightarrow> vault_error + api_credential" where
  "retrieve V records credential_id =
     and_then (ok_or (NotFound credential_id) (records credential_id)) (\<lambda>record.
       if cr_purged record then Inl (NotFound credential_id)
       else if is_revoked record then Inl (RevokedE credential_id)
       else
         and_then (map_err KmsE (unwrap_dek (ve_kms V) (cr_tenant_id record) (cr_wrapped_dek record))) (\<lambda>dek.
         and_then (map_err Decrypt (aead_decrypt (ve_aead V) dek (cr_nonce record) (cr_ciphertext record))) (\<lambda>plaintext.
           map_err Decrypt (ve_from_json V plaintext))))"

definition revoke :: "vault \<Rightarrow> string \<Rightarrow> nat \<Rightarrow> vault_error + vault" where
  "revoke records credential_id now_ms =
     and_then (ok_or (NotFound credential_id) (records credential_id)) (\<lambda>record.
       if is_revoked record then Inl (AlreadyRevoked credential_id)
       else Inr (records(credential_id \<mapsto> record\<lparr>cr_revoked_at_ms := Some now_ms,
              cr_purge_deadline_ms := Some (wrap_u64 (now_ms + PURGE_GRACE_PERIOD_MS))\<rparr>)))"

text \<open>\<open>zeroize\<close> empties a vector and zeroes an array.\<close>

definition purge :: "vault \<Rightarrow> string \<Rightarrow> nat \<Rightarrow> vault_error + vault" where
  "purge records credential_id now_ms =
     and_then (ok_or (NotFound credential_id) (records credential_id)) (\<lambda>record.
       if cr_purged record then Inl (AlreadyPurged credential_id)
       else
         and_then (ok_or (NotFound (credential_id @ '' was never revoked'')) (cr_purge_deadline_ms record)) (\<lambda>deadline.
           if now_ms < deadline then Inl (PurgeNotDue credential_id)
           else Inr (records(credential_id \<mapsto> record\<lparr>cr_wrapped_dek := [], cr_ciphertext := [],
                  cr_nonce := replicate 12 0, cr_purged := True\<rparr>))))"

text \<open>The order in which a \<open>HashMap\<close> lists its values is unspecified: the result is a set.\<close>

definition due_for_purge :: "vault \<Rightarrow> nat \<Rightarrow> string set" where
  "due_for_purge records now_ms =
     {cr_credential_id r | r. r \<in> ran records \<and> \<not> cr_purged r \<and>
        (case cr_purge_deadline_ms r of None \<Rightarrow> False | Some d \<Rightarrow> now_ms \<ge> d)}"

section \<open>The operations as one state machine\<close>

datatype vault_op =
    Store entropy string string string environment api_credential nat
  | Revoke string nat
  | Purge string nat

fun vault_apply :: "vault_env \<Rightarrow> vault \<Rightarrow> vault_op \<Rightarrow> vault_error + vault" where
  "vault_apply V records (Store rnd cid tenant venue envir c t) = store V rnd records cid tenant venue envir c t"
| "vault_apply V records (Revoke cid t) = revoke records cid t"
| "vault_apply V records (Purge cid t) = purge records cid t"

text \<open>A caller goes on after an error, with the vault as it was.\<close>

definition vault_next :: "vault_env \<Rightarrow> vault \<Rightarrow> vault_op \<Rightarrow> vault" where
  "vault_next V records op = (case vault_apply V records op of Inl _ \<Rightarrow> records | Inr records' \<Rightarrow> records')"

inductive vault_reachable :: "vault_env \<Rightarrow> vault \<Rightarrow> bool" for V where
  start: "vault_reachable V new_vault"
| step: "vault_reachable V records \<Longrightarrow> vault_reachable V (vault_next V records op)"

lemma vault_next_cases:
  assumes "P records"
    and "\<And>rnd cid tenant venue envir c t records'. store V rnd records cid tenant venue envir c t = Inr records' \<Longrightarrow> P records'"
    and "\<And>cid t records'. revoke records cid t = Inr records' \<Longrightarrow> P records'"
    and "\<And>cid t records'. purge records cid t = Inr records' \<Longrightarrow> P records'"
  shows "P (vault_next V records op)"
  using assms by (cases op) (auto simp: vault_next_def split: sum.splits)


definition vault_run :: "vault_env \<Rightarrow> vault \<Rightarrow> vault_op list \<Rightarrow> vault" where
  "vault_run V records ops = foldl (vault_next V) records ops"

lemma vault_run_reachable: "vault_reachable V v \<Longrightarrow> vault_reachable V (vault_run V v ops)"
  by (induction ops arbitrary: v) (simp_all add: vault_run_def vault_reachable.step)

text \<open>What each operation did when it succeeded.\<close>

lemma store_Inr:
  assumes "store V rnd v cid tenant venue envir c t = Inr v'"
  obtains w p ct where "v cid = None" and "wrap_dek (ve_kms V) (en_wrap_nonce rnd) tenant (en_dek rnd) = Inr w"
    and "ve_to_json V c = Inr p" and "aead_encrypt (ve_aead V) (en_dek rnd) (en_nonce rnd) p = Inr ct"
    and "v' = v(cid \<mapsto> \<lparr>cr_credential_id = cid, cr_tenant_id = tenant, cr_venue_id = venue,
        cr_environment = envir, cr_created_at_ms = t, cr_revoked_at_ms = None, cr_purge_deadline_ms = None,
        cr_purged = False, cr_wrapped_dek = w, cr_nonce = en_nonce rnd, cr_ciphertext = ct\<rparr>)"
  using assms by (auto simp: store_def split: if_splits)

lemma revoke_Inr:
  "revoke v cid t = Inr v' \<longleftrightarrow> (\<exists>r. v cid = Some r \<and> cr_revoked_at_ms r = None \<and>
     v' = v(cid \<mapsto> r\<lparr>cr_revoked_at_ms := Some t,
       cr_purge_deadline_ms := Some (wrap_u64 (t + PURGE_GRACE_PERIOD_MS))\<rparr>))"
  by (auto simp: revoke_def is_revoked_def)

lemma purge_Inr:
  "purge v cid t = Inr v' \<longleftrightarrow> (\<exists>r d. v cid = Some r \<and> \<not> cr_purged r \<and> cr_purge_deadline_ms r = Some d \<and> d \<le> t \<and>
     v' = v(cid \<mapsto> r\<lparr>cr_wrapped_dek := [], cr_ciphertext := [], cr_nonce := replicate 12 0, cr_purged := True\<rparr>))"
  by (auto simp: purge_def not_less)

section \<open>The invariant of the records\<close>

definition record_ok :: "string \<Rightarrow> credential_record \<Rightarrow> bool" where
  "record_ok cid r \<longleftrightarrow> cr_credential_id r = cid \<and>
     cr_purge_deadline_ms r = map_option (\<lambda>t. wrap_u64 (t + PURGE_GRACE_PERIOD_MS)) (cr_revoked_at_ms r) \<and>
     (cr_purged r \<longrightarrow> is_revoked r \<and> cr_wrapped_dek r = [] \<and> cr_ciphertext r = [] \<and> cr_nonce r = replicate 12 0)"

definition vault_ok :: "vault \<Rightarrow> bool" where
  "vault_ok v \<longleftrightarrow> (\<forall>cid r. v cid = Some r \<longrightarrow> record_ok cid r)"

lemma vault_ok_upd: "vault_ok v \<Longrightarrow> record_ok cid r \<Longrightarrow> vault_ok (v(cid \<mapsto> r))"
  by (simp add: vault_ok_def)

lemma vault_okD: "vault_ok v \<Longrightarrow> v cid = Some r \<Longrightarrow> record_ok cid r"
  by (simp add: vault_ok_def)

lemma vault_next_ok: "vault_ok v \<Longrightarrow> vault_ok (vault_next V v op)"
proof (rule vault_next_cases)
  assume ok: "vault_ok v"
  then show "vault_ok v" .
  show "vault_ok v'" if "store V rnd v cid tenant venue envir c t = Inr v'" for rnd cid tenant venue envir c t v'
    using that ok by (elim store_Inr) (simp add: vault_ok_upd record_ok_def)
  show "vault_ok v'" if "revoke v cid t = Inr v'" for cid t v'
    using that vault_okD [OF ok] unfolding revoke_Inr
    by (elim exE conjE) (auto intro!: vault_ok_upd [OF ok] simp: record_ok_def is_revoked_def)
  show "vault_ok v'" if "purge v cid t = Inr v'" for cid t v'
    using that vault_okD [OF ok] unfolding purge_Inr
    by (elim exE conjE) (auto intro!: vault_ok_upd [OF ok] simp: record_ok_def is_revoked_def)
qed

lemma vault_reachable_ok: "vault_reachable V v \<Longrightarrow> vault_ok v"
  by (induction rule: vault_reachable.induct) (simp_all add: vault_next_ok, simp add: vault_ok_def new_vault_def)

text \<open>A record is changed by a revocation and by a purge of its own id only, and is never removed.\<close>

lemma unrevoked_stays:
  assumes "v cid = Some r" and "cr_revoked_at_ms r = None" and "cr_purge_deadline_ms r = None"
    and "\<forall>t. Revoke cid t \<noteq> op"
  shows "vault_next V v op cid = Some r"
proof (cases op)
  case (Store rnd c tenant venue envir cred t)
  then show ?thesis using assms(1) by (auto simp: vault_next_def split: sum.splits elim!: store_Inr)
next
  case (Revoke c t)
  then show ?thesis using assms(1,4) by (auto simp: vault_next_def revoke_Inr split: sum.splits)
next
  case (Purge c t)
  then show ?thesis using assms(1,3) by (auto simp: vault_next_def purge_Inr split: sum.splits)
qed

lemma unrevoked_stays_run:
  "v cid = Some r \<Longrightarrow> cr_revoked_at_ms r = None \<Longrightarrow> cr_purge_deadline_ms r = None \<Longrightarrow>
     \<forall>t. Revoke cid t \<notin> set ops \<Longrightarrow> vault_run V v ops cid = Some r"
proof (induction ops arbitrary: v)
  case (Cons op ops)
  then have "vault_next V v op cid = Some r" by (intro unrevoked_stays) auto
  then show ?case using Cons by (simp add: vault_run_def)
qed (simp add: vault_run_def)

lemma revoked_stays:
  assumes "v cid = Some r" and "cr_revoked_at_ms r = Some t"
  shows "\<exists>r'. vault_next V v op cid = Some r' \<and> cr_revoked_at_ms r' = Some t \<and>
    cr_purge_deadline_ms r' = cr_purge_deadline_ms r \<and>
    (cr_purged r' \<longrightarrow> cr_purged r \<or> (\<exists>d t'. op = Purge cid t' \<and> cr_purge_deadline_ms r = Some d \<and> d \<le> t'))"
proof (cases op)
  case (Store rnd c tenant venue envir cred t)
  then show ?thesis using assms by (auto simp: vault_next_def split: sum.splits elim!: store_Inr)
next
  case (Revoke c t)
  then show ?thesis using assms by (auto simp: vault_next_def revoke_Inr split: sum.splits)
next
  case (Purge c t)
  then show ?thesis using assms by (auto simp: vault_next_def purge_Inr split: sum.splits)
qed

lemma revoked_stays_run:
  assumes "v cid = Some r" and "cr_revoked_at_ms r = Some t" and "cr_purge_deadline_ms r = Some d" and "\<not> cr_purged r"
  shows "\<exists>r'. vault_run V v ops cid = Some r' \<and> cr_revoked_at_ms r' = Some t \<and> cr_purge_deadline_ms r' = Some d \<and>
    (cr_purged r' \<longrightarrow> (\<exists>t'. Purge cid t' \<in> set ops \<and> d \<le> t'))"
proof (induction ops rule: rev_induct)
  case Nil
  then show ?case using assms by (simp add: vault_run_def)
next
  case (snoc op ops)
  then obtain r' where r': "vault_run V v ops cid = Some r'" "cr_revoked_at_ms r' = Some t"
      "cr_purge_deadline_ms r' = Some d" "cr_purged r' \<longrightarrow> (\<exists>t'. Purge cid t' \<in> set ops \<and> d \<le> t')" by blast
  show ?case using revoked_stays [where v = "vault_run V v ops" and cid = cid and V = V and op = op, OF r'(1) r'(2)] r'(3,4)
    by (auto simp: vault_run_def)
qed

section \<open>Hypotheses on the cryptography\<close>

text \<open>
  Documented behaviour of the crates: AES-GCM decrypts what it encrypted under the same key and nonce
  to the plaintext, JSON reads back what it wrote, a key service unwraps what it wrapped.
\<close>

definition aead_correct :: "aead \<Rightarrow> bool" where
  "aead_correct A \<longleftrightarrow> (\<forall>k n p c. aead_encrypt A k n p = Inr c \<longrightarrow> aead_decrypt A k n c = Inr p)"

definition kms_correct :: "kms \<Rightarrow> bool" where
  "kms_correct K \<longleftrightarrow> (\<forall>n tenant dek w. length n = 12 \<longrightarrow> length dek = 32 \<longrightarrow>
     wrap_dek K n tenant dek = Inr w \<longrightarrow> unwrap_dek K tenant w = Inr dek)"

definition json_correct :: "vault_env \<Rightarrow> bool" where
  "json_correct V \<longleftrightarrow> (\<forall>c p. ve_to_json V c = Inr p \<longrightarrow> ve_from_json V p = Inr c)"

definition entropy_ok :: "entropy \<Rightarrow> bool" where
  "entropy_ok rnd \<longleftrightarrow> length (en_dek rnd) = 32 \<and> length (en_wrap_nonce rnd) = 12 \<and> length (en_nonce rnd) = 12"

text \<open>The local key service keeps the contract of the trait, and no tenant unwraps another's key.\<close>

lemma local_kms_correct: "aead_correct A \<Longrightarrow> kms_correct (local_kms A keks)"
  by (auto simp: kms_correct_def local_kms_def local_wrap_dek_def local_unwrap_dek_def aead_correct_def)

lemma local_kms_unknown_tenant:
  "keks tenant = None \<Longrightarrow> \<exists>e. unwrap_dek (local_kms A keks) tenant w = Inl e"
  by (simp add: local_kms_def local_unwrap_dek_def)

section \<open>Properties\<close>

text \<open>
  A stored credential stays readable until it is revoked: after a successful \<open>store\<close> any
  operations on the vault, including attempts to store over it and to purge it early, leave
  \<open>retrieve\<close> returning the same key and secret, as long as none of them revokes that id.
\<close>

theorem vault_store_retrieve:
  assumes "kms_correct (ve_kms V)" and "aead_correct (ve_aead V)" and "json_correct V" and "entropy_ok rnd"
    and "store V rnd v cid tenant venue envir c t = Inr v'" and "\<forall>t. Revoke cid t \<notin> set ops"
  shows "retrieve V (vault_run V v' ops) cid = Inr c"
  using assms(5)
proof (rule store_Inr)
  fix w p ct
  let ?r = "\<lparr>cr_credential_id = cid, cr_tenant_id = tenant, cr_venue_id = venue, cr_environment = envir,
    cr_created_at_ms = t, cr_revoked_at_ms = None, cr_purge_deadline_ms = None, cr_purged = False,
    cr_wrapped_dek = w, cr_nonce = en_nonce rnd, cr_ciphertext = ct\<rparr>"
  assume w: "wrap_dek (ve_kms V) (en_wrap_nonce rnd) tenant (en_dek rnd) = Inr w" and p: "ve_to_json V c = Inr p"
    and ct: "aead_encrypt (ve_aead V) (en_dek rnd) (en_nonce rnd) p = Inr ct" and v': "v' = v(cid \<mapsto> ?r)"
  have "vault_run V v' ops cid = Some ?r" using assms(6) by (intro unrevoked_stays_run) (simp_all add: v')
  moreover have "unwrap_dek (ve_kms V) tenant w = Inr (en_dek rnd)"
    using assms(1,4) w unfolding kms_correct_def entropy_ok_def by blast
  moreover have "aead_decrypt (ve_aead V) (en_dek rnd) (en_nonce rnd) ct = Inr p"
    using assms(2) ct by (simp add: aead_correct_def)
  moreover have "ve_from_json V p = Inr c" using assms(3) p by (simp add: json_correct_def)
  ultimately show ?thesis by (simp add: retrieve_def is_revoked_def)
qed

text \<open>
  C17. Revocation is immediate and final. Once \<open>revoke\<close> has succeeded at time \<open>t\<close>, whatever operations
  follow, the credential is never retrieved again and its id is never stored again; its secret material
  is erased only by a \<open>purge\<close> of that id at or after \<open>t\<close> plus 24 hours, and once the record reads as
  purged nothing of the wrapped key, the nonce or the ciphertext is left.
\<close>

theorem vault_revocation_final:
  assumes "vault_reachable V v" and "revoke v cid t = Inr v'"
  shows "\<exists>r. vault_run V v' ops cid = Some r \<and> cr_revoked_at_ms r = Some t \<and>
    retrieve V (vault_run V v' ops) cid = Inl (if cr_purged r then NotFound cid else RevokedE cid) \<and>
    store V rnd (vault_run V v' ops) cid tenant venue envir c t' = Inl (AlreadyExists cid) \<and>
    (if cr_purged r
     then cr_wrapped_dek r = [] \<and> cr_ciphertext r = [] \<and> cr_nonce r = replicate 12 0 \<and>
       (\<exists>tp. Purge cid tp \<in> set ops \<and> wrap_u64 (t + PURGE_GRACE_PERIOD_MS) \<le> tp)
     else cr_purge_deadline_ms r = Some (wrap_u64 (t + PURGE_GRACE_PERIOD_MS)))"
proof -
  have v: "vault_ok v" and v': "vault_reachable V v'"
    using vault_reachable_ok [OF assms(1)] vault_reachable.step [OF assms(1), of "Revoke cid t"] assms(2)
    by (simp_all add: vault_next_def)
  obtain r0 where r0: "v' cid = Some r0" "cr_revoked_at_ms r0 = Some t"
      "cr_purge_deadline_ms r0 = Some (wrap_u64 (t + PURGE_GRACE_PERIOD_MS))" "\<not> cr_purged r0"
    using assms(2) vault_okD [OF v] by (fastforce simp: revoke_Inr record_ok_def is_revoked_def)
  obtain r where r: "vault_run V v' ops cid = Some r" "cr_revoked_at_ms r = Some t"
      "cr_purge_deadline_ms r = Some (wrap_u64 (t + PURGE_GRACE_PERIOD_MS))"
      "cr_purged r \<longrightarrow> (\<exists>tp. Purge cid tp \<in> set ops \<and> wrap_u64 (t + PURGE_GRACE_PERIOD_MS) \<le> tp)"
    using revoked_stays_run [where v = v' and cid = cid and V = V and ops = ops, OF r0] by blast
  have "record_ok cid r" using vault_reachable_ok [OF vault_run_reachable [OF v']] r(1) by (simp add: vault_ok_def)
  then show ?thesis using r
    by (intro exI [of _ r]) (simp add: retrieve_def store_def is_revoked_def record_ok_def)
qed

text \<open>
  The purge schedule and the purge operation agree: \<open>due_for_purge\<close> lists exactly the ids that
  \<open>purge\<close> would accept at that time, so a scheduler that drives one from the other neither misses a
  due credential nor fails on one.
\<close>

theorem vault_due_iff_purgeable:
  assumes "vault_reachable V v"
  shows "cid \<in> due_for_purge v t \<longleftrightarrow> (\<exists>v'. purge v cid t = Inr v')"
proof -
  have ok: "\<And>cid r. v cid = Some r \<Longrightarrow> cr_credential_id r = cid"
    using vault_reachable_ok [OF assms] by (simp add: vault_ok_def record_ok_def)
  show ?thesis
  proof
    assume "cid \<in> due_for_purge v t"
    then obtain r c where "v c = Some r" "cr_credential_id r = cid" "\<not> cr_purged r"
        "case cr_purge_deadline_ms r of None \<Rightarrow> False | Some d \<Rightarrow> d \<le> t"
      by (auto simp: due_for_purge_def ran_def)
    then show "\<exists>v'. purge v cid t = Inr v'" using ok by (auto simp: purge_Inr split: option.splits)
  next
    assume "\<exists>v'. purge v cid t = Inr v'"
    then obtain r d where "v cid = Some r" "\<not> cr_purged r" "cr_purge_deadline_ms r = Some d" "d \<le> t"
      by (auto simp: purge_Inr)
    then show "cid \<in> due_for_purge v t" using ok
      by (auto simp: due_for_purge_def ran_def intro!: exI [of _ r])
  qed
qed

section \<open>Witnesses\<close>

definition xor_aead :: aead where
  "xor_aead = \<lparr>aead_encrypt = (\<lambda>k n p. Inr (rev p)), aead_decrypt = (\<lambda>k n c. Inr (rev c))\<rparr>"

definition sample_kms :: kms where
  "sample_kms = local_kms xor_aead [''t1'' \<mapsto> replicate 32 5]"

definition sample_credential :: api_credential where
  "sample_credential = \<lparr>api_key = ''k'', api_secret = ''s''\<rparr>"

definition sample_env :: vault_env where
  "sample_env = \<lparr>ve_kms = sample_kms, ve_aead = xor_aead,
     ve_to_json = (\<lambda>c. if c = sample_credential then Inr [7] else Inl ''json''),
     ve_from_json = (\<lambda>p. if p = [7] then Inr sample_credential else Inl ''json'')\<rparr>"

definition sample_entropy :: entropy where
  "sample_entropy = \<lparr>en_dek = replicate 32 1, en_wrap_nonce = replicate 12 2, en_nonce = replicate 12 3\<rparr>"

definition sample_vault :: vault where
  "sample_vault = vault_next sample_env new_vault
     (Store sample_entropy ''c1'' ''t1'' ''binance'' Production sample_credential 100)"

lemma xor_aead_correct: "aead_correct xor_aead"
  by (auto simp: aead_correct_def xor_aead_def)

lemma sample_env_ok: "kms_correct (ve_kms sample_env)" "aead_correct (ve_aead sample_env)" "json_correct sample_env"
    "entropy_ok sample_entropy"
  using local_kms_correct [OF xor_aead_correct] xor_aead_correct
  by (auto simp: sample_env_def sample_kms_def json_correct_def sample_entropy_def entropy_ok_def split: if_splits)

lemma sample_store:
  "store sample_env sample_entropy new_vault ''c1'' ''t1'' ''binance'' Production sample_credential 100 = Inr sample_vault"
  by (simp add: sample_vault_def vault_next_def store_def new_vault_def sample_env_def sample_kms_def local_kms_def
    local_wrap_dek_def xor_aead_def)

lemma sample_vault_reachable: "vault_reachable sample_env sample_vault"
  unfolding sample_vault_def by (intro vault_reachable.intros)

lemma sample_revoke: "\<exists>v'. revoke sample_vault ''c1'' 200 = Inr v'"
proof -
  obtain r where "sample_vault ''c1'' = Some r" "cr_revoked_at_ms r = None"
    using sample_store by (elim store_Inr) (metis credential_record.select_convs(6) fun_upd_same)
  then show ?thesis by (simp add: revoke_Inr)
qed

theorem vault_store_retrieve_witness:
  "retrieve sample_env (vault_run sample_env sample_vault [Purge ''c1'' 900000000]) ''c1'' = Inr sample_credential"
  by (rule vault_store_retrieve [OF sample_env_ok sample_store]) simp

theorem vault_revocation_final_witness:
  "\<exists>v' (r :: credential_record). revoke sample_vault ''c1'' 200 = Inr v' \<and> cr_revoked_at_ms r = Some 200 \<and>
     retrieve sample_env (vault_run sample_env v' [Purge ''c1'' 86400199]) ''c1'' = Inl (RevokedE ''c1'')"
proof -
  obtain v' where v': "revoke sample_vault ''c1'' 200 = Inr v'" using sample_revoke by blast
  from vault_revocation_final [OF sample_vault_reachable v', where ops = "[Purge ''c1'' 86400199]" and
      rnd = sample_entropy and tenant = "''t1''" and venue = "''b''" and envir = Test and c = sample_credential and t' = 0]
  show ?thesis
  proof (elim exE conjE)
    fix r :: credential_record
    assume a: "cr_revoked_at_ms r = Some 200" "retrieve sample_env (vault_run sample_env v' [Purge ''c1'' 86400199]) ''c1'' =
        Inl (if cr_purged r then NotFound ''c1'' else RevokedE ''c1'')"
      and b: "if cr_purged r then cr_wrapped_dek r = [] \<and> cr_ciphertext r = [] \<and> cr_nonce r = replicate 12 0 \<and>
         (\<exists>tp. Purge ''c1'' tp \<in> set [Purge ''c1'' 86400199] \<and> wrap_u64 (200 + PURGE_GRACE_PERIOD_MS) \<le> tp)
       else cr_purge_deadline_ms r = Some (wrap_u64 (200 + PURGE_GRACE_PERIOD_MS))"
    have "\<not> cr_purged r" using b by (auto simp: PURGE_GRACE_PERIOD_MS_def wrap_u_def)
    with a v' show ?thesis by (intro exI [of _ v'] exI [of _ r]) simp
  qed
qed

theorem vault_due_iff_purgeable_witness:
  "''c1'' \<in> due_for_purge sample_vault 0 \<longleftrightarrow> (\<exists>v'. purge sample_vault ''c1'' 0 = Inr v')"
  by (rule vault_due_iff_purgeable [OF sample_vault_reachable])

end
