(* ===== verification/Connection.thy ===== *)
theory Connection
  imports Vault
begin

text \<open>
  services/collector/credentials: what a connection to the exchange must satisfy. The pinned account
  context (binding.rs), the read-only validation of \<open>apiRestrictions\<close> (restrictions.rs) and the request
  signing confined to a host and a list of paths (signing.rs). HMAC-SHA-256 and the \<open>hex\<close> crate are
  parameters.
\<close>

section \<open>binding.rs\<close>

record account_context =
  ac_uid :: string
  ac_sub_account_id :: "string option"
  ac_environment :: environment

datatype binding_error =
    UidMismatch string string
  | SubAccountMismatch "string option" "string option"
  | EnvironmentMismatch environment environment

record pinned_binding =
  pb_expected :: account_context

definition pin :: "account_context \<Rightarrow> pinned_binding" where
  "pin context = \<lparr>pb_expected = context\<rparr>"

definition check :: "pinned_binding \<Rightarrow> account_context \<Rightarrow> binding_error + unit" where
  "check b observed =
     (let e = pb_expected b in
      if ac_uid observed \<noteq> ac_uid e then Inl (UidMismatch (ac_uid e) (ac_uid observed))
      else if ac_environment observed \<noteq> ac_environment e
        then Inl (EnvironmentMismatch (ac_environment e) (ac_environment observed))
      else if ac_sub_account_id observed \<noteq> ac_sub_account_id e
        then Inl (SubAccountMismatch (ac_sub_account_id e) (ac_sub_account_id observed))
      else Inr ())"

section \<open>restrictions.rs\<close>

text \<open>\<open>ar_unknown_fields\<close>: the keys of the \<open>BTreeMap\<close> of unrecognised fields, in key order.\<close>

record api_restrictions =
  ar_ip_restrict :: bool
  ar_enable_reading :: bool
  ar_enable_withdrawals :: bool
  ar_enable_internal_transfer :: bool
  ar_enable_universal_transfer :: bool
  ar_enable_spot_and_margin_trading :: bool
  ar_enable_margin :: bool
  ar_enable_futures :: bool
  ar_permits_universal_transfer :: bool
  ar_enable_fix_api_trade :: bool
  ar_enable_fix_read_only :: bool
  ar_enable_portfolio_margin_trading :: bool
  ar_enable_vanilla_options :: bool
  ar_create_time :: "nat option"
  ar_unknown_fields :: "string list"

datatype restrictions_error =
    ReadingDisabled
  | WriteCapabilityEnabled string
  | UnknownFields "string list"

definition validate_read_only :: "api_restrictions \<Rightarrow> restrictions_error + unit" where
  "validate_read_only r =
     (if ar_unknown_fields r \<noteq> [] then Inl (UnknownFields (ar_unknown_fields r))
      else if \<not> ar_enable_reading r then Inl ReadingDisabled
      else if ar_enable_withdrawals r then Inl (WriteCapabilityEnabled ''enableWithdrawals'')
      else if ar_enable_internal_transfer r then Inl (WriteCapabilityEnabled ''enableInternalTransfer'')
      else if ar_enable_universal_transfer r then Inl (WriteCapabilityEnabled ''enableUniversalTransfer'')
      else if ar_enable_spot_and_margin_trading r then Inl (WriteCapabilityEnabled ''enableSpotAndMarginTrading'')
      else if ar_enable_margin r then Inl (WriteCapabilityEnabled ''enableMargin'')
      else if ar_enable_futures r then Inl (WriteCapabilityEnabled ''enableFutures'')
      else if ar_permits_universal_transfer r then Inl (WriteCapabilityEnabled ''permitsUniversalTransfer'')
      else if ar_enable_fix_api_trade r then Inl (WriteCapabilityEnabled ''enableFixApiTrade'')
      else if ar_enable_portfolio_margin_trading r then Inl (WriteCapabilityEnabled ''enablePortfolioMarginTrading'')
      else if ar_enable_vanilla_options r then Inl (WriteCapabilityEnabled ''enableVanillaOptions'')
      else Inr ())"

section \<open>signing.rs\<close>

definition PRODUCTION_HOST :: string where "PRODUCTION_HOST = ''https://api.binance.com''"
definition TEST_HOST :: string where "TEST_HOST = ''https://testnet.binance.vision''"

definition ALLOWED_PATHS :: "string list" where
  "ALLOWED_PATHS =
    [''/api/v3/account'',
     ''/sapi/v1/account/apiRestrictions'',
     ''/api/v3/myTrades'',
     ''/api/v3/exchangeInfo'',
     ''/sapi/v1/capital/deposit/hisrec'',
     ''/sapi/v1/capital/withdraw/history'',
     ''/sapi/v1/asset/transfer'',
     ''/sapi/v1/convert/tradeFlow'',
     ''/sapi/v1/asset/dribblet'',
     ''/sapi/v1/asset/assetDividend'',
     ''/sapi/v1/simple-earn/flexible/position'',
     ''/sapi/v1/simple-earn/locked/position'',
     ''/sapi/v1/simple-earn/flexible/history/rewardsRecord'',
     ''/sapi/v1/simple-earn/locked/history/rewardsRecord'',
     ''/api/v3/klines'']"

datatype signing_error = PathNotAllowed string | EmptySecret

fun host_for :: "environment \<Rightarrow> string" where
  "host_for Production = PRODUCTION_HOST"
| "host_for Test = TEST_HOST"

definition sign_request ::
    "(bytes \<Rightarrow> bytes \<Rightarrow> bytes) \<Rightarrow> (bytes \<Rightarrow> string) \<Rightarrow> string \<Rightarrow> string \<Rightarrow> string \<Rightarrow> signing_error + string" where
  "sign_request hmac hexe secret path query =
     (if path \<notin> set ALLOWED_PATHS then Inl (PathNotAllowed path)
      else if secret = '''' then Inl EmptySecret
      else Inr (hexe (hmac (str_bytes secret) (str_bytes query))))"

definition redact_query_for_logging :: "string \<Rightarrow> string" where
  "redact_query_for_logging query =
     (if query = '''' then ''[empty]''
      else ''[redacted '' @ show_nat (length query) @ '' bytes]'')"

section \<open>What they accept\<close>

lemma check_ok: "check b observed = Inr u \<longleftrightarrow> observed = pb_expected b"
  by (cases observed, cases "pb_expected b") (auto simp: check_def Let_def split: if_splits)

text \<open>The two environments never share a host, and the log line depends on nothing but the length.\<close>

lemma host_for_inj: "host_for a = host_for b \<longleftrightarrow> a = b"
  by (cases a; cases b) (simp_all add: PRODUCTION_HOST_def TEST_HOST_def)

lemma redact_hides: "length q = length q' \<Longrightarrow> redact_query_for_logging q = redact_query_for_logging q'"
  by (auto simp: redact_query_for_logging_def)

lemma sign_request_ok:
  "sign_request hmac hexe secret path query = Inr s \<longleftrightarrow>
     path \<in> set ALLOWED_PATHS \<and> secret \<noteq> '''' \<and> s = hexe (hmac (str_bytes secret) (str_bytes query))"
  by (auto simp: sign_request_def)

text \<open>The capabilities a read-only key must not have.\<close>

definition write_capabilities :: "api_restrictions \<Rightarrow> (string \<times> bool) list" where
  "write_capabilities r =
    [(''enableWithdrawals'', ar_enable_withdrawals r),
     (''enableInternalTransfer'', ar_enable_internal_transfer r),
     (''enableUniversalTransfer'', ar_enable_universal_transfer r),
     (''enableSpotAndMarginTrading'', ar_enable_spot_and_margin_trading r),
     (''enableMargin'', ar_enable_margin r),
     (''enableFutures'', ar_enable_futures r),
     (''permitsUniversalTransfer'', ar_permits_universal_transfer r),
     (''enableFixApiTrade'', ar_enable_fix_api_trade r),
     (''enablePortfolioMarginTrading'', ar_enable_portfolio_margin_trading r),
     (''enableVanillaOptions'', ar_enable_vanilla_options r)]"

section \<open>Property\<close>

text \<open>
  A key is accepted as read-only exactly when no field of the response is unknown, reading is on and
  none of the ten write capabilities is; otherwise the error names, in this order, the unknown fields,
  the missing reading permission, or the first capability of the list that is on.
\<close>

theorem read_only_fails_closed:
  "validate_read_only r =
     (if ar_unknown_fields r \<noteq> [] then Inl (UnknownFields (ar_unknown_fields r))
      else if \<not> ar_enable_reading r then Inl ReadingDisabled
      else case filter snd (write_capabilities r) of
        [] \<Rightarrow> Inr ()
      | (name, _) # _ \<Rightarrow> Inl (WriteCapabilityEnabled name))"
  by (simp add: validate_read_only_def write_capabilities_def)

end
