(* ===== verification/Recovery.thy ===== *)
theory Recovery
  imports Prelude
begin

text \<open>
  infra/recovery: the checks of the recovery drills. Restore timings against their targets
  (restore_drill.rs), retention deadlines per category (retention.rs), the 91-day purge gate
  (purge_gate.rs) and mirror verification (mirror.rs). Instants are \<open>i64\<close> milliseconds.
\<close>

section \<open>restore_drill.rs\<close>

record restore_targets =
  rpo_ms :: int
  rto_ms :: int

definition DEFAULT_TARGETS :: restore_targets where
  "DEFAULT_TARGETS = \<lparr>rpo_ms = 15 * 60000, rto_ms = 4 * 3600000\<rparr>"

record restore_drill =
  last_backup_at_ms :: int
  failure_at_ms :: int
  restore_completed_at_ms :: int

datatype restore_failure = RpoExceeded int int | RtoExceeded int int

definition verify_restore_drill :: "restore_drill \<Rightarrow> restore_targets \<Rightarrow> restore_failure list + unit" where
  "verify_restore_drill drill targets =
     (let data_loss_window_ms = wrap_i64 (failure_at_ms drill - last_backup_at_ms drill);
          failures = (if data_loss_window_ms > rpo_ms targets
            then [RpoExceeded data_loss_window_ms (rpo_ms targets)] else []);
          downtime_ms = wrap_i64 (restore_completed_at_ms drill - failure_at_ms drill);
          failures = failures @ (if downtime_ms > rto_ms targets
            then [RtoExceeded downtime_ms (rto_ms targets)] else [])
      in if failures = [] then Inr () else Inl failures)"

section \<open>retention.rs\<close>

definition HOUR_MS :: int where "HOUR_MS = 3600000"
definition DAY_MS :: int where "DAY_MS = 24 * HOUR_MS"

datatype data_category = Credential | PrivateActive | Backup

fun deadline_ms :: "data_category \<Rightarrow> int" where
  "deadline_ms Credential = 24 * HOUR_MS"
| "deadline_ms PrivateActive = 30 * DAY_MS"
| "deadline_ms Backup = 35 * DAY_MS"

definition purge_deadline_ms :: "data_category \<Rightarrow> int \<Rightarrow> int" where
  "purge_deadline_ms category requested_at_ms = wrap_i64 (requested_at_ms + deadline_ms category)"

record retention_violation =
  rv_category :: data_category
  rv_deadline_ms :: int
  rv_now_ms :: int

definition check_purged_by_deadline ::
    "data_category \<Rightarrow> int \<Rightarrow> bool \<Rightarrow> int \<Rightarrow> retention_violation + unit" where
  "check_purged_by_deadline category requested_at_ms still_present now_ms =
     (let deadline = purge_deadline_ms category requested_at_ms in
      if still_present \<and> now_ms > deadline
      then Inl \<lparr>rv_category = category, rv_deadline_ms = deadline, rv_now_ms = now_ms\<rparr>
      else Inr ())"

section \<open>purge_gate.rs\<close>

definition SIMULATION_DAYS :: nat where "SIMULATION_DAYS = 91"

datatype recursive_receipt_status = Validated | NotAvailable
datatype purge_decision = PurgeRaw | RetainIntegral string

definition evaluate_purge_gate :: "nat \<Rightarrow> recursive_receipt_status \<Rightarrow> purge_decision" where
  "evaluate_purge_gate days_elapsed receipt_status =
     (if days_elapsed < SIMULATION_DAYS
      then RetainIntegral (''only '' @ show_nat days_elapsed @ '' day(s) elapsed; the gate simulates at least ''
             @ show_nat SIMULATION_DAYS)
      else case receipt_status of
        Validated \<Rightarrow> PurgeRaw
      | NotAvailable \<Rightarrow> RetainIntegral
          ''no validated recursive receipt continues the track; raw inputs must be retained integrally'')"

section \<open>mirror.rs\<close>

record mirror_mismatch =
  mm_primary_hash :: string
  mm_mirror_hash :: string

definition mirror_hex :: "sha \<Rightarrow> (bytes \<Rightarrow> string) \<Rightarrow> bytes \<Rightarrow> string" where
  "mirror_hex H hexe content = hexe (H content)"

definition verify_object_mirrored :: "sha \<Rightarrow> (bytes \<Rightarrow> string) \<Rightarrow> bytes \<Rightarrow> bytes \<Rightarrow> mirror_mismatch + unit" where
  "verify_object_mirrored H hexe primary mirror =
     (let p = mirror_hex H hexe primary; m = mirror_hex H hexe mirror in
      if p \<noteq> m then Inl \<lparr>mm_primary_hash = p, mm_mirror_hash = m\<rparr> else Inr ())"

section \<open>What each check decides\<close>

lemma verify_restore_drill_ok:
  assumes "in_i64 (failure_at_ms d - last_backup_at_ms d)" and "in_i64 (restore_completed_at_ms d - failure_at_ms d)"
  shows "verify_restore_drill d t = Inr () \<longleftrightarrow> failure_at_ms d - last_backup_at_ms d \<le> rpo_ms t \<and>
    restore_completed_at_ms d - failure_at_ms d \<le> rto_ms t"
  using assms by (simp add: verify_restore_drill_def Let_def not_less)

lemma purge_gate: "evaluate_purge_gate d s = PurgeRaw \<longleftrightarrow> 91 \<le> d \<and> s = Validated"
  by (auto simp: evaluate_purge_gate_def SIMULATION_DAYS_def split: recursive_receipt_status.splits)

lemma check_purged_ok:
  "check_purged_by_deadline c r p t = Inr u \<longleftrightarrow> \<not> p \<or> t \<le> purge_deadline_ms c r"
  by (auto simp: check_purged_by_deadline_def Let_def not_less)

text \<open>A mirror that passes is the primary, or a collision has been found; an identical one always passes.\<close>

lemma mirror_sound: "inj hexe \<Longrightarrow> verify_object_mirrored H hexe p m = Inr u \<Longrightarrow> p = m \<or> collision H"
  by (auto simp: verify_object_mirrored_def Let_def mirror_hex_def inj_eq collision_def split: if_splits)

lemma mirror_complete: "verify_object_mirrored H hexe p p = Inr ()"
  by (simp add: verify_object_mirrored_def Let_def)

end
