(* ===== verification/LocalAgent.thy ===== *)
theory LocalAgent
  imports Prelude "HOL-Library.Sublist"
begin

text \<open>
  services/local-agent: the computation a user runs on their own machine (execution.rs) and the cursor
  that a restart resumes from (continuity.rs). The JSON writer is a parameter.
\<close>

section \<open>execution.rs\<close>

record agent_event =
  ae_id :: string
  ae_delta :: int

record local_only_input =
  lo_api_key :: string
  lo_api_secret :: string
  lo_witness_bytes :: bytes
  lo_ledger_events :: "agent_event list"

record operator_safe_result =
  os_event_count :: nat
  os_balance :: int
  os_fingerprint :: nat

text \<open>The inner fold over the digest of an event id, and the step of the loop over the events.\<close>

definition byte_sum :: "bytes \<Rightarrow> nat" where
  "byte_sum bs = fold (\<lambda>b acc. wrap_u64 (acc + unat b)) bs 0"

definition event_step :: "sha \<Rightarrow> agent_event \<Rightarrow> int \<times> nat \<Rightarrow> int \<times> nat" where
  "event_step H e acc =
     (wrap_i64 (fst acc + ae_delta e),
      Bit_Operations.xor (wrap_u64 (snd acc * 1099511628211)) (byte_sum (H (str_bytes (ae_id e)))))"

definition execute_locally :: "sha \<Rightarrow> local_only_input \<Rightarrow> operator_safe_result" where
  "execute_locally H inp =
     (let (balance, fingerprint) = fold (event_step H) (lo_ledger_events inp) (0, 0)
      in \<lparr>os_event_count = length (lo_ledger_events inp), os_balance = balance, os_fingerprint = fingerprint\<rparr>)"

definition canonical_result_digest :: "sha \<Rightarrow> (operator_safe_result \<Rightarrow> bytes) \<Rightarrow> operator_safe_result \<Rightarrow> bytes" where
  "canonical_result_digest H to_json result = H (to_json result)"

section \<open>continuity.rs\<close>

record agent_state =
  processed_through :: nat

definition INITIAL :: agent_state where
  "INITIAL = \<lparr>processed_through = 0\<rparr>"

definition events_to_process :: "agent_state \<Rightarrow> 'e list \<Rightarrow> 'e list \<times> agent_state" where
  "events_to_process st all_events =
     (drop (min (processed_through st) (length all_events)) all_events,
      \<lparr>processed_through = length all_events\<rparr>)"

text \<open>A history of restarts: the streams read at each start, and everything processed over all of them.\<close>

fun restarts :: "agent_state \<Rightarrow> 'e list list \<Rightarrow> 'e list \<times> agent_state" where
  "restarts st [] = ([], st)"
| "restarts st (s # ss) =
     (let (now, st') = events_to_process st s; (later, st'') = restarts st' ss in (now @ later, st''))"

section \<open>Lemmas\<close>

lemma wrap_add_left: "wrap_i64 (wrap_i64 a + b) = wrap_i64 (a + b)"
proof -
  have "((a + 2 ^ 63) mod 2 ^ 64 - 2 ^ 63 + b + 2 ^ 63) mod 2 ^ 64 = ((a + 2 ^ 63) mod 2 ^ 64 + b) mod (2 ^ 64 :: int)"
    by simp
  also have "\<dots> = (a + b + 2 ^ 63) mod 2 ^ 64" by (simp only: mod_add_left_eq) (simp add: ac_simps)
  finally show ?thesis by (simp add: wrap_s_def)
qed

lemma execute_balance:
  "fst (fold (event_step H) es (wrap_i64 b, f)) = wrap_i64 (b + (\<Sum>e\<leftarrow>es. ae_delta e))"
proof (induction es arbitrary: b f)
  case (Cons e es)
  have "event_step H e (wrap_i64 b, f) = (wrap_i64 (b + ae_delta e), snd (event_step H e (wrap_i64 b, f)))"
    by (simp add: event_step_def wrap_add_left)
  then show ?case using Cons [of "b + ae_delta e" "snd (event_step H e (wrap_i64 b, f))"]
    by (simp add: add.assoc)
qed simp

lemma events_prefix:
  "processed_through st \<le> length s \<Longrightarrow>
     fst (events_to_process st s) = drop (processed_through st) s \<and>
     processed_through (snd (events_to_process st s)) = length s"
  by (simp add: events_to_process_def)

section \<open>Properties\<close>

text \<open>
  C23. Restarts neither skip nor repeat an event: over any sequence of starts, each reading a stream that
  extends the one read before, the events processed in total are exactly those of the last stream, once
  each and in order, and the saved cursor is its length.
\<close>

theorem restarts_process_each_event_once:
  assumes "streams \<noteq> []" and "sorted_wrt prefix streams"
  shows "restarts INITIAL streams = (last streams, \<lparr>processed_through = length (last streams)\<rparr>)"
proof -
  have "restarts \<lparr>processed_through = length s0\<rparr> ss = (drop (length s0) (last (s0 # ss)),
      \<lparr>processed_through = length (last (s0 # ss))\<rparr>)"
    if "sorted_wrt prefix (s0 # ss)" for s0 :: "'a list" and ss
    using that
  proof (induction ss arbitrary: s0)
    case (Cons s ss)
    obtain z where z: "s = s0 @ z" using Cons.prems by (auto simp: prefix_def)
    have last: "prefix s (last (s # ss))" using Cons.prems by (cases ss) auto
    then obtain y where y: "last (s # ss) = s @ y" by (auto simp: prefix_def)
    have "restarts \<lparr>processed_through = length s\<rparr> ss = (drop (length s) (last (s # ss)),
      \<lparr>processed_through = length (last (s # ss))\<rparr>)" using Cons.prems by (intro Cons.IH) simp
    then show ?case using z y by (simp add: events_to_process_def)
  qed simp
  from this [of "[]" streams] assms show ?thesis by (simp add: INITIAL_def)
qed

theorem restarts_process_each_event_once_witness:
  "restarts INITIAL [[1], [1, 2, 3], [1, 2, 3], [1, 2, 3, 4 :: nat]] =
     ([1, 2, 3, 4], \<lparr>processed_through = 4\<rparr>)"
  using restarts_process_each_event_once [of "[[1], [1, 2, 3], [1, 2, 3], [1, 2, 3, 4 :: nat]]"] by simp

text \<open>
  What leaves the machine: the result sent to the operator is a function of the ledger events alone,
  so two inputs that differ in their credentials and witness give the same result; it carries the number
  of events and the sum of their deltas modulo the \<open>i64\<close> range.
\<close>

theorem local_result_from_events_only:
  "execute_locally H (inp\<lparr>lo_api_key := k, lo_api_secret := s, lo_witness_bytes := w\<rparr>) = execute_locally H inp \<and>
   os_event_count (execute_locally H inp) = length (lo_ledger_events inp) \<and>
   os_balance (execute_locally H inp) = wrap_i64 (\<Sum>e\<leftarrow>lo_ledger_events inp. ae_delta e)"
  using execute_balance [of H "lo_ledger_events inp" 0 0]
  by (simp add: execute_locally_def case_prod_beta wrap_s_def)

end
