(* ===== verification/Strings.thy ===== *)
theory Strings
  imports Prelude
begin

text \<open>
  The string operations of the standard library that the components share: reading and writing of whole
  numbers, lower case, prefixes and suffixes, splitting and trimming. A string is the list of its bytes, so
  the operations that look at characters are those of ASCII text, which is what the explorers, nodes and
  exchanges of the code send.
\<close>

section \<open>Numbers\<close>

text \<open>\<open>str::parse::<u64>\<close>: an optional plus sign, then digits, within the range.\<close>

definition is_digit :: "char \<Rightarrow> bool" where
  "is_digit c \<longleftrightarrow> (48 :: nat) \<le> of_char c \<and> (of_char c :: nat) \<le> 57"

definition digits_value :: "string \<Rightarrow> nat" where
  "digits_value s = foldl (\<lambda>n c. n * 10 + (of_char c - 48)) 0 s"

definition parse_u64 :: "string \<Rightarrow> nat option" where
  "parse_u64 s =
     (let ds = (case s of [] \<Rightarrow> [] | c # cs \<Rightarrow> if c = CHR ''+'' then cs else s)
      in if ds = [] \<or> \<not> list_all is_digit ds \<or> digits_value ds \<ge> 2 ^ 64 then None
         else Some (digits_value ds))"

lemma char_of_digit: "d < 10 \<Longrightarrow> of_char (char_of (48 + d) :: char) = (48 + d :: nat)"
  by (simp add: of_char_of)

lemma digits_value_snoc: "digits_value (s @ [c]) = digits_value s * 10 + (of_char c - 48)"
  by (simp add: digits_value_def)

lemma show_nat_digits: "list_all is_digit (show_nat n) \<and> digits_value (show_nat n) = n \<and> show_nat n \<noteq> []"
proof (induction n rule: show_nat.induct)
  case (1 n)
  show ?case
  proof (cases "n < 10")
    case True
    then show ?thesis by (simp add: show_nat.simps [of n] is_digit_def char_of_digit) (simp add: digits_value_def char_of_digit)
  next
    case False
    have d: "n mod 10 < 10" by simp
    show ?thesis using 1 [OF False] False char_of_digit [OF d]
      by (simp add: show_nat.simps [of n] is_digit_def digits_value_snoc)
  qed
qed

lemma digit_not_special: "is_digit c \<Longrightarrow> c \<noteq> CHR ''+'' \<and> c \<noteq> CHR '':''"
  by (auto simp: is_digit_def)

lemma parse_show_nat: "n < 2 ^ 64 \<Longrightarrow> parse_u64 (show_nat n) = Some n"
proof -
  assume n: "n < 2 ^ 64"
  obtain c cs where c: "show_nat n = c # cs" using show_nat_digits [of n] by (cases "show_nat n") auto
  then have "c \<noteq> CHR ''+''" using show_nat_digits [of n] digit_not_special [of c] by simp
  then show ?thesis using show_nat_digits [of n] n c by (simp add: parse_u64_def not_le)
qed

text \<open>The same at another width.\<close>

definition parse_uint :: "nat \<Rightarrow> string \<Rightarrow> nat option" where
  "parse_uint w s =
     (let ds = (case s of [] \<Rightarrow> [] | c # cs \<Rightarrow> if c = CHR ''+'' then cs else s)
      in if ds = [] \<or> \<not> list_all is_digit ds \<or> digits_value ds \<ge> 2 ^ w then None
         else Some (digits_value ds))"

lemma parse_u64_uint: "parse_u64 = parse_uint 64"
  by (simp add: fun_eq_iff parse_u64_def parse_uint_def)

lemma parse_uint_digits: "raw \<noteq> [] \<Longrightarrow> list_all is_digit raw \<Longrightarrow>
    parse_uint w raw = (if digits_value raw < 2 ^ w then Some (digits_value raw) else None)"
  using digit_not_special by (cases raw) (auto simp: parse_uint_def not_less)

text \<open>\<open>parse\<close> of a signed integer of a width.\<close>

definition parse_int :: "nat \<Rightarrow> string \<Rightarrow> int option" where
  "parse_int w s =
     (if s \<noteq> [] \<and> hd s = CHR ''-''
      then let ds = tl s in
        if ds = [] \<or> \<not> list_all is_digit ds \<or> digits_value ds > 2 ^ (w - 1) then None
        else Some (- int (digits_value ds))
      else map_option int (parse_uint (w - 1) s))"

lemma parse_int_digits: "raw \<noteq> [] \<Longrightarrow> list_all is_digit raw \<Longrightarrow> digits_value raw < 2 ^ (w - 1) \<Longrightarrow>
    parse_int w raw = Some (int (digits_value raw))"
proof -
  assume r: "raw \<noteq> []" "list_all is_digit raw" "digits_value raw < 2 ^ (w - 1)"
  then obtain c cs where c: "raw = c # cs" "is_digit c" by (cases raw) auto
  then have "c \<noteq> CHR ''-''" by (auto simp: is_digit_def)
  then have "parse_int w raw = map_option int (parse_uint (w - 1) raw)" by (simp add: parse_int_def c)
  then show ?thesis using r by (simp add: parse_uint_digits)
qed

section \<open>Case, prefixes, suffixes\<close>

definition ascii_lower :: "char \<Rightarrow> char" where
  "ascii_lower c = (if (65 :: nat) \<le> of_char c \<and> (of_char c :: nat) \<le> 90 then char_of (of_char c + (32 :: nat)) else c)"

definition to_lower :: "string \<Rightarrow> string" where
  "to_lower s = map ascii_lower s"

fun strip_prefix :: "string \<Rightarrow> string \<Rightarrow> string option" where
  "strip_prefix s [] = Some s"
| "strip_prefix [] (p # ps) = None"
| "strip_prefix (c # s) (p # ps) = (if c = p then strip_prefix s ps else None)"

definition strip_suffix :: "string \<Rightarrow> string \<Rightarrow> string option" where
  "strip_suffix s p = map_option rev (strip_prefix (rev s) (rev p))"

definition starts_with :: "string \<Rightarrow> string \<Rightarrow> bool" where
  "starts_with s p \<longleftrightarrow> strip_prefix s p \<noteq> None"

definition ends_with :: "string \<Rightarrow> string \<Rightarrow> bool" where
  "ends_with s p \<longleftrightarrow> strip_suffix s p \<noteq> None"

fun contains_text :: "string \<Rightarrow> string \<Rightarrow> bool" where
  "contains_text [] p \<longleftrightarrow> p = []"
| "contains_text (c # s) p \<longleftrightarrow> starts_with (c # s) p \<or> contains_text s p"

section \<open>Splitting and trimming\<close>

definition split_once :: "char \<Rightarrow> string \<Rightarrow> (string \<times> string) option" where
  "split_once sep s = (case dropWhile (\<lambda>c. c \<noteq> sep) s of [] \<Rightarrow> None
     | _ # rest \<Rightarrow> Some (takeWhile (\<lambda>c. c \<noteq> sep) s, rest))"

fun split_on :: "char \<Rightarrow> string \<Rightarrow> string list" where
  "split_on sep [] = [[]]"
| "split_on sep (c # s) = (if c = sep then [] # split_on sep s
     else case split_on sep s of [] \<Rightarrow> [[c]] | w # ws \<Rightarrow> (c # w) # ws)"

definition is_space :: "char \<Rightarrow> bool" where
  "is_space c \<longleftrightarrow> c = CHR '' '' \<or> (9 :: nat) \<le> of_char c \<and> (of_char c :: nat) \<le> 13"

definition trim :: "string \<Rightarrow> string" where
  "trim s = rev (dropWhile is_space (rev (dropWhile is_space s)))"

lemma strip_prefix_Some [simp]: "strip_prefix s p = Some r \<longleftrightarrow> s = p @ r"
  by (induction s p rule: strip_prefix.induct) auto

lemma starts_with_iff: "starts_with s p \<longleftrightarrow> (\<exists>r. s = p @ r)"
  by (auto simp: starts_with_def)

lemma strip_suffix_Some: "strip_suffix s p = Some r \<longleftrightarrow> s = r @ p"
proof -
  have "strip_suffix s p = Some r \<longleftrightarrow> strip_prefix (rev s) (rev p) = Some (rev r)"
    by (auto simp: strip_suffix_def)
  also have "\<dots> \<longleftrightarrow> rev s = rev (r @ p)" by simp
  finally show ?thesis by (simp only: rev_is_rev_conv)
qed

lemma ascii_lower_idem [simp]: "ascii_lower (ascii_lower c) = ascii_lower c"
  by (auto simp: ascii_lower_def of_char_of)

lemma to_lower_idem [simp]: "to_lower (to_lower s) = to_lower s"
  by (simp add: to_lower_def)

lemma to_lower_append [simp]: "to_lower (s @ t) = to_lower s @ to_lower t"
  by (simp add: to_lower_def)

lemma length_to_lower [simp]: "length (to_lower s) = length s"
  by (simp add: to_lower_def)

lemma split_once_append: "sep \<notin> set a \<Longrightarrow> split_once sep (a @ sep # b) = Some (a, b)"
proof -
  assume "sep \<notin> set a"
  then have "\<And>c. c \<in> set a \<Longrightarrow> c \<noteq> sep" by auto
  then show ?thesis by (simp add: split_once_def dropWhile_append2 takeWhile_append2)
qed

lemma split_once_Some: "split_once sep s = Some (a, b) \<Longrightarrow> s = a @ sep # b \<and> sep \<notin> set a"
proof -
  assume "split_once sep s = Some (a, b)"
  then obtain c where d: "dropWhile (\<lambda>c. c \<noteq> sep) s = c # b" and a: "a = takeWhile (\<lambda>c. c \<noteq> sep) s"
    by (auto simp: split_once_def split: list.splits)
  have "c = sep" using d hd_dropWhile [of "\<lambda>c. c \<noteq> sep" s] by simp
  moreover have "s = a @ c # b" using takeWhile_dropWhile_id [of "\<lambda>c. c \<noteq> sep" s] d a by simp
  moreover have "sep \<notin> set a" using a set_takeWhileD by metis
  ultimately show ?thesis by simp
qed

end
