(* ===== verification/TradeLog.thy ===== *)
theory TradeLog
  imports Trades Strings "HOL-Library.List_Lexorder" "HOL-Library.Product_Lexorder" "HOL-Library.Char_ord"
begin

text \<open>
  services/collector/binance/worker, trade_log.rs: reading the collected trades back a page at a time,
  in the order of \<open>(time_ms, symbol, id)\<close>, with cursors that are handed to the caller as text. Strings
  compare byte by byte, as \<open>str\<close> does.
\<close>

section \<open>Cursors\<close>

record cursor =
  cu_time_ms :: nat
  cu_id :: nat
  cu_symbol :: string

definition encode :: "cursor \<Rightarrow> string" where
  "encode c = show_nat (cu_time_ms c) @ '':'' @ show_nat (cu_id c) @ '':'' @ cu_symbol c"

text \<open>\<open>splitn(3, ':')\<close>: the text before the first colon, and the rest if there is one.\<close>

definition split_colon :: "string \<Rightarrow> string \<times> string option" where
  "split_colon s = (takeWhile (\<lambda>c. c \<noteq> CHR '':'') s,
     case dropWhile (\<lambda>c. c \<noteq> CHR '':'') s of [] \<Rightarrow> None | _ # rest \<Rightarrow> Some rest)"

definition parse_cursor :: "string \<Rightarrow> cursor option" where
  "parse_cursor txt =
     (let (first, more) = split_colon txt in
      Option.bind (parse_u64 first) (\<lambda>time_ms.
      Option.bind more (\<lambda>more.
      let (second, more) = split_colon more in
      Option.bind (parse_u64 second) (\<lambda>i.
      Option.bind more (\<lambda>symbol.
        if symbol = '''' then None
        else Some \<lparr>cu_time_ms = time_ms, cu_id = i, cu_symbol = symbol\<rparr>)))))"

definition cursor_of :: "trade \<Rightarrow> cursor" where
  "cursor_of t = \<lparr>cu_time_ms = tr_time_ms t, cu_id = tr_id t, cu_symbol = tr_symbol t\<rparr>"

section \<open>Queries and pages\<close>

definition MAX_PAGE :: nat where "MAX_PAGE = 500"
definition DEFAULT_PAGE :: nat where "DEFAULT_PAGE = 100"

record trade_query =
  tq_symbol :: "string option"
  tq_since_ms :: "nat option"
  tq_until_ms :: "nat option"
  tq_after :: "cursor option"
  tq_limit :: nat

definition check_query :: "trade_query \<Rightarrow> string + unit" where
  "check_query q =
     (if tq_limit q = 0 \<or> tq_limit q > MAX_PAGE
      then Inl (''limit must be between 1 and '' @ show_nat MAX_PAGE)
      else case (tq_since_ms q, tq_until_ms q) of
        (Some s, Some u) \<Rightarrow> if s > u then Inl ''sinceMs must not be after untilMs'' else Inr ()
      | _ \<Rightarrow> Inr ())"

record trade_page =
  tp_trades :: "trade list"
  tp_next :: "cursor option"

definition eq_ignore_ascii_case :: "string \<Rightarrow> string \<Rightarrow> bool" where
  "eq_ignore_ascii_case a b \<longleftrightarrow> map ascii_lower a = map ascii_lower b"

definition order_key :: "trade \<Rightarrow> nat \<times> string \<times> nat" where
  "order_key t = (tr_time_ms t, tr_symbol t, tr_id t)"

definition matches :: "trade_query \<Rightarrow> trade \<Rightarrow> bool" where
  "matches q t \<longleftrightarrow>
     (case tq_symbol q of None \<Rightarrow> True | Some s \<Rightarrow> eq_ignore_ascii_case (tr_symbol t) s) \<and>
     (case tq_since_ms q of None \<Rightarrow> True | Some s \<Rightarrow> \<not> tr_time_ms t < s) \<and>
     (case tq_until_ms q of None \<Rightarrow> True | Some u \<Rightarrow> \<not> tr_time_ms t > u) \<and>
     (case tq_after q of None \<Rightarrow> True
      | Some c \<Rightarrow> order_key t > (cu_time_ms c, cu_symbol c, cu_id c))"

definition page :: "trade list \<Rightarrow> trade_query \<Rightarrow> trade_page" where
  "page trades q =
     (let matching = sort_key order_key (filter (matches q) trades);
          has_more = length matching > tq_limit q;
          matching = take (tq_limit q) matching
      in \<lparr>tp_trades = matching,
          tp_next = (if has_more \<and> matching \<noteq> [] then Some (cursor_of (last matching)) else None)\<rparr>)"

text \<open>What a caller does: ask again with the cursor of the last page until there is none.\<close>

fun drain :: "nat \<Rightarrow> trade list \<Rightarrow> trade_query \<Rightarrow> trade list option" where
  "drain 0 trades q = None"
| "drain (Suc fuel) trades q =
     (let p = page trades q in
      case tp_next p of
        None \<Rightarrow> Some (tp_trades p)
      | Some c \<Rightarrow> map_option (\<lambda>ts. tp_trades p @ ts) (drain fuel trades (q\<lparr>tq_after := Some c\<rparr>)))"

section \<open>Numbers as text\<close>

lemma split_colon_digits:
  "list_all is_digit ds \<Longrightarrow> split_colon (ds @ CHR '':'' # rest) = (ds, Some rest)"
proof -
  assume "list_all is_digit ds"
  then have "\<forall>c \<in> set ds. c \<noteq> CHR '':''" using digit_not_special by (auto simp: list_all_iff)
  then show ?thesis by (simp add: split_colon_def takeWhile_append2 dropWhile_append2)
qed

section \<open>Properties\<close>

text \<open>
  A cursor survives the trip through its text: parsing what \<open>encode\<close> wrote gives the same cursor,
  for every time and id of 64 bits and every non-empty symbol, colons included.
\<close>

theorem cursor_roundtrip:
  assumes "cu_time_ms c < 2 ^ 64" and "cu_id c < 2 ^ 64" and "cu_symbol c \<noteq> ''''"
  shows "parse_cursor (encode c) = Some c"
proof -
  have s: "split_colon (encode c) = (show_nat (cu_time_ms c), Some (show_nat (cu_id c) @ '':'' @ cu_symbol c))"
    "split_colon (show_nat (cu_id c) @ '':'' @ cu_symbol c) = (show_nat (cu_id c), Some (cu_symbol c))"
    using split_colon_digits [OF conjunct1 [OF show_nat_digits]] by (simp_all only: encode_def append_Cons append_Nil)
  show ?thesis
    using parse_show_nat [OF assms(1)] parse_show_nat [OF assms(2)] assms(3)
    by (simp only: parse_cursor_def s Let_def prod.case bind.bind_lunit if_False) simp
qed

theorem cursor_roundtrip_witness:
  "parse_cursor (encode \<lparr>cu_time_ms = 1700000000000, cu_id = 42, cu_symbol = ''BTC:USD''\<rparr>) =
     Some \<lparr>cu_time_ms = 1700000000000, cu_id = 42, cu_symbol = ''BTC:USD''\<rparr>"
  by (rule cursor_roundtrip) simp_all

text \<open>
  The parser accepts texts that \<open>encode\<close> never writes (a plus sign, leading zeros), though its comment
  says it refuses anything this service did not issue.
\<close>

lemma parse_accepts_foreign:
  "parse_cursor ''+007:1:X'' = Some \<lparr>cu_time_ms = 7, cu_id = 1, cu_symbol = ''X''\<rparr>"
  "encode \<lparr>cu_time_ms = 7, cu_id = 1, cu_symbol = ''X''\<rparr> \<noteq> ''+007:1:X''"
  by (simp_all add: parse_cursor_def split_colon_def parse_u64_def is_digit_def digits_value_def encode_def show_nat.simps)

section \<open>Draining the log\<close>

text \<open>Whether a trade matches apart from the cursor, and the trades behind a point of the order.\<close>

definition base_match :: "trade_query \<Rightarrow> trade \<Rightarrow> bool" where
  "base_match q t = matches (q\<lparr>tq_after := None\<rparr>) t"

definition log_of :: "trade_query \<Rightarrow> trade list \<Rightarrow> trade list" where
  "log_of q trades = sort_key order_key (filter (matches q) trades)"

lemma matches_after:
  "matches (q\<lparr>tq_after := Some (cursor_of l)\<rparr>) t \<longleftrightarrow> base_match q t \<and> order_key l < order_key t"
  by (auto simp: matches_def base_match_def cursor_of_def order_key_def)

lemma page_eq:
  "tp_trades (page trades q) = take (tq_limit q) (log_of q trades)"
  "0 < tq_limit q \<Longrightarrow> tp_next (page trades q) =
     (if length (log_of q trades) > tq_limit q
      then Some (cursor_of (log_of q trades ! (tq_limit q - 1))) else None)"
proof -
  show "tp_trades (page trades q) = take (tq_limit q) (log_of q trades)"
    by (simp add: page_def log_of_def Let_def)
  show "tp_next (page trades q) = (if length (log_of q trades) > tq_limit q
      then Some (cursor_of (log_of q trades ! (tq_limit q - 1))) else None)" if n: "0 < tq_limit q"
  proof (cases "length (log_of q trades) > tq_limit q")
    case True
    then have "last (take (tq_limit q) (log_of q trades)) = log_of q trades ! (tq_limit q - 1)"
      using n by (subst last_conv_nth) auto
    moreover have "log_of q trades \<noteq> []" using True by auto
    ultimately show ?thesis using True n by (simp add: page_def log_of_def [symmetric] Let_def)
  qed (simp add: page_def log_of_def Let_def)
qed

lemma strictly_after:
  assumes "sorted_wrt (\<lambda>a b. f a < f b) xs" and "n < length xs"
  shows "filter (\<lambda>x. f (xs ! n) < (f x :: 'b :: linorder)) xs = drop (Suc n) xs"
  using assms
proof (induction xs arbitrary: n)
  case (Cons x xs)
  show ?case
  proof (cases n)
    case 0
    then show ?thesis using Cons.prems by (auto intro: filter_True)
  next
    case (Suc m)
    then have m: "m < length xs" and "f x < f (xs ! m)" using Cons.prems by auto
    then have "\<not> f (xs ! m) < f x" by simp
    then show ?thesis using Cons.IH [of m] Cons.prems(1) m Suc by simp
  qed
qed simp

text \<open>The next query is over what is left of the log.\<close>

lemma log_after:
  assumes "\<And>t. matches q t \<longleftrightarrow> base_match q t \<and> P t"
    and "sorted_wrt (\<lambda>a b. order_key a < order_key b) (log_of q trades)"
    and "0 < n" and "n < length (log_of q trades)"
    and "\<And>t. order_key (log_of q trades ! (n - 1)) < order_key t \<Longrightarrow> P t"
  shows "log_of (q\<lparr>tq_after := Some (cursor_of (log_of q trades ! (n - 1)))\<rparr>) trades = drop n (log_of q trades)"
proof -
  let ?k = "order_key (log_of q trades ! (n - 1))"
  have "filter (matches (q\<lparr>tq_after := Some (cursor_of (log_of q trades ! (n - 1)))\<rparr>)) trades =
      filter (\<lambda>t. ?k < order_key t) (filter (matches q) trades)"
    using assms(1,5) by (auto simp: matches_after intro!: filter_cong)
  then have "log_of (q\<lparr>tq_after := Some (cursor_of (log_of q trades ! (n - 1)))\<rparr>) trades =
      filter (\<lambda>t. ?k < order_key t) (log_of q trades)"
    by (simp add: log_of_def filter_sort)
  then show ?thesis using strictly_after [OF assms(2), of "n - 1"] assms(3,4) by simp
qed

lemma log_strict:
  "distinct (map order_key (filter (matches q) trades)) \<Longrightarrow>
     sorted_wrt (\<lambda>a b. order_key a < order_key b) (log_of q trades)"
proof -
  assume d: "distinct (map order_key (filter (matches q) trades))"
  have "distinct (map order_key (log_of q trades))"
  proof -
    have "mset (map order_key (log_of q trades)) = mset (map order_key (filter (matches q) trades))"
      by (simp add: log_of_def)
    then show ?thesis using d mset_eq_imp_distinct_iff by blast
  qed
  moreover have "sorted (map order_key (log_of q trades))" by (simp add: log_of_def)
  ultimately have "sorted_wrt (<) (map order_key (log_of q trades))" by (simp add: strict_sorted_iff)
  then show ?thesis by (simp add: sorted_wrt_map)
qed

text \<open>
  C22. Reading page after page returns every matching trade exactly once, in order: for any page size
  above zero, and as long as no two trades share time, market and id, following the cursors from the
  first page to the last yields the whole sorted log, and it ends after at most one page more than there
  are matching trades.
\<close>

theorem paging_is_complete:
  assumes "0 < tq_limit q" and "tq_after q = None"
    and "distinct (map order_key (filter (matches q) trades))"
  shows "drain (Suc (length trades)) trades q = Some (sort_key order_key (filter (matches q) trades))"
proof -
  have gen: "drain fuel trades q' = Some (log_of q' trades)"
    if "length (log_of q' trades) < fuel" "tq_limit q' = tq_limit q"
      "sorted_wrt (\<lambda>a b. order_key a < order_key b) (log_of q' trades)"
      "\<And>t. matches q' t \<longleftrightarrow> base_match q' t \<and> P t" "\<And>a b. P a \<Longrightarrow> order_key a < order_key b \<Longrightarrow> P b"
    for fuel q' P
    using that
  proof (induction fuel arbitrary: q' P)
    case (Suc fuel)
    let ?L = "log_of q' trades" and ?n = "tq_limit q"
    have n: "0 < tq_limit q'" using assms(1) Suc.prems(2) by simp
    show ?case
    proof (cases "length ?L > ?n")
      case False
      then show ?thesis using page_eq [where trades = trades and q = q'] n Suc.prems(2) by (simp add: Let_def)
    next
      case True
      let ?l = "?L ! (?n - 1)" and ?q = "q'\<lparr>tq_after := Some (cursor_of (?L ! (?n - 1)))\<rparr>"
      have "?l \<in> set ?L" using True by simp
      then have "P ?l" using Suc.prems(4) by (simp add: log_of_def)
      then have rest: "log_of ?q trades = drop ?n ?L"
        using log_after [OF Suc.prems(4,3) assms(1) True] Suc.prems(5) by blast
      have "drain fuel trades ?q = Some (log_of ?q trades)"
      proof (rule Suc.IH [where P = "\<lambda>t. order_key ?l < order_key t"])
        show "length (log_of ?q trades) < fuel" using rest Suc.prems(1) True assms(1) by simp
        show "sorted_wrt (\<lambda>a b. order_key a < order_key b) (log_of ?q trades)"
          using rest Suc.prems(3) by (simp add: sorted_wrt_drop)
        show "\<And>t. matches ?q t \<longleftrightarrow> base_match ?q t \<and> order_key ?l < order_key t"
          by (simp add: matches_after) (simp add: base_match_def)
      qed (use Suc.prems(2) in auto)
      then show ?thesis using page_eq [where trades = trades and q = q'] n Suc.prems(2) True rest by (simp add: Let_def)
    qed
  qed simp
  have "length (log_of q trades) < Suc (length trades)" by (simp add: log_of_def less_Suc_eq_le)
  moreover have "\<And>t. matches q t \<longleftrightarrow> base_match q t \<and> True"
    using assms(2) by (cases q) (simp add: base_match_def)
  ultimately show ?thesis using gen [where q' = q and fuel = "Suc (length trades)" and P = "\<lambda>_. True"] log_strict [OF assms(3)]
    by (simp add: log_of_def)
qed

definition fill_at :: "nat \<Rightarrow> nat \<Rightarrow> trade" where
  "fill_at t i = \<lparr>tr_symbol = ''BTCUSDT'', tr_id = i, tr_order_id = 0, tr_price = ''1'', tr_qty = ''1'',
     tr_commission = ''0'', tr_commission_asset = ''BNB'', tr_time_ms = t, tr_is_buyer = True\<rparr>"

definition two_per_page :: trade_query where
  "two_per_page = \<lparr>tq_symbol = Some ''btcusdt'', tq_since_ms = None, tq_until_ms = Some 9, tq_after = None, tq_limit = 2\<rparr>"

theorem paging_is_complete_witness:
  "drain 6 [fill_at 3 1, fill_at 1 1, fill_at 2 5, fill_at 2 4, fill_at 11 7] two_per_page =
     Some [fill_at 1 1, fill_at 2 4, fill_at 2 5, fill_at 3 1]"
proof -
  have m: "filter (matches two_per_page) [fill_at 3 1, fill_at 1 1, fill_at 2 5, fill_at 2 4, fill_at 11 7] =
      [fill_at 3 1, fill_at 1 1, fill_at 2 5, fill_at 2 4]"
    by (simp add: matches_def two_per_page_def fill_at_def eq_ignore_ascii_case_def ascii_lower_def) code_simp
  have "drain (Suc (length [fill_at 3 1, fill_at 1 1, fill_at 2 5, fill_at 2 4, fill_at 11 7]))
      [fill_at 3 1, fill_at 1 1, fill_at 2 5, fill_at 2 4, fill_at 11 7] two_per_page =
    Some (sort_key order_key [fill_at 3 1, fill_at 1 1, fill_at 2 5, fill_at 2 4])"
    unfolding m [symmetric] by (rule paging_is_complete) (simp add: two_per_page_def, simp add: two_per_page_def,
      unfold m, simp add: order_key_def fill_at_def)
  then show ?thesis by (simp add: order_key_def fill_at_def eval_nat_numeral)
qed

end
