(* ===== verification/Pnl.thy ===== *)
theory Pnl
  imports Decimal "HOL-Library.List_Lexorder" "HOL-Library.Char_ord"
begin

text \<open>
  services/collector/binance/worker, pnl.rs: realized and unrealized profit per position by average
  cost. The \<open>BTreeMap\<close>s are maps; where the code walks one, the model walks its keys in order. The
  plain decimal operators panic on overflow, the outer \<open>None\<close>.
\<close>

datatype pnl_event =
    Acquire string decimal decimal
  | Dispose string decimal decimal
  | Withdraw string decimal
  | Fee decimal

record position_pnl =
  pp_asset :: string
  pp_quantity :: decimal
  pp_average_cost :: "decimal option"
  pp_mark_price :: decimal
  pp_realized :: decimal
  pp_unrealized :: "decimal option"

record pnl_summary =
  ps_positions :: "position_pnl list"
  ps_realized :: decimal
  ps_unrealized :: decimal
  ps_fees :: decimal

record lot =
  lt_held :: decimal
  lt_average_cost :: decimal
  lt_realized :: decimal

type_synonym lot_map = "string \<Rightarrow> lot option"

definition lot_or_new :: "lot_map \<Rightarrow> string \<Rightarrow> lot" where
  "lot_or_new lots asset =
     (case lots asset of None \<Rightarrow> \<lparr>lt_held = 0, lt_average_cost = 0, lt_realized = 0\<rparr> | Some l \<Rightarrow> l)"

definition acquire :: "arith \<Rightarrow> lot_map \<Rightarrow> string \<Rightarrow> decimal \<Rightarrow> decimal \<Rightarrow> lot_map option" where
  "acquire A lots asset quantity price =
     (let l = lot_or_new lots asset in
      Option.bind (dadd A (lt_held l) quantity) (\<lambda>total.
      Option.bind
        (if total > 0
         then Option.bind (dmul A (lt_held l) (lt_average_cost l)) (\<lambda>a.
              Option.bind (dmul A quantity price) (\<lambda>b.
              Option.bind (dadd A a b) (\<lambda>s. ddiv A s total)))
         else Some (lt_average_cost l)) (\<lambda>average.
        Some (lots(asset \<mapsto> l\<lparr>lt_average_cost := average, lt_held := total\<rparr>)))))"

text \<open>The step of the loop over the events, with the lots and the fees so far.\<close>

fun pnl_step :: "arith \<Rightarrow> lot_map \<times> decimal \<Rightarrow> pnl_event \<Rightarrow> (lot_map \<times> decimal) option" where
  "pnl_step A (lots, fees) (Acquire asset quantity unit_price) =
     map_option (\<lambda>lots'. (lots', fees)) (acquire A lots asset quantity unit_price)"
| "pnl_step A (lots, fees) (Dispose asset quantity unit_price) =
     (let l = lot_or_new lots asset; matched = min quantity (lt_held l) in
      Option.bind (dsub A unit_price (lt_average_cost l)) (\<lambda>gain.
      Option.bind (dmul A matched gain) (\<lambda>g.
      Option.bind (dadd A (lt_realized l) g) (\<lambda>realized.
      Option.bind (dsub A (lt_held l) matched) (\<lambda>held.
        Some (lots(asset \<mapsto> l\<lparr>lt_realized := realized, lt_held := held\<rparr>), fees))))))"
| "pnl_step A (lots, fees) (Withdraw asset quantity) =
     (case lots asset of
        None \<Rightarrow> Some (lots, fees)
      | Some l \<Rightarrow> Option.bind (dsub A (lt_held l) (min quantity (lt_held l))) (\<lambda>held.
          Some (lots(asset \<mapsto> l\<lparr>lt_held := held\<rparr>), fees)))"
| "pnl_step A (lots, fees) (Fee v) = map_option (\<lambda>fees'. (lots, fees')) (dadd A fees v)"

text \<open>The loop over the assets, with the positions and the two totals so far.\<close>

fun positions_from ::
    "arith \<Rightarrow> lot_map \<Rightarrow> (string \<Rightarrow> decimal option) \<Rightarrow> (string \<Rightarrow> decimal option) \<Rightarrow>
      position_pnl list \<Rightarrow> decimal \<Rightarrow> decimal \<Rightarrow> string list \<Rightarrow> (position_pnl list \<times> decimal \<times> decimal) option" where
  "positions_from A lots current marks ps rt ut [] = Some (ps, rt, ut)"
| "positions_from A lots current marks ps rt ut (asset # rest) =
     (let quantity = (case current asset of None \<Rightarrow> 0 | Some q \<Rightarrow> q);
          realized = (case lots asset of None \<Rightarrow> 0 | Some l \<Rightarrow> lt_realized l)
      in if quantity = 0 \<and> realized = 0 then positions_from A lots current marks ps rt ut rest
         else
           let mark_price = (case marks asset of None \<Rightarrow> 0 | Some m \<Rightarrow> m);
               average_cost = (case lots asset of None \<Rightarrow> None
                 | Some l \<Rightarrow> if lt_held l > 0 then Some (lt_average_cost l) else None)
           in Option.bind
                (case average_cost of
                   None \<Rightarrow> Some None
                 | Some cost \<Rightarrow> Option.bind (dsub A mark_price cost) (\<lambda>d. map_option Some (dmul A d quantity))) (\<lambda>unrealized.
              Option.bind (dadd A rt realized) (\<lambda>rt'.
              Option.bind (dadd A ut (case unrealized of None \<Rightarrow> 0 | Some u \<Rightarrow> u)) (\<lambda>ut'.
                positions_from A lots current marks
                  (ps @ [\<lparr>pp_asset = asset, pp_quantity = quantity, pp_average_cost = average_cost,
                     pp_mark_price = mark_price, pp_realized = realized, pp_unrealized = unrealized\<rparr>]) rt' ut' rest))))"

definition pnl_lots :: "arith \<Rightarrow> (string \<times> decimal \<times> decimal) list \<Rightarrow> pnl_event list \<Rightarrow> (lot_map \<times> decimal) option" where
  "pnl_lots A openings events =
     Option.bind (try_fold (\<lambda>lots (asset, quantity, price). acquire A lots asset quantity price) Map.empty openings)
       (\<lambda>lots. try_fold (pnl_step A) (lots, 0) events)"

definition compute_pnl ::
    "arith \<Rightarrow> (string \<times> decimal \<times> decimal) list \<Rightarrow> pnl_event list \<Rightarrow> (string \<Rightarrow> decimal option) \<Rightarrow>
      (string \<Rightarrow> decimal option) \<Rightarrow> pnl_summary option" where
  "compute_pnl A openings events current_quantities marks =
     Option.bind (pnl_lots A openings events) (\<lambda>(lots, fees).
       map_option (\<lambda>(ps, rt, ut). \<lparr>ps_positions = ps, ps_realized = rt, ps_unrealized = ut, ps_fees = fees\<rparr>)
         (positions_from A lots current_quantities marks [] 0 0
           (sorted_list_of_set (dom lots \<union> dom current_quantities))))"

section \<open>The book of one asset\<close>

text \<open>
  The specification: quantity held, what it cost, and the profit realized so far. A disposal or a
  withdrawal of part of the holding releases that part of the cost.
\<close>

record book =
  bk_held :: decimal
  bk_cost :: decimal
  bk_profit :: decimal

definition empty_book :: book where
  "empty_book = \<lparr>bk_held = 0, bk_cost = 0, bk_profit = 0\<rparr>"

definition released :: "book \<Rightarrow> decimal \<Rightarrow> decimal" where
  "released b m = (if bk_held b = 0 then 0 else bk_cost b * m / bk_held b)"

fun book_step :: "string \<Rightarrow> book \<Rightarrow> pnl_event \<Rightarrow> book" where
  "book_step a b (Acquire asset q p) =
     (if asset = a then b\<lparr>bk_held := bk_held b + q, bk_cost := bk_cost b + q * p\<rparr> else b)"
| "book_step a b (Dispose asset q p) =
     (if asset = a
      then let m = min q (bk_held b) in
        b\<lparr>bk_held := bk_held b - m, bk_cost := bk_cost b - released b m,
          bk_profit := bk_profit b + m * p - released b m\<rparr>
      else b)"
| "book_step a b (Withdraw asset q) =
     (if asset = a
      then let m = min q (bk_held b) in b\<lparr>bk_held := bk_held b - m, bk_cost := bk_cost b - released b m\<rparr>
      else b)"
| "book_step a b (Fee v) = b"

definition opening_events :: "(string \<times> decimal \<times> decimal) list \<Rightarrow> pnl_event list" where
  "opening_events openings = map (\<lambda>(asset, q, p). Acquire asset q p) openings"

definition book_of :: "string \<Rightarrow> pnl_event list \<Rightarrow> book" where
  "book_of a events = foldl (book_step a) empty_book events"

fun nonneg_event :: "pnl_event \<Rightarrow> bool" where
  "nonneg_event (Acquire _ q _) = (0 \<le> q)"
| "nonneg_event (Dispose _ q _) = (0 \<le> q)"
| "nonneg_event (Withdraw _ q) = (0 \<le> q)"
| "nonneg_event (Fee _) = True"

fun fee_of :: "pnl_event \<Rightarrow> decimal" where
  "fee_of (Fee v) = v"
| "fee_of _ = 0"

text \<open>The book of a lot.\<close>

definition lot_book :: "lot option \<Rightarrow> book" where
  "lot_book l = (case l of None \<Rightarrow> empty_book
     | Some l \<Rightarrow> \<lparr>bk_held = lt_held l, bk_cost = lt_held l * lt_average_cost l, bk_profit = lt_realized l\<rparr>)"

lemma lot_book_simps [simp]:
  "lot_book None = empty_book"
  "lot_book (Some l) = \<lparr>bk_held = lt_held l, bk_cost = lt_held l * lt_average_cost l, bk_profit = lt_realized l\<rparr>"
  by (simp_all add: lot_book_def)

lemma lot_book_or_new: "lot_book (lots a) = lot_book (Some (lot_or_new lots a))"
  by (simp add: lot_book_def lot_or_new_def empty_book_def split: option.split)

definition lots_nonneg :: "lot_map \<Rightarrow> bool" where
  "lots_nonneg lots \<longleftrightarrow> (\<forall>a. 0 \<le> bk_held (lot_book (lots a)))"

lemma acquire_refines:
  assumes "lots_nonneg lots" and "0 \<le> q"
  shows "\<exists>lots'. acquire exact_arith lots asset q p = Some lots' \<and> lots_nonneg lots' \<and>
    (\<forall>a. lot_book (lots' a) = book_step a (lot_book (lots a)) (Acquire asset q p))"
proof -
  define l where "l = lot_or_new lots asset"
  have h: "0 \<le> lt_held l" using assms(1) lot_book_or_new [of lots asset]
    by (simp add: lots_nonneg_def l_def [symmetric]) (metis book.select_convs(1))
  define avg where "avg = (if lt_held l + q > 0 then (lt_held l * lt_average_cost l + q * p) / (lt_held l + q)
    else lt_average_cost l)"
  let ?lots = "lots(asset \<mapsto> l\<lparr>lt_average_cost := avg, lt_held := lt_held l + q\<rparr>)"
  have "acquire exact_arith lots asset q p = Some ?lots"
    by (simp add: acquire_def Let_def l_def [symmetric] avg_def)
  moreover have "(lt_held l + q) * avg = lt_held l * lt_average_cost l + q * p"
  proof (cases "lt_held l + q > 0")
    case False
    then have "lt_held l = 0" "q = 0" using h assms(2) by linarith+
    then show ?thesis by simp
  qed (simp add: avg_def)
  then have "lot_book (?lots a) = book_step a (lot_book (lots a)) (Acquire asset q p)" for a
    using lot_book_or_new [of lots asset] by (cases "a = asset") (simp_all add: l_def [symmetric])
  moreover from this have "lots_nonneg ?lots" using assms by (auto simp: lots_nonneg_def)
  ultimately show ?thesis by blast
qed

lemma step_refines:
  assumes "lots_nonneg lots" and "nonneg_event e"
  shows "\<exists>lots'. pnl_step exact_arith (lots, fees) e = Some (lots', fees + fee_of e) \<and> lots_nonneg lots' \<and>
    (\<forall>a. lot_book (lots' a) = book_step a (lot_book (lots a)) e)"
proof (cases e)
  case (Acquire asset q p)
  then show ?thesis using acquire_refines [OF assms(1), of q asset p] assms(2) by auto
next
  case (Dispose asset q p)
  define l where "l = lot_or_new lots asset"
  define m where "m = min q (lt_held l)"
  have b: "lot_book (lots asset) = lot_book (Some l)" using lot_book_or_new by (simp add: l_def)
  have h: "0 \<le> lt_held l" using assms(1) b by (simp add: lots_nonneg_def) (metis book.select_convs(1))
  let ?lots = "lots(asset \<mapsto> l\<lparr>lt_realized := lt_realized l + m * (p - lt_average_cost l), lt_held := lt_held l - m\<rparr>)"
  have "pnl_step exact_arith (lots, fees) e = Some (?lots, fees + fee_of e)"
    by (simp add: Dispose l_def [symmetric] m_def [symmetric] Let_def)
  moreover have m0: "lt_held l = 0 \<Longrightarrow> m = 0" using assms(2) by (simp add: m_def Dispose)
  have "lot_book (?lots a) = book_step a (lot_book (lots a)) e" for a
    using m0 by (cases "a = asset") (auto simp: Dispose b released_def Let_def m_def [symmetric] algebra_simps)
  moreover have "lots_nonneg ?lots" using assms(1) by (simp add: lots_nonneg_def m_def)
  ultimately show ?thesis by blast
next
  case (Withdraw asset q)
  show ?thesis
  proof (cases "lots asset")
    case None
    then have "lot_book (lots a) = book_step a (lot_book (lots a)) e" for a
      using assms(2) by (auto simp: Withdraw empty_book_def released_def min_def Let_def)
    then show ?thesis using None assms(1) by (intro exI [of _ lots]) (simp add: Withdraw)
  next
    case (Some l)
    define m where "m = min q (lt_held l)"
    let ?lots = "lots(asset \<mapsto> l\<lparr>lt_held := lt_held l - m\<rparr>)"
    have "pnl_step exact_arith (lots, fees) e = Some (?lots, fees + fee_of e)"
      by (simp add: Withdraw Some m_def)
    moreover have m0: "lt_held l = 0 \<Longrightarrow> m = 0" using assms(2) by (simp add: m_def Withdraw)
    have "lot_book (?lots a) = book_step a (lot_book (lots a)) e" for a
      using m0 Some by (cases "a = asset") (auto simp: Withdraw released_def Let_def m_def [symmetric] algebra_simps)
    moreover have "lots_nonneg ?lots" using assms(1) by (simp add: lots_nonneg_def m_def)
    ultimately show ?thesis by blast
  qed
next
  case (Fee v)
  then show ?thesis using assms(1) by (intro exI [of _ lots]) simp
qed

lemma events_refine:
  assumes "list_all nonneg_event es" and "lots_nonneg lots"
  shows "\<exists>lots'. try_fold (pnl_step exact_arith) (lots, fees) es = Some (lots', fees + (\<Sum>e\<leftarrow>es. fee_of e)) \<and>
    lots_nonneg lots' \<and> (\<forall>a. lot_book (lots' a) = foldl (book_step a) (lot_book (lots a)) es)"
  using assms
proof (induction es arbitrary: lots fees)
  case (Cons e es)
  obtain lots' where s: "pnl_step exact_arith (lots, fees) e = Some (lots', fees + fee_of e)" "lots_nonneg lots'"
      "\<forall>a. lot_book (lots' a) = book_step a (lot_book (lots a)) e"
    using step_refines [OF Cons.prems(2), of e fees] Cons.prems(1) by auto
  then show ?case using Cons.IH [OF _ s(2), of "fees + fee_of e"] Cons.prems(1) by (auto simp: add.assoc)
qed simp

lemma openings_refine:
  assumes "list_all nonneg_event (opening_events os)" and "lots_nonneg lots"
  shows "\<exists>lots'. try_fold (\<lambda>lots (asset, q, p). acquire exact_arith lots asset q p) lots os = Some lots' \<and>
    lots_nonneg lots' \<and> (\<forall>a. lot_book (lots' a) = foldl (book_step a) (lot_book (lots a)) (opening_events os))"
  using assms
proof (induction os arbitrary: lots)
  case (Cons opn os)
  obtain asset q p where opn: "opn = (asset, q, p)" by (cases opn)
  have q: "0 \<le> q" using Cons.prems(1) by (simp add: opening_events_def opn)
  obtain lots' where s: "acquire exact_arith lots asset q p = Some lots'" "lots_nonneg lots'"
      "\<forall>a. lot_book (lots' a) = book_step a (lot_book (lots a)) (Acquire asset q p)"
    using acquire_refines [OF Cons.prems(2) q] by blast
  then show ?case using Cons.IH [OF _ s(2)] Cons.prems(1) by (auto simp: opn opening_events_def)
qed (simp add: opening_events_def)

lemma lots_refine:
  assumes "list_all nonneg_event (opening_events os @ es)"
  shows "\<exists>lots. pnl_lots exact_arith os es = Some (lots, \<Sum>e\<leftarrow>es. fee_of e) \<and>
    (\<forall>a. lot_book (lots a) = book_of a (opening_events os @ es))"
proof -
  have "lots_nonneg Map.empty" by (simp add: lots_nonneg_def empty_book_def)
  then obtain l1 where l1: "try_fold (\<lambda>lots (asset, q, p). acquire exact_arith lots asset q p) Map.empty os = Some l1"
      "lots_nonneg l1" "\<forall>a. lot_book (l1 a) = foldl (book_step a) (lot_book None) (opening_events os)"
    using openings_refine [of os Map.empty] assms by auto
  then show ?thesis using events_refine [of es l1 0] assms
    by (auto simp: pnl_lots_def book_of_def)
qed

lemma pnl_lots_finite:
  assumes "pnl_lots A os es = Some (lots, fees)"
  shows "finite (dom lots)"
proof -
  have acq: "finite (dom l')" if "acquire A l a q p = Some l'" "finite (dom l)" for l l' a q p
    using that by (auto simp: acquire_def Let_def split: bind_splits)
  obtain l1 where l1: "try_fold (\<lambda>lots (asset, q, p). acquire A lots asset q p) Map.empty os = Some l1"
      and r: "try_fold (pnl_step A) (l1, 0) es = Some (lots, fees)"
    using assms by (auto simp: pnl_lots_def split: bind_splits)
  have "finite (dom l1)" by (rule try_fold_inv [OF l1]) (auto dest: acq)
  then have "finite (dom (fst (l1, 0 :: decimal)))" by simp
  then have "finite (dom (fst (lots, fees)))"
  proof (rule try_fold_inv [OF r, where P = "\<lambda>s. finite (dom (fst s))"])
    fix s e s' assume "finite (dom (fst s))" "pnl_step A s e = Some s'"
    then show "finite (dom (fst s'))"
      by (cases s; cases e) (auto simp: Let_def dest: acq split: bind_splits option.splits)
  qed
  then show ?thesis by simp
qed

section \<open>The summary\<close>

definition now_of :: "(string \<Rightarrow> decimal option) \<Rightarrow> string \<Rightarrow> decimal" where
  "now_of m a = (case m a of None \<Rightarrow> 0 | Some v \<Rightarrow> v)"

definition or_zero :: "decimal option \<Rightarrow> decimal" where
  "or_zero u = (case u of None \<Rightarrow> 0 | Some v \<Rightarrow> v)"

text \<open>The position an asset's book gives, at today's quantity and mark.\<close>

definition book_position :: "book \<Rightarrow> string \<Rightarrow> decimal \<Rightarrow> decimal \<Rightarrow> position_pnl" where
  "book_position b a quantity mark =
     (let cost = (if bk_held b > 0 then Some (bk_cost b / bk_held b) else None) in
      \<lparr>pp_asset = a, pp_quantity = quantity, pp_average_cost = cost, pp_mark_price = mark,
       pp_realized = bk_profit b, pp_unrealized = map_option (\<lambda>c. (mark - c) * quantity) cost\<rparr>)"

lemma positions_exact:
  assumes "\<And>a. lot_book (lots a) = books a"
  shows "positions_from exact_arith lots current marks ps rt ut as =
    (let new = map (\<lambda>a. book_position (books a) a (now_of current a) (now_of marks a))
        (filter (\<lambda>a. now_of current a \<noteq> 0 \<or> bk_profit (books a) \<noteq> 0) as)
     in Some (ps @ new, rt + (\<Sum>p\<leftarrow>new. pp_realized p), ut + (\<Sum>p\<leftarrow>new. or_zero (pp_unrealized p))))"
proof (induction as arbitrary: ps rt ut)
  case (Cons a as)
  have r: "(case lots a of None \<Rightarrow> 0 | Some l \<Rightarrow> lt_realized l) = bk_profit (books a)"
    and c: "(case lots a of None \<Rightarrow> None | Some l \<Rightarrow> if lt_held l > 0 then Some (lt_average_cost l) else None) =
      (if bk_held (books a) > 0 then Some (bk_cost (books a) / bk_held (books a)) else None)"
    by (simp_all add: assms [of a, symmetric] empty_book_def split: option.split)
  show ?case
    by (simp only: positions_from.simps Let_def r c now_of_def [symmetric])
      (simp add: Cons.IH Let_def book_position_def or_zero_def add.assoc)
qed simp

lemma sorted_list_of_filtered:
  "finite A \<Longrightarrow> {a. P a} \<subseteq> A \<Longrightarrow> filter P (sorted_list_of_set A) = sorted_list_of_set {a. P (a :: 'a :: linorder)}"
proof -
  assume a: "finite A" "{a. P a} \<subseteq> A"
  then have "finite {a. P a}" by (blast intro: finite_subset)
  with a show ?thesis
    by (intro sorted_distinct_set_unique) (auto simp: sorted_filter [of id, simplified])
qed

section \<open>Properties\<close>

text \<open>
  C24. The summary is the average-cost account of the events: with non-negative quantities the code
  never fails, lists, in order and once each, exactly the assets that are held now or made a profit, and
  each position, the two totals and the fees are those of a book that adds every acquisition at its
  cost, releases a proportional part of the cost on every disposal and withdrawal, and realizes only
  what a disposal of held quantity earned over its released cost.
\<close>

theorem pnl_refines_average_cost_book:
  assumes "list_all nonneg_event (opening_events openings @ events)" and "finite (dom current)"
  shows "compute_pnl exact_arith openings events current marks = Some
    (let books = (\<lambda>a. book_of a (opening_events openings @ events));
         shown = sorted_list_of_set {a. now_of current a \<noteq> 0 \<or> bk_profit (books a) \<noteq> 0};
         ps = map (\<lambda>a. book_position (books a) a (now_of current a) (now_of marks a)) shown
     in \<lparr>ps_positions = ps, ps_realized = (\<Sum>p\<leftarrow>ps. pp_realized p),
         ps_unrealized = (\<Sum>p\<leftarrow>ps. or_zero (pp_unrealized p)), ps_fees = (\<Sum>e\<leftarrow>events. fee_of e)\<rparr>)"
proof -
  define books where "books = (\<lambda>a. book_of a (opening_events openings @ events))"
  obtain lots where l: "pnl_lots exact_arith openings events = Some (lots, \<Sum>e\<leftarrow>events. fee_of e)"
      and b: "\<And>a. lot_book (lots a) = books a"
    using lots_refine [OF assms(1)] by (auto simp: books_def)
  have fin: "finite (dom lots \<union> dom current)" using pnl_lots_finite [OF l] assms(2) by simp
  have "now_of current a = 0 \<and> bk_profit (books a) = 0" if "a \<notin> dom lots \<union> dom current" for a
    using that b [of a, symmetric] by (auto simp: now_of_def empty_book_def domIff split: option.splits)
  then have "{a. now_of current a \<noteq> 0 \<or> bk_profit (books a) \<noteq> 0} \<subseteq> dom lots \<union> dom current" by blast
  from sorted_list_of_filtered [OF fin this] show ?thesis
    by (simp add: compute_pnl_def l positions_exact [of lots books, OF b] books_def [symmetric] Let_def)
qed

text \<open>The money an event moves: out for an acquisition, in for what a disposal matched; a withdrawal at cost.\<close>

fun cash_step :: "string \<Rightarrow> book \<Rightarrow> pnl_event \<Rightarrow> decimal" where
  "cash_step a b (Acquire asset q p) = (if asset = a then - (q * p) else 0)"
| "cash_step a b (Dispose asset q p) = (if asset = a then min q (bk_held b) * p else 0)"
| "cash_step a b (Withdraw asset q) = (if asset = a then released b (min q (bk_held b)) else 0)"
| "cash_step a b (Fee v) = 0"

fun cash_from :: "string \<Rightarrow> book \<Rightarrow> pnl_event list \<Rightarrow> decimal" where
  "cash_from a b [] = 0"
| "cash_from a b (e # es) = cash_step a b e + cash_from a (book_step a b e) es"

lemma book_step_cash: "bk_profit (book_step a b e) - bk_cost (book_step a b e) = bk_profit b - bk_cost b + cash_step a b e"
  by (cases e) (simp_all add: Let_def)

lemma book_cash: "bk_profit (foldl (book_step a) b es) - bk_cost (foldl (book_step a) b es) =
    bk_profit b - bk_cost b + cash_from a b es"
  by (induction es arbitrary: b) (simp_all add: book_step_cash)

text \<open>
  C25. No profit is invented or lost: for every lot the code ends with, the realized profit plus what the
  holding gained over its average cost is the cash it brought in, less the cash put in, plus the holding
  at market, whatever the mark; a withdrawal counts at its cost, so moving assets out is neither.
\<close>

theorem pnl_profit_identity:
  assumes "list_all nonneg_event (opening_events openings @ events)"
    and "pnl_lots exact_arith openings events = Some (lots, fees)" and "lots a = Some l"
  shows "lt_realized l + (mark - lt_average_cost l) * lt_held l =
    cash_from a empty_book (opening_events openings @ events) + lt_held l * mark"
proof -
  have "lot_book (lots a) = foldl (book_step a) empty_book (opening_events openings @ events)"
    using lots_refine [OF assms(1)] assms(2) by (auto simp: book_of_def)
  then have "bk_profit (lot_book (Some l)) - bk_cost (lot_book (Some l)) =
      cash_from a empty_book (opening_events openings @ events)"
    using book_cash [of a empty_book "opening_events openings @ events"] assms(3) by (simp add: empty_book_def)
  then show ?thesis by (simp add: algebra_simps)
qed

section \<open>Witnesses\<close>

definition sample_pnl :: "pnl_event list" where
  "sample_pnl = [Acquire ''BTC'' 1 200, Dispose ''BTC'' (1 / 2) 300, Fee 3, Withdraw ''BTC'' (1 / 2),
     Dispose ''ETH'' 7 10]"

theorem pnl_refines_average_cost_book_witness:
  "\<exists>s. compute_pnl exact_arith [(''BTC'', 1, 100)] sample_pnl [''BTC'' \<mapsto> 1] [''BTC'' \<mapsto> 400] = Some s \<and>
     ps_realized s = 75 \<and> ps_unrealized s = 250 \<and> ps_fees s = 3"
proof -
  have books: "book_of ''BTC'' (opening_events [(''BTC'', 1, 100)] @ sample_pnl) = \<lparr>bk_held = 1, bk_cost = 150, bk_profit = 75\<rparr>"
    by (simp add: book_of_def sample_pnl_def opening_events_def empty_book_def released_def Let_def min_def)
  have "{a. now_of [''BTC'' \<mapsto> 1] a \<noteq> 0 \<or> bk_profit (book_of a (opening_events [(''BTC'', 1, 100)] @ sample_pnl)) \<noteq> 0} = {''BTC''}"
    by (auto simp: now_of_def book_of_def sample_pnl_def opening_events_def empty_book_def released_def Let_def min_def)
  then show ?thesis
    using pnl_refines_average_cost_book [of "[(''BTC'', 1, 100)]" sample_pnl "[''BTC'' \<mapsto> 1]" "[''BTC'' \<mapsto> 400]"] books
    by (simp add: sample_pnl_def opening_events_def Let_def book_position_def now_of_def or_zero_def)
qed

theorem pnl_profit_identity_witness:
  "\<exists>lots fees l. pnl_lots exact_arith [(''BTC'', 1, 100)] sample_pnl = Some (lots, fees) \<and> lots ''BTC'' = Some l \<and>
     lt_realized l + (400 - lt_average_cost l) * lt_held l =
       cash_from ''BTC'' empty_book (opening_events [(''BTC'', 1, 100)] @ sample_pnl) + lt_held l * 400"
proof -
  have nn: "list_all nonneg_event (opening_events [(''BTC'', 1, 100)] @ sample_pnl)"
    by (simp add: sample_pnl_def opening_events_def)
  obtain lots fees l where l: "pnl_lots exact_arith [(''BTC'', 1, 100)] sample_pnl = Some (lots, fees)" "lots ''BTC'' = Some l"
    by (simp add: pnl_lots_def acquire_def lot_or_new_def sample_pnl_def Let_def)
  show ?thesis using pnl_profit_identity [OF nn l, of 400] l by blast
qed

end
