(* ===== verification/BTree.thy ===== *)
theory BTree
  imports Prelude "HOL-Library.List_Lexorder" "HOL-Library.Char_ord" "HOL-Library.Multiset"
begin

text \<open>
  \<open>BTreeMap\<close> where its order of iteration is visible: the list of its entries in key order, distinct by
  construction. \<open>get\<close> is \<open>map_of\<close>, \<open>insert\<close> replaces or inserts in place, \<open>keys\<close> and iteration
  are the list itself. Keys are strings, which compare byte by byte.
\<close>

type_synonym ('k, 'v) btree = "('k \<times> 'v) list"

fun bt_insert :: "'k :: linorder \<Rightarrow> 'v \<Rightarrow> ('k, 'v) btree \<Rightarrow> ('k, 'v) btree" where
  "bt_insert k v [] = [(k, v)]"
| "bt_insert k v ((k', v') # m) =
     (if k < k' then (k, v) # (k', v') # m
      else if k = k' then (k, v) # m
      else (k', v') # bt_insert k v m)"

definition bt_extend :: "('k :: linorder, 'v) btree \<Rightarrow> ('k, 'v) btree \<Rightarrow> ('k, 'v) btree" where
  "bt_extend m m' = fold (\<lambda>(k, v) m. bt_insert k v m) m' m"

definition bt_ok :: "('k :: linorder, 'v) btree \<Rightarrow> bool" where
  "bt_ok m \<longleftrightarrow> sorted_wrt (<) (map fst m)"

lemma bt_ok_Nil [simp]: "bt_ok []"
  by (simp add: bt_ok_def)

lemma map_of_bt_insert [simp]: "map_of (bt_insert k v m) = (map_of m)(k \<mapsto> v)" if "bt_ok m"
  using that
proof (induction k v m rule: bt_insert.induct)
  case (2 k v k' v' m)
  have "map_of m k' = None"
    using "2.prems" by (auto simp: bt_ok_def map_of_eq_None_iff)
  then show ?case using 2 by (auto simp: bt_ok_def fun_eq_iff)
qed simp

lemma bt_insert_keys: "fst ` set (bt_insert k v m) = insert k (fst ` set m)"
  by (induction k v m rule: bt_insert.induct) auto

lemma bt_ok_insert: "bt_ok m \<Longrightarrow> bt_ok (bt_insert k v m)"
proof (induction k v m rule: bt_insert.induct)
  case (2 k v k' v' m)
  then show ?case using bt_insert_keys [of k v m] by (auto simp: bt_ok_def)
qed (simp add: bt_ok_def)

lemma bt_insert_subset: "set (bt_insert k v m) \<subseteq> insert (k, v) (set m)"
  by (induction k v m rule: bt_insert.induct) auto

lemma map_of_bt_insert_other: "k' \<noteq> k \<Longrightarrow> map_of (bt_insert k v m) k' = map_of m k'"
  by (induction k v m rule: bt_insert.induct) auto

lemma bt_insert_keeps: "map_of m k = Some v \<Longrightarrow> map_of m k' = None \<Longrightarrow> map_of (bt_insert k' w m) k = Some v"
  by (subst map_of_bt_insert_other) auto

lemma mset_bt_insert: "map_of m k = None \<Longrightarrow> mset (bt_insert k v m) = add_mset (k, v) (mset m)"
  by (induction k v m rule: bt_insert.induct) (auto split: if_splits)

lemma bt_distinct: "bt_ok m \<Longrightarrow> distinct (map fst m)"
  by (simp add: bt_ok_def strict_sorted_iff)

lemma bt_mem: "bt_ok m \<Longrightarrow> (k, v) \<in> set m \<longleftrightarrow> map_of m k = Some v"
  using bt_distinct map_of_eq_Some_iff by metis

text \<open>The entries under some of the keys.\<close>

lemma bt_insert_outside: "\<not> P k \<Longrightarrow> filter (\<lambda>e. P (fst e)) (bt_insert k v m) = filter (\<lambda>e. P (fst e)) m"
  by (induction k v m rule: bt_insert.induct) auto

lemma map_of_filter_keys: "map_of (filter (\<lambda>e. P (fst e)) m) k = (if P k then map_of m k else None)"
  by (induction m) auto

lemma bt_ok_filter: "bt_ok m \<Longrightarrow> bt_ok (filter P m)"
  by (induction m) (auto simp: bt_ok_def)

lemma bt_extend_ok: "bt_ok m \<Longrightarrow> bt_ok (bt_extend m m')"
  unfolding bt_extend_def by (induction m' arbitrary: m) (auto simp: bt_ok_insert)

text \<open>A sum over the entries, after an insertion.\<close>

lemma bt_sum_insert:
  fixes f :: "'k :: linorder \<Rightarrow> 'v \<Rightarrow> 'a :: ab_group_add"
  assumes "bt_ok m"
  shows "(\<Sum>(k, v)\<leftarrow>bt_insert k v m. f k v) =
    (\<Sum>(k, v)\<leftarrow>m. f k v) - (case map_of m k of None \<Rightarrow> 0 | Some v' \<Rightarrow> f k v') + f k v"
  using assms
proof (induction k v m rule: bt_insert.induct)
  case (2 k v k' v' m)
  show ?case
  proof (cases "k < k'")
    case True
    then have "map_of ((k', v') # m) k = None"
      using "2.prems" by (auto simp: bt_ok_def map_of_eq_None_iff)
    then show ?thesis using True by simp
  next
    case False
    then show ?thesis using 2 by (auto simp: bt_ok_def split: option.splits)
  qed
qed simp

section \<open>Grouping\<close>

text \<open>\<open>entry(k).or_default().push(v)\<close>, and what pushing every element of a list under its key leaves.\<close>

definition bt_push :: "'k :: linorder \<Rightarrow> 'v \<Rightarrow> ('k, 'v list) btree \<Rightarrow> ('k, 'v list) btree" where
  "bt_push k v m = bt_insert k ((case map_of m k of None \<Rightarrow> [] | Some vs \<Rightarrow> vs) @ [v]) m"

definition grouped :: "('v \<Rightarrow> 'k :: linorder) \<Rightarrow> 'v list \<Rightarrow> ('k, 'v list) btree \<Rightarrow> bool" where
  "grouped key xs m \<longleftrightarrow> bt_ok m \<and>
     (\<forall>k. map_of m k = (let vs = filter (\<lambda>v. key v = k) xs in if vs = [] then None else Some vs))"

lemma grouped_push: "grouped key xs m \<Longrightarrow> grouped key (xs @ [x]) (bt_push (key x) x m)"
  by (auto simp: grouped_def bt_push_def bt_ok_insert Let_def)

lemma grouped_Nil: "grouped key [] []"
  by (simp add: grouped_def)

lemma grouped_nonempty: "grouped key xs m \<Longrightarrow> (k, vs) \<in> set m \<Longrightarrow> vs \<noteq> []"
  using bt_mem [of m k vs] by (fastforce simp: grouped_def Let_def split: if_splits)

lemma grouped_entries:
  assumes "grouped key xs m"
  shows "m = map (\<lambda>k. (k, filter (\<lambda>v. key v = k) xs)) (map fst m) \<and> distinct (map fst m) \<and> set (map fst m) = key ` set xs"
proof -
  have e: "snd e = filter (\<lambda>v. key v = fst e) xs \<and> snd e \<noteq> []" if "e \<in> set m" for e
  proof -
    have "bt_ok m" using assms by (simp add: grouped_def)
    then have "map_of m (fst e) = Some (snd e)" using that bt_mem [of m "fst e" "snd e"] by simp
    then show ?thesis using assms by (auto simp: grouped_def Let_def split: if_splits)
  qed
  have "m = map (\<lambda>k. (k, filter (\<lambda>v. key v = k) xs)) (map fst m)"
    by (simp add: list_eq_iff_nth_eq) (metis e nth_mem prod.collapse)
  moreover have "fst ` set m = key ` set xs"
  proof (intro equalityI subsetI)
    fix k assume "k \<in> fst ` set m"
    then obtain e where m: "e \<in> set m" and k: "k = fst e" by auto
    then show "k \<in> key ` set xs" using e [OF m] by (auto simp: filter_empty_conv) (metis image_eqI)
  next
    fix k assume "k \<in> key ` set xs"
    then obtain x where "x \<in> set xs" "key x = k" by auto
    then have "filter (\<lambda>v. key v = k) xs \<noteq> []" by (auto simp: filter_empty_conv)
    then have "map_of m k \<noteq> None" using assms by (simp add: grouped_def Let_def)
    then show "k \<in> fst ` set m" by (simp add: map_of_eq_None_iff)
  qed
  ultimately show ?thesis using assms by (simp add: grouped_def bt_distinct)
qed

lemma sum_list_sort_key:
  fixes f :: "'a \<Rightarrow> 'b :: comm_monoid_add"
  shows "(\<Sum>x\<leftarrow>sort_key k xs. f x) = (\<Sum>x\<leftarrow>xs. f x)"
  using sum_mset_sum_list [of "map f (sort_key k xs)"] sum_mset_sum_list [of "map f xs"] by simp

lemma sum_over_keys:
  fixes w :: "'v \<Rightarrow> 'a :: comm_monoid_add"
  assumes "distinct ks" and "key ` set xs \<subseteq> set ks"
  shows "(\<Sum>k\<leftarrow>ks. \<Sum>v\<leftarrow>filter (\<lambda>v. key v = k) xs. w v) = (\<Sum>v\<leftarrow>xs. w v)"
  using assms(2)
proof (induction xs)
  case (Cons x xs)
  have "(\<Sum>k\<leftarrow>ks. \<Sum>v\<leftarrow>filter (\<lambda>v. key v = k) (x # xs). w v) =
      (\<Sum>k\<leftarrow>ks. (if key x = k then w x else 0) + (\<Sum>v\<leftarrow>filter (\<lambda>v. key v = k) xs. w v))"
    by (intro arg_cong [of _ _ sum_list] map_cong) auto
  also have "\<dots> = (\<Sum>k\<leftarrow>ks. if key x = k then w x else 0) + (\<Sum>v\<leftarrow>xs. w v)"
    using Cons by (simp add: sum_list_addf)
  also have "(\<Sum>k\<leftarrow>ks. if key x = k then w x else 0) = w x"
    using assms(1) Cons.prems by (simp add: sum_list_distinct_conv_sum_set)
  finally show ?case by simp
qed simp

end
