(* ===== verification/Market.thy ===== *)
theory Market
  imports BTree Decimal Prices Valuations
begin

text \<open>
  What the performance engine reads from an exchange: services/collector/exchange-core (the trait
  \<open>MarketData\<close> and the parallel map), its implementation for Binance (worker, market.rs), and the price
  resolution and current NAV built on it (worker, publish.rs).

  A \<open>dyn MarketData\<close> is a record of functions: what an exchange answers is a function of what it is
  asked. The HTTP client behind the Binance implementation is the record \<open>live_client\<close>, whose errors
  are the texts they display as. \<open>Decimal::from_str\<close> and \<open>to_string\<close> are the fields of \<open>dec_env\<close> beside
  the arithmetic; a text is only ever read back, so \<open>to_string\<close> is a function of the value.
\<close>

record dec_env =
  de_arith :: arith
  de_parse :: "string \<Rightarrow> decimal option"
  de_show :: "decimal \<Rightarrow> string"

section \<open>exchange-core\<close>

record account_balance =
  ab_asset :: string
  ab_free :: string
  ab_locked :: string

record raw_candle =
  rk_open_time_ms :: nat
  rk_close_price :: string
  rk_close_time_ms :: nat

datatype market_error = MarketError string

type_synonym symbol_assets = "string \<Rightarrow> (string \<times> string) option"

record market =
  mkt_quote_currency :: string
  mkt_market_symbol :: "string \<Rightarrow> string"
  mkt_symbol_assets_for :: "string set \<Rightarrow> market_error + symbol_assets"
  mkt_account_balances :: "market_error + account_balance list"
  mkt_candles_span :: "string \<Rightarrow> nat \<Rightarrow> nat \<Rightarrow> nat \<Rightarrow> market_error + raw_candle list"
  mkt_price_at_instant :: "string \<Rightarrow> nat \<Rightarrow> market_error + decimal"

definition SERIES_STEPS_MS :: "nat list" where
  "SERIES_STEPS_MS = [60000, 300000, 900000, 1800000, 3600000, 7200000, 86400000]"

text \<open>The parallel map: each chunk on its own thread, joined in order.\<close>

definition MAX_PARALLEL_REQUESTS :: nat where "MAX_PARALLEL_REQUESTS = 8"

definition chunk_size :: "nat \<Rightarrow> nat" where
  "chunk_size n = (let threads = min MAX_PARALLEL_REQUESTS n in (n + threads - 1) div threads)"

definition parallel_map :: "('a \<Rightarrow> 'r) \<Rightarrow> 'a list \<Rightarrow> 'r list" where
  "parallel_map work items =
     (if length items \<le> 1 then map work items
      else concat (map (map work) (chunks (chunk_size (length items)) items)))"

section \<open>market.rs\<close>

definition QUOTE_CURRENCY :: string where "QUOTE_CURRENCY = ''USDT''"

record live_client =
  lc_symbol_assets_for :: "string set \<Rightarrow> string + symbol_assets"
  lc_balances_with_earn :: "string + account_balance list"
  lc_klines_span :: "string \<Rightarrow> string \<Rightarrow> nat \<Rightarrow> nat \<Rightarrow> string + raw_candle list"
  lc_klines_in_range :: "string \<Rightarrow> string \<Rightarrow> nat \<Rightarrow> nat option \<Rightarrow> nat option \<Rightarrow> string + raw_candle list"

definition failed :: "string \<Rightarrow> string \<Rightarrow> market_error" where
  "failed what e = MarketError (''Binance '' @ what @ '': '' @ e)"

definition interval_label :: "nat \<Rightarrow> market_error + string" where
  "interval_label interval_ms =
     (if interval_ms = 60000 then Inr ''1m'' else if interval_ms = 300000 then Inr ''5m''
      else if interval_ms = 900000 then Inr ''15m'' else if interval_ms = 1800000 then Inr ''30m''
      else if interval_ms = 3600000 then Inr ''1h'' else if interval_ms = 7200000 then Inr ''2h''
      else if interval_ms = 86400000 then Inr ''1d''
      else Inl (MarketError (''no Binance candle size of '' @ show_nat interval_ms @ '' ms'')))"

definition binance_symbol :: "string \<Rightarrow> string" where
  "binance_symbol asset = asset @ QUOTE_CURRENCY"

text \<open>How a \<open>MarkError\<close> displays.\<close>

fun mark_error_text :: "mark_error \<Rightarrow> string" where
  "mark_error_text (MissingPrice s t) = ''no candle available to mark '' @ s @ '' at '' @ show_nat t"
| "mark_error_text (CandleNotClosed s) = ''candle for '' @ s @ '' is not yet closed''"
| "mark_error_text (CandleInTheFuture s t c) = ''candle for '' @ s @ '' closes at '' @ show_nat c @
     '', after the evaluation instant '' @ show_nat t @ '': a future candle''"
| "mark_error_text (CandleTooOld s a m) = ''candle for '' @ s @ '' is '' @ show_nat a @
     ''ms old, exceeding the '' @ show_nat m @ ''ms policy limit''"

definition to_candle :: "string \<Rightarrow> nat \<Rightarrow> raw_candle \<Rightarrow> candle" where
  "to_candle symbol at_ms c = \<lparr>ca_symbol = symbol, ca_open_time_ms = rk_open_time_ms c,
     ca_close_time_ms = rk_close_time_ms c, ca_close_price = rk_close_price c,
     ca_is_closed = (rk_close_time_ms c \<le> at_ms)\<rparr>"

definition binance_price_at_instant ::
    "(string \<Rightarrow> decimal option) \<Rightarrow> live_client \<Rightarrow> string \<Rightarrow> nat \<Rightarrow> market_error + decimal" where
  "binance_price_at_instant parse client asset at_ms =
     (let symbol = binance_symbol asset in
      and_then (map_err (failed (symbol @ '' price'')) (lc_klines_in_range client symbol ''1m'' 5 None (Some at_ms))) (\<lambda>raw_candles.
      let candles = map (to_candle symbol at_ms) raw_candles in
      and_then (map_err (\<lambda>e. MarketError (symbol @ '': '' @ mark_error_text e))
          (mark_from_series symbol candles at_ms reference_policy)) (\<lambda>mark.
        ok_or (MarketError (symbol @ '': invalid price '' @ mk_price mark)) (parse (mk_price mark)))))"

definition binance_candles_span ::
    "live_client \<Rightarrow> string \<Rightarrow> nat \<Rightarrow> nat \<Rightarrow> nat \<Rightarrow> market_error + raw_candle list" where
  "binance_candles_span client symbol interval_ms start_ms end_ms =
     and_then (interval_label interval_ms) (\<lambda>label.
       map_err (failed (symbol @ '' candles'')) (lc_klines_span client symbol label start_ms end_ms))"

definition binance_market :: "(string \<Rightarrow> decimal option) \<Rightarrow> live_client \<Rightarrow> market" where
  "binance_market parse client =
     \<lparr>mkt_quote_currency = QUOTE_CURRENCY,
      mkt_market_symbol = binance_symbol,
      mkt_symbol_assets_for = (\<lambda>symbols. map_err (failed ''symbol lookup'') (lc_symbol_assets_for client symbols)),
      mkt_account_balances = map_err (failed ''balances'') (lc_balances_with_earn client),
      mkt_candles_span = binance_candles_span client,
      mkt_price_at_instant = binance_price_at_instant parse client\<rparr>"

section \<open>publish.rs\<close>

datatype publish_error =
    PMarket market_error
  | InvalidBalanceAmount string string
  | PValuation valuation_error

definition resolve_historical_price :: "market \<Rightarrow> string \<Rightarrow> nat \<Rightarrow> publish_error + decimal" where
  "resolve_historical_price M asset evaluated_at_ms =
     (if asset = mkt_quote_currency M then Inr 1
      else map_err (\<lambda>e. case e of MarketError t \<Rightarrow> PValuation (UnsupportedAsset (asset @ '': '' @ t)))
        (mkt_price_at_instant M asset evaluated_at_ms))"

definition resolve_prices_parallel :: "market \<Rightarrow> (string \<times> nat) list \<Rightarrow> (publish_error + decimal) list" where
  "resolve_prices_parallel M requests =
     parallel_map (\<lambda>(asset, at_ms). resolve_historical_price M asset at_ms) requests"

record nav_result =
  nr_valuation :: valuation
  nr_excluded_out_of_scope_assets :: "string list"

text \<open>\<open>from_str(..).unwrap_or(ZERO)\<close>, and the filter on balances that are held; the sum may panic.\<close>

definition dec_or_zero :: "dec_env \<Rightarrow> string \<Rightarrow> decimal" where
  "dec_or_zero E s = (case de_parse E s of None \<Rightarrow> 0 | Some d \<Rightarrow> d)"

fun try_filter :: "('a \<Rightarrow> bool option) \<Rightarrow> 'a list \<Rightarrow> 'a list option" where
  "try_filter P [] = Some []"
| "try_filter P (x # xs) =
     Option.bind (P x) (\<lambda>b. Option.bind (try_filter P xs) (\<lambda>ys. Some (if b then x # ys else ys)))"

definition is_held :: "dec_env \<Rightarrow> account_balance \<Rightarrow> bool option" where
  "is_held E b =
     map_option (\<lambda>s. s > 0) (dadd (de_arith E) (dec_or_zero E (ab_free b)) (dec_or_zero E (ab_locked b)))"

text \<open>The loop over the balances in scope, each with the next of the resolved prices.\<close>

fun nav_inputs ::
    "dec_env \<Rightarrow> nat \<Rightarrow> (string \<Rightarrow> decimal option) \<Rightarrow> asset_input list \<Rightarrow> (publish_error + decimal) list \<Rightarrow>
      account_balance list \<Rightarrow> (publish_error + (string \<Rightarrow> decimal option) \<times> asset_input list) option" where
  "nav_inputs E cut_ms prices inputs resolved [] = Some (Inr (prices, inputs))"
| "nav_inputs E cut_ms prices inputs resolved (b # bs) =
     and_thenp (Some (ok_or (InvalidBalanceAmount (ab_asset b) (ab_free b)) (de_parse E (ab_free b)))) (\<lambda>free.
     and_thenp (Some (ok_or (InvalidBalanceAmount (ab_asset b) (ab_locked b)) (de_parse E (ab_locked b)))) (\<lambda>locked.
       case resolved of
         [] \<Rightarrow> None
       | r # rs \<Rightarrow> and_thenp (Some r) (\<lambda>price.
           nav_inputs E cut_ms (prices(ab_asset b \<mapsto> price))
             (inputs @ [\<lparr>in_asset = ab_asset b,
                in_snapshot = \<lparr>bs_free = free, bs_locked = locked, bs_observed_at_ms = cut_ms\<rparr>, in_events = []\<rparr>])
             rs bs)))"

text \<open>The clock is read once, after the balances arrived: \<open>cut_ms\<close>.\<close>

definition compute_current_nav :: "dec_env \<Rightarrow> market \<Rightarrow> nat \<Rightarrow> (publish_error + nav_result) option" where
  "compute_current_nav E M cut_ms =
     (let quote = mkt_quote_currency M in
      and_thenp (Some (map_err PMarket (mkt_account_balances M))) (\<lambda>balances.
      Option.bind (try_filter (is_held E) balances) (\<lambda>held.
      and_thenp (Some (map_err PMarket (mkt_symbol_assets_for M
          (set (map (\<lambda>b. mkt_market_symbol M (ab_asset b)) (filter (\<lambda>b. ab_asset b \<noteq> quote) held)))))) (\<lambda>listed_markets.
      let listed = (\<lambda>b. ab_asset b = quote \<or> listed_markets (mkt_market_symbol M (ab_asset b)) \<noteq> None);
          in_scope = filter listed held;
          excluded = map ab_asset (filter (\<lambda>b. \<not> listed b) held)
      in and_thenp (nav_inputs E cut_ms Map.empty []
             (resolve_prices_parallel M (map (\<lambda>b. (ab_asset b, cut_ms)) in_scope)) in_scope) (\<lambda>(prices, inputs).
         and_thenp (map_option (map_err PValuation) (value_at_cut (de_arith E) inputs prices cut_ms)) (\<lambda>v.
           Some (Inr \<lparr>nr_valuation = v, nr_excluded_out_of_scope_assets = excluded\<rparr>)))))))"

section \<open>Lemmas\<close>

lemma parallel_map_chunks:
  "parallel_map work items = map work items \<and>
   length (chunks (chunk_size (length items)) items) \<le> MAX_PARALLEL_REQUESTS"
proof (cases "items = []")
  case True
  then show ?thesis by (simp add: parallel_map_def chunks.simps)
next
  case False
  define n where "n = length items"
  define k where "k = min MAX_PARALLEL_REQUESTS n"
  have n: "0 < n" and k: "0 < k" using False by (simp_all add: n_def k_def MAX_PARALLEL_REQUESTS_def)
  have size: "chunk_size n = (n + k - 1) div k" by (simp add: chunk_size_def k_def Let_def)
  have "k div k \<le> chunk_size n" unfolding size using n by (intro div_le_mono) simp
  then have pos: "0 < chunk_size n" using k by simp
  have "n \<le> k * chunk_size n"
  proof -
    have "n + k - 1 < k * ((n + k - 1) div k) + k" using k by (metis dividend_less_times_div add.commute)
    then show ?thesis using n by (simp add: size)
  qed
  then have "n + chunk_size n - 1 < Suc k * chunk_size n" using pos by simp
  then have "(n + chunk_size n - 1) div chunk_size n < Suc k" using pos by (simp only: div_less_iff_less_mult)
  then have "length (chunks (chunk_size n) items) \<le> MAX_PARALLEL_REQUESTS"
    using chunks_length [OF pos, of items] by (simp add: n_def k_def)
  moreover have "concat (map (map work) (chunks (chunk_size n) items)) = map work items"
    using arg_cong [OF chunks_concat [OF pos, of items], of "map work"] by (simp add: map_concat)
  ultimately show ?thesis by (simp add: parallel_map_def n_def)
qed

lemma parallel_map_eq [simp]: "parallel_map work items = map work items"
  using parallel_map_chunks by blast

text \<open>A held balance, and its value at the resolved price; without rounding.\<close>

definition amount_of :: "dec_env \<Rightarrow> account_balance \<Rightarrow> decimal" where
  "amount_of E b = dec_or_zero E (ab_free b) + dec_or_zero E (ab_locked b)"

definition price_of :: "market \<Rightarrow> string \<Rightarrow> nat \<Rightarrow> decimal" where
  "price_of M asset t = (case resolve_historical_price M asset t of Inl _ \<Rightarrow> 0 | Inr p \<Rightarrow> p)"

definition held_balances :: "dec_env \<Rightarrow> account_balance list \<Rightarrow> account_balance list" where
  "held_balances E bs = filter (\<lambda>b. amount_of E b > 0) bs"

definition has_market :: "market \<Rightarrow> symbol_assets \<Rightarrow> string \<Rightarrow> bool" where
  "has_market M listed asset \<longleftrightarrow> asset = mkt_quote_currency M \<or> listed (mkt_market_symbol M asset) \<noteq> None"

lemma try_filter_total: "(\<And>x. x \<in> set xs \<Longrightarrow> P x = Some (Q x)) \<Longrightarrow> try_filter P xs = Some (filter Q xs)"
  by (induction xs) auto

lemma try_filter_held: "de_arith E = exact_arith \<Longrightarrow> try_filter (is_held E) bs = Some (held_balances E bs)"
  unfolding held_balances_def by (rule try_filter_total) (simp add: is_held_def amount_of_def)

text \<open>What the loop over the balances builds, with each balance's own resolved price.\<close>

definition priced_input :: "dec_env \<Rightarrow> nat \<Rightarrow> account_balance \<Rightarrow> asset_input \<Rightarrow> bool" where
  "priced_input E t b i \<longleftrightarrow> de_parse E (ab_free b) = Some (bs_free (in_snapshot i)) \<and>
     de_parse E (ab_locked b) = Some (bs_locked (in_snapshot i)) \<and>
     bs_observed_at_ms (in_snapshot i) = t \<and> in_asset i = ab_asset b \<and> in_events i = []"

lemma nav_inputs_Inr:
  assumes "nav_inputs E t prices inputs (map (\<lambda>b. resolve_historical_price M (ab_asset b) t) bs) bs = Some (Inr (prices', inputs'))"
  shows "(\<exists>new. inputs' = inputs @ new \<and> list_all2 (priced_input E t) bs new) \<and>
    (\<forall>b \<in> set bs. resolve_historical_price M (ab_asset b) t = Inr (price_of M (ab_asset b) t)) \<and>
    (\<forall>a. prices' a = (if a \<in> ab_asset ` set bs then Some (price_of M a t) else prices a))"
  using assms
proof (induction bs arbitrary: prices inputs)
  case (Cons b bs)
  obtain f l p where v: "de_parse E (ab_free b) = Some f" "de_parse E (ab_locked b) = Some l"
      "resolve_historical_price M (ab_asset b) t = Inr p"
    and r: "nav_inputs E t (prices(ab_asset b \<mapsto> p))
      (inputs @ [\<lparr>in_asset = ab_asset b, in_snapshot = \<lparr>bs_free = f, bs_locked = l, bs_observed_at_ms = t\<rparr>, in_events = []\<rparr>])
      (map (\<lambda>b. resolve_historical_price M (ab_asset b) t) bs) bs = Some (Inr (prices', inputs'))"
    using Cons.prems by (auto simp: and_thenp_Inr)
  have p: "p = price_of M (ab_asset b) t" using v(3) by (simp add: price_of_def)
  obtain new where n: "inputs' = (inputs @ [\<lparr>in_asset = ab_asset b,
        in_snapshot = \<lparr>bs_free = f, bs_locked = l, bs_observed_at_ms = t\<rparr>, in_events = []\<rparr>]) @ new"
      "list_all2 (priced_input E t) bs new"
    using Cons.IH [OF r] by blast
  then have "\<exists>new. inputs' = inputs @ new \<and> list_all2 (priced_input E t) (b # bs) new"
    using v by (auto simp: priced_input_def list_all2_Cons1)
  then show ?case using Cons.IH [OF r] v(3) p by auto
qed simp

lemma priced_input_valued:
  assumes "priced_input E t b i" and "valued prices t i av" and "prices (ab_asset b) = Some p"
  shows "av_asset av = ab_asset b \<and> av_value av = amount_of E b * p"
  using assms
  by (auto simp: priced_input_def valued_def reconstruct_exact unambiguous_def amount_of_def dec_or_zero_def moved_def)

lemma valued_sum:
  assumes "list_all2 (priced_input E t) bs inputs" and "list_all2 (valued prices t) inputs avs"
    and "\<And>b. b \<in> set bs \<Longrightarrow> prices (ab_asset b) = Some (price_of M (ab_asset b) t)"
  shows "map av_asset avs = map ab_asset bs \<and>
    (\<Sum>av\<leftarrow>avs. av_value av) = (\<Sum>b\<leftarrow>bs. amount_of E b * price_of M (ab_asset b) t)"
  using assms
proof (induction bs inputs arbitrary: avs rule: list_all2_induct)
  case (Cons b bs i ins)
  then obtain av avs' where "avs = av # avs'" "valued prices t i av" "list_all2 (valued prices t) ins avs'"
    by (auto simp: list_all2_Cons1)
  then show ?case using Cons priced_input_valued [OF Cons.hyps(1), of prices av] by simp
qed simp

section \<open>Properties\<close>

text \<open>
  The parallel map is the sequential one: it returns the same results in the same order, from at
  most eight chunks, so a caller that stops at the first error sees the same first error.
\<close>

theorem parallel_map_is_map:
  "parallel_map work items = map work items \<and>
   length (chunks (chunk_size (length items)) items) \<le> MAX_PARALLEL_REQUESTS"
  by (rule parallel_map_chunks)

text \<open>
  The NAV published now is the account at market: every balance that is held is either valued or
  reported as excluded, the excluded ones being exactly those without a market against the quote
  currency; every valued asset had a price, and the NAV is the sum of free plus locked times that price.
\<close>

theorem current_nav_is_balances_at_market:
  assumes "de_arith E = exact_arith" and "mkt_account_balances M = Inr balances"
    and "compute_current_nav E M t = Some (Inr r)"
  shows "\<exists>listed. mkt_symbol_assets_for M
      (mkt_market_symbol M ` (ab_asset ` set (held_balances E balances) - {mkt_quote_currency M})) = Inr listed \<and>
    nr_excluded_out_of_scope_assets r =
      filter (\<lambda>a. \<not> has_market M listed a) (map ab_asset (held_balances E balances)) \<and>
    map av_asset (va_assets (nr_valuation r)) =
      filter (has_market M listed) (map ab_asset (held_balances E balances)) \<and>
    (\<forall>a \<in> av_asset ` set (va_assets (nr_valuation r)). resolve_historical_price M a t = Inr (price_of M a t)) \<and>
    va_nav (nr_valuation r) =
      (\<Sum>b\<leftarrow>filter (\<lambda>b. has_market M listed (ab_asset b)) (held_balances E balances).
         amount_of E b * price_of M (ab_asset b) t)"
proof -
  let ?held = "held_balances E balances"
  have markets: "(mkt_market_symbol M \<circ> ab_asset) ` {b \<in> set ?held. ab_asset b \<noteq> mkt_quote_currency M} =
      mkt_market_symbol M ` (ab_asset ` set ?held - {mkt_quote_currency M})"
    by auto
  obtain listed prices inputs v where listed: "mkt_symbol_assets_for M
        (mkt_market_symbol M ` (ab_asset ` set ?held - {mkt_quote_currency M})) = Inr listed"
    and inputs: "nav_inputs E t Map.empty []
        (map (\<lambda>b. resolve_historical_price M (ab_asset b) t) (filter (\<lambda>b. has_market M listed (ab_asset b)) ?held))
        (filter (\<lambda>b. has_market M listed (ab_asset b)) ?held) = Some (Inr (prices, inputs))"
    and v: "value_at_cut exact_arith inputs prices t = Some (Inr v)"
    and r: "r = \<lparr>nr_valuation = v,
        nr_excluded_out_of_scope_assets = map ab_asset (filter (\<lambda>b. \<not> has_market M listed (ab_asset b)) ?held)\<rparr>"
    using assms unfolding markets [symmetric]
    by (auto simp: compute_current_nav_def and_thenp_Inr try_filter_held Let_def has_market_def
        resolve_prices_parallel_def comp_def image_image)
  let ?in = "filter (\<lambda>b. has_market M listed (ab_asset b)) ?held"
  obtain avs where avs: "list_all2 (valued prices t) inputs avs"
      "v = \<lparr>va_cut_ms = t, va_assets = avs, va_nav = (\<Sum>av\<leftarrow>avs. av_value av)\<rparr>"
    using v by (auto simp: value_at_cut_def value_from_exact)
  have "map av_asset avs = map ab_asset ?in \<and>
      (\<Sum>av\<leftarrow>avs. av_value av) = (\<Sum>b\<leftarrow>?in. amount_of E b * price_of M (ab_asset b) t)"
    using nav_inputs_Inr [OF inputs] by (intro valued_sum [OF _ avs(1)]) auto
  moreover from this have "av_asset ` set avs = ab_asset ` set ?in" by (metis list.set_map)
  ultimately show ?thesis
    using listed nav_inputs_Inr [OF inputs] by (auto simp: r avs(2) filter_map comp_def)
qed

text \<open>
  A Binance price at an instant is the close of the latest one-minute candle that had closed by then
  among those the exchange returned: never a later price, and never more than two minutes old.
\<close>

theorem binance_price_never_later:
  assumes "lc_klines_in_range client (binance_symbol asset) ''1m'' 5 None (Some t) = Inr candles"
    and "binance_price_at_instant parse client asset t = Inr p"
  shows "\<exists>c \<in> set candles. parse (rk_close_price c) = Some p \<and> rk_close_time_ms c \<le> t \<and>
    t \<le> rk_close_time_ms c + 120000 \<and>
    (\<forall>d \<in> set candles. rk_close_time_ms d \<le> t \<longrightarrow> rk_close_time_ms d \<le> rk_close_time_ms c)"
proof -
  let ?cs = "map (to_candle (binance_symbol asset) t) candles"
  obtain m where m: "mark_from_series (binance_symbol asset) ?cs t reference_policy = Inr m"
      "parse (mk_price m) = Some p"
    using assms by (auto simp: binance_price_at_instant_def Let_def)
  then obtain c where c: "select_candle ?cs t = Some c" "mk_price m = ca_close_price c" "t - ca_close_time_ms c \<le> 120000"
    by (auto simp: mark_from_series_def resolve_mark_def reference_policy_def Let_def split: if_splits)
  have "c \<in> set ?cs \<and> ca_is_closed c \<and> ca_close_time_ms c \<le> t \<and>
      (\<forall>d \<in> set ?cs. ca_is_closed d \<and> ca_close_time_ms d \<le> t \<longrightarrow> ca_close_time_ms d \<le> ca_close_time_ms c)"
    using select_candle_latest [of ?cs t] c(1) by simp
  then show ?thesis using c m(2) by (auto simp: to_candle_def)
qed

definition sample_dec :: dec_env where
  "sample_dec = \<lparr>de_arith = exact_arith,
     de_parse = map_of [(''0'', 0), (''1'', 1), (''2'', 2), (''5'', 5), (''10'', 10)], de_show = \<lambda>_. []\<rparr>"

definition sample_market :: market where
  "sample_market = \<lparr>mkt_quote_currency = ''USDT'', mkt_market_symbol = binance_symbol,
     mkt_symbol_assets_for = \<lambda>_. Inr [''BTCUSDT'' \<mapsto> (''BTC'', ''USDT'')],
     mkt_account_balances = Inr [\<lparr>ab_asset = ''BTC'', ab_free = ''2'', ab_locked = ''1''\<rparr>,
       \<lparr>ab_asset = ''USDT'', ab_free = ''5'', ab_locked = ''0''\<rparr>, \<lparr>ab_asset = ''BRL'', ab_free = ''1'', ab_locked = ''0''\<rparr>],
     mkt_candles_span = \<lambda>_ _ _ _. Inr [\<lparr>rk_open_time_ms = 0, rk_close_price = ''10'', rk_close_time_ms = 59\<rparr>],
     mkt_price_at_instant = \<lambda>a t. if a = ''BTC'' then Inr 10 else Inl (MarketError ''no market'')\<rparr>"

theorem current_nav_is_balances_at_market_witness:
  "\<exists>r. compute_current_nav sample_dec sample_market 7 = Some (Inr r) \<and> va_nav (nr_valuation r) = 35 \<and>
     nr_excluded_out_of_scope_assets r = [''BRL'']"
proof -
  obtain balances where b: "mkt_account_balances sample_market = Inr balances"
    by (simp add: sample_market_def)
  have e: "de_arith sample_dec = exact_arith" by (simp add: sample_dec_def)
  have h: "held_balances sample_dec balances = balances"
    using b by (auto simp: sample_market_def sample_dec_def held_balances_def amount_of_def dec_or_zero_def)
  obtain r where r: "compute_current_nav sample_dec sample_market 7 = Some (Inr r)"
    by (simp add: compute_current_nav_def is_held_def dec_or_zero_def Let_def resolve_prices_parallel_def resolve_historical_price_def sample_market_def sample_dec_def binance_symbol_def
        QUOTE_CURRENCY_def value_at_cut_def reconstruct_quantity_def total_def)
  obtain listed where l: "mkt_symbol_assets_for sample_market (mkt_market_symbol sample_market `
        (ab_asset ` set balances - {mkt_quote_currency sample_market})) = Inr listed"
      "nr_excluded_out_of_scope_assets r = filter (\<lambda>a. \<not> has_market sample_market listed a) (map ab_asset balances)"
      "va_nav (nr_valuation r) = (\<Sum>b\<leftarrow>filter (\<lambda>b. has_market sample_market listed (ab_asset b)) balances.
         amount_of sample_dec b * price_of sample_market (ab_asset b) 7)"
    using current_nav_is_balances_at_market [OF e b r] unfolding h by blast
  have "has_market sample_market listed ''BTC''" "has_market sample_market listed ''USDT''"
      "\<not> has_market sample_market listed ''BRL''"
    using l(1) b by (auto simp: has_market_def sample_market_def binance_symbol_def QUOTE_CURRENCY_def)
  then have "nr_excluded_out_of_scope_assets r = [''BRL'']" "va_nav (nr_valuation r) = 35"
    using l(2,3) b by (auto simp: sample_market_def sample_dec_def amount_of_def dec_or_zero_def price_of_def
        resolve_historical_price_def)
  then show ?thesis using r by blast
qed

definition sample_client :: live_client where
  "sample_client = \<lparr>lc_symbol_assets_for = \<lambda>_. Inr Map.empty, lc_balances_with_earn = Inr [],
     lc_klines_span = \<lambda>_ _ _ _. Inr [],
     lc_klines_in_range = \<lambda>_ _ _ _ _. Inr [\<lparr>rk_open_time_ms = 0, rk_close_price = ''5'', rk_close_time_ms = 59999\<rparr>,
       \<lparr>rk_open_time_ms = 60000, rk_close_price = ''10'', rk_close_time_ms = 119999\<rparr>]\<rparr>"

theorem binance_price_never_later_witness:
  "binance_price_at_instant (de_parse sample_dec) sample_client ''BTC'' 90000 = Inr 5 \<and>
   (\<exists>c :: raw_candle. rk_close_time_ms c \<le> 90000 \<and> rk_close_price c = ''5'')"
proof -
  have cs: "lc_klines_in_range sample_client (binance_symbol ''BTC'') ''1m'' 5 None (Some 90000) =
      Inr [\<lparr>rk_open_time_ms = 0, rk_close_price = ''5'', rk_close_time_ms = 59999\<rparr>,
        \<lparr>rk_open_time_ms = 60000, rk_close_price = ''10'', rk_close_time_ms = 119999\<rparr>]"
    by (simp add: sample_client_def)
  have p: "binance_price_at_instant (de_parse sample_dec) sample_client ''BTC'' 90000 = Inr 5"
    by (simp add: binance_price_at_instant_def sample_client_def sample_dec_def mark_from_series_def resolve_mark_def
        select_candle_def pick_def to_candle_def reference_policy_def)
  obtain c :: raw_candle where "rk_close_time_ms c \<le> 90000" "de_parse sample_dec (rk_close_price c) = Some 5"
    using binance_price_never_later [OF cs p] by blast
  moreover from this have "rk_close_price c = ''5''"
    by (auto simp: sample_dec_def split: if_splits)
  ultimately show ?thesis using p by blast
qed

text \<open>The label of a candle size exists exactly for the sizes charts are drawn at.\<close>

lemma interval_label_total: "(\<exists>l. interval_label ms = Inr l) \<longleftrightarrow> ms \<in> set SERIES_STEPS_MS"
  by (auto simp: interval_label_def SERIES_STEPS_MS_def)

end
