(* ===== verification/History.thy ===== *)
theory History
  imports Market Ledger Trades Flows Returns WinRate Pnl Metrics Drawdown "HOL-Library.Product_Lexorder"
begin

text \<open>
  services/collector/binance/worker, history.rs: the NAV series, the time-weighted returns and the profit
  of one connection since it was connected, from its trades, its flows and what the exchange answers.

  The outer \<open>None\<close> is a panic (a decimal overflow, or an \<open>expect\<close> that fails) or a loop that does not
  end; \<open>Inl\<close> is the error the function returns. The lists of resolved prices are consumed from the front,
  as the code's iterators are. Database access, the blocking tasks around these functions and the errors
  they add are not modelled.
\<close>

section \<open>Errors and results\<close>

datatype history_error =
    HMarket market_error
  | UnknownSymbol nat string
  | HInvalidAmount string
  | HValuation valuation_error
  | HReturn return_error
  | HPublish publish_error

record daily_nav =
  dn_day_start_ms :: nat
  dn_nav :: decimal

record history_result =
  hr_daily_nav :: "daily_nav list"
  hr_daily_returns :: "decimal list"
  hr_twr_index :: "index_point list"
  hr_earliest_reliable_checkpoint_ms :: "nat option"
  hr_win_rate :: "win_rate_result option"
  hr_pnl :: pnl_summary

definition DAY_MS :: nat where "DAY_MS = 86400000"

definition parse_decimal :: "dec_env \<Rightarrow> string \<Rightarrow> history_error + decimal" where
  "parse_decimal E s = ok_or (HInvalidAmount s) (de_parse E s)"

section \<open>Win rate over every symbol\<close>

definition to_fill :: "dec_env \<Rightarrow> trade \<Rightarrow> history_error + string \<times> fill" where
  "to_fill E t =
     and_then (parse_decimal E (tr_price t)) (\<lambda>price.
     and_then (parse_decimal E (tr_qty t)) (\<lambda>qty.
       Inr (tr_symbol t, \<lparr>fl_time_ms = tr_time_ms t, fl_qty = qty, fl_price = price, fl_is_buy = tr_is_buyer t\<rparr>)))"

definition push_entry :: "('k :: linorder, 'v list) btree \<Rightarrow> 'k \<times> 'v \<Rightarrow> ('k, 'v list) btree" where
  "push_entry m e = (case map_of m (fst e) of
     None \<Rightarrow> bt_insert (fst e) [snd e] m | Some vs \<Rightarrow> bt_insert (fst e) (vs @ [snd e]) m)"

definition count_trips :: "arith \<Rightarrow> nat \<times> nat \<Rightarrow> fill list \<Rightarrow> (nat \<times> nat) option" where
  "count_trips A acc fills =
     Option.bind (compute_win_rate A fills) (\<lambda>r. case r of
         Inr w \<Rightarrow> Some (fst acc + closed_round_trips w, snd acc + wins w)
       | Inl NoClosedRoundTrips \<Rightarrow> Some acc)"

definition compute_overall_win_rate :: "dec_env \<Rightarrow> trade list \<Rightarrow> (history_error + win_rate_result option) option" where
  "compute_overall_win_rate E trades =
     and_thenp (Some (collect_res (to_fill E) trades)) (\<lambda>fills.
       let by_symbol = foldl push_entry [] fills in
       Option.bind (try_fold (count_trips (de_arith E)) (0, 0) (map snd by_symbol)) (\<lambda>(closed, won).
         if closed = 0 then Some (Inr None)
         else map_option (\<lambda>q. Inr (Some \<lparr>closed_round_trips = closed, wins = won, win_rate = q\<rparr>))
                (ddiv (de_arith E) (of_nat won) (of_nat closed))))"

section \<open>Ledger events and deltas\<close>

definition trade_to_ledger_event :: "dec_env \<Rightarrow> trade \<Rightarrow> string \<Rightarrow> string \<Rightarrow> (history_error + ledger_event) option" where
  "trade_to_ledger_event E t base quote =
     and_thenp (Some (parse_decimal E (tr_price t))) (\<lambda>price.
     and_thenp (Some (parse_decimal E (tr_qty t))) (\<lambda>qty.
     Option.bind (dmul (de_arith E) price qty) (\<lambda>product.
       let quote_amount = de_show E product in
       Some (Inr \<lparr>ev_source_namespace = ''binance.trade'',
         ev_source_id = tr_symbol t @ ''#'' @ show_nat (tr_id t),
         ev_economic_time_ms = tr_time_ms t, ev_observed_time_ms = tr_time_ms t,
         ev_legs =
           [\<lparr>lg_asset = base, lg_amount = tr_qty t, lg_is_credit = tr_is_buyer t\<rparr>,
            \<lparr>lg_asset = quote, lg_amount = quote_amount, lg_is_credit = (\<not> tr_is_buyer t)\<rparr>],
         ev_fee = Some \<lparr>lg_asset = tr_commission_asset t, lg_amount = tr_commission t, lg_is_credit = False\<rparr>\<rparr>))))"

definition to_ledger_leg :: "asset_leg \<Rightarrow> ledger_leg" where
  "to_ledger_leg l = \<lparr>lg_asset = al_asset l, lg_amount = al_amount l, lg_is_credit = al_is_credit l\<rparr>"

definition flow_to_ledger_event :: "normalized_flow \<Rightarrow> ledger_event" where
  "flow_to_ledger_event f =
     \<lparr>ev_source_namespace = family_name (nf_source_namespace f), ev_source_id = nf_source_id f,
      ev_economic_time_ms = nf_economic_time_ms f, ev_observed_time_ms = nf_economic_time_ms f,
      ev_legs = map to_ledger_leg (nf_legs f), ev_fee = map_option to_ledger_leg (nf_fee f)\<rparr>"

type_synonym delta_map = "string \<Rightarrow> timed_delta list option"

definition leg_delta :: "dec_env \<Rightarrow> nat \<Rightarrow> ledger_leg \<Rightarrow> history_error + string \<times> timed_delta" where
  "leg_delta E t leg =
     and_then (parse_decimal E (lg_amount leg)) (\<lambda>amount.
       Inr (lg_asset leg, \<lparr>td_time_ms = t, td_delta = (if lg_is_credit leg then amount else - amount)\<rparr>))"

definition push_delta :: "delta_map \<Rightarrow> string \<times> timed_delta \<Rightarrow> delta_map" where
  "push_delta m d = m(fst d \<mapsto> (case m (fst d) of None \<Rightarrow> [] | Some ds \<Rightarrow> ds) @ [snd d])"

definition per_asset_deltas :: "dec_env \<Rightarrow> ledger_event list \<Rightarrow> history_error + delta_map" where
  "per_asset_deltas E events =
     and_then (collect_res (\<lambda>(t, leg). leg_delta E t leg)
        (concat (map (\<lambda>e. map (\<lambda>leg. (ev_economic_time_ms e, leg)) (all_legs e)) events))) (\<lambda>ds.
       Inr (foldl push_delta Map.empty ds))"

fun trade_events :: "dec_env \<Rightarrow> symbol_assets \<Rightarrow> trade list \<Rightarrow> (history_error + ledger_event list) option" where
  "trade_events E sa [] = Some (Inr [])"
| "trade_events E sa (t # ts) =
     and_thenp (Some (ok_or (UnknownSymbol (tr_id t) (tr_symbol t)) (sa (tr_symbol t)))) (\<lambda>(base, quote).
     and_thenp (trade_to_ledger_event E t base quote) (\<lambda>e.
     and_thenp (trade_events E sa ts) (\<lambda>es. Some (Inr (e # es)))))"

definition collect_ledger_events ::
    "dec_env \<Rightarrow> trade list \<Rightarrow> normalized_flow list \<Rightarrow> symbol_assets \<Rightarrow> (history_error + ledger_event list) option" where
  "collect_ledger_events E trades flows sa =
     and_thenp (trade_events E sa trades) (\<lambda>es.
       Some (Inr (sort_key ev_economic_time_ms (es @ map flow_to_ledger_event flows))))"

section \<open>Quantities at an instant\<close>

type_synonym balances = "(string, decimal \<times> decimal) btree"
type_synonym quantities = "(string, decimal) btree"

fun quantities_from ::
    "dec_env \<Rightarrow> nat \<Rightarrow> nat \<Rightarrow> delta_map \<Rightarrow> quantities \<Rightarrow> balances \<Rightarrow> (history_error + quantities) option" where
  "quantities_from E cut_ms now_ms deltas qs [] = Some (Inr qs)"
| "quantities_from E cut_ms now_ms deltas qs ((asset, (free, locked)) # rest) =
     (let snapshot = \<lparr>bs_free = free, bs_locked = locked, bs_observed_at_ms = now_ms\<rparr>;
          events = (case deltas asset of None \<Rightarrow> [] | Some ds \<Rightarrow> ds)
      in and_thenp (map_option (map_err (\<lambda>source. HValuation (AmbiguousAsset asset source)))
             (reconstruct_quantity (de_arith E) snapshot events cut_ms)) (\<lambda>quantity.
           quantities_from E cut_ms now_ms deltas (bt_insert asset quantity qs) rest))"

definition quantities_at ::
    "dec_env \<Rightarrow> nat \<Rightarrow> nat \<Rightarrow> balances \<Rightarrow> delta_map \<Rightarrow> (history_error + quantities) option" where
  "quantities_at E cut_ms now_ms current_balances deltas =
     quantities_from E cut_ms now_ms deltas [] current_balances"

section \<open>Preparation\<close>

record prepared =
  pr_trades :: "trade list"
  pr_flows :: "normalized_flow list"
  pr_symbol_assets :: symbol_assets
  pr_deltas :: delta_map
  pr_current_balances :: balances

definition held_or_touched :: "dec_env \<Rightarrow> delta_map \<Rightarrow> string \<Rightarrow> decimal \<Rightarrow> decimal \<Rightarrow> bool option" where
  "held_or_touched E deltas asset free locked =
     map_option (\<lambda>s. s > 0 \<or> deltas asset \<noteq> None) (dadd (de_arith E) free locked)"

fun current_balances_from ::
    "dec_env \<Rightarrow> market \<Rightarrow> symbol_assets \<Rightarrow> delta_map \<Rightarrow> balances \<Rightarrow> account_balance list \<Rightarrow>
      (history_error + balances) option" where
  "current_balances_from E M sa deltas bs [] = Some (Inr bs)"
| "current_balances_from E M sa deltas bs (b # rest) =
     and_thenp (Some (parse_decimal E (ab_free b))) (\<lambda>free.
     and_thenp (Some (parse_decimal E (ab_locked b))) (\<lambda>locked.
     Option.bind (held_or_touched E deltas (ab_asset b) free locked) (\<lambda>held.
       let in_scope = (ab_asset b = mkt_quote_currency M \<or> sa (mkt_market_symbol M (ab_asset b)) \<noteq> None) in
       current_balances_from E M sa deltas
         (if held \<and> in_scope then bt_insert (ab_asset b) (free, locked) bs else bs) rest)))"

definition prepare ::
    "dec_env \<Rightarrow> trade list \<Rightarrow> normalized_flow list \<Rightarrow> market \<Rightarrow> nat \<Rightarrow> (history_error + prepared) option" where
  "prepare E all_trades all_flows M since_ms =
     (let trades = filter (\<lambda>t. tr_time_ms t \<ge> since_ms) all_trades;
          flows = filter (\<lambda>f. nf_economic_time_ms f \<ge> since_ms) all_flows;
          quote = mkt_quote_currency M
      in and_thenp (Some (map_err HMarket (mkt_symbol_assets_for M (set (map tr_symbol trades))))) (\<lambda>sa.
         and_thenp (collect_ledger_events E trades flows sa) (\<lambda>ledger_events.
         and_thenp (Some (per_asset_deltas E ledger_events)) (\<lambda>deltas.
         and_thenp (Some (map_err HMarket (mkt_account_balances M))) (\<lambda>balances.
         Option.bind (try_filter (\<lambda>b. held_or_touched E deltas (ab_asset b) (dec_or_zero E (ab_free b)) (dec_or_zero E (ab_locked b)))
            (filter (\<lambda>b. ab_asset b \<noteq> quote) balances)) (\<lambda>held.
         let wanted = set (filter (\<lambda>m. sa m = None) (map (\<lambda>b. mkt_market_symbol M (ab_asset b)) held)) in
         and_thenp (Some (map_err HMarket (mkt_symbol_assets_for M wanted))) (\<lambda>more.
         and_thenp (current_balances_from E M (sa ++ more) deltas [] balances) (\<lambda>current_balances.
           Some (Inr \<lparr>pr_trades = trades, pr_flows = flows, pr_symbol_assets = sa ++ more, pr_deltas = deltas,
             pr_current_balances = current_balances\<rparr>)))))))))"
section \<open>Checkpoints\<close>

text \<open>
  The loop \<open>while t < now_ms \<dots> t += step\<close>, in wrapping arithmetic: it is \<open>None\<close> where it does not end.
  The chart of the same module walks its grid with the same loop.
\<close>

partial_function (option) instants_from :: "nat \<Rightarrow> nat \<Rightarrow> nat \<Rightarrow> nat list option" where
  "instants_from step now_ms t =
     (if t < now_ms
      then Option.bind (instants_from step now_ms (wrap_u64 (t + step))) (\<lambda>ts. Some (t # ts))
      else Some [])"

definition checkpoints :: "nat \<Rightarrow> nat \<Rightarrow> nat list option" where
  "checkpoints since_ms now_ms =
     Option.bind (instants_from DAY_MS now_ms (wrap_u64 ((since_ms div DAY_MS + 1) * DAY_MS))) (\<lambda>ts.
       let cs = since_ms # ts in
       Some (if last cs \<noteq> now_ms \<and> now_ms > since_ms then cs @ [now_ms] else cs))"

section \<open>External flows\<close>

definition is_external :: "normalized_flow \<Rightarrow> bool" where
  "is_external f \<longleftrightarrow> nf_source_namespace f = Deposit \<or> nf_source_namespace f = Withdrawal"

definition flow_legs :: "normalized_flow \<Rightarrow> asset_leg list" where
  "flow_legs f = nf_legs f @ (case nf_fee f of None \<Rightarrow> [] | Some l \<Rightarrow> [l])"

definition flow_requests :: "normalized_flow list \<Rightarrow> (string \<times> nat) list" where
  "flow_requests flows =
     concat (map (\<lambda>f. map (\<lambda>leg. (al_asset leg, nf_economic_time_ms f)) (flow_legs f)) flows)"

type_synonym prices = "(publish_error + decimal) list"

text \<open>\<open>iter.next().expect(\<dots>)?\<close>: the next price, a panic when there is none, its error.\<close>

definition next_price :: "prices \<Rightarrow> (history_error + decimal \<times> prices) option" where
  "next_price ps = (case ps of [] \<Rightarrow> None | r # rs \<Rightarrow> Some (and_then (map_err HPublish r) (\<lambda>p. Inr (p, rs))))"

definition leg_pnl_events :: "string \<Rightarrow> nat \<Rightarrow> nat \<Rightarrow> nat \<Rightarrow> asset_leg \<Rightarrow> decimal \<Rightarrow> decimal \<Rightarrow> decimal \<Rightarrow> (nat \<times> pnl_event) list" where
  "leg_pnl_events quote t principal_legs index leg amount price v =
     (if al_asset leg \<noteq> quote
      then [(t, if al_is_credit leg then Acquire (al_asset leg) amount price else Withdraw (al_asset leg) amount)]
      else []) @
     (if index \<ge> principal_legs then [(t, Fee v)] else [])"

text \<open>The loop over the legs of a flow: its index, the net amount and the events so far.\<close>

fun leg_loop ::
    "dec_env \<Rightarrow> string \<Rightarrow> nat \<Rightarrow> nat \<Rightarrow> nat \<Rightarrow> decimal \<Rightarrow> (nat \<times> pnl_event) list \<Rightarrow> prices \<Rightarrow> asset_leg list \<Rightarrow>
      (history_error + decimal \<times> (nat \<times> pnl_event) list \<times> prices) option" where
  "leg_loop E quote t principal_legs index net pnl ps [] = Some (Inr (net, pnl, ps))"
| "leg_loop E quote t principal_legs index net pnl ps (leg # legs) =
     and_thenp (Some (parse_decimal E (al_amount leg))) (\<lambda>amount.
     and_thenp (next_price ps) (\<lambda>(price, ps').
     Option.bind (dmul (de_arith E) amount price) (\<lambda>v.
     Option.bind (dadd (de_arith E) net (if al_is_credit leg then v else - v)) (\<lambda>net'.
       leg_loop E quote t principal_legs (index + 1) net'
         (pnl @ leg_pnl_events quote t principal_legs index leg amount price v) ps' legs))))"

fun flow_loop ::
    "dec_env \<Rightarrow> string \<Rightarrow> (nat \<times> decimal) list \<Rightarrow> (nat \<times> pnl_event) list \<Rightarrow> prices \<Rightarrow> normalized_flow list \<Rightarrow>
      (history_error + (nat \<times> decimal) list \<times> (nat \<times> pnl_event) list) option" where
  "flow_loop E quote evs pnl ps [] = Some (Inr (evs, pnl))"
| "flow_loop E quote evs pnl ps (f # fs) =
     and_thenp (leg_loop E quote (nf_economic_time_ms f) (length (nf_legs f)) 0 0 pnl ps (flow_legs f)) (\<lambda>(net, pnl', ps').
       flow_loop E quote (evs @ [(nf_economic_time_ms f, net)]) pnl' ps' fs)"

section \<open>Valuations\<close>

text \<open>The quantities at every checkpoint, the first error winning.\<close>

fun quantities_all ::
    "dec_env \<Rightarrow> nat \<Rightarrow> balances \<Rightarrow> delta_map \<Rightarrow> nat list \<Rightarrow> (history_error + quantities list) option" where
  "quantities_all E now_ms bs deltas [] = Some (Inr [])"
| "quantities_all E now_ms bs deltas (cut_ms # cuts) =
     and_thenp (quantities_at E cut_ms now_ms bs deltas) (\<lambda>qs.
     and_thenp (quantities_all E now_ms bs deltas cuts) (\<lambda>qss. Some (Inr (qs # qss))))"

definition nav_requests :: "(nat \<times> quantities) list \<Rightarrow> (string \<times> nat) list" where
  "nav_requests cqs =
     concat (map (\<lambda>(cut_ms, qs). map (\<lambda>(asset, _). (asset, cut_ms)) (filter (\<lambda>(asset, qty). qty \<noteq> 0) qs)) cqs)"

text \<open>What the walk over the checkpoints carries: the prices left, the opening positions, the marks.\<close>

record walk =
  wk_prices :: prices
  wk_openings :: "(string \<times> decimal \<times> decimal) list"
  wk_marks :: "string \<Rightarrow> decimal option"

fun nav_loop ::
    "dec_env \<Rightarrow> string \<Rightarrow> bool \<Rightarrow> bool \<Rightarrow> decimal \<Rightarrow> walk \<Rightarrow> quantities \<Rightarrow> (history_error + decimal \<times> walk) option" where
  "nav_loop E quote is_first is_last nav w [] = Some (Inr (nav, w))"
| "nav_loop E quote is_first is_last nav w ((asset, qty) # rest) =
     (if qty = 0 then nav_loop E quote is_first is_last nav w rest
      else
        and_thenp (next_price (wk_prices w)) (\<lambda>(price, ps).
        Option.bind (dmul (de_arith E) qty price) (\<lambda>v.
        Option.bind (dadd (de_arith E) nav v) (\<lambda>nav'.
          nav_loop E quote is_first is_last nav'
            (w\<lparr>wk_prices := ps,
               wk_openings := wk_openings w @ (if is_first \<and> asset \<noteq> quote then [(asset, qty, price)] else []),
               wk_marks := (if is_last then (wk_marks w)(asset \<mapsto> price) else wk_marks w)\<rparr>) rest))))"

fun checkpoint_loop ::
    "dec_env \<Rightarrow> string \<Rightarrow> nat \<Rightarrow> nat \<Rightarrow> daily_nav list \<Rightarrow> walk \<Rightarrow> (nat \<times> quantities) list \<Rightarrow>
      (history_error + daily_nav list \<times> walk) option" where
  "checkpoint_loop E quote last_index index navs w [] = Some (Inr (navs, w))"
| "checkpoint_loop E quote last_index index navs w ((cut_ms, qs) # rest) =
     and_thenp (nav_loop E quote (index = 0) (index = last_index) 0 w qs) (\<lambda>(nav, w').
       checkpoint_loop E quote last_index (index + 1)
         (navs @ [\<lparr>dn_day_start_ms = cut_ms, dn_nav = nav\<rparr>]) w' rest)"

section \<open>The timeline and the index\<close>

fun is_valuation :: "timeline_event \<Rightarrow> bool" where
  "is_valuation (Valuation _ _) = True"
| "is_valuation (Flow _ _) = False"

text \<open>
  The stable sort by instant with a flow before the valuation it is simultaneous with, applied to the
  valuations in order followed by the flows.
\<close>

definition ordered_events :: "(nat \<times> decimal) list \<Rightarrow> (nat \<times> decimal) list \<Rightarrow> timeline_event list" where
  "ordered_events navs flows =
     map snd (sort_key (\<lambda>(t, e). (t, is_valuation e))
       (map (\<lambda>(t, nav). (t, Valuation t nav)) navs @ map (\<lambda>(t, amount). (t, Flow t amount)) flows))"

fun index_from :: "arith \<Rightarrow> decimal \<Rightarrow> (nat \<times> decimal) list \<Rightarrow> index_point list option" where
  "index_from A i [] = Some []"
| "index_from A i ((t, r) # rest) =
     Option.bind (dadd A 1 r) (\<lambda>factor. Option.bind (dmul A i factor) (\<lambda>i'.
       map_option (\<lambda>ps. \<lparr>pt_time_ms = t, pt_index = i'\<rparr> # ps) (index_from A i' rest)))"

definition twr_index :: "arith \<Rightarrow> nat list \<Rightarrow> decimal list \<Rightarrow> index_point list option" where
  "twr_index A ts0 sub_returns =
     (case ts0 of [] \<Rightarrow> Some []
      | t # ts \<Rightarrow> map_option (\<lambda>ps. \<lparr>pt_time_ms = t, pt_index = 1\<rparr> # ps) (index_from A 1 (zip ts sub_returns)))"

section \<open>Trades as profit events\<close>

fun trade_requests :: "symbol_assets \<Rightarrow> trade list \<Rightarrow> history_error + (string \<times> nat) list" where
  "trade_requests sa [] = Inr []"
| "trade_requests sa (t # ts) =
     and_then (ok_or (UnknownSymbol (tr_id t) (tr_symbol t)) (sa (tr_symbol t))) (\<lambda>(_, quote_asset).
     and_then (trade_requests sa ts) (\<lambda>rs.
       Inr ((quote_asset, tr_time_ms t) # (tr_commission_asset t, tr_time_ms t) # rs)))"

fun trade_loop ::
    "dec_env \<Rightarrow> string \<Rightarrow> symbol_assets \<Rightarrow> (nat \<times> pnl_event) list \<Rightarrow> prices \<Rightarrow> trade list \<Rightarrow>
      (history_error + (nat \<times> pnl_event) list) option" where
  "trade_loop E quote sa pnl ps [] = Some (Inr pnl)"
| "trade_loop E quote sa pnl ps (t # ts) =
     Option.bind (sa (tr_symbol t)) (\<lambda>(base, quote_asset).
     and_thenp (next_price ps) (\<lambda>(quote_usdt, ps').
     and_thenp (next_price ps') (\<lambda>(fee_asset_usdt, ps'').
     and_thenp (Some (parse_decimal E (tr_price t))) (\<lambda>price.
     and_thenp (Some (parse_decimal E (tr_qty t))) (\<lambda>quantity.
     Option.bind (dmul (de_arith E) price quote_usdt) (\<lambda>base_usdt.
     Option.bind (dmul (de_arith E) quantity price) (\<lambda>quote_quantity.
     let base_event = (if tr_is_buyer t then Acquire base quantity base_usdt else Dispose base quantity base_usdt);
         quote_event = (if tr_is_buyer t then Dispose quote_asset quote_quantity quote_usdt
           else Acquire quote_asset quote_quantity quote_usdt)
     in and_thenp (Some (parse_decimal E (tr_commission t))) (\<lambda>commission.
        Option.bind (dmul (de_arith E) commission fee_asset_usdt) (\<lambda>fee.
          trade_loop E quote sa
            (pnl @ (if base \<noteq> quote then [(tr_time_ms t, base_event)] else []) @
               (if quote_asset \<noteq> quote then [(tr_time_ms t, quote_event)] else []) @ [(tr_time_ms t, Fee fee)])
            ps'' ts)))))))))"

section \<open>The history\<close>

definition compute_history ::
    "dec_env \<Rightarrow> trade list \<Rightarrow> normalized_flow list \<Rightarrow> market \<Rightarrow> nat \<Rightarrow> nat \<Rightarrow> (history_error + history_result) option" where
  "compute_history E all_trades all_flows M since_ms now_ms =
     and_thenp (prepare E all_trades all_flows M since_ms) (\<lambda>p.
     let quote = mkt_quote_currency M in
     Option.bind (checkpoints since_ms now_ms) (\<lambda>cuts.
     let external_flows = filter is_external (pr_flows p) in
     and_thenp (flow_loop E quote [] [] (resolve_prices_parallel M (flow_requests external_flows)) external_flows) (\<lambda>(flow_events, flow_pnl).
     and_thenp (quantities_all E now_ms (pr_current_balances p) (pr_deltas p) cuts) (\<lambda>qss.
     and_thenp (checkpoint_loop E quote (length cuts - 1) 0 []
         \<lparr>wk_prices = resolve_prices_parallel M (nav_requests (zip cuts qss)), wk_openings = [], wk_marks = Map.empty\<rparr>
         (zip cuts qss)) (\<lambda>(navs, w).
     and_thenp (Some (map_err HReturn (compute_twr (de_arith E)
         (ordered_events (map (\<lambda>d. (dn_day_start_ms d, dn_nav d)) navs) flow_events)))) (\<lambda>twr.
     Option.bind (twr_index (de_arith E) (map dn_day_start_ms navs) (tw_sub_returns twr)) (\<lambda>index.
     and_thenp (compute_overall_win_rate E (pr_trades p)) (\<lambda>wr.
     and_thenp (Some (trade_requests (pr_symbol_assets p) (pr_trades p))) (\<lambda>requests.
     and_thenp (trade_loop E quote (pr_symbol_assets p) flow_pnl (resolve_prices_parallel M requests) (pr_trades p)) (\<lambda>pnl_events.
     let current = map_of (filter (\<lambda>(asset, _). asset \<noteq> quote) (if qss = [] then [] else last qss)) in
     Option.bind (compute_pnl (de_arith E) (wk_openings w) (map snd (sort_key fst pnl_events)) current (wk_marks w)) (\<lambda>pnl.
       Some (Inr \<lparr>hr_daily_nav = navs, hr_daily_returns = tw_sub_returns twr, hr_twr_index = index,
         hr_earliest_reliable_checkpoint_ms = Some since_ms, hr_win_rate = wr, hr_pnl = pnl\<rparr>))))))))))))"

record performance_summary =
  sm_daily_nav :: "daily_nav list"
  sm_daily_returns :: "decimal list"
  sm_sharpe :: "stats_error + decimal"
  sm_sortino :: "stats_error + decimal"
  sm_max_drawdown :: "drawdown_episode option"
  sm_cagr :: "cagr_error + decimal"
  sm_win_rate :: "win_rate_result option"
  sm_earliest_reliable_checkpoint_ms :: "nat option"
  sm_pnl :: pnl_summary

text \<open>\<open>sq\<close> and \<open>pw\<close> are the square root and the power of the decimal crate, as for the metrics.\<close>

definition summarize_performance ::
    "arith \<Rightarrow> (decimal \<Rightarrow> decimal option) \<Rightarrow> (decimal \<Rightarrow> decimal \<Rightarrow> decimal option) \<Rightarrow> history_result \<Rightarrow>
      performance_summary option" where
  "summarize_performance A sq pw h =
     Option.bind (sharpe A sq (hr_daily_returns h) 0) (\<lambda>sh.
     Option.bind (sortino A sq (hr_daily_returns h) 0) (\<lambda>so.
     Option.bind (max_drawdown A (hr_twr_index h)) (\<lambda>dd.
     let insufficient = Inl (CagrInsufficientSample 0 365);
         growth = (case hr_twr_index h of [] \<Rightarrow> insufficient
           | first # _ \<Rightarrow>
               let final = last (hr_twr_index h) in
               if pt_time_ms final > pt_time_ms first
               then cagr A pw (pt_index first) (pt_index final)
                      (wrap_u 32 ((pt_time_ms final - pt_time_ms first) div DAY_MS))
               else insufficient)
     in Some \<lparr>sm_daily_nav = hr_daily_nav h, sm_daily_returns = hr_daily_returns h, sm_sharpe = sh, sm_sortino = so,
          sm_max_drawdown = dd, sm_cagr = growth, sm_win_rate = hr_win_rate h,
          sm_earliest_reliable_checkpoint_ms = hr_earliest_reliable_checkpoint_ms h, sm_pnl = hr_pnl h\<rparr>)))"

end
