(* ===== verification/Track.thy ===== *)
theory Track
  imports History
begin

text \<open>
  What the history of a connection says: its checkpoints, the holdings and the flows behind each return,
  and the index. The statements are about computations without rounding that return a result.
\<close>

section \<open>Checkpoints\<close>

lemma instants_from_steps:
  assumes "0 < step" and "now_ms + step < 2 ^ 64"
  shows "\<exists>ts. instants_from step now_ms t = Some ts \<and> sorted_wrt (<) ts \<and>
    (\<forall>x. x \<in> set ts \<longleftrightarrow> t \<le> x \<and> x < now_ms \<and> step dvd (x - t))"
proof (induction "now_ms - t" arbitrary: t rule: less_induct)
  case less
  show ?case
  proof (cases "t < now_ms")
    case True
    then have w: "wrap_u64 (t + step) = t + step" using assms(2) by simp
    have "now_ms - (t + step) < now_ms - t" using True assms(1) by simp
    then obtain ts where ts: "instants_from step now_ms (t + step) = Some ts" "sorted_wrt (<) ts"
        "\<And>x. x \<in> set ts \<longleftrightarrow> t + step \<le> x \<and> x < now_ms \<and> step dvd (x - (t + step))"
      using less by metis
    have "x \<in> set (t # ts) \<longleftrightarrow> t \<le> x \<and> x < now_ms \<and> step dvd (x - t)" for x
    proof -
      have "t \<le> x \<and> step dvd (x - t) \<longleftrightarrow> x = t \<or> t + step \<le> x \<and> step dvd (x - (t + step))"
      proof (cases "x < t + step")
        case True
        then have "x - t < step \<or> x < t" by arith
        then show ?thesis using True by (auto dest: dvd_imp_le)
      next
        case False
        then have "x - t = x - (t + step) + step" by simp
        then have "step dvd (x - t) \<longleftrightarrow> step dvd (x - (t + step))" by simp
        then show ?thesis using False assms(1) by auto
      qed
      then show ?thesis using ts(3) [of x] True by auto
    qed
    moreover have "sorted_wrt (<) (t # ts)" using ts assms(1) by auto
    moreover have "instants_from step now_ms t = Some (t # ts)"
      using True ts(1) w by (subst instants_from.simps) simp
    ultimately show ?thesis by blast
  next
    case False
    then show ?thesis by (subst instants_from.simps) auto
  qed
qed

text \<open>The next boundary after an instant, and the boundaries between two instants.\<close>

lemma boundaries_after:
  assumes "0 < step"
  shows "(start div step + 1) * step \<le> x \<and> step dvd (x - (start div step + 1) * step) \<longleftrightarrow>
    start < x \<and> step dvd (x :: nat)"
proof (cases "(start div step + 1) * step \<le> x")
  case True
  have "start < (start div step + 1) * step"
    using dividend_less_times_div [OF assms, of start] by (simp add: algebra_simps)
  moreover have "step dvd (x - (start div step + 1) * step) \<longleftrightarrow> step dvd x"
    using True by (metis dvd_triv_right dvd_diffD dvd_diff_nat)
  ultimately show ?thesis using True by auto
next
  case False
  have "\<not> (start < x \<and> step dvd x)"
  proof
    assume a: "start < x \<and> step dvd x"
    then obtain k where k: "x = k * step" by (metis dvd_div_mult_self)
    have "k * step < (start div step + 1) * step" using False k by (simp only: not_le)
    then have "k < start div step + 1" using assms by (simp only: mult_less_cancel2)
    then have "x \<le> start div step * step" using k by simp
    then show False using a by (meson div_times_less_eq_dividend leD order_trans)
  qed
  then show ?thesis using False by simp
qed

lemma instants_between:
  assumes "0 < step" and "now_ms + step < 2 ^ 64" and "start \<le> now_ms"
  obtains ts where "instants_from step now_ms (wrap_u64 ((start div step + 1) * step)) = Some ts"
    and "sorted_wrt (<) ts" and "\<And>x. x \<in> set ts \<longleftrightarrow> start < x \<and> x < now_ms \<and> step dvd x"
proof -
  have "(start div step + 1) * step \<le> start + step"
    using div_times_less_eq_dividend [of start step] by (simp add: add_mult_distrib)
  then have w: "wrap_u64 ((start div step + 1) * step) = (start div step + 1) * step"
    using assms by (intro wrap_u_id) linarith
  obtain ts where ts: "instants_from step now_ms ((start div step + 1) * step) = Some ts" "sorted_wrt (<) ts"
      "\<And>x. x \<in> set ts \<longleftrightarrow> (start div step + 1) * step \<le> x \<and> x < now_ms \<and> step dvd (x - (start div step + 1) * step)"
    using instants_from_steps [OF assms(1,2)] by metis
  show ?thesis using ts boundaries_after [OF assms(1)] by (intro that [of ts]) (auto simp only: w)
qed

lemma checkpoints_sorted:
  assumes "since_ms \<le> now_ms" and "now_ms + DAY_MS < 2 ^ 64"
  shows "\<exists>cs. checkpoints since_ms now_ms = Some cs \<and> sorted_wrt (<) cs \<and> hd cs = since_ms \<and> last cs = now_ms \<and>
    (\<forall>t. t \<in> set cs \<longleftrightarrow> t = since_ms \<or> t = now_ms \<or> since_ms < t \<and> t < now_ms \<and> DAY_MS dvd t)"
proof -
  obtain ts where ts: "instants_from DAY_MS now_ms (wrap_u64 ((since_ms div DAY_MS + 1) * DAY_MS)) = Some ts"
      "sorted_wrt (<) ts" "\<And>x. x \<in> set ts \<longleftrightarrow> since_ms < x \<and> x < now_ms \<and> DAY_MS dvd x"
    using instants_between [OF _ assms(2,1)] by (metis DAY_MS_def zero_less_numeral)
  show ?thesis
  proof (cases "since_ms = now_ms")
    case True
    then have "x \<notin> set ts" for x using ts(3) [of x] by simp
    then have "ts = []" by (cases ts) auto
    then have "checkpoints since_ms now_ms = Some [since_ms]" using True ts(1) by (simp add: checkpoints_def)
    then show ?thesis using True by auto
  next
    case False
    have "last (since_ms # ts) \<in> set (since_ms # ts)" by (rule last_in_set) simp
    then have "last (since_ms # ts) < now_ms" using ts(3) [of "last (since_ms # ts)"] False assms(1) by auto
    then have "checkpoints since_ms now_ms = Some (since_ms # ts @ [now_ms])"
      using False assms(1) ts(1) by (simp add: checkpoints_def Let_def)
    moreover have "sorted_wrt (<) (since_ms # ts @ [now_ms])"
      using ts(2,3) False assms(1) by (simp add: sorted_wrt_append)
    moreover have "t \<in> set (since_ms # ts @ [now_ms]) \<longleftrightarrow>
        t = since_ms \<or> t = now_ms \<or> since_ms < t \<and> t < now_ms \<and> DAY_MS dvd t" for t
      using ts(3) [of t] by (simp only: set_simps set_append) blast
    ultimately show ?thesis
      by (intro exI [of _ "since_ms # ts @ [now_ms]"]) (simp only: list.sel last.simps last_appendR last_ConsL, simp)
  qed
qed

text \<open>
  The checkpoints of a history are the instant of the connection, every UTC midnight after it, and
  now: the loop that lists them ends, in order and without repetition, for every connection instant that
  is not in the future and any clock at least a day below the largest 64-bit instant.
\<close>

theorem checkpoints_are_days:
  assumes "since_ms \<le> now_ms" and "now_ms + DAY_MS < 2 ^ 64"
  shows "\<exists>cs. checkpoints since_ms now_ms = Some cs \<and> sorted_wrt (<) cs \<and> hd cs = since_ms \<and> last cs = now_ms \<and>
    (\<forall>t. t \<in> set cs \<longleftrightarrow> t = since_ms \<or> t = now_ms \<or> since_ms < t \<and> t < now_ms \<and> DAY_MS dvd t)"
  by (rule checkpoints_sorted [OF assms])

theorem checkpoints_are_days_witness:
  "\<exists>cs. checkpoints 100 172800001 = Some cs \<and> sorted_wrt (<) cs \<and> hd cs = 100 \<and> last cs = 172800001 \<and>
     86400000 \<in> set cs \<and> 43200000 \<notin> set cs"
proof -
  have "(100 :: nat) \<le> 172800001" "172800001 + DAY_MS < 2 ^ 64" by (simp_all add: DAY_MS_def)
  from checkpoints_are_days [OF this] obtain cs where cs: "checkpoints 100 172800001 = Some cs"
      "sorted_wrt (<) cs" "hd cs = 100" "last cs = 172800001"
      "\<And>t. t \<in> set cs \<longleftrightarrow> t = 100 \<or> t = 172800001 \<or> 100 < t \<and> t < 172800001 \<and> DAY_MS dvd t"
    by blast
  show ?thesis using cs(1-4) cs(5) [of 86400000] cs(5) [of 43200000] by (auto simp: DAY_MS_def)
qed

section \<open>Prices meet their holdings and their legs\<close>

definition resolved :: "market \<Rightarrow> (string \<times> nat) list \<Rightarrow> prices" where
  "resolved M reqs = map (\<lambda>(a, t). resolve_historical_price M a t) reqs"

lemma resolved_simps [simp]:
  "resolved M [] = []"
  "resolved M ((a, t) # reqs) = resolve_historical_price M a t # resolved M reqs"
  "resolved M (r1 @ r2) = resolved M r1 @ resolved M r2"
  by (simp_all add: resolved_def)

lemma next_price_resolved:
  "next_price (resolve_historical_price M a t # ps) = Some (Inr (p, ps')) \<longleftrightarrow>
    resolve_historical_price M a t = Inr p \<and> p = price_of M a t \<and> ps' = ps"
  by (cases "resolve_historical_price M a t") (auto simp: next_price_def price_of_def)

text \<open>The value of an external flow at the prices of its instant, and of a holding at a checkpoint.\<close>

definition leg_worth :: "dec_env \<Rightarrow> market \<Rightarrow> nat \<Rightarrow> asset_leg \<Rightarrow> decimal" where
  "leg_worth E M t leg =
     (let v = the (de_parse E (al_amount leg)) * price_of M (al_asset leg) t in if al_is_credit leg then v else - v)"

definition flow_worth :: "dec_env \<Rightarrow> market \<Rightarrow> normalized_flow \<Rightarrow> decimal" where
  "flow_worth E M f = (\<Sum>leg\<leftarrow>flow_legs f. leg_worth E M (nf_economic_time_ms f) leg)"

definition holdings_worth :: "market \<Rightarrow> nat \<Rightarrow> quantities \<Rightarrow> decimal" where
  "holdings_worth M t qs = (\<Sum>(a, q)\<leftarrow>qs. q * price_of M a t)"

lemma leg_loop_exact:
  assumes "leg_loop E quote t n i net pnl (resolved M (map (\<lambda>leg. (al_asset leg, t)) legs) @ ps) legs =
      Some (Inr (net', pnl', ps'))"
    and "de_arith E = exact_arith"
  shows "ps' = ps \<and> net' = net + (\<Sum>leg\<leftarrow>legs. leg_worth E M t leg)"
  using assms(1)
proof (induction legs arbitrary: i net pnl)
  case (Cons leg legs)
  then obtain amount pnl'' where "de_parse E (al_amount leg) = Some amount"
    and r: "leg_loop E quote t n (i + 1) (net + (if al_is_credit leg then amount * price_of M (al_asset leg) t
        else - (amount * price_of M (al_asset leg) t))) pnl'' (resolved M (map (\<lambda>leg. (al_asset leg, t)) legs) @ ps) legs =
        Some (Inr (net', pnl', ps'))"
    by (auto simp: and_thenp_Inr next_price_resolved parse_decimal_def assms(2) simp del: if_split)
  then show ?case using Cons.IH [OF r] by (auto simp: leg_worth_def)
qed simp

lemma flow_loop_exact:
  assumes "flow_loop E quote evs pnl (resolved M (flow_requests fs)) fs = Some (Inr (evs', pnl'))"
    and "de_arith E = exact_arith"
  shows "evs' = evs @ map (\<lambda>f. (nf_economic_time_ms f, flow_worth E M f)) fs"
  using assms(1)
proof (induction fs arbitrary: evs pnl)
  case (Cons f fs)
  then obtain net pnl'' ps where l: "leg_loop E quote (nf_economic_time_ms f) (length (nf_legs f)) 0 0 pnl
        (resolved M (map (\<lambda>leg. (al_asset leg, nf_economic_time_ms f)) (flow_legs f)) @ resolved M (flow_requests fs))
        (flow_legs f) = Some (Inr (net, pnl'', ps))"
    and r: "flow_loop E quote (evs @ [(nf_economic_time_ms f, net)]) pnl'' ps fs = Some (Inr (evs', pnl'))"
    by (auto simp: and_thenp_Inr flow_requests_def)
  have p: "ps = resolved M (flow_requests fs)" and n: "net = flow_worth E M f"
    using leg_loop_exact [OF l assms(2)] by (simp_all add: flow_worth_def)
  show ?case using Cons.IH [OF r [unfolded p]] by (simp add: n)
qed simp

lemma nav_loop_exact:
  assumes "nav_loop E quote is_first is_last nav w qs = Some (Inr (nav', w'))"
    and "wk_prices w = resolved M (nav_requests [(t, qs)]) @ ps" and "de_arith E = exact_arith"
  shows "wk_prices w' = ps \<and> nav' = nav + holdings_worth M t qs"
  using assms(1,2)
proof (induction qs arbitrary: nav w)
  case (Cons aq qs)
  obtain a q where aq: "aq = (a, q)" by (cases aq)
  show ?case
  proof (cases "q = 0")
    case True
    then show ?thesis using Cons by (simp add: aq nav_requests_def holdings_worth_def)
  next
    case False
    define w'' where "w'' = w\<lparr>wk_prices := resolved M (nav_requests [(t, qs)]) @ ps,
      wk_openings := wk_openings w @ (if is_first \<and> a \<noteq> quote then [(a, q, price_of M a t)] else []),
      wk_marks := (if is_last then (wk_marks w)(a \<mapsto> price_of M a t) else wk_marks w)\<rparr>"
    have w: "wk_prices w = resolve_historical_price M a t # (resolved M (nav_requests [(t, qs)]) @ ps)"
      using Cons.prems(2) False by (simp add: aq nav_requests_def)
    have "nav_loop E quote is_first is_last (nav + q * price_of M a t) w'' qs = Some (Inr (nav', w'))"
      using Cons.prems(1) False
      by (auto simp: aq w and_thenp_Inr next_price_resolved assms(3) w''_def simp del: if_split)
    then have "wk_prices w' = ps \<and> nav' = nav + q * price_of M a t + holdings_worth M t qs"
      by (rule Cons.IH) (simp add: w''_def)
    then show ?thesis by (simp add: aq holdings_worth_def add.assoc)
  qed
qed (simp add: nav_requests_def holdings_worth_def)

lemma checkpoint_loop_exact:
  assumes "checkpoint_loop E quote n i navs w cqs = Some (Inr (navs', w'))"
    and "wk_prices w = resolved M (nav_requests cqs)" and "de_arith E = exact_arith"
  shows "navs' = navs @ map (\<lambda>(t, qs). \<lparr>dn_day_start_ms = t, dn_nav = holdings_worth M t qs\<rparr>) cqs"
  using assms(1,2)
proof (induction cqs arbitrary: i navs w)
  case (Cons cq cqs)
  obtain t qs where cq: "cq = (t, qs)" by (cases cq)
  obtain nav w'' where n: "nav_loop E quote (i = 0) (i = n) 0 w qs = Some (Inr (nav, w''))"
    and r: "checkpoint_loop E quote n (i + 1) (navs @ [\<lparr>dn_day_start_ms = t, dn_nav = nav\<rparr>]) w'' cqs = Some (Inr (navs', w'))"
    using Cons.prems(1) by (auto simp: cq and_thenp_Inr)
  have "wk_prices w = resolved M (nav_requests [(t, qs)]) @ resolved M (nav_requests cqs)"
    using Cons.prems(2) by (simp add: cq nav_requests_def)
  then have "wk_prices w'' = resolved M (nav_requests cqs) \<and> nav = 0 + holdings_worth M t qs"
    using nav_loop_exact [OF n _ assms(3)] by blast
  then show ?case using Cons.IH [OF r] by (simp add: cq)
qed simp

section \<open>The timeline\<close>

text \<open>
  What each return should compare: the NAV at a checkpoint plus the external capital that arrived after
  it and up to the next one, with the NAV there.
\<close>

definition capital_between :: "(nat \<times> decimal) list \<Rightarrow> nat \<Rightarrow> nat \<Rightarrow> decimal" where
  "capital_between flows a b = (\<Sum>(t, v)\<leftarrow>filter (\<lambda>(t, v). a < t \<and> t \<le> b) flows. v)"

fun periods :: "(nat \<times> decimal) list \<Rightarrow> nat \<times> decimal \<Rightarrow> (nat \<times> decimal) list \<Rightarrow> (decimal \<times> decimal) list" where
  "periods flows cur [] = []"
| "periods flows cur (next # rest) =
     (snd cur + capital_between flows (fst cur) (fst next), snd next) # periods flows next rest"

abbreviation timeline_key :: "nat \<times> timeline_event \<Rightarrow> nat \<times> bool" where
  "timeline_key \<equiv> \<lambda>(t, e). (t, is_valuation e)"

abbreviation flow_entry :: "nat \<times> decimal \<Rightarrow> nat \<times> timeline_event" where
  "flow_entry \<equiv> \<lambda>(t, amount). (t, Flow t amount)"

abbreviation nav_entry :: "nat \<times> decimal \<Rightarrow> nat \<times> timeline_event" where
  "nav_entry \<equiv> \<lambda>(t, nav). (t, Valuation t nav)"

lemma sorted_split:
  assumes "sorted (map k xs)" and "\<And>x y. x \<in> set xs \<Longrightarrow> y \<in> set xs \<Longrightarrow> P x \<Longrightarrow> k y \<le> k x \<Longrightarrow> P y"
  shows "xs = filter P xs @ filter (\<lambda>x. \<not> P x) xs"
  using assms
proof (induction xs)
  case (Cons x xs)
  show ?case
  proof (cases "P x")
    case True
    have "xs = filter P xs @ filter (\<lambda>x. \<not> P x) xs"
      by (rule Cons.IH) (use Cons.prems(1) in simp, meson Cons.prems(2) list.set_intros(2))
    then show ?thesis using True by simp
  next
    case False
    have "\<not> P y" if y: "y \<in> set xs" for y
    proof -
      have "k x \<le> k y" using Cons.prems(1) y by simp
      then show ?thesis using Cons.prems(2) [of y x] y False by (meson list.set_intros)
    qed
    then have "filter P xs = []" "filter (\<lambda>x. \<not> P x) xs = xs" by (simp_all add: filter_empty_conv filter_id_conv)
    then show ?thesis using False by simp
  qed
qed simp

lemma insort_key_last: "(\<And>y. y \<in> set ys \<Longrightarrow> k y < k x) \<Longrightarrow> insort_key k x ys = ys @ [x]"
proof (induction ys)
  case (Cons y ys)
  then have "\<not> k x \<le> k y" "insort_key k x ys = ys @ [x]" by (auto simp: not_le)
  then show ?case by simp
qed simp

text \<open>The sorted timeline begins with the flows up to the first checkpoint, then its valuation.\<close>

lemma timeline_step:
  assumes "sorted_wrt (<) (c # map fst vs)"
  shows "sort_key timeline_key (map nav_entry ((c, n) # vs) @ map flow_entry fs) =
    sort_key timeline_key (map flow_entry (filter (\<lambda>f. fst f \<le> c) fs)) @ [(c, Valuation c n)] @
    sort_key timeline_key (map nav_entry vs @ map flow_entry (filter (\<lambda>f. \<not> fst f \<le> c) fs))"
proof -
  let ?xs = "map nav_entry ((c, n) # vs) @ map flow_entry fs"
  let ?P = "\<lambda>x. timeline_key x \<le> (c, True)"
  have "sort_key timeline_key ?xs =
      filter ?P (sort_key timeline_key ?xs) @ filter (\<lambda>x. \<not> ?P x) (sort_key timeline_key ?xs)"
    by (rule sorted_split [OF sorted_sort_key]) (rule order_trans)
  also have "\<dots> = sort_key timeline_key (filter ?P ?xs) @ sort_key timeline_key (filter (\<lambda>x. \<not> ?P x) ?xs)"
    by (simp only: filter_sort)
  also have "filter ?P ?xs = (c, Valuation c n) # map flow_entry (filter (\<lambda>f. fst f \<le> c) fs)"
  proof -
    have "filter ?P (map nav_entry vs) = []" using assms by (auto simp: filter_empty_conv less_eq_prod_def)
    moreover have "filter ?P (map flow_entry fs) = map flow_entry (filter (\<lambda>f. fst f \<le> c) fs)"
      by (induction fs) (auto simp: less_eq_prod_def)
    ultimately show ?thesis by simp
  qed
  also have "filter (\<lambda>x. \<not> ?P x) ?xs = map nav_entry vs @ map flow_entry (filter (\<lambda>f. \<not> fst f \<le> c) fs)"
  proof -
    have "filter (\<lambda>x. \<not> ?P x) (map nav_entry vs) = map nav_entry vs"
      using assms by (auto simp: filter_id_conv less_eq_prod_def)
    moreover have "filter (\<lambda>x. \<not> ?P x) (map flow_entry fs) = map flow_entry (filter (\<lambda>f. \<not> fst f \<le> c) fs)"
      by (induction fs) (auto simp: less_eq_prod_def)
    ultimately show ?thesis by simp
  qed
  also have "sort_key timeline_key ((c, Valuation c n) # map flow_entry (filter (\<lambda>f. fst f \<le> c) fs)) =
      sort_key timeline_key (map flow_entry (filter (\<lambda>f. fst f \<le> c) fs)) @ [(c, Valuation c n)]"
    by (simp only: sort_key_simps, rule insort_key_last) (auto simp: less_prod_def)
  finally show ?thesis by simp
qed

lemma subperiods_flows:
  "subperiods (Some v) (map (\<lambda>(t, a). Flow t a) fs @ es) = subperiods (Some (v + (\<Sum>(t, a)\<leftarrow>fs. a))) es"
  by (induction fs arbitrary: v) (auto simp: add.assoc)

text \<open>A sorted list of flows is a permutation of them.\<close>

lemma sort_flows:
  obtains gs where "map snd (sort_key timeline_key (map flow_entry fs)) = map (\<lambda>(t, a). Flow t a) gs"
    and "mset gs = mset fs"
proof -
  let ?s = "sort_key timeline_key (map flow_entry fs)"
  let ?pair = "\<lambda>x. case snd x of Flow t a \<Rightarrow> (t, a) | Valuation t a \<Rightarrow> (t, a)"
  have "mset (map ?pair ?s) = image_mset ?pair (mset (map flow_entry fs))" by simp
  also have "\<dots> = mset (map (?pair \<circ> flow_entry) fs)" by (simp add: image_mset.compositionality)
  also have "?pair \<circ> flow_entry = id" by (auto simp: fun_eq_iff)
  finally have m: "mset (map ?pair ?s) = mset fs" by simp
  have "set ?s = flow_entry ` set fs" by simp
  then have "map snd ?s = map (\<lambda>(t, a). Flow t a) (map ?pair ?s)" by (auto simp: image_iff)
  then show ?thesis using that m by blast
qed

lemma sum_list_mset: "mset xs = mset ys \<Longrightarrow> (\<Sum>x\<leftarrow>xs. f x) = (\<Sum>x\<leftarrow>ys. (f x :: 'b :: comm_monoid_add))"
  by (metis mset_map sum_mset_sum_list)

lemma ordered_events_after:
  assumes "sorted_wrt (<) (c # map fst vs)"
  shows "subperiods (Some v) (map snd (sort_key timeline_key (map nav_entry vs @ map flow_entry (filter (\<lambda>f. c < fst f) fs)))) =
    periods fs (c, v) vs"
  using assms
proof (induction vs arbitrary: c v)
  case Nil
  obtain gs where gs: "map snd (sort_key timeline_key (map flow_entry (filter (\<lambda>f. c < fst f) fs))) = map (\<lambda>(t, a). Flow t a) gs"
    by (rule sort_flows)
  then show ?case using subperiods_flows [of v gs "[]"] by (simp add: gs)
next
  case (Cons cn vs)
  obtain c' n where cn: "cn = (c', n)" by (cases cn)
  let ?fs = "filter (\<lambda>f. c < fst f) fs"
  have later: "filter (\<lambda>f. \<not> fst f \<le> c') ?fs = filter (\<lambda>f. c' < fst f) fs"
    and now: "filter (\<lambda>f. fst f \<le> c') ?fs = filter (\<lambda>(t, v). c < t \<and> t \<le> c') fs"
    using Cons.prems by (auto simp: cn filter_eq_iff not_le intro!: filter_cong)
  obtain gs where gs: "map snd (sort_key timeline_key (map flow_entry (filter (\<lambda>f. fst f \<le> c') ?fs))) = map (\<lambda>(t, a). Flow t a) gs"
      "mset gs = mset (filter (\<lambda>f. fst f \<le> c') ?fs)"
    by (rule sort_flows)
  have sum: "(\<Sum>(t, a)\<leftarrow>gs. a) = capital_between fs c c'"
    unfolding capital_between_def now [symmetric] by (rule sum_list_mset [OF gs(2)])
  have "sorted_wrt (<) (c' # map fst vs)" using Cons.prems by (simp add: cn)
  note step = timeline_step [OF this, of n ?fs] and IH = Cons.IH [OF this, of n]
  show ?case unfolding cn step map_append gs(1) later subperiods_flows sum using IH by simp
qed

text \<open>When no external capital arrives at or before the first checkpoint, the returns are the right ones.\<close>

lemma ordered_events_periods:
  assumes "sorted_wrt (<) (c # map fst vs)" and "list_all (\<lambda>f. c < fst f) fs"
  shows "subperiods None (ordered_events ((c, n) # vs) fs) = periods fs (c, n) vs"
proof -
  have "filter (\<lambda>f. fst f \<le> c) fs = []" "filter (\<lambda>f. \<not> fst f \<le> c) fs = filter (\<lambda>f. c < fst f) fs"
    using assms(2) by (auto simp: list_all_iff filter_empty_conv not_le)
  then show ?thesis
    using ordered_events_after [OF assms(1), of n fs] timeline_step [OF assms(1), of n fs]
    by (simp add: ordered_events_def)
qed

section \<open>The quantities behind a checkpoint\<close>

text \<open>What was held of an asset at an earlier instant: the balance now less what moved in between.\<close>

definition held_then :: "delta_map \<Rightarrow> nat \<Rightarrow> nat \<Rightarrow> string \<times> decimal \<times> decimal \<Rightarrow> string \<times> decimal" where
  "held_then deltas now_ms t b =
     (fst b, fst (snd b) + snd (snd b) - moved (case deltas (fst b) of None \<Rightarrow> [] | Some ds \<Rightarrow> ds) t now_ms)"

lemma bt_insert_last: "(\<And>k'. k' \<in> fst ` set m \<Longrightarrow> k' < k) \<Longrightarrow> bt_insert k v m = m @ [(k, v)]"
proof (induction k v m rule: bt_insert.induct)
  case (2 k v k' v' m)
  have less: "k' < k" using "2.prems" [of k'] by simp
  have "bt_insert k v m = m @ [(k, v)]"
    by (rule "2.IH" [OF less_not_sym [OF less] less_imp_neq [OF less, symmetric]]) (use "2.prems" in auto)
  then show ?case using less by auto
qed simp

lemma quantities_from_exact:
  assumes "quantities_from E t now_ms deltas qs bs = Some (Inr qs')" and "de_arith E = exact_arith" and "t \<le> now_ms"
    and "bt_ok bs" and "\<And>k k'. k \<in> fst ` set qs \<Longrightarrow> k' \<in> fst ` set bs \<Longrightarrow> k < k'"
  shows "qs' = qs @ map (held_then deltas now_ms t) bs"
  using assms(1,4,5)
proof (induction bs arbitrary: qs)
  case (Cons b bs)
  obtain a f l where b: "b = (a, (f, l))" by (metis prod_cases3)
  obtain q where q: "held_then deltas now_ms t b = (a, q)"
      "quantities_from E t now_ms deltas (bt_insert a q qs) bs = Some (Inr qs')"
    using Cons.prems(1) assms(3)
    by (auto simp: b and_thenp_Inr reconstruct_exact assms(2) held_then_def Let_def split: if_splits)
  have ins: "bt_insert a q qs = qs @ [(a, q)]" using Cons.prems(3) by (intro bt_insert_last) (auto simp: b)
  have "qs' = bt_insert a q qs @ map (held_then deltas now_ms t) bs"
    by (rule Cons.IH [OF q(2)]) (use Cons.prems in \<open>auto simp: b ins bt_ok_def\<close>)
  then show ?case by (simp add: q ins)
qed simp

lemma quantities_all_exact:
  assumes "quantities_all E now_ms bs deltas cs = Some (Inr qss)" and "de_arith E = exact_arith"
    and "list_all (\<lambda>t. t \<le> now_ms) cs" and "bt_ok bs"
  shows "qss = map (\<lambda>t. map (held_then deltas now_ms t) bs) cs"
  using assms(1,3)
proof (induction cs arbitrary: qss)
  case (Cons t cs)
  then show ?case
    using quantities_from_exact [of E t now_ms deltas "[]" bs] assms(2,4)
    by (fastforce simp: and_thenp_Inr quantities_at_def)
qed simp

lemma current_balances_ok:
  "current_balances_from E M sa deltas bs xs = Some (Inr bs') \<Longrightarrow> bt_ok bs \<Longrightarrow> bt_ok bs'"
proof (induction xs arbitrary: bs)
  case (Cons b xs)
  obtain keep v where "current_balances_from E M sa deltas (if keep then bt_insert (ab_asset b) v bs else bs) xs = Some (Inr bs')"
    using Cons.prems(1) by (auto simp: and_thenp_Inr Let_def Option.bind_eq_Some_conv simp del: if_split)
  moreover have "bt_ok (if keep then bt_insert (ab_asset b) v bs else bs)" using Cons.prems(2) by (simp add: bt_ok_insert)
  ultimately show ?case by (rule Cons.IH)
qed simp

lemma prepare_balances_ok: "prepare E ts fs M since_ms = Some (Inr p) \<Longrightarrow> bt_ok (pr_current_balances p)"
  by (auto simp: prepare_def Let_def and_thenp_Inr Option.bind_eq_Some_conv intro: current_balances_ok [OF _ bt_ok_Nil])

section \<open>The parts of a history\<close>

definition external_capital :: "dec_env \<Rightarrow> market \<Rightarrow> prepared \<Rightarrow> (nat \<times> decimal) list" where
  "external_capital E M p =
     map (\<lambda>f. (nf_economic_time_ms f, flow_worth E M f)) (filter is_external (pr_flows p))"

definition nav_points :: "history_result \<Rightarrow> (nat \<times> decimal) list" where
  "nav_points h = map (\<lambda>d. (dn_day_start_ms d, dn_nav d)) (hr_daily_nav h)"

lemma history_parts:
  assumes "compute_history E ts fs M since_ms now_ms = Some (Inr h)" and "de_arith E = exact_arith"
    and "since_ms \<le> now_ms" and "now_ms + DAY_MS < 2 ^ 64"
  obtains p cs twr where "prepare E ts fs M since_ms = Some (Inr p)" and "checkpoints since_ms now_ms = Some cs"
    and "nav_points h = map (\<lambda>t. (t, holdings_worth M t
        (map (held_then (pr_deltas p) now_ms t) (pr_current_balances p)))) cs"
    and "compute_twr exact_arith (ordered_events (nav_points h) (external_capital E M p)) = Inr twr"
    and "hr_daily_returns h = tw_sub_returns twr"
    and "twr_index exact_arith cs (hr_daily_returns h) = Some (hr_twr_index h)"
proof -
  obtain p cs evs fpnl qss navs w twr index where p: "prepare E ts fs M since_ms = Some (Inr p)"
    and cs: "checkpoints since_ms now_ms = Some cs"
    and evs: "flow_loop E (mkt_quote_currency M) [] [] (resolve_prices_parallel M (flow_requests (filter is_external (pr_flows p))))
        (filter is_external (pr_flows p)) = Some (Inr (evs, fpnl))"
    and qss: "quantities_all E now_ms (pr_current_balances p) (pr_deltas p) cs = Some (Inr qss)"
    and navs: "checkpoint_loop E (mkt_quote_currency M) (length cs - 1) 0 []
        \<lparr>wk_prices = resolve_prices_parallel M (nav_requests (zip cs qss)), wk_openings = [], wk_marks = Map.empty\<rparr>
        (zip cs qss) = Some (Inr (navs, w))"
    and twr: "compute_twr (de_arith E) (ordered_events (map (\<lambda>d. (dn_day_start_ms d, dn_nav d)) navs) evs) = Inr twr"
    and index: "twr_index (de_arith E) (map dn_day_start_ms navs) (tw_sub_returns twr) = Some index"
    and h: "hr_daily_nav h = navs" "hr_daily_returns h = tw_sub_returns twr" "hr_twr_index h = index"
    using assms(1) by (auto simp: compute_history_def and_thenp_Inr Let_def split: bind_splits)
  have evs': "evs = external_capital E M p"
    using flow_loop_exact [OF evs [unfolded resolve_prices_parallel_def parallel_map_eq, folded resolved_def] assms(2)]
    by (simp add: external_capital_def)
  obtain cs' where "checkpoints since_ms now_ms = Some cs'" "sorted_wrt (<) cs'" "last cs' = now_ms"
      "\<And>t. t \<in> set cs' \<longleftrightarrow> t = since_ms \<or> t = now_ms \<or> since_ms < t \<and> t < now_ms \<and> DAY_MS dvd t"
    using checkpoints_sorted [OF assms(3,4)] by blast
  then have le: "list_all (\<lambda>t. t \<le> now_ms) cs" using cs assms(3) by (auto simp: list_all_iff)
  have q: "qss = map (\<lambda>t. map (held_then (pr_deltas p) now_ms t) (pr_current_balances p)) cs"
    by (rule quantities_all_exact [OF qss assms(2) le prepare_balances_ok [OF p]])
  have z: "zip cs qss = map (\<lambda>t. (t, map (held_then (pr_deltas p) now_ms t) (pr_current_balances p))) cs"
    unfolding q by (simp add: zip_map2 zip_same_conv_map)
  have n: "navs = map (\<lambda>t. \<lparr>dn_day_start_ms = t, dn_nav = holdings_worth M t
      (map (held_then (pr_deltas p) now_ms t) (pr_current_balances p))\<rparr>) cs"
    using checkpoint_loop_exact [OF navs _ assms(2)] by (simp add: resolve_prices_parallel_def resolved_def z comp_def)
  have "map dn_day_start_ms navs = cs" by (simp add: n comp_def)
  then show ?thesis
    using p cs twr index h n by (intro that [of p cs twr]) (simp_all add: nav_points_def comp_def evs' assms(2))
qed

section \<open>Returns and index\<close>

lemma compute_twr_returns:
  assumes "compute_twr exact_arith es = Inr twr"
  shows "tw_sub_returns twr = map (\<lambda>(before, after). after / before - 1) (subperiods None es)"
  using assms by (auto simp: compute_twr_def twr_from_exact case_prod_beta split: option.splits)

lemma index_from_exact:
  assumes "length ts = length rs"
  shows "\<exists>ps. index_from exact_arith i (zip ts rs) = Some ps \<and> map pt_time_ms ps = ts \<and>
    (\<forall>k < length ts. pt_index (ps ! k) = i * (\<Prod>r\<leftarrow>take (Suc k) rs. 1 + r))"
  using assms
proof (induction ts rs arbitrary: i rule: list_induct2)
  case (Cons t ts r rs)
  obtain ps where ps: "index_from exact_arith (i * (1 + r)) (zip ts rs) = Some ps" "map pt_time_ms ps = ts"
      "\<And>k. k < length ts \<Longrightarrow> pt_index (ps ! k) = i * (1 + r) * (\<Prod>r\<leftarrow>take (Suc k) rs. 1 + r)"
    using Cons.IH by blast
  have "pt_index ((\<lparr>pt_time_ms = t, pt_index = i * (1 + r)\<rparr> # ps) ! k) = i * (\<Prod>r\<leftarrow>take (Suc k) (r # rs). 1 + r)"
    if "k < length (t # ts)" for k
    using that ps(3) by (cases k) (simp_all add: mult.assoc)
  then show ?case using ps(1,2) by simp
qed simp

lemma twr_index_exact:
  assumes "twr_index exact_arith (t # ts) rs = Some ps" and "length rs = length ts"
  shows "map pt_time_ms ps = t # ts \<and> (\<forall>k < length ps. pt_index (ps ! k) = (\<Prod>r\<leftarrow>take k rs. 1 + r))"
proof -
  obtain qs where qs: "index_from exact_arith 1 (zip ts rs) = Some qs" "map pt_time_ms qs = ts"
      "\<And>k. k < length ts \<Longrightarrow> pt_index (qs ! k) = 1 * (\<Prod>r\<leftarrow>take (Suc k) rs. 1 + r)"
    using index_from_exact [OF assms(2) [symmetric]] by blast
  have ps: "ps = \<lparr>pt_time_ms = t, pt_index = 1\<rparr> # qs" using assms(1) qs(1) by (simp add: twr_index_def)
  have "length qs = length ts" using arg_cong [OF qs(2), of length] by simp
  then have "pt_index (ps ! k) = (\<Prod>r\<leftarrow>take k rs. 1 + r)" if "k < length ps" for k
    using that qs(3) by (cases k) (simp_all add: ps)
  then show ?thesis by (simp add: ps qs(2))
qed

lemma length_periods [simp]: "length (periods flows cur navs) = length navs"
  by (induction flows cur navs rule: periods.induct) simp_all

section \<open>Properties\<close>

text \<open>
  C7. The NAV of a history at each of its checkpoints is what the account held then at the prices of
  then: for every asset in scope the balance now, less everything the ledger says moved after that
  instant, times the asset's price at that instant; whichever of the concurrently resolved prices the
  walk consumes, it is the one of that asset at that checkpoint.
\<close>

theorem history_nav_is_holdings:
  assumes "compute_history E ts fs M since_ms now_ms = Some (Inr h)" and "de_arith E = exact_arith"
    and "since_ms \<le> now_ms" and "now_ms + DAY_MS < 2 ^ 64"
  shows "\<exists>p cs. prepare E ts fs M since_ms = Some (Inr p) \<and> checkpoints since_ms now_ms = Some cs \<and>
    nav_points h = map (\<lambda>t. (t, \<Sum>(asset, free, locked)\<leftarrow>pr_current_balances p.
      (free + locked - moved (case pr_deltas p asset of None \<Rightarrow> [] | Some ds \<Rightarrow> ds) t now_ms) * price_of M asset t)) cs"
proof -
  obtain p cs where "prepare E ts fs M since_ms = Some (Inr p)" "checkpoints since_ms now_ms = Some cs"
      "nav_points h = map (\<lambda>t. (t, holdings_worth M t (map (held_then (pr_deltas p) now_ms t) (pr_current_balances p)))) cs"
    by (rule history_parts [OF assms])
  then show ?thesis by (simp add: holdings_worth_def held_then_def comp_def case_prod_beta')
qed

text \<open>
  C6. Deposits and withdrawals are not performance: unless external capital arrives at the very instant
  of the connection, the daily returns compare each NAV with the NAV before it plus the capital that
  arrived in between, at the prices of its arrival; the index has one point per checkpoint, starts at one
  and is the running product of those ratios.
\<close>

theorem history_returns_exclude_capital:
  assumes "compute_history E ts fs M since_ms now_ms = Some (Inr h)" and "de_arith E = exact_arith"
    and "since_ms \<le> now_ms" and "now_ms + DAY_MS < 2 ^ 64"
    and "list_all (\<lambda>f. is_external f \<longrightarrow> nf_economic_time_ms f \<noteq> since_ms) fs"
  shows "\<exists>p ps. prepare E ts fs M since_ms = Some (Inr p) \<and>
    ps = periods (external_capital E M p) (hd (nav_points h)) (tl (nav_points h)) \<and>
    hr_daily_returns h = map (\<lambda>(before, after). after / before - 1) ps \<and>
    map pt_time_ms (hr_twr_index h) = map fst (nav_points h) \<and>
    (\<forall>k < length (hr_twr_index h). pt_index (hr_twr_index h ! k) = (\<Prod>(before, after)\<leftarrow>take k ps. after / before))"
proof -
  obtain p cs twr where p: "prepare E ts fs M since_ms = Some (Inr p)" and cs: "checkpoints since_ms now_ms = Some cs"
    and navs: "map fst (nav_points h) = cs"
    and twr: "compute_twr exact_arith (ordered_events (nav_points h) (external_capital E M p)) = Inr twr"
    and rs: "hr_daily_returns h = tw_sub_returns twr"
    and index: "twr_index exact_arith cs (hr_daily_returns h) = Some (hr_twr_index h)"
    by (rule history_parts [OF assms(1-4)]) (simp add: comp_def)
  obtain cs' where cs': "checkpoints since_ms now_ms = Some cs'" "sorted_wrt (<) cs'" "hd cs' = since_ms"
      "since_ms \<in> set cs'"
    using checkpoints_sorted [OF assms(3,4)] by blast
  then obtain c n vs where v: "nav_points h = (c, n) # vs" using navs cs by (cases "nav_points h") auto
  have c: "c = since_ms" "cs = c # map fst vs" using cs cs' navs v by auto
  have "list_all (\<lambda>f. c < fst f) (external_capital E M p)"
    using p assms(5) by (auto simp: external_capital_def list_all_iff c(1) prepare_def Let_def and_thenp_Inr
        Option.bind_eq_Some_conv)
  then have s: "subperiods None (ordered_events (nav_points h) (external_capital E M p)) =
      periods (external_capital E M p) (c, n) vs"
    using ordered_events_periods [of c vs "external_capital E M p" n] cs cs' c(2) v by simp
  let ?ps = "periods (external_capital E M p) (c, n) vs"
  have r: "hr_daily_returns h = map (\<lambda>(before, after). after / before - 1) ?ps"
    using compute_twr_returns [OF twr] rs s by simp
  have ix: "map pt_time_ms (hr_twr_index h) = c # map fst vs"
      "\<And>k. k < length (hr_twr_index h) \<Longrightarrow> pt_index (hr_twr_index h ! k) = (\<Prod>r\<leftarrow>take k (hr_daily_returns h). 1 + r)"
    using twr_index_exact [OF index [unfolded c(2)]] by (simp_all add: r)
  show ?thesis
    using p r ix(1) ix(2) by (intro exI [of _ p] exI [of _ ?ps]) (simp add: v take_map comp_def case_prod_beta')
qed

definition sample_flow :: normalized_flow where
  "sample_flow = \<lparr>nf_source_namespace = Deposit, nf_source_id = ''1'', nf_economic_time_ms = 50, nf_kind = ''Credited'',
     nf_legs = [\<lparr>al_asset = ''USDT'', al_amount = ''5'', al_is_credit = True\<rparr>], nf_fee = None\<rparr>"

lemma sample_prepare:
  "\<exists>p. prepare sample_dec [] [sample_flow] sample_market 10 = Some (Inr p) \<and> pr_trades p = [] \<and>
     pr_flows p = [sample_flow] \<and> pr_current_balances p = [(''BTC'', (2, 1)), (''USDT'', (5, 0))] \<and>
     pr_deltas p = [''USDT'' \<mapsto> [\<lparr>td_time_ms = 50, td_delta = 5\<rparr>]]"
  by (simp add: prepare_def Let_def collect_ledger_events_def per_asset_deltas_def flow_to_ledger_event_def all_legs_def
      leg_delta_def parse_decimal_def push_delta_def held_or_touched_def sample_flow_def sample_market_def sample_dec_def
      to_ledger_leg_def binance_symbol_def QUOTE_CURRENCY_def dec_or_zero_def less_char_def)

lemma sample_history:
  "\<exists>h. compute_history sample_dec [] [sample_flow] sample_market 10 100 = Some (Inr h)"
proof -
  obtain p where p: "prepare sample_dec [] [sample_flow] sample_market 10 = Some (Inr p)" "pr_trades p = []"
      "pr_flows p = [sample_flow]" "pr_current_balances p = [(''BTC'', (2, 1)), (''USDT'', (5, 0))]"
      "pr_deltas p = [''USDT'' \<mapsto> [\<lparr>td_time_ms = 50, td_delta = 5\<rparr>]]"
    using sample_prepare by blast
  have cs: "checkpoints 10 100 = Some [10, 100]"
    by (simp add: checkpoints_def DAY_MS_def wrap_u_def instants_from.simps)
  have m: "mkt_quote_currency sample_market = ''USDT''" "resolve_historical_price sample_market ''USDT'' t = Inr 1"
      "resolve_historical_price sample_market ''BTC'' t = Inr 10" for t
    by (simp_all add: sample_market_def resolve_historical_price_def)
  have e: "de_arith sample_dec = exact_arith" "de_parse sample_dec ''5'' = Some 5" by (simp_all add: sample_dec_def)
  have f: "is_external sample_flow" "flow_legs sample_flow = [\<lparr>al_asset = ''USDT'', al_amount = ''5'', al_is_credit = True\<rparr>]"
      "nf_legs sample_flow = [\<lparr>al_asset = ''USDT'', al_amount = ''5'', al_is_credit = True\<rparr>]"
      "nf_economic_time_ms sample_flow = 50"
    by (simp_all add: is_external_def flow_legs_def sample_flow_def)
  have q: "quantities_all sample_dec 100 (pr_current_balances p) (pr_deltas p) [10, 100] =
      Some (Inr [[(''BTC'', 3), (''USDT'', 0)], [(''BTC'', 3), (''USDT'', 5)]])"
    by (simp add: p quantities_at_def reconstruct_quantity_def total_def e Let_def)
  show ?thesis
    by (simp add: compute_history_def p(1,2,3) cs q m e f resolve_prices_parallel_def flow_requests_def nav_requests_def
        next_price_def parse_decimal_def leg_pnl_events_def ordered_events_def compute_twr_def ratio_exact chain_exact
        twr_index_def less_eq_prod_def compute_overall_win_rate_def compute_pnl_def pnl_lots_def Let_def
        acquire_def lot_or_new_def del: quantities_all.simps)
qed

text \<open>What the sample says: three coins at ten, five dollars deposited in between, and no return.\<close>

theorem history_nav_is_holdings_witness:
  "\<exists>h. compute_history sample_dec [] [sample_flow] sample_market 10 100 = Some (Inr h) \<and>
     nav_points h = [(10, 30), (100, 35)]"
proof -
  obtain h where h: "compute_history sample_dec [] [sample_flow] sample_market 10 100 = Some (Inr h)"
    using sample_history by blast
  obtain p where p: "prepare sample_dec [] [sample_flow] sample_market 10 = Some (Inr p)"
      "pr_current_balances p = [(''BTC'', (2, 1)), (''USDT'', (5, 0))]"
      "pr_deltas p = [''USDT'' \<mapsto> [\<lparr>td_time_ms = 50, td_delta = 5\<rparr>]]"
    using sample_prepare by blast
  have b: "(10 :: nat) \<le> 100" "100 + DAY_MS < 2 ^ 64" "de_arith sample_dec = exact_arith"
    by (simp_all add: DAY_MS_def sample_dec_def)
  have cs: "checkpoints 10 100 = Some [10, 100]"
    by (simp add: checkpoints_def DAY_MS_def wrap_u_def instants_from.simps)
  have m: "price_of sample_market ''USDT'' t = 1" "price_of sample_market ''BTC'' t = 10" for t
    by (simp_all add: sample_market_def resolve_historical_price_def price_of_def)
  have "nav_points h = [(10, 30), (100, 35)]"
    using history_nav_is_holdings [OF h b(3,1,2)] by (auto simp: p cs m moved_def)
  then show ?thesis using h by blast
qed

theorem history_returns_exclude_capital_witness:
  "\<exists>h. compute_history sample_dec [] [sample_flow] sample_market 10 100 = Some (Inr h) \<and> hr_daily_returns h = [0]"
proof -
  obtain h where h: "compute_history sample_dec [] [sample_flow] sample_market 10 100 = Some (Inr h)"
    using sample_history by blast
  obtain p where p: "prepare sample_dec [] [sample_flow] sample_market 10 = Some (Inr p)" "pr_flows p = [sample_flow]"
      "pr_current_balances p = [(''BTC'', (2, 1)), (''USDT'', (5, 0))]"
      "pr_deltas p = [''USDT'' \<mapsto> [\<lparr>td_time_ms = 50, td_delta = 5\<rparr>]]"
    using sample_prepare by blast
  have b: "(10 :: nat) \<le> 100" "100 + DAY_MS < 2 ^ 64" "de_arith sample_dec = exact_arith"
    by (simp_all add: DAY_MS_def sample_dec_def)
  have cs: "checkpoints 10 100 = Some [10, 100]"
    by (simp add: checkpoints_def DAY_MS_def wrap_u_def instants_from.simps)
  have m: "price_of sample_market ''USDT'' t = 1" "price_of sample_market ''BTC'' t = 10" for t
    by (simp_all add: sample_market_def resolve_historical_price_def price_of_def)
  have ext: "list_all (\<lambda>f. is_external f \<longrightarrow> nf_economic_time_ms f \<noteq> 10) [sample_flow]" "is_external sample_flow"
    by (simp_all add: sample_flow_def is_external_def)
  have w: "flow_worth sample_dec sample_market sample_flow = 5" "nf_economic_time_ms sample_flow = 50"
    by (simp_all add: flow_worth_def flow_legs_def leg_worth_def sample_flow_def sample_dec_def m [unfolded sample_dec_def])
  have navs: "nav_points h = [(10, 30), (100, 35)]"
    by (rule history_parts [OF h b(3,1,2)]) (auto simp: p cs m moved_def holdings_worth_def held_then_def)
  have "hr_daily_returns h = [0]"
    using history_returns_exclude_capital [OF h b(3,1,2) ext(1)] ext(2)
    by (auto simp: p navs external_capital_def capital_between_def w)
  then show ?thesis using h by blast
qed

text \<open>
  A deposit at the very instant of the connection is read as a gain: it sorts before the opening
  valuation, which already contains it, so that valuation closes a subperiod that never was. An account
  worth \<open>n\<close> with a deposit of \<open>d\<close> then and nothing after shows the return \<open>n / d - 1\<close>, one return more
  than it has days, and its index, which pairs days with returns, ends at \<open>n / d\<close> instead of one.
\<close>

theorem history_opening_deposit_is_a_gain:
  assumes "c < c'" and "0 < d" and "0 < n"
  shows "\<exists>twr. compute_twr exact_arith (ordered_events [(c, n), (c', n)] [(c, d)]) = Inr twr \<and>
    tw_sub_returns twr = [n / d - 1, 0] \<and>
    twr_index exact_arith [c, c'] (tw_sub_returns twr) =
      Some [\<lparr>pt_time_ms = c, pt_index = 1\<rparr>, \<lparr>pt_time_ms = c', pt_index = n / d\<rparr>]"
  using assms
  by (simp add: ordered_events_def compute_twr_def ratio_exact chain_exact twr_index_def less_eq_prod_def)

theorem history_opening_deposit_is_a_gain_witness:
  "\<exists>twr. compute_twr exact_arith (ordered_events [(0, 1000), (86400000, 1000)] [(0, 10)]) = Inr twr \<and>
     tw_sub_returns twr = [99, 0]"
  using history_opening_deposit_is_a_gain [of 0 86400000 10 1000] by auto

end
