(* ===== verification/Chart.thy ===== *)
theory Chart
  imports Track
begin

text \<open>
  The chart of the same module (worker, history.rs): the range and its resolution, the grid of instants,
  candle prices in bulk, and the value and return index at every point. The panics of indexing a map and
  of \<open>expect\<close> are the outer \<open>None\<close>.
\<close>

record series_point =
  sp_time_ms :: nat
  sp_nav :: decimal
  sp_index :: decimal

record series_result =
  sr_points :: "series_point list"
  sr_step_ms :: nat

datatype series_range = Day | Week | Month | Year | FiveYears | MaxRange

definition parse_range :: "string \<Rightarrow> series_range option" where
  "parse_range v =
     (if v = ''24h'' then Some Day else if v = ''7d'' then Some Week else if v = ''30d'' then Some Month
      else if v = ''1y'' then Some Year else if v = ''5y'' then Some FiveYears
      else if v = ''max'' then Some MaxRange else None)"

fun window_ms :: "series_range \<Rightarrow> nat option" where
  "window_ms Day = Some DAY_MS"
| "window_ms Week = Some (7 * DAY_MS)"
| "window_ms Month = Some (30 * DAY_MS)"
| "window_ms Year = Some (365 * DAY_MS)"
| "window_ms FiveYears = Some (5 * 365 * DAY_MS)"
| "window_ms MaxRange = None"

fun step_for :: "series_range \<Rightarrow> nat \<Rightarrow> nat" where
  "step_for Day span_ms = 300000"
| "step_for Week span_ms = 1800000"
| "step_for Month span_ms = 7200000"
| "step_for Year span_ms = DAY_MS"
| "step_for FiveYears span_ms = DAY_MS"
| "step_for MaxRange span_ms =
     (case find (\<lambda>step. span_ms div step \<le> 400) SERIES_STEPS_MS of Some step \<Rightarrow> step | None \<Rightarrow> DAY_MS)"

definition price_at :: "dec_env \<Rightarrow> raw_candle list \<Rightarrow> nat \<Rightarrow> bool \<Rightarrow> decimal option" where
  "price_at E candles at_ms is_now =
     Option.bind (if is_now then (if candles = [] then None else Some (last candles))
        else find (\<lambda>c. rk_close_time_ms c \<le> at_ms) (rev candles)) (\<lambda>c. de_parse E (rk_close_price c))"

definition start_of :: "series_range \<Rightarrow> nat \<Rightarrow> nat \<Rightarrow> nat" where
  "start_of r since_ms now_ms = (case window_ms r of None \<Rightarrow> since_ms | Some w \<Rightarrow> max (now_ms - w) since_ms)"

definition grid_of :: "nat \<Rightarrow> nat \<Rightarrow> nat \<Rightarrow> nat list option" where
  "grid_of step_ms start_ms now_ms =
     Option.bind (instants_from step_ms now_ms (wrap_u64 ((start_ms div step_ms + 1) * step_ms))) (\<lambda>ts.
       Some (start_ms # ts @ (if now_ms > start_ms then [now_ms] else [])))"

text \<open>The assets the chart needs candles of, in the order of their names.\<close>

definition charted_assets :: "string \<Rightarrow> quantities list \<Rightarrow> string list" where
  "charted_assets quote qss =
     sorted_list_of_set (set (map fst (filter (\<lambda>(asset, qty). qty \<noteq> 0 \<and> asset \<noteq> quote) (concat qss))))"

definition fetch_candles ::
    "market \<Rightarrow> nat \<Rightarrow> nat \<Rightarrow> nat \<Rightarrow> string list \<Rightarrow> history_error + (string \<Rightarrow> raw_candle list option)" where
  "fetch_candles M step_ms start_ms now_ms asset_list =
     (let fetched = parallel_map (\<lambda>asset. mkt_candles_span M (mkt_market_symbol M asset) step_ms
            (start_ms - 2 * step_ms) now_ms) asset_list
      in and_then (collect_res (map_err HMarket) fetched) (\<lambda>css. Inr (map_of (zip asset_list css))))"

definition first_requests :: "string \<Rightarrow> nat \<Rightarrow> quantities \<Rightarrow> (string \<times> nat) list" where
  "first_requests quote start_ms qs =
     map (\<lambda>(asset, _). (asset, start_ms)) (filter (\<lambda>(asset, qty). qty \<noteq> 0 \<and> asset \<noteq> quote) qs)"

definition fetch_first_prices :: "market \<Rightarrow> (string \<times> nat) list \<Rightarrow> history_error + (string \<Rightarrow> decimal option)" where
  "fetch_first_prices M requests =
     and_then (collect_res (map_err HPublish) (resolve_prices_parallel M requests)) (\<lambda>ps.
       Inr (map_of (zip (map fst requests) ps)))"

text \<open>The price of a holding at a point of the grid.\<close>

definition point_price ::
    "dec_env \<Rightarrow> string \<Rightarrow> (string \<Rightarrow> raw_candle list option) \<Rightarrow> (string \<Rightarrow> decimal option) \<Rightarrow> nat \<Rightarrow> nat \<Rightarrow> bool \<Rightarrow> string \<Rightarrow>
      (history_error + decimal) option" where
  "point_price E quote candles first_prices index at_ms is_now asset =
     (if asset = quote then Some (Inr 1)
      else if index = 0 then map_option Inr (first_prices asset)
      else Option.bind (candles asset) (\<lambda>cs.
        Some (ok_or (HValuation (UnsupportedAsset (asset @ '': no candle at '' @ show_nat at_ms)))
          (price_at E cs at_ms is_now))))"

fun point_nav ::
    "dec_env \<Rightarrow> (string \<Rightarrow> (history_error + decimal) option) \<Rightarrow> decimal \<Rightarrow> quantities \<Rightarrow> (history_error + decimal) option" where
  "point_nav E price nav [] = Some (Inr nav)"
| "point_nav E price nav ((asset, qty) # rest) =
     (if qty = 0 then point_nav E price nav rest
      else and_thenp (price asset) (\<lambda>p.
           Option.bind (dmul (de_arith E) qty p) (\<lambda>v. Option.bind (dadd (de_arith E) nav v) (\<lambda>nav'.
             point_nav E price nav' rest))))"

fun grid_loop ::
    "dec_env \<Rightarrow> (nat \<Rightarrow> nat \<Rightarrow> bool \<Rightarrow> string \<Rightarrow> (history_error + decimal) option) \<Rightarrow> nat \<Rightarrow> nat \<Rightarrow> (nat \<times> quantities) list \<Rightarrow>
      (history_error + (nat \<times> decimal) list) option" where
  "grid_loop E price n index [] = Some (Inr [])"
| "grid_loop E price n index ((at_ms, qs) # rest) =
     and_thenp (point_nav E (price index at_ms (index = n - 1 \<and> index > 0)) 0 qs) (\<lambda>nav.
     and_thenp (grid_loop E price n (index + 1) rest) (\<lambda>points. Some (Inr ((at_ms, nav) # points))))"

text \<open>The flows of the window: the same legs and prices as in the history, without the profit events.\<close>

fun net_loop :: "dec_env \<Rightarrow> decimal \<Rightarrow> prices \<Rightarrow> asset_leg list \<Rightarrow> (history_error + decimal \<times> prices) option" where
  "net_loop E net ps [] = Some (Inr (net, ps))"
| "net_loop E net ps (leg # legs) =
     and_thenp (Some (parse_decimal E (al_amount leg))) (\<lambda>amount.
     and_thenp (next_price ps) (\<lambda>(price, ps').
     Option.bind (dmul (de_arith E) amount price) (\<lambda>v.
     Option.bind (dadd (de_arith E) net (if al_is_credit leg then v else - v)) (\<lambda>net'. net_loop E net' ps' legs))))"

fun window_loop ::
    "dec_env \<Rightarrow> prices \<Rightarrow> normalized_flow list \<Rightarrow> (history_error + (nat \<times> decimal) list) option" where
  "window_loop E ps [] = Some (Inr [])"
| "window_loop E ps (f # fs) =
     and_thenp (net_loop E 0 ps (flow_legs f)) (\<lambda>(net, ps').
     and_thenp (window_loop E ps' fs) (\<lambda>evs. Some (Inr ((nf_economic_time_ms f, net) # evs))))"

text \<open>The last loop: the index moves by the return of each point after the first, where there is one.\<close>

fun series_points :: "arith \<Rightarrow> decimal \<Rightarrow> decimal list \<Rightarrow> (nat \<times> decimal) list \<Rightarrow> series_point list option" where
  "series_points A i rs [] = Some []"
| "series_points A i rs ((at_ms, nav) # rest) =
     Option.bind (case rs of [] \<Rightarrow> Some i | r # _ \<Rightarrow> Option.bind (dadd A 1 r) (\<lambda>factor. dmul A i factor)) (\<lambda>i'.
       map_option (\<lambda>ps. \<lparr>sp_time_ms = at_ms, sp_nav = nav, sp_index = i'\<rparr> # ps)
         (series_points A i' (tl rs) rest))"

definition all_points :: "arith \<Rightarrow> decimal list \<Rightarrow> (nat \<times> decimal) list \<Rightarrow> series_point list option" where
  "all_points A rs points =
     (case points of [] \<Rightarrow> Some []
      | (at_ms, nav) # rest \<Rightarrow>
          map_option (\<lambda>ps. \<lparr>sp_time_ms = at_ms, sp_nav = nav, sp_index = 1\<rparr> # ps) (series_points A 1 rs rest))"

definition compute_series ::
    "dec_env \<Rightarrow> trade list \<Rightarrow> normalized_flow list \<Rightarrow> market \<Rightarrow> nat \<Rightarrow> nat \<Rightarrow> series_range \<Rightarrow>
      (history_error + series_result) option" where
  "compute_series E all_trades all_flows M since_ms now_ms r =
     and_thenp (prepare E all_trades all_flows M since_ms) (\<lambda>p.
     let quote = mkt_quote_currency M;
         start_ms = start_of r since_ms now_ms;
         step_ms = step_for r (now_ms - start_ms)
     in Option.bind (grid_of step_ms start_ms now_ms) (\<lambda>grid.
     and_thenp (quantities_all E now_ms (pr_current_balances p) (pr_deltas p) grid) (\<lambda>qss.
     and_thenp (Some (fetch_candles M step_ms start_ms now_ms (charted_assets quote qss))) (\<lambda>candles.
     and_thenp (Some (fetch_first_prices M (first_requests quote start_ms (hd qss)))) (\<lambda>first_prices.
     and_thenp (grid_loop E (point_price E quote candles first_prices) (length grid) 0 (zip grid qss)) (\<lambda>points.
     let window_flows = filter (\<lambda>f. nf_economic_time_ms f \<ge> start_ms \<and> is_external f) (pr_flows p) in
     and_thenp (window_loop E (resolve_prices_parallel M (flow_requests window_flows)) window_flows) (\<lambda>flow_events.
     and_thenp (Some (map_err HReturn (compute_twr (de_arith E) (ordered_events points flow_events)))) (\<lambda>twr.
       map_option (\<lambda>series. Inr \<lparr>sr_points = series, sr_step_ms = step_ms\<rparr>)
         (all_points (de_arith E) (tw_sub_returns twr) points)))))))))"

section \<open>The grid\<close>

lemma step_for_supported: "step_for r span_ms \<in> set SERIES_STEPS_MS"
proof (cases r)
  case MaxRange
  show ?thesis
  proof (cases "find (\<lambda>step. span_ms div step \<le> 400) SERIES_STEPS_MS")
    case (Some step)
    then have "step \<in> set SERIES_STEPS_MS" by (auto simp: find_Some_iff)
    then show ?thesis using MaxRange Some by simp
  qed (simp add: MaxRange SERIES_STEPS_MS_def DAY_MS_def)
qed (simp_all add: SERIES_STEPS_MS_def DAY_MS_def)

lemma step_bounds: "step \<in> set SERIES_STEPS_MS \<Longrightarrow> 60000 \<le> step \<and> step \<le> DAY_MS"
  by (auto simp: SERIES_STEPS_MS_def DAY_MS_def)

lemma grid_of_sorted:
  assumes "step \<in> set SERIES_STEPS_MS" and "start \<le> now_ms" and "now_ms + DAY_MS < 2 ^ 64"
  shows "\<exists>g. grid_of step start now_ms = Some g \<and> sorted_wrt (<) g \<and> hd g = start \<and> g \<noteq> [] \<and> last g = now_ms \<and>
    (\<forall>t. t \<in> set g \<longleftrightarrow> t = start \<or> t = now_ms \<or> start < t \<and> t < now_ms \<and> step dvd t)"
proof -
  have b: "0 < step" "now_ms + step < 2 ^ 64" using step_bounds [OF assms(1)] assms(3) by linarith+
  obtain ts where ts: "instants_from step now_ms (wrap_u64 ((start div step + 1) * step)) = Some ts"
      "sorted_wrt (<) ts" "\<And>x. x \<in> set ts \<longleftrightarrow> start < x \<and> x < now_ms \<and> step dvd x"
    using instants_between [OF b assms(2)] by metis
  show ?thesis
  proof (cases "start = now_ms")
    case True
    then have "x \<notin> set ts" for x using ts(3) [of x] by simp
    then have "ts = []" by (cases ts) auto
    then have "grid_of step start now_ms = Some [start]" using True ts(1) by (simp add: grid_of_def)
    then show ?thesis using True by auto
  next
    case False
    then have "grid_of step start now_ms = Some (start # ts @ [now_ms])" using ts(1) assms(2) by (simp add: grid_of_def)
    moreover have "sorted_wrt (<) (start # ts @ [now_ms])"
      using ts(2,3) False assms(2) by (simp add: sorted_wrt_append)
    moreover have "t \<in> set (start # ts @ [now_ms]) \<longleftrightarrow>
        t = start \<or> t = now_ms \<or> start < t \<and> t < now_ms \<and> step dvd t" for t
      using ts(3) [of t] by (simp only: set_simps set_append) blast
    ultimately show ?thesis
      by (intro exI [of _ "start # ts @ [now_ms]"]) (simp only: list.sel last.simps last_appendR last_ConsL, simp)
  qed
qed

section \<open>Flows and points\<close>

lemma net_loop_exact:
  assumes "net_loop E net (resolved M (map (\<lambda>leg. (al_asset leg, t)) legs) @ ps) legs = Some (Inr (net', ps'))"
    and "de_arith E = exact_arith"
  shows "ps' = ps \<and> net' = net + (\<Sum>leg\<leftarrow>legs. leg_worth E M t leg)"
  using assms(1)
proof (induction legs arbitrary: net)
  case (Cons leg legs)
  then obtain amount where "de_parse E (al_amount leg) = Some amount"
    and r: "net_loop E (net + (if al_is_credit leg then amount * price_of M (al_asset leg) t
        else - (amount * price_of M (al_asset leg) t))) (resolved M (map (\<lambda>leg. (al_asset leg, t)) legs) @ ps) legs =
        Some (Inr (net', ps'))"
    by (auto simp: and_thenp_Inr next_price_resolved parse_decimal_def assms(2) simp del: if_split)
  then show ?case using Cons.IH [OF r] by (auto simp: leg_worth_def)
qed simp

lemma window_loop_exact:
  assumes "window_loop E (resolved M (flow_requests fs)) fs = Some (Inr evs)" and "de_arith E = exact_arith"
  shows "evs = map (\<lambda>f. (nf_economic_time_ms f, flow_worth E M f)) fs"
  using assms(1)
proof (induction fs arbitrary: evs)
  case (Cons f fs)
  then obtain net ps evs' where l: "net_loop E 0
        (resolved M (map (\<lambda>leg. (al_asset leg, nf_economic_time_ms f)) (flow_legs f)) @ resolved M (flow_requests fs))
        (flow_legs f) = Some (Inr (net, ps))"
    and r: "window_loop E ps fs = Some (Inr evs')" and e: "evs = (nf_economic_time_ms f, net) # evs'"
    by (auto simp: and_thenp_Inr flow_requests_def)
  have p: "ps = resolved M (flow_requests fs)" and n: "net = flow_worth E M f"
    using net_loop_exact [OF l assms(2)] by (simp_all add: flow_worth_def)
  show ?case using Cons.IH [OF r [unfolded p]] by (simp add: n e)
qed simp

lemma grid_loop_times:
  "grid_loop E price n i cqs = Some (Inr points) \<Longrightarrow> map fst points = map fst cqs"
proof (induction cqs arbitrary: i points)
  case (Cons cq cqs)
  then show ?case by (cases cq) (auto simp: and_thenp_Inr)
qed simp

lemma quantities_all_length:
  "quantities_all E now_ms bs deltas cs = Some (Inr qss) \<Longrightarrow> length qss = length cs"
  by (induction cs arbitrary: qss) (auto simp: and_thenp_Inr)

lemma series_points_exact:
  assumes "length rs = length points"
  shows "\<exists>ps. series_points exact_arith i rs points = Some ps \<and> length ps = length points \<and>
    (\<forall>k < length points. sp_time_ms (ps ! k) = fst (points ! k) \<and> sp_nav (ps ! k) = snd (points ! k) \<and>
      sp_index (ps ! k) = i * (\<Prod>r\<leftarrow>take (Suc k) rs. 1 + r))"
  using assms
proof (induction rs points arbitrary: i rule: list_induct2)
  case (Cons r rs p points)
  obtain t nav where p: "p = (t, nav)" by (cases p)
  obtain ps where ps: "series_points exact_arith (i * (1 + r)) rs points = Some ps" "length ps = length points"
      "\<And>k. k < length points \<Longrightarrow> sp_time_ms (ps ! k) = fst (points ! k) \<and> sp_nav (ps ! k) = snd (points ! k) \<and>
        sp_index (ps ! k) = i * (1 + r) * (\<Prod>r\<leftarrow>take (Suc k) rs. 1 + r)"
    using Cons.IH by blast
  let ?ps = "\<lparr>sp_time_ms = t, sp_nav = nav, sp_index = i * (1 + r)\<rparr> # ps"
  have "sp_time_ms (?ps ! k) = fst ((p # points) ! k) \<and> sp_nav (?ps ! k) = snd ((p # points) ! k) \<and>
      sp_index (?ps ! k) = i * (\<Prod>r\<leftarrow>take (Suc k) (r # rs). 1 + r)" if "k < length (p # points)" for k
    using that ps(3) by (cases k) (simp_all add: p mult.assoc)
  then show ?case using ps(1,2) by (simp add: p)
qed simp

lemma all_points_exact:
  assumes "all_points exact_arith rs (cur # points) = Some ps" and "length rs = length points"
  shows "map (\<lambda>s. (sp_time_ms s, sp_nav s)) ps = cur # points \<and>
    (\<forall>k < length ps. sp_index (ps ! k) = (\<Prod>r\<leftarrow>take k rs. 1 + r))"
proof -
  obtain t nav where cur: "cur = (t, nav)" by (cases cur)
  obtain qs where qs: "series_points exact_arith 1 rs points = Some qs" "length qs = length points"
      "\<And>k. k < length points \<Longrightarrow> sp_time_ms (qs ! k) = fst (points ! k) \<and> sp_nav (qs ! k) = snd (points ! k) \<and>
        sp_index (qs ! k) = 1 * (\<Prod>r\<leftarrow>take (Suc k) rs. 1 + r)"
    using series_points_exact [OF assms(2)] by blast
  have ps: "ps = \<lparr>sp_time_ms = t, sp_nav = nav, sp_index = 1\<rparr> # qs"
    using assms(1) qs(1) by (simp add: all_points_def cur)
  have "map (\<lambda>s. (sp_time_ms s, sp_nav s)) qs = points"
    using qs(2,3) by (intro nth_equalityI) simp_all
  moreover have "sp_index (ps ! k) = (\<Prod>r\<leftarrow>take k rs. 1 + r)" if "k < length ps" for k
    using that qs(2,3) by (cases k) (simp_all add: ps)
  ultimately show ?thesis by (simp add: ps cur)
qed

definition window_capital :: "dec_env \<Rightarrow> market \<Rightarrow> prepared \<Rightarrow> nat \<Rightarrow> (nat \<times> decimal) list" where
  "window_capital E M p start_ms = map (\<lambda>f. (nf_economic_time_ms f, flow_worth E M f))
     (filter (\<lambda>f. nf_economic_time_ms f \<ge> start_ms \<and> is_external f) (pr_flows p))"

section \<open>Properties\<close>

text \<open>
  C8. A chart never shows deposits as gains: whatever the range, when no external capital arrives at the
  very first instant of the window, the points are the instants of the grid from the start of the window to
  now in order, and the index at each is the product of the ratios of the value at a point to the value at
  the point before plus the capital that arrived in between; it starts at one.
\<close>

theorem series_index_excludes_capital:
  assumes "compute_series E ts fs M since_ms now_ms r = Some (Inr s)" and "de_arith E = exact_arith"
    and "since_ms \<le> now_ms" and "now_ms + DAY_MS < 2 ^ 64"
    and "list_all (\<lambda>f. is_external f \<longrightarrow> nf_economic_time_ms f \<noteq> start_of r since_ms now_ms) fs"
  shows "\<exists>p points ps. prepare E ts fs M since_ms = Some (Inr p) \<and>
    points = map (\<lambda>x. (sp_time_ms x, sp_nav x)) (sr_points s) \<and>
    grid_of (sr_step_ms s) (start_of r since_ms now_ms) now_ms = Some (map fst points) \<and>
    ps = periods (window_capital E M p (start_of r since_ms now_ms)) (hd points) (tl points) \<and>
    (\<forall>k < length (sr_points s). sp_index (sr_points s ! k) = (\<Prod>(before, after)\<leftarrow>take k ps. after / before))"
proof -
  let ?start = "start_of r since_ms now_ms" and ?step = "step_for r (now_ms - start_of r since_ms now_ms)"
  have start: "?start \<le> now_ms" using assms(3) by (auto simp: start_of_def split: option.split)
  obtain g where g: "grid_of ?step ?start now_ms = Some g" "sorted_wrt (<) g" "hd g = ?start" "g \<noteq> []"
    using grid_of_sorted [OF step_for_supported start assms(4)] by blast
  obtain p qss candles fps points evs twr where p: "prepare E ts fs M since_ms = Some (Inr p)"
    and qss: "quantities_all E now_ms (pr_current_balances p) (pr_deltas p) g = Some (Inr qss)"
    and points: "grid_loop E (point_price E (mkt_quote_currency M) candles fps) (length g) 0 (zip g qss) = Some (Inr points)"
    and evs: "window_loop E (resolve_prices_parallel M (flow_requests
        (filter (\<lambda>f. nf_economic_time_ms f \<ge> ?start \<and> is_external f) (pr_flows p))))
        (filter (\<lambda>f. nf_economic_time_ms f \<ge> ?start \<and> is_external f) (pr_flows p)) = Some (Inr evs)"
    and twr: "compute_twr exact_arith (ordered_events points evs) = Inr twr"
    and s: "all_points exact_arith (tw_sub_returns twr) points = Some (sr_points s)" "sr_step_ms s = ?step"
    using assms(1) by (auto simp: compute_series_def and_thenp_Inr Let_def g(1) assms(2))
  have times: "map fst points = g"
    using grid_loop_times [OF points] quantities_all_length [OF qss] by simp
  have evs': "evs = window_capital E M p ?start"
    using window_loop_exact [OF evs [unfolded resolve_prices_parallel_def parallel_map_eq, folded resolved_def] assms(2)]
    by (simp add: window_capital_def)
  obtain cur rest where v: "points = cur # rest" using times g(4) by (cases points) auto
  have c: "fst cur = ?start" and sorted: "sorted_wrt (<) (fst cur # map fst rest)" using times g(2,3) v by auto
  have "list_all (\<lambda>f. fst cur < fst f) evs"
    using p assms(5) by (auto simp: evs' window_capital_def list_all_iff c prepare_def Let_def and_thenp_Inr
        Option.bind_eq_Some_conv)
  then have sub: "subperiods None (ordered_events points evs) = periods evs cur rest"
    using ordered_events_periods [OF sorted, of evs "snd cur"] by (simp add: v)
  have rs: "tw_sub_returns twr = map (\<lambda>(before, after). after / before - 1) (periods evs cur rest)"
    using compute_twr_returns [OF twr] sub by simp
  have pts: "map (\<lambda>x. (sp_time_ms x, sp_nav x)) (sr_points s) = points"
      "\<And>k. k < length (sr_points s) \<Longrightarrow> sp_index (sr_points s ! k) = (\<Prod>r\<leftarrow>take k (tw_sub_returns twr). 1 + r)"
    using all_points_exact [OF s(1) [unfolded v]] by (simp_all add: rs v)
  show ?thesis
    using p pts g(1) times s(2)
    by (intro exI [of _ p] exI [of _ points] exI [of _ "periods evs cur rest"])
      (simp add: v rs evs' take_map comp_def case_prod_beta')
qed

lemma sample_series:
  "\<exists>s. compute_series sample_dec [] [sample_flow] sample_market 10 100 Day = Some (Inr s)"
proof -
  obtain p where p: "prepare sample_dec [] [sample_flow] sample_market 10 = Some (Inr p)" "pr_trades p = []"
      "pr_flows p = [sample_flow]" "pr_current_balances p = [(''BTC'', (2, 1)), (''USDT'', (5, 0))]"
      "pr_deltas p = [''USDT'' \<mapsto> [\<lparr>td_time_ms = 50, td_delta = 5\<rparr>]]"
    using sample_prepare by blast
  have st: "start_of Day 10 100 = 10" by (simp add: start_of_def DAY_MS_def)
  have cs: "grid_of (step_for Day 90) 10 100 = Some [10, 100]"
    by (simp add: grid_of_def wrap_u_def instants_from.simps)
  have m: "mkt_quote_currency sample_market = ''USDT''" "resolve_historical_price sample_market ''USDT'' t = Inr 1"
      "resolve_historical_price sample_market ''BTC'' t = Inr 10"
      "mkt_candles_span sample_market a b c d = Inr [\<lparr>rk_open_time_ms = 0, rk_close_price = ''10'', rk_close_time_ms = 59\<rparr>]"
    for t a b c d
    by (simp_all add: sample_market_def resolve_historical_price_def)
  have e: "de_arith sample_dec = exact_arith" "de_parse sample_dec ''5'' = Some 5" "de_parse sample_dec ''10'' = Some 10"
    by (simp_all add: sample_dec_def)
  have f: "is_external sample_flow" "flow_legs sample_flow = [\<lparr>al_asset = ''USDT'', al_amount = ''5'', al_is_credit = True\<rparr>]"
      "nf_economic_time_ms sample_flow = 50"
    by (simp_all add: is_external_def flow_legs_def sample_flow_def)
  have q: "quantities_all sample_dec 100 (pr_current_balances p) (pr_deltas p) [10, 100] =
      Some (Inr [[(''BTC'', 3), (''USDT'', 0)], [(''BTC'', 3), (''USDT'', 5)]])"
    by (simp add: p quantities_at_def reconstruct_quantity_def total_def e Let_def)
  have a: "map fst (filter (\<lambda>(asset, qty). qty \<noteq> 0 \<and> asset \<noteq> ''USDT'')
      (concat [[(''BTC'', 3 :: decimal), (''USDT'', 0)], [(''BTC'', 3), (''USDT'', 5)]])) = [''BTC'', ''BTC'']"
    by simp
  have c: "charted_assets ''USDT'' [[(''BTC'', 3), (''USDT'', 0)], [(''BTC'', 3), (''USDT'', 5)]] = [''BTC'']"
    unfolding charted_assets_def a by simp
  show ?thesis
    by (simp add: compute_series_def p(1,2,3) st cs q m e f c resolve_prices_parallel_def flow_requests_def
        fetch_candles_def fetch_first_prices_def first_requests_def point_price_def price_at_def
        next_price_def parse_decimal_def ordered_events_def compute_twr_def ratio_exact chain_exact
        all_points_def less_eq_prod_def Let_def del: quantities_all.simps step_for.simps)
qed

theorem series_index_excludes_capital_witness:
  "\<exists>s. compute_series sample_dec [] [sample_flow] sample_market 10 100 Day = Some (Inr s) \<and>
     map fst (map (\<lambda>x. (sp_time_ms x, sp_nav x)) (sr_points s)) = [10, 100] \<and> sp_index (sr_points s ! 0) = 1"
proof -
  obtain s where s: "compute_series sample_dec [] [sample_flow] sample_market 10 100 Day = Some (Inr s)"
    using sample_series by blast
  have b: "(10 :: nat) \<le> 100" "100 + DAY_MS < 2 ^ 64" "de_arith sample_dec = exact_arith"
    by (simp_all add: DAY_MS_def sample_dec_def)
  have st: "start_of Day 10 100 = 10" by (simp add: start_of_def DAY_MS_def)
  have ext: "list_all (\<lambda>f. is_external f \<longrightarrow> nf_economic_time_ms f \<noteq> start_of Day 10 100) [sample_flow]"
    by (simp add: sample_flow_def st)
  have step: "sr_step_ms s = 300000"
    using s by (auto simp: compute_series_def and_thenp_Inr Let_def Option.bind_eq_Some_conv)
  have g: "grid_of 300000 10 100 = Some [10, 100]" by (simp add: grid_of_def wrap_u_def instants_from.simps)
  obtain ps where t: "map fst (map (\<lambda>x. (sp_time_ms x, sp_nav x)) (sr_points s)) = [10, 100]"
    and i: "\<And>k. k < length (sr_points s) \<Longrightarrow> sp_index (sr_points s ! k) = (\<Prod>(before, after)\<leftarrow>take k ps. after / before)"
    using series_index_excludes_capital [OF s b(3,1,2) ext] by (auto simp: step g st)
  have "0 < length (sr_points s)" using t by (cases "sr_points s") auto
  then show ?thesis using s t i [of 0] by auto
qed

text \<open>
  The price of a point is never a later one: before now it is the close of a candle that had closed by
  then, and with the candles in order of their closing no other had closed more recently; now it is the
  newest candle's.
\<close>

theorem price_at_never_later:
  assumes "price_at E candles at_ms is_now = Some price"
  shows "\<exists>c \<in> set candles. de_parse E (rk_close_price c) = Some price \<and>
    (if is_now then c = last candles
     else rk_close_time_ms c \<le> at_ms \<and>
       (sorted (map rk_close_time_ms candles) \<longrightarrow>
         (\<forall>d \<in> set candles. rk_close_time_ms d \<le> at_ms \<longrightarrow> rk_close_time_ms d \<le> rk_close_time_ms c)))"
proof (cases is_now)
  case True
  then show ?thesis using assms by (auto simp: price_at_def split: if_splits)
next
  case False
  then obtain c where c: "find (\<lambda>c. rk_close_time_ms c \<le> at_ms) (rev candles) = Some c"
      "de_parse E (rk_close_price c) = Some price"
    using assms by (auto simp: price_at_def Option.bind_eq_Some_conv)
  then obtain i where i: "i < length candles" "rev candles ! i = c" "rk_close_time_ms c \<le> at_ms"
      "\<And>j. j < i \<Longrightarrow> \<not> rk_close_time_ms (rev candles ! j) \<le> at_ms"
    by (auto simp: find_Some_iff)
  have "rk_close_time_ms d \<le> rk_close_time_ms c"
    if sorted: "sorted (map rk_close_time_ms candles)" and d: "d \<in> set candles" "rk_close_time_ms d \<le> at_ms" for d
  proof -
    obtain j where j: "j < length candles" "d = rev candles ! j" using d(1) by (metis in_set_conv_nth length_rev set_rev)
    then have "i \<le> j" using i(4) d(2) not_less by blast
    then show ?thesis
      using sorted_nth_mono [OF sorted, of "length candles - Suc j" "length candles - Suc i"] i(1,2) j
      by (simp add: rev_nth)
  qed
  moreover have "c \<in> set candles" using i(1,2) by (metis length_rev nth_mem set_rev)
  ultimately show ?thesis using False c(2) i(3) by auto
qed

theorem price_at_never_later_witness:
  "\<exists>c :: raw_candle. de_parse sample_dec (rk_close_price c) = Some 5 \<and> rk_close_time_ms c \<le> 119999"
proof -
  have "price_at sample_dec [\<lparr>rk_open_time_ms = 0, rk_close_price = ''5'', rk_close_time_ms = 59999\<rparr>,
      \<lparr>rk_open_time_ms = 60000, rk_close_price = ''10'', rk_close_time_ms = 120000\<rparr>] 119999 False = Some 5"
    by (simp add: price_at_def sample_dec_def)
  from price_at_never_later [OF this] show ?thesis by (simp only: if_False) blast
qed

text \<open>
  Every chart is drawn at a candle size the exchanges offer, with a readable number of steps: the size
  has a Binance label, the fixed windows have at most 1825 steps of it, and the full range has at most 400,
  unless even whole days make more; no finer size would have kept it there.
\<close>

theorem step_for_supported_and_readable:
  "(\<exists>l. interval_label (step_for r n) = Inr l) \<and>
   (case window_ms r of
      Some w \<Rightarrow> w div step_for r n \<le> 1825
    | None \<Rightarrow> (n div step_for r n \<le> 400 \<or> step_for r n = DAY_MS) \<and>
        (\<forall>finer \<in> set SERIES_STEPS_MS. finer < step_for r n \<longrightarrow> 400 < n div finer))"
proof (cases r)
  case MaxRange
  have "(n div step_for r n \<le> 400 \<or> step_for r n = DAY_MS) \<and>
      (\<forall>finer \<in> set SERIES_STEPS_MS. finer < step_for r n \<longrightarrow> 400 < n div finer)"
    by (simp add: MaxRange SERIES_STEPS_MS_def DAY_MS_def)
  then show ?thesis using step_for_supported [of r n] by (simp only: interval_label_total) (simp add: MaxRange)
qed (simp_all add: interval_label_total SERIES_STEPS_MS_def DAY_MS_def)

theorem step_for_supported_and_readable_witness:
  "step_for MaxRange 259200000 = 900000 \<and> 400 < (259200000 :: nat) div 300000"
proof -
  have s: "step_for MaxRange 259200000 = 900000" by (simp add: SERIES_STEPS_MS_def)
  then show ?thesis
    using step_for_supported_and_readable [of MaxRange 259200000] by (simp add: SERIES_STEPS_MS_def)
qed

end
