(* ===== verification/JsonValue.thy ===== *)
theory JsonValue
  imports Prelude
begin

text \<open>
  \<open>serde_json::Value\<close> and the accessors the code reads it with. A number with a fraction or an exponent is
  kept as its text: the code converts it no other way.
\<close>

section \<open>JSON values\<close>

datatype jvalue = VNull | VBool bool | VInt int | VFloat string | VStr string | VArr "jvalue list"
  | VObj "(string \<times> jvalue) list"

fun jget :: "string \<Rightarrow> jvalue \<Rightarrow> jvalue option" where
  "jget k (VObj kvs) = map_of kvs k"
| "jget k _ = None"

text \<open>\<open>value[key]\<close> is null where there is nothing.\<close>

definition jat :: "string \<Rightarrow> jvalue \<Rightarrow> jvalue" where
  "jat k v = (case jget k v of None \<Rightarrow> VNull | Some x \<Rightarrow> x)"

fun as_str :: "jvalue \<Rightarrow> string option" where
  "as_str (VStr s) = Some s"
| "as_str _ = None"

fun as_array :: "jvalue \<Rightarrow> jvalue list option" where
  "as_array (VArr xs) = Some xs"
| "as_array _ = None"

fun as_u64 :: "jvalue \<Rightarrow> nat option" where
  "as_u64 (VInt n) = (if 0 \<le> n \<and> n < 2 ^ 64 then Some (nat n) else None)"
| "as_u64 _ = None"

fun as_i64 :: "jvalue \<Rightarrow> int option" where
  "as_i64 (VInt n) = (if in_i64 n then Some n else None)"
| "as_i64 _ = None"

fun as_bool :: "jvalue \<Rightarrow> bool option" where
  "as_bool (VBool b) = Some b"
| "as_bool _ = None"

text \<open>\<open>as_array().into_iter().flatten()\<close> and \<open>as_array().cloned().unwrap_or_default()\<close>.\<close>

definition rows_of :: "jvalue \<Rightarrow> jvalue list" where
  "rows_of v = (case as_array v of None \<Rightarrow> [] | Some xs \<Rightarrow> xs)"

end
