(* ===== verification/LiveClient.thy ===== *)
theory LiveClient
  imports JsonValue Market Connection Trades Flows Catalog "HOL-Library.Countable"
begin

text \<open>
  services/collector/binance/live-client: the credentialed HTTP client (lib.rs) and what it reads of
  Simple Earn (earn.rs). Sending a request and decoding its body is the parameter \<open>http\<close>, from the URL to
  a JSON value or an error; HMAC-SHA-256, \<open>hex\<close>, the derived decoder of \<open>ApiRestrictions\<close>, the calendar
  of \<open>chrono\<close> and the text of a JSON value are parameters as well. One reading of the clock stands for the
  timestamps of one operation: they only enter the signed query.
\<close>

section \<open>earn.rs\<close>

definition PAGE_SIZE :: nat where "PAGE_SIZE = 100"
definition REWARDS_WINDOW_MS :: nat where "REWARDS_WINDOW_MS = 30 * 24 * 60 * 60 * 1000"

datatype earn_kind = Flexible | Locked

record earn_position =
  ep_kind :: earn_kind
  ep_asset :: string
  ep_amount :: string

record 'a earn_page =
  pg_rows :: "'a list"
  pg_total :: nat

definition row_text :: "jvalue \<Rightarrow> string \<Rightarrow> string option" where
  "row_text row k = Option.bind (jget k row) as_str"

definition readable :: "(string \<Rightarrow> decimal option) \<Rightarrow> string option \<Rightarrow> string option" where
  "readable parse t = Option.bind t (\<lambda>a. if parse a \<noteq> None then Some a else None)"

definition earn_rows :: "jvalue \<Rightarrow> string + jvalue list" where
  "earn_rows body = ok_or ''no rows in the answer'' (Option.bind (jget ''rows'' body) as_array)"

definition earn_total :: "jvalue \<Rightarrow> jvalue list \<Rightarrow> nat" where
  "earn_total body rows = (case Option.bind (jget ''total'' body) as_u64 of None \<Rightarrow> length rows | Some n \<Rightarrow> n)"

definition parse_position :: "(string \<Rightarrow> decimal option) \<Rightarrow> earn_kind \<Rightarrow> jvalue \<Rightarrow> string + earn_position" where
  "parse_position parse kind row =
     (let field = (case kind of Flexible \<Rightarrow> ''totalAmount'' | Locked \<Rightarrow> ''amount'') in
      and_then (ok_or ''a position has no asset'' (row_text row ''asset'')) (\<lambda>asset.
      and_then (ok_or (''a '' @ asset @ '' position has no readable amount'') (readable parse (row_text row field))) (\<lambda>amount.
        Inr \<lparr>ep_kind = kind, ep_asset = asset, ep_amount = amount\<rparr>)))"

definition parse_positions ::
    "(string \<Rightarrow> decimal option) \<Rightarrow> earn_kind \<Rightarrow> jvalue \<Rightarrow> string + earn_position earn_page" where
  "parse_positions parse kind body =
     and_then (earn_rows body) (\<lambda>rows.
     and_then (collect_res (parse_position parse kind) rows) (\<lambda>ps.
       Inr \<lparr>pg_rows = ps, pg_total = earn_total body rows\<rparr>))"

definition or_empty :: "string option \<Rightarrow> string" where
  "or_empty t = (case t of None \<Rightarrow> [] | Some s \<Rightarrow> s)"

text \<open>A reward of zero is skipped: the inner option.\<close>

definition parse_reward ::
    "(string \<Rightarrow> decimal option) \<Rightarrow> (jvalue \<Rightarrow> string) \<Rightarrow> earn_kind \<Rightarrow> jvalue \<Rightarrow> string + normalized_flow option" where
  "parse_reward parse vtext kind row =
     and_then (ok_or ''a reward has no asset'' (row_text row ''asset'')) (\<lambda>asset.
     and_then (ok_or ''a reward has no time'' (Option.bind (jget ''time'' row) as_u64)) (\<lambda>t.
     let (amount, ident, label) = (case kind of
           Flexible \<Rightarrow>
             let reward_type = or_empty (row_text row ''type''); project = or_empty (row_text row ''projectId'')
             in (row_text row ''rewards'',
                 ''earn:flexible:'' @ reward_type @ '':'' @ project @ '':'' @ asset @ '':'' @ show_nat t,
                 ''Simple Earn flexible '' @ reward_type)
         | Locked \<Rightarrow>
             let position = (case jget ''positionId'' row of None \<Rightarrow> [] | Some p \<Rightarrow> vtext p)
             in (row_text row ''amount'', ''earn:locked:'' @ position @ '':'' @ asset @ '':'' @ show_nat t,
                 ''Simple Earn locked reward''))
     in and_then (ok_or (''a '' @ asset @ '' reward has no readable amount'') (readable parse amount)) (\<lambda>amount.
        Inr (if parse amount = Some 0 then None
          else Some \<lparr>nf_source_namespace = Dividend, nf_source_id = ident, nf_economic_time_ms = t, nf_kind = label,
            nf_legs = [credit asset amount], nf_fee = None\<rparr>))))"

definition parse_rewards ::
    "(string \<Rightarrow> decimal option) \<Rightarrow> (jvalue \<Rightarrow> string) \<Rightarrow> earn_kind \<Rightarrow> jvalue \<Rightarrow> string + normalized_flow earn_page" where
  "parse_rewards parse vtext kind body =
     and_then (earn_rows body) (\<lambda>rows.
     and_then (collect_res (parse_reward parse vtext kind) rows) (\<lambda>fs.
       Inr \<lparr>pg_rows = List.map_filter id fs, pg_total = earn_total body rows\<rparr>))"

type_synonym earn_balances = "(string, decimal \<times> decimal) btree"

definition add_to :: "arith \<Rightarrow> earn_balances \<Rightarrow> string \<Rightarrow> decimal \<Rightarrow> decimal \<Rightarrow> earn_balances option" where
  "add_to A m asset free locked =
     (let (f, l) = (case map_of m asset of None \<Rightarrow> (0, 0) | Some e \<Rightarrow> e) in
      Option.bind (dadd A f free) (\<lambda>f'. Option.bind (dadd A l locked) (\<lambda>l'. Some (bt_insert asset (f', l') m))))"

definition is_earn_token :: "earn_position list \<Rightarrow> string \<Rightarrow> bool" where
  "is_earn_token positions asset \<longleftrightarrow>
     take 2 asset = ''LD'' \<and> List.drop 2 asset \<in> ep_asset ` set positions"

fun spot_loop ::
    "dec_env \<Rightarrow> earn_position list \<Rightarrow> earn_balances \<Rightarrow> account_balance list \<Rightarrow> (string + earn_balances) option" where
  "spot_loop E positions m [] = Some (Inr m)"
| "spot_loop E positions m (b # bs) =
     (if is_earn_token positions (ab_asset b) then spot_loop E positions m bs
      else
        and_thenp (Some (ok_or (ab_asset b @ '' balance is not a number'') (de_parse E (ab_free b)))) (\<lambda>free.
        and_thenp (Some (ok_or (ab_asset b @ '' balance is not a number'') (de_parse E (ab_locked b)))) (\<lambda>locked.
        Option.bind (add_to (de_arith E) m (ab_asset b) free locked) (\<lambda>m'. spot_loop E positions m' bs))))"

fun position_loop :: "dec_env \<Rightarrow> earn_balances \<Rightarrow> earn_position list \<Rightarrow> (string + earn_balances) option" where
  "position_loop E m [] = Some (Inr m)"
| "position_loop E m (p # ps) =
     and_thenp (Some (ok_or (ep_asset p @ '' position is not a number'') (de_parse E (ep_amount p)))) (\<lambda>amount.
     Option.bind (add_to (de_arith E) m (ep_asset p) 0 amount) (\<lambda>m'. position_loop E m' ps))"

definition with_earn ::
    "dec_env \<Rightarrow> account_balance list \<Rightarrow> earn_position list \<Rightarrow> (string + account_balance list) option" where
  "with_earn E spot positions =
     and_thenp (spot_loop E positions [] spot) (\<lambda>m.
     and_thenp (position_loop E m positions) (\<lambda>m'.
       Some (Inr (map (\<lambda>(asset, free, locked).
         \<lparr>ab_asset = asset, ab_free = de_show E free, ab_locked = de_show E locked\<rparr>) m'))))"

section \<open>lib.rs\<close>

datatype live_error =
    Http string
  | Decode string
  | NotReadOnly restrictions_error
  | Signing signing_error
  | ReadOnlyNotConfirmed
  | ApiError int string
  | EarnE string
  | FlowE flow_error

record live_env =
  lv_http :: "string \<Rightarrow> live_error + jvalue"
  lv_hmac :: "bytes \<Rightarrow> bytes \<Rightarrow> bytes"
  lv_hex :: "bytes \<Rightarrow> string"
  lv_decode :: "jvalue \<Rightarrow> string + api_restrictions"
  lv_datetime :: "string \<Rightarrow> int option"
  lv_vtext :: "jvalue \<Rightarrow> string"
  lv_timestamp_ms :: nat

record live_state =
  lv_api_secret :: string
  lv_environment :: environment
  lv_read_only_confirmed :: bool

definition new_client :: "string \<Rightarrow> environment \<Rightarrow> live_state" where
  "new_client secret env = \<lparr>lv_api_secret = secret, lv_environment = env, lv_read_only_confirmed = False\<rparr>"

fun join_params :: "(string \<times> string) list \<Rightarrow> string" where
  "join_params [] = []"
| "join_params [(k, v)] = k @ ''='' @ v"
| "join_params ((k, v) # ps) = k @ ''='' @ v @ ''&'' @ join_params ps"

definition send :: "live_env \<Rightarrow> string \<Rightarrow> live_error + jvalue" where
  "send V url =
     and_then (lv_http V url) (\<lambda>body.
       case Option.bind (jget ''code'' body) as_i64 of
         None \<Rightarrow> Inr body
       | Some code \<Rightarrow>
           (case jget ''msg'' body of
              None \<Rightarrow> Inr body
            | Some m \<Rightarrow> Inl (ApiError code (or_empty (as_str m)))))"

definition restrictions_path :: string where
  "restrictions_path = ''/sapi/v1/account/apiRestrictions''"

definition signed_get :: "live_env \<Rightarrow> live_state \<Rightarrow> string \<Rightarrow> (string \<times> string) list \<Rightarrow> live_error + jvalue" where
  "signed_get V c path params =
     (if \<not> lv_read_only_confirmed c \<and> path \<noteq> restrictions_path then Inl ReadOnlyNotConfirmed
      else
        let base = join_params params;
            query = (if base = [] then base else base @ ''&'') @ ''timestamp='' @ show_nat (lv_timestamp_ms V)
        in and_then (map_err Signing (sign_request (lv_hmac V) (lv_hex V) (lv_api_secret c) path query)) (\<lambda>signature.
             send V (host_for (lv_environment c) @ path @ ''?'' @ query @ ''&signature='' @ signature)))"

definition public_get :: "live_env \<Rightarrow> live_state \<Rightarrow> string \<Rightarrow> (string \<times> string) list \<Rightarrow> live_error + jvalue" where
  "public_get V c path params =
     (if \<not> lv_read_only_confirmed c then Inl ReadOnlyNotConfirmed
      else if path \<notin> set ALLOWED_PATHS then Inl (Signing (PathNotAllowed path))
      else
        let query = join_params params
        in send V (host_for (lv_environment c) @ path @ (if query = [] then [] else ''?'' @ query)))"

definition ensure_read_only :: "live_env \<Rightarrow> live_state \<Rightarrow> live_state \<times> (live_error + api_restrictions)" where
  "ensure_read_only V c =
     (case and_then (signed_get V c restrictions_path []) (\<lambda>body.
           and_then (map_err Decode (lv_decode V body)) (\<lambda>r.
           and_then (map_err NotReadOnly (validate_read_only r)) (\<lambda>_. Inr r))) of
        Inl e \<Rightarrow> (c, Inl e)
      | Inr r \<Rightarrow> (c\<lparr>lv_read_only_confirmed := True\<rparr>, Inr r))"

definition fetch_exchange_info :: "live_env \<Rightarrow> live_state \<Rightarrow> live_error + catalog_snapshot" where
  "fetch_exchange_info V c =
     and_then (public_get V c ''/api/v3/exchangeInfo'' []) (\<lambda>body.
       Inr \<lparr>cs_captured_at_ms = lv_timestamp_ms V,
         cs_symbols = sorted_list_of_set
           (set (List.map_filter (\<lambda>s. as_str (jat ''symbol'' s)) (rows_of (jat ''symbols'' body))))\<rparr>)"

definition symbol_entry :: "jvalue \<Rightarrow> (string \<times> string \<times> string) option" where
  "symbol_entry s =
     Option.bind (as_str (jat ''symbol'' s)) (\<lambda>symbol.
     Option.bind (as_str (jat ''baseAsset'' s)) (\<lambda>base.
     Option.bind (as_str (jat ''quoteAsset'' s)) (\<lambda>quote. Some (symbol, base, quote))))"

definition fetch_symbol_assets :: "live_env \<Rightarrow> live_state \<Rightarrow> live_error + symbol_assets" where
  "fetch_symbol_assets V c =
     and_then (public_get V c ''/api/v3/exchangeInfo'' []) (\<lambda>body.
       Inr (foldl (\<lambda>m (s, a). m(s \<mapsto> a)) Map.empty
         (List.map_filter symbol_entry (rows_of (jat ''symbols'' body)))))"

definition lookup_symbol :: "live_env \<Rightarrow> live_state \<Rightarrow> string \<Rightarrow> live_error + (string \<times> string \<times> string) option" where
  "lookup_symbol V c symbol =
     (case public_get V c ''/api/v3/exchangeInfo'' [(''symbol'', symbol)] of
        Inr body \<Rightarrow> Inr (case rows_of (jat ''symbols'' body) of [] \<Rightarrow> None | entry # _ \<Rightarrow> symbol_entry entry)
      | Inl (ApiError code msg) \<Rightarrow> if code = - 1121 then Inr None else Inl (ApiError code msg)
      | Inl e \<Rightarrow> Inl e)"

definition live_symbol_assets_for :: "live_env \<Rightarrow> live_state \<Rightarrow> string set \<Rightarrow> live_error + symbol_assets" where
  "live_symbol_assets_for V c symbols =
     and_then (collect_res id (parallel_map (lookup_symbol V c) (sorted_list_of_set symbols))) (\<lambda>found.
       Inr (foldl (\<lambda>m (s, a). m(s \<mapsto> a)) Map.empty (List.map_filter id found)))"

definition parse_trade :: "jvalue \<Rightarrow> trade option" where
  "parse_trade t =
     Option.bind (as_str (jat ''symbol'' t)) (\<lambda>symbol.
     Option.bind (as_u64 (jat ''id'' t)) (\<lambda>i.
     Option.bind (as_u64 (jat ''orderId'' t)) (\<lambda>order_id.
     Option.bind (as_str (jat ''price'' t)) (\<lambda>price.
     Option.bind (as_str (jat ''qty'' t)) (\<lambda>qty.
     Option.bind (as_str (jat ''commission'' t)) (\<lambda>commission.
     Option.bind (as_str (jat ''commissionAsset'' t)) (\<lambda>commission_asset.
     Option.bind (as_u64 (jat ''time'' t)) (\<lambda>time_ms.
     Option.bind (as_bool (jat ''isBuyer'' t)) (\<lambda>is_buyer.
       Some \<lparr>tr_symbol = symbol, tr_id = i, tr_order_id = order_id, tr_price = price, tr_qty = qty,
         tr_commission = commission, tr_commission_asset = commission_asset, tr_time_ms = time_ms,
         tr_is_buyer = is_buyer\<rparr>)))))))))"

definition fetch_my_trades :: "live_env \<Rightarrow> live_state \<Rightarrow> string \<Rightarrow> live_error + trade list" where
  "fetch_my_trades V c symbol =
     and_then (signed_get V c ''/api/v3/myTrades'' [(''symbol'', symbol), (''limit'', ''1000'')]) (\<lambda>body.
       Inr (List.map_filter parse_trade (rows_of body)))"

definition parse_deposit :: "jvalue \<Rightarrow> raw_deposit option" where
  "parse_deposit d =
     Option.bind (as_str (jat ''txId'' d)) (\<lambda>tx_id.
     Option.bind (as_str (jat ''coin'' d)) (\<lambda>asset.
     Option.bind (as_str (jat ''amount'' d)) (\<lambda>amount.
     Option.bind (as_u64 (jat ''status'' d)) (\<lambda>status.
     Option.bind (as_u64 (jat ''insertTime'' d)) (\<lambda>t.
       Some \<lparr>rd_tx_id = tx_id, rd_asset = asset, rd_amount = amount, rd_status = wrap_u 32 status,
         rd_insert_time_ms = t\<rparr>)))))"

definition fetch_deposits :: "live_env \<Rightarrow> live_state \<Rightarrow> live_error + normalized_flow list" where
  "fetch_deposits V c =
     and_then (signed_get V c ''/sapi/v1/capital/deposit/hisrec'' []) (\<lambda>body.
       collect_res (\<lambda>d. map_err FlowE (normalize_deposit d)) (List.map_filter parse_deposit (rows_of body)))"

definition parse_binance_datetime :: "live_env \<Rightarrow> string \<Rightarrow> nat option" where
  "parse_binance_datetime V s = Option.bind (lv_datetime V s) (\<lambda>ms. if 0 \<le> ms then Some (nat ms) else None)"

definition parse_withdrawal :: "live_env \<Rightarrow> jvalue \<Rightarrow> raw_withdrawal option" where
  "parse_withdrawal V w =
     Option.bind (as_str (jat ''id'' w)) (\<lambda>i.
     Option.bind (as_str (jat ''coin'' w)) (\<lambda>asset.
     Option.bind (as_str (jat ''amount'' w)) (\<lambda>amount.
     Option.bind (as_str (jat ''transactionFee'' w)) (\<lambda>fee.
     Option.bind (as_u64 (jat ''status'' w)) (\<lambda>status.
     Option.bind (as_str (jat ''applyTime'' w)) (\<lambda>apply_time.
     Option.bind (parse_binance_datetime V apply_time) (\<lambda>t.
       Some \<lparr>rw_id = i, rw_asset = asset, rw_amount = amount, rw_transaction_fee = fee,
         rw_status = wrap_u 32 status, rw_apply_time_ms = t\<rparr>)))))))"

definition fetch_withdrawals :: "live_env \<Rightarrow> live_state \<Rightarrow> live_error + normalized_flow list" where
  "fetch_withdrawals V c =
     and_then (signed_get V c ''/sapi/v1/capital/withdraw/history'' []) (\<lambda>body.
       collect_res (\<lambda>w. map_err FlowE (normalize_withdrawal w)) (List.map_filter (parse_withdrawal V) (rows_of body)))"

definition parse_balance :: "jvalue \<Rightarrow> account_balance option" where
  "parse_balance b =
     Option.bind (as_str (jat ''asset'' b)) (\<lambda>asset.
     Option.bind (as_str (jat ''free'' b)) (\<lambda>free.
     Option.bind (as_str (jat ''locked'' b)) (\<lambda>locked.
       Some \<lparr>ab_asset = asset, ab_free = free, ab_locked = locked\<rparr>)))"

definition fetch_account_balances :: "live_env \<Rightarrow> live_state \<Rightarrow> live_error + account_balance list" where
  "fetch_account_balances V c =
     and_then (signed_get V c ''/api/v3/account'' []) (\<lambda>body.
       Inr (List.map_filter parse_balance (rows_of (jat ''balances'' body))))"

text \<open>
  The loop over the pages of a listing: \<open>page\<close> answers a page number. It ends with a page that parsed to no
  rows, or with as many rows as there are in all; otherwise it goes on, \<open>None\<close> where it never ends.
\<close>

partial_function (option) pages_from ::
    "(nat \<Rightarrow> live_error + 'a earn_page) \<Rightarrow> nat \<Rightarrow> 'a list \<Rightarrow> (live_error + 'a list) option" where
  "pages_from page current rows =
     (case page current of
        Inl e \<Rightarrow> Some (Inl e)
      | Inr p \<Rightarrow>
          let rows' = rows @ pg_rows p in
          if pg_rows p = [] \<or> length rows' \<ge> pg_total p then Some (Inr rows')
          else pages_from page (current + 1) rows')"

definition earn_page_at ::
    "live_env \<Rightarrow> live_state \<Rightarrow> string \<Rightarrow> (string \<times> string) list \<Rightarrow> (jvalue \<Rightarrow> string + 'a earn_page) \<Rightarrow> nat \<Rightarrow>
      live_error + 'a earn_page" where
  "earn_page_at V c path extra parse current =
     and_then (signed_get V c path (extra @ [(''current'', show_nat current), (''size'', show_nat PAGE_SIZE)])) (\<lambda>body.
       map_err (\<lambda>reason. EarnE (path @ '': '' @ reason)) (parse body))"

definition earn_pages ::
    "live_env \<Rightarrow> live_state \<Rightarrow> string \<Rightarrow> (string \<times> string) list \<Rightarrow> (jvalue \<Rightarrow> string + 'a earn_page) \<Rightarrow>
      (live_error + 'a list) option" where
  "earn_pages V c path extra parse = pages_from (earn_page_at V c path extra parse) 1 []"

definition fetch_earn_positions :: "dec_env \<Rightarrow> live_env \<Rightarrow> live_state \<Rightarrow> (live_error + earn_position list) option" where
  "fetch_earn_positions E V c =
     and_thenp (earn_pages V c ''/sapi/v1/simple-earn/flexible/position'' [] (parse_positions (de_parse E) Flexible)) (\<lambda>flexible.
     and_thenp (earn_pages V c ''/sapi/v1/simple-earn/locked/position'' [] (parse_positions (de_parse E) Locked)) (\<lambda>locked.
       Some (Inr (flexible @ locked))))"

definition fetch_balances_with_earn :: "dec_env \<Rightarrow> live_env \<Rightarrow> live_state \<Rightarrow> (live_error + account_balance list) option" where
  "fetch_balances_with_earn E V c =
     and_thenp (Some (fetch_account_balances V c)) (\<lambda>spot.
     and_thenp (fetch_earn_positions E V c) (\<lambda>positions.
       map_option (map_err EarnE) (with_earn E spot positions)))"

fun reward_types :: "dec_env \<Rightarrow> live_env \<Rightarrow> live_state \<Rightarrow> (string \<times> string) list \<Rightarrow> normalized_flow list \<Rightarrow> string list \<Rightarrow>
    (live_error + normalized_flow list) option" where
  "reward_types E V c window flows [] = Some (Inr flows)"
| "reward_types E V c window flows (t # ts) =
     and_thenp (earn_pages V c ''/sapi/v1/simple-earn/flexible/history/rewardsRecord'' (window @ [(''type'', t)])
        (parse_rewards (de_parse E) (lv_vtext V) Flexible)) (\<lambda>fs.
       reward_types E V c window (flows @ fs) ts)"

definition window_rewards :: "dec_env \<Rightarrow> live_env \<Rightarrow> live_state \<Rightarrow> nat \<Rightarrow> nat \<Rightarrow> (live_error + normalized_flow list) option" where
  "window_rewards E V c from until =
     (let window = [(''startTime'', show_nat from), (''endTime'', show_nat until)] in
      and_thenp (reward_types E V c window [] [''BONUS'', ''REALTIME'', ''REWARDS'']) (\<lambda>flexible.
      and_thenp (earn_pages V c ''/sapi/v1/simple-earn/locked/history/rewardsRecord'' window
          (parse_rewards (de_parse E) (lv_vtext V) Locked)) (\<lambda>locked. Some (Inr (flexible @ locked)))))"

partial_function (option) rewards_from ::
    "(nat \<Rightarrow> nat \<Rightarrow> (live_error + normalized_flow list) option) \<Rightarrow> nat \<Rightarrow> normalized_flow list \<Rightarrow> nat \<Rightarrow>
      (live_error + normalized_flow list) option" where
  "rewards_from window end_ms flows from =
     (if from < end_ms
      then
        let until = min (wrap_u64 (from + REWARDS_WINDOW_MS)) end_ms in
        Option.bind (window from until) (\<lambda>r. case r of
            Inl e \<Rightarrow> Some (Inl e)
          | Inr fs \<Rightarrow> rewards_from window end_ms (flows @ fs) until)
      else Some (Inr flows))"

definition fetch_earn_rewards ::
    "dec_env \<Rightarrow> live_env \<Rightarrow> live_state \<Rightarrow> nat \<Rightarrow> nat \<Rightarrow> (live_error + normalized_flow list) option" where
  "fetch_earn_rewards E V c start_ms end_ms = rewards_from (window_rewards E V c) end_ms [] start_ms"

definition parse_kline :: "jvalue \<Rightarrow> raw_candle option" where
  "parse_kline entry =
     Option.bind (as_array entry) (\<lambda>e.
     Option.bind (if e = [] then None else as_u64 (e ! 0)) (\<lambda>open_ms.
     Option.bind (if length e \<le> 4 then None else as_str (e ! 4)) (\<lambda>close.
     Option.bind (if length e \<le> 6 then None else as_u64 (e ! 6)) (\<lambda>close_ms.
       Some \<lparr>rk_open_time_ms = open_ms, rk_close_price = close, rk_close_time_ms = close_ms\<rparr>))))"

definition fetch_klines_in_range ::
    "live_env \<Rightarrow> live_state \<Rightarrow> string \<Rightarrow> string \<Rightarrow> nat \<Rightarrow> nat option \<Rightarrow> nat option \<Rightarrow> live_error + raw_candle list" where
  "fetch_klines_in_range V c symbol interval limit start_time_ms end_time_ms =
     and_then (public_get V c ''/api/v3/klines''
        ([(''symbol'', symbol), (''interval'', interval), (''limit'', show_nat limit)] @
         (case start_time_ms of None \<Rightarrow> [] | Some s \<Rightarrow> [(''startTime'', show_nat s)]) @
         (case end_time_ms of None \<Rightarrow> [] | Some e \<Rightarrow> [(''endTime'', show_nat e)]))) (\<lambda>body.
       Inr (List.map_filter parse_kline (rows_of body)))"

text \<open>The paging loop: \<open>page\<close> answers the candles from an instant to another.\<close>

partial_function (option) klines_from ::
    "(nat \<Rightarrow> nat \<Rightarrow> live_error + raw_candle list) \<Rightarrow> nat \<Rightarrow> raw_candle list \<Rightarrow> nat \<Rightarrow> (live_error + raw_candle list) option" where
  "klines_from page end_ms acc next_start =
     (if next_start \<le> end_ms
      then (case page next_start end_ms of
          Inl e \<Rightarrow> Some (Inl e)
        | Inr candles \<Rightarrow>
            if candles = [] then Some (Inr acc)
            else if length candles \<ge> 1000
              then klines_from page end_ms (acc @ candles) (wrap_u64 (rk_close_time_ms (last candles) + 1))
              else Some (Inr (acc @ candles)))
      else Some (Inr acc))"

definition fetch_klines_span ::
    "live_env \<Rightarrow> live_state \<Rightarrow> string \<Rightarrow> string \<Rightarrow> nat \<Rightarrow> nat \<Rightarrow> (live_error + raw_candle list) option" where
  "fetch_klines_span V c symbol interval start_time_ms end_time_ms =
     klines_from (\<lambda>s e. fetch_klines_in_range V c symbol interval 1000 (Some s) (Some e)) end_time_ms [] start_time_ms"

definition fetch_klines :: "live_env \<Rightarrow> live_state \<Rightarrow> string \<Rightarrow> string \<Rightarrow> nat \<Rightarrow> live_error + raw_candle list" where
  "fetch_klines V c symbol interval limit = fetch_klines_in_range V c symbol interval limit None None"

section \<open>Candles, page after page\<close>

text \<open>
  A server's candles, none overlapping the next, and a server that answers the first thousand of those that
  open in the window asked for.
\<close>

definition candle_series :: "raw_candle list \<Rightarrow> bool" where
  "candle_series S \<longleftrightarrow> sorted_wrt (\<lambda>a b. rk_close_time_ms a < rk_open_time_ms b) S \<and>
     list_all (\<lambda>c. rk_open_time_ms c \<le> rk_close_time_ms c \<and> rk_close_time_ms c + 1 < 2 ^ 64) S"

definition opening_in :: "nat \<Rightarrow> nat \<Rightarrow> raw_candle list \<Rightarrow> raw_candle list" where
  "opening_in s e S = filter (\<lambda>c. s \<le> rk_open_time_ms c \<and> rk_open_time_ms c \<le> e) S"

lemma candle_series_filter: "candle_series S \<Longrightarrow> candle_series (filter P S)"
  by (auto simp: candle_series_def list_all_iff sorted_wrt_filter)

lemma opening_after:
  assumes "candle_series (xs @ c # ys)"
  shows "filter (\<lambda>d. rk_close_time_ms c + 1 \<le> rk_open_time_ms d) (xs @ c # ys) = ys"
proof -
  have "rk_open_time_ms d \<le> rk_close_time_ms c" if "d \<in> set xs" for d
  proof -
    have "rk_close_time_ms d < rk_open_time_ms c" "rk_open_time_ms d \<le> rk_close_time_ms d"
        "rk_open_time_ms c \<le> rk_close_time_ms c"
      using assms that by (simp_all add: candle_series_def sorted_wrt_append list_all_iff)
    then show ?thesis by linarith
  qed
  then have "filter (\<lambda>d. rk_close_time_ms c + 1 \<le> rk_open_time_ms d) xs = []"
    by (fastforce simp: filter_empty_conv)
  moreover have "filter (\<lambda>d. rk_close_time_ms c + 1 \<le> rk_open_time_ms d) ys = ys"
    using assms by (fastforce simp: candle_series_def sorted_wrt_append filter_id_conv)
  moreover have "\<not> rk_close_time_ms c + 1 \<le> rk_open_time_ms c"
    using assms by (simp add: candle_series_def)
  ultimately show ?thesis by simp
qed

lemma klines_from_complete:
  assumes "candle_series S" and "\<And>s e. page s e = Inr (take 1000 (opening_in s e S))"
  shows "klines_from page e acc s = Some (Inr (acc @ opening_in s e S))"
proof (induction "length (opening_in s e S)" arbitrary: acc s rule: less_induct)
  case less
  let ?F = "opening_in s e S"
  consider "\<not> s \<le> e" | "s \<le> e" "length ?F < 1000" | "s \<le> e" "1000 \<le> length ?F" by linarith
  then show ?case
  proof cases
    case 1
    then have "?F = []" by (auto simp: opening_in_def filter_empty_conv)
    then show ?thesis using 1 by (subst klines_from.simps) simp
  next
    case 2
    then show ?thesis by (subst klines_from.simps) (simp add: assms(2))
  next
    case 3
    define c where "c = ?F ! 999"
    have split: "?F = take 999 ?F @ c # drop 1000 ?F"
      using 3(2) id_take_nth_drop [of 999 ?F] by (simp add: c_def)
    have take: "take 1000 ?F = take 999 ?F @ [c]"
      using 3(2) take_Suc_conv_app_nth [of 999 ?F] by (simp add: c_def)
    have ok: "candle_series ?F" unfolding opening_in_def by (rule candle_series_filter [OF assms(1)])
    have "c \<in> set ?F" using 3(2) by (simp add: c_def)
    then have cin: "s \<le> rk_open_time_ms c" "rk_open_time_ms c \<le> rk_close_time_ms c" "rk_close_time_ms c + 1 < 2 ^ 64"
      using ok by (auto simp: opening_in_def candle_series_def list_all_iff)
    have "opening_in (rk_close_time_ms c + 1) e S = filter (\<lambda>d. rk_close_time_ms c + 1 \<le> rk_open_time_ms d) ?F"
      using cin(1,2) by (auto simp: opening_in_def intro!: filter_cong)
    also have "\<dots> = drop 1000 ?F"
      by (subst split, rule opening_after) (use ok split in simp)
    finally have rest: "opening_in (rk_close_time_ms c + 1) e S = drop 1000 ?F" .
    have "klines_from page e acc s = klines_from page e (acc @ take 1000 ?F) (rk_close_time_ms c + 1)"
      using 3 cin(3) by (subst klines_from.simps) (simp add: assms(2) take)
    also have "\<dots> = Some (Inr ((acc @ take 1000 ?F) @ opening_in (rk_close_time_ms c + 1) e S))"
      by (rule less) (use 3(2) rest in simp)
    finally show ?thesis by (simp only: rest append_assoc append_take_drop_id)
  qed
qed

section \<open>Listings, page after page\<close>

lemma pages_from_complete:
  assumes "\<And>n. 0 < n \<Longrightarrow> page n = Inr \<lparr>pg_rows = take PAGE_SIZE (drop (PAGE_SIZE * (n - 1)) R), pg_total = length R\<rparr>"
    and "0 < n" and "PAGE_SIZE * (n - 1) \<le> length R"
  shows "pages_from page n (take (PAGE_SIZE * (n - 1)) R) = Some (Inr R)"
  using assms(2,3)
proof (induction "length R - PAGE_SIZE * (n - 1)" arbitrary: n rule: less_induct)
  case less
  let ?k = "PAGE_SIZE * (n - 1)"
  have rows: "take ?k R @ take PAGE_SIZE (drop ?k R) = take (PAGE_SIZE * n) R"
    using less.prems(1) take_add [of ?k PAGE_SIZE R] by (cases n) (simp_all add: add.commute)
  show ?case
  proof (cases "length R \<le> PAGE_SIZE * n")
    case True
    then show ?thesis using rows by (subst pages_from.simps) (simp add: assms(1) less.prems(1))
  next
    case False
    then have more: "drop ?k R \<noteq> []" using less.prems(1) by (cases n) (auto simp: PAGE_SIZE_def)
    have "pages_from page n (take ?k R) = pages_from page (n + 1) (take (PAGE_SIZE * (n + 1 - 1)) R)"
      using False more rows by (subst pages_from.simps) (simp add: assms(1) less.prems(1) PAGE_SIZE_def)
    also have "\<dots> = Some (Inr R)"
      by (rule less.hyps) (use False less.prems in \<open>auto simp: PAGE_SIZE_def\<close>)
    finally show ?thesis .
  qed
qed

section \<open>Spot and Earn together\<close>

definition entry_total :: "earn_balances \<Rightarrow> string \<Rightarrow> decimal" where
  "entry_total m a = (case map_of m a of None \<Rightarrow> 0 | Some e \<Rightarrow> fst e + snd e)"

definition spot_total :: "dec_env \<Rightarrow> account_balance list \<Rightarrow> string \<Rightarrow> decimal" where
  "spot_total E bs a = (\<Sum>b\<leftarrow>filter (\<lambda>b. ab_asset b = a) bs. the (de_parse E (ab_free b)) + the (de_parse E (ab_locked b)))"

definition earn_total_of :: "dec_env \<Rightarrow> earn_position list \<Rightarrow> string \<Rightarrow> decimal" where
  "earn_total_of E ps a = (\<Sum>p\<leftarrow>filter (\<lambda>p. ep_asset p = a) ps. the (de_parse E (ep_amount p)))"

lemma add_to_exact:
  assumes "add_to exact_arith m asset f l = Some m'" and "bt_ok m"
  shows "bt_ok m' \<and> (\<forall>a. entry_total m' a = entry_total m a + (if a = asset then f + l else 0))"
  using assms by (auto simp: add_to_def Let_def entry_total_def bt_ok_insert split: option.splits prod.splits)

lemma spot_loop_exact:
  assumes "spot_loop E ps m bs = Some (Inr m')" and "de_arith E = exact_arith" and "bt_ok m"
  shows "bt_ok m' \<and> (\<forall>a. entry_total m' a = entry_total m a +
    (if is_earn_token ps a then 0 else spot_total E bs a))"
  using assms(1,3)
proof (induction bs arbitrary: m)
  case (Cons b bs)
  show ?case
  proof (cases "is_earn_token ps (ab_asset b)")
    case True
    then show ?thesis using Cons by (auto simp: spot_total_def)
  next
    case False
    then obtain f l m2 where fl: "de_parse E (ab_free b) = Some f" "de_parse E (ab_locked b) = Some l"
      and m2: "add_to exact_arith m (ab_asset b) f l = Some m2" and r: "spot_loop E ps m2 bs = Some (Inr m')"
      using Cons.prems(1) by (auto simp: and_thenp_Inr Option.bind_eq_Some_conv assms(2))
    show ?thesis
      using add_to_exact [OF m2 Cons.prems(2)] Cons.IH [OF r] False by (auto simp: spot_total_def fl)
  qed
qed (simp add: spot_total_def)

lemma position_loop_exact:
  assumes "position_loop E m ps = Some (Inr m')" and "de_arith E = exact_arith" and "bt_ok m"
  shows "bt_ok m' \<and> (\<forall>a. entry_total m' a = entry_total m a + earn_total_of E ps a)"
  using assms(1,3)
proof (induction ps arbitrary: m)
  case (Cons p ps)
  then obtain v m2 where v: "de_parse E (ep_amount p) = Some v"
    and m2: "add_to exact_arith m (ep_asset p) 0 v = Some m2" and r: "position_loop E m2 ps = Some (Inr m')"
    by (auto simp: and_thenp_Inr Option.bind_eq_Some_conv assms(2))
  show ?case using add_to_exact [OF m2 Cons.prems(2)] Cons.IH [OF r] by (auto simp: earn_total_of_def v)
qed (simp add: earn_total_of_def)

text \<open>One line per asset: what it shows for an asset is that asset's entry.\<close>

lemma shown_total:
  assumes "bt_ok m" and "\<And>d. de_parse E (de_show E d) = Some d"
  shows "spot_total E (map (\<lambda>(asset, free, locked).
      \<lparr>ab_asset = asset, ab_free = de_show E free, ab_locked = de_show E locked\<rparr>) m) a = entry_total m a"
  using assms(1)
proof (induction m)
  case (Cons x m)
  obtain k f l where x: "x = (k, f, l)" by (cases x)
  have "bt_ok m" and "k \<notin> fst ` set m" using Cons.prems by (auto simp: bt_ok_def x)
  then have new: "map_of m k = None" and IH: "spot_total E (map (\<lambda>(asset, free, locked).
      \<lparr>ab_asset = asset, ab_free = de_show E free, ab_locked = de_show E locked\<rparr>) m) a = entry_total m a"
    using Cons.IH by (simp_all add: map_of_eq_None_iff)
  show ?case using IH new by (auto simp: spot_total_def entry_total_def x assms(2))
qed (simp add: spot_total_def entry_total_def)

section \<open>Properties\<close>

text \<open>A request that is refused without a look at the network.\<close>

lemma unconfirmed_refused:
  assumes "\<not> lv_read_only_confirmed c"
  shows "public_get V c path params = Inl ReadOnlyNotConfirmed"
    and "path \<noteq> restrictions_path \<Longrightarrow> signed_get V c path params = Inl ReadOnlyNotConfirmed"
    and "path \<noteq> restrictions_path \<Longrightarrow> earn_pages V c path extra parse = Some (Inl ReadOnlyNotConfirmed)"
proof -
  show "public_get V c path params = Inl ReadOnlyNotConfirmed" using assms by (simp add: public_get_def)
  show "signed_get V c path params = Inl ReadOnlyNotConfirmed" if "path \<noteq> restrictions_path" for path params
    using assms that by (simp add: signed_get_def)
  then show "earn_pages V c path extra parse = Some (Inl ReadOnlyNotConfirmed)" if "path \<noteq> restrictions_path"
    using that unfolding earn_pages_def by (subst pages_from.simps) (simp add: earn_page_at_def)
qed

lemma unconfirmed_rewards:
  assumes "\<not> lv_read_only_confirmed c"
  shows "fetch_earn_rewards E V c start_ms end_ms = Some (if start_ms < end_ms then Inl ReadOnlyNotConfirmed else Inr [])"
  unfolding fetch_earn_rewards_def
  by (subst rewards_from.simps) (simp add: window_rewards_def unconfirmed_refused(3) [OF assms] restrictions_path_def Let_def)

lemma unconfirmed_span:
  assumes "\<not> lv_read_only_confirmed c"
  shows "fetch_klines_span V c symbol interval start_ms end_ms = Some (if start_ms \<le> end_ms then Inl ReadOnlyNotConfirmed else Inr [])"
  unfolding fetch_klines_span_def
  by (subst klines_from.simps) (simp add: fetch_klines_in_range_def unconfirmed_refused(1) [OF assms])

lemma unconfirmed_symbols:
  assumes "\<not> lv_read_only_confirmed c" and "finite symbols"
  shows "live_symbol_assets_for V c symbols = (if symbols = {} then Inr Map.empty else Inl ReadOnlyNotConfirmed)"
proof (cases "sorted_list_of_set symbols")
  case Nil
  then show ?thesis using assms(2) by (auto simp: live_symbol_assets_for_def)
next
  case (Cons x xs)
  moreover have "lookup_symbol V c x = Inl ReadOnlyNotConfirmed" by (simp add: lookup_symbol_def unconfirmed_refused(1) [OF assms(1)])
  ultimately show ?thesis by (auto simp: live_symbol_assets_for_def)
qed

lemma confirmed_only_by_validation:
  assumes "\<not> lv_read_only_confirmed c" "lv_read_only_confirmed (fst (ensure_read_only V c))"
  shows "\<exists>body r. signed_get V c restrictions_path [] = Inr body \<and> lv_decode V body = Inr r \<and>
    validate_read_only r = Inr () \<and> snd (ensure_read_only V c) = Inr r"
proof (cases "snd (ensure_read_only V c)")
  case (Inl e)
  then have "fst (ensure_read_only V c) = c" by (auto simp: ensure_read_only_def split: sum.splits)
  then show ?thesis using assms by simp
next
  case (Inr r)
  then have "and_then (signed_get V c restrictions_path []) (\<lambda>body. and_then (map_err Decode (lv_decode V body)) (\<lambda>r.
      and_then (map_err NotReadOnly (validate_read_only r)) (\<lambda>_. Inr r))) = Inr r"
    by (simp only: ensure_read_only_def) (simp split: sum.splits)
  then show ?thesis using Inr by auto
qed

text \<open>What the validation asks: one request for the restrictions of the key.\<close>

lemma ensure_asks_restrictions_only:
  assumes "\<And>query. http (host_for (lv_environment c) @ restrictions_path @ ''?'' @ query) =
    lv_http V (host_for (lv_environment c) @ restrictions_path @ ''?'' @ query)"
  shows "ensure_read_only (V\<lparr>lv_http := http\<rparr>) c = ensure_read_only V c"
proof -
  have "signed_get (V\<lparr>lv_http := http\<rparr>) c restrictions_path [] = signed_get V c restrictions_path []"
    using assms by (simp add: signed_get_def send_def Let_def)
  then show ?thesis by (simp add: ensure_read_only_def)
qed

text \<open>
  C40. Nothing is asked of the exchange before the key is known to be read-only. Until then every operation of the
  client is refused, whatever the network would answer; those that were asked for nothing (no symbol, an
  empty span or window) answer with nothing, for any network too. The validation itself depends on the network
  at the address of the restrictions of the key only, and it alone confirms: by an answer that decodes
  to restrictions that pass the read-only validation.
\<close>

theorem live_client_refuses_until_read_only:
  assumes "\<not> lv_read_only_confirmed c"
  shows "fetch_exchange_info V c = Inl ReadOnlyNotConfirmed \<and>
    fetch_symbol_assets V c = Inl ReadOnlyNotConfirmed \<and>
    live_symbol_assets_for V c (set symbols) = (if symbols = [] then Inr Map.empty else Inl ReadOnlyNotConfirmed) \<and>
    fetch_my_trades V c symbol = Inl ReadOnlyNotConfirmed \<and>
    fetch_deposits V c = Inl ReadOnlyNotConfirmed \<and>
    fetch_withdrawals V c = Inl ReadOnlyNotConfirmed \<and>
    fetch_account_balances V c = Inl ReadOnlyNotConfirmed \<and>
    fetch_earn_positions E V c = Some (Inl ReadOnlyNotConfirmed) \<and>
    fetch_balances_with_earn E V c = Some (Inl ReadOnlyNotConfirmed) \<and>
    fetch_earn_rewards E V c start_ms end_ms = Some (if start_ms < end_ms then Inl ReadOnlyNotConfirmed else Inr []) \<and>
    fetch_klines V c symbol interval limit = Inl ReadOnlyNotConfirmed \<and>
    fetch_klines_in_range V c symbol interval limit first last' = Inl ReadOnlyNotConfirmed \<and>
    fetch_klines_span V c symbol interval start_ms end_ms = Some (if start_ms \<le> end_ms then Inl ReadOnlyNotConfirmed else Inr []) \<and>
    ((\<forall>query. http (host_for (lv_environment c) @ restrictions_path @ ''?'' @ query) =
        lv_http V (host_for (lv_environment c) @ restrictions_path @ ''?'' @ query)) \<longrightarrow>
      ensure_read_only (V\<lparr>lv_http := http\<rparr>) c = ensure_read_only V c) \<and>
    (lv_read_only_confirmed (fst (ensure_read_only V c)) \<longrightarrow>
      (\<exists>body r. signed_get V c restrictions_path [] = Inr body \<and> lv_decode V body = Inr r \<and>
         validate_read_only r = Inr () \<and> snd (ensure_read_only V c) = Inr r))"
  using unconfirmed_rewards [OF assms] unconfirmed_span [OF assms] unconfirmed_symbols [OF assms]
    confirmed_only_by_validation [OF assms, of V] ensure_asks_restrictions_only [of http c V]
  by (simp add: fetch_exchange_info_def fetch_symbol_assets_def fetch_my_trades_def fetch_deposits_def fetch_withdrawals_def
    fetch_account_balances_def fetch_earn_positions_def fetch_balances_with_earn_def fetch_klines_def fetch_klines_in_range_def
    unconfirmed_refused [OF assms] restrictions_path_def)

text \<open>
  A span of candles is complete: when the exchange answers, for any window, the first thousand of its
  candles that open in it, the paging loop ends with all of them, in order and each once, however many
  pages that takes.
\<close>

theorem klines_span_complete:
  assumes "candle_series S" and "\<And>s e. page s e = Inr (take 1000 (opening_in s e S))"
  shows "klines_from page end_ms [] start_ms = Some (Inr (opening_in start_ms end_ms S)) \<and>
    (page = (\<lambda>s e. fetch_klines_in_range V c symbol interval 1000 (Some s) (Some e)) \<longrightarrow>
      fetch_klines_span V c symbol interval start_ms end_ms = Some (Inr (opening_in start_ms end_ms S)))"
  using klines_from_complete [OF assms, of end_ms "[]" start_ms] by (auto simp: fetch_klines_span_def)

definition minute :: "nat \<Rightarrow> raw_candle" where
  "minute k = \<lparr>rk_open_time_ms = 60000 * k, rk_close_price = ''1'', rk_close_time_ms = 60000 * k + 59999\<rparr>"

theorem klines_span_complete_witness:
  "klines_from (\<lambda>s e. Inr (take 1000 (opening_in s e (map minute [0..<2500])))) 149999999 [] 0 =
     Some (Inr (map minute [0..<2500]))"
proof -
  have S: "candle_series (map minute [0..<2500])"
    by (auto simp: candle_series_def minute_def sorted_wrt_map list_all_iff sorted_wrt_iff_nth_less)
  have "opening_in 0 149999999 (map minute [0..<2500]) = map minute [0..<2500]"
    by (auto simp: opening_in_def minute_def filter_id_conv)
  then show ?thesis using klines_span_complete [OF S refl, of 149999999 0] by simp
qed

text \<open>
  A listing of Simple Earn is read whole: when page \<open>n\<close> holds the rows after the first
  \<open>100 (n - 1)\<close> and every page says how many there are, the loop ends with all of them in order.
\<close>

theorem earn_listing_complete:
  assumes "\<And>n. 0 < n \<Longrightarrow> page n = Inr \<lparr>pg_rows = take PAGE_SIZE (drop (PAGE_SIZE * (n - 1)) R), pg_total = length R\<rparr>"
  shows "pages_from page 1 [] = Some (Inr R) \<and>
    (page = earn_page_at V c path extra parse \<longrightarrow> earn_pages V c path extra parse = Some (Inr R))"
  using pages_from_complete [of page R 1] assms by (auto simp: earn_pages_def)

theorem earn_listing_complete_witness:
  "pages_from (\<lambda>n. Inr \<lparr>pg_rows = take 100 (drop (100 * (n - 1)) [0 ..< 250 :: nat]), pg_total = 250\<rparr>) 1 [] =
     Some (Inr [0 ..< 250])"
  using earn_listing_complete [of "\<lambda>n. Inr \<lparr>pg_rows = take 100 (drop (100 * (n - 1)) [0 ..< 250 :: nat]), pg_total = 250\<rparr>"
      "[0 ..< 250]"]
  by (simp add: PAGE_SIZE_def)

text \<open>
  A page of zero rewards hides the pages after it: the parser drops rewards of zero before the loop
  looks at the page, which then seems to be the empty page after the last. A reward on the second page is
  lost when the first holds only zeros.
\<close>

theorem earn_zero_page_hides_rewards:
  assumes "earn_page_at V c path extra (parse_rewards parse vtext kind) 1 = Inr p"
    and "pg_rows p = []" and "earn_page_at V c path extra (parse_rewards parse vtext kind) 2 = Inr q"
    and "pg_rows q \<noteq> []" and "1 < pg_total p"
  shows "earn_pages V c path extra (parse_rewards parse vtext kind) = Some (Inr [])"
  unfolding earn_pages_def using assms by (subst pages_from.simps) simp

text \<open>
  Savings are part of the account: for every asset, what the combined balances show is what is held in
  spot plus what is held in Simple Earn, so moving funds between the two changes nothing; the spot token of
  a flexible position (\<open>LD\<close> and the asset) is the only one left out. Without rounding.
\<close>

theorem with_earn_counts_everything_once:
  assumes "with_earn E spot positions = Some (Inr bs)" and "de_arith E = exact_arith"
    and "\<And>d. de_parse E (de_show E d) = Some d"
  shows "spot_total E bs a =
      (if is_earn_token positions a then 0 else spot_total E spot a) + earn_total_of E positions a \<and>
    distinct (map ab_asset bs)"
proof -
  obtain m m' where m: "spot_loop E positions [] spot = Some (Inr m)" "position_loop E m positions = Some (Inr m')"
    and bs: "bs = map (\<lambda>(asset, free, locked).
      \<lparr>ab_asset = asset, ab_free = de_show E free, ab_locked = de_show E locked\<rparr>) m'"
    using assms(1) by (auto simp: with_earn_def and_thenp_Inr)
  have s: "bt_ok m" "entry_total m a = (if is_earn_token positions a then 0 else spot_total E spot a)"
    using spot_loop_exact [OF m(1) assms(2)] by (auto simp: entry_total_def)
  have p: "bt_ok m'" "entry_total m' a = entry_total m a + earn_total_of E positions a"
    using position_loop_exact [OF m(2) assms(2) s(1)] by auto
  have "map ab_asset bs = map fst m'" by (simp add: bs comp_def case_prod_beta)
  then have "distinct (map ab_asset bs)" using bt_distinct [OF p(1)] by (simp only:)
  moreover have "spot_total E bs a = entry_total m' a"
    unfolding bs by (rule shown_total [OF p(1) assms(3)])
  ultimately show ?thesis using s(2) p(2) by simp
qed

definition reward_row :: "string \<Rightarrow> jvalue" where
  "reward_row amount = VObj [(''asset'', VStr ''BNB''), (''rewards'', VStr amount), (''time'', VInt 5)]"

definition reward_body :: "string \<Rightarrow> jvalue" where
  "reward_body amount = VObj [(''rows'', VArr [reward_row amount]), (''total'', VInt 2)]"

definition rewards_env :: live_env where
  "rewards_env = \<lparr>lv_http = \<lambda>url.
       (if url = ''https://testnet.binance.vision/sapi/v1/simple-earn/flexible/history/rewardsRecord?current=1&size=100&timestamp=0&signature=''
        then Inr (reward_body ''0'') else Inr (reward_body ''5'')),
     lv_hmac = \<lambda>_ _. [], lv_hex = \<lambda>_. [], lv_decode = \<lambda>_. Inl [], lv_datetime = \<lambda>_. None, lv_vtext = \<lambda>_. [],
     lv_timestamp_ms = 0\<rparr>"

definition ready_client :: live_state where
  "ready_client = \<lparr>lv_api_secret = ''s'', lv_environment = Test, lv_read_only_confirmed = True\<rparr>"

theorem earn_zero_page_hides_rewards_witness:
  "earn_pages rewards_env ready_client ''/sapi/v1/simple-earn/flexible/history/rewardsRecord'' []
     (parse_rewards (de_parse sample_dec) (\<lambda>_. []) Flexible) = Some (Inr []) \<and>
   (\<exists>flow. earn_page_at rewards_env ready_client ''/sapi/v1/simple-earn/flexible/history/rewardsRecord'' []
     (parse_rewards (de_parse sample_dec) (\<lambda>_. []) Flexible) 2 = Inr \<lparr>pg_rows = [flow], pg_total = 2\<rparr>)"
proof -
  let ?p = "''/sapi/v1/simple-earn/flexible/history/rewardsRecord''"
  have one: "parse_rewards (de_parse sample_dec) (\<lambda>_. []) Flexible (reward_body ''0'') = Inr \<lparr>pg_rows = [], pg_total = 2\<rparr>"
    by (simp add: parse_rewards_def earn_rows_def reward_body_def reward_row_def parse_reward_def row_text_def
        readable_def sample_dec_def earn_total_def List.map_filter_def or_empty_def)
  obtain flow where two: "parse_rewards (de_parse sample_dec) (\<lambda>_. []) Flexible (reward_body ''5'') =
      Inr \<lparr>pg_rows = [flow], pg_total = 2\<rparr>"
    by (simp add: parse_rewards_def earn_rows_def reward_body_def reward_row_def parse_reward_def row_text_def
        readable_def sample_dec_def earn_total_def List.map_filter_def or_empty_def)
  have ok: "jget ''code'' (reward_body a) = None" for a by (simp add: reward_body_def)
  have digits: "show_nat 1 = ''1''" "show_nat 2 = ''2''" "show_nat 100 = ''100''" "show_nat 0 = ''0''" by code_simp+
  have get: "signed_get rewards_env ready_client ?p [(''current'', show_nat 1), (''size'', show_nat PAGE_SIZE)] = Inr (reward_body ''0'')"
      "signed_get rewards_env ready_client ?p [(''current'', show_nat 2), (''size'', show_nat PAGE_SIZE)] = Inr (reward_body ''5'')"
    by (simp_all add: signed_get_def ready_client_def sign_request_def ALLOWED_PATHS_def send_def rewards_env_def ok
        digits PAGE_SIZE_def TEST_HOST_def del: One_nat_def)
  have p1: "earn_page_at rewards_env ready_client ?p [] (parse_rewards (de_parse sample_dec) (\<lambda>_. []) Flexible) 1 =
      Inr \<lparr>pg_rows = [], pg_total = 2\<rparr>"
    and p2: "earn_page_at rewards_env ready_client ?p [] (parse_rewards (de_parse sample_dec) (\<lambda>_. []) Flexible) 2 =
      Inr \<lparr>pg_rows = [flow], pg_total = 2\<rparr>"
    by (simp_all only: earn_page_at_def append_Nil get and_then_simps one two map_err_simps)
  show ?thesis using earn_zero_page_hides_rewards [OF p1 _ p2] p2 by auto
qed

theorem live_client_refuses_until_read_only_witness:
  "fetch_my_trades rewards_env (new_client ''s'' Test) ''BTCUSDT'' = Inl ReadOnlyNotConfirmed \<and>
   fetch_klines_span rewards_env (new_client ''s'' Test) ''BTCUSDT'' ''1m'' 0 5 = Some (Inl ReadOnlyNotConfirmed)"
  using live_client_refuses_until_read_only [of "new_client ''s'' Test" rewards_env "[]" "''BTCUSDT''" sample_dec 0 5 "''1m''"]
  by (simp add: new_client_def)

theorem with_earn_counts_everything_once_witness:
  "\<exists>E bs. with_earn E [\<lparr>ab_asset = ''AXS'', ab_free = ''1'', ab_locked = ''2''\<rparr>]
       [\<lparr>ep_kind = Locked, ep_asset = ''AXS'', ep_amount = ''5''\<rparr>] = Some (Inr bs) \<and> spot_total E bs ''AXS'' = 8"
proof -
  define E where "E = \<lparr>de_arith = exact_arith,
    de_parse = \<lambda>s. if s = ''1'' then Some 1 else if s = ''2'' then Some 2 else if s = ''5'' then Some (5 :: decimal)
      else Some (from_nat (length s)),
    de_show = \<lambda>d. replicate (to_nat d) CHR ''x''\<rparr>"
  have inv: "de_parse E (de_show E d) = Some d" for d
  proof -
    have "replicate n CHR ''x'' \<noteq> ''1''" "replicate n CHR ''x'' \<noteq> ''2''" "replicate n CHR ''x'' \<noteq> ''5''" for n
      by (cases n; simp)+
    then show ?thesis by (simp add: E_def)
  qed
  have e: "de_arith E = exact_arith" by (simp add: E_def)
  let ?ps = "[\<lparr>ep_kind = Locked, ep_asset = ''AXS'', ep_amount = ''5''\<rparr>]"
  let ?spot = "[\<lparr>ab_asset = ''AXS'', ab_free = ''1'', ab_locked = ''2''\<rparr>]"
  obtain bs where bs: "with_earn E ?spot ?ps = Some (Inr bs)"
    by (simp add: with_earn_def E_def is_earn_token_def add_to_def)
  have "\<not> is_earn_token ?ps ''AXS''" by (simp add: is_earn_token_def)
  then have "spot_total E bs ''AXS'' = 8"
    using with_earn_counts_everything_once [OF bs e inv, of "''AXS''"]
    by (simp add: spot_total_def earn_total_of_def E_def)
  then show ?thesis using bs by blast
qed

end
