(* ===== verification/WalletChain.thy ===== *)
theory WalletChain
  imports Strings Decimal
begin

text \<open>
  services/collector/wallet/client: amounts on a chain (amounts.rs), the networks and how their assets are
  named and priced (chains.rs), and which assets can be followed (coverage.rs).

  \<open>Decimal::from_str_exact\<close> is a parameter, \<open>parse\<close>. What the code relies on is that it is exact:
  \<open>exact_reader\<close> says that a text it accepts denotes the value it gives.
\<close>

section \<open>amounts.rs\<close>

definition NATIVE_DECIMALS :: nat where "NATIVE_DECIMALS = 18"

definition point_text :: "string \<Rightarrow> nat \<Rightarrow> string" where
  "point_text raw decimals =
     (let digits = dropWhile (\<lambda>c. c = CHR ''0'') raw; digits = (if digits = [] then ''0'' else digits)
      in if decimals = 0 then digits
         else if length digits \<le> decimals then ''0.'' @ replicate (decimals - length digits) CHR ''0'' @ digits
         else let cut_at = length digits - decimals in take cut_at digits @ ''.'' @ List.drop cut_at digits)"

definition units :: "(string \<Rightarrow> decimal option) \<Rightarrow> string \<Rightarrow> nat \<Rightarrow> decimal option" where
  "units parse raw decimals =
     (if raw = [] \<or> \<not> list_all is_digit raw then None else parse (point_text raw decimals))"

text \<open>The value a decimal text denotes: its digits, shifted by the number of those after the point.\<close>

definition text_value :: "string \<Rightarrow> rat" where
  "text_value s = (case split_once CHR ''.'' s of
       None \<Rightarrow> of_nat (digits_value s)
     | Some (whole, fraction) \<Rightarrow> of_nat (digits_value (whole @ fraction)) / 10 ^ length fraction)"

definition exact_reader :: "(string \<Rightarrow> decimal option) \<Rightarrow> bool" where
  "exact_reader parse \<longleftrightarrow> (\<forall>s d. parse s = Some d \<longrightarrow> d = text_value s)"

section \<open>chains.rs\<close>

record chain =
  ch_id :: nat
  ch_name :: string
  ch_native_symbol :: string
  ch_native_price_id :: string
  ch_price_prefix :: string
  ch_confirmations :: nat
  ch_rpc_url :: string
  ch_blockscout_url :: "string option"
  ch_etherscan_free :: bool

definition CHAINS :: "chain list" where
  "CHAINS =
    [\<lparr>ch_id = 1, ch_name = ''ethereum'', ch_native_symbol = ''ETH'', ch_native_price_id = ''coingecko:ethereum'',
      ch_price_prefix = ''ethereum'', ch_confirmations = 32, ch_rpc_url = ''https://ethereum-rpc.publicnode.com'',
      ch_blockscout_url = Some ''https://eth.blockscout.com'', ch_etherscan_free = True\<rparr>,
     \<lparr>ch_id = 8453, ch_name = ''base'', ch_native_symbol = ''ETH'', ch_native_price_id = ''coingecko:ethereum'',
      ch_price_prefix = ''base'', ch_confirmations = 30, ch_rpc_url = ''https://base-rpc.publicnode.com'',
      ch_blockscout_url = Some ''https://base.blockscout.com'', ch_etherscan_free = False\<rparr>,
     \<lparr>ch_id = 42161, ch_name = ''arbitrum'', ch_native_symbol = ''ETH'', ch_native_price_id = ''coingecko:ethereum'',
      ch_price_prefix = ''arbitrum'', ch_confirmations = 20, ch_rpc_url = ''https://arbitrum-one-rpc.publicnode.com'',
      ch_blockscout_url = Some ''https://arbitrum.blockscout.com'', ch_etherscan_free = True\<rparr>,
     \<lparr>ch_id = 10, ch_name = ''optimism'', ch_native_symbol = ''ETH'', ch_native_price_id = ''coingecko:ethereum'',
      ch_price_prefix = ''optimism'', ch_confirmations = 30, ch_rpc_url = ''https://optimism-rpc.publicnode.com'',
      ch_blockscout_url = Some ''https://explorer.optimism.io'', ch_etherscan_free = False\<rparr>,
     \<lparr>ch_id = 137, ch_name = ''polygon'', ch_native_symbol = ''POL'', ch_native_price_id = ''coingecko:polygon-ecosystem-token'',
      ch_price_prefix = ''polygon'', ch_confirmations = 64, ch_rpc_url = ''https://polygon-bor-rpc.publicnode.com'',
      ch_blockscout_url = Some ''https://polygon.blockscout.com'', ch_etherscan_free = True\<rparr>,
     \<lparr>ch_id = 56, ch_name = ''bnb'', ch_native_symbol = ''BNB'', ch_native_price_id = ''coingecko:binancecoin'',
      ch_price_prefix = ''bsc'', ch_confirmations = 20, ch_rpc_url = ''https://bsc-rpc.publicnode.com'',
      ch_blockscout_url = None, ch_etherscan_free = False\<rparr>,
     \<lparr>ch_id = 43114, ch_name = ''avalanche'', ch_native_symbol = ''AVAX'', ch_native_price_id = ''coingecko:avalanche-2'',
      ch_price_prefix = ''avax'', ch_confirmations = 20, ch_rpc_url = ''https://avalanche-c-chain-rpc.publicnode.com'',
      ch_blockscout_url = None, ch_etherscan_free = False\<rparr>]"

definition DEFAULT_CHAINS :: "nat list" where
  "DEFAULT_CHAINS = [1, 8453, 42161, 10, 137]"

datatype chain_config_error =
    NotANumber string
  | UnknownChain nat
  | NeedsKey string bool
  | NoChains

text \<open>The explorer that serves a network (\<open>Endpoint\<close> of explorer.rs).\<close>

datatype endpoint =
    EtherscanV2 string nat
  | Blockscout string "string option"

definition by_id :: "nat \<Rightarrow> chain option" where
  "by_id i = find (\<lambda>c. ch_id c = i) CHAINS"

definition by_name :: "string \<Rightarrow> chain option" where
  "by_name n = find (\<lambda>c. ch_name c = n) CHAINS"

definition native_asset :: "chain \<Rightarrow> string" where
  "native_asset c = ch_name c @ '':native''"

definition token_asset :: "chain \<Rightarrow> string \<Rightarrow> string" where
  "token_asset c contract = ch_name c @ '':'' @ to_lower contract"

definition token_price_id :: "chain \<Rightarrow> string \<Rightarrow> string" where
  "token_price_id c contract = ch_price_prefix c @ '':'' @ to_lower contract"

definition endpoint_of :: "chain \<Rightarrow> string option \<Rightarrow> string option \<Rightarrow> chain_config_error + endpoint" where
  "endpoint_of c etherscan_key blockscout_key =
     (case (ch_etherscan_free c, etherscan_key, ch_blockscout_url c, blockscout_key) of
        (True, Some key, _, _) \<Rightarrow> Inr (EtherscanV2 key (ch_id c))
      | (_, _, Some url, Some key) \<Rightarrow> Inr (Blockscout url (Some key))
      | (_, Some key, _, _) \<Rightarrow> Inr (EtherscanV2 key (ch_id c))
      | _ \<Rightarrow> Inl (NeedsKey (ch_name c) (ch_blockscout_url c \<noteq> None)))"

definition price_id :: "string \<Rightarrow> string option" where
  "price_id asset =
     Option.bind (split_once CHR '':'' asset) (\<lambda>(network, rest).
     Option.bind (by_name network) (\<lambda>c.
       if rest = ''native'' then Some (ch_native_price_id c)
       else if starts_with rest ''0x'' then Some (token_price_id c rest)
       else None))"

fun enabled_loop :: "chain list \<Rightarrow> nat list \<Rightarrow> chain_config_error + chain list" where
  "enabled_loop acc [] = Inr acc"
| "enabled_loop acc (i # is) =
     and_then (ok_or (UnknownChain i) (by_id i)) (\<lambda>c.
       enabled_loop (if c \<in> set acc then acc else acc @ [c]) is)"

definition parse_enabled :: "string \<Rightarrow> chain_config_error + chain list" where
  "parse_enabled txt =
     and_then (if trim txt = [] then Inr DEFAULT_CHAINS
       else collect_res (\<lambda>part. ok_or (NotANumber (trim part)) (parse_u64 (trim part))) (split_on CHR '','' txt)) (\<lambda>ids.
     and_then (enabled_loop [] ids) (\<lambda>acc.
       if acc = [] then Inl NoChains else Inr acc))"

section \<open>coverage.rs\<close>

datatype coverage_error = Unpriced "string list" | Unrepresentable "string list"

text \<open>The loop over the followed assets, in order: the three lists.\<close>

fun coverage_loop :: "string set \<Rightarrow> string set \<Rightarrow> string set \<Rightarrow> string list \<times> string list \<times> string list \<Rightarrow>
    string list \<Rightarrow> string list \<times> string list \<times> string list" where
  "coverage_loop active priced unrepresentable acc [] = acc"
| "coverage_loop active priced unrepresentable (excluded, unpriced_active, too_large) (asset # assets) =
     coverage_loop active priced unrepresentable
       (let is_priced = asset \<in> priced in
        if is_priced \<and> asset \<in> unrepresentable then (excluded, unpriced_active, too_large @ [asset])
        else if \<not> is_priced then
          (if asset \<in> active then (excluded, unpriced_active @ [asset], too_large)
           else (excluded @ [asset], unpriced_active, too_large))
        else (excluded, unpriced_active, too_large)) assets"

definition check_coverage ::
    "string list \<Rightarrow> string set \<Rightarrow> string set \<Rightarrow> string set \<Rightarrow> coverage_error + string list" where
  "check_coverage followed active priced unrepresentable =
     (let (excluded, unpriced_active, too_large) = coverage_loop active priced unrepresentable ([], [], []) followed in
      if too_large \<noteq> [] then Inl (Unrepresentable too_large)
      else if unpriced_active \<noteq> [] then Inl (Unpriced unpriced_active)
      else Inr excluded)"

section \<open>Amounts are exact\<close>

lemma digits_value_append: "digits_value (s @ t) = digits_value s * 10 ^ length t + digits_value t"
proof (induction t rule: rev_induct)
  case Nil
  show ?case by (simp add: digits_value_def)
next
  case (snoc c t)
  then show ?case using digits_value_snoc [of "s @ t" c] digits_value_snoc [of t c] by (simp add: algebra_simps)
qed

lemma digits_value_zeros [simp]: "digits_value (replicate k CHR ''0'') = 0"
  unfolding digits_value_def by (induction k) simp_all

lemma digits_value_trimmed: "digits_value (dropWhile (\<lambda>c. c = CHR ''0'') s) = digits_value s"
proof (induction s)
  case (Cons c s)
  have "digits_value (c # s) = digits_value [c] * 10 ^ length s + digits_value s"
    using digits_value_append [of "[c]" s] by simp
  then show ?case using Cons by (simp add: digits_value_def)
qed simp

lemma text_value_digits: "list_all is_digit s \<Longrightarrow> text_value s = of_nat (digits_value s)"
proof -
  assume d: "list_all is_digit s"
  have "split_once CHR ''.'' s = None"
  proof (cases "split_once CHR ''.'' s")
    case (Some p)
    then have "CHR ''.'' \<in> set s" using split_once_Some [of "CHR ''.''" s "fst p" "snd p"] by (metis in_set_conv_decomp prod.collapse)
    then have "is_digit CHR ''.''" using d by (simp add: list_all_iff)
    then show ?thesis by (simp add: is_digit_def)
  qed simp
  then show ?thesis by (simp add: text_value_def)
qed

lemma text_value_point:
  assumes "list_all is_digit whole"
  shows "text_value (whole @ CHR ''.'' # fraction) = of_nat (digits_value (whole @ fraction)) / 10 ^ length fraction"
proof -
  have "CHR ''.'' \<notin> set whole" using assms by (auto simp: list_all_iff is_digit_def)
  then show ?thesis by (simp add: text_value_def split_once_append)
qed

lemma point_text_value:
  assumes "list_all is_digit raw"
  shows "text_value (point_text raw n) = of_nat (digits_value raw) / 10 ^ n"
proof -
  define ds where "ds = (let ds = dropWhile (\<lambda>c. c = CHR ''0'') raw in if ds = [] then ''0'' else ds)"
  have "digits_value ''0'' = 0" and "digits_value [] = 0" by (simp_all add: digits_value_def)
  then have v: "digits_value ds = digits_value raw"
    using digits_value_trimmed [of raw] by (cases "dropWhile (\<lambda>c. c = CHR ''0'') raw") (simp_all add: ds_def)
  have d: "list_all is_digit ds"
    using assms by (auto simp: ds_def Let_def list_all_iff is_digit_def dest: set_dropWhileD)
  have form: "point_text raw n = (if n = 0 then ds
      else if length ds \<le> n then ''0'' @ CHR ''.'' # (replicate (n - length ds) CHR ''0'' @ ds)
      else take (length ds - n) ds @ CHR ''.'' # List.drop (length ds - n) ds)"
    by (simp add: point_text_def ds_def Let_def)
  consider "n = 0" | "n \<noteq> 0" "length ds \<le> n" | "n < length ds" "n \<noteq> 0" by linarith
  then show ?thesis
  proof cases
    case 1
    then show ?thesis using text_value_digits [OF d] v form by simp
  next
    case 2
    have "digits_value (''0'' @ replicate (n - length ds) CHR ''0'' @ ds) = digits_value ds"
      using digits_value_append [of "replicate (Suc (n - length ds)) CHR ''0''" ds]
        digits_value_zeros [of "Suc (n - length ds)"] by simp
    moreover have "list_all is_digit ''0''" by (simp add: is_digit_def)
    ultimately show ?thesis
      using text_value_point [of "''0''" "replicate (n - length ds) CHR ''0'' @ ds"] 2 v by (simp only: form) simp
  next
    case 3
    have "list_all is_digit (take (length ds - n) ds)" using d by (auto simp: list_all_iff dest: in_set_takeD)
    from text_value_point [OF this, of "List.drop (length ds - n) ds"] 3 v show ?thesis by (simp add: form)
  qed
qed

section \<open>Properties\<close>

text \<open>
  An amount read from a chain is exact: the decimal is the whole number the text spells divided by ten to
  the number of decimals, and nothing but a whole number is accepted.
\<close>

theorem units_are_exact:
  assumes "exact_reader parse" and "units parse raw n = Some d"
  shows "raw \<noteq> [] \<and> list_all is_digit raw \<and> d = of_nat (digits_value raw) / 10 ^ n"
proof -
  have r: "raw \<noteq> []" "list_all is_digit raw" and p: "parse (point_text raw n) = Some d"
    using assms(2) by (auto simp: units_def split: if_splits)
  then have "d = text_value (point_text raw n)" using assms(1) by (simp add: exact_reader_def)
  then show ?thesis using r point_text_value [OF r(2), of n] by simp
qed

theorem units_are_exact_witness:
  "units (\<lambda>s. Some (text_value s)) ''1500000'' 6 = Some (3 / 2)"
proof -
  have e: "exact_reader (\<lambda>s. Some (text_value s))" by (simp add: exact_reader_def)
  obtain d where d: "units (\<lambda>s. Some (text_value s)) ''1500000'' 6 = Some d" by (simp add: units_def is_digit_def)
  show ?thesis using units_are_exact [OF e d] d by (simp add: digits_value_def)
qed

lemma by_name_CHAINS: "c \<in> set CHAINS \<Longrightarrow> by_name (ch_name c) = Some c"
proof -
  have "list_all (\<lambda>c. by_name (ch_name c) = Some c) CHAINS" by (simp add: CHAINS_def by_name_def)
  then show "c \<in> set CHAINS \<Longrightarrow> by_name (ch_name c) = Some c" by (simp add: list_all_iff)
qed

lemma by_name_Some: "by_name n = Some c \<Longrightarrow> c \<in> set CHAINS \<and> ch_name c = n"
  by (auto simp: by_name_def find_Some_iff in_set_conv_nth)

lemma chain_colon: "c \<in> set CHAINS \<Longrightarrow> CHR '':'' \<notin> set (ch_name c) \<and> CHR '':'' \<notin> set (ch_price_prefix c)"
proof -
  have "list_all (\<lambda>c. CHR '':'' \<notin> set (ch_name c) \<and> CHR '':'' \<notin> set (ch_price_prefix c)) CHAINS"
    by (simp add: CHAINS_def)
  then show "c \<in> set CHAINS \<Longrightarrow> CHR '':'' \<notin> set (ch_name c) \<and> CHR '':'' \<notin> set (ch_price_prefix c)"
    by (simp add: list_all_iff)
qed

lemma price_prefix_inj:
  "c \<in> set CHAINS \<Longrightarrow> c' \<in> set CHAINS \<Longrightarrow> ch_price_prefix c = ch_price_prefix c' \<Longrightarrow> c = c'"
proof -
  have "distinct (map ch_price_prefix CHAINS)" by (simp add: CHAINS_def)
  then show "c \<in> set CHAINS \<Longrightarrow> c' \<in> set CHAINS \<Longrightarrow> ch_price_prefix c = ch_price_prefix c' \<Longrightarrow> c = c'"
    by (auto simp: distinct_map dest: inj_onD)
qed

text \<open>The price ids of native assets are those of coins, under a prefix no network has.\<close>

lemma native_not_token: "c \<in> set CHAINS \<Longrightarrow> c' \<in> set CHAINS \<Longrightarrow> ch_native_price_id c \<noteq> ch_price_prefix c' @ '':'' @ k"
proof -
  assume c: "c \<in> set CHAINS" "c' \<in> set CHAINS"
  have "list_all (\<lambda>c. \<exists>r. ch_native_price_id c = ''coingecko'' @ CHR '':'' # r) CHAINS"
    and "list_all (\<lambda>c. ch_price_prefix c \<noteq> ''coingecko'') CHAINS" by (simp_all add: CHAINS_def)
  then obtain r where "split_once CHR '':'' (ch_native_price_id c) = Some (''coingecko'', r)"
    and "ch_price_prefix c' \<noteq> ''coingecko''"
    using c split_once_append [of "CHR '':''" "''coingecko''"] by (auto simp: list_all_iff)
  moreover have "split_once CHR '':'' (ch_price_prefix c' @ '':'' @ k) = Some (ch_price_prefix c', k)"
    using chain_colon [OF c(2)] by (simp add: split_once_append)
  ultimately show ?thesis by auto
qed

lemma token_price_id_inj:
  assumes "c \<in> set CHAINS" and "c' \<in> set CHAINS" and "token_price_id c k = token_price_id c' k'"
  shows "c = c' \<and> to_lower k = to_lower k'"
proof -
  have "split_once CHR '':'' (token_price_id c k) = Some (ch_price_prefix c, to_lower k)"
    and "split_once CHR '':'' (token_price_id c' k') = Some (ch_price_prefix c', to_lower k')"
    using chain_colon [OF assms(1)] chain_colon [OF assms(2)] by (auto simp: token_price_id_def split_once_append)
  then show ?thesis using assms price_prefix_inj by auto
qed

lemma price_id_cases:
  assumes "price_id a = Some p"
  obtains c where "c \<in> set CHAINS" and "a = native_asset c" and "p = ch_native_price_id c"
  | c k where "c \<in> set CHAINS" and "a = ch_name c @ '':'' @ k" and "starts_with k ''0x''" and "p = token_price_id c k"
proof -
  obtain n r c where s: "split_once CHR '':'' a = Some (n, r)" and c: "by_name n = Some c"
    and p: "(if r = ''native'' then Some (ch_native_price_id c)
       else if starts_with r ''0x'' then Some (token_price_id c r) else None) = Some p"
    using assms by (auto simp: price_id_def Option.bind_eq_Some_conv)
  have "a = n @ CHR '':'' # r" using split_once_Some [OF s] by simp
  moreover have "c \<in> set CHAINS" "ch_name c = n" using by_name_Some [OF c] by simp_all
  ultimately show ?thesis using p that by (auto simp: native_asset_def split: if_splits)
qed

text \<open>
  An asset is priced by its own coin: every network's native asset and every contract on it has a price id,
  and two assets of one price id are the native assets of networks that share a coin, or the same contract on
  the same network, however its address is capitalised.
\<close>

theorem price_ids_identify_assets:
  "(c \<in> set CHAINS \<longrightarrow> price_id (native_asset c) = Some (ch_native_price_id c) \<and>
     price_id (token_asset c (''0x'' @ k)) = Some (token_price_id c (''0x'' @ k))) \<and>
   (price_id a = Some p \<and> price_id b = Some p \<longrightarrow>
     (\<exists>c d. c \<in> set CHAINS \<and> d \<in> set CHAINS \<and> a = native_asset c \<and> b = native_asset d \<and>
        ch_native_price_id c = ch_native_price_id d) \<or>
     (\<exists>c k k'. c \<in> set CHAINS \<and> a = ch_name c @ '':'' @ k \<and> b = ch_name c @ '':'' @ k' \<and> to_lower k = to_lower k'))"
proof (intro conjI impI)
  assume c: "c \<in> set CHAINS"
  show "price_id (native_asset c) = Some (ch_native_price_id c)"
    using chain_colon [OF c] by_name_CHAINS [OF c] by (simp add: price_id_def native_asset_def split_once_append)
  have "to_lower (''0x'' @ k) = ''0x'' @ to_lower k" for k by (simp add: to_lower_def ascii_lower_def)
  then show "price_id (token_asset c (''0x'' @ k)) = Some (token_price_id c (''0x'' @ k))"
    using chain_colon [OF c] by_name_CHAINS [OF c]
    by (simp add: price_id_def token_asset_def token_price_id_def split_once_append starts_with_def)
next
  assume ab: "price_id a = Some p \<and> price_id b = Some p"
  have tn: "ch_native_price_id c \<noteq> token_price_id d k" if "c \<in> set CHAINS" "d \<in> set CHAINS" for c d k
    using native_not_token [OF that] by (simp add: token_price_id_def)
  show "(\<exists>c d. c \<in> set CHAINS \<and> d \<in> set CHAINS \<and> a = native_asset c \<and> b = native_asset d \<and>
        ch_native_price_id c = ch_native_price_id d) \<or>
     (\<exists>c k k'. c \<in> set CHAINS \<and> a = ch_name c @ '':'' @ k \<and> b = ch_name c @ '':'' @ k' \<and> to_lower k = to_lower k')"
    using ab by (elim conjE price_id_cases) (use tn token_price_id_inj in \<open>metis\<close>)+
qed

theorem price_ids_identify_assets_witness:
  "price_id ''base:0xabc'' = Some ''base:0xabc'' \<and> price_id ''bnb:0xabc'' \<noteq> Some ''base:0xabc''"
proof
  let ?c = "\<lparr>ch_id = 8453, ch_name = ''base'', ch_native_symbol = ''ETH'', ch_native_price_id = ''coingecko:ethereum'',
      ch_price_prefix = ''base'', ch_confirmations = 30, ch_rpc_url = ''https://base-rpc.publicnode.com'',
      ch_blockscout_url = Some ''https://base.blockscout.com'', ch_etherscan_free = False\<rparr>"
  have c: "?c \<in> set CHAINS" by (simp add: CHAINS_def)
  have ids: "token_asset ?c ''0xabc'' = ''base:0xabc''" "token_price_id ?c ''0xabc'' = ''base:0xabc''"
    by (simp_all add: token_asset_def token_price_id_def to_lower_def ascii_lower_def)
  show base: "price_id ''base:0xabc'' = Some ''base:0xabc''"
    using price_ids_identify_assets [of ?c "''abc''"] c ids by simp
  have split: "split_once CHR '':'' ''base:0xabc'' = Some (''base'', ''0xabc'')"
      "split_once CHR '':'' ''bnb:0xabc'' = Some (''bnb'', ''0xabc'')" by (simp_all add: split_once_def)
  have names: "ch_name c = ''base''" "ch_name c \<noteq> ''bnb''"
    if "c \<in> set CHAINS" "ch_name c @ '':'' @ k = ''base:0xabc''" for c k
    using split(1) split_once_append [of "CHR '':''" "ch_name c" k] chain_colon [OF that(1)] that(2) by auto
  have none: "native_asset c \<noteq> ''base:0xabc''" if "c \<in> set CHAINS" for c
    using names(1) [OF that, of "''native''"] by (auto simp: native_asset_def)
  have other: "ch_name c = ''bnb''" if "c \<in> set CHAINS" "ch_name c @ '':'' @ k = ''bnb:0xabc''" for c k
    using split(2) split_once_append [of "CHR '':''" "ch_name c" k] chain_colon [OF that(1)] that(2) by auto
  show "price_id ''bnb:0xabc'' \<noteq> Some ''base:0xabc''"
  proof
    assume "price_id ''bnb:0xabc'' = Some ''base:0xabc''"
    with base show False
      using price_ids_identify_assets [of undefined undefined "''base:0xabc''" "''base:0xabc''" "''bnb:0xabc''"] names other none by metis
  qed
qed

section \<open>Coverage\<close>

lemma coverage_loop_filters:
  "coverage_loop active priced unrepresentable (x, u, t) assets =
    (x @ filter (\<lambda>a. a \<notin> priced \<and> a \<notin> active) assets,
     u @ filter (\<lambda>a. a \<notin> priced \<and> a \<in> active) assets,
     t @ filter (\<lambda>a. a \<in> priced \<and> a \<in> unrepresentable) assets)"
  by (induction assets arbitrary: x u t) auto

text \<open>
  The figures of a wallet are given exactly when every followed asset can be accounted for: each is either
  priced and representable, or unpriced and never moved by the wallet, and the latter are the ones left out.
  Otherwise the error names exactly the assets to blame, amounts that do not fit before missing prices.
\<close>

theorem coverage_is_exact:
  "check_coverage followed active priced unrepresentable =
     (let too_large = filter (\<lambda>a. a \<in> priced \<and> a \<in> unrepresentable) followed;
          moved = filter (\<lambda>a. a \<notin> priced \<and> a \<in> active) followed in
      if too_large \<noteq> [] then Inl (Unrepresentable too_large)
      else if moved \<noteq> [] then Inl (Unpriced moved)
      else Inr (filter (\<lambda>a. a \<notin> priced) followed))"
proof -
  have "filter (\<lambda>a. a \<notin> priced \<and> a \<notin> active) followed = filter (\<lambda>a. a \<notin> priced) followed"
    if "filter (\<lambda>a. a \<notin> priced \<and> a \<in> active) followed = []"
    using that by (auto simp: filter_empty_conv intro!: filter_cong)
  then show ?thesis by (simp add: check_coverage_def coverage_loop_filters Let_def)
qed

end
