(* ===== verification/WalletEffects.thy ===== *)
theory WalletEffects
  imports WalletChain BTree "HOL-Library.Product_Lexorder" "HOL-Library.Multiset"
begin

text \<open>
  services/collector/wallet/client, effects.rs: what each transaction did to the balances of an address. The
  rows it reads are those of wire.rs, whose types are here. Adding two decimals panics where it overflows:
  the outer \<open>None\<close>.
\<close>

section \<open>wire.rs: what an explorer lists\<close>

record 'a listing =
  li_rows :: "'a list"
  li_incomplete :: bool

record normal_tx =
  nt_hash :: string
  nt_block :: nat
  nt_time_ms :: nat
  nt_from :: string
  nt_to :: string
  nt_value :: string
  nt_gas_used :: string
  nt_gas_price :: string
  nt_failed :: bool

record internal_tx =
  it_hash :: string
  it_block :: nat
  it_time_ms :: nat
  it_from :: string
  it_to :: string
  it_value :: string
  it_index :: string
  it_failed :: bool

record token_transfer =
  tt_hash :: string
  tt_block :: nat
  tt_time_ms :: nat
  tt_contract :: string
  tt_symbol :: string
  tt_decimals :: nat
  tt_from :: string
  tt_to :: string
  tt_value :: string
  tt_log_index :: "string option"

record held_token =
  ht_contract :: string
  ht_symbol :: string
  ht_decimals :: nat
  ht_balance :: string

section \<open>effects.rs\<close>

datatype effect_kind = TransferEffect | GasEffect

text \<open>The derived order: in the order of declaration.\<close>

instantiation effect_kind :: linorder
begin

definition less_eq_effect_kind :: "effect_kind \<Rightarrow> effect_kind \<Rightarrow> bool" where
  "less_eq_effect_kind a b \<longleftrightarrow> a = TransferEffect \<or> b = GasEffect"

definition less_effect_kind :: "effect_kind \<Rightarrow> effect_kind \<Rightarrow> bool" where
  "less_effect_kind a b \<longleftrightarrow> a = TransferEffect \<and> b = GasEffect"

instance
proof
  fix a b c :: effect_kind
  show "(a < b) = (a \<le> b \<and> \<not> b \<le> a)"
    by (cases a; cases b) (simp_all add: less_eq_effect_kind_def less_effect_kind_def)
  show "a \<le> a" by (cases a) (simp_all add: less_eq_effect_kind_def)
  show "a \<le> b \<Longrightarrow> b \<le> c \<Longrightarrow> a \<le> c" by (auto simp: less_eq_effect_kind_def)
  show "a \<le> b \<Longrightarrow> b \<le> a \<Longrightarrow> a = b" by (auto simp: less_eq_effect_kind_def)
  show "a \<le> b \<or> b \<le> a" by (cases a; cases b) (simp_all add: less_eq_effect_kind_def)
qed

end

record effect =
  ef_tx_hash :: string
  ef_block :: nat
  ef_time_ms :: nat
  ef_asset :: string
  ef_delta :: decimal
  ef_kind :: effect_kind

record effects =
  es_list :: "effect list"
  es_unrepresentable :: "string set"

type_synonym effect_sums = "(string \<times> string \<times> effect_kind, nat \<times> nat \<times> decimal) btree"

text \<open>The closure \<open>add\<close>.\<close>

definition add_effect ::
    "arith \<Rightarrow> effect_sums \<Rightarrow> string \<Rightarrow> nat \<Rightarrow> nat \<Rightarrow> string \<Rightarrow> decimal \<Rightarrow> effect_kind \<Rightarrow> effect_sums option" where
  "add_effect A m hash block time_ms asset delta kind =
     (let (b, t, d) = (case map_of m (hash, asset, kind) of None \<Rightarrow> (block, time_ms, 0) | Some e \<Rightarrow> e) in
      map_option (\<lambda>d'. bt_insert (hash, asset, kind) (b, t, d') m) (dadd A d delta))"

text \<open>A value that arrives when the address is the recipient and leaves when it is the sender.\<close>

definition add_value ::
    "arith \<Rightarrow> string \<Rightarrow> effect_sums \<Rightarrow> string \<Rightarrow> nat \<Rightarrow> nat \<Rightarrow> string \<Rightarrow> decimal \<Rightarrow> string \<Rightarrow> string \<Rightarrow> effect_sums option" where
  "add_value A me m hash block time_ms asset value from to =
     Option.bind (if to = me then add_effect A m hash block time_ms asset value TransferEffect else Some m) (\<lambda>m.
       if from = me then add_effect A m hash block time_ms asset (- value) TransferEffect else Some m)"

definition gas_fee :: "(string \<Rightarrow> decimal option) \<Rightarrow> normal_tx \<Rightarrow> decimal option" where
  "gas_fee parse tx =
     Option.bind (parse_uint 128 (nt_gas_used tx)) (\<lambda>used.
     Option.bind (parse_uint 128 (nt_gas_price tx)) (\<lambda>price.
       if used * price < 2 ^ 128 then units parse (show_nat (used * price)) NATIVE_DECIMALS else None))"

type_synonym effects_state = "effect_sums \<times> string set"

definition normal_step ::
    "arith \<Rightarrow> (string \<Rightarrow> decimal option) \<Rightarrow> string \<Rightarrow> string \<Rightarrow> effects_state \<Rightarrow> normal_tx \<Rightarrow> effects_state option" where
  "normal_step A parse native me st tx =
     Option.bind (if nt_from tx = me
         then (case gas_fee parse tx of
             Some fee \<Rightarrow> map_option (\<lambda>m. (m, snd st))
               (add_effect A (fst st) (nt_hash tx) (nt_block tx) (nt_time_ms tx) native (- fee) GasEffect)
           | None \<Rightarrow> Some (fst st, insert native (snd st)))
         else Some st) (\<lambda>st.
       if nt_failed tx then Some st
       else (case units parse (nt_value tx) NATIVE_DECIMALS of
           Some value \<Rightarrow> map_option (\<lambda>m. (m, snd st))
             (add_value A me (fst st) (nt_hash tx) (nt_block tx) (nt_time_ms tx) native value (nt_from tx) (nt_to tx))
         | None \<Rightarrow> Some (fst st, insert native (snd st))))"

definition internal_step ::
    "arith \<Rightarrow> (string \<Rightarrow> decimal option) \<Rightarrow> string \<Rightarrow> string \<Rightarrow> effects_state \<Rightarrow> internal_tx \<Rightarrow> effects_state option" where
  "internal_step A parse native me st tx =
     (case units parse (it_value tx) NATIVE_DECIMALS of
        Some value \<Rightarrow> map_option (\<lambda>m. (m, snd st))
          (add_value A me (fst st) (it_hash tx) (it_block tx) (it_time_ms tx) native value (it_from tx) (it_to tx))
      | None \<Rightarrow> Some (fst st, insert native (snd st)))"

definition token_step ::
    "arith \<Rightarrow> (string \<Rightarrow> decimal option) \<Rightarrow> chain \<Rightarrow> string \<Rightarrow> effects_state \<Rightarrow> token_transfer \<Rightarrow> effects_state option" where
  "token_step A parse c me st tx =
     (let asset = token_asset c (tt_contract tx) in
      case units parse (tt_value tx) (tt_decimals tx) of
        Some value \<Rightarrow> map_option (\<lambda>m. (m, snd st))
          (add_value A me (fst st) (tt_hash tx) (tt_block tx) (tt_time_ms tx) asset value (tt_from tx) (tt_to tx))
      | None \<Rightarrow> Some (fst st, insert asset (snd st)))"

definition effect_key :: "effect \<Rightarrow> nat \<times> string \<times> string \<times> effect_kind" where
  "effect_key e = (ef_block e, ef_tx_hash e, ef_asset e, ef_kind e)"

definition effect_of_entry :: "(string \<times> string \<times> effect_kind) \<times> (nat \<times> nat \<times> decimal) \<Rightarrow> effect" where
  "effect_of_entry = (\<lambda>((hash, asset, kind), (block, time_ms, delta)).
     \<lparr>ef_tx_hash = hash, ef_block = block, ef_time_ms = time_ms, ef_asset = asset, ef_delta = delta, ef_kind = kind\<rparr>)"

definition effect_list :: "effect_sums \<Rightarrow> effect list" where
  "effect_list m = sort_key effect_key (map effect_of_entry (filter (\<lambda>(_, _, _, delta). delta \<noteq> 0) m))"

definition effects_of ::
    "arith \<Rightarrow> (string \<Rightarrow> decimal option) \<Rightarrow> chain \<Rightarrow> string \<Rightarrow> normal_tx list \<Rightarrow> internal_tx list \<Rightarrow>
     token_transfer list \<Rightarrow> effects option" where
  "effects_of A parse c address normal internal tokens =
     (let me = to_lower address; native = native_asset c in
      Option.bind (try_fold (normal_step A parse native me) ([], {}) normal) (\<lambda>st.
      Option.bind (try_fold (internal_step A parse native me) st (filter (\<lambda>tx. \<not> it_failed tx) internal)) (\<lambda>st.
      Option.bind (try_fold (token_step A parse c me) st tokens) (\<lambda>(m, unrepresentable).
        Some \<lparr>es_list = effect_list m, es_unrepresentable = unrepresentable\<rparr>))))"

section \<open>What moved\<close>

text \<open>
  The reference: the value a row spells, and what it adds to and takes from the balance of an asset of the
  address \<open>me\<close>.
\<close>

definition raw_amount :: "string \<Rightarrow> nat \<Rightarrow> rat" where
  "raw_amount raw decimals = of_nat (digits_value raw) / 10 ^ decimals"

definition signed_value :: "string \<Rightarrow> string \<Rightarrow> string \<Rightarrow> rat \<Rightarrow> rat" where
  "signed_value me from to v = (if to = me then v else 0) - (if from = me then v else 0)"

definition normal_net :: "string \<Rightarrow> normal_tx \<Rightarrow> rat" where
  "normal_net me tx =
     (if nt_failed tx then 0 else signed_value me (nt_from tx) (nt_to tx) (raw_amount (nt_value tx) NATIVE_DECIMALS)) -
     (if nt_from tx = me
      then of_nat (digits_value (nt_gas_used tx) * digits_value (nt_gas_price tx)) / 10 ^ NATIVE_DECIMALS else 0)"

definition internal_net :: "string \<Rightarrow> internal_tx \<Rightarrow> rat" where
  "internal_net me tx =
     (if it_failed tx then 0 else signed_value me (it_from tx) (it_to tx) (raw_amount (it_value tx) NATIVE_DECIMALS))"

definition token_net :: "string \<Rightarrow> token_transfer \<Rightarrow> rat" where
  "token_net me tx = signed_value me (tt_from tx) (tt_to tx) (raw_amount (tt_value tx) (tt_decimals tx))"

definition net_change ::
    "chain \<Rightarrow> string \<Rightarrow> normal_tx list \<Rightarrow> internal_tx list \<Rightarrow> token_transfer list \<Rightarrow> string \<Rightarrow> rat" where
  "net_change c me normal internal tokens a =
     (if a = native_asset c then (\<Sum>tx\<leftarrow>normal. normal_net me tx) + (\<Sum>tx\<leftarrow>internal. internal_net me tx) else 0) +
     (\<Sum>tx\<leftarrow>tokens. if token_asset c (tt_contract tx) = a then token_net me tx else 0)"

definition effect_total :: "effect list \<Rightarrow> string \<Rightarrow> rat" where
  "effect_total es a = (\<Sum>e\<leftarrow>es. if ef_asset e = a then ef_delta e else 0)"

section \<open>The effects are what moved\<close>

definition entry_sum :: "effect_sums \<Rightarrow> string \<Rightarrow> rat" where
  "entry_sum m a = (\<Sum>(k, v)\<leftarrow>m. if fst (snd k) = a then snd (snd v) else 0)"

lemma parse_uint_value: "parse_uint w s = Some v \<Longrightarrow> v = digits_value s"
proof -
  have "digits_value (CHR ''+'' # cs) = digits_value cs" for cs
    using digits_value_append [of "''+''" cs] by (simp add: digits_value_def)
  then show "parse_uint w s = Some v \<Longrightarrow> v = digits_value s"
    by (auto simp: parse_uint_def Let_def split: list.splits if_splits)
qed

lemma gas_fee_value:
  assumes "exact_reader parse" and "gas_fee parse tx = Some fee"
  shows "fee = of_nat (digits_value (nt_gas_used tx) * digits_value (nt_gas_price tx)) / 10 ^ NATIVE_DECIMALS"
proof -
  obtain used price where up: "parse_uint 128 (nt_gas_used tx) = Some used" "parse_uint 128 (nt_gas_price tx) = Some price"
    and fee: "units parse (show_nat (used * price)) NATIVE_DECIMALS = Some fee"
    using assms(2) by (auto simp: gas_fee_def Option.bind_eq_Some_conv split: if_splits)
  have v: "used = digits_value (nt_gas_used tx)" "price = digits_value (nt_gas_price tx)"
    using up by (simp_all add: parse_uint_value)
  have raw: "raw \<noteq> [] \<and> list_all is_digit raw \<Longrightarrow> units parse raw n = Some d \<Longrightarrow>
      d = of_nat (digits_value raw) / 10 ^ n" for raw n d
    using point_text_value [of raw n] assms(1) by (auto simp: units_def exact_reader_def split: if_splits)
  show ?thesis using raw [OF _ fee] show_nat_digits [of "used * price"] v by simp
qed

lemma units_amount: "exact_reader parse \<Longrightarrow> units parse raw n = Some d \<Longrightarrow> d = raw_amount raw n"
  using point_text_value [of raw n] by (auto simp: units_def exact_reader_def raw_amount_def split: if_splits)

lemma add_effect_exact:
  assumes "add_effect exact_arith m h b t asset delta kind = Some m'" and "bt_ok m"
  shows "bt_ok m' \<and> entry_sum m' a = entry_sum m a + (if asset = a then delta else 0)"
proof -
  obtain b0 t0 d0 where old: "(case map_of m (h, asset, kind) of None \<Rightarrow> (b, t, 0) | Some e \<Rightarrow> e) = (b0, t0, d0)"
    by (metis prod_cases3)
  then have m': "m' = bt_insert (h, asset, kind) (b0, t0, d0 + delta) m"
    using assms(1) by (simp add: add_effect_def)
  have "(case map_of m (h, asset, kind) of None \<Rightarrow> 0 | Some v \<Rightarrow> if asset = a then snd (snd v) else 0) =
      (if asset = a then d0 else (0 :: rat))"
    using old by (auto split: option.splits)
  then show ?thesis
    using bt_sum_insert [OF assms(2), of "\<lambda>k v. if fst (snd k) = a then snd (snd v) else (0 :: rat)"
        "(h, asset, kind)" "(b0, t0, d0 + delta)"] bt_ok_insert [OF assms(2)]
    by (simp add: m' entry_sum_def cong: if_cong option.case_cong)
qed

lemma add_value_exact:
  assumes "add_value exact_arith me m h b t asset value from to = Some m'" and "bt_ok m"
  shows "bt_ok m' \<and> entry_sum m' a = entry_sum m a + (if asset = a then signed_value me from to value else 0)"
proof -
  obtain m1 where m1: "(if to = me then add_effect exact_arith m h b t asset value TransferEffect else Some m) = Some m1"
    and m2: "(if from = me then add_effect exact_arith m1 h b t asset (- value) TransferEffect else Some m1) = Some m'"
    using assms(1) by (auto simp: add_value_def Option.bind_eq_Some_conv)
  have 1: "bt_ok m1 \<and> entry_sum m1 a = entry_sum m a + (if asset = a \<and> to = me then value else 0)"
    using m1 add_effect_exact [OF _ assms(2)] assms(2) by (auto split: if_splits)
  have "bt_ok m' \<and> entry_sum m' a = entry_sum m1 a + (if asset = a \<and> from = me then - value else 0)"
    using m2 add_effect_exact [of m1 h b t asset "- value" TransferEffect m'] 1 by (auto split: if_splits)
  then show ?thesis using 1 by (simp add: signed_value_def)
qed

definition tracks :: "string \<Rightarrow> effects_state \<Rightarrow> effects_state \<Rightarrow> rat \<Rightarrow> bool" where
  "tracks a st st' v \<longleftrightarrow> bt_ok (fst st') \<and> snd st \<subseteq> snd st' \<and>
     (a \<notin> snd st' \<longrightarrow> entry_sum (fst st') a = entry_sum (fst st) a + v)"

lemma normal_step_tracks:
  assumes "normal_step exact_arith parse native me st tx = Some st'" and "bt_ok (fst st)" and "exact_reader parse"
  shows "tracks a st st' (if a = native then normal_net me tx else 0)"
proof -
  let ?gas = "if nt_from tx = me
      then of_nat (digits_value (nt_gas_used tx) * digits_value (nt_gas_price tx)) / 10 ^ NATIVE_DECIMALS else (0 :: rat)"
  obtain st1 where st1: "(if nt_from tx = me
         then (case gas_fee parse tx of
             Some fee \<Rightarrow> map_option (\<lambda>m. (m, snd st))
               (add_effect exact_arith (fst st) (nt_hash tx) (nt_block tx) (nt_time_ms tx) native (- fee) GasEffect)
           | None \<Rightarrow> Some (fst st, insert native (snd st)))
         else Some st) = Some st1"
    and st2: "(if nt_failed tx then Some st1
       else (case units parse (nt_value tx) NATIVE_DECIMALS of
           Some value \<Rightarrow> map_option (\<lambda>m. (m, snd st1))
             (add_value exact_arith me (fst st1) (nt_hash tx) (nt_block tx) (nt_time_ms tx) native value (nt_from tx) (nt_to tx))
         | None \<Rightarrow> Some (fst st1, insert native (snd st1)))) = Some st'"
    using assms(1) by (auto simp: normal_step_def Option.bind_eq_Some_conv)
  have 1: "tracks a st st1 (if a = native then - ?gas else 0)"
    using st1 assms(2) add_effect_exact [OF _ assms(2), where a = a] gas_fee_value [OF assms(3)]
    by (auto simp: tracks_def split: if_splits option.splits)
  have "tracks a st1 st' (if a = native \<and> \<not> nt_failed tx
      then signed_value me (nt_from tx) (nt_to tx) (raw_amount (nt_value tx) NATIVE_DECIMALS) else 0)"
    using st2 1 add_value_exact [of me "fst st1", where a = a] units_amount [OF assms(3)]
    by (auto simp: tracks_def split: if_splits option.splits)
  then show ?thesis using 1 by (auto simp: tracks_def normal_net_def)
qed

lemma internal_step_tracks:
  assumes "internal_step exact_arith parse native me st tx = Some st'" and "bt_ok (fst st)" and "exact_reader parse"
    and "\<not> it_failed tx"
  shows "tracks a st st' (if a = native then internal_net me tx else 0)"
  using assms(1,2,4) add_value_exact [OF _ assms(2), where a = a] units_amount [OF assms(3)]
  by (auto simp: internal_step_def tracks_def internal_net_def split: option.splits)

lemma token_step_tracks:
  assumes "token_step exact_arith parse c me st tx = Some st'" and "bt_ok (fst st)" and "exact_reader parse"
  shows "tracks a st st' (if token_asset c (tt_contract tx) = a then token_net me tx else 0)"
  using assms(1,2) add_value_exact [OF _ assms(2), where a = a] units_amount [OF assms(3)]
  by (auto simp: token_step_def tracks_def token_net_def Let_def split: option.splits)

lemma fold_tracks:
  assumes "try_fold step st xs = Some st'" and "bt_ok (fst st)"
    and "\<And>st x st'. x \<in> set xs \<Longrightarrow> step st x = Some st' \<Longrightarrow> bt_ok (fst st) \<Longrightarrow> tracks a st st' (g x)"
  shows "tracks a st st' (\<Sum>x\<leftarrow>xs. g x)"
  using assms
proof (induction xs arbitrary: st)
  case Nil
  then show ?case by (simp add: tracks_def)
next
  case (Cons x xs)
  obtain st1 where st1: "step st x = Some st1" and r: "try_fold step st1 xs = Some st'"
    using Cons.prems(1) by (auto simp: Option.bind_eq_Some_conv)
  have 1: "tracks a st st1 (g x)" using Cons.prems(3) [OF _ st1 Cons.prems(2)] by simp
  then have "bt_ok (fst st1)" by (simp add: tracks_def)
  then have "tracks a st1 st' (\<Sum>x\<leftarrow>xs. g x)" using Cons.prems(3) by (intro Cons.IH [OF r]) simp_all
  then show ?case using 1 by (auto simp: tracks_def)
qed

lemma effect_list_total: "effect_total (effect_list m) a = entry_sum m a"
proof -
  have "effect_total (effect_list m) a =
      (\<Sum>e\<leftarrow>filter (\<lambda>(_, _, _, delta). delta \<noteq> 0) m. if fst (snd (fst e)) = a then snd (snd (snd e)) else 0)"
    by (simp add: effect_total_def effect_list_def sum_list_sort_key comp_def effect_of_entry_def case_prod_beta' cong: if_cong)
  also have "\<dots> = entry_sum m a"
    unfolding entry_sum_def by (induction m) auto
  finally show ?thesis .
qed

lemma sum_list_if: "(\<Sum>x\<leftarrow>xs. if P then f x else (0 :: 'a :: comm_monoid_add)) = (if P then \<Sum>x\<leftarrow>xs. f x else 0)"
  by (cases P) (simp_all add: sum_list_0)

lemma internal_net_failed: "(\<Sum>tx\<leftarrow>filter (\<lambda>tx. \<not> it_failed tx) txs. internal_net me tx) = (\<Sum>tx\<leftarrow>txs. internal_net me tx)"
  by (induction txs) (auto simp: internal_net_def)

lemma effects_of_total:
  assumes "effects_of exact_arith parse c address normal internal tokens = Some es" and "exact_reader parse"
    and "a \<notin> es_unrepresentable es"
  shows "effect_total (es_list es) a = net_change c (to_lower address) normal internal tokens a"
proof -
  let ?me = "to_lower address" and ?native = "native_asset c"
  obtain s1 s2 m where 1: "try_fold (normal_step exact_arith parse ?native ?me) ([], {}) normal = Some s1"
    and 2: "try_fold (internal_step exact_arith parse ?native ?me) s1 (filter (\<lambda>tx. \<not> it_failed tx) internal) = Some s2"
    and 3: "try_fold (token_step exact_arith parse c ?me) s2 tokens = Some (m, es_unrepresentable es)"
    and es: "es_list es = effect_list m"
    using assms(1) by (auto simp: effects_of_def Let_def Option.bind_eq_Some_conv)
  have t1: "tracks a ([], {}) s1 (\<Sum>tx\<leftarrow>normal. if a = ?native then normal_net ?me tx else 0)"
    by (rule fold_tracks [OF 1]) (simp_all add: normal_step_tracks [OF _ _ assms(2)])
  have t2: "tracks a s1 s2 (\<Sum>tx\<leftarrow>filter (\<lambda>tx. \<not> it_failed tx) internal. if a = ?native then internal_net ?me tx else 0)"
    by (rule fold_tracks [OF 2]) (use t1 in \<open>simp_all add: tracks_def [of _ _ s1] internal_step_tracks [OF _ _ assms(2)]\<close>)
  have t3: "tracks a s2 (m, es_unrepresentable es)
      (\<Sum>tx\<leftarrow>tokens. if token_asset c (tt_contract tx) = a then token_net ?me tx else 0)"
    by (rule fold_tracks [OF 3]) (use t2 in \<open>simp_all add: tracks_def [of _ _ s2] token_step_tracks [OF _ _ assms(2)]\<close>)
  have "entry_sum m a = net_change c ?me normal internal tokens a"
    using t1 t2 t3 assms(3) by (auto simp: tracks_def net_change_def sum_list_if internal_net_failed entry_sum_def [of "[]"])
  then show ?thesis by (simp add: es effect_list_total)
qed

text \<open>One effect for each transaction, asset and kind.\<close>

lemma add_value_ok: "add_value A me m h b t asset value from to = Some m' \<Longrightarrow> bt_ok m \<Longrightarrow> bt_ok m'"
  by (auto simp: add_value_def add_effect_def Option.bind_eq_Some_conv bt_ok_insert split: if_splits prod.splits)

lemma steps_ok:
  "normal_step A parse native me st tx = Some st' \<Longrightarrow> bt_ok (fst st) \<Longrightarrow> bt_ok (fst st')"
  "internal_step A parse native me st itx = Some st' \<Longrightarrow> bt_ok (fst st) \<Longrightarrow> bt_ok (fst st')"
  "token_step A parse c me st ttx = Some st' \<Longrightarrow> bt_ok (fst st) \<Longrightarrow> bt_ok (fst st')"
  by (auto simp: normal_step_def internal_step_def token_step_def Let_def Option.bind_eq_Some_conv add_effect_def bt_ok_insert
      split: if_splits option.splits prod.splits dest: add_value_ok)

lemma distinct_map_sort_key: "distinct (map f (sort_key k xs)) \<longleftrightarrow> distinct (map f xs)"
proof -
  have "mset (map f (sort_key k xs)) = mset (map f xs)" by simp
  then show ?thesis by (rule mset_eq_imp_distinct_iff)
qed

lemma effects_of_keys:
  assumes "effects_of A parse c address normal internal tokens = Some es"
  shows "distinct (map (\<lambda>e. (ef_tx_hash e, ef_asset e, ef_kind e)) (es_list es))"
proof -
  obtain s1 s2 m u where 1: "try_fold (normal_step A parse (native_asset c) (to_lower address)) ([], {}) normal = Some s1"
    and 2: "try_fold (internal_step A parse (native_asset c) (to_lower address)) s1 (filter (\<lambda>tx. \<not> it_failed tx) internal) = Some s2"
    and 3: "try_fold (token_step A parse c (to_lower address)) s2 tokens = Some (m, u)"
    and es: "es_list es = effect_list m"
    using assms by (auto simp: effects_of_def Let_def Option.bind_eq_Some_conv)
  have "bt_ok (fst s1)" by (rule try_fold_inv [OF 1, where P = "\<lambda>s. bt_ok (fst s)"]) (simp, rule steps_ok(1))
  then have "bt_ok (fst s2)" by (rule try_fold_inv [OF 2, where P = "\<lambda>s. bt_ok (fst s)"]) (rule steps_ok(2))
  then have "bt_ok (fst (m, u))" by (rule try_fold_inv [OF 3, where P = "\<lambda>s. bt_ok (fst s)"]) (rule steps_ok(3))
  then have "distinct (map fst m)" by (simp add: bt_distinct)
  then have "distinct (map fst (filter (\<lambda>(_, _, _, delta). delta \<noteq> 0) m))" by (rule distinct_map_filter)
  moreover have "map (\<lambda>e. (ef_tx_hash e, ef_asset e, ef_kind e)) (map effect_of_entry xs) = map fst xs" for xs
    by (simp add: effect_of_entry_def case_prod_beta')
  ultimately show ?thesis
    by (simp only: es effect_list_def distinct_map_sort_key)
qed

end
