(* ===== verification/WalletWire.thy ===== *)
theory WalletWire
  imports WalletEffects JsonValue
begin

text \<open>
  services/collector/wallet/client: what an explorer answers (wire.rs) and what a node answers (rpc.rs). The
  HTTP exchange with a node is a parameter, \<open>rpc_env\<close>: what a batch of calls is answered at each attempt, and
  the parser of JSON. The pauses between calls are left out.
\<close>

section \<open>wire.rs\<close>

datatype wire_error = RateLimited string | Refused string | Unexpected string

definition is_rate_limit :: "string \<Rightarrow> bool" where
  "is_rate_limit txt \<longleftrightarrow> (let l = to_lower txt in
     contains_text l ''rate limit'' \<or> contains_text l ''too many requests'' \<or> contains_text l ''max calls per sec'')"

definition text_at :: "jvalue \<Rightarrow> string \<Rightarrow> string option" where
  "text_at v k = Option.bind (jget k v) (\<lambda>x. case x of
       VStr s \<Rightarrow> Some s | VInt n \<Rightarrow> Some (show_int n) | VFloat s \<Rightarrow> Some s | _ \<Rightarrow> None)"

definition text_or_empty :: "jvalue \<Rightarrow> string \<Rightarrow> string" where
  "text_or_empty v k = (case text_at v k of None \<Rightarrow> [] | Some s \<Rightarrow> s)"

definition rate_limit_message :: "jvalue \<Rightarrow> string option" where
  "rate_limit_message body =
     (let message = text_or_empty body ''message'';
          reason = (case Option.bind (jget ''result'' body) as_str of None \<Rightarrow> [] | Some s \<Rightarrow> s)
      in if is_rate_limit message \<or> is_rate_limit reason
         then Some (if message = [] then reason else message) else None)"

definition number_at :: "jvalue \<Rightarrow> string \<Rightarrow> wire_error + nat" where
  "number_at v k = ok_or (Unexpected (''a row had no readable '' @ k)) (Option.bind (text_at v k) parse_u64)"

definition required_at :: "jvalue \<Rightarrow> string \<Rightarrow> wire_error + string" where
  "required_at v k = ok_or (Unexpected (''a row had no '' @ k)) (text_at v k)"

definition integer_string_at :: "jvalue \<Rightarrow> string \<Rightarrow> wire_error + string" where
  "integer_string_at v k =
     and_then (required_at v k) (\<lambda>raw.
       if raw = [] \<or> \<not> list_all is_digit raw
       then Inl (Unexpected (''a row had an amount that is not a whole number: '' @ k)) else Inr raw)"

definition lower_at :: "jvalue \<Rightarrow> string \<Rightarrow> wire_error + string" where
  "lower_at v k = and_then (required_at v k) (\<lambda>s. Inr (to_lower s))"

definition answer_rows :: "jvalue \<Rightarrow> wire_error + (jvalue list \<times> bool)" where
  "answer_rows body =
     (let status = text_or_empty body ''status''; message = text_or_empty body ''message'';
          result = jat ''result'' body
      in if is_rate_limit message \<or> (case as_str result of None \<Rightarrow> False | Some s \<Rightarrow> is_rate_limit s)
         then Inl (RateLimited message)
         else case result of
             VArr rows \<Rightarrow>
               if status = ''1'' then Inr (rows, False)
               else if status = ''2'' then Inr (rows, True)
               else if status = ''0'' \<and> rows = [] \<and> starts_with (to_lower message) ''no '' then Inr (rows, False)
               else Inl (Refused message)
           | VStr reason \<Rightarrow> Inl (Refused (message @ '': '' @ reason))
           | _ \<Rightarrow> Inl (Refused message))"

definition parse_normal_tx :: "jvalue \<Rightarrow> wire_error + normal_tx" where
  "parse_normal_tx row =
     and_then (lower_at row ''hash'') (\<lambda>hash.
     and_then (number_at row ''blockNumber'') (\<lambda>block.
     and_then (number_at row ''timeStamp'') (\<lambda>t.
     and_then (lower_at row ''from'') (\<lambda>from.
     and_then (integer_string_at row ''value'') (\<lambda>value.
     and_then (integer_string_at row ''gasUsed'') (\<lambda>gas_used.
     and_then (integer_string_at row ''gasPrice'') (\<lambda>gas_price.
       Inr \<lparr>nt_hash = hash, nt_block = block, nt_time_ms = wrap_u64 (t * 1000), nt_from = from,
         nt_to = to_lower (text_or_empty row ''to''), nt_value = value, nt_gas_used = gas_used, nt_gas_price = gas_price,
         nt_failed = (text_at row ''isError'' = Some ''1'' \<or> text_at row ''txreceipt_status'' = Some ''0'')\<rparr>)))))))"

definition parse_normal_txs :: "jvalue \<Rightarrow> wire_error + normal_tx listing" where
  "parse_normal_txs body =
     and_then (answer_rows body) (\<lambda>(raw, incomplete).
     and_then (collect_res parse_normal_tx raw) (\<lambda>out. Inr \<lparr>li_rows = out, li_incomplete = incomplete\<rparr>))"

definition parse_internal_tx :: "jvalue \<Rightarrow> wire_error + internal_tx" where
  "parse_internal_tx row =
     and_then (case lower_at row ''transactionHash'' of Inr h \<Rightarrow> Inr h | Inl _ \<Rightarrow> lower_at row ''hash'') (\<lambda>hash.
     and_then (number_at row ''blockNumber'') (\<lambda>block.
     and_then (number_at row ''timeStamp'') (\<lambda>t.
     and_then (lower_at row ''from'') (\<lambda>from.
     and_then (integer_string_at row ''value'') (\<lambda>value.
       Inr \<lparr>it_hash = hash, it_block = block, it_time_ms = wrap_u64 (t * 1000), it_from = from,
         it_to = to_lower (text_or_empty row ''to''), it_value = value,
         it_index = (case text_at row ''traceId'' of Some i \<Rightarrow> i | None \<Rightarrow> text_or_empty row ''index''),
         it_failed = (text_at row ''isError'' = Some ''1'')\<rparr>)))))"

definition parse_internal_txs :: "jvalue \<Rightarrow> wire_error + internal_tx listing" where
  "parse_internal_txs body =
     and_then (answer_rows body) (\<lambda>(raw, incomplete).
     and_then (collect_res parse_internal_tx raw) (\<lambda>out. Inr \<lparr>li_rows = out, li_incomplete = incomplete\<rparr>))"

text \<open>The decimals of a token, as a \<open>u32\<close>; zero where they cannot be read.\<close>

definition decimals_at :: "jvalue \<Rightarrow> string \<Rightarrow> nat" where
  "decimals_at row k = (case Option.bind (text_at row k) (parse_uint 32) of None \<Rightarrow> 0 | Some d \<Rightarrow> d)"

definition parse_token_transfer :: "jvalue \<Rightarrow> wire_error + token_transfer" where
  "parse_token_transfer row =
     and_then (lower_at row ''hash'') (\<lambda>hash.
     and_then (number_at row ''blockNumber'') (\<lambda>block.
     and_then (number_at row ''timeStamp'') (\<lambda>t.
     and_then (lower_at row ''contractAddress'') (\<lambda>contract.
     and_then (lower_at row ''from'') (\<lambda>from.
     and_then (lower_at row ''to'') (\<lambda>to.
     and_then (integer_string_at row ''value'') (\<lambda>value.
       Inr \<lparr>tt_hash = hash, tt_block = block, tt_time_ms = wrap_u64 (t * 1000), tt_contract = contract,
         tt_symbol = text_or_empty row ''tokenSymbol'', tt_decimals = decimals_at row ''tokenDecimal'',
         tt_from = from, tt_to = to, tt_value = value, tt_log_index = text_at row ''logIndex''\<rparr>)))))))"

definition parse_token_transfers :: "jvalue \<Rightarrow> wire_error + token_transfer listing" where
  "parse_token_transfers body =
     and_then (answer_rows body) (\<lambda>(raw, incomplete).
     and_then (collect_res parse_token_transfer raw) (\<lambda>out. Inr \<lparr>li_rows = out, li_incomplete = incomplete\<rparr>))"

text \<open>Tokens of another kind than ERC-20 are skipped: the inner option.\<close>

definition parse_held_token :: "jvalue \<Rightarrow> wire_error + held_token option" where
  "parse_held_token row =
     (if (case text_at row ''type'' of None \<Rightarrow> False | Some t \<Rightarrow> t \<noteq> ''ERC-20'') then Inr None
      else
        and_then (lower_at row ''contractAddress'') (\<lambda>contract.
        and_then (integer_string_at row ''balance'') (\<lambda>balance.
          Inr (Some \<lparr>ht_contract = contract, ht_symbol = text_or_empty row ''symbol'',
            ht_decimals = decimals_at row ''decimals'', ht_balance = balance\<rparr>))))"

definition parse_held_tokens :: "jvalue \<Rightarrow> wire_error + held_token list" where
  "parse_held_tokens body =
     and_then (answer_rows body) (\<lambda>(raw, _).
     and_then (collect_res parse_held_token raw) (\<lambda>out. Inr (List.map_filter id out)))"

definition parse_integer_result :: "jvalue \<Rightarrow> wire_error + string" where
  "parse_integer_result body =
     (let message = text_or_empty body ''message'' in
      case Option.bind (jget ''result'' body) as_str of
        Some s \<Rightarrow>
          if is_rate_limit s \<or> is_rate_limit message then Inl (RateLimited s)
          else if text_at body ''status'' = Some ''1'' \<and> s \<noteq> [] \<and> list_all is_digit s then Inr s
          else Inl (Refused (message @ '': '' @ s))
      | None \<Rightarrow> if is_rate_limit message then Inl (RateLimited message) else Inl (Refused message))"

text \<open>\<open>from_str_radix(_, 16)\<close>: an optional plus sign, then hexadecimal digits, within the width.\<close>

definition hex_digit :: "char \<Rightarrow> nat option" where
  "hex_digit c = (let n = of_char c :: nat in
     if 48 \<le> n \<and> n \<le> 57 then Some (n - 48)
     else if 97 \<le> n \<and> n \<le> 102 then Some (n - 87)
     else if 65 \<le> n \<and> n \<le> 70 then Some (n - 55) else None)"

definition hex_value :: "nat list \<Rightarrow> nat" where
  "hex_value ds = foldl (\<lambda>n d. n * 16 + d) 0 ds"

definition parse_hex_u64 :: "string \<Rightarrow> nat option" where
  "parse_hex_u64 s =
     (let ds = (case s of [] \<Rightarrow> [] | c # cs \<Rightarrow> if c = CHR ''+'' then cs else s)
      in if ds = [] \<or> \<not> list_all (\<lambda>c. hex_digit c \<noteq> None) ds \<or> hex_value (List.map_filter hex_digit ds) \<ge> 2 ^ 64 then None
         else Some (hex_value (List.map_filter hex_digit ds)))"

definition parse_block_number :: "jvalue \<Rightarrow> wire_error + nat" where
  "parse_block_number body =
     (let message = text_or_empty body ''message'' in
      if is_rate_limit message then Inl (RateLimited message)
      else case Option.bind (jget ''result'' body) as_str of
          Some s \<Rightarrow> ok_or (Refused (message @ '': '' @ s))
            (case strip_prefix s ''0x'' of Some hex \<Rightarrow> parse_hex_u64 hex | None \<Rightarrow> parse_u64 s)
        | None \<Rightarrow> Inl (Refused message))"

section \<open>rpc.rs\<close>

definition BATCH :: nat where "BATCH = 20"
definition BALANCE_OF :: string where "BALANCE_OF = ''0x70a08231''"

datatype rpc_error = RpcNetwork string | RpcRateLimited | RpcUnexpected string | RpcRefused string

text \<open>One division of the digits by ten: the quotient's digits and the remainder.\<close>

fun div_ten :: "nat \<Rightarrow> nat list \<Rightarrow> nat list \<times> nat" where
  "div_ten remainder [] = ([], remainder)"
| "div_ten remainder (d # ds) =
     (let value = remainder * 16 + d; (qs, r) = div_ten (value mod 10) ds in (value div 10 # qs, r))"

lemma div_ten_value:
  "div_ten r ds = (qs, r') \<Longrightarrow> r < 10 \<Longrightarrow>
    length qs = length ds \<and> r' < 10 \<and> r * 16 ^ length ds + hex_value ds = hex_value qs * 10 + r'"
proof (induction ds arbitrary: r qs)
  case (Cons d ds)
  have head: "hex_value (x # xs) = x * 16 ^ length xs + hex_value xs" for x xs
  proof -
    have "foldl (\<lambda>n d. n * 16 + d) a xs = a * 16 ^ length xs + foldl (\<lambda>n d. n * 16 + d) 0 xs" for a
    proof (induction xs arbitrary: a)
      case (Cons y ys)
      show ?case using Cons.IH [of "a * 16 + y"] Cons.IH [of y] by (simp add: algebra_simps)
    qed simp
    from this [of x] show ?thesis by (simp add: hex_value_def)
  qed
  define v where "v = r * 16 + d"
  obtain qs' where q: "div_ten (v mod 10) ds = (qs', r')" and qs: "qs = v div 10 # qs'"
    using Cons.prems(1) by (cases "div_ten (v mod 10) ds") (simp add: v_def)
  have IH: "length qs' = length ds" "r' < 10" "v mod 10 * 16 ^ length ds + hex_value ds = hex_value qs' * 10 + r'"
    using Cons.IH [OF q] by simp_all
  have "r * 16 ^ length (d # ds) + hex_value (d # ds) = v * 16 ^ length ds + hex_value ds"
    by (simp add: head v_def algebra_simps)
  also have "\<dots> = (v div 10 * 10 + v mod 10) * 16 ^ length ds + hex_value ds" by (simp only: div_mult_mod_eq)
  also have "\<dots> = (v div 10 * 16 ^ length ds) * 10 + (v mod 10 * 16 ^ length ds + hex_value ds)"
    by (simp only: algebra_simps)
  also have "\<dots> = hex_value qs * 10 + r'" unfolding IH(3) qs head IH(1) by (simp add: algebra_simps)
  finally show ?case using IH by (simp add: qs)
qed (simp add: hex_value_def)

lemma hex_value_zero: "hex_value ds = 0 \<longleftrightarrow> list_all (\<lambda>d. d = 0) ds"
proof -
  have "foldl (\<lambda>n d. n * 16 + d) a ds = 0 \<longleftrightarrow> a = (0 :: nat) \<and> list_all (\<lambda>d. d = 0) ds" for a
    by (induction ds arbitrary: a) auto
  then show ?thesis by (simp add: hex_value_def)
qed

text \<open>The digits of the decimal, least significant first.\<close>

function tens :: "nat list \<Rightarrow> nat list" where
  "tens number =
     (if list_all (\<lambda>d. d = 0) number then []
      else let (number', remainder) = div_ten 0 number in remainder # tens number')"
  by pat_completeness auto
termination
proof (relation "measure hex_value")
  fix number :: "nat list" and x number' remainder
  assume a: "\<not> list_all (\<lambda>d. d = 0) number" "x = div_ten 0 number" "(number', remainder) = x"
  then have "hex_value number = hex_value number' * 10 + remainder" using div_ten_value [of 0 number] by simp
  moreover have "hex_value number \<noteq> 0" using a(1) by (simp add: hex_value_zero)
  ultimately show "(number', number) \<in> measure hex_value" by simp
qed simp

declare tens.simps [simp del]

definition hex_to_decimal :: "string \<Rightarrow> string option" where
  "hex_to_decimal hex =
     Option.bind (strip_prefix hex ''0x'') (\<lambda>digits.
       if digits = [] \<or> \<not> list_all (\<lambda>c. hex_digit c \<noteq> None) digits then None
       else (let out = tens (List.map_filter hex_digit digits) in
         if out = [] then Some ''0'' else Some (rev (map (\<lambda>d. char_of (48 + d)) out))))"

type_synonym rpc_call = "string \<times> jvalue"

record http_response =
  hr_status :: nat
  hr_status_text :: string
  hr_body :: string

record rpc_env =
  rp_send :: "rpc_call list \<Rightarrow> nat \<Rightarrow> rpc_error + http_response"
  rp_from_json :: "string \<Rightarrow> jvalue option"

definition RATE_LIMIT_RETRIES :: nat where "RATE_LIMIT_RETRIES = 3"

definition rpc_limited :: "http_response \<Rightarrow> bool" where
  "rpc_limited r \<longleftrightarrow> hr_status r = 429 \<or> contains_text (to_lower (hr_body r)) ''rate limit'' \<or>
     contains_text (to_lower (hr_body r)) ''too many requests''"

text \<open>The attempts that are left, counted down.\<close>

fun attempts_from :: "(nat \<Rightarrow> rpc_error + http_response) \<Rightarrow> (string \<Rightarrow> jvalue option) \<Rightarrow> nat \<Rightarrow> rpc_error + jvalue" where
  "attempts_from send_at from_json left =
     and_then (send_at (RATE_LIMIT_RETRIES - left)) (\<lambda>r.
       if rpc_limited r
       then (case left of 0 \<Rightarrow> Inl RpcRateLimited | Suc n \<Rightarrow> attempts_from send_at from_json n)
       else if hr_status r < 200 \<or> 300 \<le> hr_status r then Inl (RpcUnexpected (''answered '' @ hr_status_text r))
       else ok_or (RpcUnexpected ''the answer was not JSON'') (from_json (hr_body r)))"

declare attempts_from.simps [simp del]

definition rpc_post :: "rpc_env \<Rightarrow> rpc_call list \<Rightarrow> rpc_error + jvalue" where
  "rpc_post R calls = attempts_from (rp_send R calls) (rp_from_json R) RATE_LIMIT_RETRIES"

text \<open>The answers of a batch, put in the order of the calls by their ids.\<close>

fun place_answers ::
    "(string + jvalue) option list \<Rightarrow> jvalue list \<Rightarrow> rpc_error + (string + jvalue) option list" where
  "place_answers ordered [] = Inr ordered"
| "place_answers ordered (answer # answers) =
     and_then (ok_or (RpcUnexpected ''an answer had no id'') (Option.bind (jget ''id'' answer) as_u64)) (\<lambda>i.
       if i < length ordered
       then place_answers (ordered[i := Some (case jget ''error'' answer of
             Some error \<Rightarrow> if error \<noteq> VNull
               then Inl (case Option.bind (jget ''message'' error) as_str of None \<Rightarrow> ''refused'' | Some m \<Rightarrow> m)
               else Inr (jat ''result'' answer)
           | None \<Rightarrow> Inr (jat ''result'' answer))]) answers
       else Inl (RpcUnexpected ''an answer named a call that was not made''))"

definition batch :: "rpc_env \<Rightarrow> rpc_call list \<Rightarrow> rpc_error + (string + jvalue) list" where
  "batch R calls =
     and_then (rpc_post R calls) (\<lambda>body.
     and_then (ok_or (RpcUnexpected ''a batch was not answered with a list'') (as_array body)) (\<lambda>answers.
     and_then (place_answers (replicate (length calls) None) answers) (\<lambda>ordered.
       collect_res (ok_or (RpcUnexpected ''a call was not answered'')) ordered)))"

text \<open>A batch of one call has one answer, so \<open>remove(0)\<close> never panics.\<close>

definition one_call :: "rpc_env \<Rightarrow> string \<Rightarrow> jvalue \<Rightarrow> rpc_error + jvalue" where
  "one_call R method params =
     and_then (batch R [(method, params)]) (\<lambda>answers. map_err RpcRefused (hd answers))"

fun show_hex_digits :: "nat \<Rightarrow> nat \<Rightarrow> string" where
  "show_hex_digits 0 n = []"
| "show_hex_digits (Suc k) n = (let d = n mod 16; c = char_of (if d < 10 then 48 + d else 87 + d)
     in if n < 16 then [c] else show_hex_digits k (n div 16) @ [c])"

text \<open>\<open>{block:x}\<close> of a \<open>u64\<close>: at most sixteen digits.\<close>

definition block_tag :: "nat \<Rightarrow> string" where
  "block_tag block = ''0x'' @ show_hex_digits 16 block"

text \<open>\<open>trim_start_matches("0x")\<close>: as often as it starts the text.\<close>

function trim_0x :: "string \<Rightarrow> string" where
  "trim_0x s = (case strip_prefix s ''0x'' of None \<Rightarrow> s | Some rest \<Rightarrow> trim_0x rest)"
  by pat_completeness auto
termination by (relation "measure length") auto

declare trim_0x.simps [simp del]

definition rpc_head_block :: "rpc_env \<Rightarrow> rpc_error + nat" where
  "rpc_head_block R =
     and_then (one_call R ''eth_blockNumber'' (VArr [])) (\<lambda>result.
     and_then (ok_or (RpcUnexpected ''the block number was not a string'') (as_str result)) (\<lambda>hex.
       ok_or (RpcUnexpected (''unreadable block number '' @ hex)) (parse_hex_u64 (trim_0x hex))))"

definition rpc_native_balance_at :: "rpc_env \<Rightarrow> string \<Rightarrow> nat \<Rightarrow> rpc_error + string" where
  "rpc_native_balance_at R address block =
     and_then (one_call R ''eth_getBalance'' (VArr [VStr address, VStr (block_tag block)])) (\<lambda>result.
       ok_or (RpcUnexpected ''the balance was not a hexadecimal number'') (Option.bind (as_str result) hex_to_decimal))"

definition balance_call :: "string \<Rightarrow> nat \<Rightarrow> string \<Rightarrow> rpc_call" where
  "balance_call address block contract =
     (let holder = to_lower (trim_0x address);
          data = BALANCE_OF @ replicate (64 - length holder) CHR ''0'' @ holder
      in (''eth_call'', VArr [VObj [(''to'', VStr contract), (''data'', VStr data)], VStr (block_tag block)]))"

definition balance_answer :: "string + jvalue \<Rightarrow> string option" where
  "balance_answer answer = (case answer of Inl _ \<Rightarrow> None | Inr value \<Rightarrow> Option.bind (as_str value) hex_to_decimal)"

definition rpc_token_balances_at ::
    "rpc_env \<Rightarrow> string \<Rightarrow> string list \<Rightarrow> nat \<Rightarrow> rpc_error + string option list" where
  "rpc_token_balances_at R address contracts block =
     and_then (collect_res (\<lambda>group. batch R (map (balance_call address block) group)) (chunks BATCH contracts))
       (\<lambda>answers. Inr (map balance_answer (concat answers)))"

section \<open>Balances beyond 64 bits are exact\<close>

lemma tens_text:
  "hex_value number \<noteq> 0 \<Longrightarrow> rev (map (\<lambda>d. char_of (48 + d)) (tens number)) = show_nat (hex_value number)"
proof (induction number rule: tens.induct)
  case (1 number)
  then have nz: "\<not> list_all (\<lambda>d. d = 0) number" by (simp add: hex_value_zero)
  obtain number' r where d: "div_ten 0 number = (number', r)" by fastforce
  have v: "hex_value number = hex_value number' * 10 + r" "r < 10" using div_ten_value [OF d] by simp_all
  have t: "tens number = r # tens number'" using nz d by (subst tens.simps) simp
  show ?case
  proof (cases "hex_value number' = 0")
    case True
    then have "tens number' = []" by (subst tens.simps) (simp add: hex_value_zero)
    then show ?thesis using True v by (simp add: t show_nat.simps [of r])
  next
    case False
    then have "show_nat (hex_value number) = show_nat (hex_value number') @ [char_of (48 + r)]"
      using v by (subst show_nat.simps) simp
    then show ?thesis using 1(1) [OF nz d [symmetric] refl False] by (simp add: t)
  qed
qed

text \<open>
  A balance of any size is converted exactly: the decimal text is that of the number the hexadecimal digits
  denote, so no balance is cut to a machine integer, and only \<open>0x\<close> with digits after it is accepted. The
  loop always ends.
\<close>

theorem hex_to_decimal_exact:
  "hex_to_decimal hex = Some s \<longleftrightarrow>
    (\<exists>ds. hex = ''0x'' @ ds \<and> ds \<noteq> [] \<and> list_all (\<lambda>c. hex_digit c \<noteq> None) ds \<and>
      s = show_nat (hex_value (List.map_filter hex_digit ds)))"
proof -
  have zero: "tens ds = [] \<longleftrightarrow> hex_value ds = 0" for ds
    by (subst tens.simps) (simp add: hex_value_zero split: prod.splits)
  have "show_nat 0 = ''0''" by code_simp
  then have "(let out = tens ds in if out = [] then Some ''0'' else Some (rev (map (\<lambda>d. char_of (48 + d)) out))) =
      Some (show_nat (hex_value ds))" for ds
    using tens_text [of ds] by (simp add: zero)
  then show ?thesis by (auto simp: hex_to_decimal_def Option.bind_eq_Some_conv)
qed

end
