(* ===== verification/Explorer.thy ===== *)
theory Explorer
  imports WalletWire
begin

text \<open>
  services/collector/wallet/client: the account API of a block explorer (explorer.rs) and the readers built on
  it and on a node (reader.rs). A request and the answer to each of its attempts, and the parser of JSON, are
  the parameters of \<open>explorer_env\<close>; the pauses between calls are left out. The loops over pages and windows
  may run for ever against an explorer that answers without end: the outer \<open>None\<close>, which is also the panic of
  a full window without rows.
\<close>

section \<open>explorer.rs\<close>

definition DEFAULT_WINDOW :: nat where "DEFAULT_WINDOW = 10000"
definition DEFAULT_PAGE_SIZE :: nat where "DEFAULT_PAGE_SIZE = 1000"

datatype explorer_error = ExplorerNetwork string | ExplorerAnswer wire_error | BlockTooLarge nat

type_synonym query = "(string \<times> string) list"

record explorer_env =
  xe_send :: "string \<Rightarrow> query \<Rightarrow> nat \<Rightarrow> explorer_error + http_response"
  xe_from_json :: "string \<Rightarrow> jvalue option"

record explorer =
  xp_endpoint :: endpoint
  xp_window :: nat
  xp_page_size :: nat

definition new_explorer :: "endpoint \<Rightarrow> explorer" where
  "new_explorer e = \<lparr>xp_endpoint = e, xp_window = DEFAULT_WINDOW, xp_page_size = DEFAULT_PAGE_SIZE\<rparr>"

definition with_limits :: "explorer \<Rightarrow> nat \<Rightarrow> nat \<Rightarrow> explorer" where
  "with_limits X window page_size = X\<lparr>xp_window := window, xp_page_size := page_size\<rparr>"

text \<open>\<open>trim_end_matches('/')\<close>.\<close>

definition explorer_url :: "explorer \<Rightarrow> string" where
  "explorer_url X = (case xp_endpoint X of
       EtherscanV2 _ _ \<Rightarrow> ''https://api.etherscan.io/v2/api''
     | Blockscout base_url _ \<Rightarrow> rev (dropWhile (\<lambda>c. c = CHR ''/'') (rev base_url)) @ ''/api'')"

definition explorer_query :: "explorer \<Rightarrow> string \<Rightarrow> string \<Rightarrow> query \<Rightarrow> query" where
  "explorer_query X area action extra =
     [(''module'', area), (''action'', action)] @ extra @
     (case xp_endpoint X of
        EtherscanV2 api_key chain_id \<Rightarrow> [(''chainid'', show_nat chain_id), (''apikey'', api_key)]
      | Blockscout _ (Some key) \<Rightarrow> [(''apikey'', key)]
      | Blockscout _ None \<Rightarrow> [])"

definition refusal :: "string \<Rightarrow> jvalue" where
  "refusal message = VObj [(''status'', VStr ''0''), (''message'', VStr message), (''result'', VNull)]"

definition answer_body :: "(string \<Rightarrow> jvalue option) \<Rightarrow> http_response \<Rightarrow> jvalue" where
  "answer_body from_json r = (case from_json (hr_body r) of
       Some body \<Rightarrow> body
     | None \<Rightarrow> if hr_status r = 429 then refusal ''Too many requests''
         else refusal (''answered '' @ hr_status_text r @ '' with something that is not JSON''))"

fun calls_from :: "(nat \<Rightarrow> explorer_error + http_response) \<Rightarrow> (string \<Rightarrow> jvalue option) \<Rightarrow> nat \<Rightarrow> explorer_error + jvalue" where
  "calls_from send_at from_json left =
     and_then (send_at (RATE_LIMIT_RETRIES - left)) (\<lambda>r.
       let body = answer_body from_json r in
       case rate_limit_message body of
         Some said \<Rightarrow> (case left of 0 \<Rightarrow> Inl (ExplorerAnswer (RateLimited said)) | Suc n \<Rightarrow> calls_from send_at from_json n)
       | None \<Rightarrow> Inr body)"

declare calls_from.simps [simp del]

definition explorer_call :: "explorer_env \<Rightarrow> explorer \<Rightarrow> string \<Rightarrow> string \<Rightarrow> query \<Rightarrow> explorer_error + jvalue" where
  "explorer_call V X area action extra =
     calls_from (xe_send V (explorer_url X) (explorer_query X area action extra)) (xe_from_json V) RATE_LIMIT_RETRIES"

definition explorer_head_block :: "explorer_env \<Rightarrow> explorer \<Rightarrow> explorer_error + nat" where
  "explorer_head_block V X =
     and_then (case xp_endpoint X of
         EtherscanV2 _ _ \<Rightarrow> explorer_call V X ''proxy'' ''eth_blockNumber'' []
       | Blockscout _ _ \<Rightarrow> explorer_call V X ''block'' ''eth_block_number'' []) (\<lambda>body.
       map_err ExplorerAnswer (parse_block_number body))"

text \<open>One page of a list, and the pages of a window until one is not full or the window is.\<close>

definition page_of ::
    "explorer_env \<Rightarrow> explorer \<Rightarrow> string \<Rightarrow> string \<Rightarrow> (jvalue \<Rightarrow> wire_error + 'a listing) \<Rightarrow>
     nat \<Rightarrow> nat \<Rightarrow> nat \<Rightarrow> explorer_error + 'a listing" where
  "page_of V X action address parse start to page =
     and_then (explorer_call V X ''account'' action
       [(''address'', address), (''startblock'', show_nat start), (''endblock'', show_nat to),
        (''page'', show_nat page), (''offset'', show_nat (xp_page_size X)), (''sort'', ''asc'')])
       (\<lambda>body. map_err ExplorerAnswer (parse body))"

partial_function (option) window_from ::
    "(nat \<Rightarrow> explorer_error + 'a listing) \<Rightarrow> nat \<Rightarrow> nat \<Rightarrow> 'a list \<Rightarrow> bool \<Rightarrow> nat \<Rightarrow>
     (explorer_error + 'a list \<times> bool \<times> bool) option" where
  "window_from ask page_size window rows warned page =
     (case ask page of
        Inl e \<Rightarrow> Some (Inl e)
      | Inr listing \<Rightarrow>
          let warned' = (warned \<or> li_incomplete listing); got = length (li_rows listing); rows' = rows @ li_rows listing in
          if got < page_size then Some (Inr (rows', False, warned'))
          else if wrap_u64 (page * page_size) \<ge> window then Some (Inr (rows', True, warned'))
          else window_from ask page_size window rows' warned' (wrap_u64 (page + 1)))"

definition window_of ::
    "(nat \<Rightarrow> nat \<Rightarrow> nat \<Rightarrow> explorer_error + 'a listing) \<Rightarrow> nat \<Rightarrow> nat \<Rightarrow> nat \<Rightarrow> nat \<Rightarrow>
     (explorer_error + 'a list \<times> bool \<times> bool) option" where
  "window_of ask page_size window start to = window_from (ask start to) page_size window [] False 1"

partial_function (option) list_from ::
    "(nat \<Rightarrow> nat \<Rightarrow> (explorer_error + 'a list \<times> bool \<times> bool) option) \<Rightarrow> ('a \<Rightarrow> nat) \<Rightarrow> nat \<Rightarrow> 'a list \<Rightarrow> bool \<Rightarrow> nat \<Rightarrow>
     (explorer_error + 'a listing) option" where
  "list_from win block_of to acc incomplete start =
     (if start \<le> to then
        (case win start to of
           None \<Rightarrow> None
         | Some (Inl e) \<Rightarrow> Some (Inl e)
         | Some (Inr (rows, full, warned)) \<Rightarrow>
             if \<not> full then Some (Inr \<lparr>li_rows = acc @ rows, li_incomplete = (incomplete \<or> warned)\<rparr>)
             else if rows = [] then None
             else let last_block = block_of (last rows) in
               if block_of (hd rows) = last_block then Some (Inl (BlockTooLarge last_block))
               else (case win last_block last_block of
                   None \<Rightarrow> None
                 | Some (Inl e) \<Rightarrow> Some (Inl e)
                 | Some (Inr (block_rows, block_full, warned')) \<Rightarrow>
                     if block_full then Some (Inl (BlockTooLarge last_block))
                     else list_from win block_of to (acc @ filter (\<lambda>r. block_of r < last_block) rows @ block_rows)
                       (incomplete \<or> warned \<or> warned') (wrap_u64 (last_block + 1))))
      else Some (Inr \<lparr>li_rows = acc, li_incomplete = incomplete\<rparr>))"

definition list_rows ::
    "explorer_env \<Rightarrow> explorer \<Rightarrow> string \<Rightarrow> (jvalue \<Rightarrow> wire_error + 'a listing) \<Rightarrow> ('a \<Rightarrow> nat) \<Rightarrow>
     string \<Rightarrow> nat \<Rightarrow> nat \<Rightarrow> (explorer_error + 'a listing) option" where
  "list_rows V X action parse block_of address from to =
     list_from (window_of (page_of V X action address parse) (xp_page_size X) (xp_window X)) block_of to [] False from"

definition explorer_normal_txs ::
    "explorer_env \<Rightarrow> explorer \<Rightarrow> string \<Rightarrow> nat \<Rightarrow> nat \<Rightarrow> (explorer_error + normal_tx listing) option" where
  "explorer_normal_txs V X = list_rows V X ''txlist'' parse_normal_txs nt_block"

definition explorer_internal_txs ::
    "explorer_env \<Rightarrow> explorer \<Rightarrow> string \<Rightarrow> nat \<Rightarrow> nat \<Rightarrow> (explorer_error + internal_tx listing) option" where
  "explorer_internal_txs V X = list_rows V X ''txlistinternal'' parse_internal_txs it_block"

definition explorer_token_transfers ::
    "explorer_env \<Rightarrow> explorer \<Rightarrow> string \<Rightarrow> nat \<Rightarrow> nat \<Rightarrow> (explorer_error + token_transfer listing) option" where
  "explorer_token_transfers V X = list_rows V X ''tokentx'' parse_token_transfers tt_block"

definition seen_token :: "(string, held_token) btree \<Rightarrow> token_transfer \<Rightarrow> (string, held_token) btree" where
  "seen_token m t = (if map_of m (tt_contract t) = None
     then bt_insert (tt_contract t) \<lparr>ht_contract = tt_contract t, ht_symbol = tt_symbol t,
       ht_decimals = tt_decimals t, ht_balance = []\<rparr> m else m)"

definition explorer_tokens :: "explorer_env \<Rightarrow> explorer \<Rightarrow> string \<Rightarrow> (explorer_error + held_token list) option" where
  "explorer_tokens V X address = (case xp_endpoint X of
       Blockscout _ _ \<Rightarrow> Some (and_then (explorer_call V X ''account'' ''tokenlist'' [(''address'', address)])
         (\<lambda>body. map_err ExplorerAnswer (parse_held_tokens body)))
     | EtherscanV2 _ _ \<Rightarrow>
         and_thenp (Some (explorer_head_block V X)) (\<lambda>head.
         and_thenp (explorer_token_transfers V X address 0 head) (\<lambda>transfers.
           Some (Inr (map snd (foldl seen_token [] (li_rows transfers)))))))"

section \<open>reader.rs\<close>

datatype read_error = ReadExplorer explorer_error | ReadNode rpc_error

text \<open>
  The trait \<open>ChainReader\<close>, and \<open>LiveReader\<close>: an explorer for the transfers, a node for the balances. A reader
  may panic or never return: \<open>None\<close>.
\<close>

record chain_reader =
  cr_head_block :: "read_error + nat"
  cr_indexed_block :: "read_error + nat"
  cr_native_balance_at :: "string \<Rightarrow> nat \<Rightarrow> (read_error + string) option"
  cr_token_balances_at :: "string \<Rightarrow> string list \<Rightarrow> nat \<Rightarrow> (read_error + string option list) option"
  cr_tokens :: "string \<Rightarrow> (read_error + held_token list) option"
  cr_normal_txs :: "string \<Rightarrow> nat \<Rightarrow> nat \<Rightarrow> (read_error + normal_tx listing) option"
  cr_internal_txs :: "string \<Rightarrow> nat \<Rightarrow> nat \<Rightarrow> (read_error + internal_tx listing) option"
  cr_token_transfers :: "string \<Rightarrow> nat \<Rightarrow> nat \<Rightarrow> (read_error + token_transfer listing) option"

definition live_reader :: "explorer_env \<Rightarrow> explorer \<Rightarrow> rpc_env \<Rightarrow> chain_reader" where
  "live_reader V X R =
    \<lparr>cr_head_block = map_err ReadNode (rpc_head_block R),
     cr_indexed_block = map_err ReadExplorer (explorer_head_block V X),
     cr_native_balance_at = (\<lambda>address block. Some (map_err ReadNode (rpc_native_balance_at R address block))),
     cr_token_balances_at = (\<lambda>address contracts block. Some (map_err ReadNode (rpc_token_balances_at R address contracts block))),
     cr_tokens = (\<lambda>address. map_option (map_err ReadExplorer) (explorer_tokens V X address)),
     cr_normal_txs = (\<lambda>address from to. map_option (map_err ReadExplorer) (explorer_normal_txs V X address from to)),
     cr_internal_txs = (\<lambda>address from to. map_option (map_err ReadExplorer) (explorer_internal_txs V X address from to)),
     cr_token_transfers = (\<lambda>address from to. map_option (map_err ReadExplorer) (explorer_token_transfers V X address from to))\<rparr>"

section \<open>A list is read whole or refused\<close>

text \<open>The rows between two blocks, and the rows after which a window counts as full.\<close>

definition rows_between :: "('a \<Rightarrow> nat) \<Rightarrow> 'a list \<Rightarrow> nat \<Rightarrow> nat \<Rightarrow> 'a list" where
  "rows_between block_of R start to = filter (\<lambda>r. start \<le> block_of r \<and> block_of r \<le> to) R"

definition full_at :: "nat \<Rightarrow> nat \<Rightarrow> nat" where
  "full_at page_size window = page_size * ((window + page_size - 1) div page_size)"

text \<open>An explorer that answers page \<open>n\<close> with the rows after the first \<open>page_size (n - 1)\<close>.\<close>

definition honest_pages :: "('a \<Rightarrow> nat) \<Rightarrow> 'a list \<Rightarrow> nat \<Rightarrow> nat \<Rightarrow> (nat \<Rightarrow> nat \<Rightarrow> nat \<Rightarrow> 'e + 'a listing) \<Rightarrow> bool" where
  "honest_pages block_of R page_size window ask \<longleftrightarrow>
     (\<forall>start to page. 0 < page \<and> (page - 1) * page_size < window \<longrightarrow>
        ask start to page = Inr \<lparr>li_rows = take page_size (List.drop ((page - 1) * page_size) (rows_between block_of R start to)),
          li_incomplete = False\<rparr>)"

lemma full_at_bounds:
  assumes "0 < page_size" and "0 < window"
  shows "window \<le> full_at page_size window" and "full_at page_size window < window + page_size"
proof -
  let ?q = "(window + page_size - 1) div page_size"
  have "page_size * ?q \<le> window + page_size - 1" by (rule times_div_less_eq_dividend)
  then show "full_at page_size window < window + page_size" using assms unfolding full_at_def by linarith
  have "window + page_size - 1 < page_size + page_size * ?q"
    by (rule dividend_less_times_div [OF assms(1)])
  then show "window \<le> full_at page_size window" using assms unfolding full_at_def by linarith
qed

lemma full_at_page:
  assumes "0 < page_size" and "0 < page" and "(page - 1) * page_size < window" and "window \<le> page * page_size"
  shows "full_at page_size window = page * page_size"
proof -
  obtain k where k: "page = Suc k" using assms(2) by (cases page) auto
  define r where "r = window - k * page_size"
  have r: "0 < r" "r \<le> page_size" "window = k * page_size + r" using assms(3,4) by (simp_all add: k r_def)
  have "window + page_size - 1 = (r - 1) + page * page_size" using r by (simp add: k)
  then have "(window + page_size - 1) div page_size = page + (r - 1) div page_size"
    using assms(1) by simp
  also have "(r - 1) div page_size = 0" using r by simp
  finally show ?thesis by (simp add: full_at_def)
qed

lemma window_from_honest:
  assumes "honest_pages block_of R page_size window ask" and "0 < page_size" and "window + page_size < 2 ^ 64"
    and "L = rows_between block_of R start to"
    and "0 < page" and "(page - 1) * page_size < window" and "(page - 1) * page_size \<le> length L"
  shows "window_from (ask start to) page_size window (take ((page - 1) * page_size) L) False page =
    Some (Inr (if length L < full_at page_size window then (L, False, False)
      else (take (full_at page_size window) L, True, False)))"
  using assms(5-7)
proof (induction "window - (page - 1) * page_size" arbitrary: page rule: less_induct)
  case less
  obtain k where k: "page = Suc k" using less.prems(1) by (cases page) auto
  have ask: "ask start to page = Inr \<lparr>li_rows = take page_size (List.drop (k * page_size) L), li_incomplete = False\<rparr>"
    using assms(1,4) less.prems by (simp add: honest_pages_def k)
  have rows: "take (k * page_size) L @ take page_size (List.drop (k * page_size) L) = take (page * page_size) L"
    using take_add [of "k * page_size" page_size L] by (simp add: k add.commute)
  have small: "page * page_size < 2 ^ 64" and "page < 2 ^ 64 - 1"
  proof -
    show "page * page_size < 2 ^ 64" using less.prems(2) assms(3) by (simp add: k)
    have "k \<le> k * page_size" using assms(2) by simp
    moreover have "k * page_size < window" using less.prems(2) by (simp add: k)
    ultimately have "k < window" by (rule le_less_trans)
    then show "page < 2 ^ 64 - 1" using assms(2,3) by (simp add: k)
  qed
  then have wrap: "wrap_u64 (page * page_size) = page * page_size" "wrap_u64 (page + 1) = page + 1" by simp_all
  have K: "k * page_size < full_at page_size window" using less.prems(2) full_at_bounds(1) [OF assms(2), of window] by (simp add: k)
  show ?case
  proof (cases "length L < page * page_size")
    case True
    have "length L < full_at page_size window"
    proof (cases "window \<le> page * page_size")
      case w: True
      then show ?thesis using True full_at_page [OF assms(2) less.prems(1,2) w] by simp
    next
      case False
      then show ?thesis using True full_at_bounds(1) [OF assms(2), of window] less.prems(2) by linarith
    qed
    moreover have "length (take page_size (List.drop (k * page_size) L)) < page_size"
    proof -
      have "length L < page_size + k * page_size" using True by (simp add: k)
      then have "length L - k * page_size < page_size" using assms(2) by linarith
      then show ?thesis by simp
    qed
    ultimately show ?thesis using True rows ask by (subst window_from.simps) (simp add: k)
  next
    case False
    then have got: "\<not> length (take page_size (List.drop (k * page_size) L)) < page_size" by (simp add: k)
    show ?thesis
    proof (cases "window \<le> page * page_size")
      case True
      have "full_at page_size window = page * page_size" by (rule full_at_page [OF assms(2) less.prems(1,2) True])
      then show ?thesis using False True got rows ask wrap by (subst window_from.simps) (simp add: k Let_def)
    next
      case w: False
      have "window_from (ask start to) page_size window (take ((page + 1 - 1) * page_size) L) False (page + 1) =
          Some (Inr (if length L < full_at page_size window then (L, False, False)
            else (take (full_at page_size window) L, True, False)))"
        using w False less.prems(2) assms(2) by (intro less.hyps) (simp_all add: k)
      then show ?thesis using w got rows ask wrap by (subst window_from.simps) (simp add: k Let_def)
    qed
  qed
qed

lemma window_of_honest:
  assumes "honest_pages block_of R page_size window ask" and "0 < page_size" and "0 < window"
    and "window + page_size < 2 ^ 64"
  shows "window_of ask page_size window start to =
    Some (Inr (let L = rows_between block_of R start to in
      if length L < full_at page_size window then (L, False, False)
      else (take (full_at page_size window) L, True, False)))"
  using window_from_honest [OF assms(1,2,4) refl, of 1 start to] assms(3) by (simp add: window_of_def Let_def)

lemma sorted_below_above:
  "sorted (map f xs) \<Longrightarrow> filter (\<lambda>x. f x < (m :: nat)) xs @ filter (\<lambda>x. m \<le> f x) xs = xs"
proof (induction xs)
  case (Cons x xs)
  show ?case
  proof (cases "f x < m")
    case False
    then have "filter (\<lambda>x. f x < m) xs = []" "filter (\<lambda>x. m \<le> f x) xs = xs"
      using Cons.prems by (auto simp: filter_empty_conv filter_id_conv)
    then show ?thesis using False by simp
  qed (use Cons in simp)
qed simp

lemma rows_between_split:
  assumes "sorted (map block_of R)" and "m \<le> e"
  shows "filter (\<lambda>r. block_of r < m) (rows_between block_of R s e) @ rows_between block_of R (max s m) e = rows_between block_of R s e"
proof -
  have "sorted (map block_of (rows_between block_of R s e))"
    unfolding rows_between_def by (rule sorted_filter [OF assms(1)])
  moreover have "filter (\<lambda>r. m \<le> block_of r) (rows_between block_of R s e) = rows_between block_of R (max s m) e"
    unfolding rows_between_def filter_filter by (rule filter_cong) auto
  ultimately show ?thesis using sorted_below_above [of block_of "rows_between block_of R s e" m] by simp
qed

lemma filter_below_take:
  assumes "sorted (map block_of L)" and "K \<le> length L" and "0 < K"
  shows "filter (\<lambda>r. block_of r < block_of (last (take K L))) (take K L) = filter (\<lambda>r. block_of r < block_of (last (take K L))) L"
proof -
  define b where "b = block_of (last (take K L))"
  have ne: "take K L \<noteq> []" using assms(2,3) by auto
  have "sorted (map block_of (take K L) @ map block_of (List.drop K L))"
    unfolding map_append [symmetric] append_take_drop_id by (rule assms(1))
  then have "\<forall>r \<in> set (List.drop K L). b \<le> block_of r"
    using last_in_set [OF ne] unfolding sorted_append b_def by simp
  then have "filter (\<lambda>r. block_of r < b) (List.drop K L) = []" by (auto simp: filter_empty_conv not_less)
  then have "filter (\<lambda>r. block_of r < b) (take K L @ List.drop K L) = filter (\<lambda>r. block_of r < b) (take K L)"
    unfolding filter_append by simp
  then show ?thesis unfolding append_take_drop_id b_def by (rule sym)
qed

lemma sorted_ends:
  assumes "sorted (map f xs)" and "x \<in> set xs"
  shows "f (hd xs) \<le> f x \<and> f x \<le> f (last xs)"
proof
  show "f (hd xs) \<le> f x" using assms by (cases xs) auto
  show "f x \<le> f (last xs)" using assms by (cases xs rule: rev_cases) (auto simp: sorted_append)
qed

lemma list_from_honest:
  assumes "honest_pages block_of R page_size window ask" and "0 < page_size" and "0 < window"
    and "window + page_size < 2 ^ 64" and "sorted (map block_of R)" and "to < 2 ^ 64 - 1"
  shows "list_from (window_of ask page_size window) block_of to acc False start =
      Some (Inr \<lparr>li_rows = acc @ rows_between block_of R start to, li_incomplete = False\<rparr>) \<or>
    (\<exists>b. list_from (window_of ask page_size window) block_of to acc False start = Some (Inl (BlockTooLarge b)) \<and>
      start \<le> b \<and> b \<le> to \<and> full_at page_size window \<le> length (rows_between block_of R b b))"
proof (induction "to + 1 - start" arbitrary: start acc rule: less_induct)
  case less
  let ?win = "window_of ask page_size window" and ?K = "full_at page_size window"
  let ?L = "rows_between block_of R start to"
  note win = window_of_honest [OF assms(1-4)]
  have sorted: "sorted (map block_of ?L)" unfolding rows_between_def by (rule sorted_filter [OF assms(5)])
  have K: "0 < ?K" using full_at_bounds(1) [OF assms(2,3)] assms(3) by linarith
  show ?case
  proof (cases "start \<le> to \<and> ?K \<le> length ?L")
    case False
    then show ?thesis
      by (subst list_from.simps) (auto simp: win Let_def rows_between_def not_less filter_empty_conv)
  next
    case True
    define b where "b = block_of (last (take ?K ?L))"
    have ne: "take ?K ?L \<noteq> []" and nL: "?L \<noteq> []" using K True by auto
    have "last (take ?K ?L) \<in> set ?L" using last_in_set [OF ne] by (rule in_set_takeD)
    then have b: "start \<le> b" "b \<le> to" by (simp_all add: b_def rows_between_def)
    show ?thesis
    proof (cases "block_of (hd (take ?K ?L)) = b")
      case same: True
      have "block_of r = b" if "r \<in> set (take ?K ?L)" for r
      proof -
        have "sorted (map block_of (take ?K ?L))" using sorted_wrt_take [OF sorted] by (simp add: take_map)
        from sorted_ends [OF this that]
        show ?thesis using same by (simp add: b_def)
      qed
      then have "filter (\<lambda>r. block_of r = b) (take ?K ?L) = take ?K ?L" by (simp add: filter_id_conv)
      moreover have "rows_between block_of R b b = filter (\<lambda>r. block_of r = b) ?L"
        unfolding rows_between_def filter_filter by (rule filter_cong) (use b in auto)
      moreover have "?L = take ?K ?L @ List.drop ?K ?L" by simp
      ultimately have "?K \<le> length (rows_between block_of R b b)"
        using filter_append [of "\<lambda>r. block_of r = b" "take ?K ?L" "List.drop ?K ?L"] True by simp
      moreover have "list_from ?win block_of to acc False start = Some (Inl (BlockTooLarge b))"
        using True same ne by (subst list_from.simps) (simp add: win Let_def b_def)
      ultimately show ?thesis using b by blast
    next
      case diff: False
      have "(case ?win b b of
                   None \<Rightarrow> None
                 | Some (Inl e) \<Rightarrow> Some (Inl e)
                 | Some (Inr (block_rows, block_full, warned')) \<Rightarrow>
                     if block_full then Some (Inl (BlockTooLarge b))
                     else list_from ?win block_of to (acc @ filter (\<lambda>r. block_of r < b) (take ?K ?L) @ block_rows)
                       (False \<or> False \<or> warned') (wrap_u64 (b + 1))) = list_from ?win block_of to acc False start"
        using True diff ne by (subst (2) list_from.simps) (simp add: win Let_def b_def)
      then have step: "list_from ?win block_of to acc False start =
          (if ?K \<le> length (rows_between block_of R b b) then Some (Inl (BlockTooLarge b))
           else list_from ?win block_of to (acc @ filter (\<lambda>r. block_of r < b) ?L @ rows_between block_of R b b) False (b + 1))"
        using filter_below_take [OF sorted _ K] True b assms(6)
        by (cases "?K \<le> length (rows_between block_of R b b)") (simp_all add: win Let_def b_def [symmetric])
      have "filter (\<lambda>r. block_of r < b) ?L @ rows_between block_of R b to = ?L"
        using rows_between_split [OF assms(5) b(2), of start] b(1) by (simp add: max_def)
      moreover have "filter (\<lambda>r. block_of r < b + 1) (rows_between block_of R b to) @ rows_between block_of R (b + 1) to =
          rows_between block_of R b to"
      proof (cases "b + 1 \<le> to")
        case True
        then show ?thesis using rows_between_split [OF assms(5) True, of b] by (simp add: max_def)
      next
        case False
        then have "rows_between block_of R (b + 1) to = []" "b = to"
          using b by (auto simp: rows_between_def filter_empty_conv)
        then show ?thesis by (simp add: rows_between_def) (rule filter_cong, auto)
      qed
      moreover have "filter (\<lambda>r. block_of r < b + 1) (rows_between block_of R b to) = rows_between block_of R b b"
        unfolding rows_between_def filter_filter by (rule filter_cong) (use b in auto)
      ultimately have parts: "filter (\<lambda>r. block_of r < b) ?L @ rows_between block_of R b b @ rows_between block_of R (b + 1) to = ?L"
        by simp
      have "to + 1 - (b + 1) < to + 1 - start" using b True by linarith
      from less.hyps [OF this, of "acc @ filter (\<lambda>r. block_of r < b) ?L @ rows_between block_of R b b"]
      show ?thesis using step parts b by (auto split: if_splits)
    qed
  qed
qed

section \<open>Properties\<close>

text \<open>
  A list of an address's transfers is read whole or refused: against an explorer that answers, page by page,
  the rows of any range of blocks, the loops end, with every row of the range in order and each once, or with
  the refusal that names a block which alone fills a window. With windows and pages of any size, and so for
  each of the three lists of the client.
\<close>

theorem explorer_list_whole_or_refused:
  assumes "honest_pages block_of R (xp_page_size X) (xp_window X) (page_of V X action address parse)"
    and "0 < xp_page_size X" and "0 < xp_window X" and "xp_window X + xp_page_size X < 2 ^ 64"
    and "sorted (map block_of R)" and "to < 2 ^ 64 - 1"
  shows "list_rows V X action parse block_of address from to =
      Some (Inr \<lparr>li_rows = rows_between block_of R from to, li_incomplete = False\<rparr>) \<or>
    (\<exists>b. list_rows V X action parse block_of address from to = Some (Inl (BlockTooLarge b)) \<and>
      from \<le> b \<and> b \<le> to \<and> xp_window X \<le> length (rows_between block_of R b b))"
  using list_from_honest [OF assms, of "[]" "from"] full_at_bounds(1) [OF assms(2,3)]
  by (auto simp: list_rows_def)

text \<open>An explorer with four transactions, which answers any range of blocks three rows at a time.\<close>

definition sample_row :: "nat \<Rightarrow> jvalue" where
  "sample_row b = VObj [(''hash'', VStr ''0xa''), (''blockNumber'', VStr (show_nat b)), (''timeStamp'', VStr ''2''),
     (''from'', VStr ''0xb''), (''to'', VStr ''0xc''), (''value'', VStr ''5''), (''gasUsed'', VStr ''1''), (''gasPrice'', VStr ''1'')]"

definition sample_tx :: "nat \<Rightarrow> normal_tx" where
  "sample_tx b = \<lparr>nt_hash = ''0xa'', nt_block = b, nt_time_ms = 2000, nt_from = ''0xb'', nt_to = ''0xc'', nt_value = ''5'',
     nt_gas_used = ''1'', nt_gas_price = ''1'', nt_failed = False\<rparr>"

definition sample_blocks :: "nat list" where "sample_blocks = [5, 6, 6, 7]"

definition sample_explorer :: explorer where
  "sample_explorer = with_limits (new_explorer (Blockscout ''http://localhost/'' None)) 3 3"

definition sample_answer :: "nat \<Rightarrow> nat \<Rightarrow> nat \<Rightarrow> jvalue" where
  "sample_answer start to page = VObj [(''status'', VStr ''1''), (''result'',
     VArr (map sample_row (take 3 (List.drop ((page - 1) * 3) (filter (\<lambda>b. start \<le> b \<and> b \<le> to) sample_blocks)))))]"

definition sample_explorer_env :: explorer_env where
  "sample_explorer_env = \<lparr>
     xe_send = (\<lambda>url q attempt. Inr \<lparr>hr_status = 200, hr_status_text = ''200 OK'',
       hr_body = the (map_of q ''startblock'') @ CHR ''/'' # the (map_of q ''endblock'') @ CHR ''/'' # the (map_of q ''page'')\<rparr>),
     xe_from_json = (\<lambda>s. Option.bind (split_once CHR ''/'' s) (\<lambda>(a, r). Option.bind (split_once CHR ''/'' r) (\<lambda>(b, p).
       Some (sample_answer (digits_value a) (digits_value b) (digits_value p)))))\<rparr>"

lemma collect_res_map: "(\<And>x. x \<in> set xs \<Longrightarrow> f (g x) = Inr (h x)) \<Longrightarrow> collect_res f (map g xs) = Inr (map h xs)"
  by (induction xs) auto

lemma sample_row_parsed: "b < 2 ^ 64 \<Longrightarrow> parse_normal_tx (sample_row b) = Inr (sample_tx b)"
proof -
  assume "b < 2 ^ 64"
  then have "number_at (sample_row b) ''blockNumber'' = Inr b"
    by (simp add: number_at_def text_at_def sample_row_def parse_show_nat)
  moreover have "number_at (sample_row b) ''timeStamp'' = Inr 2"
    by (simp add: number_at_def text_at_def sample_row_def parse_u64_def is_digit_def digits_value_def)
  moreover have "lower_at (sample_row b) ''hash'' = Inr ''0xa''" "lower_at (sample_row b) ''from'' = Inr ''0xb''"
      "to_lower (text_or_empty (sample_row b) ''to'') = ''0xc''"
    by (simp_all add: lower_at_def required_at_def text_at_def text_or_empty_def sample_row_def to_lower_def ascii_lower_def)
  moreover have "integer_string_at (sample_row b) ''value'' = Inr ''5''" "integer_string_at (sample_row b) ''gasUsed'' = Inr ''1''"
      "integer_string_at (sample_row b) ''gasPrice'' = Inr ''1''"
    by (simp_all add: integer_string_at_def required_at_def text_at_def sample_row_def is_digit_def)
  moreover have "text_at (sample_row b) ''isError'' = None" "text_at (sample_row b) ''txreceipt_status'' = None"
    by (simp_all add: text_at_def sample_row_def)
  ultimately show ?thesis by (simp add: parse_normal_tx_def sample_tx_def)
qed

lemma sample_explorer_honest:
  "honest_pages nt_block (map sample_tx sample_blocks) 3 3
     (page_of sample_explorer_env sample_explorer ''txlist'' ''0xc'' parse_normal_txs)"
  unfolding honest_pages_def
proof (intro allI impI)
  fix start to page :: nat
  let ?bs = "take 3 (List.drop ((page - 1) * 3) (filter (\<lambda>b. start \<le> b \<and> b \<le> to) sample_blocks))"
  have slash: "CHR ''/'' \<notin> set (show_nat n)" for n
  proof
    assume "CHR ''/'' \<in> set (show_nat n)"
    then have "is_digit CHR ''/''" using show_nat_digits [of n] by (simp add: list_all_iff)
    then show False by (simp add: is_digit_def)
  qed
  have limit: "rate_limit_message (sample_answer start to page) = None"
    by (simp add: rate_limit_message_def sample_answer_def text_or_empty_def text_at_def is_rate_limit_def to_lower_def
        starts_with_def)
  have "explorer_call sample_explorer_env sample_explorer ''account'' ''txlist''
       [(''address'', ''0xc''), (''startblock'', show_nat start), (''endblock'', show_nat to),
        (''page'', show_nat page), (''offset'', show_nat (xp_page_size sample_explorer)), (''sort'', ''asc'')] =
      Inr (sample_answer start to page)"
    using slash show_nat_digits
    by (simp add: explorer_call_def calls_from.simps [of _ _ RATE_LIMIT_RETRIES] explorer_query_def answer_body_def
        sample_explorer_env_def split_once_append limit)
  moreover have "parse_normal_txs (sample_answer start to page) = Inr \<lparr>li_rows = map sample_tx ?bs, li_incomplete = False\<rparr>"
  proof -
    have "answer_rows (sample_answer start to page) = Inr (map sample_row ?bs, False)"
      by (simp add: answer_rows_def sample_answer_def text_or_empty_def text_at_def jat_def is_rate_limit_def to_lower_def
          starts_with_def)
    moreover have "b < 2 ^ 64" if "b \<in> set ?bs" for b
      using that by (auto simp: sample_blocks_def dest!: in_set_takeD in_set_dropD split: if_splits)
    ultimately show ?thesis using collect_res_map [of ?bs parse_normal_tx sample_row sample_tx] sample_row_parsed
      by (simp add: parse_normal_txs_def)
  qed
  moreover have "rows_between nt_block (map sample_tx sample_blocks) start to =
      map sample_tx (filter (\<lambda>b. start \<le> b \<and> b \<le> to) sample_blocks)"
    by (simp add: rows_between_def filter_map comp_def sample_tx_def)
  ultimately show "page_of sample_explorer_env sample_explorer ''txlist'' ''0xc'' parse_normal_txs start to page =
      Inr \<lparr>li_rows = take 3 (List.drop ((page - 1) * 3) (rows_between nt_block (map sample_tx sample_blocks) start to)),
        li_incomplete = False\<rparr>"
    by (simp add: page_of_def take_map drop_map)
qed

theorem explorer_list_whole_or_refused_witness:
  "explorer_normal_txs sample_explorer_env sample_explorer ''0xc'' 5 9 =
     Some (Inr \<lparr>li_rows = map sample_tx [5, 6, 6, 7], li_incomplete = False\<rparr>)"
proof -
  have limits: "xp_page_size sample_explorer = 3" "xp_window sample_explorer = 3"
    by (simp_all add: sample_explorer_def with_limits_def)
  have "rows_between nt_block (map sample_tx sample_blocks) 5 9 = map sample_tx [5, 6, 6, 7]"
    by (simp add: rows_between_def sample_blocks_def sample_tx_def)
  moreover have "length (rows_between nt_block (map sample_tx sample_blocks) b b) < 3" for b
    by (simp add: rows_between_def sample_blocks_def sample_tx_def)
  moreover have "sorted (map nt_block (map sample_tx sample_blocks))"
    by (simp add: sample_blocks_def sample_tx_def)
  ultimately show ?thesis
    using explorer_list_whole_or_refused [of nt_block "map sample_tx sample_blocks" sample_explorer sample_explorer_env
        "''txlist''" "''0xc''" parse_normal_txs 9 5] sample_explorer_honest
    by (auto simp: limits explorer_normal_txs_def not_le [symmetric])
qed

end
