(* ===== verification/WalletPrices.thy ===== *)
theory WalletPrices
  imports WalletWire Market
begin

text \<open>
  services/collector/wallet/client: the price source (prices.rs) and the market a wallet is valued in
  (market.rs). The HTTP exchange at each attempt, the JSON parser, the two readers of a decimal and
  \<open>as_f64\<close> are the parameters of \<open>price_env\<close>; the pauses between calls are left out. The chart's loop
  adds to a \<open>u64\<close> and could wrap around: the outer \<open>None\<close> is a loop that never ends.
\<close>

section \<open>prices.rs\<close>

definition DEFAULT_BASE_URL :: string where "DEFAULT_BASE_URL = ''https://coins.llama.fi''"
definition COINS_PER_REQUEST :: nat where "COINS_PER_REQUEST = 40"
definition POINTS_PER_CHART :: nat where "POINTS_PER_CHART = 500"

datatype price_error = PriceNetwork string | PriceUnexpected string | PriceRateLimited

record price =
  pr_usd :: decimal
  pr_at_ms :: nat

type_synonym prices_found = "string \<Rightarrow> price option"

text \<open>The trait \<open>PriceProvider\<close>.\<close>

record price_provider =
  pp_current :: "string list \<Rightarrow> price_error + prices_found"
  pp_at :: "string list \<Rightarrow> nat \<Rightarrow> price_error + prices_found"
  pp_chart :: "string \<Rightarrow> nat \<Rightarrow> nat \<Rightarrow> nat \<Rightarrow> (price_error + (nat \<times> decimal) list) option"

record price_env =
  pe_send :: "string \<Rightarrow> (string \<times> string) list \<Rightarrow> nat \<Rightarrow> price_error + http_response"
  pe_from_json :: "string \<Rightarrow> jvalue option"
  pe_exact :: "string \<Rightarrow> decimal option"
  pe_scientific :: "string \<Rightarrow> decimal option"
  pe_as_f64 :: "jvalue \<Rightarrow> rat option"

definition decimal_of :: "price_env \<Rightarrow> jvalue \<Rightarrow> decimal option" where
  "decimal_of V value =
     Option.bind (case value of VInt n \<Rightarrow> Some (show_int n) | VFloat s \<Rightarrow> Some s | _ \<Rightarrow> None) (\<lambda>t.
       case pe_exact V t of Some d \<Rightarrow> Some d | None \<Rightarrow> pe_scientific V t)"

definition period_of :: "nat \<Rightarrow> string" where
  "period_of interval_ms =
     (if interval_ms \<le> 300000 then ''5m'' else if interval_ms = 900000 then ''15m''
      else if interval_ms = 1800000 then ''30m'' else if interval_ms = 3600000 then ''1h''
      else if interval_ms = 7200000 then ''2h'' else if interval_ms = 86400000 then ''1d''
      else show_nat (interval_ms div 60000) @ ''m'')"

fun price_attempts :: "(nat \<Rightarrow> price_error + http_response) \<Rightarrow> (string \<Rightarrow> jvalue option) \<Rightarrow> nat \<Rightarrow> price_error + jvalue" where
  "price_attempts send_at from_json left =
     and_then (send_at (RATE_LIMIT_RETRIES - left)) (\<lambda>r.
       if hr_status r = 429
       then (case left of 0 \<Rightarrow> Inl PriceRateLimited | Suc n \<Rightarrow> price_attempts send_at from_json n)
       else if hr_status r < 200 \<or> 300 \<le> hr_status r then Inl (PriceUnexpected (''answered '' @ hr_status_text r))
       else ok_or (PriceUnexpected ''the answer was not JSON'') (from_json (hr_body r)))"

declare price_attempts.simps [simp del]

definition price_get :: "price_env \<Rightarrow> string \<Rightarrow> string \<Rightarrow> (string \<times> string) list \<Rightarrow> price_error + jvalue" where
  "price_get V base_url path q = price_attempts (pe_send V (base_url @ path) q) (pe_from_json V) RATE_LIMIT_RETRIES"

definition priced :: "price_env \<Rightarrow> jvalue \<Rightarrow> price option" where
  "priced V coin =
     (if (case Option.bind (jget ''confidence'' coin) (pe_as_f64 V) of None \<Rightarrow> False | Some c \<Rightarrow> c < 1 / 2) then None
      else Option.bind (Option.bind (jget ''price'' coin) (decimal_of V)) (\<lambda>usd.
           Option.bind (Option.bind (jget ''timestamp'' coin) as_u64) (\<lambda>t.
             Some \<lparr>pr_usd = usd, pr_at_ms = wrap_u64 (t * 1000)\<rparr>)))"

fun join_with :: "string \<Rightarrow> string list \<Rightarrow> string" where
  "join_with sep [] = []"
| "join_with sep [s] = s"
| "join_with sep (s # ss) = s @ sep @ join_with sep ss"

fun as_object :: "jvalue \<Rightarrow> (string \<times> jvalue) list option" where
  "as_object (VObj kvs) = Some kvs"
| "as_object _ = None"

definition insert_priced :: "price_env \<Rightarrow> prices_found \<Rightarrow> string \<times> jvalue \<Rightarrow> prices_found" where
  "insert_priced V found e = (case priced V (snd e) of None \<Rightarrow> found | Some p \<Rightarrow> found(fst e \<mapsto> p))"

fun batch_groups :: "price_env \<Rightarrow> string \<Rightarrow> string \<Rightarrow> (string \<times> string) list \<Rightarrow> prices_found \<Rightarrow> string list list \<Rightarrow>
    price_error + prices_found" where
  "batch_groups V base_url prefix q found [] = Inr found"
| "batch_groups V base_url prefix q found (grp # groups) =
     and_then (price_get V base_url (prefix @ join_with '','' grp) q) (\<lambda>body.
     and_then (ok_or (PriceUnexpected ''no coins in the answer'') (Option.bind (jget ''coins'' body) as_object)) (\<lambda>coins.
       batch_groups V base_url prefix q (foldl (insert_priced V) found coins) groups))"

definition price_batch ::
    "price_env \<Rightarrow> string \<Rightarrow> string \<Rightarrow> string list \<Rightarrow> (string \<times> string) list \<Rightarrow> price_error + prices_found" where
  "price_batch V base_url prefix coins q = batch_groups V base_url prefix q Map.empty (chunks COINS_PER_REQUEST coins)"

definition price_current :: "price_env \<Rightarrow> string \<Rightarrow> string list \<Rightarrow> price_error + prices_found" where
  "price_current V base_url coins = price_batch V base_url ''/prices/current/'' coins []"

definition price_at_moment :: "price_env \<Rightarrow> string \<Rightarrow> string list \<Rightarrow> nat \<Rightarrow> price_error + prices_found" where
  "price_at_moment V base_url coins at_ms =
     price_batch V base_url (''/prices/historical/'' @ show_nat (at_ms div 1000) @ ''/'') coins [(''searchWidth'', ''2h'')]"

definition insert_point :: "price_env \<Rightarrow> (nat, decimal) btree \<Rightarrow> jvalue \<Rightarrow> (nat, decimal) btree" where
  "insert_point V points p =
     (case (Option.bind (jget ''timestamp'' p) as_u64, Option.bind (jget ''price'' p) (decimal_of V)) of
        (Some t, Some d) \<Rightarrow> bt_insert (wrap_u64 (t * 1000)) d points
      | _ \<Rightarrow> points)"

definition chart_rows :: "string \<Rightarrow> jvalue \<Rightarrow> jvalue list" where
  "chart_rows coin body = (case Option.bind (Option.bind (Option.bind (jget ''coins'' body) (jget coin)) (jget ''prices'')) as_array of
       None \<Rightarrow> [] | Some rows \<Rightarrow> rows)"

partial_function (option) chart_from ::
    "(nat \<Rightarrow> nat \<Rightarrow> price_error + jvalue list) \<Rightarrow> ((nat, decimal) btree \<Rightarrow> jvalue \<Rightarrow> (nat, decimal) btree) \<Rightarrow> nat \<Rightarrow> nat \<Rightarrow>
     (nat, decimal) btree \<Rightarrow> nat \<Rightarrow> (price_error + (nat, decimal) btree) option" where
  "chart_from ask put step_ms end_ms points from =
     (if from \<le> end_ms then
        let points_asked = min ((end_ms - from) div step_ms + 1) POINTS_PER_CHART in
        (case ask from points_asked of
           Inl e \<Rightarrow> Some (Inl e)
         | Inr rows \<Rightarrow> chart_from ask put step_ms end_ms (foldl put points rows) (wrap_u64 (from + wrap_u64 (points_asked * step_ms))))
      else Some (Inr points))"

definition chart_page :: "price_env \<Rightarrow> string \<Rightarrow> string \<Rightarrow> string \<Rightarrow> nat \<Rightarrow> nat \<Rightarrow> price_error + jvalue list" where
  "chart_page V base_url coin period from points_asked =
     and_then (price_get V base_url (''/chart/'' @ coin)
       [(''start'', show_nat (from div 1000)), (''span'', show_nat points_asked), (''period'', period)])
       (\<lambda>body. Inr (chart_rows coin body))"

definition price_chart ::
    "price_env \<Rightarrow> string \<Rightarrow> string \<Rightarrow> nat \<Rightarrow> nat \<Rightarrow> nat \<Rightarrow> (price_error + (nat \<times> decimal) list) option" where
  "price_chart V base_url coin start_ms end_ms interval_ms =
     chart_from (chart_page V base_url coin (period_of interval_ms)) (insert_point V) (max interval_ms 300000) end_ms [] start_ms"

definition price_source :: "price_env \<Rightarrow> string \<Rightarrow> price_provider" where
  "price_source V base_url = \<lparr>pp_current = price_current V base_url, pp_at = price_at_moment V base_url,
     pp_chart = price_chart V base_url\<rparr>"

section \<open>market.rs\<close>

text \<open>How a \<open>PriceError\<close> displays.\<close>

fun price_error_text :: "price_error \<Rightarrow> string" where
  "price_error_text (PriceNetwork s) = ''could not reach the price source: '' @ s"
| "price_error_text (PriceUnexpected s) = ''the price source sent something unexpected: '' @ s"
| "price_error_text PriceRateLimited = ''the price source's rate limit was reached''"

definition WALLET_QUOTE_CURRENCY :: string where "WALLET_QUOTE_CURRENCY = ''USD''"

record wallet_market =
  wm_prices :: price_provider
  wm_balances :: "account_balance list"

text \<open>
  The followed assets that have a price now. The first answer is kept in a cell and given again; a
  \<open>price_provider\<close> answers the same question the same way, so the cell is not part of the state.
\<close>

definition priced_assets :: "wallet_market \<Rightarrow> market_error + string set" where
  "priced_assets W =
     (let ids = List.map_filter (\<lambda>b. map_option (Pair (ab_asset b)) (price_id (ab_asset b))) (wm_balances W) in
      and_then (map_err (\<lambda>e. MarketError (price_error_text e)) (pp_current (wm_prices W) (map snd ids))) (\<lambda>found.
        Inr (fst ` set (filter (\<lambda>(_, i). found i \<noteq> None) ids))))"

definition price_id_of :: "string \<Rightarrow> market_error + string" where
  "price_id_of asset = ok_or (MarketError (asset @ '' is not an asset that can be priced'')) (price_id asset)"

definition wallet_symbol :: "string \<Rightarrow> string" where
  "wallet_symbol asset = asset @ ''-'' @ WALLET_QUOTE_CURRENCY"

definition asset_of_symbol :: "string \<Rightarrow> string option" where
  "asset_of_symbol symbol = strip_suffix symbol (''-'' @ WALLET_QUOTE_CURRENCY)"

definition wallet_symbol_assets :: "wallet_market \<Rightarrow> string set \<Rightarrow> market_error + symbol_assets" where
  "wallet_symbol_assets W symbols =
     and_then (priced_assets W) (\<lambda>priced.
       Inr (\<lambda>symbol. if symbol \<in> symbols
         then Option.bind (asset_of_symbol symbol) (\<lambda>asset.
           if asset \<in> priced then Some (asset, WALLET_QUOTE_CURRENCY) else None)
         else None))"

definition point_candle :: "(decimal \<Rightarrow> string) \<Rightarrow> nat \<Rightarrow> nat \<times> decimal \<Rightarrow> raw_candle" where
  "point_candle shown interval_ms p = \<lparr>rk_open_time_ms = wrap_u64 (fst p - interval_ms + 1),
     rk_close_price = shown (snd p), rk_close_time_ms = fst p\<rparr>"

definition wallet_candles_span ::
    "(decimal \<Rightarrow> string) \<Rightarrow> wallet_market \<Rightarrow> string \<Rightarrow> nat \<Rightarrow> nat \<Rightarrow> nat \<Rightarrow> (market_error + raw_candle list) option" where
  "wallet_candles_span shown W symbol interval_ms start_ms end_ms =
     and_thenp (Some (ok_or (MarketError (symbol @ '' is not a market of this wallet'')) (asset_of_symbol symbol))) (\<lambda>asset.
     and_thenp (Some (price_id_of asset)) (\<lambda>i.
     and_thenp (map_option (map_err (\<lambda>e. MarketError (price_error_text e))) (pp_chart (wm_prices W) i start_ms end_ms interval_ms)) (\<lambda>points.
       Some (Inr (map (point_candle shown interval_ms) points)))))"

definition wallet_price_at_instant :: "wallet_market \<Rightarrow> string \<Rightarrow> nat \<Rightarrow> market_error + decimal" where
  "wallet_price_at_instant W asset at_ms =
     and_then (price_id_of asset) (\<lambda>i.
     and_then (map_err (\<lambda>e. MarketError (price_error_text e)) (pp_at (wm_prices W) [i] at_ms)) (\<lambda>found.
       ok_or (MarketError (asset @ '': no price near '' @ show_nat at_ms)) (map_option pr_usd (found i))))"

section \<open>The chart's loop ends\<close>

lemma chart_from_ends:
  assumes "300000 \<le> step_ms" and "end_ms + 500 * step_ms < 2 ^ 64"
  shows "from < 2 ^ 64 \<Longrightarrow> \<exists>r. chart_from ask put step_ms end_ms points from = Some r"
proof (induction "end_ms + 1 - from" arbitrary: "from" points rule: less_induct)
  case less
  show ?case
  proof (cases "from \<le> end_ms")
    case False
    then show ?thesis by (subst chart_from.simps) simp
  next
    case True
    define points_asked where "points_asked = min ((end_ms - from) div step_ms + 1) POINTS_PER_CHART"
    have c: "1 \<le> points_asked" "points_asked \<le> 500" by (simp_all add: points_asked_def POINTS_PER_CHART_def)
    have le: "points_asked * step_ms \<le> 500 * step_ms" by (rule mult_le_mono1 [OF c(2)])
    have "1 * step_ms \<le> points_asked * step_ms" by (rule mult_le_mono1 [OF c(1)])
    then have up: "from + 300000 \<le> from + points_asked * step_ms" using assms(1) by linarith
    have lt: "from + points_asked * step_ms < 2 ^ 64" using le assms(2) True by linarith
    moreover from lt have "points_asked * step_ms < 2 ^ 64" by linarith
    ultimately have w: "wrap_u64 (from + wrap_u64 (points_asked * step_ms)) = from + points_asked * step_ms"
        "from + points_asked * step_ms < 2 ^ 64" by (simp_all only: wrap_u_id)
    have "\<exists>r. chart_from ask put step_ms end_ms ps (from + points_asked * step_ms) = Some r" for ps
      using True up w(2) by (intro less.hyps) linarith+
    moreover have "chart_from ask put step_ms end_ms points from = (case ask from points_asked of
           Inl e \<Rightarrow> Some (Inl e)
         | Inr rows \<Rightarrow> chart_from ask put step_ms end_ms (foldl put points rows) (from + points_asked * step_ms))"
      by (subst chart_from.simps) (simp only: Let_def points_asked_def [symmetric] w(1) True if_True)
    ultimately show ?thesis by (cases "ask from points_asked") simp_all
  qed
qed

text \<open>The market of a wallet as the engine sees it; the chart's loop is taken to end, as it does here.\<close>

definition wallet_data :: "(decimal \<Rightarrow> string) \<Rightarrow> wallet_market \<Rightarrow> market" where
  "wallet_data shown W =
     \<lparr>mkt_quote_currency = WALLET_QUOTE_CURRENCY,
      mkt_market_symbol = wallet_symbol,
      mkt_symbol_assets_for = wallet_symbol_assets W,
      mkt_account_balances = Inr (wm_balances W),
      mkt_candles_span = (\<lambda>symbol interval_ms start_ms end_ms. the (wallet_candles_span shown W symbol interval_ms start_ms end_ms)),
      mkt_price_at_instant = wallet_price_at_instant W\<rparr>"

lemma wallet_candles_span_ends:
  assumes "wm_prices W = price_source V base_url" and "end_ms + 500 * max interval_ms 300000 < 2 ^ 64" and "start_ms < 2 ^ 64"
  shows "\<exists>r. wallet_candles_span shown W symbol interval_ms start_ms end_ms = Some r"
proof -
  have "\<exists>r. price_chart V base_url i start_ms end_ms interval_ms = Some r" for i
    unfolding price_chart_def by (rule chart_from_ends [OF _ assms(2,3)]) simp
  then obtain f where "\<And>i. price_chart V base_url i start_ms end_ms interval_ms = Some (f i)" by metis
  then show ?thesis
    by (auto simp: wallet_candles_span_def assms(1) price_source_def and_thenp_def split: sum.split)
qed

text \<open>A market exists for each priced asset of the wallet, under its own symbol, and for no other symbol.\<close>

lemma wallet_symbol_of: "asset_of_symbol s = Some a \<longleftrightarrow> s = wallet_symbol a"
  by (simp add: asset_of_symbol_def wallet_symbol_def strip_suffix_Some)

lemma wallet_markets_are_priced_assets:
  assumes "wallet_symbol_assets W symbols = Inr found" and "priced_assets W = Inr held"
  shows "found s = Some (a, q) \<longleftrightarrow> s \<in> symbols \<and> s = wallet_symbol a \<and> a \<in> held \<and> q = WALLET_QUOTE_CURRENCY"
proof -
  have "found = (\<lambda>symbol. if symbol \<in> symbols then Option.bind (asset_of_symbol symbol) (\<lambda>asset.
           if asset \<in> held then Some (asset, WALLET_QUOTE_CURRENCY) else None) else None)"
    using assms by (simp add: wallet_symbol_assets_def)
  then show ?thesis by (auto simp: Option.bind_eq_Some_conv wallet_symbol_of split: if_splits)
qed

end
