(* ===== verification/WalletRead.thy ===== *)
theory WalletRead
  imports Explorer WalletPrices
begin

text \<open>
  services/collector/wallet/client, snapshot.rs: one reading of an address on one network, and what its
  balances changed by that the transfers do not explain. The arithmetic and the exact reader of decimals are
  parameters; the outer \<open>None\<close> is a panic of the arithmetic or of the reader.
\<close>

section \<open>snapshot.rs\<close>

definition DUST_UNITS :: nat where "DUST_UNITS = 10"

datatype snapshot_error = SnapRead read_error | SnapPrice price_error | ExplorerBehind nat nat

record token_meta =
  tm_contract :: string
  tm_symbol :: string
  tm_decimals :: nat

record read_request =
  rq_chain :: chain
  rq_address :: string
  rq_after_block :: "nat option"
  rq_known_assets :: "string set"

record reading =
  rg_head :: nat
  rg_end :: nat
  rg_confirmed :: "effect list"
  rg_anchor :: "(string, decimal) btree"
  rg_tokens :: "(string, token_meta) btree"
  rg_transfers_incomplete :: bool
  rg_unrepresentable :: "string set"
  rg_ignored_unpriced :: nat

definition or_insert_meta :: "string \<Rightarrow> token_meta \<Rightarrow> (string, token_meta) btree \<Rightarrow> (string, token_meta) btree" where
  "or_insert_meta asset m meta = (if map_of meta asset = None then bt_insert asset m meta else meta)"

definition transfer_meta :: "chain \<Rightarrow> (string, token_meta) btree \<Rightarrow> token_transfer \<Rightarrow> (string, token_meta) btree" where
  "transfer_meta c meta t = or_insert_meta (token_asset c (tt_contract t))
     \<lparr>tm_contract = tt_contract t, tm_symbol = tt_symbol t, tm_decimals = tt_decimals t\<rparr> meta"

definition listed_meta :: "chain \<Rightarrow> (string, token_meta) btree \<Rightarrow> held_token \<Rightarrow> (string, token_meta) btree" where
  "listed_meta c meta t = or_insert_meta (token_asset c (ht_contract t))
     \<lparr>tm_contract = ht_contract t, tm_symbol = ht_symbol t, tm_decimals = ht_decimals t\<rparr> meta"

text \<open>The rows of the range: none when the range is empty.\<close>

definition range_rows ::
    "chain_reader \<Rightarrow> string \<Rightarrow> nat \<Rightarrow> nat \<Rightarrow>
     (snapshot_error + normal_tx listing \<times> internal_tx listing \<times> token_transfer listing) option" where
  "range_rows reader address from until =
     (if from \<le> until then
        and_thenp (map_option (map_err SnapRead) (cr_normal_txs reader address from until)) (\<lambda>normal.
        and_thenp (map_option (map_err SnapRead) (cr_internal_txs reader address from until)) (\<lambda>internal.
        and_thenp (map_option (map_err SnapRead) (cr_token_transfers reader address from until)) (\<lambda>tokens.
          Some (Inr (normal, internal, tokens)))))
      else Some (Inr (\<lparr>li_rows = [], li_incomplete = False\<rparr>, \<lparr>li_rows = [], li_incomplete = False\<rparr>,
        \<lparr>li_rows = [], li_incomplete = False\<rparr>)))"

text \<open>The balances of the followed tokens, in their order, into the anchor or the unrepresentable.\<close>

definition token_anchor ::
    "(string \<Rightarrow> decimal option) \<Rightarrow> (string, decimal) btree \<times> string set \<Rightarrow> (string \<times> token_meta) \<times> string option \<Rightarrow>
     (string, decimal) btree \<times> string set" where
  "token_anchor parse = (\<lambda>(anchor, unrepresentable) ((asset, m), raw).
     case Option.bind raw (\<lambda>raw. units parse raw (tm_decimals m)) of
       Some balance \<Rightarrow> (bt_insert asset balance anchor, unrepresentable)
     | None \<Rightarrow> (anchor, insert asset unrepresentable))"

definition followed_tokens ::
    "chain \<Rightarrow> string set \<Rightarrow> (string \<Rightarrow> bool) \<Rightarrow> (string, token_meta) btree \<Rightarrow> (string, token_meta) btree" where
  "followed_tokens c must_follow with_price meta =
     filter (\<lambda>(asset, m). asset \<in> must_follow \<or> with_price (token_price_id c (tm_contract m))) meta"

text \<open>
  The stages of \<open>read_chain\<close>: the rows since the last reading and what they did; the tokens to follow; the
  balances as of the block.
\<close>

definition recent_rows :: "chain_reader \<Rightarrow> string \<Rightarrow> nat \<Rightarrow> nat \<Rightarrow> (snapshot_error + token_transfer list) option" where
  "recent_rows reader address until head =
     (if until < head
      then map_option (\<lambda>r. and_then (map_err SnapRead r) (\<lambda>l. Inr (li_rows l)))
        (cr_token_transfers reader address (wrap_u64 (until + 1)) head)
      else Some (Inr []))"

definition tokens_to_follow ::
    "price_provider \<Rightarrow> chain \<Rightarrow> string set \<Rightarrow> (string, token_meta) btree \<Rightarrow> snapshot_error + (string, token_meta) btree" where
  "tokens_to_follow prices c must_follow meta =
     (let unfollowed = filter (\<lambda>(asset, m). asset \<notin> must_follow) meta in
      and_then (if unfollowed = [] then Inr (\<lambda>_. False)
        else and_then (map_err SnapPrice (pp_current prices (map (\<lambda>(_, m). token_price_id c (tm_contract m)) unfollowed)))
          (\<lambda>found. Inr (\<lambda>id. found id \<noteq> None))) (\<lambda>with_price.
        Inr (followed_tokens c must_follow with_price meta)))"

definition anchor_at ::
    "(string \<Rightarrow> decimal option) \<Rightarrow> chain_reader \<Rightarrow> chain \<Rightarrow> string \<Rightarrow> nat \<Rightarrow> string set \<Rightarrow> (string, token_meta) btree \<Rightarrow>
     (snapshot_error + (string, decimal) btree \<times> string set) option" where
  "anchor_at parse reader c address until unrepresentable followed =
     and_thenp (map_option (map_err SnapRead) (cr_native_balance_at reader address until)) (\<lambda>raw.
     and_thenp (if followed = [] then Some (Inr [])
       else map_option (map_err SnapRead) (cr_token_balances_at reader address (map (tm_contract \<circ> snd) followed) until)) (\<lambda>balances.
       Some (Inr (foldl (token_anchor parse)
         (case units parse raw NATIVE_DECIMALS of
            Some balance \<Rightarrow> ([(native_asset c, balance)], unrepresentable)
          | None \<Rightarrow> ([], insert (native_asset c) unrepresentable))
         (zip followed balances)))))"

definition first_block :: "nat option \<Rightarrow> nat \<Rightarrow> nat" where
  "first_block after until = (case after of None \<Rightarrow> wrap_u64 (until + 1) | Some a \<Rightarrow> wrap_u64 (a + 1))"

definition read_at ::
    "arith \<Rightarrow> (string \<Rightarrow> decimal option) \<Rightarrow> chain_reader \<Rightarrow> price_provider \<Rightarrow> read_request \<Rightarrow> nat \<Rightarrow> nat \<Rightarrow>
     (snapshot_error + reading) option" where
  "read_at A parse reader prices q head until =
     (let c = rq_chain q; address = to_lower (rq_address q) in
      and_thenp (range_rows reader address (first_block (rq_after_block q) until) until) (\<lambda>rows.
      Option.bind (effects_of A parse c address (li_rows (fst rows)) (li_rows (fst (snd rows))) (li_rows (snd (snd rows)))) (\<lambda>es.
      and_thenp (recent_rows reader address until head) (\<lambda>recent.
      let moved = li_rows (snd (snd rows)) @ recent;
          must_follow = rq_known_assets q \<union> ef_asset ` set (es_list es) \<union> (\<lambda>t. token_asset c (tt_contract t)) ` set moved
      in and_thenp (map_option (map_err SnapRead) (cr_tokens reader address)) (\<lambda>listed.
      let meta = foldl (listed_meta c) (foldl (transfer_meta c) [] moved) listed
      in and_thenp (Some (tokens_to_follow prices c must_follow meta)) (\<lambda>followed.
      and_thenp (anchor_at parse reader c address until (es_unrepresentable es) followed) (\<lambda>balances.
        Some (Inr \<lparr>rg_head = head, rg_end = until, rg_confirmed = es_list es, rg_anchor = fst balances, rg_tokens = followed,
          rg_transfers_incomplete = (li_incomplete (fst rows) \<or> li_incomplete (fst (snd rows)) \<or> li_incomplete (snd (snd rows))),
          rg_unrepresentable = snd balances, rg_ignored_unpriced = length meta - length followed\<rparr>))))))))"

definition read_chain ::
    "arith \<Rightarrow> (string \<Rightarrow> decimal option) \<Rightarrow> chain_reader \<Rightarrow> price_provider \<Rightarrow> read_request \<Rightarrow>
     (snapshot_error + reading option) option" where
  "read_chain A parse reader prices q =
     and_thenp (Some (map_err SnapRead (cr_head_block reader))) (\<lambda>head.
     let until = head - ch_confirmations (rq_chain q) in
     if (case rq_after_block q of None \<Rightarrow> False | Some after \<Rightarrow> until \<le> after) then Some (Inr None)
     else and_thenp (Some (map_err SnapRead (cr_indexed_block reader))) (\<lambda>indexed.
       if indexed < until then Some (Inl (ExplorerBehind indexed until))
       else map_option (\<lambda>r. and_then r (\<lambda>reading. Inr (Some reading))) (read_at A parse reader prices q head until)))"

text \<open>\<open>Decimal::new\<close> panics beyond 28 decimals.\<close>

definition decimal_new :: "int \<Rightarrow> nat \<Rightarrow> decimal option" where
  "decimal_new n scale = (if scale \<le> 28 then Some (of_int n / 10 ^ scale) else None)"

definition explain :: "arith \<Rightarrow> (string, decimal) btree \<Rightarrow> effect \<Rightarrow> (string, decimal) btree option" where
  "explain A explained e =
     map_option (\<lambda>d. bt_insert (ef_asset e) d explained)
       (dadd A (case map_of explained (ef_asset e) of None \<Rightarrow> 0 | Some d \<Rightarrow> d) (ef_delta e))"

definition or_zero_at :: "(string, decimal) btree \<Rightarrow> string \<Rightarrow> decimal" where
  "or_zero_at m asset = (case map_of m asset of None \<Rightarrow> 0 | Some d \<Rightarrow> d)"

definition difference_of ::
    "arith \<Rightarrow> (string, decimal) btree \<Rightarrow> (string, decimal) btree \<Rightarrow> (string, decimal) btree \<Rightarrow> string \<Rightarrow> decimal option" where
  "difference_of A previous explained anchor asset =
     Option.bind (dsub A (or_zero_at anchor asset) (or_zero_at previous asset)) (\<lambda>d.
       dsub A d (or_zero_at explained asset))"

fun unexplained_loop ::
    "(string \<Rightarrow> decimal option) \<Rightarrow> (string \<Rightarrow> nat) \<Rightarrow> string list \<Rightarrow> (string, decimal) btree option" where
  "unexplained_loop difference decimals_of [] = Some []"
| "unexplained_loop difference decimals_of (asset # assets) =
     Option.bind (difference asset) (\<lambda>d.
     Option.bind (decimal_new (int DUST_UNITS) (decimals_of asset)) (\<lambda>dust.
     Option.bind (unexplained_loop difference decimals_of assets) (\<lambda>out.
       Some (if \<bar>d\<bar> > dust then (asset, d) # out else out))))"

definition unexplained ::
    "arith \<Rightarrow> (string, decimal) btree \<Rightarrow> effect list \<Rightarrow> (string, decimal) btree \<Rightarrow> (string \<Rightarrow> nat) \<Rightarrow>
     (string, decimal) btree option" where
  "unexplained A previous confirmed anchor decimals_of =
     Option.bind (try_fold (explain A) [] confirmed) (\<lambda>explained.
       unexplained_loop (difference_of A previous explained anchor) decimals_of
         (sorted_list_of_set (fst ` set previous \<union> fst ` set anchor \<union> fst ` set explained)))"

section \<open>What a reading says of an honest chain\<close>

definition native_balance_of :: "rat \<Rightarrow> string \<Rightarrow> normal_tx list \<Rightarrow> internal_tx list \<Rightarrow> nat \<Rightarrow> rat" where
  "native_balance_of opening me normal internal b =
     opening + (\<Sum>tx\<leftarrow>rows_between nt_block normal 0 b. normal_net me tx) +
     (\<Sum>tx\<leftarrow>rows_between it_block internal 0 b. internal_net me tx)"

definition token_balance_of :: "rat \<Rightarrow> string \<Rightarrow> token_transfer list \<Rightarrow> string \<Rightarrow> nat \<Rightarrow> rat" where
  "token_balance_of opening me tokens k b =
     opening + (\<Sum>tx\<leftarrow>rows_between tt_block tokens 0 b. if tt_contract tx = k then token_net me tx else 0)"

text \<open>The names of contracts: lower case, and not the word for the native asset.\<close>

definition contract_name :: "string \<Rightarrow> bool" where
  "contract_name k \<longleftrightarrow> to_lower k = k \<and> starts_with k ''0x''"

lemma token_asset_inj: "contract_name k \<Longrightarrow> contract_name k' \<Longrightarrow> token_asset c k = token_asset c k' \<longleftrightarrow> k = k'"
  by (auto simp: token_asset_def contract_name_def)

lemma token_not_native: "contract_name k \<Longrightarrow> token_asset c k \<noteq> native_asset c"
  by (auto simp: token_asset_def native_asset_def contract_name_def starts_with_iff)

lemma rows_between_empty: "b < a \<Longrightarrow> rows_between f R a b = []"
  by (auto simp: rows_between_def filter_empty_conv)

lemma mapped_Inr: "map_option (map_err f) x = Some (Inr y) \<longleftrightarrow> x = Some (Inr y)"
  by (cases x) auto

lemma rows_between_sum:
  fixes f :: "'a \<Rightarrow> rat"
  assumes "b \<le> b'"
  shows "(\<Sum>x\<leftarrow>rows_between g R 0 b'. f x) = (\<Sum>x\<leftarrow>rows_between g R 0 b. f x) + (\<Sum>x\<leftarrow>rows_between g R (b + 1) b'. f x)"
  using assms by (induction R) (auto simp: rows_between_def)

lemma or_insert_meta_set: "set (or_insert_meta a m meta) \<subseteq> insert (a, m) (set meta)"
  using bt_insert_subset [of a m meta] by (auto simp: or_insert_meta_def)

lemma foldl_meta:
  assumes "\<And>meta x. x \<in> set xs \<Longrightarrow> set (f meta x) \<subseteq> insert (g x) (set meta)" and "\<And>x. x \<in> set xs \<Longrightarrow> P (g x)"
    and "\<And>e. e \<in> set meta \<Longrightarrow> P e" and "e \<in> set (foldl f meta xs)"
  shows "P e"
  using assms
proof (induction xs arbitrary: meta)
  case (Cons x xs)
  have "P e'" if "e' \<in> set (f meta x)" for e'
    using Cons.prems(1) [of x meta] Cons.prems(2) [of x] Cons.prems(3) that by auto
  then show ?case using Cons.IH [of "f meta x"] Cons.prems(1,2,4) by simp
qed simp

lemma token_anchor_entries:
  assumes "foldl (token_anchor parse) start zs = (anchor, unrep)" and "bt_ok (fst start)"
  shows "bt_ok anchor \<and> snd start \<subseteq> unrep \<and>
    (\<forall>a x. map_of anchor a = Some x \<longrightarrow> map_of (fst start) a = Some x \<or>
       (\<exists>m raw. ((a, m), Some raw) \<in> set zs \<and> units parse raw (tm_decimals m) = Some x))"
  using assms
proof (induction zs arbitrary: start)
  case (Cons z zs)
  obtain anc un asset m raw where s: "start = (anc, un)" and z: "z = ((asset, m), raw)" by (metis surj_pair)
  define start' where "start' = token_anchor parse start z"
  have ok: "bt_ok (fst start')" and un: "un \<subseteq> snd start'"
    and entries: "\<And>a x. map_of (fst start') a = Some x \<Longrightarrow> map_of anc a = Some x \<or>
      a = asset \<and> (\<exists>raw'. raw = Some raw' \<and> units parse raw' (tm_decimals m) = Some x)"
    using Cons.prems(2) by (auto simp: start'_def s z token_anchor_def bt_ok_insert Option.bind_eq_Some_conv
        split: option.splits if_splits)
  have "foldl (token_anchor parse) start' zs = (anchor, unrep)" using Cons.prems(1) by (simp add: start'_def)
  from Cons.IH [OF this ok] show ?case using un entries unfolding s z fst_conv snd_conv by (simp, blast)
qed simp

text \<open>What the steps of a successful reading were.\<close>

lemma read_at_steps:
  assumes "read_at A parse reader prices q head until = Some (Inr r)" and "c = rq_chain q" and "me = to_lower (rq_address q)"
  obtains normal internal tokens es recent listed followed where
    "range_rows reader me (first_block (rq_after_block q) until) until = Some (Inr (normal, internal, tokens))"
    and "effects_of A parse c me (li_rows normal) (li_rows internal) (li_rows tokens) = Some es"
    and "rg_confirmed r = es_list es" and "rg_end r = until"
    and "recent_rows reader me until head = Some (Inr recent)"
    and "cr_tokens reader me = Some (Inr listed)"
    and "set followed \<subseteq> set (foldl (listed_meta c) (foldl (transfer_meta c) [] (li_rows tokens @ recent)) listed)"
    and "anchor_at parse reader c me until (es_unrepresentable es) followed = Some (Inr (rg_anchor r, rg_unrepresentable r))"
proof -
  obtain rows es recent listed followed balances where
    *: "range_rows reader me (first_block (rq_after_block q) until) until = Some (Inr rows)"
      "effects_of A parse c me (li_rows (fst rows)) (li_rows (fst (snd rows))) (li_rows (snd (snd rows))) = Some es"
      "recent_rows reader me until head = Some (Inr recent)"
      "map_option (map_err SnapRead) (cr_tokens reader me) = Some (Inr listed)"
    and f: "tokens_to_follow prices c (rq_known_assets q \<union> ef_asset ` set (es_list es) \<union>
        (\<lambda>t. token_asset c (tt_contract t)) ` set (li_rows (snd (snd rows)) @ recent))
        (foldl (listed_meta c) (foldl (transfer_meta c) [] (li_rows (snd (snd rows)) @ recent)) listed) = Inr followed"
    and a: "anchor_at parse reader c me until (es_unrepresentable es) followed = Some (Inr balances)"
    and r: "rg_confirmed r = es_list es" "rg_end r = until" "rg_anchor r = fst balances" "rg_unrepresentable r = snd balances"
    using assms(1) unfolding read_at_def Let_def assms(2,3) [symmetric] and_thenp_Inr Option.bind_eq_Some_conv option.inject sum.inject
    by (elim exE conjE) (rule that, assumption+, auto)
  have "set followed \<subseteq> set (foldl (listed_meta c) (foldl (transfer_meta c) [] (li_rows (snd (snd rows)) @ recent)) listed)"
    using f by (auto simp: tokens_to_follow_def Let_def followed_tokens_def)
  moreover have "cr_tokens reader me = Some (Inr listed)" using *(4) by (cases "cr_tokens reader me") auto
  ultimately show ?thesis using that [of "fst rows" "fst (snd rows)" "snd (snd rows)" es recent listed followed] * a r by simp
qed

lemma read_chain_reads:
  assumes "read_chain A parse reader prices q = Some (Inr (Some r))"
  obtains head where "cr_head_block reader = Inr head" and "rg_end r = head - ch_confirmations (rq_chain q)"
    and "\<And>after. rq_after_block q = Some after \<Longrightarrow> after < rg_end r"
    and "read_at A parse reader prices q head (rg_end r) = Some (Inr r)"
proof -
  obtain head where h: "cr_head_block reader = Inr head"
    and late: "\<not> (case rq_after_block q of None \<Rightarrow> False | Some after \<Rightarrow> head - ch_confirmations (rq_chain q) \<le> after)"
    and r: "map_option (\<lambda>r. and_then r (\<lambda>reading. Inr (Some reading)))
      (read_at A parse reader prices q head (head - ch_confirmations (rq_chain q))) = Some (Inr (Some r))"
    using assms unfolding read_chain_def Let_def and_thenp_Inr by (auto simp: and_thenp_Inr split: if_split_asm)
  then obtain x where x: "read_at A parse reader prices q head (head - ch_confirmations (rq_chain q)) = Some x"
    and "and_then x (\<lambda>reading. Inr (Some reading)) = Inr (Some r)" by auto
  then have read: "read_at A parse reader prices q head (head - ch_confirmations (rq_chain q)) = Some (Inr r)" by auto
  then have e: "rg_end r = head - ch_confirmations (rq_chain q)" using read_at_steps [OF read refl refl] by metis
  show ?thesis using that [OF h e] late read e by (auto split: option.splits)
qed

text \<open>A reading has one balance for each asset and one effect for each transaction, asset and kind.\<close>

lemma read_chain_distinct:
  assumes "read_chain A parse reader prices q = Some (Inr (Some r))"
  shows "bt_ok (rg_anchor r) \<and> distinct (map (\<lambda>e. (ef_tx_hash e, ef_asset e, ef_kind e)) (rg_confirmed r))"
proof -
  obtain head where at: "read_at A parse reader prices q head (rg_end r) = Some (Inr r)" using read_chain_reads [OF assms] by metis
  obtain rows1 rows2 rows3 followed and es :: effects where
    es: "effects_of A parse (rq_chain q) (to_lower (rq_address q)) rows1 rows2 rows3 = Some es"
    and list: "rg_confirmed r = es_list es"
    and anchor: "anchor_at parse reader (rq_chain q) (to_lower (rq_address q)) (rg_end r) (es_unrepresentable es) followed =
      Some (Inr (rg_anchor r, rg_unrepresentable r))"
    by (rule read_at_steps [OF at refl refl]) (rule that, assumption+)
  obtain raw balances where fold: "foldl (token_anchor parse) (case units parse raw NATIVE_DECIMALS of
          Some balance \<Rightarrow> ([(native_asset (rq_chain q), balance)], es_unrepresentable es)
        | None \<Rightarrow> ([], insert (native_asset (rq_chain q)) (es_unrepresentable es))) (zip followed balances) = (rg_anchor r, rg_unrepresentable r)"
    using anchor unfolding anchor_at_def and_thenp_Inr by auto
  have "bt_ok (fst (case units parse raw NATIVE_DECIMALS of
          Some balance \<Rightarrow> ([(native_asset (rq_chain q), balance)], es_unrepresentable es)
        | None \<Rightarrow> ([], insert (native_asset (rq_chain q)) (es_unrepresentable es))))"
    by (auto simp: bt_ok_def split: option.split)
  from token_anchor_entries [OF fold this] effects_of_keys [OF es] show ?thesis by (simp add: list)
qed

definition balance_is ::
    "rat \<Rightarrow> (string \<Rightarrow> rat) \<Rightarrow> string \<Rightarrow> normal_tx list \<Rightarrow> internal_tx list \<Rightarrow> token_transfer list \<Rightarrow>
     chain \<Rightarrow> string \<Rightarrow> nat \<Rightarrow> rat \<Rightarrow> bool" where
  "balance_is native_opening token_opening me normal internal tokens c a b x \<longleftrightarrow>
     (if a = native_asset c then x = native_balance_of native_opening me normal internal b
      else \<exists>k. contract_name k \<and> a = token_asset c k \<and> x = token_balance_of (token_opening k) me tokens k b)"

text \<open>What a chain says of an address up to a block.\<close>

definition history_until ::
    "string \<Rightarrow> rat \<Rightarrow> (string \<Rightarrow> rat) \<Rightarrow> normal_tx list \<Rightarrow> internal_tx list \<Rightarrow> token_transfer list \<Rightarrow> nat \<Rightarrow>
     string \<times> rat \<times> (string \<Rightarrow> rat) \<times> normal_tx list \<times> internal_tx list \<times> token_transfer list" where
  "history_until me native_opening token_opening normal internal tokens b =
     (me, native_opening, token_opening, rows_between nt_block normal 0 b, rows_between it_block internal 0 b,
      rows_between tt_block tokens 0 b)"

lemma sum_list_zero: "(\<And>x. x \<in> set xs \<Longrightarrow> f x = (0 :: rat)) \<Longrightarrow> (\<Sum>x\<leftarrow>xs. f x) = 0"
  by (induction xs) auto

text \<open>
  The contract of a chain reader: the rows are those of the chain between two blocks, and the balances as of a
  block are the opening balances and what the rows up to it moved. A contract has the same decimals wherever
  it is named.
\<close>

locale honest_reader =
  fixes reader :: "'s \<Rightarrow> chain_reader"
    and ok :: "'s \<Rightarrow> bool"
    and me :: "'s \<Rightarrow> string"
    and normal :: "'s \<Rightarrow> normal_tx list"
    and internal :: "'s \<Rightarrow> internal_tx list"
    and tokens :: "'s \<Rightarrow> token_transfer list"
    and native_opening :: "'s \<Rightarrow> rat"
    and token_opening :: "'s \<Rightarrow> string \<Rightarrow> rat"
    and decimals :: "'s \<Rightarrow> string \<Rightarrow> nat"
  assumes normal_rows: "ok s \<Longrightarrow> cr_normal_txs (reader s) (me s) start until = Some (Inr l1) \<Longrightarrow>
      li_rows l1 = rows_between nt_block (normal s) start until"
    and internal_rows: "ok s \<Longrightarrow> cr_internal_txs (reader s) (me s) start until = Some (Inr l2) \<Longrightarrow>
      li_rows l2 = rows_between it_block (internal s) start until"
    and token_rows: "ok s \<Longrightarrow> cr_token_transfers (reader s) (me s) start until = Some (Inr l3) \<Longrightarrow>
      li_rows l3 = rows_between tt_block (tokens s) start until"
    and native_balance: "ok s \<Longrightarrow> cr_native_balance_at (reader s) (me s) b = Some (Inr raw) \<Longrightarrow>
      raw_amount raw NATIVE_DECIMALS = native_balance_of (native_opening s) (me s) (normal s) (internal s) b"
    and token_balances: "ok s \<Longrightarrow> cr_token_balances_at (reader s) (me s) ks b = Some (Inr rs) \<Longrightarrow>
      (k, Some raw) \<in> set (zip ks rs) \<Longrightarrow> contract_name k \<Longrightarrow>
      raw_amount raw (decimals s k) = token_balance_of (token_opening s k) (me s) (tokens s) k b"
    and transfer_contract: "ok s \<Longrightarrow> t \<in> set (tokens s) \<Longrightarrow>
      contract_name (tt_contract t) \<and> tt_decimals t = decimals s (tt_contract t)"
    and listed_contract: "ok s \<Longrightarrow> cr_tokens (reader s) (me s) = Some (Inr hs) \<Longrightarrow> h \<in> set hs \<Longrightarrow>
      contract_name (ht_contract h) \<and> ht_decimals h = decimals s (ht_contract h)"
begin

lemma range_rows_honest:
  assumes "ok s" and "range_rows (reader s) (me s) start until = Some (Inr (l1, l2, l3))"
  shows "li_rows l1 = rows_between nt_block (normal s) start until \<and>
    li_rows l2 = rows_between it_block (internal s) start until \<and>
    li_rows l3 = rows_between tt_block (tokens s) start until"
proof (cases "start \<le> until")
  case True
  show ?thesis using assms True normal_rows internal_rows token_rows
    by (auto simp: range_rows_def and_thenp_Inr simp: mapped_Inr)
next
  case False
  then show ?thesis using assms by (auto simp: range_rows_def rows_between_empty)
qed

lemma anchor_is_balance:
  assumes ok: "ok s" and read: "read_chain A parse (reader s) prices q = Some (Inr (Some r))"
    and me: "to_lower (rq_address q) = me s" and ex: "exact_reader parse" and x: "map_of (rg_anchor r) a = Some x"
  shows "balance_is (native_opening s) (token_opening s) (me s) (normal s) (internal s) (tokens s) (rq_chain q) a (rg_end r) x"
proof -
  let ?c = "rq_chain q" and ?b = "rg_end r"
  obtain head where at: "read_at A parse (reader s) prices q head ?b = Some (Inr r)"
    using read_chain_reads [OF read] by metis
  obtain l1 l2 l3 recent listed followed and es :: effects where
    rows: "range_rows (reader s) (me s) (first_block (rq_after_block q) ?b) ?b = Some (Inr (l1, l2, l3))"
    and recent: "recent_rows (reader s) (me s) ?b head = Some (Inr recent)"
    and listed: "cr_tokens (reader s) (me s) = Some (Inr listed)"
    and followed: "set followed \<subseteq> set (foldl (listed_meta ?c) (foldl (transfer_meta ?c) [] (li_rows l3 @ recent)) listed)"
    and anchor: "anchor_at parse (reader s) ?c (me s) ?b (es_unrepresentable es) followed = Some (Inr (rg_anchor r, rg_unrepresentable r))"
    by (rule read_at_steps [OF at refl me [symmetric]]) (rule that, assumption+)
  have moved: "t \<in> set (tokens s)" if "t \<in> set (li_rows l3 @ recent)" for t
  proof -
    have "set (li_rows l3) \<subseteq> set (tokens s)" using range_rows_honest [OF ok rows] by (auto simp: rows_between_def)
    moreover have "set recent \<subseteq> set (tokens s)"
      using recent token_rows [OF ok] by (auto simp: recent_rows_def rows_between_def split: if_splits)
    ultimately show ?thesis using that by auto
  qed
  define good :: "string \<times> token_meta \<Rightarrow> bool" where "good e \<longleftrightarrow> contract_name (tm_contract (snd e)) \<and> fst e = token_asset ?c (tm_contract (snd e)) \<and>
      tm_decimals (snd e) = decimals s (tm_contract (snd e))" for e :: "string \<times> token_meta"
  have 1: "good e" if "e \<in> set (foldl (transfer_meta ?c) [] (li_rows l3 @ recent))" for e
    using that
    by (rule foldl_meta [where g = "\<lambda>t. (token_asset ?c (tt_contract t), \<lparr>tm_contract = tt_contract t,
        tm_symbol = tt_symbol t, tm_decimals = tt_decimals t\<rparr>)", rotated 3])
      (use or_insert_meta_set transfer_contract [OF ok moved] in \<open>auto simp: transfer_meta_def good_def\<close>)
  have tokens_good: "good e" if "e \<in> set followed" for e
    by (rule foldl_meta [where g = "\<lambda>t. (token_asset ?c (ht_contract t), \<lparr>tm_contract = ht_contract t,
        tm_symbol = ht_symbol t, tm_decimals = ht_decimals t\<rparr>)", OF _ _ 1 subsetD [OF followed that]])
      (use or_insert_meta_set listed_contract [OF ok listed] in \<open>auto simp: listed_meta_def good_def\<close>)
  obtain raw balances where native: "cr_native_balance_at (reader s) (me s) ?b = Some (Inr raw)"
    and bal: "(if followed = [] then Some (Inr [])
       else map_option (map_err SnapRead) (cr_token_balances_at (reader s) (me s) (map (tm_contract \<circ> snd) followed) ?b)) = Some (Inr balances)"
    and fold: "foldl (token_anchor parse) (case units parse raw NATIVE_DECIMALS of
            Some balance \<Rightarrow> ([(native_asset ?c, balance)], es_unrepresentable es)
          | None \<Rightarrow> ([], insert (native_asset ?c) (es_unrepresentable es))) (zip followed balances) = (rg_anchor r, rg_unrepresentable r)"
    using anchor unfolding anchor_at_def and_thenp_Inr by (auto simp: mapped_Inr)
  have "bt_ok (fst (case units parse raw NATIVE_DECIMALS of
            Some balance \<Rightarrow> ([(native_asset ?c, balance)], es_unrepresentable es)
          | None \<Rightarrow> ([], insert (native_asset ?c) (es_unrepresentable es))))"
    by (auto simp: bt_ok_def split: option.split)
  from token_anchor_entries [OF fold this] x
  have "map_of (fst (case units parse raw NATIVE_DECIMALS of
            Some balance \<Rightarrow> ([(native_asset ?c, balance)], es_unrepresentable es)
          | None \<Rightarrow> ([], insert (native_asset ?c) (es_unrepresentable es)))) a = Some x \<or>
      (\<exists>m raw. ((a, m), Some raw) \<in> set (zip followed balances) \<and> units parse raw (tm_decimals m) = Some x)"
    by blast
  then have "a = native_asset ?c \<and> units parse raw NATIVE_DECIMALS = Some x \<or>
      (\<exists>m raw. ((a, m), Some raw) \<in> set (zip followed balances) \<and> units parse raw (tm_decimals m) = Some x)"
    by (auto split: option.splits if_splits)
  then consider "a = native_asset ?c" "units parse raw NATIVE_DECIMALS = Some x"
    | m raw' where "((a, m), Some raw') \<in> set (zip followed balances)" "units parse raw' (tm_decimals m) = Some x"
    by blast
  then show ?thesis
  proof cases
    case 1
    then show ?thesis using units_amount [OF ex] native_balance [OF ok native] by (simp add: balance_is_def)
  next
    case 2
    have mem: "(a, m) \<in> set followed" using 2(1) by (rule set_zip_leftD)
    then have good: "contract_name (tm_contract m)" "a = token_asset ?c (tm_contract m)" "tm_decimals m = decimals s (tm_contract m)"
      using tokens_good [OF mem] by (simp_all add: good_def)
    have bal': "cr_token_balances_at (reader s) (me s) (map (tm_contract \<circ> snd) followed) ?b = Some (Inr balances)"
      using bal mem by (auto split: if_splits simp: mapped_Inr)
    have "(tm_contract m, Some raw') \<in> set (zip (map (tm_contract \<circ> snd) followed) balances)"
      using 2(1) by (force simp: zip_map1)
    from token_balances [OF ok bal' this good(1)] show ?thesis
      using good units_amount [OF ex 2(2)] token_not_native [OF good(1)] by (auto simp: balance_is_def)
  qed
qed

lemma confirmed_is_net:
  assumes ok: "ok s" and read: "read_chain exact_arith parse (reader s) prices q = Some (Inr (Some r))"
    and me: "to_lower (rq_address q) = me s" and ex: "exact_reader parse"
    and after: "rq_after_block q = Some b" "b < 2 ^ 64 - 1" and a: "a \<notin> rg_unrepresentable r"
  shows "effect_total (rg_confirmed r) a = net_change (rq_chain q) (me s)
    (rows_between nt_block (normal s) (b + 1) (rg_end r)) (rows_between it_block (internal s) (b + 1) (rg_end r))
    (rows_between tt_block (tokens s) (b + 1) (rg_end r)) a"
proof -
  let ?c = "rq_chain q" and ?b = "rg_end r"
  obtain head where at: "read_at exact_arith parse (reader s) prices q head ?b = Some (Inr r)"
    using read_chain_reads [OF read] by metis
  obtain l1 l2 l3 followed and es :: effects where
    rows: "range_rows (reader s) (me s) (first_block (rq_after_block q) ?b) ?b = Some (Inr (l1, l2, l3))"
    and es: "effects_of exact_arith parse ?c (me s) (li_rows l1) (li_rows l2) (li_rows l3) = Some es"
    and list: "rg_confirmed r = es_list es"
    and anchor: "anchor_at parse (reader s) ?c (me s) ?b (es_unrepresentable es) followed = Some (Inr (rg_anchor r, rg_unrepresentable r))"
    by (rule read_at_steps [OF at refl me [symmetric]]) (rule that, assumption+)
  have "es_unrepresentable es \<subseteq> rg_unrepresentable r"
  proof -
    obtain raw balances where fold: "foldl (token_anchor parse) (case units parse raw NATIVE_DECIMALS of
            Some balance \<Rightarrow> ([(native_asset ?c, balance)], es_unrepresentable es)
          | None \<Rightarrow> ([], insert (native_asset ?c) (es_unrepresentable es))) (zip followed balances) = (rg_anchor r, rg_unrepresentable r)"
      using anchor unfolding anchor_at_def and_thenp_Inr by auto
    show ?thesis
    proof (cases "units parse raw NATIVE_DECIMALS")
      case None
      show ?thesis using token_anchor_entries [OF fold] by (simp add: None)
    next
      case (Some balance)
      show ?thesis using token_anchor_entries [OF fold] by (simp add: Some bt_ok_def)
    qed
  qed
  then have "effect_total (es_list es) a = net_change ?c (to_lower (me s)) (li_rows l1) (li_rows l2) (li_rows l3) a"
    using a by (intro effects_of_total [OF es ex]) blast
  moreover have "to_lower (me s) = me s" using me by (metis to_lower_idem)
  moreover have "first_block (rq_after_block q) ?b = b + 1" using after by (simp add: first_block_def)
  ultimately show ?thesis using range_rows_honest [OF ok rows] list by simp
qed

lemma balances_differ_by_net:
  assumes x: "balance_is (native_opening s) (token_opening s) (me s) (normal s) (internal s) (tokens s) c a b x"
    and y: "balance_is (native_opening s') (token_opening s') (me s') (normal s') (internal s') (tokens s') c a b' y"
    and same: "history_until (me s) (native_opening s) (token_opening s) (normal s) (internal s) (tokens s) b =
      history_until (me s') (native_opening s') (token_opening s') (normal s') (internal s') (tokens s') b" and b: "b \<le> b'" and ok: "ok s'"
  shows "y - x = net_change c (me s') (rows_between nt_block (normal s') (b + 1) b')
    (rows_between it_block (internal s') (b + 1) b') (rows_between tt_block (tokens s') (b + 1) b') a"
proof -
  have names: "contract_name (tt_contract t)" if "t \<in> set (rows_between tt_block (tokens s') i j)" for t i j
    using transfer_contract [OF ok] that by (auto simp: rows_between_def)
  show ?thesis
  proof (cases "a = native_asset c")
    case True
    have "(\<Sum>tx\<leftarrow>rows_between tt_block (tokens s') (b + 1) b'. if token_asset c (tt_contract tx) = a then token_net (me s') tx else 0) = 0"
      using names token_not_native True by (intro sum_list_zero) fastforce
    then show ?thesis using x y same rows_between_sum [OF b, where f = "normal_net (me s')" and g = nt_block and R = "normal s'"]
        rows_between_sum [OF b, where f = "internal_net (me s')" and g = it_block and R = "internal s'"]
      by (simp add: balance_is_def True native_balance_of_def history_until_def net_change_def)
  next
    case False
    then obtain k where k: "contract_name k" "a = token_asset c k" "x = token_balance_of (token_opening s k) (me s) (tokens s) k b"
      using x by (auto simp: balance_is_def)
    obtain k' where k': "contract_name k'" "a = token_asset c k'" "y = token_balance_of (token_opening s' k') (me s') (tokens s') k' b'"
      using y False by (auto simp: balance_is_def)
    have "k' = k" using k k' token_asset_inj by metis
    moreover have "(\<Sum>tx\<leftarrow>rows_between tt_block (tokens s') (b + 1) b'. if token_asset c (tt_contract tx) = a then token_net (me s') tx else 0) =
        (\<Sum>tx\<leftarrow>rows_between tt_block (tokens s') (b + 1) b'. if tt_contract tx = k then token_net (me s') tx else 0)"
      using names token_asset_inj k by (intro arg_cong [of _ _ sum_list] map_cong refl) (simp add: k)
    ultimately show ?thesis using k k' same False
        rows_between_sum [OF b, where f = "\<lambda>tx. if tt_contract tx = k then token_net (me s') tx else 0" and g = tt_block and R = "tokens s'"]
      by (simp add: token_balance_of_def history_until_def net_change_def cong: if_cong)
  qed
qed

text \<open>What the balances of two readings differ by is what the effects between them say.\<close>

lemma readings_explained:
  assumes "ok s" and "ok s'" and "exact_reader parse"
    and "read_chain A parse (reader s) prices q = Some (Inr (Some r))" and "to_lower (rq_address q) = me s"
    and "read_chain exact_arith parse (reader s') prices' q' = Some (Inr (Some r'))" and "to_lower (rq_address q') = me s'"
    and "rq_chain q' = rq_chain q" and "rq_after_block q' = Some (rg_end r)" and "rg_end r < 2 ^ 64 - 1"
    and "history_until (me s) (native_opening s) (token_opening s) (normal s) (internal s) (tokens s) (rg_end r) =
      history_until (me s') (native_opening s') (token_opening s') (normal s') (internal s') (tokens s') (rg_end r)"
    and "map_of (rg_anchor r) a = Some x" and "map_of (rg_anchor r') a = Some y" and "a \<notin> rg_unrepresentable r'"
  shows "y - x = effect_total (rg_confirmed r') a"
proof -
  have later: "rg_end r \<le> rg_end r'" using read_chain_reads [OF assms(6)] assms(9) by (metis less_imp_le)
  have "balance_is (native_opening s') (token_opening s') (me s') (normal s') (internal s') (tokens s') (rq_chain q) a (rg_end r') y"
    using anchor_is_balance [OF assms(2,6,7,3,13)] assms(8) by simp
  from balances_differ_by_net [OF anchor_is_balance [OF assms(1,4,5,3,12)] this assms(11) later assms(2)]
  show ?thesis using confirmed_is_net [OF assms(2,6,7,3,9,10,14)] assms(8) by simp
qed

end

section \<open>What the transfers do not explain\<close>

lemma effect_total_Cons: "effect_total (e # es) a = (if ef_asset e = a then ef_delta e else 0) + effect_total es a"
  by (simp add: effect_total_def)

lemma explain_exact:
  "try_fold (explain exact_arith) m es = Some m' \<Longrightarrow> bt_ok m \<Longrightarrow>
    bt_ok m' \<and> (\<forall>a. or_zero_at m' a = or_zero_at m a + effect_total es a)"
proof (induction es arbitrary: m)
  case (Cons e es)
  define m1 where "m1 = bt_insert (ef_asset e) (or_zero_at m (ef_asset e) + ef_delta e) m"
  have "explain exact_arith m e = Some m1" by (simp add: explain_def m1_def or_zero_at_def)
  then have "try_fold (explain exact_arith) m1 es = Some m'" using Cons.prems(1) by simp
  moreover have "bt_ok m1" using Cons.prems(2) by (simp add: m1_def bt_ok_insert)
  ultimately have "bt_ok m' \<and> (\<forall>a. or_zero_at m' a = or_zero_at m1 a + effect_total es a)" by (rule Cons.IH)
  moreover have "or_zero_at m1 a = or_zero_at m a + (if ef_asset e = a then ef_delta e else 0)" for a
    using Cons.prems(2) by (simp add: m1_def or_zero_at_def)
  ultimately show ?case by (simp add: effect_total_Cons)
qed (simp add: effect_total_def)

lemma unexplained_loop_map:
  assumes "unexplained_loop difference decimals_of assets = Some out" and "distinct assets"
  shows "map_of out a = (if a \<in> set assets then
      (case difference a of None \<Rightarrow> None | Some d \<Rightarrow> if \<bar>d\<bar> > of_nat DUST_UNITS / 10 ^ decimals_of a then Some d else None)
    else None)"
  using assms
proof (induction assets arbitrary: out)
  case (Cons b assets)
  obtain d dust out' where d: "difference b = Some d" and dust: "decimal_new (int DUST_UNITS) (decimals_of b) = Some dust"
    and out': "unexplained_loop difference decimals_of assets = Some out'"
    and out: "out = (if \<bar>d\<bar> > dust then (b, d) # out' else out')"
    using Cons.prems(1) by (auto simp: Option.bind_eq_Some_conv)
  have "dust = of_nat DUST_UNITS / 10 ^ decimals_of b" using dust by (simp add: decimal_new_def split: if_splits)
  then show ?case using Cons.IH [OF out'] Cons.prems(2) d by (auto simp: out)
qed simp

lemma unexplained_exact:
  assumes "unexplained exact_arith previous confirmed anchor decimals_of = Some out"
  defines "d a \<equiv> or_zero_at anchor a - or_zero_at previous a - effect_total confirmed a"
  shows "map_of out a = (if \<bar>d a\<bar> > of_nat DUST_UNITS / 10 ^ decimals_of a then Some (d a) else None)"
proof -
  obtain explained where e: "try_fold (explain exact_arith) [] confirmed = Some explained"
    and out: "unexplained_loop (difference_of exact_arith previous explained anchor) decimals_of
      (sorted_list_of_set (fst ` set previous \<union> fst ` set anchor \<union> fst ` set explained)) = Some out"
    using assms(1) by (auto simp: unexplained_def Option.bind_eq_Some_conv)
  have "or_zero_at explained b = effect_total confirmed b" for b
    using explain_exact [OF e] by (simp add: or_zero_at_def)
  then have diff: "difference_of exact_arith previous explained anchor b = Some (d b)" for b
    by (simp add: difference_of_def d_def)
  have "d b = 0" if "b \<notin> fst ` set previous \<union> fst ` set anchor \<union> fst ` set explained" for b
  proof -
    have none: "map_of previous b = None" "map_of anchor b = None" "map_of explained b = None"
      using that by (simp_all add: map_of_eq_None_iff)
    have "effect_total confirmed b = or_zero_at explained b" using explain_exact [OF e] by (simp add: or_zero_at_def)
    then show ?thesis by (simp add: d_def or_zero_at_def none)
  qed
  moreover have "0 \<le> (of_nat DUST_UNITS :: rat) / 10 ^ n" for n by simp
  ultimately show ?thesis using unexplained_loop_map [OF out, of a] diff
    by (auto simp: not_less)
qed

end
