(* ===== verification/Synthetic.thy ===== *)
theory Synthetic
  imports WalletRead
begin

text \<open>
  services/collector/wallet/client, synthetic.rs: a chain and a price source written down as data. They stand
  in for an explorer, a node and a price service, and compute balances on their own, from whole numbers, so
  they are what a reading is compared with. Reading the head moves it, so the other answers are those of the
  state after. Plain operators on \<open>i128\<close> wrap; \<open>unwrap\<close> on an amount that cannot be read panics, \<open>None\<close>.
\<close>

section \<open>The synthetic chain\<close>

record synthetic =
  sy_head :: nat
  sy_advance :: nat
  sy_opening_native :: nat
  sy_opening_tokens :: "(string, string \<times> nat \<times> nat) btree"
  sy_normal :: "normal_tx list"
  sy_internal :: "internal_tx list"
  sy_tokens :: "token_transfer list"
  sy_hide_internal :: bool
  sy_indexer_lag :: nat

definition new_synthetic :: "nat \<Rightarrow> synthetic" where
  "new_synthetic head = \<lparr>sy_head = head, sy_advance = 0, sy_opening_native = 0, sy_opening_tokens = [], sy_normal = [],
     sy_internal = [], sy_tokens = [], sy_hide_internal = False, sy_indexer_lag = 0\<rparr>"

definition set_head :: "nat \<Rightarrow> synthetic \<Rightarrow> synthetic" where "set_head head S = S\<lparr>sy_head := head\<rparr>"
definition advance_head_by_each_read :: "nat \<Rightarrow> synthetic \<Rightarrow> synthetic" where
  "advance_head_by_each_read blocks S = S\<lparr>sy_advance := blocks\<rparr>"
definition open_with_native :: "nat \<Rightarrow> synthetic \<Rightarrow> synthetic" where
  "open_with_native wei S = S\<lparr>sy_opening_native := wei\<rparr>"
definition open_with_token :: "string \<Rightarrow> string \<Rightarrow> nat \<Rightarrow> nat \<Rightarrow> synthetic \<Rightarrow> synthetic" where
  "open_with_token contract symbol decimals amount S =
     S\<lparr>sy_opening_tokens := bt_insert (to_lower contract) (symbol, decimals, amount) (sy_opening_tokens S)\<rparr>"
definition push_normal :: "normal_tx \<Rightarrow> synthetic \<Rightarrow> synthetic" where
  "push_normal tx S = S\<lparr>sy_normal := sy_normal S @ [tx]\<rparr>"
definition push_internal :: "internal_tx \<Rightarrow> synthetic \<Rightarrow> synthetic" where
  "push_internal tx S = S\<lparr>sy_internal := sy_internal S @ [tx]\<rparr>"
definition push_token :: "token_transfer \<Rightarrow> synthetic \<Rightarrow> synthetic" where
  "push_token tx S = S\<lparr>sy_tokens := sy_tokens S @ [tx]\<rparr>"
definition hide_internal_transfers :: "bool \<Rightarrow> synthetic \<Rightarrow> synthetic" where
  "hide_internal_transfers hide S = S\<lparr>sy_hide_internal := hide\<rparr>"
definition lag_indexer_by :: "nat \<Rightarrow> synthetic \<Rightarrow> synthetic" where
  "lag_indexer_by blocks S = S\<lparr>sy_indexer_lag := blocks\<rparr>"

text \<open>What a value adds when it arrives and takes when it leaves.\<close>

definition move_wei :: "string \<Rightarrow> string \<Rightarrow> string \<Rightarrow> int \<Rightarrow> int \<Rightarrow> int" where
  "move_wei me from to wei value =
     (let wei = (if to = me then wrap_i128 (wei + value) else wei) in if from = me then wrap_i128 (wei - value) else wei)"

definition wei_of_normal :: "string \<Rightarrow> int \<Rightarrow> normal_tx \<Rightarrow> int option" where
  "wei_of_normal me wei tx =
     Option.bind (if nt_failed tx then Some 0 else parse_int 128 (nt_value tx)) (\<lambda>value.
     let wei = move_wei me (nt_from tx) (nt_to tx) wei value in
       if nt_from tx = me
       then Option.bind (parse_int 128 (nt_gas_used tx)) (\<lambda>used.
            Option.bind (parse_int 128 (nt_gas_price tx)) (\<lambda>price. Some (wrap_i128 (wei - wrap_i128 (used * price)))))
       else Some wei)"

definition wei_of_internal :: "string \<Rightarrow> int \<Rightarrow> internal_tx \<Rightarrow> int option" where
  "wei_of_internal me wei tx =
     map_option (move_wei me (it_from tx) (it_to tx) wei) (parse_int 128 (it_value tx))"

definition synthetic_native_at :: "synthetic \<Rightarrow> string \<Rightarrow> nat \<Rightarrow> nat option" where
  "synthetic_native_at S me head =
     Option.bind (try_fold (wei_of_normal me) (wrap_i128 (int (sy_opening_native S))) (filter (\<lambda>t. nt_block t \<le> head)
         (sy_normal S))) (\<lambda>wei.
     Option.bind (try_fold (wei_of_internal me) wei (filter (\<lambda>t. it_block t \<le> head
         \<and> \<not> it_failed t) (sy_internal S))) (\<lambda>wei.
       Some (nat (max wei 0))))"

definition units_of_token :: "string \<Rightarrow> int \<Rightarrow> token_transfer \<Rightarrow> int option" where
  "units_of_token me amount tx = map_option (move_wei me (tt_from tx) (tt_to tx) amount) (parse_int 128 (tt_value tx))"

definition opening_amount :: "synthetic \<Rightarrow> string \<Rightarrow> nat" where
  "opening_amount S contract = (case map_of (sy_opening_tokens S) contract of None \<Rightarrow> 0 | Some (_, _, amount) \<Rightarrow> amount)"

definition synthetic_token_at :: "synthetic \<Rightarrow> string \<Rightarrow> string \<Rightarrow> nat \<Rightarrow> nat option" where
  "synthetic_token_at S me contract head =
     map_option (\<lambda>amount. nat (max amount 0))
       (try_fold (units_of_token me) (wrap_i128 (int (opening_amount S contract)))
         (filter (\<lambda>t. tt_block t \<le> head \<and> tt_contract t = contract) (sy_tokens S)))"

text \<open>Reading the head moves it.\<close>

definition synthetic_head_block :: "synthetic \<Rightarrow> nat \<times> synthetic" where
  "synthetic_head_block S = (sy_head S, S\<lparr>sy_head := wrap_u64 (sy_head S + sy_advance S)\<rparr>)"

definition synthetic_normal_txs :: "synthetic \<Rightarrow> string \<Rightarrow> nat \<Rightarrow> nat \<Rightarrow> normal_tx listing" where
  "synthetic_normal_txs S address from to = (let me = to_lower address in
     \<lparr>li_rows = filter (\<lambda>t. nt_block t \<ge> from \<and> nt_block t \<le> to \<and> (nt_from t = me \<or> nt_to t = me)) (sy_normal S),
      li_incomplete = False\<rparr>)"

definition synthetic_internal_txs :: "synthetic \<Rightarrow> string \<Rightarrow> nat \<Rightarrow> nat \<Rightarrow> internal_tx listing" where
  "synthetic_internal_txs S address from to =
     (if sy_hide_internal S then \<lparr>li_rows = [], li_incomplete = True\<rparr>
      else let me = to_lower address in
     \<lparr>li_rows = filter (\<lambda>t. it_block t \<ge> from \<and> it_block t \<le> to \<and> (it_from t = me \<or> it_to t = me))
         (sy_internal S),
      li_incomplete = False\<rparr>)"

definition synthetic_token_transfers :: "synthetic \<Rightarrow> string \<Rightarrow> nat \<Rightarrow> nat \<Rightarrow>
    token_transfer listing" where
  "synthetic_token_transfers S address from to = (let me = to_lower address in
     \<lparr>li_rows = filter (\<lambda>t. tt_block t \<ge> from \<and> tt_block t \<le> to \<and> (tt_from t = me \<or> tt_to t = me)) (sy_tokens S),
      li_incomplete = False\<rparr>)"

definition found_token :: "(string, string \<times> nat) btree \<Rightarrow> token_transfer \<Rightarrow> (string, string \<times> nat) btree" where
  "found_token found t = (if map_of found (tt_contract t) = None
     then bt_insert (tt_contract t) (tt_symbol t, tt_decimals t) found else found)"

definition synthetic_held :: "synthetic \<Rightarrow> held_token list" where
  "synthetic_held S = map (\<lambda>(contract, symbol, decimals).
       \<lparr>ht_contract = contract, ht_symbol = symbol, ht_decimals = decimals, ht_balance = ''0''\<rparr>)
     (foldl found_token (map (\<lambda>(c, symbol, decimals, _). (c, symbol, decimals)) (sy_opening_tokens S))
       (filter (\<lambda>t. tt_block t \<le> sy_head S) (sy_tokens S)))"

definition synthetic_reader :: "synthetic \<Rightarrow> chain_reader" where
  "synthetic_reader S0 =
    (let (head, S) = synthetic_head_block S0 in
     \<lparr>cr_head_block = Inr head,
      cr_indexed_block = Inr (sy_head S - sy_indexer_lag S),
      cr_native_balance_at = (\<lambda>address block. map_option (\<lambda>n. Inr (show_nat n)) (synthetic_native_at S (to_lower address) block)),
      cr_token_balances_at = (\<lambda>address contracts block.
        map_option (\<lambda>ns. Inr (map (\<lambda>n. Some (show_nat n)) ns))
          (those (map (\<lambda>c. synthetic_token_at S (to_lower address) (to_lower c) block) contracts))),
      cr_tokens = (\<lambda>address. Some (Inr (synthetic_held S))),
      cr_normal_txs = (\<lambda>address from to. Some (Inr (synthetic_normal_txs S address from to))),
      cr_internal_txs = (\<lambda>address from to. Some (Inr (synthetic_internal_txs S address from to))),
      cr_token_transfers = (\<lambda>address from to. Some (Inr (synthetic_token_transfers S address from to)))\<rparr>)"

section \<open>Synthetic prices\<close>

record synthetic_prices =
  sp_fixed :: "string \<Rightarrow> decimal option"
  sp_schedules :: "string \<Rightarrow> (nat \<times> decimal) list option"

definition new_prices :: synthetic_prices where
  "new_prices = \<lparr>sp_fixed = Map.empty, sp_schedules = Map.empty\<rparr>"

definition set_price :: "string \<Rightarrow> decimal \<Rightarrow> synthetic_prices \<Rightarrow> synthetic_prices" where
  "set_price coin usd P = P\<lparr>sp_fixed := (sp_fixed P)(coin \<mapsto> usd)\<rparr>"

definition set_schedule :: "string \<Rightarrow> (nat \<times> decimal) list \<Rightarrow> synthetic_prices \<Rightarrow> synthetic_prices" where
  "set_schedule coin changes P = P\<lparr>sp_schedules := (sp_schedules P)(coin \<mapsto> sort_key fst changes)\<rparr>"

definition synthetic_price_at :: "synthetic_prices \<Rightarrow> string \<Rightarrow> nat \<Rightarrow> decimal option" where
  "synthetic_price_at P coin at_ms = (case sp_schedules P coin of
       Some changes \<Rightarrow> map_option snd (case find (\<lambda>(from, _). from \<le> at_ms) (rev changes) of
           Some x \<Rightarrow> Some x | None \<Rightarrow> (case changes of [] \<Rightarrow> None | x # _ \<Rightarrow> Some x))
     | None \<Rightarrow> sp_fixed P coin)"

definition latest_price :: "synthetic_prices \<Rightarrow> string \<Rightarrow> decimal option" where
  "latest_price P coin = (case sp_schedules P coin of
       Some changes \<Rightarrow> if changes = [] then None else Some (snd (last changes))
     | None \<Rightarrow> sp_fixed P coin)"

definition found_prices :: "(string \<Rightarrow> decimal option) \<Rightarrow> nat \<Rightarrow> string list \<Rightarrow> prices_found" where
  "found_prices quote at_ms coins = (\<lambda>c. if c \<in> set coins
     then map_option (\<lambda>p. \<lparr>pr_usd = p, pr_at_ms = at_ms\<rparr>) (quote c) else None)"

text \<open>The moments of a chart, by \<open>i\<close>; the wrapping of \<open>i * step\<close> would start them again.\<close>

partial_function (option) chart_moments :: "nat \<Rightarrow> nat \<Rightarrow> nat \<Rightarrow> nat \<Rightarrow> nat list option" where
  "chart_moments start_ms step end_ms i =
     (let t = wrap_u64 (start_ms + wrap_u64 (i * step)) in
      if t \<le> end_ms then Option.bind (chart_moments start_ms step end_ms (wrap_u64 (i + 1))) (\<lambda>ts. Some (t # ts))
      else Some [])"

declare chart_moments.simps [code]

definition synthetic_chart ::
    "synthetic_prices \<Rightarrow> string \<Rightarrow> nat \<Rightarrow> nat \<Rightarrow> nat \<Rightarrow>
        (price_error + (nat \<times> decimal) list) option" where
  "synthetic_chart P coin start_ms end_ms interval_ms =
     map_option (\<lambda>ts. Inr (List.map_filter (\<lambda>t. map_option (Pair t) (synthetic_price_at P coin t)) ts))
       (chart_moments start_ms (max interval_ms 300000) end_ms 0)"

definition synthetic_provider :: "synthetic_prices \<Rightarrow> price_provider" where
  "synthetic_provider P =
     \<lparr>pp_current = (\<lambda>coins. Inr (found_prices (latest_price P) 0 coins)),
      pp_at = (\<lambda>coins at_ms. Inr (found_prices (\<lambda>c. synthetic_price_at P c at_ms) at_ms coins)),
      pp_chart = synthetic_chart P\<rparr>"

section \<open>What the synthetic chain computes\<close>

text \<open>
  The chains it computes without error: amounts are whole numbers, nothing overflows, no balance is ever
  negative, contracts have lower case names and one number of decimals, and no transfer is hidden.
\<close>

definition whole :: "string \<Rightarrow> bool" where
  "whole raw \<longleftrightarrow> raw \<noteq> [] \<and> list_all is_digit raw"

definition signed_int :: "string \<Rightarrow> string \<Rightarrow> string \<Rightarrow> int \<Rightarrow> int" where
  "signed_int me from to v = (if to = me then v else 0) - (if from = me then v else 0)"

definition normal_wei :: "string \<Rightarrow> normal_tx \<Rightarrow> int" where
  "normal_wei me tx = (if nt_failed tx then 0 else signed_int me (nt_from tx) (nt_to tx) (int (digits_value (nt_value tx)))) -
     (if nt_from tx = me then int (digits_value (nt_gas_used tx) * digits_value (nt_gas_price tx)) else 0)"

definition internal_wei :: "string \<Rightarrow> internal_tx \<Rightarrow> int" where
  "internal_wei me tx = signed_int me (it_from tx) (it_to tx) (int (digits_value (it_value tx)))"

definition token_raw :: "string \<Rightarrow> token_transfer \<Rightarrow> int" where
  "token_raw me tx = signed_int me (tt_from tx) (tt_to tx) (int (digits_value (tt_value tx)))"

definition normal_volume :: "normal_tx \<Rightarrow> nat" where
  "normal_volume tx = digits_value (nt_value tx) + digits_value (nt_gas_used tx) * digits_value (nt_gas_price tx) +
     digits_value (nt_gas_used tx) + digits_value (nt_gas_price tx)"

definition native_volume :: "synthetic \<Rightarrow> nat" where
  "native_volume S = sy_opening_native S + (\<Sum>tx\<leftarrow>sy_normal S. normal_volume tx) + (\<Sum>tx\<leftarrow>sy_internal S.
      digits_value (it_value tx))"

definition token_volume :: "synthetic \<Rightarrow> string \<Rightarrow> nat" where
  "token_volume S k = opening_amount S k + (\<Sum>tx\<leftarrow>sy_tokens S. digits_value (tt_value tx))"

definition native_wei :: "synthetic \<Rightarrow> string \<Rightarrow> nat \<Rightarrow> int" where
  "native_wei S me b = int (sy_opening_native S) +
     (\<Sum>tx\<leftarrow>filter (\<lambda>t. nt_block t \<le> b) (sy_normal S). normal_wei me tx) +
     (\<Sum>tx\<leftarrow>filter (\<lambda>t. it_block t \<le> b \<and> \<not> it_failed t) (sy_internal S). internal_wei me tx)"

definition token_units :: "synthetic \<Rightarrow> string \<Rightarrow> string \<Rightarrow> nat \<Rightarrow> int" where
  "token_units S me k b = int (opening_amount S k) +
     (\<Sum>tx\<leftarrow>filter (\<lambda>t. tt_block t \<le> b \<and> tt_contract t = k) (sy_tokens S). token_raw me tx)"

definition decimals_in :: "synthetic \<Rightarrow> string \<Rightarrow> nat" where
  "decimals_in S k = (case map_of (sy_opening_tokens S) k of
       Some (_, d, _) \<Rightarrow> d
     | None \<Rightarrow> (case find (\<lambda>t. tt_contract t = k) (sy_tokens S) of Some t \<Rightarrow> tt_decimals t | None \<Rightarrow> 0))"

definition synthetic_ok :: "synthetic \<times> string \<Rightarrow> bool" where
  "synthetic_ok = (\<lambda>(S, me). to_lower me = me \<and> \<not> sy_hide_internal S \<and>
     (\<forall>tx \<in> set (sy_normal S). whole (nt_value tx) \<and> whole (nt_gas_used tx) \<and> whole (nt_gas_price tx)) \<and>
     (\<forall>tx \<in> set (sy_internal S). whole (it_value tx)) \<and>
     (\<forall>tx \<in> set (sy_tokens S). whole (tt_value tx) \<and> contract_name (tt_contract tx)
         \<and> tt_decimals tx = decimals_in S (tt_contract tx)) \<and>
     bt_ok (sy_opening_tokens S) \<and> (\<forall>k \<in> fst ` set (sy_opening_tokens S). contract_name k) \<and>
     native_volume S < 2 ^ 127 \<and> (\<forall>k. token_volume S k < 2 ^ 127) \<and>
     (\<forall>b. 0 \<le> native_wei S me b) \<and> (\<forall>k b. 0 \<le> token_units S me k b))"

lemma in_i128I: "\<bar>x\<bar> < 2 ^ 127 \<Longrightarrow> in_i128 x"
  by (auto simp: in_s_def)

lemma move_wei_exact:
  assumes "\<bar>wei\<bar> + \<bar>v\<bar> < 2 ^ 127"
  shows "move_wei me from to wei v = wei + signed_int me from to v"
proof -
  have "in_i128 (wei + v)" "in_i128 (wei - v)" "in_i128 (wei + v - v)" "in_i128 wei"
    using assms by (auto intro!: in_i128I)
  then show ?thesis by (simp add: move_wei_def signed_int_def Let_def)
qed

text \<open>A fold whose every step adds a term, as long as the terms so far keep below the width.\<close>

lemma fold_volume:
  assumes "\<And>wei x. x \<in> set xs \<Longrightarrow> \<bar>wei\<bar> + int (vol x) < M \<Longrightarrow> step wei x = Some (wei + g x)"
    and "\<And>x. x \<in> set xs \<Longrightarrow> \<bar>g x\<bar> \<le> int (vol x)" and "\<bar>wei\<bar> + int (\<Sum>x\<leftarrow>xs. vol x) < M"
  shows "try_fold step wei xs = Some (wei + (\<Sum>x\<leftarrow>xs. g x)) \<and>
    \<bar>wei + (\<Sum>x\<leftarrow>xs. g x)\<bar> \<le> \<bar>wei\<bar> + int (\<Sum>x\<leftarrow>xs. vol x)"
  using assms
proof (induction xs arbitrary: wei)
  case (Cons x xs)
  have "step wei x = Some (wei + g x)" using Cons.prems(1) [of x wei] Cons.prems(3) by simp
  moreover have le: "\<bar>wei + g x\<bar> \<le> \<bar>wei\<bar> + int (vol x)" using Cons.prems(2) [of x] by simp
  moreover have "\<bar>wei + g x\<bar> + int (\<Sum>x\<leftarrow>xs. vol x) < M" using le Cons.prems(3) by simp
  then have "try_fold step (wei + g x) xs = Some (wei + g x + (\<Sum>x\<leftarrow>xs. g x)) \<and>
    \<bar>wei + g x + (\<Sum>x\<leftarrow>xs. g x)\<bar> \<le> \<bar>wei + g x\<bar> + int (\<Sum>x\<leftarrow>xs. vol x)"
    using Cons.prems(1,2) by (intro Cons.IH) simp_all
  ultimately show ?case by (simp add: add.assoc)
qed simp

lemma sum_filter_le: "(\<Sum>x\<leftarrow>filter P xs. f x) \<le> (\<Sum>x\<leftarrow>xs. f x :: nat)"
  by (induction xs) auto

lemma normal_wei_step:
  assumes "whole (nt_value tx)" and "whole (nt_gas_used tx)" and "whole (nt_gas_price tx)"
    and "\<bar>wei\<bar> + int (normal_volume tx) < 2 ^ 127"
  shows "wei_of_normal me wei tx = Some (wei + normal_wei me tx)"
proof -
  define v u p where "v = digits_value (nt_value tx)" and "u = digits_value (nt_gas_used tx)" and "p = digits_value (nt_gas_price tx)"
  have vol: "\<bar>wei\<bar> + int v + int (u * p) + int u + int p < 2 ^ 127"
    using assms(4) by (simp add: normal_volume_def v_def u_def p_def)
  have nat_lt: "x < 2 ^ 127" if "int x < 2 ^ 127" for x using that by simp
  have "int v < 2 ^ 127" "int u < 2 ^ 127" "int p < 2 ^ 127" using vol by (smt (verit) of_nat_0_le_iff)+
  then have parsed: "parse_int 128 (nt_value tx) = Some (int v)" "parse_int 128 (nt_gas_used tx) = Some (int u)"
      "parse_int 128 (nt_gas_price tx) = Some (int p)"
    using assms(1-3) nat_lt by (simp_all add: whole_def parse_int_digits v_def u_def p_def)
  define w where "w = (if nt_failed tx then 0 else int v)"
  have w: "\<bar>w\<bar> \<le> int v" by (simp add: w_def)
  have "\<bar>wei\<bar> + \<bar>w\<bar> < 2 ^ 127" using vol w by (smt (verit) of_nat_0_le_iff)
  note move = move_wei_exact [OF this]
  have s: "\<bar>signed_int me (nt_from tx) (nt_to tx) w\<bar> \<le> \<bar>w\<bar>" by (simp add: signed_int_def)
  have gas: "in_i128 (int u * int p)" using vol by (intro in_i128I) (smt (verit) of_nat_0_le_iff of_nat_mult)
  have all: "in_i128 (wei + signed_int me (nt_from tx) (nt_to tx) w - int u * int p)"
    using vol w s by (intro in_i128I) (smt (verit) of_nat_0_le_iff of_nat_mult)
  have "wei_of_normal me wei tx = Some (wei + signed_int me (nt_from tx) (nt_to tx) w -
      (if nt_from tx = me then int u * int p else 0))"
  proof -
    have "(if nt_failed tx then Some 0 else parse_int 128 (nt_value tx)) = Some w" by (simp add: parsed w_def)
    then show ?thesis using gas all by (cases "nt_from tx = me") (simp_all add: wei_of_normal_def parsed(2,3) Let_def move)
  qed
  moreover have "normal_wei me tx = signed_int me (nt_from tx) (nt_to tx) w - (if nt_from tx = me then int u * int p else 0)"
    by (simp add: normal_wei_def w_def v_def u_def p_def signed_int_def)
  ultimately show ?thesis by simp
qed

lemma moved_step:
  assumes "whole raw" and "\<bar>wei\<bar> + int (digits_value raw) < 2 ^ 127"
  shows "map_option (move_wei me from to wei) (parse_int 128 raw) = Some (wei + signed_int me from to (int (digits_value raw)))"
proof -
  have "int (digits_value raw) < 2 ^ 127" using assms(2) abs_ge_zero [of wei] by linarith
  then have "digits_value raw < 2 ^ 127" by simp
  then have "parse_int 128 raw = Some (int (digits_value raw))" using assms(1) by (simp add: whole_def parse_int_digits)
  then show ?thesis using move_wei_exact [of wei "int (digits_value raw)"] assms(2) by simp
qed

lemma signed_int_le: "\<bar>signed_int me from to (int v)\<bar> \<le> int v"
  by (simp add: signed_int_def)

lemma wrap_nat_i128: "int n < 2 ^ 127 \<Longrightarrow> wrap_i128 (int n) = int n"
  by (intro wrap_i128_id in_i128I) simp

lemma abs_term_le:
  fixes a v g u p :: int
  shows "\<bar>a\<bar> \<le> v \<Longrightarrow> 0 \<le> g \<Longrightarrow> 0 \<le> u \<Longrightarrow> 0 \<le> p \<Longrightarrow>
      \<bar>(if P then 0 else a) - (if Q then g else 0)\<bar> \<le> v + g + u + p"
  by auto

lemma native_at_exact:
  assumes "synthetic_ok (S, me)"
  shows "synthetic_native_at S me b = Some (nat (native_wei S me b))"
proof -
  let ?N = "filter (\<lambda>t. nt_block t \<le> b) (sy_normal S)" and ?I = "filter (\<lambda>t. it_block t \<le> b
      \<and> \<not> it_failed t) (sy_internal S)"
  let ?o = "int (sy_opening_native S)"
  have whole: "\<And>tx. tx \<in> set ?N \<Longrightarrow> whole (nt_value tx) \<and> whole (nt_gas_used tx) \<and> whole (nt_gas_price tx)"
    and whole': "\<And>tx. tx \<in> set ?I \<Longrightarrow> whole (it_value tx)"
    and vol: "native_volume S < 2 ^ 127" and pos: "0 \<le> native_wei S me b"
    using assms by (auto simp: synthetic_ok_def)
  have le: "(\<Sum>tx\<leftarrow>?N. normal_volume tx) \<le> (\<Sum>tx\<leftarrow>sy_normal S. normal_volume tx)"
      "(\<Sum>tx\<leftarrow>?I. digits_value (it_value tx)) \<le> (\<Sum>tx\<leftarrow>sy_internal S. digits_value (it_value tx))"
    by (rule sum_filter_le)+
  have total: "?o + int (\<Sum>tx\<leftarrow>?N. normal_volume tx) + int (\<Sum>tx\<leftarrow>?I. digits_value (it_value tx)) < 2 ^ 127"
    using vol le by (simp add: native_volume_def)
  have n: "\<bar>normal_wei me tx\<bar> \<le> int (normal_volume tx)" for tx
    unfolding normal_wei_def normal_volume_def of_nat_add by (intro abs_term_le signed_int_le) simp_all
  have 1: "try_fold (wei_of_normal me) ?o ?N = Some (?o + (\<Sum>tx\<leftarrow>?N. normal_wei me tx)) \<and>
      \<bar>?o + (\<Sum>tx\<leftarrow>?N. normal_wei me tx)\<bar> \<le> \<bar>?o\<bar> + int (\<Sum>tx\<leftarrow>?N. normal_volume tx)"
    by (rule fold_volume [where M = "2 ^ 127"]) (use whole n normal_wei_step total in auto)
  have 2: "try_fold (wei_of_internal me) (?o + (\<Sum>tx\<leftarrow>?N. normal_wei me tx)) ?I =
      Some (?o + (\<Sum>tx\<leftarrow>?N. normal_wei me tx) + (\<Sum>tx\<leftarrow>?I. internal_wei me tx))"
    by (rule conjunct1 [OF fold_volume [where M = "2 ^ 127" and vol = "\<lambda>tx. digits_value (it_value tx)"]])
      (use whole' 1 total moved_step signed_int_le in \<open>auto simp: wei_of_internal_def internal_wei_def\<close>)
  have "wrap_i128 ?o = ?o" using total by (intro wrap_nat_i128) linarith
  then show ?thesis using 1 2 pos by (simp add: synthetic_native_at_def native_wei_def)
qed

lemma token_at_exact:
  assumes "synthetic_ok (S, me)"
  shows "synthetic_token_at S me k b = Some (nat (token_units S me k b))"
proof -
  let ?T = "filter (\<lambda>t. tt_block t \<le> b \<and> tt_contract t = k) (sy_tokens S)" and ?o = "int (opening_amount S k)"
  have whole: "\<And>tx. tx \<in> set ?T \<Longrightarrow> whole (tt_value tx)" and vol: "token_volume S k < 2 ^ 127"
    and pos: "0 \<le> token_units S me k b"
    using assms by (auto simp: synthetic_ok_def)
  have "(\<Sum>tx\<leftarrow>?T. digits_value (tt_value tx)) \<le> (\<Sum>tx\<leftarrow>sy_tokens S. digits_value (tt_value tx))" by
      (rule sum_filter_le)
  then have total: "?o + int (\<Sum>tx\<leftarrow>?T. digits_value (tt_value tx)) < 2 ^ 127" using vol by (simp add: token_volume_def)
  have 1: "try_fold (units_of_token me) ?o ?T = Some (?o + (\<Sum>tx\<leftarrow>?T. token_raw me tx))"
    by (rule conjunct1 [OF fold_volume [where M = "2 ^ 127" and vol = "\<lambda>tx. digits_value (tt_value tx)"]])
      (use whole total moved_step signed_int_le in \<open>auto simp: units_of_token_def token_raw_def\<close>)
  have "wrap_i128 ?o = ?o" using total by (intro wrap_nat_i128) linarith
  then show ?thesis using 1 pos by (simp add: synthetic_token_at_def token_units_def)
qed

section \<open>The synthetic chain is an honest reader\<close>

definition involved_normal :: "synthetic \<times> string \<Rightarrow> normal_tx list" where
  "involved_normal = (\<lambda>(S, me). filter (\<lambda>t. nt_from t = me \<or> nt_to t = me) (sy_normal S))"
definition involved_internal :: "synthetic \<times> string \<Rightarrow> internal_tx list" where
  "involved_internal = (\<lambda>(S, me). filter (\<lambda>t. it_from t = me \<or> it_to t = me) (sy_internal S))"
definition involved_tokens :: "synthetic \<times> string \<Rightarrow> token_transfer list" where
  "involved_tokens = (\<lambda>(S, me). filter (\<lambda>t. tt_from t = me \<or> tt_to t = me) (sy_tokens S))"
definition opening_native_of :: "synthetic \<times> string \<Rightarrow> rat" where
  "opening_native_of = (\<lambda>(S, me). of_nat (sy_opening_native S) / 10 ^ NATIVE_DECIMALS)"
definition opening_token_of :: "synthetic \<times> string \<Rightarrow> string \<Rightarrow> rat" where
  "opening_token_of = (\<lambda>(S, me) k. of_nat (opening_amount S k) / 10 ^ decimals_in S k)"

lemma raw_amount_show: "raw_amount (show_nat n) d = of_nat n / 10 ^ d"
  by (simp add: raw_amount_def show_nat_digits)

lemma rat_sum: "of_int (\<Sum>x\<leftarrow>xs. f x) / (r :: rat) = (\<Sum>x\<leftarrow>xs. of_int (f x) / r)"
  by (induction xs) (simp_all add: add_divide_distrib)

lemma sum_filter_zero:
  fixes f :: "'a \<Rightarrow> rat"
  assumes "\<And>x. x \<in> set xs \<Longrightarrow> P x \<Longrightarrow> \<not> Q x \<Longrightarrow> f x = 0"
    and "\<And>x. x \<in> set xs \<Longrightarrow> Q x \<Longrightarrow> \<not> P x \<Longrightarrow> f x = 0"
  shows "(\<Sum>x\<leftarrow>filter P xs. f x) = (\<Sum>x\<leftarrow>filter Q xs. f x)"
  using assms by (induction xs) auto

lemma signed_int_value: "of_int (signed_int me from to (int v)) / r = signed_value me from to (of_nat v / r)"
  by (simp add: signed_int_def signed_value_def)

lemma normal_net_wei: "normal_net me tx = of_int (normal_wei me tx) / 10 ^ NATIVE_DECIMALS"
  by (simp add: normal_net_def normal_wei_def diff_divide_distrib signed_int_value raw_amount_def)

lemma internal_net_wei: "\<not> it_failed tx \<Longrightarrow> internal_net me tx = of_int (internal_wei me tx) / 10 ^ NATIVE_DECIMALS"
  by (simp add: internal_net_def internal_wei_def signed_int_value raw_amount_def)

lemma native_wei_balance:
  "of_int (native_wei S me b) / 10 ^ NATIVE_DECIMALS =
   native_balance_of (opening_native_of (S, me)) me (involved_normal (S, me)) (involved_internal (S, me)) b"
proof -
  have "(\<Sum>tx\<leftarrow>filter (\<lambda>t. nt_block t \<le> b) (sy_normal S). normal_net me tx) =
      (\<Sum>tx\<leftarrow>rows_between nt_block (involved_normal (S, me)) 0 b. normal_net me tx)"
    unfolding rows_between_def involved_normal_def prod.case filter_filter
    by (rule sum_filter_zero) (auto simp: normal_net_def signed_value_def)
  moreover have "(\<Sum>tx\<leftarrow>filter (\<lambda>t. it_block t \<le> b \<and> \<not> it_failed t) (sy_internal S). internal_net me tx) =
      (\<Sum>tx\<leftarrow>rows_between it_block (involved_internal (S, me)) 0 b. internal_net me tx)"
    unfolding rows_between_def involved_internal_def prod.case filter_filter
    by (rule sum_filter_zero) (auto simp: internal_net_def signed_value_def)
  moreover have "(\<Sum>tx\<leftarrow>filter (\<lambda>t. it_block t \<le> b \<and> \<not> it_failed t) (sy_internal S). internal_net me tx) =
      (\<Sum>tx\<leftarrow>filter (\<lambda>t. it_block t \<le> b \<and> \<not> it_failed t) (sy_internal S). of_int (internal_wei me
          tx) / 10 ^ NATIVE_DECIMALS)"
    by (intro arg_cong [of _ _ sum_list] map_cong refl) (auto simp: internal_net_wei)
  ultimately show ?thesis
    by (simp add: native_wei_def native_balance_of_def opening_native_of_def add_divide_distrib rat_sum normal_net_wei)
qed

lemma token_units_balance:
  assumes "synthetic_ok (S, me)"
  shows "of_int (token_units S me k b) / 10 ^ decimals_in S k =
    token_balance_of (opening_token_of (S, me) k) me (involved_tokens (S, me)) k b"
proof -
  let ?f = "\<lambda>tx. if tt_contract tx = k then token_net me tx else 0" and ?T = "filter (\<lambda>t. tt_block t \<le> b
      \<and> tt_contract t = k) (sy_tokens S)"
  have d: "tt_decimals tx = decimals_in S k" if "tx \<in> set (sy_tokens S)" "tt_contract tx = k" for tx
    using assms that by (auto simp: synthetic_ok_def)
  have "(\<Sum>tx\<leftarrow>?T. of_int (token_raw me tx) / 10 ^ decimals_in S k) = (\<Sum>tx\<leftarrow>?T. ?f tx)"
    using d by (intro arg_cong [of _ _ sum_list] map_cong refl)
      (simp add: token_raw_def token_net_def signed_int_value raw_amount_def)
  also have "\<dots> = (\<Sum>tx\<leftarrow>rows_between tt_block (involved_tokens (S, me)) 0 b. ?f tx)"
    unfolding rows_between_def involved_tokens_def prod.case filter_filter
    by (rule sum_filter_zero) (auto simp: token_net_def signed_value_def)
  finally show ?thesis
    by (simp add: token_units_def token_balance_of_def opening_token_of_def add_divide_distrib rat_sum)
qed

text \<open>The head plays no part in the balances.\<close>

lemma head_free [simp]:
  "synthetic_native_at (S\<lparr>sy_head := h\<rparr>) = synthetic_native_at S"
  "synthetic_token_at (S\<lparr>sy_head := h\<rparr>) = synthetic_token_at S"
  by (simp_all add: fun_eq_iff synthetic_native_at_def synthetic_token_at_def opening_amount_def)

lemma found_token_keeps:
  assumes "\<And>t. t \<in> set ts \<Longrightarrow> P (tt_contract t, tt_symbol t, tt_decimals t)" and "\<And>e. e \<in> set found
      \<Longrightarrow> P e"
    and "e \<in> set (foldl found_token found ts)"
  shows "P e"
proof -
  have "set (found_token m t) \<subseteq> insert (tt_contract t, tt_symbol t, tt_decimals t) (set m)" for m t
    using bt_insert_subset [of "tt_contract t" "(tt_symbol t, tt_decimals t)" m] by (auto simp: found_token_def)
  then show ?thesis by (rule foldl_meta) (use assms in auto)
qed

lemma held_well_named:
  assumes "synthetic_ok (S, me)" and "h \<in> set (synthetic_held (S\<lparr>sy_head := b\<rparr>))"
  shows "contract_name (ht_contract h) \<and> ht_decimals h = decimals_in S (ht_contract h)"
proof -
  let ?P = "\<lambda>(k, symbol :: string, d). contract_name k \<and> d = decimals_in S k"
  have opened: "?P e" if e: "e \<in> set (map (\<lambda>(c, symbol, decimals, _). (c, symbol, decimals)) (sy_opening_tokens S))" for e
  proof -
    obtain c symbol d amount where m: "(c, symbol, d, amount) \<in> set (sy_opening_tokens S)" and e: "e = (c, symbol, d)"
      using e by auto
    have "map_of (sy_opening_tokens S) c = Some (symbol, d, amount)"
      using m assms(1) by (simp add: synthetic_ok_def bt_mem)
    then show ?thesis using m assms(1) by (auto simp: e decimals_in_def synthetic_ok_def)
  qed
  obtain e where e: "e \<in> set (foldl found_token (map (\<lambda>(c, symbol, decimals, _). (c, symbol, decimals)) (sy_opening_tokens S))
      (filter (\<lambda>t. tt_block t \<le> b) (sy_tokens S)))"
    and h: "h = (\<lambda>(contract, symbol, decimals). \<lparr>ht_contract = contract, ht_symbol = symbol, ht_decimals = decimals,
        ht_balance = ''0''\<rparr>) e"
    using assms(2) by (auto simp: synthetic_held_def)
  have "?P e" by (rule found_token_keeps [OF _ opened e]) (use assms(1) in \<open>auto simp: synthetic_ok_def\<close>)
  then show ?thesis by (auto simp: h)
qed

lemma those_zip:
  "those (map f ks) = Some ns \<Longrightarrow> (k, x) \<in> set (zip ks (map g ns)) \<Longrightarrow> \<exists>n. f k = Some n \<and> x = g n"
  by (induction ks arbitrary: ns) (auto split: option.splits)

interpretation synth: honest_reader "\<lambda>s. synthetic_reader (fst s)" synthetic_ok snd involved_normal involved_internal
  involved_tokens opening_native_of opening_token_of "\<lambda>s. decimals_in (fst s)"
proof (unfold_locales, goal_cases)
  case (1 s start until l)
  then show ?case
    by (auto simp: synthetic_reader_def synthetic_head_block_def synthetic_normal_txs_def Let_def involved_normal_def
        rows_between_def synthetic_ok_def filter_filter conj_ac split: prod.splits)
next
  case (2 s start until l)
  then show ?case
    by (auto simp: synthetic_reader_def synthetic_head_block_def synthetic_internal_txs_def Let_def involved_internal_def
        rows_between_def synthetic_ok_def filter_filter conj_ac split: prod.splits)
next
  case (3 s start until l)
  then show ?case
    by (auto simp: synthetic_reader_def synthetic_head_block_def synthetic_token_transfers_def Let_def involved_tokens_def
        rows_between_def synthetic_ok_def filter_filter conj_ac split: prod.splits)
next
  case (4 s b raw)
  obtain S me where s: "s = (S, me)" by (cases s)
  have "to_lower me = me" "0 \<le> native_wei S me b" using 4(1) by (auto simp: s synthetic_ok_def)
  then show ?case using 4 native_at_exact [of S me b] native_wei_balance [of S me b]
    by (auto simp: s synthetic_reader_def synthetic_head_block_def raw_amount_show)
next
  case (5 s ks b rs k raw)
  obtain S me where s: "s = (S, me)" by (cases s)
  have me: "to_lower me = me" "0 \<le> token_units S me k b" and k: "to_lower k = k" using 5(1,4) by (auto simp: s synthetic_ok_def contract_name_def)
  obtain ns where "those (map (\<lambda>c. synthetic_token_at S me (to_lower c) b) ks) = Some ns" and "rs = map (\<lambda>n. Some (show_nat n)) ns"
    using 5(2) me by (auto simp: s synthetic_reader_def synthetic_head_block_def)
  then obtain n where "synthetic_token_at S me k b = Some n" and "raw = show_nat n"
    using those_zip 5(3) k by fastforce
  then show ?case using token_at_exact [of S me k b] token_units_balance [of S me k b] 5(1) me
    by (auto simp: s raw_amount_show)
next
  case (6 s t)
  then show ?case by (auto simp: synthetic_ok_def involved_tokens_def split: prod.splits)
next
  case (7 s hs h)
  then show ?case using held_well_named [of "fst s" "snd s"]
    by (auto simp: synthetic_reader_def synthetic_head_block_def)
qed
section \<open>Two readings of one chain\<close>

lemma unexplained_total:
  assumes "\<And>a. decimals_of a \<le> 28"
  shows "\<exists>out. unexplained exact_arith previous confirmed anchor decimals_of = Some out"
proof -
  have "\<exists>m'. try_fold (explain exact_arith) m es = Some m'" for m es
    by (induction es arbitrary: m) (simp_all add: explain_def)
  moreover have "\<exists>out. unexplained_loop (difference_of exact_arith p e n) decimals_of assets = Some out" for p e n assets
    by (induction assets) (auto simp: difference_of_def decimal_new_def assms)
  ultimately obtain m' out where "try_fold (explain exact_arith) [] confirmed = Some m'"
    and "unexplained_loop (difference_of exact_arith previous m' anchor) decimals_of
      (sorted_list_of_set (fst ` set previous \<union> fst ` set anchor \<union> fst ` set m')) = Some out" by blast
  then show ?thesis by (simp add: unexplained_def)
qed

definition same_until :: "nat \<Rightarrow> synthetic \<Rightarrow> synthetic \<Rightarrow> bool" where
  "same_until b S S' \<longleftrightarrow> sy_opening_native S' = sy_opening_native S \<and> sy_opening_tokens S' = sy_opening_tokens S \<and>
     (\<forall>k. decimals_in S' k = decimals_in S k) \<and>
     filter (\<lambda>t. nt_block t \<le> b) (sy_normal S') = filter (\<lambda>t. nt_block t \<le> b) (sy_normal S) \<and>
     filter (\<lambda>t. it_block t \<le> b) (sy_internal S') = filter (\<lambda>t. it_block t \<le> b) (sy_internal S) \<and>
     filter (\<lambda>t. tt_block t \<le> b) (sy_tokens S') = filter (\<lambda>t. tt_block t \<le> b) (sy_tokens S)"

lemma rows_between_commute: "rows_between f (filter P R) 0 b = filter P (filter (\<lambda>t. f t \<le> b) R)"
  by (simp add: rows_between_def conj_commute)

lemma same_history:
  assumes "same_until b S S'"
  shows "history_until me (opening_native_of (S, me)) (opening_token_of (S, me)) (involved_normal (S, me)) (involved_internal (S, me))
      (involved_tokens (S, me)) b =
    history_until me (opening_native_of (S', me)) (opening_token_of (S', me)) (involved_normal (S', me)) (involved_internal (S', me))
      (involved_tokens (S', me)) b"
  using assms
  by (simp add: same_until_def history_until_def opening_native_of_def opening_token_of_def opening_amount_def involved_normal_def
      involved_internal_def involved_tokens_def rows_between_commute fun_eq_iff)

text \<open>
  C26. The ledger of a wallet closes. Two consecutive readings of a chain, taken while it grows, agree: what
  the balance of a followed asset differs by between them is the sum of the effects the second one found, so
  that nothing of it is reported as unexplained.
\<close>
theorem wallet_readings_explained:
  assumes "synthetic_ok (S, me)" and "synthetic_ok (S', me)" and "same_until (rg_end r) S S'" and "exact_reader parse"
    and "read_chain exact_arith parse (synthetic_reader S) prices q = Some (Inr (Some r))" and "to_lower (rq_address q) = me"
    and "read_chain exact_arith parse (synthetic_reader S') prices' q' = Some (Inr (Some r'))" and "to_lower (rq_address q') = me"
    and "rq_chain q' = rq_chain q" and "rq_after_block q' = Some (rg_end r)" and "rg_end r < 2 ^ 64 - 1"
    and "map_of (rg_anchor r) a = Some x" and "map_of (rg_anchor r') a = Some y" and "a \<notin> rg_unrepresentable r'"
    and "\<forall>a. decimals_of a \<le> 28"
  shows "y - x = effect_total (rg_confirmed r') a \<and>
    (\<exists>out. unexplained exact_arith (rg_anchor r) (rg_confirmed r') (rg_anchor r') decimals_of = Some out \<and> map_of out a = None)"
proof -
  have diff: "y - x = effect_total (rg_confirmed r') a"
    by (rule synth.readings_explained [where s = "(S, me)" and s' = "(S', me)"])
      (use assms same_history [OF assms(3), of me] in simp_all)
  obtain out where out: "unexplained exact_arith (rg_anchor r) (rg_confirmed r') (rg_anchor r') decimals_of = Some out"
    using unexplained_total assms(15) by blast
  have "\<not> (of_nat DUST_UNITS :: rat) / 10 ^ decimals_of a < 0" by (simp add: not_less)
  then have "map_of out a = None"
    using unexplained_exact [OF out, of a] diff assms(12,13) by (simp add: or_zero_at_def)
  then show ?thesis using diff out by blast
qed

definition sample_chain :: synthetic where
  "sample_chain = push_normal \<lparr>nt_hash = ''h'', nt_block = 90, nt_time_ms = 5, nt_from = ''me'', nt_to = ''you'', nt_value = ''500'',
     nt_gas_used = ''21'', nt_gas_price = ''3'', nt_failed = False\<rparr> (open_with_native 1000 (new_synthetic 100))"

definition sample_read :: "nat option \<Rightarrow> synthetic \<Rightarrow> (snapshot_error + reading option) option" where
  "sample_read after S = read_chain exact_arith (\<lambda>s. Some (text_value s)) (synthetic_reader S) (synthetic_provider new_prices)
     \<lparr>rq_chain = hd CHAINS, rq_address = ''Me'', rq_after_block = after, rq_known_assets = {}\<rparr>"

text \<open>The sample: a transfer of 500 and its gas between the two readings.\<close>

lemmas sample_defs = sample_chain_def set_head_def push_normal_def open_with_native_def new_synthetic_def

lemma sample_ok: "synthetic_ok (sample_chain, ''me'') \<and> synthetic_ok (set_head 140 sample_chain, ''me'')"
  by (simp add: synthetic_ok_def sample_defs whole_def native_volume_def
  token_volume_def native_wei_def token_units_def opening_amount_def normal_volume_def normal_wei_def signed_int_def to_lower_def
      ascii_lower_def is_digit_def digits_value_def)

lemma sample_gas: "\<exists>x. gas_fee (\<lambda>s. Some (text_value s)) (hd (sy_normal sample_chain)) = Some x"
  using show_nat_digits [of 63]
  by (simp add: gas_fee_def sample_defs parse_uint_digits is_digit_def digits_value_def units_def)
lemma sample_effects: "\<exists>es. effects_of exact_arith (\<lambda>s. Some (text_value s)) (hd CHAINS) ''me'' (sy_normal
    sample_chain) [] [] = Some es \<and> es_unrepresentable es = {}"
proof -
  obtain x where "gas_fee (\<lambda>s. Some (text_value s)) (hd (sy_normal sample_chain)) = Some x" using sample_gas by blast
  then show ?thesis
    by (simp add: effects_of_def sample_defs CHAINS_def  normal_step_def add_effect_def add_value_def to_lower_def ascii_lower_def
        units_def is_digit_def Let_def)
qed

lemma sample_balance: "synthetic_ok (S, ''me'') \<Longrightarrow> \<exists>raw x. synthetic_native_at S ''me'' b = Some raw
    \<and> units (\<lambda>s. Some (text_value s)) (show_nat raw) NATIVE_DECIMALS = Some x"
  using show_nat_digits by (auto simp: native_at_exact units_def)

lemma sample_lower: "to_lower ''Me'' = ''me'' \<and> to_lower ''me'' = ''me''" by code_simp


lemmas sample_read_defs = sample_read_def read_chain_def and_thenp_def CHAINS_def Let_def synthetic_reader_def synthetic_head_block_def
read_at_def first_block_def range_rows_def recent_rows_def synthetic_held_def tokens_to_follow_def anchor_at_def sample_lower
    synthetic_token_transfers_def followed_tokens_def

lemma first_sample: "\<exists>r x. sample_read None sample_chain = Some (Inr (Some r)) \<and> rg_end r = 68
    \<and> map_of (rg_anchor r) ''ethereum:native'' = Some x"
proof -
  obtain raw x where n: "synthetic_native_at sample_chain ''me'' 68 = Some raw" "units (\<lambda>s. Some (text_value s)) (show_nat raw)
      NATIVE_DECIMALS = Some x"
    using sample_balance sample_ok by blast
  have f: "sy_head sample_chain = 100" "sy_advance sample_chain = 0" "sy_opening_tokens sample_chain = []" "sy_tokens sample_chain =
      []" "sy_indexer_lag sample_chain = 0"
   by (simp_all add: sample_defs)
  show ?thesis
    by (simp add: sample_read_defs f n  effects_of_def  native_asset_def)
qed

lemma second_sample: "\<exists>r x. sample_read (Some 68) (set_head 140 sample_chain) = Some (Inr (Some r)) \<and> rg_end r = 108
    \<and> map_of (rg_anchor r) ''ethereum:native'' = Some x \<and> rg_unrepresentable r = {}"
proof -
  have e: "synthetic_native_at (set_head 140 sample_chain) = synthetic_native_at sample_chain" by (simp add: set_head_def)
  obtain raw x where n: "synthetic_native_at sample_chain ''me'' 108 = Some raw" "units (\<lambda>s. Some (text_value s)) (show_nat
      raw) NATIVE_DECIMALS = Some x"
    using sample_balance sample_ok by blast
  obtain es where es: "effects_of exact_arith (\<lambda>s. Some (text_value s)) (hd CHAINS) ''me'' (sy_normal sample_chain) [] [] =
      Some es" "es_unrepresentable es = {}"
    using sample_effects by blast
  have d: "set_head 140 sample_chain\<lparr>sy_head := 140\<rparr> = set_head 140 sample_chain" by (simp add: set_head_def)
  have f: "sy_head (set_head 140 sample_chain) = 140" "sy_advance (set_head 140 sample_chain) = 0" "sy_opening_tokens (set_head 140
      sample_chain) = []" "sy_tokens (set_head 140 sample_chain) = []" "sy_indexer_lag (set_head 140 sample_chain) = 0"
   by (simp_all add: sample_defs)
  have l: "synthetic_normal_txs (set_head 140 sample_chain) ''me'' 69 108 = \<lparr>li_rows = sy_normal sample_chain, li_incomplete = False\<rparr>"
 "synthetic_internal_txs (set_head 140 sample_chain) ''me'' 69 108 = \<lparr>li_rows = [], li_incomplete = False\<rparr>"
   by (simp_all add: sample_defs synthetic_normal_txs_def synthetic_internal_txs_def to_lower_def ascii_lower_def)
  show ?thesis
    by (simp add: sample_read_defs f n es(2) es(1) [simplified CHAINS_def, simplified] e l d native_asset_def)
qed
theorem wallet_readings_explained_witness:
  "\<exists>r r' x y. sample_read None sample_chain = Some (Inr (Some r)) \<and> sample_read (Some 68) (set_head 140 sample_chain) =
      Some (Inr (Some r')) \<and>
     map_of (rg_anchor r) ''ethereum:native'' = Some x \<and> map_of (rg_anchor r') ''ethereum:native'' = Some y \<and>
     y - x = effect_total (rg_confirmed r') ''ethereum:native''"
proof -
  obtain r x where r: "sample_read None sample_chain = Some (Inr (Some r))" "rg_end r = 68" "map_of (rg_anchor r) ''ethereum:native'' = Some x"
    using first_sample by blast
  obtain r' y where r': "sample_read (Some 68) (set_head 140 sample_chain) = Some (Inr (Some r'))"
    "map_of (rg_anchor r') ''ethereum:native'' = Some y" "rg_unrepresentable r' = {}"
    using second_sample by blast
  have "same_until (rg_end r) sample_chain (set_head 140 sample_chain)"
   by (simp add: same_until_def sample_defs decimals_in_def)
  moreover have "exact_reader (\<lambda>s. Some (text_value s))" by (simp add: exact_reader_def)
  ultimately have "y - x = effect_total (rg_confirmed r') ''ethereum:native''"
    by (intro conjunct1 [OF wallet_readings_explained [OF _ _ _ _ r(1) [unfolded sample_read_def] _ r'(1) [unfolded sample_read_def],
        where decimals_of = "\<lambda>_. 18" and me = "''me''"]])
      (use sample_ok sample_lower r r' in simp_all)
  then show ?thesis using r r' by blast
qed

end
