(* ===== verification/Keys.thy ===== *)
theory Keys
  imports Strings
begin

text \<open>
  services/collector/binance/worker: the encryption of stored secrets (crypto.rs), where the worker's own
  secrets come from (secrets.rs), and the re-encryption that ends the rotation of a key (rekey.rs). AES-GCM,
  SHA-256, the \<open>hex\<close> crate and \<open>from_utf8\<close> are parameters; an operation that draws a nonce takes it as
  an argument, \<open>None\<close> where the generator fails. The tables are functions from their names to their rows.
\<close>

section \<open>crypto.rs\<close>

definition FORMAT_V2 :: byte where "FORMAT_V2 = 2"

datatype crypto_error = WrongKeyLength nat | InvalidHex string | EncryptFailed | DecryptFailed

text \<open>The crates it calls: AES-GCM takes the key, the nonce, the message and the associated data.\<close>

record crypto_env =
  cy_hex :: "string \<Rightarrow> string + bytes"
  cy_sha :: sha
  cy_seal :: "bytes \<Rightarrow> bytes \<Rightarrow> bytes \<Rightarrow> bytes \<Rightarrow> bytes option"
  cy_open :: "bytes \<Rightarrow> bytes \<Rightarrow> bytes \<Rightarrow> bytes \<Rightarrow> bytes option"
  cy_utf8 :: "bytes \<Rightarrow> string option"

record master_key =
  mk_current :: bytes
  mk_previous :: "bytes list"

definition parse_key :: "crypto_env \<Rightarrow> string \<Rightarrow> crypto_error + bytes" where
  "parse_key V hex_str =
     and_then (map_err InvalidHex (cy_hex V (trim hex_str))) (\<lambda>bytes.
       if length bytes = 32 then Inr bytes else Inl (WrongKeyLength (length bytes)))"

definition key_id :: "crypto_env \<Rightarrow> bytes \<Rightarrow> byte" where
  "key_id V key = cy_sha V key ! 0"

definition from_hex :: "crypto_env \<Rightarrow> string \<Rightarrow> crypto_error + master_key" where
  "from_hex V hex_str = and_then (parse_key V hex_str) (\<lambda>key. Inr \<lparr>mk_current = key, mk_previous = []\<rparr>)"

fun add_previous :: "crypto_env \<Rightarrow> master_key \<Rightarrow> string list \<Rightarrow> crypto_error + master_key" where
  "add_previous V key [] = Inr key"
| "add_previous V key (item # items) =
     and_then (parse_key V item) (\<lambda>k. add_previous V (key\<lparr>mk_previous := mk_previous key @ [k]\<rparr>) items)"

definition with_previous :: "crypto_env \<Rightarrow> master_key \<Rightarrow> string \<Rightarrow> crypto_error + master_key" where
  "with_previous V key hex_list =
     add_previous V key (filter (\<lambda>item. item \<noteq> []) (map trim (split_on CHR '','' hex_list)))"

definition all_keys :: "master_key \<Rightarrow> bytes list" where
  "all_keys key = mk_current key # mk_previous key"

record encrypted_field =
  ef_ciphertext :: bytes
  ef_nonce :: bytes

definition credential_context :: "string \<Rightarrow> string \<Rightarrow> string \<Rightarrow> string" where
  "credential_context broker account_id field = ''lzk-credential/v2|'' @ broker @ ''|'' @ account_id @ ''|'' @ field"

definition encrypt_text ::
    "crypto_env \<Rightarrow> bytes option \<Rightarrow> master_key \<Rightarrow> string \<Rightarrow> string \<Rightarrow> crypto_error + encrypted_field" where
  "encrypt_text V drawn key plaintext context =
     and_then (ok_or EncryptFailed drawn) (\<lambda>nonce.
     and_then (ok_or EncryptFailed (cy_seal V (mk_current key) nonce (str_bytes plaintext) (str_bytes context))) (\<lambda>sealed.
       Inr \<lparr>ef_ciphertext = FORMAT_V2 # key_id V (mk_current key) # sealed, ef_nonce = nonce\<rparr>))"

fun first_open :: "crypto_env \<Rightarrow> bytes \<Rightarrow> bytes \<Rightarrow> bytes \<Rightarrow> bytes list \<Rightarrow> bytes option" where
  "first_open V nonce body aad [] = None"
| "first_open V nonce body aad (k # ks) =
     (case cy_open V k nonce body aad of Some plain \<Rightarrow> Some plain | None \<Rightarrow> first_open V nonce body aad ks)"

definition labelled_first :: "crypto_env \<Rightarrow> master_key \<Rightarrow> byte \<Rightarrow> bytes list" where
  "labelled_first V key wanted =
     filter (\<lambda>k. key_id V k = wanted) (all_keys key) @ filter (\<lambda>k. key_id V k \<noteq> wanted) (all_keys key)"

definition is_v2 :: "bytes \<Rightarrow> bool" where
  "is_v2 ciphertext \<longleftrightarrow> length ciphertext > 2 \<and> ciphertext ! 0 = FORMAT_V2"

definition open_v2 :: "crypto_env \<Rightarrow> master_key \<Rightarrow> bytes \<Rightarrow> bytes \<Rightarrow> string \<Rightarrow> bytes option" where
  "open_v2 V key ciphertext nonce context =
     (if is_v2 ciphertext
      then first_open V nonce (List.drop 2 ciphertext) (str_bytes context) (labelled_first V key (ciphertext ! 1)) else None)"

definition decrypt_text :: "crypto_env \<Rightarrow> master_key \<Rightarrow> bytes \<Rightarrow> bytes \<Rightarrow> string \<Rightarrow> crypto_error + string" where
  "decrypt_text V key ciphertext nonce context =
     (case open_v2 V key ciphertext nonce context of
        Some plain \<Rightarrow> ok_or DecryptFailed (cy_utf8 V plain)
      | None \<Rightarrow> (case first_open V nonce ciphertext [] (all_keys key) of
          Some plain \<Rightarrow> ok_or DecryptFailed (cy_utf8 V plain)
        | None \<Rightarrow> Inl DecryptFailed))"

definition is_current :: "crypto_env \<Rightarrow> master_key \<Rightarrow> bytes \<Rightarrow> bytes \<Rightarrow> string \<Rightarrow> bool" where
  "is_current V key ciphertext nonce context \<longleftrightarrow>
     is_v2 ciphertext \<and> cy_open V (mk_current key) nonce (List.drop 2 ciphertext) (str_bytes context) \<noteq> None"

section \<open>secrets.rs\<close>

text \<open>What the process sees: its variables, and of a file its mode and content.\<close>

record secret_env =
  sn_var :: "string \<Rightarrow> string option"
  sn_mode :: "string \<Rightarrow> string + nat"
  sn_content :: "string \<Rightarrow> string + string"

fun show_octal :: "nat \<Rightarrow> string" where
  "show_octal n = (if n < 8 then [char_of (48 + n)] else show_octal (n div 8) @ [char_of (48 + n mod 8)])"

declare show_octal.simps [simp del]

definition read_secret_file :: "secret_env \<Rightarrow> string \<Rightarrow> string \<Rightarrow> string + string" where
  "read_secret_file N variable path =
     and_then (map_err (\<lambda>e. variable @ '': cannot read '' @ path @ '': '' @ e) (sn_mode N path)) (\<lambda>mode.
     if mode mod 64 \<noteq> 0
     then Inl (variable @ '': '' @ path @ '' is readable by other users (mode '' @ show_octal (mode mod 512) @ ''); run chmod 600 on it'')
     else and_then (map_err (\<lambda>e. variable @ '': cannot read '' @ path @ '': '' @ e) (sn_content N path)) (\<lambda>content.
       let secret = trim content in
       if secret = [] then Inl (variable @ '': '' @ path @ '' is empty'') else Inr secret))"

definition read_secret :: "secret_env \<Rightarrow> string \<Rightarrow> string + string option" where
  "read_secret N name =
     (case sn_var N (name @ ''_FILE'') of
        Some path \<Rightarrow> and_then (read_secret_file N (name @ ''_FILE'') path) (\<lambda>s. Inr (Some s))
      | None \<Rightarrow> Inr (sn_var N name))"

section \<open>rekey.rs\<close>

record key_field =
  kf_ciphertext :: string
  kf_nonce :: string
  kf_name :: string

record key_table =
  kt_broker :: string
  kt_table :: string
  kt_fields :: "key_field list"

definition key_column :: "string \<Rightarrow> key_field" where
  "key_column name = \<lparr>kf_ciphertext = ''encrypted_'' @ name, kf_nonce = ''nonce_'' @ name, kf_name = name\<rparr>"

definition TABLES :: "key_table list" where
  "TABLES =
    [\<lparr>kt_broker = ''binance'', kt_table = ''binance_connections'', kt_fields = [key_column ''api_key'', key_column ''api_secret'']\<rparr>,
     \<lparr>kt_broker = ''coinbase'', kt_table = ''coinbase_connections'', kt_fields = [key_column ''key_name'', key_column ''private_key'']\<rparr>,
     \<lparr>kt_broker = ''ibkr'', kt_table = ''ibkr_connections'', kt_fields = [key_column ''token'', key_column ''query_id'']\<rparr>,
     \<lparr>kt_broker = ''kraken'', kt_table = ''kraken_connections'', kt_fields = [key_column ''api_key'', key_column ''api_secret'']\<rparr>,
     \<lparr>kt_broker = ''wallet'', kt_table = ''wallet_connections'', kt_fields = [key_column ''address'']\<rparr>]"

record rekey_report =
  rr_scanned :: nat
  rr_upgraded :: nat
  rr_already_current :: nat
  rr_unreadable :: "string list"

definition empty_report :: rekey_report where
  "empty_report = \<lparr>rr_scanned = 0, rr_upgraded = 0, rr_already_current = 0, rr_unreadable = []\<rparr>"

record key_row =
  kr_id :: string
  kr_account :: string
  kr_column :: "string \<Rightarrow> bytes"

type_synonym key_db = "string \<Rightarrow> key_row list"

text \<open>
  What the database and the generator do while it runs: whether reading a table or writing one of its rows
  fails, and the nonce drawn for a field of a row.
\<close>

record rekey_run =
  ru_select :: "string \<Rightarrow> string option"
  ru_update :: "string \<Rightarrow> string \<Rightarrow> string option"
  ru_nonce :: "string \<Rightarrow> string \<Rightarrow> string \<Rightarrow> bytes option"

text \<open>The fields of a row as they should be stored, and whether any of them changes; \<open>None\<close> is unreadable.\<close>

fun fresh_fields ::
    "crypto_env \<Rightarrow> master_key \<Rightarrow> (key_field \<Rightarrow> bytes option) \<Rightarrow> (key_field \<Rightarrow> string) \<Rightarrow> key_row \<Rightarrow> key_field list \<Rightarrow>
     ((bytes \<times> bytes) list \<times> bool) option" where
  "fresh_fields V key draw context_of row [] = Some ([], False)"
| "fresh_fields V key draw context_of row (f # cols) =
     (let ciphertext = kr_column row (kf_ciphertext f); nonce = kr_column row (kf_nonce f); context = context_of f in
      if length nonce \<noteq> 12 then None
      else (case decrypt_text V key ciphertext nonce context of
          Inl _ \<Rightarrow> None
        | Inr plain \<Rightarrow>
            if is_current V key ciphertext nonce context
            then map_option (\<lambda>(fs, changed). ((ciphertext, nonce) # fs, changed)) (fresh_fields V key draw context_of row cols)
            else (case encrypt_text V (draw f) key plain context of
                Inl _ \<Rightarrow> None
              | Inr e \<Rightarrow> map_option (\<lambda>(fs, changed). ((ef_ciphertext e, ef_nonce e) # fs, True))
                  (fresh_fields V key draw context_of row cols))))"

definition write_column :: "(string \<Rightarrow> bytes) \<Rightarrow> key_field \<times> bytes \<times> bytes \<Rightarrow> string \<Rightarrow> bytes" where
  "write_column columns = (\<lambda>(f, (ciphertext, nonce)). columns(kf_ciphertext f := ciphertext, kf_nonce f := nonce))"

definition write_fields_to :: "key_field list \<Rightarrow> (bytes \<times> bytes) list \<Rightarrow> key_row \<Rightarrow> key_row" where
  "write_fields_to cols fresh row = row\<lparr>kr_column := foldl write_column (kr_column row) (zip cols fresh)\<rparr>"

definition update_row :: "string \<Rightarrow> string \<Rightarrow> (key_row \<Rightarrow> key_row) \<Rightarrow> key_db \<Rightarrow> key_db" where
  "update_row table i f db = db(table := map (\<lambda>r. if kr_id r = i then f r else r) (db table))"

text \<open>One row: the report and the tables after it, or the error of its update with the tables as they are.\<close>

definition rekey_row ::
    "crypto_env \<Rightarrow> rekey_run \<Rightarrow> master_key \<Rightarrow> bool \<Rightarrow> key_table \<Rightarrow> rekey_report \<times> key_db \<Rightarrow> key_row \<Rightarrow>
     (string \<times> key_db) + rekey_report \<times> key_db" where
  "rekey_row V R key write t = (\<lambda>(report, db) row.
     let report = report\<lparr>rr_scanned := rr_scanned report + 1\<rparr> in
     case fresh_fields V key (\<lambda>f. ru_nonce R (kt_table t) (kr_id row) (kf_name f))
         (\<lambda>f. credential_context (kt_broker t) (kr_account row) (kf_name f)) row (kt_fields t) of
       None \<Rightarrow> Inr (report\<lparr>rr_unreadable := rr_unreadable report @ [kr_account row]\<rparr>, db)
     | Some (fresh, False) \<Rightarrow> Inr (report\<lparr>rr_already_current := rr_already_current report + 1\<rparr>, db)
     | Some (fresh, True) \<Rightarrow>
         if write
         then (case ru_update R (kt_table t) (kr_id row) of
             Some e \<Rightarrow> Inl (e, db)
           | None \<Rightarrow> Inr (report\<lparr>rr_upgraded := rr_upgraded report + 1\<rparr>,
               update_row (kt_table t) (kr_id row) (write_fields_to (kt_fields t) fresh) db))
         else Inr (report\<lparr>rr_upgraded := rr_upgraded report + 1\<rparr>, db))"

fun rekey_rows ::
    "(rekey_report \<times> key_db \<Rightarrow> key_row \<Rightarrow> (string \<times> key_db) + rekey_report \<times> key_db) \<Rightarrow> rekey_report \<times> key_db \<Rightarrow>
     key_row list \<Rightarrow> (string \<times> key_db) + rekey_report \<times> key_db" where
  "rekey_rows step st [] = Inr st"
| "rekey_rows step st (row # rows) = and_then (step st row) (\<lambda>st. rekey_rows step st rows)"

fun rekey_tables ::
    "crypto_env \<Rightarrow> rekey_run \<Rightarrow> master_key \<Rightarrow> bool \<Rightarrow> rekey_report \<times> key_db \<Rightarrow> key_table list \<Rightarrow>
     (string \<times> key_db) + rekey_report \<times> key_db" where
  "rekey_tables V R key write st [] = Inr st"
| "rekey_tables V R key write st (t # ts) =
     (case ru_select R (kt_table t) of
        Some e \<Rightarrow> Inl (e, snd st)
      | None \<Rightarrow> and_then (rekey_rows (rekey_row V R key write t) st (snd st (kt_table t))) (\<lambda>st.
          rekey_tables V R key write st ts))"

definition rekey_with ::
    "crypto_env \<Rightarrow> rekey_run \<Rightarrow> master_key \<Rightarrow> bool \<Rightarrow> key_db \<Rightarrow> (string \<times> key_db) + rekey_report \<times> key_db" where
  "rekey_with V R key write db = rekey_tables V R key write (empty_report, db) TABLES"

definition rekey :: "crypto_env \<Rightarrow> rekey_run \<Rightarrow> master_key \<Rightarrow> key_db \<Rightarrow> (string \<times> key_db) + rekey_report \<times> key_db" where
  "rekey V R key db = rekey_with V R key True db"

definition rekey_check :: "crypto_env \<Rightarrow> rekey_run \<Rightarrow> master_key \<Rightarrow> key_db \<Rightarrow> (string \<times> key_db) + rekey_report \<times> key_db" where
  "rekey_check V R key db = rekey_with V R key False db"

section \<open>What decrypts what\<close>

text \<open>
  AES-GCM opens exactly what it sealed under the same key, nonce and associated data, and a sealed message
  carries a tag of 16 bytes; \<open>from_utf8\<close> gives back the bytes it reads.
\<close>

definition aead_exact :: "crypto_env \<Rightarrow> bool" where
  "aead_exact V \<longleftrightarrow> (\<forall>k n m a c. cy_seal V k n m a = Some c \<longleftrightarrow> cy_open V k n c a = Some m) \<and>
     (\<forall>k n m a c. cy_seal V k n m a = Some c \<longrightarrow> 16 \<le> length c)"

definition utf8_sound :: "crypto_env \<Rightarrow> bool" where
  "utf8_sound V \<longleftrightarrow> (\<forall>b s. cy_utf8 V b = Some s \<longrightarrow> str_bytes s = b)"

definition only_current :: "master_key \<Rightarrow> master_key" where
  "only_current key = \<lparr>mk_current = mk_current key, mk_previous = []\<rparr>"

text \<open>A stored value of the current format does not open to two texts under the keys at hand.\<close>

definition one_reading :: "crypto_env \<Rightarrow> master_key \<Rightarrow> bytes \<Rightarrow> bytes \<Rightarrow> string \<Rightarrow> bool" where
  "one_reading V key ciphertext nonce context \<longleftrightarrow> is_v2 ciphertext \<longrightarrow> (\<forall>k \<in> set (all_keys key). \<forall>k' \<in> set (all_keys key). \<forall>m m'.
     cy_open V k nonce (List.drop 2 ciphertext) (str_bytes context) = Some m \<longrightarrow>
     cy_open V k' nonce (List.drop 2 ciphertext) (str_bytes context) = Some m' \<longrightarrow> m = m')"

lemma first_open_Some: "first_open V n c a ks = Some m \<Longrightarrow> \<exists>k \<in> set ks. cy_open V k n c a = Some m"
  by (induction ks) (auto split: option.splits)

lemma first_open_None: "first_open V n c a ks = None \<longleftrightarrow> (\<forall>k \<in> set ks. cy_open V k n c a = None)"
  by (induction ks) (auto split: option.splits)

lemma labelled_first_set: "set (labelled_first V key b) = set (all_keys key)"
  by (auto simp: labelled_first_def)

lemma labelled_only_current: "labelled_first V (only_current key) b = [mk_current key]"
  by (simp add: labelled_first_def all_keys_def only_current_def)

lemma labelled_current: "\<exists>ks. labelled_first V key (key_id V (mk_current key)) = mk_current key # ks"
  by (simp add: labelled_first_def all_keys_def)

lemma encrypted_opens:
  assumes "encrypt_text V drawn key plain context = Inr e" and "aead_exact V"
  shows "is_v2 (ef_ciphertext e) \<and> ef_ciphertext e ! 1 = key_id V (mk_current key) \<and>
    cy_open V (mk_current key) (ef_nonce e) (List.drop 2 (ef_ciphertext e)) (str_bytes context) = Some (str_bytes plain)"
proof -
  obtain n c where c: "cy_seal V (mk_current key) n (str_bytes plain) (str_bytes context) = Some c"
    and e: "e = \<lparr>ef_ciphertext = FORMAT_V2 # key_id V (mk_current key) # c, ef_nonce = n\<rparr>"
    using assms(1) by (auto simp: encrypt_text_def)
  have "16 \<le> length c" and "cy_open V (mk_current key) n c (str_bytes context) = Some (str_bytes plain)"
    using c assms(2) by (auto simp: aead_exact_def)
  then show ?thesis by (auto simp: e is_v2_def)
qed

lemma decrypt_encrypted:
  assumes "encrypt_text V drawn key plain context = Inr e" and "aead_exact V" and "cy_utf8 V (str_bytes plain) = Some plain"
    and "mk_current key' = mk_current key"
  shows "decrypt_text V key' (ef_ciphertext e) (ef_nonce e) context = Inr plain"
proof -
  obtain ks where "labelled_first V key' (key_id V (mk_current key)) = mk_current key # ks"
    using labelled_current [of V key'] assms(4) by auto
  then show ?thesis using encrypted_opens [OF assms(1,2)] assms(3) by (simp add: decrypt_text_def open_v2_def)
qed

lemma decrypt_Inr_utf8: "decrypt_text V key c n context = Inr plain \<Longrightarrow> utf8_sound V \<Longrightarrow> cy_utf8 V (str_bytes plain) = Some plain"
  by (auto simp: decrypt_text_def utf8_sound_def split: option.splits)

lemma current_reads_alone:
  assumes "is_current V key c n context" and "decrypt_text V key c n context = Inr plain" and "one_reading V key c n context"
  shows "decrypt_text V (only_current key) c n context = Inr plain"
proof -
  obtain m where v2: "is_v2 c" and m: "cy_open V (mk_current key) n (List.drop 2 c) (str_bytes context) = Some m"
    using assms(1) by (auto simp: is_current_def)
  have cur: "mk_current key \<in> set (all_keys key)" by (simp add: all_keys_def)
  then obtain m' where m': "first_open V n (List.drop 2 c) (str_bytes context) (labelled_first V key (c ! 1)) = Some m'"
    using m first_open_None [of V n "List.drop 2 c" "str_bytes context" "labelled_first V key (c ! 1)"] labelled_first_set [of V key "c ! 1"]
    by fastforce
  then obtain k where "k \<in> set (all_keys key)" "cy_open V k n (List.drop 2 c) (str_bytes context) = Some m'"
    using first_open_Some labelled_first_set by metis
  then have "m' = m" using assms(3) cur m v2 by (auto simp: one_reading_def)
  then have "cy_utf8 V m = Some plain" using assms(2) v2 m' by (simp add: decrypt_text_def open_v2_def)
  then show ?thesis using v2 m by (simp add: decrypt_text_def open_v2_def labelled_only_current)
qed

section \<open>What re-encryption leaves\<close>

definition context_of :: "key_table \<Rightarrow> key_row \<Rightarrow> key_field \<Rightarrow> string" where
  "context_of t row f = credential_context (kt_broker t) (kr_account row) (kf_name f)"

definition fresh_row :: "crypto_env \<Rightarrow> rekey_run \<Rightarrow> master_key \<Rightarrow> key_table \<Rightarrow> key_row \<Rightarrow> ((bytes \<times> bytes) list \<times> bool) option" where
  "fresh_row V R key t row =
     fresh_fields V key (\<lambda>f. ru_nonce R (kt_table t) (kr_id row) (kf_name f)) (context_of t row) row (kt_fields t)"

definition new_row :: "crypto_env \<Rightarrow> rekey_run \<Rightarrow> master_key \<Rightarrow> key_table \<Rightarrow> key_row \<Rightarrow> key_row" where
  "new_row V R key t row =
     (case fresh_row V R key t row of Some (fresh, True) \<Rightarrow> write_fields_to (kt_fields t) fresh row | _ \<Rightarrow> row)"

lemma new_row_ids [simp]: "kr_id (new_row V R key t row) = kr_id row" "kr_account (new_row V R key t row) = kr_account row"
  by (auto simp: new_row_def write_fields_to_def split: option.splits bool.splits)

text \<open>One row leaves the table with that row as it should be, and names it if it cannot be read.\<close>

lemma rekey_row_step:
  assumes "rekey_row V R key True t (rep, db) row = Inr (rep', db')"
    and "db (kt_table t) = pre @ row # post" and "distinct (map kr_id (pre @ row # post))"
  shows "db' = db(kt_table t := pre @ new_row V R key t row # post) \<and>
    set (rr_unreadable rep') = set (rr_unreadable rep) \<union> (if fresh_row V R key t row = None then {kr_account row} else {}) \<and>
    rr_scanned rep' + rr_upgraded rep + rr_already_current rep + length (rr_unreadable rep) =
      rr_scanned rep + rr_upgraded rep' + rr_already_current rep' + length (rr_unreadable rep')"
proof -
  have others: "map (\<lambda>r. if kr_id r = kr_id row then f r else r) pre = pre"
      "map (\<lambda>r. if kr_id r = kr_id row then f r else r) post = post" for f
    using assms(3) by (auto intro!: map_idI) (metis image_eqI)+
  show ?thesis using assms(1) others
    by (auto simp: rekey_row_def Let_def fresh_row_def [symmetric] context_of_def [symmetric, abs_def] new_row_def update_row_def
        assms(2) fun_upd_idem split: option.splits bool.splits if_splits)
qed

lemma rekey_rows_spec:
  assumes "rekey_rows (rekey_row V R key True t) (rep, db) post = Inr (rep', db')"
    and "db (kt_table t) = pre @ post" and "distinct (map kr_id (pre @ post))"
  shows "db' = db(kt_table t := pre @ map (new_row V R key t) post) \<and>
    set (rr_unreadable rep') = set (rr_unreadable rep) \<union> kr_account ` {r \<in> set post. fresh_row V R key t r = None} \<and>
    rr_scanned rep' + rr_upgraded rep + rr_already_current rep + length (rr_unreadable rep) =
      rr_scanned rep + rr_upgraded rep' + rr_already_current rep' + length (rr_unreadable rep')"
  using assms
proof (induction post arbitrary: pre rep db)
  case Nil
  then show ?case by (auto simp: fun_upd_idem)
next
  case (Cons row post)
  obtain rep1 db1 where 1: "rekey_row V R key True t (rep, db) row = Inr (rep1, db1)"
    and 2: "rekey_rows (rekey_row V R key True t) (rep1, db1) post = Inr (rep', db')"
    using Cons.prems(1) by auto
  note row = rekey_row_step [OF 1 Cons.prems(2,3)]
  have "db1 (kt_table t) = (pre @ [new_row V R key t row]) @ post" using row by simp
  from Cons.IH [OF 2 this] row Cons.prems(3) show ?case by auto
qed

lemma rekey_tables_spec:
  assumes "rekey_tables V R key True (rep, db) ts = Inr (rep', db')" and "distinct (map kt_table ts)"
    and "\<And>t. t \<in> set ts \<Longrightarrow> distinct (map kr_id (db (kt_table t)))"
  shows "(\<forall>t \<in> set ts. db' (kt_table t) = map (new_row V R key t) (db (kt_table t))) \<and>
    (\<forall>table. table \<notin> kt_table ` set ts \<longrightarrow> db' table = db table) \<and>
    (\<forall>t \<in> set ts. \<forall>r \<in> set (db (kt_table t)). fresh_row V R key t r = None \<longrightarrow> kr_account r \<in> set (rr_unreadable rep')) \<and>
    set (rr_unreadable rep) \<subseteq> set (rr_unreadable rep') \<and>
    rr_scanned rep' + rr_upgraded rep + rr_already_current rep + length (rr_unreadable rep) =
      rr_scanned rep + rr_upgraded rep' + rr_already_current rep' + length (rr_unreadable rep')"
  using assms
proof (induction ts arbitrary: rep db)
  case Nil
  then show ?case by simp
next
  case (Cons t ts)
  obtain rep1 db1 where 1: "rekey_rows (rekey_row V R key True t) (rep, db) (db (kt_table t)) = Inr (rep1, db1)"
    and 2: "rekey_tables V R key True (rep1, db1) ts = Inr (rep', db')"
    using Cons.prems(1) by (auto split: option.splits)
  have rows: "db1 = db(kt_table t := map (new_row V R key t) (db (kt_table t))) \<and>
      set (rr_unreadable rep1) = set (rr_unreadable rep) \<union> kr_account ` {r \<in> set (db (kt_table t)). fresh_row V R key t r = None} \<and>
      rr_scanned rep1 + rr_upgraded rep + rr_already_current rep + length (rr_unreadable rep) =
        rr_scanned rep + rr_upgraded rep1 + rr_already_current rep1 + length (rr_unreadable rep1)"
    using rekey_rows_spec [OF 1, of "[]"] Cons.prems(3) by simp
  have same: "db1 (kt_table t') = db (kt_table t')" if "t' \<in> set ts" for t'
    using rows Cons.prems(2) that by (auto simp: image_iff)
  have "(\<forall>t \<in> set ts. db' (kt_table t) = map (new_row V R key t) (db1 (kt_table t))) \<and>
    (\<forall>table. table \<notin> kt_table ` set ts \<longrightarrow> db' table = db1 table) \<and>
    (\<forall>t \<in> set ts. \<forall>r \<in> set (db1 (kt_table t)). fresh_row V R key t r = None \<longrightarrow> kr_account r \<in> set (rr_unreadable rep')) \<and>
    set (rr_unreadable rep1) \<subseteq> set (rr_unreadable rep') \<and>
    rr_scanned rep' + rr_upgraded rep1 + rr_already_current rep1 + length (rr_unreadable rep1) =
      rr_scanned rep1 + rr_upgraded rep' + rr_already_current rep' + length (rr_unreadable rep')"
    using Cons.prems(2,3) same by (intro Cons.IH [OF 2]) auto
  then show ?case using rows same Cons.prems(2) by auto
qed

lemma fresh_fields_spec:
  assumes "fresh_fields V key draw ctx row cols = Some (fresh, changed)"
  shows "length fresh = length cols \<and> (\<forall>f c n. (f, (c, n)) \<in> set (zip cols fresh) \<longrightarrow>
    (\<exists>plain. decrypt_text V key (kr_column row (kf_ciphertext f)) (kr_column row (kf_nonce f)) (ctx f) = Inr plain \<and>
      (c = kr_column row (kf_ciphertext f) \<and> n = kr_column row (kf_nonce f) \<and> is_current V key c n (ctx f) \<or>
       changed \<and> (\<exists>e. encrypt_text V (draw f) key plain (ctx f) = Inr e \<and> c = ef_ciphertext e \<and> n = ef_nonce e))))"
  using assms
proof (induction cols arbitrary: fresh changed)
  case (Cons f cols)
  then show ?case by (fastforce simp: Let_def split: if_splits sum.splits)
qed simp

lemma columns_kept:
  "(\<And>f. f \<in> fst ` set zs \<Longrightarrow> x \<noteq> kf_ciphertext f \<and> x \<noteq> kf_nonce f) \<Longrightarrow> foldl write_column columns zs x = columns x"
  by (induction zs arbitrary: columns) (auto simp: write_column_def)

lemma columns_written:
  assumes "distinct (concat (map (\<lambda>f. [kf_ciphertext f, kf_nonce f]) cols))" and "length fresh = length cols"
    and "(f, (c, n)) \<in> set (zip cols fresh)"
  shows "foldl write_column columns (zip cols fresh) (kf_ciphertext f) = c \<and>
    foldl write_column columns (zip cols fresh) (kf_nonce f) = n"
  using assms
proof (induction cols fresh arbitrary: columns rule: list_induct2')
  case (4 g cols v fresh)
  show ?case
  proof (cases "(f, (c, n)) \<in> set (zip cols fresh)")
    case True
    then show ?thesis using 4 by simp
  next
    case False
    then have fv: "f = g" "v = (c, n)" using "4.prems"(3) by auto
    have "kf_ciphertext g \<noteq> kf_ciphertext h \<and> kf_ciphertext g \<noteq> kf_nonce h \<and> kf_nonce g \<noteq> kf_ciphertext h \<and> kf_nonce g \<noteq> kf_nonce h"
      if "h \<in> fst ` set (zip cols fresh)" for h
      using "4.prems"(1) that set_zip_leftD by fastforce
    moreover have "kf_ciphertext g \<noteq> kf_nonce g" using "4.prems"(1) by simp
    ultimately show ?thesis by (simp add: fv columns_kept) (simp add: write_column_def)
  qed
qed auto

lemma TABLES_ok:
  "distinct (map kt_table TABLES) \<and> (\<forall>t \<in> set TABLES. distinct (concat (map (\<lambda>f. [kf_ciphertext f, kf_nonce f]) (kt_fields t))))"
  by (simp add: TABLES_def key_column_def)

text \<open>A row that can be read reads the same, under the current key alone.\<close>

lemma new_row_reads:
  assumes "fresh_row V R key t row \<noteq> None" and "aead_exact V" and "utf8_sound V" and t: "t \<in> set TABLES" and f: "f \<in> set (kt_fields t)"
    and "one_reading V key (kr_column row (kf_ciphertext f)) (kr_column row (kf_nonce f)) (context_of t row f)"
  shows "\<exists>plain. decrypt_text V key (kr_column row (kf_ciphertext f)) (kr_column row (kf_nonce f)) (context_of t row f) = Inr plain \<and>
    decrypt_text V (only_current key) (kr_column (new_row V R key t row) (kf_ciphertext f))
      (kr_column (new_row V R key t row) (kf_nonce f)) (context_of t row f) = Inr plain"
proof -
  obtain fresh changed where fr: "fresh_row V R key t row = Some (fresh, changed)" using assms(1) by auto
  note spec = fresh_fields_spec [OF fr [unfolded fresh_row_def]]
  obtain c n where z: "(f, (c, n)) \<in> set (zip (kt_fields t) fresh)"
    using f spec by (metis in_set_impl_in_set_zip1 surj_pair)
  obtain plain where plain: "decrypt_text V key (kr_column row (kf_ciphertext f)) (kr_column row (kf_nonce f)) (context_of t row f) = Inr plain"
    and new: "c = kr_column row (kf_ciphertext f) \<and> n = kr_column row (kf_nonce f) \<and> is_current V key c n (context_of t row f) \<or>
       changed \<and> (\<exists>d e. encrypt_text V d key plain (context_of t row f) = Inr e \<and> c = ef_ciphertext e \<and> n = ef_nonce e)"
    using spec z by blast
  have alone: "decrypt_text V (only_current key) c n (context_of t row f) = Inr plain"
    using new current_reads_alone [OF _ plain assms(6)] decrypt_encrypted [where key' = "only_current key" and key = key]
      decrypt_Inr_utf8 [OF plain assms(3)] assms(2) by (auto simp: only_current_def)
  have "kr_column (new_row V R key t row) (kf_ciphertext f) = c \<and> kr_column (new_row V R key t row) (kf_nonce f) = n"
  proof (cases changed)
    case True
    then show ?thesis using columns_written [OF _ _ z, of "kr_column row"] TABLES_ok t spec
      by (simp add: new_row_def fr write_fields_to_def)
  next
    case False
    then show ?thesis using new by (simp add: new_row_def fr)
  qed
  then show ?thesis using plain alone by auto
qed

text \<open>
  C27. Re-encryption completes the rotation of a key. After it, every stored secret it did not report as
  unreadable decrypts, for its own account and field, to what it decrypted to before, and does so under the
  new key alone: the previous keys can be dropped. Every connection examined is counted once, as upgraded,
  as current already, or as unreadable.
\<close>
theorem rekey_completes_rotation:
  assumes "rekey V R key db = Inr (report, db')" and "aead_exact V" and "utf8_sound V"
    and "\<forall>t \<in> set TABLES. distinct (map kr_id (db (kt_table t)))"
    and "t \<in> set TABLES" and "row \<in> set (db (kt_table t))" and "kr_account row \<notin> set (rr_unreadable report)"
    and "f \<in> set (kt_fields t)"
    and "one_reading V key (kr_column row (kf_ciphertext f)) (kr_column row (kf_nonce f)) (context_of t row f)"
  shows "(\<exists>row' \<in> set (db' (kt_table t)). \<exists>plain. kr_id row' = kr_id row \<and> kr_account row' = kr_account row \<and>
      decrypt_text V key (kr_column row (kf_ciphertext f)) (kr_column row (kf_nonce f)) (context_of t row f) = Inr plain \<and>
      decrypt_text V (only_current key) (kr_column row' (kf_ciphertext f)) (kr_column row' (kf_nonce f)) (context_of t row' f) =
        Inr plain) \<and>
    rr_scanned report = rr_upgraded report + rr_already_current report + length (rr_unreadable report)"
proof -
  have run: "rekey_tables V R key True (empty_report, db) TABLES = Inr (report, db')"
    using assms(1) by (simp add: rekey_def rekey_with_def)
  note spec = rekey_tables_spec [OF run conjunct1 [OF TABLES_ok] bspec [OF assms(4)]]
  have "new_row V R key t row \<in> set (db' (kt_table t))" using spec assms(5,6) by simp
  moreover have "fresh_row V R key t row \<noteq> None"
  proof
    assume "fresh_row V R key t row = None"
    then have "kr_account row \<in> set (rr_unreadable report)" using spec assms(5,6) by simp
    then show False using assms(7) by simp
  qed
  then obtain plain where plain: "decrypt_text V key (kr_column row (kf_ciphertext f)) (kr_column row (kf_nonce f)) (context_of t row f) = Inr plain"
    "decrypt_text V (only_current key) (kr_column (new_row V R key t row) (kf_ciphertext f))
      (kr_column (new_row V R key t row) (kf_nonce f)) (context_of t row f) = Inr plain"
    using new_row_reads [OF _ assms(2,3,5,8,9)] by blast
  moreover have "context_of t (new_row V R key t row) f = context_of t row f" by (simp add: context_of_def)
  moreover have "rr_scanned report = rr_upgraded report + rr_already_current report + length (rr_unreadable report)"
    using spec by (simp add: empty_report_def)
  ultimately show ?thesis by (intro conjI bexI [of _ "new_row V R key t row"] exI [of _ plain]) simp_all
qed

section \<open>Witness\<close>

text \<open>An encryption that writes its key, nonce and associated data in front, and a tag of zeros.\<close>

definition open_env :: crypto_env where
  "open_env =
    \<lparr>cy_hex = (\<lambda>_. Inl ''hex''), cy_sha = (\<lambda>_. replicate 32 7),
     cy_seal = (\<lambda>k n m a. Some (replicate 16 0 @ k @ n @ a @ m)),
     cy_open = (\<lambda>k n c a. let p = replicate 16 0 @ k @ n @ a in
       if take (length p) c = p then Some (List.drop (length p) c) else None),
     cy_utf8 = (\<lambda>b. if b = str_bytes ''0xAb'' then Some ''0xAb'' else None)\<rparr>"

definition rotated :: master_key where
  "rotated = \<lparr>mk_current = replicate 32 1, mk_previous = [replicate 32 2]\<rparr>"

definition old_row :: key_row where
  "old_row = \<lparr>kr_id = ''1'', kr_account = ''acc'',
     kr_column = (\<lambda>c. if c = ''encrypted_address'' then replicate 16 0 @ replicate 32 2 @ replicate 12 9 @ str_bytes ''0xAb''
       else replicate 12 9)\<rparr>"

definition quiet_run :: rekey_run where
  "quiet_run = \<lparr>ru_select = (\<lambda>_. None), ru_update = (\<lambda>_ _. None), ru_nonce = (\<lambda>_ _ _. Some (replicate 12 3))\<rparr>"

lemma open_env_exact: "aead_exact open_env \<and> utf8_sound open_env"
proof -
  have split: "(p @ m = c) = (take (length p) c = p \<and> List.drop (length p) c = m)" for p m c :: bytes
    by (metis append_eq_conv_conj append_take_drop_id)
  have "cy_seal open_env k n m a = Some c \<longleftrightarrow> cy_open open_env k n c a = Some m" for k n m a c
    using split [of "replicate 16 0 @ k @ n @ a" m c] by (auto simp: open_env_def Let_def)
  moreover have "cy_seal open_env k n m a = Some c \<Longrightarrow> 16 \<le> length c" for k n m a c
    by (auto simp: open_env_def)
  ultimately show ?thesis by (auto simp: aead_exact_def utf8_sound_def) (auto simp: open_env_def split: if_splits)
qed

lemma rotated_id [simp]: "key_id open_env k = 7"
  by (simp add: key_id_def open_env_def)

definition old_db :: key_db where
  "old_db = (\<lambda>t. if t = ''wallet_connections'' then [old_row] else [])"

lemma open_env_open:
  "length k = length k' \<Longrightarrow> cy_open open_env k n (replicate 16 0 @ k' @ n @ m) [] = (if k = k' then Some m else None)"
  by (auto simp: open_env_def Let_def)

lemma old_row_decrypts:
  "decrypt_text open_env rotated (kr_column old_row ''encrypted_address'') (replicate 12 9) ctx = Inr ''0xAb'' \<and>
   \<not> is_v2 (kr_column old_row ''encrypted_address'')"
proof -
  have c: "kr_column old_row ''encrypted_address'' = replicate 16 0 @ replicate 32 2 @ replicate 12 9 @ str_bytes ''0xAb''"
    by (simp add: old_row_def)
  have v2: "\<not> is_v2 (kr_column old_row ''encrypted_address'')" by (simp add: c is_v2_def nth_append FORMAT_V2_def)
  have "first_open open_env (replicate 12 9) (kr_column old_row ''encrypted_address'') [] (all_keys rotated) = Some (str_bytes ''0xAb'')"
    unfolding c all_keys_def rotated_def by (simp add: open_env_open)
  moreover have "cy_utf8 open_env (str_bytes ''0xAb'') = Some ''0xAb''" by (simp add: open_env_def)
  ultimately show ?thesis using v2 by (simp add: decrypt_text_def open_v2_def)
qed

lemma old_run: "\<exists>report db'. rekey open_env quiet_run rotated old_db = Inr (report, db') \<and> rr_unreadable report = []"
proof -
  obtain e where e: "\<And>ctx. encrypt_text open_env (Some (replicate 12 3)) rotated ''0xAb'' ctx = Inr (e ctx)"
    by (simp add: encrypt_text_def open_env_def)
  have n: "kr_column old_row ''nonce_address'' = replicate 12 9" by (simp add: old_row_def)
  show ?thesis
    by (simp add: rekey_def rekey_with_def TABLES_def key_column_def quiet_run_def old_db_def rekey_row_def Let_def n
      old_row_decrypts is_current_def e empty_report_def)
qed

theorem rekey_completes_rotation_witness:
  "\<exists>report db'. rekey open_env quiet_run rotated old_db = Inr (report, db') \<and>
     (\<exists>row' \<in> set (db' ''wallet_connections''). kr_account row' = ''acc'' \<and>
       decrypt_text open_env (only_current rotated) (kr_column row' ''encrypted_address'') (kr_column row' ''nonce_address'')
         (credential_context ''wallet'' ''acc'' ''address'') = Inr ''0xAb'')"
proof -
  let ?t = "\<lparr>kt_broker = ''wallet'', kt_table = ''wallet_connections'', kt_fields = [key_column ''address'']\<rparr>" and ?f = "key_column ''address''"
  obtain report db' where run: "rekey open_env quiet_run rotated old_db = Inr (report, db')" "rr_unreadable report = []"
    using old_run by blast
  have f: "kf_ciphertext ?f = ''encrypted_address''" "kf_nonce ?f = ''nonce_address''" "kf_name ?f = ''address''" by (simp_all add: key_column_def)
  have n: "kr_column old_row ''nonce_address'' = replicate 12 9" "kr_account old_row = ''acc''" by (simp_all add: old_row_def)
  have one: "one_reading open_env rotated (kr_column old_row (kf_ciphertext ?f)) (kr_column old_row (kf_nonce ?f)) (context_of ?t old_row ?f)"
    using old_row_decrypts by (simp add: one_reading_def f)
  have "?t \<in> set TABLES" "old_row \<in> set (old_db (kt_table ?t))" "\<forall>t \<in> set TABLES. distinct (map kr_id (old_db (kt_table t)))"
    by (simp_all add: TABLES_def old_db_def)
  from rekey_completes_rotation [OF run(1) _ _ this(3,1,2) _ _ one] open_env_exact run(2)
  show ?thesis using run(1) old_row_decrypts n by (fastforce simp: f context_of_def)
qed

end
