(* ===== verification/WalletFlows.thy ===== *)
theory WalletFlows
  imports WalletPrices Flows Keys
begin

text \<open>
  services/collector/binance/worker, wallet.rs, what needs no database: addresses and account ids, hiding an
  address in a message, the flows the stored effects of a wallet become, and the assets it moved on purpose.
  The reader and writer of decimals are those of \<open>dec_env\<close>; an
  amount is negative when it is below zero. An error keeps what its message names.
\<close>

section \<open>Addresses\<close>

definition is_hex_digit :: "char \<Rightarrow> bool" where
  "is_hex_digit c \<longleftrightarrow> is_digit c \<or> (65 :: nat) \<le> of_char c \<and> (of_char c :: nat) \<le> 70 \<or>
     (97 :: nat) \<le> of_char c \<and> (of_char c :: nat) \<le> 102"

definition is_address :: "string \<Rightarrow> bool" where
  "is_address msg \<longleftrightarrow> length msg = 42 \<and> starts_with msg ''0x'' \<and> list_all is_hex_digit (List.drop 2 msg)"

definition owner_of :: "string \<Rightarrow> string option" where
  "owner_of account_id =
     (if length account_id < 42 then None
      else let owner = take 42 account_id; valid = starts_with owner ''0x'' \<and> list_all is_hex_digit (List.drop 2 owner) in
        if valid \<and> (length account_id = 42 \<or> account_id ! 42 = CHR ''_'') then Some (to_lower owner) else None)"

text \<open>
  A text is its bytes. It is cut at byte offsets, which must be in it, in order and not inside a character: a
  continuation byte is one of 128 to 191. Any other cut panics: \<open>None\<close>.
\<close>

definition continuation :: "char \<Rightarrow> bool" where
  "continuation c \<longleftrightarrow> (128 :: nat) \<le> of_char c \<and> (of_char c :: nat) < 192"

definition char_boundary :: "string \<Rightarrow> nat \<Rightarrow> bool" where
  "char_boundary msg k \<longleftrightarrow> k \<le> length msg \<and> (k < length msg \<longrightarrow> \<not> continuation (msg ! k))"

definition cut :: "string \<Rightarrow> nat \<Rightarrow> nat \<Rightarrow> string option" where
  "cut msg from to' =
     (if from \<le> to' \<and> char_boundary msg from \<and> char_boundary msg to' then Some (take (to' - from) (List.drop from msg)) else None)"

text \<open>The offset of the leftmost occurrence.\<close>

fun find_text :: "string \<Rightarrow> string \<Rightarrow> nat option" where
  "find_text [] needle = (if needle = [] then Some 0 else None)"
| "find_text (c # rest) needle = (if starts_with (c # rest) needle then Some 0 else map_option Suc (find_text rest needle))"

text \<open>
  The loop finds the address in the lower-cased text and cuts the text itself at the same offsets.
  \<open>None\<close>: a cut that panics, or an empty address, which is found without moving on for ever.
\<close>

partial_function (option) redact_from :: "string \<Rightarrow> string \<Rightarrow> string \<Rightarrow> nat \<Rightarrow> string option" where
  "redact_from msg lower needle from =
     Option.bind (cut lower from (length lower)) (\<lambda>rest.
       case find_text rest needle of
         None \<Rightarrow> cut msg from (length msg)
       | Some off \<Rightarrow>
           Option.bind (cut msg from (from + off)) (\<lambda>shown.
           Option.bind (redact_from msg lower needle (from + off + length needle)) (\<lambda>out.
             Some (shown @ ''[address]'' @ out))))"

text \<open>
  Lower-casing follows the tables of Unicode, which are not here: \<open>L\<close> takes a text, as bytes, to its
  lower case.
\<close>

definition redact :: "(string \<Rightarrow> string) \<Rightarrow> string \<Rightarrow> string \<Rightarrow> string option" where
  "redact L msg address = redact_from msg (L msg) (L address) 0"

section \<open>Flows\<close>

record effect_row =
  er_chain_id :: int
  er_tx_hash :: string
  er_asset :: string
  er_kind :: string
  er_time_ms :: int
  er_delta :: string

datatype flow_fault = UnreadableAmount string | UnknownEffect string

definition stored_amount :: "dec_env \<Rightarrow> string \<Rightarrow> flow_fault + decimal" where
  "stored_amount E msg = ok_or (UnreadableAmount msg) (de_parse E msg)"

definition leg_of :: "dec_env \<Rightarrow> string \<Rightarrow> decimal \<Rightarrow> asset_leg" where
  "leg_of E asset delta =
     (if delta < 0 then debit asset (de_show E \<bar>delta\<bar>) else credit asset (de_show E delta))"

definition as_u64 :: "int \<Rightarrow> nat" where "as_u64 i = nat (i mod 2 ^ 64)"

type_synonym transactions = "(int \<times> string, effect_row list) btree"

definition tx_key :: "effect_row \<Rightarrow> int \<times> string" where
  "tx_key row = (er_chain_id row, er_tx_hash row)"

definition gas_flow :: "dec_env \<Rightarrow> effect_row \<Rightarrow> decimal \<Rightarrow> normalized_flow" where
  "gas_flow E row delta =
     \<lparr>nf_source_namespace = Transfer, nf_source_id = ''gas:'' @ show_int (er_chain_id row) @ '':'' @ er_tx_hash row,
      nf_economic_time_ms = as_u64 (er_time_ms row), nf_kind = ''gas'', nf_legs = [leg_of E (er_asset row) delta], nf_fee = None\<rparr>"

definition unexplained_flow :: "dec_env \<Rightarrow> effect_row \<Rightarrow> decimal \<Rightarrow> normalized_flow" where
  "unexplained_flow E row delta =
     \<lparr>nf_source_namespace = (if delta < 0 then Withdrawal else Deposit),
      nf_source_id = ''unexplained:'' @ show_int (er_chain_id row) @ '':'' @ er_tx_hash row @ '':'' @ er_asset row,
      nf_economic_time_ms = as_u64 (er_time_ms row), nf_kind = ''inferred from balance reconciliation'',
      nf_legs = [leg_of E (er_asset row) delta], nf_fee = None\<rparr>"

fun classify_rows :: "dec_env \<Rightarrow> transactions \<times> normalized_flow list \<Rightarrow> effect_row list \<Rightarrow>
    flow_fault + transactions \<times> normalized_flow list" where
  "classify_rows E st [] = Inr st"
| "classify_rows E (transactions, flows) (row # rows) =
     and_then (stored_amount E (er_delta row)) (\<lambda>delta.
       if er_kind row = ''transfer'' then classify_rows E (bt_push (tx_key row) row transactions, flows) rows
       else if er_kind row = ''gas'' then classify_rows E (transactions, flows @ [gas_flow E row delta]) rows
       else if er_kind row = ''unexplained'' then classify_rows E (transactions, flows @ [unexplained_flow E row delta]) rows
       else Inl (UnknownEffect (er_kind row)))"

text \<open>The legs of a transaction, and whether any is a credit or a debit.\<close>

fun tx_legs :: "dec_env \<Rightarrow> effect_row list \<Rightarrow> flow_fault + asset_leg list \<times> bool \<times> bool" where
  "tx_legs E [] = Inr ([], False, False)"
| "tx_legs E (row # rows) =
     and_then (stored_amount E (er_delta row)) (\<lambda>delta.
     and_then (tx_legs E rows) (\<lambda>(legs, gains, losses).
       Inr (leg_of E (er_asset row) delta # legs, gains \<or> \<not> delta < 0, losses \<or> delta < 0)))"

definition family_of :: "bool \<Rightarrow> bool \<Rightarrow> flow_family" where
  "family_of gains losses = (if gains \<and> losses then Convert else if gains then Deposit else Withdrawal)"

definition tx_flow :: "dec_env \<Rightarrow> (int \<times> string) \<times> effect_row list \<Rightarrow> flow_fault + normalized_flow" where
  "tx_flow E = (\<lambda>((chain_id, hash), effects).
     and_then (tx_legs E effects) (\<lambda>(legs, gains, losses).
       Inr \<lparr>nf_source_namespace = family_of gains losses, nf_source_id = ''tx:'' @ show_int chain_id @ '':'' @ hash,
         nf_economic_time_ms = as_u64 (case map er_time_ms effects of [] \<Rightarrow> 0 | t # ts \<Rightarrow> foldl min t ts),
         nf_kind = family_name (family_of gains losses), nf_legs = legs, nf_fee = None\<rparr>))"

definition flow_key :: "normalized_flow \<Rightarrow> nat \<times> string" where
  "flow_key f = (nf_economic_time_ms f, nf_source_id f)"

definition wallet_classify :: "dec_env \<Rightarrow> effect_row list \<Rightarrow> flow_fault + normalized_flow list" where
  "wallet_classify E rows =
     and_then (classify_rows E ([], []) rows) (\<lambda>(transactions, flows).
     and_then (collect_res (tx_flow E) transactions) (\<lambda>tx_flows.
       Inr (sort_key flow_key (flows @ tx_flows))))"

section \<open>What was moved on purpose\<close>

definition push_signed ::
    "dec_env \<Rightarrow> flow_fault + (int \<times> string, (string \<times> bool) list) btree \<Rightarrow> effect_row \<Rightarrow>
     flow_fault + (int \<times> string, (string \<times> bool) list) btree" where
  "push_signed E m row = and_then m (\<lambda>m. and_then (stored_amount E (er_delta row)) (\<lambda>delta.
     Inr (bt_push (tx_key row) (er_asset row, delta < 0) m)))"

definition moved_assets :: "(string \<times> bool) list \<Rightarrow> string set" where
  "moved_assets legs =
     (let swapped = (\<exists>leg \<in> set legs. snd leg) \<and> (\<exists>leg \<in> set legs. \<not> snd leg) in
      fst ` {leg \<in> set legs. snd leg \<or> swapped})"

definition lost_asset :: "dec_env \<Rightarrow> effect_row \<Rightarrow> flow_fault + string set" where
  "lost_asset E row =
     and_then (stored_amount E (er_delta row)) (\<lambda>delta. Inr (if delta < 0 then {er_asset row} else {}))"

definition active_assets :: "dec_env \<Rightarrow> effect_row list \<Rightarrow> flow_fault + string set" where
  "active_assets E rows =
     and_then (foldl (push_signed E) (Inr []) (filter (\<lambda>r. er_kind r = ''transfer'') rows)) (\<lambda>by_transaction.
     and_then (collect_res (lost_asset E) (filter (\<lambda>r. er_kind r = ''unexplained'' \<or> er_kind r = ''gas'') rows)) (\<lambda>lost.
       Inr (\<Union>(moved_assets ` snd ` set by_transaction) \<union> \<Union>(set lost))))"

section \<open>An address never shows\<close>

text \<open>What hiding is, told without offsets: every occurrence, whatever its case, becomes the mark.\<close>

function hide_text :: "string \<Rightarrow> string \<Rightarrow> string" where
  "hide_text needle msg =
     (if needle = [] then msg
      else case msg of [] \<Rightarrow> []
      | c # rest \<Rightarrow> if starts_with (to_lower msg) needle
          then ''[address]'' @ hide_text needle (List.drop (length needle) msg)
          else c # hide_text needle rest)"
  by pat_completeness auto
termination by (relation "measure (length \<circ> snd)") auto

declare hide_text.simps [simp del]

lemma hide_text_prefix:
  "starts_with (to_lower (hide_text needle msg)) p \<Longrightarrow> CHR ''['' \<notin> set p \<Longrightarrow> starts_with (to_lower msg) p"
proof (induction needle msg arbitrary: p rule: hide_text.induct)
  case (1 needle msg)
  show ?case
  proof (cases "needle = [] \<or> msg = [] \<or> p = []")
    case True
    then show ?thesis using "1.prems"(1) by (subst (asm) hide_text.simps) (auto simp: starts_with_iff split: list.splits if_splits)
  next
    case False
    then obtain c rest q p' where t: "msg = c # rest" "p = q # p'" "needle \<noteq> []" by (metis neq_Nil_conv)
    show ?thesis
    proof (cases "starts_with (to_lower msg) needle")
      case True
      then have "to_lower (hide_text needle msg) = to_lower ''[address]'' @ to_lower (hide_text needle (List.drop (length needle) msg))"
        by (subst hide_text.simps) (simp add: t to_lower_def)
      then have "q = CHR ''[''" using "1.prems"(1) by (auto simp: starts_with_iff t to_lower_def ascii_lower_def)
      then show ?thesis using "1.prems"(2) t by simp
    next
      case False
      then have "hide_text needle msg = c # hide_text needle rest" by (subst hide_text.simps) (simp add: t)
      then have "ascii_lower c = q \<and> starts_with (to_lower (hide_text needle rest)) p'"
        using "1.prems"(1) by (auto simp: starts_with_iff t to_lower_def)
      then show ?thesis using "1.IH"(2) [OF t(3,1) False, of p'] "1.prems"(2) by (auto simp: starts_with_iff t to_lower_def)
    qed
  qed
qed

lemma contains_drop: "contains_text s p \<longleftrightarrow> (\<exists>i \<le> length s. starts_with (List.drop i s) p)"
proof (induction s)
  case Nil
  then show ?case by (auto simp: starts_with_iff)
next
  case (Cons c s)
  have "(\<exists>i \<le> length (c # s). starts_with (List.drop i (c # s)) p) \<longleftrightarrow>
      starts_with (c # s) p \<or> (\<exists>i \<le> length s. starts_with (List.drop i s) p)"
    by (metis List.drop.simps(1) drop_0 drop_Suc_Cons le0 length_Cons not_less_eq_eq old.nat.exhaust)
  then show ?case using Cons by simp
qed

lemma hide_text_hides:
  assumes "needle = CHR ''0'' # n" and "CHR ''['' \<notin> set needle"
  shows "\<not> contains_text (to_lower (hide_text needle msg)) needle"
  using assms
proof (induction needle msg rule: hide_text.induct)
  case (1 needle msg)
  show ?case
  proof (cases msg)
    case Nil
    then show ?thesis using "1.prems" by (subst hide_text.simps) (simp add: to_lower_def)
  next
    case (Cons c rest)
    have ne: "needle \<noteq> []" using "1.prems"(1) by simp
    show ?thesis
    proof (cases "starts_with (to_lower msg) needle")
      case True
      have out: "to_lower (hide_text needle msg) = ''[address]'' @ to_lower (hide_text needle (List.drop (length needle) msg))"
        by (subst hide_text.simps) (use True ne Cons in \<open>simp add: to_lower_def ascii_lower_def\<close>)
      show ?thesis using "1.IH"(1) [OF ne Cons True "1.prems"] "1.prems"(1) unfolding out by (simp add: starts_with_iff)
    next
      case False
      have out: "hide_text needle msg = c # hide_text needle rest"
        by (subst hide_text.simps) (use False ne Cons in simp)
      have "\<not> starts_with (to_lower (hide_text needle msg)) needle"
        using hide_text_prefix [OF _ "1.prems"(2)] False by blast
      then show ?thesis using "1.IH"(2) [OF ne Cons False "1.prems"] by (simp add: out to_lower_def)
    qed
  qed
qed

text \<open>
  Lower-casing that keeps the length of every character keeps the places of the bytes: those of ASCII become
  their lower case, and the others stay outside ASCII. In a text a continuation byte follows a byte outside ASCII.
\<close>

definition text_bytes :: "string \<Rightarrow> bool" where
  "text_bytes msg \<longleftrightarrow> (\<forall>k < length msg. continuation (msg ! k) \<longrightarrow> 0 < k \<and> (128 :: nat) \<le> of_char (msg ! (k - 1)))"

definition lowered :: "char \<Rightarrow> char \<Rightarrow> bool" where
  "lowered c d \<longleftrightarrow> (if (of_char c :: nat) < 128 then d = ascii_lower c else (128 :: nat) \<le> of_char d)"

definition keeps_places :: "string \<Rightarrow> string \<Rightarrow> bool" where
  "keeps_places msg lower \<longleftrightarrow> text_bytes msg \<and> text_bytes lower \<and> list_all2 lowered msg lower"

lemma ascii_lower_outside: "(128 :: nat) \<le> of_char c \<Longrightarrow> ascii_lower c = c"
  by (simp add: ascii_lower_def)

lemma lowered_ascii: "lowered c d \<Longrightarrow> (of_char n :: nat) < 128 \<Longrightarrow> d = n \<longleftrightarrow> ascii_lower c = n"
  by (auto simp: lowered_def ascii_lower_outside split: if_splits)

lemma starts_with_lowered:
  "list_all2 lowered msg lower \<Longrightarrow> \<forall>n \<in> set needle. (of_char n :: nat) < 128 \<Longrightarrow>
    starts_with lower needle \<longleftrightarrow> starts_with (to_lower msg) needle"
proof (induction needle arbitrary: msg lower)
  case (Cons n needle)
  show ?case
  proof (cases msg)
    case (Cons c rest)
    then obtain d rest' where "lower = d # rest'" "lowered c d" "list_all2 lowered rest rest'"
      using Cons.prems(1) by (auto simp: list_all2_Cons1)
    then show ?thesis using Cons.IH [of rest rest'] Cons.prems(2) lowered_ascii [of c d n]
      by (auto simp: Cons starts_with_iff to_lower_def)
  qed (use Cons.prems(1) in \<open>simp add: to_lower_def starts_with_iff\<close>)
qed (simp add: starts_with_iff)

lemma find_text_lowered:
  "list_all2 lowered msg lower \<Longrightarrow> \<forall>n \<in> set needle. (of_char n :: nat) < 128 \<Longrightarrow>
    find_text lower needle = find_text (to_lower msg) needle"
proof (induction msg lower rule: list_all2_induct)
  case (Cons c msg d lower)
  have "list_all2 lowered (c # msg) (d # lower)" using Cons.hyps by simp
  from starts_with_lowered [OF this Cons.prems] show ?case using Cons.IH [OF Cons.prems] by (simp add: to_lower_def)
qed (simp add: to_lower_def)

lemma find_text_found: "find_text s needle = Some k \<Longrightarrow> k \<le> length s \<and> starts_with (List.drop k s) needle"
  by (induction s arbitrary: k) (auto simp: starts_with_iff split: if_splits)

lemma hide_text_found:
  assumes "needle \<noteq> []"
  shows "hide_text needle msg = (case find_text (to_lower msg) needle of None \<Rightarrow> msg
    | Some k \<Rightarrow> take k msg @ ''[address]'' @ hide_text needle (List.drop (k + length needle) msg))"
proof (induction msg)
  case Nil
  then show ?case using assms by (subst hide_text.simps) (simp add: to_lower_def)
next
  case (Cons c msg)
  have lower: "to_lower (c # msg) = ascii_lower c # to_lower msg" by (simp add: to_lower_def)
  show ?case
  proof (cases "starts_with (to_lower (c # msg)) needle")
    case True
    then have "hide_text needle (c # msg) = ''[address]'' @ hide_text needle (List.drop (length needle) (c # msg))"
      using assms by (subst hide_text.simps) simp
    then show ?thesis using True by (simp add: lower)
  next
    case False
    then have "hide_text needle (c # msg) = c # hide_text needle msg" using assms by (subst hide_text.simps) simp
    then show ?thesis using False Cons.IH by (simp add: lower split: option.split)
  qed
qed

lemma keeps_places_to_lower: "text_bytes msg \<Longrightarrow> keeps_places msg (to_lower msg)"
proof -
  have same: "continuation (ascii_lower c) = continuation c \<and> ((128 :: nat) \<le> of_char (ascii_lower c) \<longleftrightarrow> (128 :: nat) \<le> of_char c)" for c
    by (auto simp: continuation_def ascii_lower_def)
  have "list_all2 lowered msg (to_lower msg)"
    by (simp add: to_lower_def list_all2_conv_all_nth lowered_def ascii_lower_outside)
  then show "text_bytes msg \<Longrightarrow> ?thesis" using same by (simp add: keeps_places_def text_bytes_def to_lower_def)
qed

lemma text_bytes_append:
  assumes "text_bytes p" "list_all (\<lambda>c. (of_char c :: nat) < 128) s"
  shows "text_bytes (p @ s)"
  unfolding text_bytes_def
proof (intro allI impI)
  fix k assume k: "k < length (p @ s)" "continuation ((p @ s) ! k)"
  have "k < length p"
  proof (rule ccontr)
    assume "\<not> k < length p"
    then have "(of_char ((p @ s) ! k) :: nat) < 128" using k(1) assms(2) by (simp add: nth_append list_all_length)
    then show False using k(2) by (simp add: continuation_def)
  qed
  then show "0 < k \<and> (128 :: nat) \<le> of_char ((p @ s) ! (k - 1))" using assms(1) k(2) by (auto simp: text_bytes_def nth_append)
qed

lemma text_bytes_three:
  "\<not> continuation a \<Longrightarrow> (128 :: nat) \<le> of_char a \<Longrightarrow> (128 :: nat) \<le> of_char b \<Longrightarrow> text_bytes [a, b, c]"
  by (auto simp: text_bytes_def less_Suc_eq)

lemma boundary_ascii: "k < length s \<Longrightarrow> (of_char (s ! k) :: nat) < 128 \<Longrightarrow> char_boundary s k"
  by (simp add: char_boundary_def continuation_def)

lemma boundary_after_ascii: "text_bytes s \<Longrightarrow> k < length s \<Longrightarrow> (of_char (s ! k) :: nat) < 128 \<Longrightarrow> char_boundary s (Suc k)"
  by (force simp: char_boundary_def text_bytes_def)

text \<open>Where the places are kept, the loop hides: it returns, and nothing panics.\<close>

lemma redact_from_hides_text:
  assumes "keeps_places msg lower" "needle \<noteq> []" "\<forall>n \<in> set needle. (of_char n :: nat) < 128"
  shows "char_boundary msg here \<Longrightarrow> char_boundary lower here \<Longrightarrow>
    redact_from msg lower needle here = Some (hide_text needle (List.drop here msg))"
proof (induction "length msg - here" arbitrary: here rule: less_induct)
  case less
  have places: "text_bytes msg" "text_bytes lower" "list_all2 lowered msg lower" using assms(1) by (simp_all add: keeps_places_def)
  have len: "length lower = length msg" using places(3) by (simp add: list_all2_lengthD)
  have here': "here \<le> length msg" using less.prems(1) by (simp add: char_boundary_def)
  have whole: "cut lower here (length lower) = Some (List.drop here lower)" "cut msg here (length msg) = Some (List.drop here msg)"
    using less.prems here' len by (simp_all add: cut_def char_boundary_def)
  have find: "find_text (List.drop here lower) needle = find_text (to_lower (List.drop here msg)) needle"
    using find_text_lowered [OF list_all2_dropI [OF places(3)] assms(3)] .
  show ?case
  proof (cases "find_text (List.drop here lower) needle")
    case None
    then show ?thesis using whole find by (subst redact_from.simps, subst hide_text_found [OF assms(2)]) simp
  next
    case (Some k)
    obtain r where r: "k \<le> length (List.drop here lower)" "List.drop (here + k) lower = needle @ r"
      using find_text_found [OF Some] by (auto simp: starts_with_iff add.commute)
    let ?stop = "here + k + length needle"
    have "length (List.drop (here + k) lower) = length needle + length r" by (simp add: r(2))
    then have inside: "?stop \<le> length lower" using r(1) assms(2) by (cases needle) auto
    have ascii: "(of_char (lower ! (here + k + j)) :: nat) < 128 \<and> (of_char (msg ! (here + k + j)) :: nat) < 128" if "j < length needle" for j
    proof -
      have "lower ! (here + k + j) = List.drop (here + k) lower ! j" using inside by simp
      then have "lower ! (here + k + j) = needle ! j" using r(2) that by (simp add: nth_append)
      moreover have "lowered (msg ! (here + k + j)) (lower ! (here + k + j))"
        using list_all2_nthD2 [OF places(3)] inside that by simp
      ultimately show ?thesis using assms(3) nth_mem [OF that] by (auto simp: lowered_def split: if_splits)
    qed
    obtain m where m: "length needle = Suc m" using assms(2) by (cases needle) auto
    have first: "char_boundary msg (here + k)" using ascii [of 0] inside len m by (intro boundary_ascii) auto
    have "char_boundary lower (Suc (here + k + m))" "char_boundary msg (Suc (here + k + m))"
      using ascii [of m] inside len m places by (auto intro!: boundary_after_ascii)
    then have last: "char_boundary lower ?stop" "char_boundary msg ?stop" by (simp_all add: m)
    have IH: "redact_from msg lower needle ?stop = Some (hide_text needle (List.drop ?stop msg))"
      using less.hyps [OF _ last(2,1)] inside len m by simp
    have "cut msg here (here + k) = Some (take k (List.drop here msg))" using less.prems(1) first by (simp add: cut_def)
    moreover have "List.drop ?stop msg = List.drop (k + length needle) (List.drop here msg)" by (simp add: ac_simps)
    ultimately show ?thesis using whole Some find IH
      by (subst redact_from.simps, subst hide_text_found [OF assms(2)]) simp
  qed
qed

lemma address_ascii:
  assumes "is_address address"
  shows "to_lower address = CHR ''0'' # to_lower (tl address) \<and> CHR ''['' \<notin> set (to_lower address) \<and>
    CHR ''k'' \<notin> set (to_lower address) \<and> (\<forall>n \<in> set (to_lower address). (of_char n :: nat) < 128)"
proof -
  obtain r where r: "address = ''0x'' @ r" "list_all is_hex_digit r"
    using assms by (auto simp: is_address_def starts_with_iff)
  have hex: "CHR ''['' \<noteq> ascii_lower c \<and> CHR ''k'' \<noteq> ascii_lower c \<and> (of_char (ascii_lower c) :: nat) < 128" if "is_hex_digit c" for c
    using that by (auto simp: is_hex_digit_def is_digit_def ascii_lower_def of_char_of dest!: arg_cong [where f = "of_char :: char \<Rightarrow> nat"])
  have "to_lower address = ''0x'' @ to_lower r" by (simp add: r(1) to_lower_def ascii_lower_def)
  moreover have "to_lower (tl address) = CHR ''x'' # to_lower r" by (simp add: r(1) to_lower_def ascii_lower_def)
  moreover have "CHR ''['' \<notin> set (to_lower r) \<and> CHR ''k'' \<notin> set (to_lower r) \<and> (\<forall>n \<in> set (to_lower r). (of_char n :: nat) < 128)"
    using hex r(2) by (fastforce simp: to_lower_def list_all_iff)
  ultimately show ?thesis by simp
qed

text \<open>
  C30. The address of a wallet does not show in a message whose lower case has its bytes in the same places: however
  the address is written in it, the text that is shown or logged does not contain it, in any case, and making it
  neither panics nor runs for ever. Such are the messages of ASCII, and those with characters without case.
\<close>
theorem redact_hides_address:
  assumes "is_address address" and "L address = to_lower address" and "keeps_places msg (L msg)"
  shows "\<exists>out. redact L msg address = Some out \<and> \<not> contains_text (to_lower out) (to_lower address)"
proof -
  note needle = address_ascii [OF assms(1)]
  have len: "length (L msg) = length msg" using assms(3) by (auto simp: keeps_places_def dest: list_all2_lengthD)
  then have "\<not> continuation (msg ! 0) \<and> \<not> continuation (L msg ! 0)" if "msg \<noteq> []"
    using assms(3) that by (fastforce simp: keeps_places_def text_bytes_def)
  with len have "char_boundary msg 0" "char_boundary (L msg) 0" by (auto simp: char_boundary_def)
  then have "redact_from msg (L msg) (to_lower address) 0 = Some (hide_text (to_lower address) msg)"
    using redact_from_hides_text [OF assms(3), of "to_lower address" 0] needle by fastforce
  moreover have "\<not> contains_text (to_lower (hide_text (to_lower address) msg)) (to_lower address)"
    using hide_text_hides needle by blast
  ultimately show ?thesis by (simp add: redact_def assms(2))
qed

theorem redact_hides_address_witness:
  "\<exists>out. redact to_lower (map char_of [0xE2, 0x80, 0xA6 :: nat] @ '' no balance for 0xD8dA6BF26964aF9D7eEd9e03E53415D37aA96045'')
       ''0xd8da6bf26964af9d7eed9e03e53415d37aa96045'' = Some out \<and>
     \<not> contains_text (to_lower out) (to_lower ''0xd8da6bf26964af9d7eed9e03e53415d37aa96045'')"
proof (rule redact_hides_address)
  have "text_bytes (map char_of [0xE2, 0x80, 0xA6 :: nat])"
    unfolding list.map by (rule text_bytes_three) (simp_all add: continuation_def)
  moreover have "list_all (\<lambda>c. (of_char c :: nat) < 128) '' no balance for 0xD8dA6BF26964aF9D7eEd9e03E53415D37aA96045''" by simp
  ultimately show "keeps_places (map char_of [0xE2, 0x80, 0xA6 :: nat] @ '' no balance for 0xD8dA6BF26964aF9D7eEd9e03E53415D37aA96045'')
      (to_lower (map char_of [0xE2, 0x80, 0xA6 :: nat] @ '' no balance for 0xD8dA6BF26964aF9D7eEd9e03E53415D37aA96045''))"
    by (intro keeps_places_to_lower text_bytes_append)
qed (code_simp, rule refl)

text \<open>
  Where lower-casing changes a length the places differ. The Kelvin sign is three bytes and its lower case is the letter
  k: 21 of them before an address leave the whole address in the text.
\<close>

definition kelvin_signs :: string where
  "kelvin_signs = List.concat (replicate 21 (map char_of [0xE2, 0x84, 0xAA :: nat]))"

theorem redact_shows_address_after_kelvin_signs:
  assumes "is_address address" and "L address = to_lower address"
    and "L (kelvin_signs @ address) = replicate 21 CHR ''k'' @ to_lower address"
  shows "redact L (kelvin_signs @ address) address = Some (take 21 kelvin_signs @ ''[address]'' @ address)"
proof -
  note needle = address_ascii [OF assms(1)]
  have len: "length address = 42" "address \<noteq> []" using assms(1) by (auto simp: is_address_def)
  let ?lower = "replicate 21 CHR ''k'' @ to_lower address"
  have "find_text (replicate n CHR ''k'' @ to_lower address) (to_lower address) = Some n" for n
  proof (induction n)
    case 0
    then show ?case using needle by (cases "to_lower address") (auto simp: starts_with_iff)
  next
    case (Suc n)
    have "\<not> starts_with (CHR ''k'' # replicate n CHR ''k'' @ to_lower address) (to_lower address)"
      using needle by (auto simp: starts_with_iff)
    then show ?case using Suc by simp
  qed
  then have found: "find_text ?lower (to_lower address) = Some 21" .
  have signs: "length kelvin_signs = 63" "\<not> continuation (kelvin_signs ! 0)" "\<not> continuation (kelvin_signs ! 21)" by code_simp+
  obtain rest where zero: "address = CHR ''0'' # rest" using assms(1) by (auto simp: is_address_def starts_with_iff)
  have "?lower ! 0 = CHR ''k''" by (simp add: nth_append)
  then have "cut ?lower 0 (length ?lower) = Some ?lower" "cut ?lower 63 (length ?lower) = Some []"
    using len by (simp_all add: cut_def char_boundary_def continuation_def)
  moreover have "cut (kelvin_signs @ address) 0 21 = Some (take 21 kelvin_signs)"
      "cut (kelvin_signs @ address) 63 (length (kelvin_signs @ address)) = Some address"
    using signs len by (simp_all add: cut_def char_boundary_def nth_append) (simp_all add: zero continuation_def)
  moreover have "redact_from (kelvin_signs @ address) ?lower (to_lower address) 63 = Some address"
    using calculation needle by (subst redact_from.simps) auto
  ultimately show ?thesis unfolding redact_def assms(2,3)
    by (subst redact_from.simps) (simp add: found len)
qed

section \<open>The flows of a wallet\<close>

text \<open>A reader of decimals that reads what the writer writes.\<close>

definition reads_back :: "dec_env \<Rightarrow> bool" where
  "reads_back E \<longleftrightarrow> (\<forall>d. de_parse E (de_show E d) = Some d)"

definition row_delta :: "dec_env \<Rightarrow> effect_row \<Rightarrow> rat" where
  "row_delta E r = (case de_parse E (er_delta r) of None \<Rightarrow> 0 | Some d \<Rightarrow> d)"

definition leg_amount :: "dec_env \<Rightarrow> asset_leg \<Rightarrow> rat" where
  "leg_amount E l = (case de_parse E (al_amount l) of None \<Rightarrow> 0 | Some d \<Rightarrow> if al_is_credit l then d else - d)"

definition flow_net :: "dec_env \<Rightarrow> string \<Rightarrow> normalized_flow \<Rightarrow> rat" where
  "flow_net E a f = (\<Sum>l\<leftarrow>nf_legs f. if al_asset l = a then leg_amount E l else 0)"

definition row_net :: "dec_env \<Rightarrow> string \<Rightarrow> effect_row \<Rightarrow> rat" where
  "row_net E a r = (if er_asset r = a then row_delta E r else 0)"

text \<open>What counts as capital: an unexplained difference, and a transfer whose transaction only receives or only sends.\<close>

definition is_capital :: "normalized_flow \<Rightarrow> bool" where
  "is_capital f \<longleftrightarrow> nf_source_namespace f = Deposit \<or> nf_source_namespace f = Withdrawal"

definition one_sided :: "dec_env \<Rightarrow> effect_row list \<Rightarrow> bool" where
  "one_sided E rs \<longleftrightarrow> (\<forall>r \<in> set rs. row_delta E r < 0) \<or> (\<forall>r \<in> set rs. \<not> row_delta E r < 0)"

definition same_tx :: "effect_row list \<Rightarrow> effect_row \<Rightarrow> effect_row list" where
  "same_tx rows r = filter (\<lambda>r'. er_kind r' = ''transfer'' \<and> tx_key r' = tx_key r) rows"

definition capital_row :: "dec_env \<Rightarrow> effect_row list \<Rightarrow> effect_row \<Rightarrow> bool" where
  "capital_row E rows r \<longleftrightarrow> er_kind r = ''unexplained'' \<or> er_kind r = ''transfer'' \<and> one_sided E (same_tx rows r)"

lemma leg_amount_of: "reads_back E \<Longrightarrow> leg_amount E (leg_of E a d) = d \<and> al_asset (leg_of E a d) = a"
  by (auto simp: reads_back_def leg_amount_def leg_of_def debit_def credit_def)

lemma stored_row: "stored_amount E (er_delta r) = Inr d \<Longrightarrow> row_delta E r = d"
  by (simp add: stored_amount_def row_delta_def)

lemma tx_legs_exact:
  "tx_legs E rs = Inr (legs, gains, losses) \<Longrightarrow> reads_back E \<Longrightarrow>
    (\<Sum>l\<leftarrow>legs. if al_asset l = a then leg_amount E l else 0) = (\<Sum>r\<leftarrow>rs. row_net E a r) \<and>
    gains = (\<exists>r \<in> set rs. \<not> row_delta E r < 0) \<and> losses = (\<exists>r \<in> set rs. row_delta E r < 0)"
proof (induction rs arbitrary: legs gains losses)
  case (Cons r rs)
  obtain d legs' g l where d: "stored_amount E (er_delta r) = Inr d" and rest: "tx_legs E rs = Inr (legs', g, l)"
    and e: "legs = leg_of E (er_asset r) d # legs'" "gains = (g \<or> \<not> d < 0)" "losses = (l \<or> d < 0)"
    using Cons.prems(1) by (auto split: prod.splits)
  show ?case using Cons.IH [OF rest Cons.prems(2)] leg_amount_of [OF Cons.prems(2), of "er_asset r" d] stored_row [OF d]
    by (auto simp: e row_net_def)
qed simp

lemma tx_flow_exact:
  assumes "tx_flow E (k, rs) = Inr f" and "reads_back E" and "rs \<noteq> []"
  shows "flow_net E a f = (\<Sum>r\<leftarrow>rs. row_net E a r) \<and> is_capital f = one_sided E rs"
proof -
  obtain legs gains losses where t: "tx_legs E rs = Inr (legs, gains, losses)"
    and f: "nf_legs f = legs" "nf_source_namespace f = family_of gains losses"
    using assms(1) by (auto simp: tx_flow_def split: prod.splits)
  obtain r where "r \<in> set rs" using assms(3) by (cases rs) auto
  then show ?thesis using tx_legs_exact [OF t assms(2), of a] f
    by (auto simp: flow_net_def is_capital_def family_of_def one_sided_def)
qed

text \<open>The loop over the rows: the transfers by transaction, and a flow for every other row.\<close>

definition is_transfer :: "effect_row \<Rightarrow> bool" where
  "is_transfer r \<longleftrightarrow> er_kind r = ''transfer''"

lemma classify_rows_exact:
  assumes "classify_rows E (m, flows) rows = Inr (m', flows')" and "grouped tx_key done m" and "reads_back E"
  shows "grouped tx_key (done @ filter is_transfer rows) m' \<and>
    (\<Sum>f\<leftarrow>flows'. flow_net E a f) = (\<Sum>f\<leftarrow>flows. flow_net E a f) + (\<Sum>r\<leftarrow>rows. if is_transfer r then 0 else row_net E a r) \<and>
    (\<Sum>f\<leftarrow>flows'. if is_capital f then flow_net E a f else 0) = (\<Sum>f\<leftarrow>flows. if is_capital f then flow_net E a f else 0) +
      (\<Sum>r\<leftarrow>rows. if er_kind r = ''unexplained'' then row_net E a r else 0)"
  using assms
proof (induction rows arbitrary: m flows "done")
  case (Cons r rows)
  obtain d where d: "stored_amount E (er_delta r) = Inr d" using Cons.prems(1) by auto
  note row = stored_row [OF d]
  have one: "flow_net E a f = row_net E a r" if "nf_legs f = [leg_of E (er_asset r) d]" for f
    using leg_amount_of [OF Cons.prems(3)] row by (simp add: flow_net_def that row_net_def)
  consider (transfer) "er_kind r = ''transfer''" | (gas) "er_kind r = ''gas''" | (unexplained) "er_kind r = ''unexplained''"
    using Cons.prems(1) d by (auto split: if_splits)
  then show ?case
  proof cases
    case transfer
    then have "classify_rows E (bt_push (tx_key r) r m, flows) rows = Inr (m', flows')" using Cons.prems(1) d by simp
    from Cons.IH [OF this grouped_push [OF Cons.prems(2)] Cons.prems(3)] show ?thesis
      using transfer by (simp add: is_transfer_def)
  next
    case gas
    then have "classify_rows E (m, flows @ [gas_flow E r d]) rows = Inr (m', flows')" using Cons.prems(1) d by simp
    from Cons.IH [OF this Cons.prems(2,3)] show ?thesis
      using gas one [of "gas_flow E r d"] by (simp add: is_transfer_def gas_flow_def is_capital_def)
  next
    case unexplained
    then have "classify_rows E (m, flows @ [unexplained_flow E r d]) rows = Inr (m', flows')" using Cons.prems(1) d by simp
    from Cons.IH [OF this Cons.prems(2,3)] show ?thesis
      using unexplained one [of "unexplained_flow E r d"] by (simp add: is_transfer_def unexplained_flow_def is_capital_def)
  qed
qed simp

lemma tx_flows_exact:
  assumes "collect_res (tx_flow E) m = Inr fs" and "reads_back E" and "\<And>k rs. (k, rs) \<in> set m \<Longrightarrow> rs \<noteq> []"
  shows "(\<Sum>f\<leftarrow>fs. flow_net E a f) = (\<Sum>(k, rs)\<leftarrow>m. \<Sum>r\<leftarrow>rs. row_net E a r) \<and>
    (\<Sum>f\<leftarrow>fs. if is_capital f then flow_net E a f else 0) =
      (\<Sum>(k, rs)\<leftarrow>m. if one_sided E rs then \<Sum>r\<leftarrow>rs. row_net E a r else 0)"
  using assms
proof (induction m arbitrary: fs)
  case (Cons e m)
  obtain k rs where e: "e = (k, rs)" by (cases e)
  obtain f fs' where f: "tx_flow E (k, rs) = Inr f" and fs': "collect_res (tx_flow E) m = Inr fs'" and fs: "fs = f # fs'"
    using Cons.prems(1) by (auto simp: e)
  have "rs \<noteq> []" using Cons.prems(3) [of k rs] by (simp add: e)
  moreover have "rs \<noteq> []" if "(k, rs) \<in> set m" for k rs using Cons.prems(3) [of k rs] that by simp
  ultimately show ?case using tx_flow_exact [OF f Cons.prems(2), of a] Cons.IH [OF fs' Cons.prems(2)] by (simp add: e fs)
qed simp

text \<open>
  C29. The flows of a wallet lose and invent nothing. For every asset, the legs of the flows add up to the stored
  effects. What counts as money put in or taken out is exactly the differences no transfer explains and the
  transactions that only receive or only send: gas and swaps never do.
\<close>
theorem wallet_flows_conserve:
  assumes "reads_back E" and "wallet_classify E rows = Inr flows"
  shows "(\<Sum>f\<leftarrow>flows. flow_net E a f) = (\<Sum>r\<leftarrow>rows. row_net E a r) \<and>
    (\<Sum>f\<leftarrow>filter is_capital flows. flow_net E a f) = (\<Sum>r\<leftarrow>filter (capital_row E rows) rows. row_net E a r)"
proof -
  obtain m fs1 fs2 where rows: "classify_rows E ([], []) rows = Inr (m, fs1)" and txs: "collect_res (tx_flow E) m = Inr fs2"
    and flows: "flows = sort_key flow_key (fs1 @ fs2)"
    using assms(2) by (auto simp: wallet_classify_def split: prod.splits)
  note c = classify_rows_exact [OF rows grouped_Nil assms(1), of a]
  let ?ts = "filter is_transfer rows"
  have g: "grouped tx_key ?ts m" using c by simp
  have m: "m = map (\<lambda>k. (k, filter (\<lambda>r. tx_key r = k) ?ts)) (map fst m)" and ks: "distinct (map fst m)" "set (map fst m) = tx_key ` set ?ts"
    using grouped_entries [OF g] by blast+
  note t = tx_flows_exact [OF txs assms(1) grouped_nonempty [OF g], where a = a]
  define w where "w r = (if one_sided E (same_tx rows r) then row_net E a r else 0)" for r
  have same: "same_tx rows r = filter (\<lambda>r'. tx_key r' = tx_key r) ?ts" for r
    by (simp add: same_tx_def is_transfer_def conj_commute)
  have "(\<Sum>(k, rs)\<leftarrow>m. \<Sum>r\<leftarrow>rs. row_net E a r) = (\<Sum>k\<leftarrow>map fst m. \<Sum>r\<leftarrow>filter (\<lambda>r. tx_key r = k) ?ts. row_net E a r)"
    by (subst m) (simp add: comp_def)
  also have "\<dots> = (\<Sum>r\<leftarrow>?ts. row_net E a r)" using ks by (intro sum_over_keys) simp_all
  finally have all: "(\<Sum>f\<leftarrow>fs2. flow_net E a f) = (\<Sum>r\<leftarrow>?ts. row_net E a r)" using t by simp
  have "(\<Sum>(k, rs)\<leftarrow>m. if one_sided E rs then \<Sum>r\<leftarrow>rs. row_net E a r else 0) =
      (\<Sum>k\<leftarrow>map fst m. \<Sum>r\<leftarrow>filter (\<lambda>r. tx_key r = k) ?ts. w r)"
  proof (subst m, simp only: map_map comp_def prod.case, rule arg_cong [of _ _ sum_list], rule map_cong [OF refl])
    fix e
    have "(\<Sum>r\<leftarrow>filter (\<lambda>r. tx_key r = fst e) ?ts. w r) =
        (\<Sum>r\<leftarrow>filter (\<lambda>r. tx_key r = fst e) ?ts. if one_sided E (filter (\<lambda>r. tx_key r = fst e) ?ts) then row_net E a r else 0)"
      by (intro arg_cong [of _ _ sum_list] map_cong refl) (auto simp: w_def same)
    then show "(if one_sided E (filter (\<lambda>r. tx_key r = fst e) ?ts)
        then \<Sum>r\<leftarrow>filter (\<lambda>r. tx_key r = fst e) ?ts. row_net E a r else 0) = (\<Sum>r\<leftarrow>filter (\<lambda>r. tx_key r = fst e) ?ts. w r)"
      by (simp add: sum_list_0)
  qed
  also have "\<dots> = (\<Sum>r\<leftarrow>?ts. w r)" using ks by (intro sum_over_keys) simp_all
  finally have capital: "(\<Sum>f\<leftarrow>fs2. if is_capital f then flow_net E a f else 0) = (\<Sum>r\<leftarrow>?ts. w r)" using t by simp
  have split: "(\<Sum>r\<leftarrow>rs. row_net E a r) = (\<Sum>r\<leftarrow>rs. if is_transfer r then 0 else row_net E a r) + (\<Sum>r\<leftarrow>filter is_transfer rs. row_net E a r)"
    "(\<Sum>r\<leftarrow>filter (capital_row E rows) rs. row_net E a r) =
      (\<Sum>r\<leftarrow>rs. if er_kind r = ''unexplained'' then row_net E a r else 0) + (\<Sum>r\<leftarrow>filter is_transfer rs. w r)" for rs
    by (induction rs) (auto simp: capital_row_def is_transfer_def w_def)
  have filtered: "(\<Sum>f\<leftarrow>filter is_capital fs. flow_net E a f) = (\<Sum>f\<leftarrow>fs. if is_capital f then flow_net E a f else 0)" for fs
    by (induction fs) auto
  have "(\<Sum>f\<leftarrow>flows. flow_net E a f) = (\<Sum>f\<leftarrow>fs1 @ fs2. flow_net E a f)"
    "(\<Sum>f\<leftarrow>flows. if is_capital f then flow_net E a f else 0) = (\<Sum>f\<leftarrow>fs1 @ fs2. if is_capital f then flow_net E a f else 0)"
    unfolding flows by (rule sum_list_sort_key)+
  then show ?thesis using c all capital split [of rows] by (simp add: filtered)
qed

text \<open>A writer and reader of every rational, as a fraction; a text with no slash is a whole number.\<close>

definition parse_whole :: "string \<Rightarrow> int" where
  "parse_whole s = (case s of [] \<Rightarrow> 0 | c # cs \<Rightarrow> if c = CHR ''-'' then - int (digits_value cs) else int (digits_value s))"

definition fraction_dec :: dec_env where
  "fraction_dec = \<lparr>de_arith = exact_arith,
     de_parse = (\<lambda>s. case split_once CHR ''/'' s of
         None \<Rightarrow> if s = ''x'' then None else Some (of_int (parse_whole s))
       | Some (n, d) \<Rightarrow> Some (of_int (parse_whole n) / of_nat (digits_value d))),
     de_show = (\<lambda>q. show_int (fst (quotient_of q)) @ ''/'' @ show_nat (nat (snd (quotient_of q))))\<rparr>"

lemma parse_whole_show: "parse_whole (show_int i) = i \<and> CHR ''/'' \<notin> set (show_int i)"
proof -
  have digits: "list_all is_digit (show_nat n)" "digits_value (show_nat n) = n" "show_nat n \<noteq> []" for n
    using show_nat_digits [of n] by simp_all
  have no: "c \<noteq> CHR ''/'' \<and> c \<noteq> CHR ''-''" if "is_digit c" for c using that by (auto simp: is_digit_def)
  obtain c cs where c: "show_nat (nat i) = c # cs" using digits(3) by (cases "show_nat (nat i)") auto
  have "c \<noteq> CHR ''-''" using digits(1) [of "nat i"] no by (simp add: c)
  moreover have slash: "CHR ''/'' \<notin> set (show_nat n)" for n using digits(1) [of n] no by (auto simp: list_all_iff)
  moreover have "CHR ''/'' \<notin> set (c # cs)" using slash [of "nat i"] c by simp
  ultimately show ?thesis using digits(2) [of "nat i"] digits(2) [of "nat (- i)"] c
    by (auto simp: show_int_def parse_whole_def)
qed

lemma fraction_dec_reads_back: "reads_back fraction_dec"
proof -
  have "of_int (fst (quotient_of q)) / of_nat (nat (snd (quotient_of q))) = q" for q
    using quotient_of_div [of q "fst (quotient_of q)" "snd (quotient_of q)"] quotient_of_denom_pos' [of q] by simp
  then show ?thesis using parse_whole_show show_nat_digits
    by (simp add: reads_back_def fraction_dec_def split_once_append)
qed

theorem wallet_flows_conserve_witness:
  "\<exists>flows. wallet_classify fraction_dec
       [\<lparr>er_chain_id = 1, er_tx_hash = ''h'', er_asset = ''usdc'', er_kind = ''transfer'', er_time_ms = 3, er_delta = ''-100''\<rparr>,
        \<lparr>er_chain_id = 1, er_tx_hash = ''h'', er_asset = ''eth'', er_kind = ''transfer'', er_time_ms = 3, er_delta = ''4''\<rparr>,
        \<lparr>er_chain_id = 1, er_tx_hash = ''h'', er_asset = ''eth'', er_kind = ''gas'', er_time_ms = 3, er_delta = ''-1''\<rparr>,
        \<lparr>er_chain_id = 1, er_tx_hash = ''u'', er_asset = ''eth'', er_kind = ''unexplained'', er_time_ms = 9, er_delta = ''2''\<rparr>] = Inr flows \<and>
     (\<Sum>f\<leftarrow>flows. flow_net fraction_dec ''eth'' f) = 5 \<and> (\<Sum>f\<leftarrow>filter is_capital flows. flow_net fraction_dec ''eth'' f) = 2"
proof -
  let ?rows = "[\<lparr>er_chain_id = 1, er_tx_hash = ''h'', er_asset = ''usdc'', er_kind = ''transfer'', er_time_ms = 3, er_delta = ''-100''\<rparr>,
        \<lparr>er_chain_id = 1, er_tx_hash = ''h'', er_asset = ''eth'', er_kind = ''transfer'', er_time_ms = 3, er_delta = ''4''\<rparr>,
        \<lparr>er_chain_id = 1, er_tx_hash = ''h'', er_asset = ''eth'', er_kind = ''gas'', er_time_ms = 3, er_delta = ''-1''\<rparr>,
        \<lparr>er_chain_id = 1, er_tx_hash = ''u'', er_asset = ''eth'', er_kind = ''unexplained'', er_time_ms = 9, er_delta = ''2''\<rparr>]"
  have p: "de_parse fraction_dec ''-100'' = Some (- 100)" "de_parse fraction_dec ''4'' = Some 4"
      "de_parse fraction_dec ''-1'' = Some (- 1)" "de_parse fraction_dec ''2'' = Some 2"
    by (simp_all add: fraction_dec_def split_once_def parse_whole_def digits_value_def)
  have "\<exists>flows. wallet_classify fraction_dec ?rows = Inr flows"
    by (simp add: wallet_classify_def stored_amount_def p bt_push_def tx_key_def tx_flow_def)
  then obtain flows where f: "wallet_classify fraction_dec ?rows = Inr flows" by blast
  have "(\<Sum>r\<leftarrow>?rows. row_net fraction_dec ''eth'' r) = 5"
      "(\<Sum>r\<leftarrow>filter (capital_row fraction_dec ?rows) ?rows. row_net fraction_dec ''eth'' r) = 2"
    by (simp_all add: row_net_def row_delta_def p capital_row_def one_sided_def same_tx_def tx_key_def)
  then show ?thesis using wallet_flows_conserve [OF fraction_dec_reads_back f, of "''eth''"] f by simp
qed

end
