(* ===== verification/WalletStore.thy ===== *)
theory WalletStore
  imports WalletRead WalletFlows
begin

text \<open>
  services/collector/binance/worker, wallet.rs, the rest: the settings, the tables of the wallets, a sync of
  the networks a connection follows, and the market its figures are computed in. The tables are maps from
  their primary keys; a transaction is one step, and a query is taken to succeed. The outer \<open>None\<close> is a panic
  outside the blocking tasks, whose own panics are the error of the join.
\<close>

section \<open>Settings\<close>

record wallet_settings =
  wt_chains :: "chain list"
  wt_etherscan_key :: "string option"
  wt_blockscout_key :: "string option"
  wt_rpc_urls :: "nat \<Rightarrow> string option"

datatype settings_fault = SettingsChains chain_config_error | SettingsSecret string

definition settings_from_env :: "secret_env \<Rightarrow> settings_fault + wallet_settings" where
  "settings_from_env N =
     and_then (map_err SettingsChains (parse_enabled (case sn_var N ''WALLET_CHAINS'' of None \<Rightarrow> [] | Some v \<Rightarrow> v))) (\<lambda>enabled.
     and_then (map_err SettingsSecret (read_secret N ''ETHERSCAN_API_KEY'')) (\<lambda>etherscan_key.
     and_then (map_err SettingsSecret (read_secret N ''BLOCKSCOUT_API_KEY'')) (\<lambda>blockscout_key.
       Inr \<lparr>wt_chains = enabled, wt_etherscan_key = etherscan_key, wt_blockscout_key = blockscout_key,
         wt_rpc_urls = (\<lambda>i. if i \<in> ch_id ` set enabled
           then Option.bind (sn_var N (''WALLET_RPC_URL_'' @ show_nat i)) (\<lambda>u. if trim u = [] then None else Some u)
           else None)\<rparr>)))"

definition new_settings :: "chain list \<Rightarrow> string option \<Rightarrow> string option \<Rightarrow> wallet_settings" where
  "new_settings enabled etherscan_key blockscout_key = \<lparr>wt_chains = enabled, wt_etherscan_key = etherscan_key,
     wt_blockscout_key = blockscout_key, wt_rpc_urls = Map.empty\<rparr>"

definition settings_endpoint :: "wallet_settings \<Rightarrow> chain \<Rightarrow> chain_config_error + endpoint" where
  "settings_endpoint S c = endpoint_of c (wt_etherscan_key S) (wt_blockscout_key S)"

text \<open>The reader of a network: its explorer and its node. What they answer over HTTP is a parameter of each.\<close>

definition settings_reader :: "explorer_env \<Rightarrow> (string \<Rightarrow> rpc_env) \<Rightarrow> wallet_settings \<Rightarrow> chain \<Rightarrow> chain_config_error + chain_reader" where
  "settings_reader V node S c =
     and_then (settings_endpoint S c) (\<lambda>endpoint.
       Inr (live_reader V (new_explorer endpoint)
         (node (case wt_rpc_urls S (ch_id c) of Some url \<Rightarrow> url | None \<Rightarrow> ch_rpc_url c))))"

section \<open>The tables\<close>

record wallet_connection =
  wn_id :: string
  wn_account_id :: string
  wn_owner_address :: string
  wn_encrypted_address :: bytes
  wn_nonce_address :: bytes
  wn_label :: "string option"
  wn_status :: string
  wn_created_at_ms :: nat
  wn_last_synced_at :: "nat option"

record chain_state =
  ws_synced_block :: int
  ws_synced_at_ms :: int
  ws_transfers_incomplete :: bool

record anchor_row =
  ar_quantity :: string
  ar_block :: int
  ar_symbol :: string
  ar_decimals :: int
  ar_unrepresentable :: bool

record effect_cell =
  ec_block :: int
  ec_time_ms :: int
  ec_delta :: string

text \<open>The last components of the keys: a network; a network and an asset; a network, a hash, an asset and a kind.\<close>

record wallet_db =
  wd_connections :: "wallet_connection list"
  wd_states :: "(string \<times> int, chain_state) btree"
  wd_anchors :: "(string \<times> int \<times> string, anchor_row) btree"
  wd_effects :: "(string \<times> int \<times> string \<times> string \<times> string, effect_cell) btree"

definition to_i64 :: "nat \<Rightarrow> int" where "to_i64 n = wrap_i64 (int n)"

datatype address_fault = CorruptAddress | AddressCrypto crypto_error

definition stored_address :: "crypto_env \<Rightarrow> master_key \<Rightarrow> wallet_connection \<Rightarrow> address_fault + string" where
  "stored_address V key c =
     (if length (wn_nonce_address c) \<noteq> 12 then Inl CorruptAddress
      else map_err AddressCrypto (and_then (decrypt_text V key (wn_encrypted_address c) (wn_nonce_address c)
        (credential_context ''wallet'' (wn_account_id c) ''address'')) (\<lambda>a. Inr (to_lower a))))"

datatype connect_fault = NoOwner | ConnectCrypto crypto_error | AlreadyConnected

text \<open>The id and the moment are those the database gives a new row.\<close>

definition insert_connection ::
    "crypto_env \<Rightarrow> bytes option \<Rightarrow> master_key \<Rightarrow> string \<Rightarrow> nat \<Rightarrow> wallet_db \<Rightarrow> string \<Rightarrow> string \<Rightarrow> string option \<Rightarrow>
     connect_fault + string \<times> wallet_db" where
  "insert_connection V drawn key new_id now db account_id address label =
     and_then (ok_or NoOwner (owner_of account_id)) (\<lambda>owner.
     and_then (map_err ConnectCrypto (encrypt_text V drawn key (to_lower address) (credential_context ''wallet'' account_id ''address''))) (\<lambda>e.
       if \<exists>other \<in> set (wd_connections db). wn_owner_address other = owner \<and> wn_account_id other \<noteq> account_id \<and>
            stored_address V key other = Inr (to_lower address)
       then Inl AlreadyConnected
       else (case find (\<lambda>c. wn_account_id c = account_id) (wd_connections db) of
           Some c \<Rightarrow> Inr (wn_id c, db\<lparr>wd_connections := map (\<lambda>c. if wn_account_id c = account_id
             then c\<lparr>wn_encrypted_address := ef_ciphertext e, wn_nonce_address := encrypted_field.ef_nonce e, wn_status := ''active''\<rparr> else c)
             (wd_connections db)\<rparr>)
         | None \<Rightarrow> Inr (new_id, db\<lparr>wd_connections := wd_connections db @
             [\<lparr>wn_id = new_id, wn_account_id = account_id, wn_owner_address = owner, wn_encrypted_address = ef_ciphertext e,
               wn_nonce_address = encrypted_field.ef_nonce e, wn_label = label, wn_status = ''active'', wn_created_at_ms = now,
               wn_last_synced_at = None\<rparr>]\<rparr>))))"

text \<open>Deleting a connection cascades to everything kept for it.\<close>

definition delete_connection :: "wallet_db \<Rightarrow> string \<Rightarrow> bool \<times> wallet_db" where
  "delete_connection db i =
     (\<exists>c \<in> set (wd_connections db). wn_id c = i,
      \<lparr>wd_connections = filter (\<lambda>c. wn_id c \<noteq> i) (wd_connections db),
       wd_states = filter (\<lambda>(k, _). fst k \<noteq> i) (wd_states db),
       wd_anchors = filter (\<lambda>(k, _). fst k \<noteq> i) (wd_anchors db),
       wd_effects = filter (\<lambda>(k, _). fst k \<noteq> i) (wd_effects db)\<rparr>)"

definition update_connection :: "wallet_db \<Rightarrow> string \<Rightarrow> (wallet_connection \<Rightarrow> wallet_connection) \<Rightarrow> wallet_db" where
  "update_connection db i f = db\<lparr>wd_connections := map (\<lambda>c. if wn_id c = i then f c else c) (wd_connections db)\<rparr>"

definition set_label :: "wallet_db \<Rightarrow> string \<Rightarrow> string \<Rightarrow> wallet_db" where
  "set_label db i label = update_connection db i (\<lambda>c. c\<lparr>wn_label := Some label\<rparr>)"

definition find_by_account :: "wallet_db \<Rightarrow> string \<Rightarrow> wallet_connection option" where
  "find_by_account db account_id = find (\<lambda>c. wn_account_id c = account_id) (wd_connections db)"

definition wallets_owned_by :: "wallet_db \<Rightarrow> string \<Rightarrow> (string \<times> string option \<times> nat \<times> string) list" where
  "wallets_owned_by db owner_address =
     map (\<lambda>c. (wn_account_id c, wn_label c, wn_created_at_ms c, wn_status c))
       (sort_key wn_created_at_ms (filter (\<lambda>c. wn_owner_address c = to_lower owner_address) (wd_connections db)))"

definition due_for_sync :: "wallet_db \<Rightarrow> nat \<Rightarrow> nat \<Rightarrow> wallet_connection list" where
  "due_for_sync db now interval_seconds =
     filter (\<lambda>c. wn_status c = ''active'' \<and>
       (case wn_last_synced_at c of None \<Rightarrow> True | Some t \<Rightarrow> t + 1000 * interval_seconds < now)) (wd_connections db)"

definition created_at_ms :: "wallet_db \<Rightarrow> string \<Rightarrow> nat option" where
  "created_at_ms db i = map_option wn_created_at_ms (find (\<lambda>c. wn_id c = i) (wd_connections db))"

definition chain_states :: "wallet_db \<Rightarrow> string \<Rightarrow> (int, chain_state) btree" where
  "chain_states db i = map (\<lambda>((_, c), s). (c, s)) (filter (\<lambda>(k, _). fst k = i) (wd_states db))"

definition stored_anchors :: "wallet_db \<Rightarrow> string \<Rightarrow> (int \<times> string, anchor_row) btree" where
  "stored_anchors db i = map (\<lambda>((_, k), a). (k, a)) (filter (\<lambda>(k, _). fst k = i) (wd_anchors db))"

definition row_of_effect :: "(string \<times> int \<times> string \<times> string \<times> string) \<times> effect_cell \<Rightarrow> effect_row" where
  "row_of_effect = (\<lambda>((_, chain_id, hash, asset, kind), e).
     \<lparr>er_chain_id = chain_id, er_tx_hash = hash, er_asset = asset, er_kind = kind, er_time_ms = ec_time_ms e, er_delta = ec_delta e\<rparr>)"

definition stored_effects :: "wallet_db \<Rightarrow> string \<Rightarrow> effect_row list" where
  "stored_effects db i =
     sort_key (\<lambda>r. (er_time_ms r, er_chain_id r, er_tx_hash r, er_asset r))
       (map row_of_effect (filter (\<lambda>(k, _). fst k = i) (wd_effects db)))"

definition effect_count :: "wallet_db \<Rightarrow> string \<Rightarrow> nat" where
  "effect_count db i = length (filter (\<lambda>(k, _). fst k = i) (wd_effects db))"

definition followed_chains :: "wallet_db \<Rightarrow> string \<Rightarrow> string + chain list" where
  "followed_chains db i =
     collect_res (\<lambda>(chain_id, _). ok_or (''network '' @ show_int chain_id @ '' is no longer supported'') (by_id (as_u64 chain_id)))
       (chain_states db i)"

section \<open>Keeping a reading\<close>

text \<open>\<open>INSERT \<dots> ON CONFLICT DO NOTHING\<close>.\<close>

definition insert_effect ::
    "(string \<times> int \<times> string \<times> string \<times> string) \<Rightarrow> effect_cell \<Rightarrow> wallet_db \<Rightarrow> wallet_db" where
  "insert_effect k e db =
     (if map_of (wd_effects db) k = None then db\<lparr>wd_effects := bt_insert k e (wd_effects db)\<rparr> else db)"

definition kind_text :: "effect_kind \<Rightarrow> string" where
  "kind_text k = (case k of TransferEffect \<Rightarrow> ''transfer'' | GasEffect \<Rightarrow> ''gas'')"

definition keep_effect :: "dec_env \<Rightarrow> string \<Rightarrow> int \<Rightarrow> wallet_db \<Rightarrow> effect \<Rightarrow> wallet_db" where
  "keep_effect E i chain_id db e =
     insert_effect (i, chain_id, ef_tx_hash e, ef_asset e, kind_text (ef_kind e))
       \<lparr>ec_block = to_i64 (ef_block e), ec_time_ms = to_i64 (ef_time_ms e), ec_delta = de_show E (ef_delta e)\<rparr> db"

type_synonym previous_anchors = "(string, decimal \<times> nat) btree"

definition decimals_known :: "reading \<Rightarrow> previous_anchors \<Rightarrow> string \<Rightarrow> nat" where
  "decimals_known r previous asset =
     (if ends_with asset '':native'' then 18
      else (case map_of (rg_tokens r) asset of Some m \<Rightarrow> tm_decimals m
        | None \<Rightarrow> (case map_of previous asset of Some (_, d) \<Rightarrow> d | None \<Rightarrow> 18)))"

definition keep_unexplained :: "dec_env \<Rightarrow> string \<Rightarrow> int \<Rightarrow> reading \<Rightarrow> nat \<Rightarrow> wallet_db \<Rightarrow> string \<times> decimal \<Rightarrow> wallet_db" where
  "keep_unexplained E i chain_id r now_ms db = (\<lambda>(asset, difference).
     insert_effect (i, chain_id, ''unexplained:'' @ show_nat (rg_end r), asset, ''unexplained'')
       \<lparr>ec_block = to_i64 (rg_end r), ec_time_ms = to_i64 now_ms, ec_delta = de_show E difference\<rparr> db)"

definition anchor_cell :: "dec_env \<Rightarrow> chain \<Rightarrow> reading \<Rightarrow> string \<Rightarrow> decimal \<Rightarrow> anchor_row" where
  "anchor_cell E c r asset quantity =
     (let (symbol, decimals) = (if ends_with asset '':native'' then (ch_native_symbol c, 18)
        else (case map_of (rg_tokens r) asset of Some m \<Rightarrow> (tm_symbol m, wrap_s 32 (int (tm_decimals m))) | None \<Rightarrow> ([], 0))) in
      \<lparr>ar_quantity = de_show E quantity, ar_block = to_i64 (rg_end r), ar_symbol = symbol, ar_decimals = decimals,
       ar_unrepresentable = False\<rparr>)"

definition mark_unrepresentable ::
    "string \<Rightarrow> int \<Rightarrow> nat \<Rightarrow> (string \<times> int \<times> string, anchor_row) btree \<Rightarrow> string \<Rightarrow> (string \<times> int \<times> string, anchor_row) btree" where
  "mark_unrepresentable i chain_id until anchors asset =
     bt_insert (i, chain_id, asset)
       (case map_of anchors (i, chain_id, asset) of
          Some a \<Rightarrow> a\<lparr>ar_unrepresentable := True\<rparr>
        | None \<Rightarrow> \<lparr>ar_quantity = ''0'', ar_block = to_i64 until, ar_symbol = [], ar_decimals = 18, ar_unrepresentable = True\<rparr>) anchors"

definition new_anchors ::
    "dec_env \<Rightarrow> string \<Rightarrow> chain \<Rightarrow> reading \<Rightarrow> (string \<times> int \<times> string, anchor_row) btree \<Rightarrow>
     (string \<times> int \<times> string, anchor_row) btree" where
  "new_anchors E i c r anchors =
     (let chain_id = to_i64 (ch_id c);
          others = filter (\<lambda>((i', c', _), _). \<not> (i' = i \<and> c' = chain_id)) anchors;
          kept = foldl (\<lambda>m (asset, quantity). bt_insert (i, chain_id, asset) (anchor_cell E c r asset quantity) m) others (rg_anchor r)
      in foldl (mark_unrepresentable i chain_id (rg_end r)) kept (sorted_list_of_set (rg_unrepresentable r)))"

definition persist ::
    "dec_env \<Rightarrow> wallet_db \<Rightarrow> string \<Rightarrow> chain \<Rightarrow> reading \<Rightarrow> previous_anchors option \<Rightarrow> nat \<Rightarrow> wallet_db option" where
  "persist E db i c r previous now_ms =
     (let chain_id = to_i64 (ch_id c); db = foldl (keep_effect E i chain_id) db (rg_confirmed r) in
      Option.bind (case previous of None \<Rightarrow> Some db
        | Some previous \<Rightarrow> map_option (foldl (keep_unexplained E i chain_id r now_ms) db)
            (unexplained (de_arith E) (map (\<lambda>(a, q, _). (a, q)) previous) (rg_confirmed r) (rg_anchor r) (decimals_known r previous))) (\<lambda>db.
      Some (db\<lparr>wd_anchors := new_anchors E i c r (wd_anchors db),
        wd_states := bt_insert (i, chain_id) \<lparr>ws_synced_block = to_i64 (rg_end r), ws_synced_at_ms = to_i64 now_ms,
          ws_transfers_incomplete = rg_transfers_incomplete r\<rparr> (wd_states db)\<rparr>)))"

section \<open>Syncing\<close>

definition MIN_SYNC_GAP_MS :: nat where "MIN_SYNC_GAP_MS = 60000"

text \<open>The messages of the errors a reading can meet.\<close>

fun wire_error_text :: "wire_error \<Rightarrow> string" where
  "wire_error_text (RateLimited s) = ''the explorer's rate limit was reached: '' @ s"
| "wire_error_text (Refused s) = ''the explorer refused the request: '' @ s"
| "wire_error_text (Unexpected s) = ''the explorer sent something unexpected: '' @ s"

fun explorer_error_text :: "explorer_error \<Rightarrow> string" where
  "explorer_error_text (ExplorerNetwork s) = ''could not reach the explorer: '' @ s"
| "explorer_error_text (ExplorerAnswer e) = wire_error_text e"
| "explorer_error_text (BlockTooLarge b) = ''block '' @ show_nat b @
    '' holds more rows than one query can return, so its transfers cannot be read whole''"

fun rpc_error_text :: "rpc_error \<Rightarrow> string" where
  "rpc_error_text (RpcNetwork s) = ''could not reach the node: '' @ s"
| "rpc_error_text RpcRateLimited = ''the node's rate limit was reached''"
| "rpc_error_text (RpcUnexpected s) = ''the node sent something unexpected: '' @ s"
| "rpc_error_text (RpcRefused s) = ''the node refused: '' @ s"

fun read_error_text :: "read_error \<Rightarrow> string" where
  "read_error_text (ReadExplorer e) = explorer_error_text e"
| "read_error_text (ReadNode e) = rpc_error_text e"

fun snapshot_error_text :: "snapshot_error \<Rightarrow> string" where
  "snapshot_error_text (SnapRead e) = read_error_text e"
| "snapshot_error_text (SnapPrice e) = ''could not price tokens: '' @ price_error_text e"
| "snapshot_error_text (ExplorerBehind indexed needed) = ''the explorer has indexed only to block '' @ show_nat indexed @
    '', and the reading needs block '' @ show_nat needed"

text \<open>
  What a sync is given: the decimals, the exact reader, the readers of the networks, the prices, and the message
  of a join whose task panicked.
\<close>

record sync_env =
  sv_dec :: dec_env
  sv_exact :: "string \<Rightarrow> decimal option"
  sv_reader :: "chain \<Rightarrow> string + chain_reader"
  sv_prices :: price_provider
  sv_lower :: "string \<Rightarrow> string"
  sv_join_error :: string

definition previous_of :: "dec_env \<Rightarrow> int \<Rightarrow> (int \<times> string, anchor_row) btree \<Rightarrow> previous_anchors" where
  "previous_of E chain_id anchors =
     foldl (\<lambda>m ((c, asset), a). if c = chain_id \<and> \<not> ar_unrepresentable a
         then (case de_parse E (ar_quantity a) of None \<Rightarrow> m | Some q \<Rightarrow> bt_insert asset (q, nat (ar_decimals a mod 2 ^ 32)) m) else m)
       [] anchors"

definition known_of :: "int \<Rightarrow> (int \<times> string, anchor_row) btree \<Rightarrow> effect_row list \<Rightarrow> string set" where
  "known_of chain_id anchors effects =
     (snd \<circ> fst) ` set (filter (\<lambda>((c, _), _). c = chain_id) anchors) \<union>
     er_asset ` set (filter (\<lambda>e. er_chain_id e = chain_id) effects)"

definition chain_reading ::
    "sync_env \<Rightarrow> string \<Rightarrow> (int, chain_state) btree \<Rightarrow> (int \<times> string, anchor_row) btree \<Rightarrow> effect_row list \<Rightarrow> chain \<Rightarrow>
     (string + reading option) option" where
  "chain_reading Y address states anchors effects c =
     (case sv_reader Y c of Inl e \<Rightarrow> Some (Inl e)
      | Inr reader \<Rightarrow> map_option (map_err snapshot_error_text) (read_chain (de_arith (sv_dec Y)) (sv_exact Y) reader (sv_prices Y)
          \<lparr>rq_chain = c, rq_address = address,
           rq_after_block = map_option (\<lambda>s. as_u64 (ws_synced_block s)) (map_of states (to_i64 (ch_id c))),
           rq_known_assets = known_of (to_i64 (ch_id c)) anchors effects\<rparr>))"

text \<open>
  The loop over the networks: the failures so far and the tables. A panic in a reading ends it with the error
  of the join, the networks before it kept.
\<close>

fun sync_chains ::
    "sync_env \<Rightarrow> string \<Rightarrow> string \<Rightarrow> (int, chain_state) btree \<Rightarrow> (int \<times> string, anchor_row) btree \<Rightarrow> effect_row list \<Rightarrow> nat \<Rightarrow>
     string list \<times> wallet_db \<Rightarrow> chain list \<Rightarrow> ((string + string list) \<times> wallet_db) option" where
  "sync_chains Y i address states anchors effects now_ms (failures, db) [] = Some (Inr failures, db)"
| "sync_chains Y i address states anchors effects now_ms (failures, db) (c # cs) =
     (let chain_id = to_i64 (ch_id c) in
      case chain_reading Y address states anchors effects c of
        None \<Rightarrow> Some (Inl (sv_join_error Y), db)
      | Some (Inl e) \<Rightarrow> sync_chains Y i address states anchors effects now_ms (failures @ [ch_name c @ '': '' @ e], db) cs
      | Some (Inr None) \<Rightarrow> sync_chains Y i address states anchors effects now_ms (failures, db) cs
      | Some (Inr (Some r)) \<Rightarrow>
          Option.bind (persist (sv_dec Y) db i c r
            (if map_of states chain_id = None then None else Some (previous_of (sv_dec Y) chain_id anchors)) now_ms) (\<lambda>db.
          sync_chains Y i address states anchors effects now_ms (failures, db) cs))"

definition synced_recently :: "wallet_db \<Rightarrow> string \<Rightarrow> nat \<Rightarrow> bool" where
  "synced_recently db i now =
     (case Option.bind (find (\<lambda>c. wn_id c = i) (wd_connections db)) wn_last_synced_at of
        None \<Rightarrow> False | Some t \<Rightarrow> t + MIN_SYNC_GAP_MS > now)"

definition sync_locked ::
    "sync_env \<Rightarrow> wallet_db \<Rightarrow> string \<Rightarrow> string \<Rightarrow> chain list \<Rightarrow> nat \<Rightarrow> nat \<Rightarrow> bool \<Rightarrow> ((string + unit) \<times> wallet_db) option" where
  "sync_locked Y db i address enabled now now_ms force =
     (if \<not> force \<and> synced_recently db i now then Some (Inr (), db)
      else Option.bind (sync_chains Y i address (chain_states db i) (stored_anchors db i) (stored_effects db i) now_ms ([], db) enabled) (\<lambda>(r, db).
        case r of
          Inl e \<Rightarrow> Some (Inl e, db)
        | Inr failures \<Rightarrow> Some (if failures = []
            then (Inr (), update_connection db i (\<lambda>c. c\<lparr>wn_last_synced_at := Some now\<rparr>))
            else (Inl (join_with ''; '' failures), db))))"

text \<open>
  One caller at a time: a sync that does not get the lock does nothing. The address is hidden in what it reports,
  which panics where the lower case moves the address, and never ends for an empty one.
\<close>

definition sync ::
    "sync_env \<Rightarrow> bool \<Rightarrow> wallet_db \<Rightarrow> string \<Rightarrow> string \<Rightarrow> chain list \<Rightarrow> nat \<Rightarrow> nat \<Rightarrow> bool \<Rightarrow> ((string + unit) \<times> wallet_db) option" where
  "sync Y acquired db i address enabled now now_ms force =
     (if \<not> acquired then Some (Inr (), db)
      else Option.bind (sync_locked Y db i address enabled now now_ms force) (\<lambda>(r, db).
        case r of Inr u \<Rightarrow> Some (Inr u, db) | Inl e \<Rightarrow> map_option (\<lambda>e. (Inl e, db)) (redact (sv_lower Y) e address)))"

section \<open>The market\<close>

datatype market_fault = MarketAmount flow_fault | MarketPrices market_error | MarketCoverage coverage_error

definition anchored_balances :: "(int \<times> string, anchor_row) btree \<Rightarrow> account_balance list" where
  "anchored_balances stored =
     map (\<lambda>((_, asset), a). \<lparr>ab_asset = asset, ab_free = ar_quantity a, ab_locked = ''0''\<rparr>)
       (filter (\<lambda>(_, a). \<not> ar_unrepresentable a) stored)"

definition market_of :: "dec_env \<Rightarrow> wallet_db \<Rightarrow> string \<Rightarrow> price_provider \<Rightarrow> market_fault + wallet_market" where
  "market_of E db i prices =
     (let stored = stored_anchors db i; rows = stored_effects db i in
      and_then (map_err MarketAmount (active_assets E rows)) (\<lambda>active.
      let unrepresentable = (snd \<circ> fst) ` set (filter (\<lambda>(_, a). ar_unrepresentable a) stored);
          followed = sorted_list_of_set ((snd \<circ> fst) ` set stored);
          market = \<lparr>wm_prices = prices, wm_balances = anchored_balances stored\<rparr> in
      and_then (map_err MarketPrices (priced_assets market)) (\<lambda>with_price.
      and_then (map_err MarketCoverage (check_coverage followed active with_price unrepresentable)) (\<lambda>_.
        Inr market))))"

definition wallet_flows :: "dec_env \<Rightarrow> wallet_db \<Rightarrow> string \<Rightarrow> flow_fault + normalized_flow list" where
  "wallet_flows E db i = wallet_classify E (stored_effects db i)"

section \<open>The ledger of a wallet closes\<close>

text \<open>What is kept of one network of a connection, and the total of its stored effects for an asset.\<close>

definition effects_view :: "string \<Rightarrow> int \<Rightarrow> wallet_db \<Rightarrow> (string \<times> int \<times> string \<times> string \<times> string, effect_cell) btree" where
  "effects_view i ch db = filter (\<lambda>e. fst (fst e) = i \<and> fst (snd (fst e)) = ch) (wd_effects db)"

definition anchors_view :: "string \<Rightarrow> int \<Rightarrow> wallet_db \<Rightarrow> (string \<times> int \<times> string, anchor_row) btree" where
  "anchors_view i ch db = filter (\<lambda>e. fst (fst e) = i \<and> fst (snd (fst e)) = ch) (wd_anchors db)"

definition stored_total :: "dec_env \<Rightarrow> wallet_db \<Rightarrow> string \<Rightarrow> int \<Rightarrow> string \<Rightarrow> rat" where
  "stored_total E db i ch a = (\<Sum>r\<leftarrow>filter (\<lambda>r. er_chain_id r = ch) (stored_effects db i). row_net E a r)"

definition cell_net :: "dec_env \<Rightarrow> string \<Rightarrow> (string \<times> int \<times> string \<times> string \<times> string) \<Rightarrow> effect_cell \<Rightarrow> rat" where
  "cell_net E a k e = (if fst (snd (snd (snd k))) = a then case de_parse E (ec_delta e) of None \<Rightarrow> 0 | Some d \<Rightarrow> d else 0)"

definition db_ok :: "wallet_db \<Rightarrow> bool" where
  "db_ok db \<longleftrightarrow> bt_ok (wd_effects db) \<and> bt_ok (wd_anchors db)"

lemma sum_filter_if: "(\<Sum>x\<leftarrow>filter P xs. f x) = (\<Sum>x\<leftarrow>xs. if P x then f x else (0 :: 'a :: comm_monoid_add))"
  by (induction xs) auto

lemma stored_total_view: "stored_total E db i ch a = (\<Sum>(k, e)\<leftarrow>effects_view i ch db. cell_net E a k e)"
proof -
  have row: "er_chain_id (row_of_effect e) = fst (snd (fst e)) \<and> row_net E a (row_of_effect e) = cell_net E a (fst e) (snd e)" for e
    by (cases e) (auto simp: row_of_effect_def row_net_def row_delta_def cell_net_def)
  have "(\<Sum>r\<leftarrow>map row_of_effect (filter (\<lambda>(k, _). fst k = i) m). if er_chain_id r = ch then row_net E a r else 0) =
      (\<Sum>(k, e)\<leftarrow>filter (\<lambda>e. fst (fst e) = i \<and> fst (snd (fst e)) = ch) m. cell_net E a k e)" for m
    by (induction m) (auto simp: row)
  then show ?thesis by (simp only: stored_total_def stored_effects_def sum_filter_if sum_list_sort_key effects_view_def)
qed

text \<open>The balance of an asset the tables hold: none where it is not anchored, or could not be represented.\<close>

definition anchored :: "dec_env \<Rightarrow> anchor_row \<Rightarrow> decimal option" where
  "anchored E x = (if ar_unrepresentable x then None else de_parse E (ar_quantity x))"

definition holding :: "dec_env \<Rightarrow> wallet_db \<Rightarrow> string \<Rightarrow> int \<Rightarrow> string \<Rightarrow> rat" where
  "holding E db i ch a = (case Option.bind (map_of (wd_anchors db) (i, ch, a)) (anchored E) of None \<Rightarrow> 0 | Some q \<Rightarrow> q)"

text \<open>The effects of a reading are not stored yet.\<close>

definition unseen :: "wallet_db \<Rightarrow> string \<Rightarrow> chain \<Rightarrow> reading \<Rightarrow> bool" where
  "unseen db i c r \<longleftrightarrow>
     (\<forall>e \<in> set (rg_confirmed r). map_of (wd_effects db) (i, to_i64 (ch_id c), ef_tx_hash e, ef_asset e, kind_text (ef_kind e)) = None) \<and>
     (\<forall>a. map_of (wd_effects db) (i, to_i64 (ch_id c), ''unexplained:'' @ show_nat (rg_end r), a, ''unexplained'') = None)"

lemma insert_effect_view:
  assumes "bt_ok (wd_effects db)" and "map_of (wd_effects db) (i, ch, k) = None"
  shows "(\<Sum>(k, e)\<leftarrow>effects_view i ch (insert_effect (i, ch, k) e db). cell_net E a k e) =
      (\<Sum>(k, e)\<leftarrow>effects_view i ch db. cell_net E a k e) + cell_net E a (i, ch, k) e"
proof -
  let ?f = "\<lambda>k e. if fst k = i \<and> fst (snd k) = ch then cell_net E a k e else 0"
  have view: "(\<Sum>(k, e)\<leftarrow>effects_view i ch db. cell_net E a k e) = (\<Sum>(k, e)\<leftarrow>wd_effects db. ?f k e)" for db
    unfolding effects_view_def sum_filter_if by (intro arg_cong [of _ _ sum_list] map_cong refl) auto
  have "(\<Sum>(k, e)\<leftarrow>wd_effects (insert_effect (i, ch, k) e db). ?f k e) = (\<Sum>(k, e)\<leftarrow>wd_effects db. ?f k e) + cell_net E a (i, ch, k) e"
    using bt_sum_insert [OF assms(1), of ?f "(i, ch, k)" e] assms(2) by (simp add: insert_effect_def)
  then show ?thesis by (simp only: view)
qed

text \<open>Keeping effects under new, distinct keys of one network adds their total there and changes nothing else.\<close>

lemma keep_all:
  assumes "bt_ok (wd_effects db)" and "distinct (map fst kes)" and "\<forall>ke \<in> set kes. map_of (wd_effects db) (i, ch, fst ke) = None"
  defines "db' \<equiv> foldl (\<lambda>db (k, e). insert_effect (i, ch, k) e db) db kes"
  shows "stored_total E db' i ch a = stored_total E db i ch a + (\<Sum>(k, e)\<leftarrow>kes. cell_net E a (i, ch, k) e) \<and>
    bt_ok (wd_effects db') \<and> wd_anchors db' = wd_anchors db \<and> wd_states db' = wd_states db \<and>
    wd_connections db' = wd_connections db \<and>
    (\<forall>ch'. ch' \<noteq> ch \<longrightarrow> effects_view i ch' db' = effects_view i ch' db) \<and>
    (\<forall>k. k \<notin> fst ` set kes \<longrightarrow> map_of (wd_effects db') (i, ch, k) = map_of (wd_effects db) (i, ch, k))"
  using assms(1-3) unfolding db'_def
proof (induction kes arbitrary: db)
  case (Cons ke kes)
  obtain k e where ke: "ke = (k, e)" by (cases ke)
  define db1 where "db1 = insert_effect (i, ch, k) e db"
  have new: "map_of (wd_effects db) (i, ch, k) = None" using Cons.prems(3) by (simp add: ke)
  have ok: "bt_ok (wd_effects db1)" using Cons.prems(1) by (simp add: db1_def insert_effect_def bt_ok_insert)
  have get: "map_of (wd_effects db1) (i, ch, k') = (if k' = k then Some e else map_of (wd_effects db) (i, ch, k'))" for k'
    using Cons.prems(1) new by (simp add: db1_def insert_effect_def)
  have "\<forall>ke \<in> set kes. map_of (wd_effects db1) (i, ch, fst ke) = None"
    using Cons.prems(2,3) get by (auto simp: ke image_iff)
  note rest = Cons.IH [OF ok _ this]
  have "stored_total E db1 i ch a = stored_total E db i ch a + cell_net E a (i, ch, k) e"
    unfolding stored_total_view db1_def using Cons.prems(1) new by (rule insert_effect_view)
  moreover have "effects_view i ch' db1 = effects_view i ch' db" if "ch' \<noteq> ch" for ch'
    using bt_insert_outside [of "\<lambda>k. fst k = i \<and> fst (snd k) = ch'" "(i, ch, k)" e "wd_effects db"] that
    by (simp add: effects_view_def db1_def insert_effect_def)
  moreover have "wd_anchors db1 = wd_anchors db" "wd_states db1 = wd_states db" "wd_connections db1 = wd_connections db"
    by (simp_all add: db1_def insert_effect_def)
  ultimately show ?case using rest Cons.prems(2) get by (auto simp: ke db1_def [symmetric])
qed simp

lemma unexplained_keys: "unexplained A previous confirmed anchor decimals_of = Some out \<Longrightarrow> distinct (map fst out)"
proof -
  have loop: "fst ` set out \<subseteq> set assets \<and> distinct (map fst out)"
    if "unexplained_loop difference decimals_of assets = Some out" and "distinct assets" for difference assets out
    using that
  proof (induction assets arbitrary: out)
    case (Cons b assets)
    obtain d dust out' where "unexplained_loop difference decimals_of assets = Some out'" and "out = (if \<bar>d\<bar> > dust then (b, d) # out' else out')"
      using Cons.prems(1) by (auto simp: Option.bind_eq_Some_conv)
    then show ?case using Cons.IH [of out'] Cons.prems(2) by auto
  qed simp
  assume "unexplained A previous confirmed anchor decimals_of = Some out"
  then show ?thesis using loop by (auto simp: unexplained_def Option.bind_eq_Some_conv)
qed

lemma sum_one_key: "distinct (map fst m) \<Longrightarrow> (\<Sum>(k, v)\<leftarrow>m. if k = a then v else (0 :: rat)) = (case map_of m a of None \<Rightarrow> 0 | Some v \<Rightarrow> v)"
proof (induction m)
  case (Cons e m)
  have "(\<Sum>(k, v)\<leftarrow>m. if k = fst e then v else 0) = (0 :: rat)"
    using Cons.prems by (intro sum_list_zero) (auto split: prod.splits simp: image_iff)
  then show ?case using Cons by (cases e) auto
qed simp

lemma kind_text_inj: "kind_text k = kind_text k' \<longleftrightarrow> k = k'" "kind_text k \<noteq> ''unexplained''"
  by (cases k; cases k'; simp add: kind_text_def) (cases k; simp add: kind_text_def)

lemma effects_only [simp]:
  "effects_view i ch (db\<lparr>wd_anchors := x, wd_states := y\<rparr>) = effects_view i ch db"
  "stored_total E (db\<lparr>wd_anchors := x, wd_states := y\<rparr>) i ch a = stored_total E db i ch a"
  by (simp_all add: stored_total_view effects_view_def)

text \<open>The tables of the effects after the transaction of a reading.\<close>

lemma persist_total:
  assumes persist: "persist E db i c r previous now_ms = Some db'" and E: "reads_back E" "de_arith E = exact_arith"
    and ok: "bt_ok (wd_effects db)" and unseen: "unseen db i c r"
    and keys: "distinct (map (\<lambda>e. (ef_tx_hash e, ef_asset e, ef_kind e)) (rg_confirmed r))"
  defines "ch \<equiv> to_i64 (ch_id c)"
  shows "stored_total E db' i ch a = stored_total E db i ch a + effect_total (rg_confirmed r) a +
      (case previous of None \<Rightarrow> 0
       | Some p \<Rightarrow> let d = or_zero_at (rg_anchor r) a - or_zero_at (map (\<lambda>(a, q, _). (a, q)) p) a - effect_total (rg_confirmed r) a in
           if \<bar>d\<bar> > of_nat DUST_UNITS / 10 ^ decimals_known r p a then d else 0) \<and>
    bt_ok (wd_effects db') \<and> (\<forall>ch'. ch' \<noteq> ch \<longrightarrow> effects_view i ch' db' = effects_view i ch' db) \<and>
    wd_anchors db' = new_anchors E i c r (wd_anchors db) \<and> wd_connections db' = wd_connections db"
proof -
  define kes where "kes = map (\<lambda>e. ((ef_tx_hash e, ef_asset e, kind_text (ef_kind e)),
    \<lparr>ec_block = to_i64 (ef_block e), ec_time_ms = to_i64 (ef_time_ms e), ec_delta = de_show E (ef_delta e)\<rparr>)) (rg_confirmed r)"
  define db1 where "db1 = foldl (\<lambda>db (k, e). insert_effect (i, ch, k) e db) db kes"
  have db1: "foldl (keep_effect E i ch) db (rg_confirmed r) = db1"
    unfolding db1_def kes_def foldl_map by (rule foldl_cong) (simp_all add: keep_effect_def)
  have "map fst kes = map (\<lambda>(h, a, k). (h, a, kind_text k)) (map (\<lambda>e. (ef_tx_hash e, ef_asset e, ef_kind e)) (rg_confirmed r))"
    by (simp add: kes_def)
  moreover have "inj_on (\<lambda>(h, a, k). (h, a, kind_text k)) X" for X :: "(string \<times> string \<times> effect_kind) set"
    by (auto simp: inj_on_def kind_text_inj)
  ultimately have d: "distinct (map fst kes)" using keys by (simp only: distinct_map)
  have new: "\<forall>ke \<in> set kes. map_of (wd_effects db) (i, ch, fst ke) = None"
    using unseen by (auto simp: unseen_def kes_def ch_def)
  note first = keep_all [OF ok d new, folded db1_def, where a = a and E = E]
  have kept: "map_of (wd_effects db1) (i, ch, k) = map_of (wd_effects db) (i, ch, k)" if "k \<notin> fst ` set kes" for k
    using first that by blast
  have "(\<Sum>(k, e)\<leftarrow>kes. cell_net E a (i, ch, k) e) = effect_total (rg_confirmed r) a"
    using E(1) by (simp add: kes_def comp_def cell_net_def effect_total_def reads_back_def cong: if_cong)
  then have total1: "stored_total E db1 i ch a = stored_total E db i ch a + effect_total (rg_confirmed r) a" using first by simp
  show ?thesis
  proof (cases previous)
    case None
    then have "\<exists>x y. db' = db1\<lparr>wd_anchors := x, wd_states := y\<rparr> \<and> x = new_anchors E i c r (wd_anchors db1)"
      using persist by (auto simp: persist_def Let_def ch_def [symmetric] db1)
    then show ?thesis using first total1 None by auto
  next
    case (Some p)
    define d where "d = or_zero_at (rg_anchor r) a - or_zero_at (map (\<lambda>(a, q, _). (a, q)) p) a - effect_total (rg_confirmed r) a"
    obtain out where out: "unexplained exact_arith (map (\<lambda>(a, q, _). (a, q)) p) (rg_confirmed r) (rg_anchor r) (decimals_known r p) = Some out"
      and db': "\<exists>x y. db' = (foldl (keep_unexplained E i ch r now_ms) db1 out)\<lparr>wd_anchors := x, wd_states := y\<rparr> \<and>
        x = new_anchors E i c r (wd_anchors (foldl (keep_unexplained E i ch r now_ms) db1 out))"
      using persist Some E(2) by (auto simp: persist_def Let_def ch_def [symmetric] db1 Option.bind_eq_Some_conv)
    define ues where "ues = map (\<lambda>(asset, d). ((''unexplained:'' @ show_nat (rg_end r), asset, ''unexplained''),
      \<lparr>ec_block = to_i64 (rg_end r), ec_time_ms = to_i64 now_ms, ec_delta = de_show E d\<rparr>)) out"
    have db2: "foldl (keep_unexplained E i ch r now_ms) db1 out = foldl (\<lambda>db (k, e). insert_effect (i, ch, k) e db) db1 ues"
      unfolding ues_def foldl_map by (rule foldl_cong) (auto simp: keep_unexplained_def)
    have "map fst ues = map (\<lambda>a. (''unexplained:'' @ show_nat (rg_end r), a, ''unexplained'')) (map fst out)"
      by (simp add: ues_def case_prod_beta')
    then have "distinct (map fst ues)" using unexplained_keys [OF out] by (simp only: distinct_map) (auto simp: inj_on_def)
    moreover have "\<forall>ke \<in> set ues. map_of (wd_effects db1) (i, ch, fst ke) = None"
    proof
      fix ke assume "ke \<in> set ues"
      define k where "k = fst ke"
      have k: "k = (''unexplained:'' @ show_nat (rg_end r), fst (snd k), ''unexplained'')" using \<open>ke \<in> set ues\<close> by (auto simp: ues_def k_def)
      have "k \<notin> fst ` set kes" by (subst k) (auto simp: kes_def kind_text_inj kind_text_inj(2) [symmetric])
      moreover have "map_of (wd_effects db) (i, ch, k) = None" using unseen by (subst k) (simp add: unseen_def ch_def)
      ultimately show "map_of (wd_effects db1) (i, ch, fst ke) = None" unfolding k_def [symmetric] using kept by metis
    qed
    moreover have "bt_ok (wd_effects db1)" using first by simp
    ultimately have second: "stored_total E (foldl (keep_unexplained E i ch r now_ms) db1 out) i ch a =
          stored_total E db1 i ch a + (\<Sum>(k, e)\<leftarrow>ues. cell_net E a (i, ch, k) e)"
        "bt_ok (wd_effects (foldl (keep_unexplained E i ch r now_ms) db1 out))"
        "wd_anchors (foldl (keep_unexplained E i ch r now_ms) db1 out) = wd_anchors db1"
        "wd_connections (foldl (keep_unexplained E i ch r now_ms) db1 out) = wd_connections db1"
        "\<And>ch'. ch' \<noteq> ch \<Longrightarrow> effects_view i ch' (foldl (keep_unexplained E i ch r now_ms) db1 out) = effects_view i ch' db1"
      unfolding db2 using keep_all [of db1 ues i ch E a] by simp_all
    have "(\<Sum>(k, e)\<leftarrow>ues. cell_net E a (i, ch, k) e) = (\<Sum>(k, v)\<leftarrow>out. if k = a then v else 0)"
      using E(1) by (simp add: ues_def comp_def case_prod_beta' cell_net_def reads_back_def cong: if_cong)
    also have "\<dots> = (if \<bar>d\<bar> > of_nat DUST_UNITS / 10 ^ decimals_known r p a then d else 0)"
      using sum_one_key [OF unexplained_keys [OF out], of a] unexplained_exact [OF out, of a] by (simp add: d_def)
    finally show ?thesis using db' second first total1 Some by (auto simp: d_def Let_def)
  qed
qed

text \<open>The balances before it.\<close>

lemma previous_of_get:
  assumes "distinct (map fst xs)"
  shows "map_of (map (\<lambda>(a, q, _). (a, q)) (previous_of E ch xs)) a = Option.bind (map_of xs (ch, a)) (anchored E)"
proof -
  let ?f = "\<lambda>m ((c, asset), x). if c = ch \<and> \<not> ar_unrepresentable x
         then (case de_parse E (ar_quantity x) of None \<Rightarrow> m | Some q \<Rightarrow> bt_insert asset (q, nat (ar_decimals x mod 2 ^ 32)) m) else m"
  have fst: "map_of (map (\<lambda>(a, q, _). (a, q)) m) a = map_option fst (map_of m a)" for m :: previous_anchors
    by (induction m) auto
  have "map_option fst (map_of (foldl ?f m xs) a) =
      (case Option.bind (map_of xs (ch, a)) (anchored E) of None \<Rightarrow> map_option fst (map_of m a) | Some q \<Rightarrow> Some q)" if "bt_ok m" for m
    using assms that
  proof (induction xs arbitrary: m)
    case (Cons e xs)
    obtain c b x where e: "e = ((c, b), x)" by (metis surj_pair)
    have "map_of xs (ch, a) = None" if "(ch, a) = (c, b)" using Cons.prems(1) that by (simp add: e map_of_eq_None_iff)
    moreover have "bt_ok (?f m e)" using Cons.prems(2) by (simp add: e bt_ok_insert split: option.split)
    ultimately show ?case using Cons.IH [of "?f m e"] Cons.prems by (auto simp: e anchored_def split: option.splits)
  qed simp
  from this [of "[]"] show ?thesis by (simp add: previous_of_def fst split: option.splits)
qed

text \<open>The balances it leaves: those of the reading, and the other networks as they were.\<close>

lemma filter_foldl_outside:
  assumes "\<And>m x. x \<in> set xs \<Longrightarrow> filter P (f m x) = filter P m"
  shows "filter P (foldl f m xs) = filter P m"
  using assms by (induction xs arbitrary: m) auto

lemma new_anchors_others:
  assumes "ch' \<noteq> to_i64 (ch_id c)"
  shows "filter (\<lambda>e. fst (fst e) = i \<and> fst (snd (fst e)) = ch') (new_anchors E i c r anchors) =
    filter (\<lambda>e. fst (fst e) = i \<and> fst (snd (fst e)) = ch') anchors"
proof -
  let ?P = "\<lambda>e :: (string \<times> int \<times> string) \<times> anchor_row. fst (fst e) = i \<and> fst (snd (fst e)) = ch'"
  have mark: "filter ?P (mark_unrepresentable i (to_i64 (ch_id c)) u m a) = filter ?P m" for u m a
    using bt_insert_outside [of "\<lambda>k. fst k = i \<and> fst (snd k) = ch'" "(i, to_i64 (ch_id c), a)"] assms
    by (simp add: mark_unrepresentable_def)
  have kept: "filter ?P (bt_insert (i, to_i64 (ch_id c), a) v m) = filter ?P m" for a v m
    using bt_insert_outside [of "\<lambda>k. fst k = i \<and> fst (snd k) = ch'" "(i, to_i64 (ch_id c), a)"] assms by simp
  have "filter ?P (filter (\<lambda>((i', c', _), _). \<not> (i' = i \<and> c' = to_i64 (ch_id c))) anchors) = filter ?P anchors"
    unfolding filter_filter using assms by (intro filter_cong refl) auto
  then show ?thesis unfolding new_anchors_def Let_def
    by (subst filter_foldl_outside, simp add: mark, subst filter_foldl_outside) (auto simp: kept split: prod.splits)
qed

lemma new_anchors_ok: "bt_ok anchors \<Longrightarrow> bt_ok (new_anchors E i c r anchors)"
proof -
  have mark: "bt_ok (foldl (mark_unrepresentable i ch u) m xs)" if "bt_ok m" for ch u m xs
    using that by (induction xs arbitrary: m) (auto simp: mark_unrepresentable_def bt_ok_insert)
  have kept: "bt_ok (foldl (\<lambda>m (a, q). bt_insert (i, ch, a) (g a q) m) m xs)" if "bt_ok m" for ch g m and xs :: "(string \<times> decimal) list"
    using that by (induction xs arbitrary: m) (auto simp: bt_ok_insert)
  show "bt_ok anchors \<Longrightarrow> bt_ok (new_anchors E i c r anchors)"
    unfolding new_anchors_def Let_def by (intro mark kept bt_ok_filter)
qed

lemma new_anchors_get:
  assumes "bt_ok anchors" and "bt_ok (rg_anchor r)" and "a \<notin> rg_unrepresentable r"
  shows "map_of (new_anchors E i c r anchors) (i, to_i64 (ch_id c), a) = map_option (anchor_cell E c r a) (map_of (rg_anchor r) a)"
proof -
  let ?ch = "to_i64 (ch_id c)"
  let ?g = "\<lambda>m (asset, quantity). bt_insert (i, ?ch, asset) (anchor_cell E c r asset quantity) m"
  define others where "others = filter (\<lambda>((i', c', _), _). \<not> (i' = i \<and> c' = ?ch)) anchors"
  have others: "bt_ok others" "map_of others (i, ?ch, a) = None"
    using assms(1) by (auto simp: others_def bt_ok_filter map_of_eq_None_iff)
  have keep: "bt_ok (foldl ?g m xs) \<and> map_of (foldl ?g m xs) (i, ?ch, a) =
        (case map_of xs a of Some q \<Rightarrow> Some (anchor_cell E c r a q) | None \<Rightarrow> map_of m (i, ?ch, a))"
    if "bt_ok m" "distinct (map fst xs)" for m xs
    using that
  proof (induction xs arbitrary: m)
    case (Cons e xs)
    obtain b q where e: "e = (b, q)" by (cases e)
    have "map_of xs a = None" if "a = b" using Cons.prems(2) that by (simp add: e map_of_eq_None_iff)
    then show ?case using Cons.IH [of "bt_insert (i, ?ch, b) (anchor_cell E c r b q) m"] Cons.prems
      by (auto simp: e bt_ok_insert split: option.splits)
  qed simp
  have mark: "map_of (foldl (mark_unrepresentable i ?ch u) m xs) (i, ?ch, a) = map_of m (i, ?ch, a)"
    if "bt_ok m" "a \<notin> set xs" for m u xs
    using that by (induction xs arbitrary: m) (auto simp: mark_unrepresentable_def bt_ok_insert)
  have "a \<notin> set (sorted_list_of_set (rg_unrepresentable r))"
    using assms(3) by (cases "finite (rg_unrepresentable r)") auto
  moreover have "new_anchors E i c r anchors = foldl (mark_unrepresentable i ?ch (rg_end r)) (foldl ?g others (rg_anchor r))
      (sorted_list_of_set (rg_unrepresentable r))"
    by (simp only: new_anchors_def Let_def others_def)
  ultimately show ?thesis using keep [OF others(1) bt_distinct [OF assms(2)]] others(2) mark
    by (simp split: option.splits)
qed

lemma stored_anchors_get:
  assumes "bt_ok (wd_anchors db)"
  shows "distinct (map fst (stored_anchors db i))" and "map_of (stored_anchors db i) k = map_of (wd_anchors db) (i, k)"
proof -
  let ?f = "\<lambda>m. map (\<lambda>((_, k), a). (k, a)) (filter (\<lambda>(k, _). fst k = i) m)"
  have keys: "k \<in> fst ` set (?f m) \<longleftrightarrow> (i, k) \<in> fst ` set m" for k :: "int \<times> string" and m :: "((string \<times> int \<times> string) \<times> anchor_row) list"
    by (force simp: image_iff)
  have "distinct (map fst (?f m))" if "distinct (map fst m)" for m :: "((string \<times> int \<times> string) \<times> anchor_row) list"
    using that
  proof (induction m)
    case (Cons e m)
    obtain j k x where e: "e = ((j, k), x)" by (metis surj_pair)
    have "?f (e # m) = (if j = i then (k, x) # ?f m else ?f m)" by (simp add: e)
    moreover have "k \<notin> fst ` set (?f m)" if "j = i" using Cons.prems keys [of k m] that by (simp add: e)
    ultimately show ?case using Cons by (simp only: distinct.simps list.map set_map fst_conv e split: if_split) simp
  qed simp
  then show "distinct (map fst (stored_anchors db i))" using bt_distinct [OF assms] by (simp only: stored_anchors_def)
  have "map_of (?f m) k = map_of m (i, k)" for m by (induction m) auto
  then show "map_of (stored_anchors db i) k = map_of (wd_anchors db) (i, k)" by (simp only: stored_anchors_def)
qed

text \<open>One network: what is kept explains the change of every balance, up to the dust.\<close>

definition drift :: "dec_env \<Rightarrow> wallet_db \<Rightarrow> string \<Rightarrow> int \<Rightarrow> string \<Rightarrow> rat" where
  "drift E db i ch a = stored_total E db i ch a - holding E db i ch a"

lemma persist_closes:
  assumes persist: "persist E db i c r (Some p) now_ms = Some db'" and E: "reads_back E" "de_arith E = exact_arith"
    and ok: "db_ok db" and unseen: "unseen db i c r"
    and r: "bt_ok (rg_anchor r)" "distinct (map (\<lambda>e. (ef_tx_hash e, ef_asset e, ef_kind e)) (rg_confirmed r))"
    and p: "or_zero_at (map (\<lambda>(a, q, _). (a, q)) p) a = holding E db i (to_i64 (ch_id c)) a"
    and a: "a \<notin> rg_unrepresentable r"
  shows "\<bar>drift E db' i (to_i64 (ch_id c)) a - drift E db i (to_i64 (ch_id c)) a\<bar> \<le> of_nat DUST_UNITS / 10 ^ decimals_known r p a"
proof -
  note total = persist_total [OF persist E _ unseen r(2), of a, simplified]
  have "wd_anchors db' = new_anchors E i c r (wd_anchors db)" using total ok by (simp add: db_ok_def)
  moreover have "anchored E (anchor_cell E c r a q) = Some q" for q
    using E(1) by (simp add: anchored_def anchor_cell_def reads_back_def Let_def split: prod.splits)
  ultimately have after: "holding E db' i (to_i64 (ch_id c)) a = or_zero_at (rg_anchor r) a"
    using new_anchors_get [OF _ r(1) a, of "wd_anchors db" E i c] ok by (simp add: holding_def db_ok_def or_zero_at_def split: option.splits)
  have dust: "(0 :: rat) \<le> of_nat DUST_UNITS / 10 ^ decimals_known r p a" by simp
  show ?thesis using total ok dust unfolding drift_def after p Let_def db_ok_def by (auto split: if_splits)
qed

text \<open>A network whose tables are untouched.\<close>

definition same_view :: "string \<Rightarrow> int \<Rightarrow> wallet_db \<Rightarrow> wallet_db \<Rightarrow> bool" where
  "same_view i ch db db' \<longleftrightarrow> effects_view i ch db' = effects_view i ch db \<and> anchors_view i ch db' = anchors_view i ch db"

lemma same_view_gets:
  assumes "same_view i ch db db'"
  shows "map_of (wd_effects db') (i, ch, k) = map_of (wd_effects db) (i, ch, k)"
    and "map_of (wd_anchors db') (i, ch, a) = map_of (wd_anchors db) (i, ch, a)"
    and "holding E db' i ch a = holding E db i ch a" and "drift E db' i ch a = drift E db i ch a"
proof -
  have "map_of (effects_view i ch db') (i, ch, k) = map_of (effects_view i ch db) (i, ch, k)"
    "map_of (anchors_view i ch db') (i, ch, a) = map_of (anchors_view i ch db) (i, ch, a)"
    using assms by (simp_all add: same_view_def)
  then show *: "map_of (wd_effects db') (i, ch, k) = map_of (wd_effects db) (i, ch, k)"
    "map_of (wd_anchors db') (i, ch, a) = map_of (wd_anchors db) (i, ch, a)"
    unfolding effects_view_def anchors_view_def map_of_filter_keys [where P = "\<lambda>k. fst k = i \<and> fst (snd k) = ch"] by simp_all
  show h: "holding E db' i ch a = holding E db i ch a" using * by (simp add: holding_def)
  show "drift E db' i ch a = drift E db i ch a" using assms h by (simp add: drift_def stored_total_view same_view_def)
qed

lemma same_view_unseen:
  assumes "same_view i (to_i64 (ch_id c)) db db'" and "unseen db i c r"
  shows "unseen db' i c r"
  using assms(2) by (simp add: unseen_def same_view_gets(1) [OF assms(1)])

text \<open>What a sync does to a network: nothing, or a reading that the effects explain.\<close>

definition closes ::
    "sync_env \<Rightarrow> string \<Rightarrow> string \<Rightarrow> (int, chain_state) btree \<Rightarrow> (int \<times> string, anchor_row) btree \<Rightarrow> effect_row list \<Rightarrow>
     wallet_db \<Rightarrow> wallet_db \<Rightarrow> chain \<Rightarrow> string \<Rightarrow> bool" where
  "closes Y i address states anchors effects db db' c a \<longleftrightarrow>
     (let ch = to_i64 (ch_id c); E = sv_dec Y in
      same_view i ch db db' \<or>
      (\<exists>r. chain_reading Y address states anchors effects c = Some (Inr (Some r)) \<and>
        (map_of states ch = None \<or> a \<in> rg_unrepresentable r \<or>
         \<bar>drift E db' i ch a - drift E db i ch a\<bar> \<le> of_nat DUST_UNITS / 10 ^ decimals_known r (previous_of E ch anchors) a)))"

lemma same_view_trans: "same_view i ch db db1 \<Longrightarrow> same_view i ch db1 db' \<Longrightarrow> same_view i ch db db'"
  by (simp add: same_view_def)

lemma closes_after:
  assumes v: "same_view i (to_i64 (ch_id c)) db db1" and "closes Y i address S A F db1 db' c a"
  shows "closes Y i address S A F db db' c a"
  using assms(2) same_view_trans [OF v] unfolding closes_def Let_def same_view_gets(4) [OF v] by blast

lemma closes_before:
  assumes "closes Y i address S A F db db1 c a" and v: "same_view i (to_i64 (ch_id c)) db1 db'"
  shows "closes Y i address S A F db db' c a"
  using assms(1) same_view_trans [OF _ v] unfolding closes_def Let_def same_view_gets(4) [OF v] by blast

lemma chain_reading_ok:
  assumes "chain_reading Y address states anchors effects c = Some (Inr (Some r))"
  shows "bt_ok (rg_anchor r) \<and> distinct (map (\<lambda>e. (ef_tx_hash e, ef_asset e, ef_kind e)) (rg_confirmed r))"
proof -
  obtain A parse reader prices q where "read_chain A parse reader prices q = Some (Inr (Some r))"
    using assms by (auto simp: chain_reading_def map_err_Inr split: sum.splits)
  then show ?thesis by (rule read_chain_distinct)
qed

lemma persist_frame:
  assumes "persist E db i c r previous now_ms = Some db'" and "reads_back E" "de_arith E = exact_arith"
    and "db_ok db" "unseen db i c r" "distinct (map (\<lambda>e. (ef_tx_hash e, ef_asset e, ef_kind e)) (rg_confirmed r))"
  shows "db_ok db' \<and> (\<forall>ch. ch \<noteq> to_i64 (ch_id c) \<longrightarrow> same_view i ch db db')"
  using persist_total [OF assms(1-3) _ assms(5,6)] assms(4) new_anchors_ok new_anchors_others
  by (simp add: db_ok_def same_view_def anchors_view_def)

lemma sync_chains_closes:
  assumes "sync_chains Y i address S A F now_ms (failures, db) cs = Some (res, db')"
    and E: "reads_back (sv_dec Y)" "de_arith (sv_dec Y) = exact_arith"
    and "db_ok db" "distinct (map (\<lambda>c. to_i64 (ch_id c)) cs)"
    and "\<forall>c \<in> set cs. \<forall>r. chain_reading Y address S A F c = Some (Inr (Some r)) \<longrightarrow> unseen db i c r"
    and "\<forall>c \<in> set cs. \<forall>a. or_zero_at (map (\<lambda>(a, q, _). (a, q)) (previous_of (sv_dec Y) (to_i64 (ch_id c)) A)) a =
      holding (sv_dec Y) db i (to_i64 (ch_id c)) a"
  shows "(\<forall>ch. ch \<notin> (\<lambda>c. to_i64 (ch_id c)) ` set cs \<longrightarrow> same_view i ch db db') \<and>
    (\<forall>c \<in> set cs. closes Y i address S A F db db' c a)"
  using assms(1,4-)
proof (induction cs arbitrary: failures db)
  case Nil
  then show ?case by (simp add: same_view_def)
next
  case (Cons c cs)
  let ?ch = "to_i64 (ch_id c)"
  have skipped: "(\<forall>ch. ch \<notin> (\<lambda>c. to_i64 (ch_id c)) ` set (c # cs) \<longrightarrow> same_view i ch db db') \<and>
      (\<forall>c \<in> set (c # cs). closes Y i address S A F db db' c a)"
    if "sync_chains Y i address S A F now_ms (f, db) cs = Some (res, db')" for f
  proof -
    have *: "(\<forall>ch. ch \<notin> (\<lambda>c. to_i64 (ch_id c)) ` set cs \<longrightarrow> same_view i ch db db') \<and>
        (\<forall>c \<in> set cs. closes Y i address S A F db db' c a)"
      using Cons.IH [OF that Cons.prems(2)] Cons.prems(3-5) by simp
    moreover have "?ch \<notin> (\<lambda>c. to_i64 (ch_id c)) ` set cs" using Cons.prems(3) by simp
    ultimately show ?thesis by (simp add: closes_def Let_def)
  qed
  consider (panic) "db' = db" | (skip) f where "sync_chains Y i address S A F now_ms (f, db) cs = Some (res, db')"
    | (read) r db1 where "chain_reading Y address S A F c = Some (Inr (Some r))"
        "persist (sv_dec Y) db i c r (if map_of S ?ch = None then None else Some (previous_of (sv_dec Y) ?ch A)) now_ms = Some db1"
        "sync_chains Y i address S A F now_ms (failures, db1) cs = Some (res, db')"
    using Cons.prems(1) by (auto simp: Let_def Option.bind_eq_Some_conv split: option.splits sum.splits)
  then show ?case
  proof cases
    case panic
    then show ?thesis by (simp add: same_view_def closes_def Let_def)
  next
    case skip
    then show ?thesis by (rule skipped)
  next
    case read
    note r = chain_reading_ok [OF read(1)]
    have unseen: "unseen db i c r" using Cons.prems(4) read(1) by simp
    have frame: "db_ok db1" "\<And>ch. ch \<noteq> ?ch \<Longrightarrow> same_view i ch db db1"
      using persist_frame [OF read(2) E Cons.prems(2) unseen] r by simp_all
    have other: "to_i64 (ch_id c') \<noteq> ?ch" if "c' \<in> set cs" for c'
    proof
      assume "to_i64 (ch_id c') = ?ch"
      then have "?ch \<in> (\<lambda>c. to_i64 (ch_id c)) ` set cs" using imageI [OF that, of "\<lambda>c. to_i64 (ch_id c)"] by simp
      then show False using Cons.prems(3) by simp
    qed
    note view = frame(2) [OF other]
    have "\<forall>c \<in> set cs. \<forall>r. chain_reading Y address S A F c = Some (Inr (Some r)) \<longrightarrow> unseen db1 i c r"
      using Cons.prems(4) same_view_unseen [OF view] by simp
    moreover have "\<forall>c \<in> set cs. \<forall>a. or_zero_at (map (\<lambda>(a, q, _). (a, q)) (previous_of (sv_dec Y) (to_i64 (ch_id c)) A)) a =
        holding (sv_dec Y) db1 i (to_i64 (ch_id c)) a"
      using Cons.prems(5) same_view_gets(3) [OF view] by simp
    ultimately have rest: "(\<forall>ch. ch \<notin> (\<lambda>c. to_i64 (ch_id c)) ` set cs \<longrightarrow> same_view i ch db1 db')"
        "\<forall>c \<in> set cs. closes Y i address S A F db1 db' c a"
      using Cons.IH [OF read(3) frame(1)] Cons.prems(3) by simp_all
    have "closes Y i address S A F db db1 c a"
    proof (cases "map_of S ?ch = None \<or> a \<in> rg_unrepresentable r")
      case True
      then show ?thesis using read(1) by (auto simp: closes_def Let_def)
    next
      case False
      then have kept: "persist (sv_dec Y) db i c r (Some (previous_of (sv_dec Y) ?ch A)) now_ms = Some db1"
        using read(2) by (simp only: de_Morgan_disj if_False simp_thms)
      have "or_zero_at (map (\<lambda>(a, q, _). (a, q)) (previous_of (sv_dec Y) ?ch A)) a = holding (sv_dec Y) db i ?ch a"
        using Cons.prems(5) by simp
      moreover have "a \<notin> rg_unrepresentable r" using False by simp
      ultimately have "\<bar>drift (sv_dec Y) db1 i ?ch a - drift (sv_dec Y) db i ?ch a\<bar> \<le>
          of_nat DUST_UNITS / 10 ^ decimals_known r (previous_of (sv_dec Y) ?ch A) a"
        by (rule persist_closes [OF kept E Cons.prems(2) unseen conjunct1 [OF r] conjunct2 [OF r]])
      then show ?thesis using read(1) by (simp add: closes_def)
    qed
    moreover have "same_view i ?ch db1 db'" using rest(1) Cons.prems(3) by simp
    ultimately have here: "closes Y i address S A F db db' c a" by (rule closes_before)
    have "closes Y i address S A F db db' c' a" if "c' \<in> set cs" for c'
      using closes_after [OF view [OF that]] rest(2) that by blast
    moreover have "same_view i ch db db'" if "ch \<notin> (\<lambda>c. to_i64 (ch_id c)) ` set (c # cs)" for ch
      using frame(2) [of ch] rest(1) that by (simp add: same_view_def)
    ultimately show ?thesis using here by simp
  qed
qed
lemma sync_tables:
  assumes "sync Y acquired db i address enabled now now_ms force = Some (res, db')"
  shows "db' = db \<or> (\<exists>out db1. sync_chains Y i address (chain_states db i) (stored_anchors db i) (stored_effects db i) now_ms ([], db) enabled =
      Some (out, db1) \<and> (db' = db1 \<or> db' = update_connection db1 i (\<lambda>c. c\<lparr>wn_last_synced_at := Some now\<rparr>)))"
proof (cases acquired)
  case False
  then show ?thesis using assms by (simp add: sync_def)
next
  case True
  then obtain r db2 where locked: "sync_locked Y db i address enabled now now_ms force = Some (r, db2)"
      and "(case r of Inr u \<Rightarrow> Some (Inr u, db2) | Inl e \<Rightarrow> map_option (\<lambda>e. (Inl e, db2)) (redact (sv_lower Y) e address)) = Some (res, db')"
    using assms by (auto simp: sync_def Option.bind_eq_Some_conv)
  then have "db2 = db'" by (cases r) auto
  then have locked: "sync_locked Y db i address enabled now now_ms force = Some (r, db')" using locked by simp
  show ?thesis
  proof (cases "\<not> force \<and> synced_recently db i now")
    case True
    then show ?thesis using locked by (simp add: sync_locked_def)
  next
    case False
    then obtain out db1 where loop: "sync_chains Y i address (chain_states db i) (stored_anchors db i) (stored_effects db i) now_ms ([], db) enabled =
        Some (out, db1)" and rest: "(case out of Inl e \<Rightarrow> Some (Inl e, db1)
        | Inr failures \<Rightarrow> Some (if failures = [] then (Inr (), update_connection db1 i (\<lambda>c. c\<lparr>wn_last_synced_at := Some now\<rparr>))
            else (Inl (join_with ''; '' failures), db1))) = Some (r, db')"
      using locked unfolding sync_locked_def if_not_P [OF False] Option.bind_eq_Some_conv by auto
    have "db' = db1 \<or> db' = update_connection db1 i (\<lambda>c. c\<lparr>wn_last_synced_at := Some now\<rparr>)"
      using rest by (cases out) (auto split: if_splits)
    then show ?thesis using loop by blast
  qed
qed

text \<open>
  C28. The ledger of a wallet closes. Whatever a sync does and however it ends, on every network it is asked for
  either nothing changed, or a reading was kept after which, for every asset it could represent, the change of
  the balance is the total of the effects added to the tables, up to ten units of the last place of the asset.
  The first reading of a network is where the account opens. What is relied on: decimals that read back, without
  rounding, and effects whose transactions are not stored yet, each being in one block.
\<close>
theorem wallet_sync_adds_up:
  assumes "sync Y acquired db i address enabled now now_ms force = Some (res, db')"
    and "reads_back (sv_dec Y)" "de_arith (sv_dec Y) = exact_arith" and "db_ok db"
    and "distinct (map (\<lambda>c. to_i64 (ch_id c)) enabled)" and "c \<in> set enabled"
    and "\<forall>c \<in> set enabled. \<forall>r. chain_reading Y address (chain_states db i) (stored_anchors db i) (stored_effects db i) c =
      Some (Inr (Some r)) \<longrightarrow> unseen db i c r"
  shows "closes Y i address (chain_states db i) (stored_anchors db i) (stored_effects db i) db db' c a"
proof -
  have same: "closes Y i address S A F db db c a" for S A F by (simp add: closes_def same_view_def Let_def)
  show ?thesis
  proof (cases "db' = db")
    case True
    then show ?thesis using same by simp
  next
    case False
    then obtain out db1 where loop: "sync_chains Y i address (chain_states db i) (stored_anchors db i) (stored_effects db i) now_ms ([], db) enabled = Some (out, db1)"
      and db': "db' = db1 \<or> db' = update_connection db1 i (\<lambda>c. c\<lparr>wn_last_synced_at := Some now\<rparr>)"
      using sync_tables [OF assms(1)] by blast
    have "or_zero_at (map (\<lambda>(a, q, _). (a, q)) (previous_of (sv_dec Y) (to_i64 (ch_id c)) (stored_anchors db i))) a =
        holding (sv_dec Y) db i (to_i64 (ch_id c)) a" for c a
      using previous_of_get [OF stored_anchors_get(1)] stored_anchors_get(2) assms(4)
      by (simp add: or_zero_at_def holding_def db_ok_def)
    then have "closes Y i address (chain_states db i) (stored_anchors db i) (stored_effects db i) db db1 c a"
      using sync_chains_closes [OF loop assms(2-5,7)] assms(6) by blast
    moreover have "same_view i (to_i64 (ch_id c)) db1 db'"
      using db' by (auto simp: same_view_def effects_view_def anchors_view_def update_connection_def)
    ultimately show ?thesis by (rule closes_before)
  qed
qed

section \<open>A sync of one network\<close>

text \<open>A node with no transfer to tell, where the balance is 3 whole units; the tables hold 1 of an earlier reading.\<close>

definition quiet_reader :: chain_reader where
  "quiet_reader = \<lparr>cr_head_block = Inr 100, cr_indexed_block = Inr 100,
     cr_native_balance_at = (\<lambda>_ _. Some (Inr ''3000000000000000000'')), cr_token_balances_at = (\<lambda>_ _ _. Some (Inr [])),
     cr_tokens = (\<lambda>_. Some (Inr [])), cr_normal_txs = (\<lambda>_ _ _. Some (Inr \<lparr>li_rows = [], li_incomplete = False\<rparr>)),
     cr_internal_txs = (\<lambda>_ _ _. Some (Inr \<lparr>li_rows = [], li_incomplete = False\<rparr>)),
     cr_token_transfers = (\<lambda>_ _ _. Some (Inr \<lparr>li_rows = [], li_incomplete = False\<rparr>))\<rparr>"

definition quiet_env :: sync_env where
  "quiet_env = \<lparr>sv_dec = fraction_dec, sv_exact = (\<lambda>s. Some (text_value s)), sv_reader = (\<lambda>_. Inr quiet_reader),
     sv_prices = \<lparr>pp_current = (\<lambda>_. Inr Map.empty), pp_at = (\<lambda>_ _. Inr Map.empty), pp_chart = (\<lambda>_ _ _ _. Some (Inr []))\<rparr>,
     sv_lower = to_lower, sv_join_error = []\<rparr>"

definition quiet_db :: wallet_db where
  "quiet_db = \<lparr>wd_connections = [], wd_states = [((''w'', 1), \<lparr>ws_synced_block = 50, ws_synced_at_ms = 7, ws_transfers_incomplete = False\<rparr>)],
     wd_anchors = [((''w'', 1, ''ethereum:native''), \<lparr>ar_quantity = ''1'', ar_block = 50, ar_symbol = ''ETH'', ar_decimals = 18,
       ar_unrepresentable = False\<rparr>)], wd_effects = []\<rparr>"

lemma quiet_parts:
  "to_i64 (ch_id (hd CHAINS)) = 1" "chain_states quiet_db ''w'' = [(1, \<lparr>ws_synced_block = 50, ws_synced_at_ms = 7, ws_transfers_incomplete = False\<rparr>)]"
  "stored_anchors quiet_db ''w'' = [((1, ''ethereum:native''), \<lparr>ar_quantity = ''1'', ar_block = 50, ar_symbol = ''ETH'', ar_decimals = 18,
       ar_unrepresentable = False\<rparr>)]" "stored_effects quiet_db ''w'' = []" "db_ok quiet_db"
  by (simp_all add: CHAINS_def to_i64_def wrap_s_def chain_states_def stored_anchors_def stored_effects_def quiet_db_def db_ok_def bt_ok_def)

lemma quiet_reading:
  "\<exists>r x. chain_reading quiet_env ''0x'' (chain_states quiet_db ''w'') (stored_anchors quiet_db ''w'') (stored_effects quiet_db ''w'') (hd CHAINS) =
     Some (Inr (Some r)) \<and> rg_confirmed r = [] \<and> rg_anchor r = [(''ethereum:native'', x)] \<and> rg_unrepresentable r = {}"
proof -
  obtain x where x: "units (\<lambda>s. Some (text_value s)) ''3000000000000000000'' NATIVE_DECIMALS = Some x"
    by (simp add: units_def is_digit_def)
  show ?thesis unfolding quiet_parts chain_reading_def
    by (simp add: quiet_env_def quiet_reader_def fraction_dec_def read_chain_def and_thenp_def CHAINS_def Let_def read_at_def first_block_def
        range_rows_def recent_rows_def effects_of_def effect_list_def tokens_to_follow_def anchor_at_def x followed_tokens_def native_asset_def as_u64_def)
qed

lemma quiet_sync: "\<exists>res db'. sync quiet_env True quiet_db ''w'' ''0x'' [hd CHAINS] 9 9 True = Some (res, db')"
proof -
  obtain r x where r: "chain_reading quiet_env ''0x'' (chain_states quiet_db ''w'') (stored_anchors quiet_db ''w'') (stored_effects quiet_db ''w'')
      (hd CHAINS) = Some (Inr (Some r))" "rg_confirmed r = []" "rg_anchor r = [(''ethereum:native'', x)]"
    using quiet_reading by blast
  let ?p = "previous_of fraction_dec 1 (stored_anchors quiet_db ''w'')"
  have p: "?p = [(''ethereum:native'', (1, 18))]"
    by (simp add: quiet_parts previous_of_def fraction_dec_def split_once_def parse_whole_def digits_value_def is_digit_def)
  have "decimals_known r ?p ''ethereum:native'' = 18" by (simp add: decimals_known_def ends_with_def strip_suffix_def)
  then obtain out where out: "unexplained exact_arith (map (\<lambda>(a, q, _). (a, q)) ?p) [] (rg_anchor r) (decimals_known r ?p) = Some out"
    by (simp add: unexplained_def difference_of_def p r(3) decimal_new_def exact_arith_def)
  have "\<exists>db1. persist fraction_dec quiet_db ''w'' (hd CHAINS) r (Some ?p) 9 = Some db1"
    using out by (simp add: persist_def r(2) Let_def fraction_dec_def quiet_parts(1))
  then show ?thesis using r(1)
    by (auto simp: sync_def sync_locked_def quiet_parts Let_def) (simp_all add: quiet_env_def quiet_parts)
qed

theorem wallet_sync_adds_up_witness:
  "\<exists>res db'. sync quiet_env True quiet_db ''w'' ''0x'' [hd CHAINS] 9 9 True = Some (res, db') \<and>
     closes quiet_env ''w'' ''0x'' (chain_states quiet_db ''w'') (stored_anchors quiet_db ''w'') (stored_effects quiet_db ''w'')
       quiet_db db' (hd CHAINS) ''ethereum:native''"
proof -
  obtain res db' where s: "sync quiet_env True quiet_db ''w'' ''0x'' [hd CHAINS] 9 9 True = Some (res, db')" using quiet_sync by blast
  have "reads_back (sv_dec quiet_env)" "de_arith (sv_dec quiet_env) = exact_arith"
    using fraction_dec_reads_back by (simp_all add: quiet_env_def fraction_dec_def)
  from wallet_sync_adds_up [OF s this quiet_parts(5), of "hd CHAINS" "''ethereum:native''"] show ?thesis
    using s by (simp add: unseen_def quiet_db_def)
qed

end
