(* ===== verification/CoinbaseWorker.thy ===== *)
theory CoinbaseWorker
  imports WalletRead WalletFlows Trades Store "HOL-Library.Word"
begin

text \<open>
  services/collector/binance/worker, coinbase.rs: the tables of the Coinbase connections, a sync, the transfers it
  infers from what the fills do not explain, and the trades and flows the engine reads. The tables are maps
  from their primary keys and a statement is one step; which of the statements of a sync fail, the answers of the
  client and the moment of the database are arguments. The outer \<open>None\<close> is a panic outside the blocking task, whose own
  panic is the error of the join. Reading the credentials is left out with the client that uses them.
\<close>

section \<open>The tables\<close>

definition SETTLE_MS :: nat where "SETTLE_MS = 5000"

text \<open>A fill, as wire.rs of the client has it.\<close>

record fill_entry =
  fi_entry_id :: string
  fi_trade_id :: string
  fi_order_id :: string
  fi_product_id :: string
  fi_is_buy :: bool
  fi_price :: string
  fi_size :: string
  fi_size_in_quote :: bool
  fi_commission :: string
  fi_trade_time_ms :: nat

record coinbase_connection =
  cb_id :: string
  cb_account_id :: string
  cb_encrypted_key_name :: bytes
  cb_nonce_key_name :: bytes
  cb_encrypted_private_key :: bytes
  cb_nonce_private_key :: bytes
  cb_label :: "string option"
  cb_status :: string
  cb_created_at_ms :: nat
  cb_last_synced_at :: "nat option"

text \<open>The columns of a stored fill beside its key, the connection and the entry id.\<close>

record fill_row =
  fr_trade_id :: string
  fr_order_id :: string
  fr_product_id :: string
  fr_is_buy :: bool
  fr_price :: string
  fr_size :: string
  fr_size_in_quote :: bool
  fr_commission :: string
  fr_time_ms :: int
  fr_reconciled :: bool

record coinbase_db =
  bd_connections :: "coinbase_connection list"
  bd_fills :: "(string \<times> string, fill_row) btree"
  bd_snapshots :: "(string \<times> int, (string, string) btree) btree"
  bd_flows :: "(string \<times> int \<times> string, string) btree"

definition stored_i64 :: "nat \<Rightarrow> int" where "stored_i64 n = wrap_i64 (int n)"

definition coinbase_insert_connection ::
    "string \<Rightarrow> nat \<Rightarrow> coinbase_db \<Rightarrow> string \<Rightarrow> encrypted_field \<Rightarrow> encrypted_field \<Rightarrow> string \<times> coinbase_db" where
  "coinbase_insert_connection new_id now db account_id key_name private_key =
     (case find (\<lambda>c. cb_account_id c = account_id) (bd_connections db) of
        Some c \<Rightarrow> (cb_id c, db\<lparr>bd_connections := map (\<lambda>c. if cb_account_id c = account_id
          then c\<lparr>cb_encrypted_key_name := ef_ciphertext key_name, cb_nonce_key_name := encrypted_field.ef_nonce key_name,
            cb_encrypted_private_key := ef_ciphertext private_key, cb_nonce_private_key := encrypted_field.ef_nonce private_key,
            cb_status := ''active''\<rparr> else c) (bd_connections db)\<rparr>)
      | None \<Rightarrow> (new_id, db\<lparr>bd_connections := bd_connections db @
          [\<lparr>cb_id = new_id, cb_account_id = account_id, cb_encrypted_key_name = ef_ciphertext key_name,
            cb_nonce_key_name = encrypted_field.ef_nonce key_name, cb_encrypted_private_key = ef_ciphertext private_key,
            cb_nonce_private_key = encrypted_field.ef_nonce private_key, cb_label = None, cb_status = ''active'',
            cb_created_at_ms = now, cb_last_synced_at = None\<rparr>]\<rparr>))"

definition coinbase_delete_connection :: "coinbase_db \<Rightarrow> string \<Rightarrow> bool \<times> coinbase_db" where
  "coinbase_delete_connection db i =
     (\<exists>c \<in> set (bd_connections db). cb_id c = i,
      \<lparr>bd_connections = filter (\<lambda>c. cb_id c \<noteq> i) (bd_connections db),
       bd_fills = filter (\<lambda>(k, _). fst k \<noteq> i) (bd_fills db), bd_snapshots = filter (\<lambda>(k, _). fst k \<noteq> i) (bd_snapshots db),
       bd_flows = filter (\<lambda>(k, _). fst k \<noteq> i) (bd_flows db)\<rparr>)"

definition coinbase_update :: "string \<Rightarrow> (coinbase_connection \<Rightarrow> coinbase_connection) \<Rightarrow> coinbase_db \<Rightarrow> coinbase_db" where
  "coinbase_update i f db = db\<lparr>bd_connections := map (\<lambda>c. if cb_id c = i then f c else c) (bd_connections db)\<rparr>"

definition coinbase_set_label :: "coinbase_db \<Rightarrow> string \<Rightarrow> string \<Rightarrow> coinbase_db" where
  "coinbase_set_label db i label = coinbase_update i (\<lambda>c. c\<lparr>cb_label := Some label\<rparr>) db"

definition coinbase_find_by_account :: "coinbase_db \<Rightarrow> string \<Rightarrow> coinbase_connection option" where
  "coinbase_find_by_account db account_id = find (\<lambda>c. cb_account_id c = account_id) (bd_connections db)"

text \<open>\<open>lower(account_id) LIKE lower($1) || '\_%'\<close>: the owner's address, which has no wildcard, an underscore, anything.\<close>

definition owned_account :: "string \<Rightarrow> string \<Rightarrow> bool" where
  "owned_account owner_address account_id \<longleftrightarrow> to_lower account_id = to_lower owner_address \<or>
     starts_with (to_lower account_id) (to_lower owner_address @ ''_'')"

definition coinbase_owned_by :: "coinbase_db \<Rightarrow> string \<Rightarrow> (string \<times> string option \<times> nat \<times> string) list" where
  "coinbase_owned_by db owner_address =
     map (\<lambda>c. (cb_account_id c, cb_label c, cb_created_at_ms c, cb_status c))
       (sort_key cb_created_at_ms (filter (\<lambda>c. owned_account owner_address (cb_account_id c)) (bd_connections db)))"

definition coinbase_due_for_sync :: "coinbase_db \<Rightarrow> nat \<Rightarrow> nat \<Rightarrow> coinbase_connection list" where
  "coinbase_due_for_sync db now interval_seconds =
     filter (\<lambda>c. cb_status c = ''active'' \<and>
       (case cb_last_synced_at c of None \<Rightarrow> True | Some t \<Rightarrow> t + 1000 * interval_seconds < now)) (bd_connections db)"

definition coinbase_created_at_ms :: "coinbase_db \<Rightarrow> string \<Rightarrow> nat option" where
  "coinbase_created_at_ms db i = map_option cb_created_at_ms (find (\<lambda>c. cb_id c = i) (bd_connections db))"

definition insert_fill :: "string \<Rightarrow> coinbase_db \<Rightarrow> fill_entry \<Rightarrow> coinbase_db" where
  "insert_fill i db f =
     (if map_of (bd_fills db) (i, fi_entry_id f) = None
      then db\<lparr>bd_fills := bt_insert (i, fi_entry_id f)
        \<lparr>fr_trade_id = fi_trade_id f, fr_order_id = fi_order_id f, fr_product_id = fi_product_id f, fr_is_buy = fi_is_buy f,
         fr_price = fi_price f, fr_size = fi_size f, fr_size_in_quote = fi_size_in_quote f, fr_commission = fi_commission f,
         fr_time_ms = stored_i64 (fi_trade_time_ms f), fr_reconciled = False\<rparr> (bd_fills db)\<rparr> else db)"

text \<open>The statements of the loop, one for each fill, and what they do when none fails.\<close>

definition fill_writes :: "string \<Rightarrow> fill_entry list \<Rightarrow> (coinbase_db \<Rightarrow> coinbase_db) list" where
  "fill_writes i fills = map (\<lambda>f db. insert_fill i db f) fills"

definition insert_fills :: "coinbase_db \<Rightarrow> string \<Rightarrow> fill_entry list \<Rightarrow> coinbase_db" where
  "insert_fills db i fills = run_all (fill_writes i fills) db"

definition into_fill :: "(string \<times> string) \<times> fill_row \<Rightarrow> fill_entry \<times> bool" where
  "into_fill = (\<lambda>((_, entry_id), r).
     (\<lparr>fi_entry_id = entry_id, fi_trade_id = fr_trade_id r, fi_order_id = fr_order_id r, fi_product_id = fr_product_id r,
       fi_is_buy = fr_is_buy r, fi_price = fr_price r, fi_size = fr_size r, fi_size_in_quote = fr_size_in_quote r,
       fi_commission = fr_commission r, fi_trade_time_ms = as_u64 (fr_time_ms r)\<rparr>, fr_reconciled r))"

definition stored_fills :: "coinbase_db \<Rightarrow> string \<Rightarrow> (fill_entry \<times> bool) list" where
  "stored_fills db i =
     map into_fill (sort_key (\<lambda>((_, entry_id), r). (fr_time_ms r, entry_id)) (filter (\<lambda>(k, _). fst k = i) (bd_fills db)))"

text \<open>What of a snapshot can be read; the latest one of a connection.\<close>

definition read_snapshot :: "dec_env \<Rightarrow> (string, string) btree \<Rightarrow> (string, decimal) btree" where
  "read_snapshot E m = List.map_filter (\<lambda>(k, v). map_option (Pair k) (de_parse E v)) m"

definition latest_snapshot :: "dec_env \<Rightarrow> coinbase_db \<Rightarrow> string \<Rightarrow> (string, decimal) btree option" where
  "latest_snapshot E db i = (case rev (filter (\<lambda>(k, _). fst k = i) (bd_snapshots db)) of
       [] \<Rightarrow> None | (_, m) # _ \<Rightarrow> Some (read_snapshot E m))"

definition stored_flow_count :: "coinbase_db \<Rightarrow> string \<Rightarrow> nat" where
  "stored_flow_count db i = length (filter (\<lambda>(k, _). fst k = i) (bd_flows db))"

definition stored_fill_count :: "coinbase_db \<Rightarrow> string \<Rightarrow> nat" where
  "stored_fill_count db i = length (filter (\<lambda>(k, _). fst k = i) (bd_fills db))"

section \<open>Reconciliation\<close>

definition split_product :: "string \<Rightarrow> (string \<times> string) option" where
  "split_product product_id = split_once CHR ''-'' product_id"

definition fill_amounts :: "dec_env \<Rightarrow> fill_entry \<Rightarrow> (decimal \<times> decimal) option option" where
  "fill_amounts E f = (case de_parse E (fi_price f) of None \<Rightarrow> Some None
     | Some price \<Rightarrow> (case de_parse E (fi_size f) of None \<Rightarrow> Some None
       | Some size' \<Rightarrow> if price = 0 then Some None
           else if fi_size_in_quote f then map_option (\<lambda>b. Some (b, size')) (ddiv (de_arith E) size' price)
           else map_option (\<lambda>q. Some (size', q)) (dmul (de_arith E) size' price)))"

definition fill_effects :: "dec_env \<Rightarrow> fill_entry \<Rightarrow> (string \<times> decimal) list option" where
  "fill_effects E f = Option.bind (fill_amounts E f) (\<lambda>amounts.
     case (split_product (fi_product_id f), amounts, de_parse E (fi_commission f)) of
       (Some (base, quote), Some (base_amount, quote_amount), Some fee) \<Rightarrow>
         if fi_is_buy f then map_option (\<lambda>t. [(base, base_amount), (quote, - t)]) (dadd (de_arith E) quote_amount fee)
         else map_option (\<lambda>t. [(base, - base_amount), (quote, t)]) (dsub (de_arith E) quote_amount fee)
     | _ \<Rightarrow> Some [])"

definition add_change :: "arith \<Rightarrow> (string, decimal) btree \<Rightarrow> string \<times> decimal \<Rightarrow> (string, decimal) btree option" where
  "add_change A m = (\<lambda>(asset, change). map_option (\<lambda>d. bt_insert asset d m) (dadd A (or_zero_at m asset) change))"

definition explained_by :: "dec_env \<Rightarrow> fill_entry list \<Rightarrow> (string, decimal) btree option" where
  "explained_by E fills =
     try_fold (\<lambda>m f. Option.bind (fill_effects E f) (try_fold (add_change (de_arith E)) m)) [] fills"

text \<open>The two literals, as the decimals they denote.\<close>

definition dust_of :: "string \<Rightarrow> decimal" where
  "dust_of asset = (if asset \<in> {''USD'', ''USDC'', ''USDT'', ''EUR'', ''GBP''} then 1 / 100 else 1 / 100000000)"

fun transfer_loop :: "(string \<Rightarrow> decimal option) \<Rightarrow> string list \<Rightarrow> (string, decimal) btree option" where
  "transfer_loop external [] = Some []"
| "transfer_loop external (asset # assets) =
     Option.bind (external asset) (\<lambda>d. map_option (\<lambda>out. if \<bar>d\<bar> > dust_of asset then (asset, d) # out else out)
       (transfer_loop external assets))"

definition external_change ::
    "arith \<Rightarrow> (string, decimal) btree \<Rightarrow> (string, decimal) btree \<Rightarrow> (string, decimal) btree \<Rightarrow> string \<Rightarrow> decimal option" where
  "external_change A before now explained asset =
     Option.bind (dsub A (or_zero_at now asset) (or_zero_at before asset)) (\<lambda>change. dsub A change (or_zero_at explained asset))"

definition infer_transfers ::
    "dec_env \<Rightarrow> (string, decimal) btree \<Rightarrow> (string, decimal) btree \<Rightarrow> fill_entry list \<Rightarrow> (string, decimal) btree option" where
  "infer_transfers E before now fills = Option.bind (explained_by E fills) (\<lambda>explained.
     transfer_loop (external_change (de_arith E) before now explained)
       (sorted_list_of_set (fst ` set before \<union> fst ` set now \<union> fst ` set explained)))"

section \<open>Syncing\<close>

definition read_or_zero :: "dec_env \<Rightarrow> string \<Rightarrow> decimal" where
  "read_or_zero E s = (case de_parse E s of None \<Rightarrow> 0 | Some d \<Rightarrow> d)"

definition totals :: "dec_env \<Rightarrow> account_balance list \<Rightarrow> (string, decimal) btree option" where
  "totals E balances = try_fold (\<lambda>m b.
     Option.bind (dadd (de_arith E) (read_or_zero E (ab_free b)) (read_or_zero E (ab_locked b))) (\<lambda>total.
       if total = 0 then Some m else add_change (de_arith E) m (ab_asset b, total))) [] balances"

text \<open>The statements of \<open>record\<close>, in their order; they are not one transaction.\<close>

definition insert_inferred :: "dec_env \<Rightarrow> string \<Rightarrow> nat \<Rightarrow> string \<times> decimal \<Rightarrow> coinbase_db \<Rightarrow> coinbase_db" where
  "insert_inferred E i now_ms = (\<lambda>(asset, amount) db.
     if map_of (bd_flows db) (i, stored_i64 now_ms, asset) = None
     then db\<lparr>bd_flows := bt_insert (i, stored_i64 now_ms, asset) (de_show E amount) (bd_flows db)\<rparr> else db)"

definition insert_snapshot :: "dec_env \<Rightarrow> string \<Rightarrow> nat \<Rightarrow> (string, decimal) btree \<Rightarrow> coinbase_db \<Rightarrow> coinbase_db" where
  "insert_snapshot E i now_ms balances db =
     (if map_of (bd_snapshots db) (i, stored_i64 now_ms) = None
      then db\<lparr>bd_snapshots := bt_insert (i, stored_i64 now_ms) (map (\<lambda>(a, v). (a, de_show E v)) balances) (bd_snapshots db)\<rparr> else db)"

definition mark_reconciled :: "string \<Rightarrow> coinbase_db \<Rightarrow> coinbase_db" where
  "mark_reconciled i db =
     db\<lparr>bd_fills := map (\<lambda>(k, r). (k, if fst k = i then r\<lparr>fr_reconciled := True\<rparr> else r)) (bd_fills db)\<rparr>"

definition record_steps ::
    "dec_env \<Rightarrow> string \<Rightarrow> nat \<Rightarrow> nat \<Rightarrow> (string, decimal) btree \<Rightarrow> (string, decimal) btree \<Rightarrow> (coinbase_db \<Rightarrow> coinbase_db) list" where
  "record_steps E i now now_ms balances inferred =
     map (insert_inferred E i now_ms) inferred @
     [insert_snapshot E i now_ms balances, mark_reconciled i, coinbase_update i (\<lambda>c. c\<lparr>cb_last_synced_at := Some now\<rparr>)]"

definition coinbase_record ::
    "dec_env \<Rightarrow> string db_faults \<Rightarrow> string \<Rightarrow> nat \<Rightarrow> nat \<Rightarrow> (string, decimal) btree \<Rightarrow> (string, decimal) btree \<Rightarrow> coinbase_db \<Rightarrow>
     (string + unit) \<times> coinbase_db" where
  "coinbase_record E D i now now_ms balances inferred db = run_writes D (record_steps E i now now_ms balances inferred) db"

text \<open>
  What the client answers, the message of a join whose task panicked, and that of a query for a row that is gone.
\<close>

record coinbase_env =
  bv_dec :: dec_env
  bv_balances :: "string + account_balance list"
  bv_fills_since :: "nat \<Rightarrow> string + fill_entry list"
  bv_join_error :: string
  bv_row_error :: string

definition coinbase_fetch :: "coinbase_env \<Rightarrow> nat \<Rightarrow> string + (string, decimal) btree \<times> fill_entry list" where
  "coinbase_fetch Y created_at =
     and_then (bv_balances Y) (\<lambda>balances.
     and_then (bv_fills_since Y created_at) (\<lambda>fills.
       case totals (bv_dec Y) balances of None \<Rightarrow> Inl (bv_join_error Y) | Some t \<Rightarrow> Inr (t, fills)))"

definition reconcile_stored ::
    "dec_env \<Rightarrow> string db_faults \<Rightarrow> coinbase_db \<Rightarrow> string \<Rightarrow> nat \<Rightarrow> nat \<Rightarrow> (string, decimal) btree \<Rightarrow> ((string + unit) \<times> coinbase_db) option" where
  "reconcile_stored E D db i now now_ms balances =
     (let stored = stored_fills db i in
      case latest_snapshot E db i of
        None \<Rightarrow> Some (coinbase_record E D i now now_ms balances [] db)
      | Some before \<Rightarrow>
          if \<exists>(f, _) \<in> set stored. wrap_u64 (fi_trade_time_ms f + SETTLE_MS) > now_ms then Some (Inr (), db)
          else map_option (\<lambda>transfers. coinbase_record E D i now now_ms balances transfers db)
            (infer_transfers E before balances (map fst (filter (\<lambda>(_, reconciled). \<not> reconciled) stored))))"

text \<open>Its queries: when the account was connected, the stored fills, the latest snapshot.\<close>

definition coinbase_sync ::
    "coinbase_env \<Rightarrow> string db_faults \<Rightarrow> coinbase_db \<Rightarrow> string \<Rightarrow> nat \<Rightarrow> nat \<Rightarrow> ((string + unit) \<times> coinbase_db) option" where
  "coinbase_sync Y D db i now now_ms =
     (case and_then (query D 0 (ok_or (bv_row_error Y) (coinbase_created_at_ms db i))) (coinbase_fetch Y) of
        Inl e \<Rightarrow> Some (Inl e, db)
      | Inr (balances, fills) \<Rightarrow>
          let (r, db) = run_writes D (fill_writes i fills) db in
          (case and_then r (\<lambda>_. and_then (query D 1 (Inr ())) (\<lambda>_. query D 2 (Inr ()))) of
             Inl e \<Rightarrow> Some (Inl e, db)
           | Inr _ \<Rightarrow> reconcile_stored (bv_dec Y) (after_writes (length fills) D) db i now now_ms balances))"

section \<open>What the engine reads\<close>

text \<open>FNV-1a.\<close>

definition stable_id :: "string \<Rightarrow> nat" where
  "stable_id s = foldl (\<lambda>h c. unat (xor (of_nat h) (of_nat (of_char c)) * 0x100000001b3 :: 64 word)) 0xcbf29ce484222325 s"

definition coinbase_trade :: "dec_env \<Rightarrow> fill_entry \<Rightarrow> trade option option" where
  "coinbase_trade E f = (case split_product (fi_product_id f) of
       None \<Rightarrow> Some None
     | Some (_, quote) \<Rightarrow> map_option (map_option (\<lambda>(base_amount, _).
         \<lparr>tr_symbol = fi_product_id f, tr_id = stable_id (fi_entry_id f), tr_order_id = stable_id (fi_order_id f), tr_price = fi_price f,
          tr_qty = de_show E base_amount, tr_commission = fi_commission f, tr_commission_asset = quote, tr_time_ms = fi_trade_time_ms f,
          tr_is_buyer = fi_is_buy f\<rparr>)) (fill_amounts E f))"

fun keep_trades :: "dec_env \<Rightarrow> fill_entry list \<Rightarrow> trade list option" where
  "keep_trades E [] = Some []"
| "keep_trades E (f # fs) = Option.bind (coinbase_trade E f) (\<lambda>t.
     map_option (\<lambda>ts. case t of None \<Rightarrow> ts | Some t \<Rightarrow> t # ts) (keep_trades E fs))"

definition coinbase_trades :: "dec_env \<Rightarrow> coinbase_db \<Rightarrow> string \<Rightarrow> trade list option" where
  "coinbase_trades E db i = keep_trades E (map fst (stored_fills db i))"

definition inferred_flow :: "dec_env \<Rightarrow> (string \<times> int \<times> string) \<times> string \<Rightarrow> normalized_flow option" where
  "inferred_flow E = (\<lambda>((_, at_ms, asset), s). map_option (\<lambda>amount.
     \<lparr>nf_source_namespace = (if amount < 0 then Withdrawal else Deposit),
      nf_source_id = ''inferred:'' @ show_int at_ms @ '':'' @ asset, nf_economic_time_ms = as_u64 at_ms,
      nf_kind = ''inferred from balance reconciliation'',
      nf_legs = [if amount < 0 then debit asset (de_show E \<bar>amount\<bar>) else credit asset (de_show E \<bar>amount\<bar>)], nf_fee = None\<rparr>)
     (de_parse E s))"

definition coinbase_flows :: "dec_env \<Rightarrow> coinbase_db \<Rightarrow> string \<Rightarrow> normalized_flow list" where
  "coinbase_flows E db i = List.map_filter (inferred_flow E) (filter (\<lambda>(k, _). fst k = i) (bd_flows db))"

section \<open>What is recorded adds up\<close>

lemma add_change_exact:
  assumes "add_change exact_arith m e = Some m'" and "bt_ok m"
  shows "bt_ok m' \<and> or_zero_at m' a = or_zero_at m a + (if fst e = a then snd e else 0)"
  using assms by (cases e) (auto simp: add_change_def bt_ok_insert or_zero_at_def)

lemma add_changes_exact:
  "try_fold (add_change exact_arith) m es = Some m' \<Longrightarrow> bt_ok m \<Longrightarrow>
    bt_ok m' \<and> or_zero_at m' a = or_zero_at m a + (\<Sum>e\<leftarrow>es. if fst e = a then snd e else 0)"
proof (induction es arbitrary: m)
  case (Cons e es)
  obtain m1 where m1: "add_change exact_arith m e = Some m1" "try_fold (add_change exact_arith) m1 es = Some m'"
    using Cons.prems(1) by (auto simp: Option.bind_eq_Some_conv)
  show ?case using Cons.IH [OF m1(2)] add_change_exact [OF m1(1) Cons.prems(2)] by auto
qed simp

text \<open>What a fill does to an asset.\<close>

definition fill_net :: "dec_env \<Rightarrow> string \<Rightarrow> fill_entry \<Rightarrow> rat" where
  "fill_net E a f = (case fill_effects E f of None \<Rightarrow> 0 | Some es \<Rightarrow> \<Sum>e\<leftarrow>es. if fst e = a then snd e else 0)"

lemma explained_exact:
  assumes "explained_by E fills = Some m" and "de_arith E = exact_arith"
  shows "bt_ok m \<and> or_zero_at m a = (\<Sum>f\<leftarrow>fills. fill_net E a f)"
proof -
  let ?step = "\<lambda>m f. Option.bind (fill_effects E f) (try_fold (add_change (de_arith E)) m)"
  have "bt_ok m \<and> or_zero_at m a = or_zero_at m0 a + (\<Sum>f\<leftarrow>fills. fill_net E a f)"
    if "try_fold ?step m0 fills = Some m" "bt_ok m0" for m0
    using that
  proof (induction fills arbitrary: m0)
    case (Cons f fills)
    obtain es m1 where m1: "fill_effects E f = Some es" "try_fold (add_change exact_arith) m0 es = Some m1"
        "try_fold ?step m1 fills = Some m"
      using Cons.prems(1) assms(2) by (auto simp: Option.bind_eq_Some_conv)
    show ?case using Cons.IH [OF m1(3)] add_changes_exact [OF m1(2) Cons.prems(2), of a] by (simp add: fill_net_def m1(1))
  qed simp
  from this [of "[]"] show ?thesis using assms(1) by (simp add: explained_by_def or_zero_at_def)
qed

lemma dust_pos: "0 < dust_of a" by (simp add: dust_of_def)

lemma transfer_loop_map:
  "transfer_loop f assets = Some out \<Longrightarrow> distinct assets \<Longrightarrow>
    fst ` set out \<subseteq> set assets \<and> distinct (map fst out) \<and>
    (a \<in> set assets \<longrightarrow> (\<exists>d. f a = Some d \<and> map_of out a = (if \<bar>d\<bar> > dust_of a then Some d else None)))"
proof (induction assets arbitrary: out)
  case (Cons b assets)
  obtain d out' where d: "f b = Some d" "transfer_loop f assets = Some out'" "out = (if \<bar>d\<bar> > dust_of b then (b, d) # out' else out')"
    using Cons.prems(1) by (auto simp: Option.bind_eq_Some_conv)
  have "map_of out' b = None" if "b \<notin> set assets" using Cons.IH [OF d(2)] Cons.prems(2) that by (auto simp: map_of_eq_None_iff)
  then show ?case using Cons.IH [OF d(2)] Cons.prems(2) d by auto
qed simp

lemma infer_transfers_exact:
  assumes "infer_transfers E before now fills = Some out" and "de_arith E = exact_arith"
  shows "distinct (map fst out) \<and> map_of out a =
    (if \<bar>or_zero_at now a - or_zero_at before a - (\<Sum>f\<leftarrow>fills. fill_net E a f)\<bar> > dust_of a
     then Some (or_zero_at now a - or_zero_at before a - (\<Sum>f\<leftarrow>fills. fill_net E a f)) else None)"
proof -
  obtain m where m: "explained_by E fills = Some m" and loop: "transfer_loop (external_change exact_arith before now m)
      (sorted_list_of_set (fst ` set before \<union> fst ` set now \<union> fst ` set m)) = Some out"
    using assms by (auto simp: infer_transfers_def Option.bind_eq_Some_conv)
  let ?assets = "sorted_list_of_set (fst ` set before \<union> fst ` set now \<union> fst ` set m)"
  let ?d = "or_zero_at now a - or_zero_at before a - (\<Sum>f\<leftarrow>fills. fill_net E a f)"
  have d: "external_change exact_arith before now m a = Some ?d"
    using explained_exact [OF m assms(2), of a] by (simp add: external_change_def)
  note t = transfer_loop_map [OF loop, of a]
  show ?thesis
  proof (cases "a \<in> set ?assets")
    case True
    then show ?thesis using t d dust_pos [of a] by auto
  next
    case False
    then have "a \<notin> fst ` set before" "a \<notin> fst ` set now" "a \<notin> fst ` set m" by auto
    then have zero: "map_of before a = None" "map_of now a = None" "map_of m a = None" by (simp_all add: map_of_eq_None_iff)
    moreover have "map_of out a = None" using t False by (auto simp: map_of_eq_None_iff)
    ultimately show ?thesis using t dust_pos [of a] explained_exact [OF m assms(2), of a] by (simp add: or_zero_at_def)
  qed
qed

text \<open>The totals of what is stored: the inferred flows, and the effects of the fills.\<close>

definition inferred_total :: "dec_env \<Rightarrow> coinbase_db \<Rightarrow> string \<Rightarrow> string \<Rightarrow> rat" where
  "inferred_total E db i a = (\<Sum>(k, s)\<leftarrow>bd_flows db. if fst k = i \<and> snd (snd k) = a then read_or_zero E s else 0)"

definition fills_total :: "dec_env \<Rightarrow> coinbase_db \<Rightarrow> string \<Rightarrow> bool \<Rightarrow> string \<Rightarrow> rat" where
  "fills_total E db i reconciled a =
     (\<Sum>(f, done)\<leftarrow>stored_fills db i. if done = reconciled then fill_net E a f else 0)"

definition coinbase_ok :: "coinbase_db \<Rightarrow> bool" where
  "coinbase_ok db \<longleftrightarrow> bt_ok (bd_fills db) \<and> bt_ok (bd_snapshots db) \<and> bt_ok (bd_flows db)"

text \<open>The instant of a sync is later than every snapshot and inferred flow of the connection.\<close>

definition later_than_stored :: "coinbase_db \<Rightarrow> string \<Rightarrow> nat \<Rightarrow> bool" where
  "later_than_stored db i now_ms \<longleftrightarrow>
     (\<forall>k \<in> fst ` set (bd_snapshots db). fst k = i \<longrightarrow> snd k < stored_i64 now_ms) \<and>
     (\<forall>k \<in> fst ` set (bd_flows db). fst k = i \<longrightarrow> fst (snd k) < stored_i64 now_ms)"

lemma insert_inferred_all:
  assumes "reads_back E" and "bt_ok (bd_flows db)" and "distinct (map fst out)"
    and "\<forall>a \<in> fst ` set out. map_of (bd_flows db) (i, stored_i64 now_ms, a) = None"
  defines "db' \<equiv> foldl (\<lambda>db e. insert_inferred E i now_ms e db) db out"
  shows "inferred_total E db' i a = inferred_total E db i a + (case map_of out a of None \<Rightarrow> 0 | Some d \<Rightarrow> d) \<and>
    bd_fills db' = bd_fills db \<and> bd_snapshots db' = bd_snapshots db \<and> bt_ok (bd_flows db')"
  using assms(2-4) unfolding db'_def
proof (induction out arbitrary: db)
  case (Cons e out)
  obtain b d where e: "e = (b, d)" by (cases e)
  define k where "k = (i, stored_i64 now_ms, b)"
  define db1 where "db1 = insert_inferred E i now_ms e db"
  have new: "map_of (bd_flows db) k = None" using Cons.prems(3) by (simp add: e k_def)
  have db1: "db1 = db\<lparr>bd_flows := bt_insert k (de_show E d) (bd_flows db)\<rparr>"
    using new by (simp add: db1_def insert_inferred_def e k_def)
  have ok: "bt_ok (bd_flows db1)" using Cons.prems(1) by (simp add: db1 bt_ok_insert)
  have "map_of (bd_flows db1) (i, stored_i64 now_ms, c) = map_of (bd_flows db) (i, stored_i64 now_ms, c)" if "c \<noteq> b" for c
    using Cons.prems(1) that by (simp add: db1 k_def)
  moreover have "c \<noteq> b \<and> map_of (bd_flows db) (i, stored_i64 now_ms, c) = None" if "c \<in> fst ` set out" for c
    using Cons.prems(2,3) that by (auto simp: e)
  ultimately have "\<forall>c \<in> fst ` set out. map_of (bd_flows db1) (i, stored_i64 now_ms, c) = None" by metis
  note rest = Cons.IH [OF ok _ this]
  have "read_or_zero E (de_show E d) = d" using assms(1) by (simp add: reads_back_def read_or_zero_def)
  then have "inferred_total E db1 i a = inferred_total E db i a + (if b = a then d else 0)"
    using bt_sum_insert [OF Cons.prems(1), of "\<lambda>k s. if fst k = i \<and> snd (snd k) = a then read_or_zero E s else 0" k "de_show E d"] new
    by (simp add: inferred_total_def db1) (simp add: k_def)
  moreover have "map_of out b = None" using Cons.prems(2) by (simp add: e map_of_eq_None_iff)
  moreover have "foldl (\<lambda>db e. insert_inferred E i now_ms e db) db (e # out) = foldl (\<lambda>db e. insert_inferred E i now_ms e db) db1 out"
    by (simp add: db1_def)
  moreover have "bd_fills db1 = bd_fills db" "bd_snapshots db1 = bd_snapshots db" by (simp_all add: db1)
  ultimately show ?case using rest Cons.prems(2) by (simp only: e) (auto simp del: foldl_Cons)
qed simp

lemma fills_total_table:
  "fills_total E db i reconciled a =
     (\<Sum>(k, r)\<leftarrow>bd_fills db. if fst k = i \<and> fr_reconciled r = reconciled then fill_net E a (fst (into_fill (k, r))) else 0)"
proof -
  have one: "(case into_fill e of (f, done) \<Rightarrow> if done = reconciled then fill_net E a f else 0) =
      (if fr_reconciled (snd e) = reconciled then fill_net E a (fst (into_fill e)) else 0)" for e
    by (cases e) (auto simp: into_fill_def)
  have "fills_total E db i reconciled a = (\<Sum>e\<leftarrow>filter (\<lambda>(k, _). fst k = i) (bd_fills db).
      if fr_reconciled (snd e) = reconciled then fill_net E a (fst (into_fill e)) else 0)"
    by (simp only: fills_total_def stored_fills_def map_map comp_def one sum_list_sort_key)
  also have "(\<Sum>e\<leftarrow>filter (\<lambda>(k, _). fst k = i) m. if fr_reconciled (snd e) = reconciled then fill_net E a (fst (into_fill e)) else 0) =
      (\<Sum>e\<leftarrow>m. if fst (fst e) = i \<and> fr_reconciled (snd e) = reconciled then fill_net E a (fst (into_fill e)) else 0)" for m
    by (induction m) (auto simp: case_prod_beta')
  finally show ?thesis by (simp add: case_prod_beta' cong: if_cong)
qed

lemma mark_reconciled_totals:
  "fills_total E (mark_reconciled i db) i True a = fills_total E db i True a + fills_total E db i False a"
  "fills_total E (mark_reconciled i db) i False a = 0"
proof -
  have same: "fst (into_fill (k, r\<lparr>fr_reconciled := b\<rparr>)) = fst (into_fill (k, r))" for k r b
    by (cases k) (simp add: into_fill_def)
  have "(\<Sum>(k, r)\<leftarrow>map (\<lambda>(k, r). (k, if fst k = i then r\<lparr>fr_reconciled := True\<rparr> else r)) m.
        if fst k = i \<and> fr_reconciled r = True then fill_net E a (fst (into_fill (k, r))) else 0) =
      (\<Sum>(k, r)\<leftarrow>m. if fst k = i \<and> fr_reconciled r = True then fill_net E a (fst (into_fill (k, r))) else 0) +
      (\<Sum>(k, r)\<leftarrow>m. if fst k = i \<and> fr_reconciled r = False then fill_net E a (fst (into_fill (k, r))) else 0) \<and>
    (\<Sum>(k, r)\<leftarrow>map (\<lambda>(k, r). (k, if fst k = i then r\<lparr>fr_reconciled := True\<rparr> else r)) m.
        if fst k = i \<and> fr_reconciled r = False then fill_net E a (fst (into_fill (k, r))) else 0) = 0" for m
    by (induction m) (auto simp: same)
  note m = this [of "bd_fills db"]
  have table: "bd_fills (mark_reconciled i db) =
      map (\<lambda>(k, r). (k, if fst k = i then r\<lparr>fr_reconciled := True\<rparr> else r)) (bd_fills db)" by (simp add: mark_reconciled_def)
  show "fills_total E (mark_reconciled i db) i True a = fills_total E db i True a + fills_total E db i False a"
    unfolding fills_total_table table by (rule conjunct1 [OF m])
  show "fills_total E (mark_reconciled i db) i False a = 0" unfolding fills_total_table table by (rule conjunct2 [OF m])
qed

lemma filter_insert_last:
  assumes "bt_ok m" and "\<forall>k' \<in> fst ` set m. P k' \<longrightarrow> k' < k" and "P k"
  shows "filter (\<lambda>e. P (fst e)) (bt_insert k v m) = filter (\<lambda>e. P (fst e)) m @ [(k, v)]"
  using assms(1,2)
proof (induction m)
  case (Cons e m)
  obtain k' v' where e: "e = (k', v')" by (cases e)
  show ?case
  proof (cases "k' < k")
    case True
    then show ?thesis using Cons by (auto simp: e bt_ok_def)
  next
    case False
    then have no: "\<not> P k'" using Cons.prems(2) by (simp add: e)
    have "\<not> P (fst x)" if "x \<in> set m" for x
    proof
      assume "P (fst x)"
      then have "fst x < k" using Cons.prems(2) that by simp
      moreover have "k' < fst x" using Cons.prems(1) that by (simp add: e bt_ok_def)
      ultimately show False using False by simp
    qed
    then show ?thesis using no False assms(3) by (auto simp: e filter_empty_conv)
  qed
qed (simp add: assms(3))

lemma read_snapshot_show: "reads_back E \<Longrightarrow> read_snapshot E (map (\<lambda>(a, v). (a, de_show E v)) m) = m"
  by (induction m) (auto simp: read_snapshot_def reads_back_def map_filter_simps)

lemma latest_after_insert:
  assumes "reads_back E" and "bt_ok (bd_snapshots db)"
    and later: "\<forall>k \<in> fst ` set (bd_snapshots db). fst k = i \<longrightarrow> snd k < stored_i64 now_ms"
  shows "latest_snapshot E (insert_snapshot E i now_ms balances db) i = Some balances"
proof -
  have new: "map_of (bd_snapshots db) (i, stored_i64 now_ms) = None"
    using later by (force simp: map_of_eq_None_iff)
  have "\<forall>k' \<in> fst ` set (bd_snapshots db). fst k' = i \<longrightarrow> k' < (i, stored_i64 now_ms)"
    using later by (auto simp: less_prod_def')
  from filter_insert_last [OF assms(2) this] show ?thesis
    using new read_snapshot_show [OF assms(1)] by (simp add: latest_snapshot_def insert_snapshot_def case_prod_beta')
qed

text \<open>New fills come unreconciled; nothing else changes.\<close>

lemma insert_fills_keep:
  assumes "bt_ok (bd_fills db)"
  shows "bt_ok (bd_fills (insert_fills db i fills)) \<and>
    fills_total E (insert_fills db i fills) i True a = fills_total E db i True a \<and>
    bd_snapshots (insert_fills db i fills) = bd_snapshots db \<and> bd_flows (insert_fills db i fills) = bd_flows db"
  using assms
proof (induction fills arbitrary: db)
  case (Cons f fills)
  let ?f = "\<lambda>k r. if fst k = i \<and> fr_reconciled r = True then fill_net E a (fst (into_fill (k, r))) else 0"
  have "bt_ok (bd_fills (insert_fill i db f))" using Cons.prems by (simp add: insert_fill_def bt_ok_insert)
  moreover have "fills_total E (insert_fill i db f) i True a = fills_total E db i True a"
    unfolding fills_total_table using bt_sum_insert [OF Cons.prems, of ?f "(i, fi_entry_id f)"]
    by (auto simp: insert_fill_def)
  moreover have "bd_snapshots (insert_fill i db f) = bd_snapshots db" "bd_flows (insert_fill i db f) = bd_flows db"
    by (simp_all add: insert_fill_def)
  moreover have "insert_fills db i (f # fills) = insert_fills (insert_fill i db f) i fills" by (simp add: insert_fills_def fill_writes_def)
  ultimately show ?case using Cons.IH [of "insert_fill i db f"] by simp
qed (simp add: insert_fills_def fill_writes_def)

text \<open>What \<open>record\<close> leaves behind.\<close>

lemma coinbase_record_leaves:
  fixes now now_ms :: nat and balances out :: "(string, decimal) btree"
  assumes E: "reads_back E" and ok: "coinbase_ok db" and later: "later_than_stored db i now_ms" and out: "distinct (map fst out)"
  defines "db' \<equiv> run_all (record_steps E i now now_ms balances out) db"
  shows "latest_snapshot E db' i = Some balances \<and> fills_total E db' i False a = 0 \<and>
    fills_total E db' i True a = fills_total E db i True a + fills_total E db i False a \<and>
    inferred_total E db' i a = inferred_total E db i a + (case map_of out a of None \<Rightarrow> 0 | Some d \<Rightarrow> d)"
proof -
  define db1 where "db1 = foldl (\<lambda>db e. insert_inferred E i now_ms e db) db out"
  define db2 where "db2 = mark_reconciled i (insert_snapshot E i now_ms balances db1)"
  have "run_all (map (insert_inferred E i now_ms) out) db = db1" by (simp add: db1_def run_all_def foldl_map)
  then have db': "db' = coinbase_update i (\<lambda>c. c\<lparr>cb_last_synced_at := Some now\<rparr>) db2"
    by (simp add: db'_def record_steps_def db2_def)
  have "\<forall>a \<in> fst ` set out. map_of (bd_flows db) (i, stored_i64 now_ms, a) = None"
    using later by (force simp: later_than_stored_def map_of_eq_None_iff)
  note one = insert_inferred_all [OF E _ out this, folded db1_def, of a]
  have flows: "bt_ok (bd_flows db)" and snapshots: "bt_ok (bd_snapshots db)" using ok by (simp_all add: coinbase_ok_def)
  have "bd_snapshots db1 = bd_snapshots db" using one flows by simp
  then have latest: "latest_snapshot E (insert_snapshot E i now_ms balances db1) i = Some balances"
    using snapshots later by (intro latest_after_insert [OF E]) (simp_all add: later_than_stored_def)
  have snap: "bd_fills (insert_snapshot E i now_ms balances db1) = bd_fills db" "bd_flows (insert_snapshot E i now_ms balances db1) = bd_flows db1"
    using one flows by (simp_all add: insert_snapshot_def)
  have fills: "fills_total E (insert_snapshot E i now_ms balances db1) i b a = fills_total E db i b a" for b
    by (simp only: fills_total_table snap)
  have upd: "bd_snapshots db' = bd_snapshots (insert_snapshot E i now_ms balances db1)" "bd_fills db' = bd_fills db2" "bd_flows db' = bd_flows db1"
    using snap(2) by (simp_all add: db' coinbase_update_def db2_def mark_reconciled_def)
  have "fills_total E db' i b a = fills_total E db2 i b a" for b by (simp only: fills_total_table upd)
  then show ?thesis using mark_reconciled_totals [of E i "insert_snapshot E i now_ms balances db1" a] fills one flows latest
    by (simp add: db2_def latest_snapshot_def upd inferred_total_def)
qed

abbreviation new_fills :: "coinbase_db \<Rightarrow> string \<Rightarrow> fill_entry list" where
  "new_fills db i \<equiv> map fst (filter (\<lambda>(_, reconciled). \<not> reconciled) (stored_fills db i))"

definition unsettled :: "coinbase_db \<Rightarrow> string \<Rightarrow> nat \<Rightarrow> bool" where
  "unsettled db i now_ms \<longleftrightarrow> (\<exists>(f, _) \<in> set (stored_fills db i). wrap_u64 (fi_trade_time_ms f + SETTLE_MS) > now_ms)"

lemma reconcile_stored_cases:
  assumes "reconcile_stored E D db i now now_ms balances = Some (Inr (), db')" "latest_snapshot E db i = Some before"
  obtains (waits) "unsettled db i now_ms" "db' = db"
  | (records) out where "\<not> unsettled db i now_ms" "infer_transfers E before balances (new_fills db i) = Some out"
      "db' = run_all (record_steps E i now now_ms balances out) db"
proof (cases "unsettled db i now_ms")
  case True
  have "reconcile_stored E D db i now now_ms balances = Some (Inr (), db)"
    unfolding reconcile_stored_def Let_def assms(2) option.case if_P [OF True [unfolded unsettled_def]] ..
  then show thesis using assms(1) waits True by simp
next
  case False
  have "reconcile_stored E D db i now now_ms balances =
      map_option (\<lambda>transfers. coinbase_record E D i now now_ms balances transfers db) (infer_transfers E before balances (new_fills db i))"
    unfolding reconcile_stored_def Let_def assms(2) option.case if_not_P [OF False [unfolded unsettled_def]] ..
  with assms(1) have "map_option (\<lambda>transfers. coinbase_record E D i now now_ms balances transfers db)
      (infer_transfers E before balances (new_fills db i)) = Some (Inr (), db')" by simp
  then obtain out where "infer_transfers E before balances (new_fills db i) = Some out" "coinbase_record E D i now now_ms balances out db = (Inr (), db')"
    unfolding map_option_eq_Some by blast
  then show thesis using records [OF False] run_writes_Inr by (fastforce simp: coinbase_record_def)
qed

lemma new_fills_total: "(\<Sum>f\<leftarrow>new_fills db i. fill_net E a f) = fills_total E db i False a"
proof -
  have "(\<Sum>f\<leftarrow>map fst (filter (\<lambda>(_, reconciled). \<not> reconciled) m). fill_net E a f) =
      (\<Sum>(f, done)\<leftarrow>m. if done = False then fill_net E a f else 0)" for m
    by (induction m) auto
  then show ?thesis by (simp only: fills_total_def)
qed

text \<open>
  What settling a trade does to an account, told without the code: a buyer receives the base asset and pays for it in
  the quote asset, a seller the other way around, and the fee is paid in the quote asset by both. The size of
  an order placed in the quote asset is what is paid.
\<close>

definition settled :: "dec_env \<Rightarrow> string \<Rightarrow> fill_entry \<Rightarrow> rat" where
  "settled E a f =
     (let price = read_or_zero E (fi_price f); size' = read_or_zero E (fi_size f); fee = read_or_zero E (fi_commission f);
          received = (if fi_size_in_quote f then size' / price else size'); paid = (if fi_size_in_quote f then size' else size' * price);
          direction = (if fi_is_buy f then 1 else - 1); assets = split_on CHR ''-'' (fi_product_id f) in
      (if a = hd assets then direction * received else 0) + (if a = last assets then - direction * paid - fee else 0))"

definition readable_fill :: "dec_env \<Rightarrow> fill_entry \<Rightarrow> bool" where
  "readable_fill E f \<longleftrightarrow> length (split_on CHR ''-'' (fi_product_id f)) = 2 \<and> de_parse E (fi_price f) \<noteq> None \<and> read_or_zero E (fi_price f) \<noteq> 0 \<and>
     de_parse E (fi_size f) \<noteq> None \<and> de_parse E (fi_commission f) \<noteq> None"

lemma split_on_two: "split_on c s = [x, y] \<Longrightarrow> split_once c s = Some (x, y)"
proof (induction s arbitrary: x)
  case (Cons d s)
  show ?case
  proof (cases "d = c")
    case True
    have "split_on c s \<noteq> []" for s by (cases s) (auto split: list.splits)
    then have "split_on c s = [w] \<Longrightarrow> w = s" for w
      by (induction s arbitrary: w) (auto split: list.splits if_splits)
    then show ?thesis using Cons.prems True by (auto simp: split_once_def)
  next
    case False
    then obtain x' where x': "split_on c s = [x', y]" "x = d # x'" using Cons.prems by (auto split: list.splits)
    have "c \<in> set s" if "dropWhile (\<lambda>d. d \<noteq> c) s = d' # y" for d' using that by (metis (mono_tags) dropWhile_eq_Nil_conv list.distinct(1))
    then show ?thesis using Cons.IH [OF x'(1)] x'(2) False by (auto simp: split_once_def split: list.splits)
  qed
qed simp

lemma fill_net_settled:
  assumes "readable_fill E f" "de_arith E = exact_arith"
  shows "fill_net E a f = settled E a f"
proof -
  obtain x y where xy: "split_on CHR ''-'' (fi_product_id f) = [x, y]"
    using assms(1) by (auto simp: readable_fill_def numeral_2_eq_2 length_Suc_conv)
  obtain p size' fee where read: "de_parse E (fi_price f) = Some p" "de_parse E (fi_size f) = Some size'" "de_parse E (fi_commission f) = Some fee"
      "p \<noteq> 0"
    using assms(1) by (auto simp: readable_fill_def read_or_zero_def)
  then show ?thesis using split_on_two [OF xy] xy assms(2)
    by (auto simp: fill_net_def fill_effects_def fill_amounts_def split_product_def settled_def read_or_zero_def Let_def)
qed

text \<open>What the exchange says the account holds.\<close>

definition held_there :: "dec_env \<Rightarrow> account_balance list \<Rightarrow> string \<Rightarrow> rat" where
  "held_there E balances a = (\<Sum>b\<leftarrow>balances. if ab_asset b = a then read_or_zero E (ab_free b) + read_or_zero E (ab_locked b) else 0)"

lemma totals_exact:
  assumes "totals E balances = Some m" "de_arith E = exact_arith"
  shows "or_zero_at m a = held_there E balances a"
proof -
  let ?step = "\<lambda>m b. Option.bind (dadd (de_arith E) (read_or_zero E (ab_free b)) (read_or_zero E (ab_locked b))) (\<lambda>total.
      if total = 0 then Some m else add_change (de_arith E) m (ab_asset b, total))"
  have "or_zero_at m a = or_zero_at m0 a + held_there E balances a" if "try_fold ?step m0 balances = Some m" "bt_ok m0" for m0
    using that
  proof (induction balances arbitrary: m0)
    case (Cons b balances)
    let ?t = "read_or_zero E (ab_free b) + read_or_zero E (ab_locked b)"
    have "Option.bind (if ?t = 0 then Some m0 else add_change exact_arith m0 (ab_asset b, ?t)) (\<lambda>m1. try_fold ?step m1 balances) = Some m"
      using Cons.prems(1) unfolding assms(2) by simp
    then obtain m1 where m1: "(if ?t = 0 then Some m0 else add_change exact_arith m0 (ab_asset b, ?t)) = Some m1" "try_fold ?step m1 balances = Some m"
      unfolding Option.bind_eq_Some_conv by blast
    have "bt_ok m1 \<and> or_zero_at m1 a = or_zero_at m0 a + (if ab_asset b = a then ?t else 0)"
      using m1(1) Cons.prems(2) add_change_exact [of m0 "(ab_asset b, ?t)" m1 a] by (auto split: if_splits)
    then show ?case using Cons.IH [OF m1(2)] by (simp add: held_there_def)
  qed (simp add: held_there_def)
  from this [of "[]"] show ?thesis using assms(1) by (simp add: totals_def or_zero_at_def)
qed

text \<open>Nothing is left to explain.\<close>

lemma none_new: "new_fills (run_all (record_steps E i now now_ms balances out) db) i = []"
proof -
  define db1 where "db1 = insert_snapshot E i now_ms balances (run_all (map (insert_inferred E i now_ms) out) db)"
  have "bd_fills (run_all (record_steps E i now now_ms balances out) db) =
      map (\<lambda>(k, r). (k, if fst k = i then r\<lparr>fr_reconciled := True\<rparr> else r)) (bd_fills db1)"
    by (simp add: record_steps_def coinbase_update_def mark_reconciled_def db1_def)
  then show ?thesis by (auto simp: stored_fills_def filter_empty_conv into_fill_def)
qed

text \<open>
  C31. The transfers that are inferred are those that took place. Let an asset of the account have changed, since the
  last snapshot, by the settlement of the new fills and by what was moved in or out. Then a sync that succeeds
  records exactly what was moved, as a deposit or a withdrawal of that asset, or nothing where it is within
  the dust; and it takes the new snapshot and leaves no fill to explain. Where a fill is too recent it waits, and only
  stores the fills. The settlement is \<open>settled\<close>, which is not the code; what is relied on is fills and
  decimals that can be read, no rounding, and an instant later than those of the snapshots before.
\<close>
theorem coinbase_sync_adds_up:
  assumes "coinbase_sync Y D db i now now_ms = Some (Inr (), db')" and "reads_back (bv_dec Y)" "de_arith (bv_dec Y) = exact_arith"
    and "coinbase_ok db" "later_than_stored db i now_ms" and "latest_snapshot (bv_dec Y) db i = Some before"
    and "coinbase_created_at_ms db i = Some since" "bv_balances Y = Inr balances" "bv_fills_since Y since = Inr fills"
    and "\<forall>f \<in> set (new_fills (insert_fills db i fills) i). readable_fill (bv_dec Y) f"
    and "held_there (bv_dec Y) balances a = or_zero_at before a + (\<Sum>f\<leftarrow>new_fills (insert_fills db i fills) i. settled (bv_dec Y) a f) + outside"
  shows "if unsettled (insert_fills db i fills) i now_ms then db' = insert_fills db i fills
    else (\<exists>now'. latest_snapshot (bv_dec Y) db' i = Some now' \<and> or_zero_at now' a = held_there (bv_dec Y) balances a) \<and>
      inferred_total (bv_dec Y) db' i a = inferred_total (bv_dec Y) db i a + (if \<bar>outside\<bar> > dust_of a then outside else 0) \<and>
      new_fills db' i = []"
proof -
  let ?E = "bv_dec Y"
  define db1 where "db1 = insert_fills db i fills"
  obtain m D' where m: "totals ?E balances = Some m" "reconcile_stored ?E D' db1 i now now_ms m = Some (Inr (), db')"
  proof (cases "totals ?E balances")
    case (Some m)
    obtain r db2 where w: "run_writes D (fill_writes i fills) db = (r, db2)" by (cases "run_writes D (fill_writes i fills) db")
    have s: "(case and_then r (\<lambda>_. and_then (query D (Suc 0) (Inr ())) (\<lambda>_. query D 2 (Inr ()))) of
        Inl e \<Rightarrow> Some (Inl e, db2) | Inr _ \<Rightarrow> reconcile_stored ?E (after_writes (length fills) D) db2 i now now_ms m) = Some (Inr (), db')"
      using assms(1,7,8,9) Some w by (auto simp: coinbase_sync_def coinbase_fetch_def query_def split: option.splits)
    then have "r = Inr ()" by (cases r) auto
    then have "db2 = db1" using run_writes_Inr [of D _ db "()" db2] w by (simp add: db1_def insert_fills_def)
    then show thesis using s that [OF Some] by (auto split: sum.splits)
  next
    case None
    then show thesis using assms(1,7,8,9) by (auto simp: coinbase_sync_def coinbase_fetch_def query_def split: option.splits)
  qed
  have fills: "bt_ok (bd_fills db)" using assms(4) by (simp add: coinbase_ok_def)
  note keep = insert_fills_keep [OF fills, of i fills ?E a, folded db1_def]
  have ok: "coinbase_ok db1" and later: "later_than_stored db1 i now_ms"
    using keep assms(4,5) by (simp_all add: coinbase_ok_def later_than_stored_def)
  have same1: "latest_snapshot ?E db1 i = Some before" "inferred_total ?E db1 i a = inferred_total ?E db i a"
    using keep assms(6) by (simp_all add: latest_snapshot_def inferred_total_def)
  have m_held: "or_zero_at m a = held_there ?E balances a" using m(1) assms(3) by (rule totals_exact)
  have "(\<Sum>f\<leftarrow>new_fills db1 i. fill_net ?E a f) = (\<Sum>f\<leftarrow>new_fills db1 i. settled ?E a f)"
    using assms(10) fill_net_settled [OF _ assms(3)] unfolding db1_def by (intro arg_cong [where f = sum_list] map_cong) auto
  then have outside: "or_zero_at m a - or_zero_at before a - (\<Sum>f\<leftarrow>new_fills db1 i. fill_net ?E a f) = outside"
    using assms(11) by (simp add: m_held db1_def)
  show ?thesis using m(2) same1(1)
  proof (cases rule: reconcile_stored_cases)
    case waits
    then show ?thesis by (simp add: db1_def)
  next
    case (records out)
    note infer = infer_transfers_exact [OF records(2) assms(3), of a, unfolded outside]
    have "distinct (map fst out)" using infer by simp
    note coinbase_record_leaves [OF assms(2) ok later this, of now m a, folded records(3)]
    then show ?thesis using infer same1(2) records(1,3) m_held none_new by (auto simp: db1_def)
  qed
qed

section \<open>A sync of one connection\<close>

definition sample_fill :: fill_entry where
  "sample_fill = \<lparr>fi_entry_id = ''e'', fi_trade_id = ''t'', fi_order_id = ''o'', fi_product_id = ''BTC-USD'', fi_is_buy = True,
     fi_price = ''100'', fi_size = ''1'', fi_size_in_quote = False, fi_commission = ''2'', fi_trade_time_ms = 100\<rparr>"

text \<open>The account held 1 BTC; it bought another for 100 dollars and 2 of fee, and holds 3 BTC and no dollars: 1 BTC came in.\<close>

definition sample_coinbase :: coinbase_env where
  "sample_coinbase = \<lparr>bv_dec = fraction_dec, bv_balances = Inr [\<lparr>ab_asset = ''BTC'', ab_free = ''3'', ab_locked = ''0''\<rparr>],
     bv_fills_since = (\<lambda>_. Inr [sample_fill]), bv_join_error = [], bv_row_error = []\<rparr>"

definition sample_coinbase_db :: coinbase_db where
  "sample_coinbase_db = \<lparr>bd_connections = [\<lparr>cb_id = ''c'', cb_account_id = ''a'', cb_encrypted_key_name = [], cb_nonce_key_name = [],
       cb_encrypted_private_key = [], cb_nonce_private_key = [], cb_label = None, cb_status = ''active'', cb_created_at_ms = 0,
       cb_last_synced_at = None\<rparr>],
     bd_fills = [], bd_snapshots = [((''c'', 10), [(''BTC'', ''1'')])], bd_flows = []\<rparr>"

lemma sample_parse:
  "de_parse fraction_dec ''0'' = Some 0" "de_parse fraction_dec ''1'' = Some 1" "de_parse fraction_dec ''2'' = Some 2"
  "de_parse fraction_dec ''3'' = Some 3" "de_parse fraction_dec ''100'' = Some 100"
  by (simp_all add: fraction_dec_def split_once_def parse_whole_def digits_value_def)

lemma sample_latest: "latest_snapshot fraction_dec sample_coinbase_db ''c'' = Some [(''BTC'', 1)]"
  by (simp add: latest_snapshot_def sample_coinbase_db_def read_snapshot_def map_filter_simps sample_parse)

lemma sample_stored: "stored_fills (insert_fills sample_coinbase_db ''c'' [sample_fill]) ''c'' = [(sample_fill, False)]"
  by (simp add: insert_fills_def fill_writes_def insert_fill_def sample_coinbase_db_def sample_fill_def stored_fills_def into_fill_def
    as_u64_def stored_i64_def wrap_s_def)

lemma sample_fill_effects: "fill_effects fraction_dec sample_fill = Some [(''BTC'', 1), (''USD'', - 102)]"
  by (simp add: sample_fill_def fill_effects_def fill_amounts_def sample_parse split_product_def split_once_def) (simp add: fraction_dec_def)

lemma sample_coinbase_sync: "\<exists>db'. coinbase_sync sample_coinbase no_faults sample_coinbase_db ''c'' 5 20000 = Some (Inr (), db')"
proof -
  have A: "de_arith fraction_dec = exact_arith" by (simp add: fraction_dec_def)
  have total: "coinbase_fetch sample_coinbase 0 = Inr ([(''BTC'', 3)], [sample_fill])"
    by (simp add: coinbase_fetch_def sample_coinbase_def totals_def read_or_zero_def sample_parse A add_change_def or_zero_at_def)
  obtain m where explained: "explained_by fraction_dec [sample_fill] = Some m"
    by (simp add: explained_by_def sample_fill_effects A add_change_def)
  have "transfer_loop (external_change exact_arith before now m) assets \<noteq> None" for before now assets
    by (induction assets) (auto simp: external_change_def)
  then obtain out where out: "infer_transfers fraction_dec [(''BTC'', 1)] [(''BTC'', 3)] [sample_fill] = Some out"
    unfolding infer_transfers_def explained A bind.simps by blast
  have none: "fa_write (after_writes n no_faults) = None" for n by (simp add: after_writes_def no_faults_def)
  let ?db = "insert_fills sample_coinbase_db ''c'' [sample_fill]"
  have "bd_snapshots ?db = bd_snapshots sample_coinbase_db"
    by (simp add: insert_fills_def fill_writes_def insert_fill_def)
  then have "latest_snapshot fraction_dec ?db ''c'' = Some [(''BTC'', 1)]" using sample_latest by (simp add: latest_snapshot_def)
  then have "\<exists>db'. reconcile_stored fraction_dec (after_writes 1 no_faults) ?db ''c'' 5 20000 [(''BTC'', 3)] = Some (Inr (), db')"
    using out by (simp add: reconcile_stored_def sample_stored coinbase_record_def run_writes_def none)
  then show ?thesis using total
    by (simp add: coinbase_sync_def coinbase_created_at_ms_def insert_fills_def) (simp add: sample_coinbase_db_def sample_coinbase_def)
qed

theorem coinbase_sync_adds_up_witness:
  "\<exists>db'. coinbase_sync sample_coinbase no_faults sample_coinbase_db ''c'' 5 20000 = Some (Inr (), db') \<and>
    inferred_total fraction_dec db' ''c'' ''BTC'' = 1 \<and> new_fills db' ''c'' = []"
proof -
  obtain db' where s: "coinbase_sync sample_coinbase no_faults sample_coinbase_db ''c'' 5 20000 = Some (Inr (), db')"
    using sample_coinbase_sync by blast
  have E: "bv_dec sample_coinbase = fraction_dec" "de_arith fraction_dec = exact_arith" by (simp_all add: sample_coinbase_def fraction_dec_def)
  have db: "coinbase_ok sample_coinbase_db" "later_than_stored sample_coinbase_db ''c'' 20000"
    by (simp_all add: coinbase_ok_def bt_ok_def later_than_stored_def sample_coinbase_db_def stored_i64_def wrap_s_def)
  have since: "coinbase_created_at_ms sample_coinbase_db ''c'' = Some 0" by (simp add: coinbase_created_at_ms_def sample_coinbase_db_def)
  have asked: "bv_balances sample_coinbase = Inr [\<lparr>ab_asset = ''BTC'', ab_free = ''3'', ab_locked = ''0''\<rparr>]"
    "bv_fills_since sample_coinbase 0 = Inr [sample_fill]" by (simp_all add: sample_coinbase_def)
  have readable: "readable_fill fraction_dec sample_fill" by (simp add: readable_fill_def sample_fill_def sample_parse read_or_zero_def)
  have change: "held_there fraction_dec [\<lparr>ab_asset = ''BTC'', ab_free = ''3'', ab_locked = ''0''\<rparr>] ''BTC'' =
      or_zero_at [(''BTC'', 1)] ''BTC'' + settled fraction_dec ''BTC'' sample_fill + 1"
    by (simp add: held_there_def settled_def sample_fill_def sample_parse read_or_zero_def or_zero_at_def)
  have "\<not> unsettled (insert_fills sample_coinbase_db ''c'' [sample_fill]) ''c'' 20000"
    unfolding unsettled_def sample_stored by (simp add: sample_fill_def SETTLE_MS_def)
  moreover have "inferred_total fraction_dec sample_coinbase_db ''c'' ''BTC'' = 0" by (simp add: inferred_total_def sample_coinbase_db_def)
  moreover note coinbase_sync_adds_up [where a = "''BTC''" and outside = 1, OF s, unfolded E(1), OF fraction_dec_reads_back E(2) db sample_latest since asked]
  ultimately show ?thesis using s readable change by (simp add: sample_stored dust_of_def)
qed

section \<open>A crash between the statements\<close>

text \<open>
  \<open>record\<close> is not one transaction. Where it stops after the snapshot and before the fills are marked, the next
  sync that finds the same balances explains the same fills again: it infers that what they brought in was taken out.
\<close>
theorem coinbase_crash_undoes_fills:
  fixes now now_ms :: nat and balances out out2 :: "(string, decimal) btree"
  assumes "reads_back E" "de_arith E = exact_arith" "coinbase_ok db" "later_than_stored db i now_ms" "distinct (map fst out)"
  defines "fills \<equiv> map fst (filter (\<lambda>(_, reconciled). \<not> reconciled) (stored_fills db i))"
    and "crashed \<equiv> run_all (take (Suc (length out)) (record_steps E i now now_ms balances out)) db"
  assumes "infer_transfers E balances balances (map fst (filter (\<lambda>(_, reconciled). \<not> reconciled) (stored_fills crashed i))) = Some out2"
  shows "latest_snapshot E crashed i = Some balances \<and>
    \<bar>(case map_of out2 a of None \<Rightarrow> 0 | Some d \<Rightarrow> d) + (\<Sum>f\<leftarrow>fills. fill_net E a f)\<bar> \<le> dust_of a"
proof -
  define db1 where "db1 = foldl (\<lambda>db e. insert_inferred E i now_ms e db) db out"
  have "run_all (map (insert_inferred E i now_ms) out) db = db1" by (simp add: db1_def run_all_def foldl_map)
  then have crashed: "crashed = insert_snapshot E i now_ms balances db1"
    by (simp add: crashed_def record_steps_def)
  have "\<forall>a \<in> fst ` set out. map_of (bd_flows db) (i, stored_i64 now_ms, a) = None"
    using assms(4) by (force simp: later_than_stored_def map_of_eq_None_iff)
  moreover have "bt_ok (bd_flows db)" "bt_ok (bd_snapshots db)" using assms(3) by (simp_all add: coinbase_ok_def)
  ultimately have one: "bd_fills db1 = bd_fills db" "bd_snapshots db1 = bd_snapshots db" "bt_ok (bd_snapshots db1)"
    using insert_inferred_all [OF assms(1) _ assms(5), where db = db and i = i and now_ms = now_ms] by (simp_all add: db1_def)
  have "latest_snapshot E crashed i = Some balances"
    unfolding crashed using one assms(4) by (intro latest_after_insert [OF assms(1)]) (simp_all add: later_than_stored_def)
  moreover have "bd_fills crashed = bd_fills db" using one by (simp add: crashed insert_snapshot_def)
  then have "infer_transfers E balances balances fills = Some out2" using assms(8) by (simp add: fills_def stored_fills_def)
  from infer_transfers_exact [OF this assms(2), of a] have "map_of out2 a =
      (if \<bar>\<Sum>f\<leftarrow>fills. fill_net E a f\<bar> > dust_of a then Some (- (\<Sum>f\<leftarrow>fills. fill_net E a f)) else None)" by simp
  ultimately show ?thesis using dust_pos [of a] by simp
qed

end
