(* ===== verification/KrakenWire.thy ===== *)
theory KrakenWire
  imports Market JsonValue Strings BTree
begin

text \<open>
  services/collector/kraken/client: the names of assets and markets (names.rs), what the REST API answers
  (wire.rs) and the signing of a request (auth.rs). Base64, SHA-256, HMAC-SHA-512 and the reading of a number of
  seconds as milliseconds, which goes through floating point, are parameters. A reason keeps what its text names.
\<close>

section \<open>names.rs\<close>

definition rsplit_once :: "char \<Rightarrow> string \<Rightarrow> (string \<times> string) option" where
  "rsplit_once sep s = map_option (\<lambda>(a, b). (rev b, rev a)) (split_once sep (rev s))"

definition is_wallet_suffix :: "string \<Rightarrow> bool" where
  "is_wallet_suffix suffix \<longleftrightarrow> suffix \<in> {''S'', ''M'', ''F'', ''B'', ''P'', ''HOLD''}"

definition alt_name :: "(string, string) btree \<Rightarrow> string \<Rightarrow> string" where
  "alt_name altnames code = (case map_of altnames code of None \<Rightarrow> code | Some alt \<Rightarrow> alt)"

definition trim_end_digits :: "string \<Rightarrow> string" where
  "trim_end_digits s = rev (dropWhile is_digit (rev s))"

definition wallet_base :: "string set \<Rightarrow> string \<Rightarrow> string" where
  "wallet_base known alt = (case rsplit_once CHR ''.'' alt of
       Some (base, suffix) \<Rightarrow>
         if is_wallet_suffix suffix
         then (let trimmed = trim_end_digits base in
           if trimmed \<noteq> base \<and> trimmed \<noteq> [] \<and> trimmed \<in> known then trimmed else base)
         else alt
     | None \<Rightarrow> alt)"

definition usual_ticker :: "string \<Rightarrow> string" where
  "usual_ticker name = (if name = ''XBT'' then ''BTC'' else if name = ''XDG'' then ''DOGE'' else if name = ''ETH2'' then ''ETH'' else name)"

definition normalize_asset :: "string \<Rightarrow> (string, string) btree \<Rightarrow> string set \<Rightarrow> string" where
  "normalize_asset code altnames known = usual_ticker (wallet_base known (alt_name altnames code))"

definition is_locked_wallet :: "string \<Rightarrow> (string, string) btree \<Rightarrow> bool" where
  "is_locked_wallet code altnames =
     (case rsplit_once CHR ''.'' (alt_name altnames code) of None \<Rightarrow> False | Some (_, suffix) \<Rightarrow> is_wallet_suffix suffix)"

definition kraken_symbol :: "string \<Rightarrow> string \<Rightarrow> string" where
  "kraken_symbol base quote = base @ ''-'' @ quote"

definition QUOTES :: "string list" where
  "QUOTES = [''ZUSD'', ''ZEUR'', ''ZGBP'', ''ZCAD'', ''ZJPY'', ''ZAUD'', ''USDT'', ''USDC'', ''XXBT'', ''XETH'', ''XBT'', ''ETH'', ''USD'',
     ''EUR'', ''GBP'', ''CAD'', ''JPY'', ''AUD'', ''CHF'', ''DAI'', ''BTC'', ''DOT'']"

text \<open>\<open>max_by_key(len)\<close>: the last of the longest.\<close>

definition longest :: "string list \<Rightarrow> string option" where
  "longest xs = foldl (\<lambda>best x. case best of None \<Rightarrow> Some x | Some b \<Rightarrow> if length x \<ge> length b then Some x else Some b) None xs"

definition split_unlisted_pair :: "string \<Rightarrow> (string \<times> string) option" where
  "split_unlisted_pair name = map_option (\<lambda>quote. (take (length name - length quote) name, quote))
     (longest (filter (\<lambda>quote. length name > length quote \<and> ends_with name quote) QUOTES))"

section \<open>wire.rs\<close>

datatype kraken_reason = Said string | UnknownTradeType "string option" | NotJson string | NoResult | UnreadableBalance string

definition api_errors :: "jvalue \<Rightarrow> string list" where
  "api_errors body = (case Option.bind (jget ''error'' body) as_array of None \<Rightarrow> [] | Some errors \<Rightarrow> List.map_filter as_str errors)"

definition kraken_text :: "jvalue \<Rightarrow> string \<Rightarrow> string option" where
  "kraken_text v k = Option.bind (jget k v) (\<lambda>x. case x of
       VStr s \<Rightarrow> Some s | VInt n \<Rightarrow> Some (show_int n) | VFloat s \<Rightarrow> Some s | _ \<Rightarrow> None)"

definition text_or :: "string \<Rightarrow> jvalue \<Rightarrow> string \<Rightarrow> string" where
  "text_or d v k = (case kraken_text v k of None \<Rightarrow> d | Some s \<Rightarrow> s)"

fun as_object :: "jvalue \<Rightarrow> (string \<times> jvalue) list option" where
  "as_object (VObj kvs) = Some kvs"
| "as_object _ = None"

definition need :: "string \<Rightarrow> 'a option \<Rightarrow> kraken_reason + 'a" where
  "need reason x = ok_or (Said reason) x"

record pair_info =
  pi_key :: string
  pi_altname :: string
  pi_base :: string
  pi_quote :: string

definition parse_pair :: "string \<times> jvalue \<Rightarrow> kraken_reason + pair_info" where
  "parse_pair = (\<lambda>(key, pair).
     and_then (need ''a market had no altname'' (kraken_text pair ''altname'')) (\<lambda>altname.
     and_then (need ''a market had no base asset'' (kraken_text pair ''base'')) (\<lambda>base.
     and_then (need ''a market had no quote asset'' (kraken_text pair ''quote'')) (\<lambda>quote.
       Inr \<lparr>pi_key = key, pi_altname = altname, pi_base = base, pi_quote = quote\<rparr>))))"

definition parse_pairs :: "jvalue \<Rightarrow> kraken_reason + pair_info list" where
  "parse_pairs result = and_then (need ''the market list was not an object'' (as_object result)) (collect_res parse_pair)"

definition parse_assets :: "jvalue \<Rightarrow> kraken_reason + (string, string) btree" where
  "parse_assets result = and_then (need ''the asset list was not an object'' (as_object result)) (\<lambda>assets.
     Inr (foldl (\<lambda>m (code, info). case kraken_text info ''altname'' of None \<Rightarrow> m | Some alt \<Rightarrow> bt_insert code alt m) [] assets))"

record raw_balance =
  rb_code :: string
  rb_balance :: string
  rb_hold :: string

definition parse_balance :: "string \<times> jvalue \<Rightarrow> kraken_reason + raw_balance" where
  "parse_balance = (\<lambda>(code, entry). case entry of
       VStr whole' \<Rightarrow> Inr \<lparr>rb_code = code, rb_balance = whole', rb_hold = ''0''\<rparr>
     | VObj _ \<Rightarrow> and_then (need ''a balance had no amount'' (kraken_text entry ''balance'')) (\<lambda>balance.
         Inr \<lparr>rb_code = code, rb_balance = balance, rb_hold = text_or ''0'' entry ''hold_trade''\<rparr>)
     | _ \<Rightarrow> Inl (Said ''a balance was neither an amount nor an object''))"

definition parse_balances :: "jvalue \<Rightarrow> kraken_reason + raw_balance list" where
  "parse_balances result = and_then (need ''the balance response was not an object'' (as_object result)) (collect_res parse_balance)"

record raw_trade =
  rt_id :: string
  rt_order_id :: string
  rt_pair :: string
  rt_is_buy :: bool
  rt_price :: string
  rt_volume :: string
  rt_fee :: string
  rt_time_ms :: nat

text \<open>\<open>seconds_to_ms\<close> reads a floating-point number of seconds.\<close>

type_synonym seconds = "jvalue \<Rightarrow> nat option"

definition trade_side :: "jvalue \<Rightarrow> kraken_reason + bool" where
  "trade_side trade = (let side = kraken_text trade ''type'' in
     if side = Some ''buy'' then Inr True else if side = Some ''sell'' then Inr False else Inl (UnknownTradeType side))"

definition parse_raw_trade :: "seconds \<Rightarrow> string \<times> jvalue \<Rightarrow> kraken_reason + raw_trade" where
  "parse_raw_trade to_ms = (\<lambda>(id', trade).
     and_then (need ''a trade had no pair'' (kraken_text trade ''pair'')) (\<lambda>pair.
     and_then (trade_side trade) (\<lambda>is_buy.
     and_then (need ''a trade had no price'' (kraken_text trade ''price'')) (\<lambda>price.
     and_then (need ''a trade had no volume'' (kraken_text trade ''vol'')) (\<lambda>volume.
     and_then (need ''a trade had no readable time'' (Option.bind (jget ''time'' trade) to_ms)) (\<lambda>time_ms.
       Inr \<lparr>rt_id = id', rt_order_id = text_or [] trade ''ordertxid'', rt_pair = pair, rt_is_buy = is_buy, rt_price = price,
         rt_volume = volume, rt_fee = text_or ''0'' trade ''fee'', rt_time_ms = time_ms\<rparr>))))))"

text \<open>A page of results under a key, and the number there are in all.\<close>

definition parse_trades_history :: "seconds \<Rightarrow> jvalue \<Rightarrow> kraken_reason + raw_trade list \<times> nat" where
  "parse_trades_history to_ms result =
     and_then (need ''the trade history had no count'' (Option.bind (jget ''count'' result) as_u64)) (\<lambda>count.
     and_then (need ''the trade history had no trades'' (Option.bind (jget ''trades'' result) as_object)) (\<lambda>trades.
     and_then (collect_res (parse_raw_trade to_ms) trades) (\<lambda>out. Inr (out, count))))"

record raw_ledger_entry =
  rl_id :: string
  rl_refid :: string
  rl_time_ms :: nat
  rl_kind :: string
  rl_subtype :: string
  rl_asset :: string
  rl_amount :: string
  rl_fee :: string

definition parse_ledger_entry :: "seconds \<Rightarrow> string \<times> jvalue \<Rightarrow> kraken_reason + raw_ledger_entry" where
  "parse_ledger_entry to_ms = (\<lambda>(id', entry).
     and_then (need ''a ledger entry had no readable time'' (Option.bind (jget ''time'' entry) to_ms)) (\<lambda>time_ms.
     and_then (need ''a ledger entry had no type'' (kraken_text entry ''type'')) (\<lambda>kind.
     and_then (need ''a ledger entry had no asset'' (kraken_text entry ''asset'')) (\<lambda>asset.
     and_then (need ''a ledger entry had no amount'' (kraken_text entry ''amount'')) (\<lambda>amount.
       Inr \<lparr>rl_id = id', rl_refid = text_or [] entry ''refid'', rl_time_ms = time_ms, rl_kind = kind,
         rl_subtype = text_or [] entry ''subtype'', rl_asset = asset, rl_amount = amount, rl_fee = text_or ''0'' entry ''fee''\<rparr>)))))"

definition parse_ledgers :: "seconds \<Rightarrow> jvalue \<Rightarrow> kraken_reason + raw_ledger_entry list \<times> nat" where
  "parse_ledgers to_ms result =
     and_then (need ''the ledger had no count'' (Option.bind (jget ''count'' result) as_u64)) (\<lambda>count.
     and_then (need ''the ledger had no entries'' (Option.bind (jget ''ledger'' result) as_object)) (\<lambda>ledger.
     and_then (collect_res (parse_ledger_entry to_ms) ledger) (\<lambda>out. Inr (out, count))))"

text \<open>The first field that is not \<open>last\<close>, as a list.\<close>

definition series_of :: "(string \<times> jvalue) list \<Rightarrow> jvalue list option" where
  "series_of o' = Option.bind (find (\<lambda>(key, _). key \<noteq> ''last'') o') (\<lambda>(_, rows). as_array rows)"

definition nth_of :: "'a list \<Rightarrow> nat \<Rightarrow> 'a option" where
  "nth_of xs n = (if n < length xs then Some (xs ! n) else None)"

definition parse_candle :: "nat \<Rightarrow> jvalue \<Rightarrow> kraken_reason + raw_candle" where
  "parse_candle interval_ms row =
     and_then (need ''a candle was not a list'' (as_array row)) (\<lambda>row.
     and_then (need ''a candle had no open time'' (Option.bind (nth_of row 0) as_u64)) (\<lambda>open_secs.
     and_then (need ''a candle had no close'' (Option.bind (nth_of row 4) as_str)) (\<lambda>close.
       let open_time_ms = wrap_u64 (open_secs * 1000) in
       Inr \<lparr>rk_open_time_ms = open_time_ms, rk_close_price = close,
         rk_close_time_ms = wrap_u64 (open_time_ms + interval_ms + (2 ^ 64 - 1))\<rparr>)))"

definition parse_ohlc :: "jvalue \<Rightarrow> nat \<Rightarrow> kraken_reason + raw_candle list" where
  "parse_ohlc result interval_ms =
     and_then (need ''the candle response had no series'' (Option.bind (as_object result) series_of)) (collect_res (parse_candle interval_ms))"

record public_trade =
  pt_price :: string
  pt_time_ms :: nat

definition parse_public_trade :: "seconds \<Rightarrow> jvalue \<Rightarrow> kraken_reason + public_trade" where
  "parse_public_trade to_ms row =
     and_then (need ''a trade was not a list'' (as_array row)) (\<lambda>row.
     and_then (need ''a trade had no price'' (Option.bind (nth_of row 0) as_str)) (\<lambda>price.
     and_then (need ''a trade had no readable time'' (Option.bind (nth_of row 2) to_ms)) (\<lambda>time_ms.
       Inr \<lparr>pt_price = price, pt_time_ms = time_ms\<rparr>)))"

definition parse_public_trades :: "seconds \<Rightarrow> jvalue \<Rightarrow> kraken_reason + public_trade list \<times> string option" where
  "parse_public_trades to_ms result =
     and_then (need ''the trades response was not an object'' (as_object result)) (\<lambda>object.
     and_then (need ''the trades response had no series'' (series_of object)) (\<lambda>rows.
     and_then (collect_res (parse_public_trade to_ms) rows) (\<lambda>out.
       Inr (out, Option.bind (map_of object ''last'') as_str))))"

section \<open>auth.rs\<close>

datatype kraken_auth_error = EmptyKey | BadSecret

record kraken_credentials =
  kc_api_key :: string
  kc_secret :: bytes

record kraken_crypto =
  kq_decode :: "string \<Rightarrow> bytes option"
  kq_encode :: "bytes \<Rightarrow> string"
  kq_sha :: "bytes \<Rightarrow> bytes"
  kq_hmac :: "bytes \<Rightarrow> bytes \<Rightarrow> bytes"

definition new_credentials :: "kraken_crypto \<Rightarrow> string \<Rightarrow> string \<Rightarrow> kraken_auth_error + kraken_credentials" where
  "new_credentials Q api_key api_secret =
     (if trim api_key = [] then Inl EmptyKey
      else and_then (ok_or BadSecret (kq_decode Q (trim api_secret))) (\<lambda>secret.
        if secret = [] then Inl BadSecret else Inr \<lparr>kc_api_key = trim api_key, kc_secret = secret\<rparr>))"

definition kraken_sign :: "kraken_crypto \<Rightarrow> kraken_credentials \<Rightarrow> string \<Rightarrow> string \<Rightarrow> string \<Rightarrow> string" where
  "kraken_sign Q c path nonce post_data =
     kq_encode Q (kq_hmac Q (kc_secret c) (str_bytes path @ kq_sha Q (str_bytes nonce @ str_bytes post_data)))"

text \<open>One success of the exchange loop: the nonce given, which is the last one from then on.\<close>

definition next_nonce :: "nat \<Rightarrow> nat \<Rightarrow> nat" where
  "next_nonce micros last_nonce = max micros (wrap_u64 (last_nonce + 1))"

end
