(* ===== verification/KrakenClient.thy ===== *)
theory KrakenClient
  imports KrakenWire WalletPrices
begin

text \<open>
  services/collector/kraken/client, client.rs: the calls to the exchange, the check that a key can only read, and
  the reading of balances, trades, ledger and prices. A call threads the state of the client: the last nonce, the
  catalog once it is read, and how many times the clock and the network were asked, which is what their answers
  depend on beside the request. The pauses are left out. The outer \<open>None\<close> is a panic or a loop that does not end.
\<close>

section \<open>Calls\<close>

definition RATE_LIMIT_RETRIES :: nat where "RATE_LIMIT_RETRIES = 3"
definition NONCE_RETRIES :: nat where "NONCE_RETRIES = 8"
definition MAX_CANDLES :: nat where "MAX_CANDLES = 720"
definition KRAKEN_QUOTE :: string where "KRAKEN_QUOTE = ''USD''"

datatype kraken_error =
    KNetwork string
  | KApi string string
  | KUnexpected string kraken_reason
  | KBadKey
  | KMissingPermission string string
  | KNotReadOnly string
  | KUnverifiable string
  | KUnknownMarket string

record kraken_trade =
  kt_id :: string
  kt_order_id :: string
  kt_symbol :: string
  kt_base :: string
  kt_quote :: string
  kt_is_buy :: bool
  kt_price :: string
  kt_volume :: string
  kt_fee :: string
  kt_time_ms :: nat

record ledger_entry =
  le_id :: string
  le_refid :: string
  le_time_ms :: nat
  le_kind :: string
  le_subtype :: string
  le_asset :: string
  le_amount :: string
  le_fee :: string

record kraken_catalog =
  kg_altnames :: "(string, string) btree"
  kg_known :: "string set"
  kg_markets :: "string \<Rightarrow> pair_info option"
  kg_by_name :: "string \<Rightarrow> string option"

definition catalog_asset :: "kraken_catalog \<Rightarrow> string \<Rightarrow> string" where
  "catalog_asset C code = normalize_asset code (kg_altnames C) (kg_known C)"

record kraken_client =
  kl_base_url :: string
  kl_credentials :: kraken_credentials

datatype kraken_request = Get string "(string \<times> string) list" | Post string string string string

record kraken_env =
  kv_crypto :: kraken_crypto
  kv_dec :: dec_env
  kv_seconds :: seconds
  kv_micros :: "nat \<Rightarrow> nat"
  kv_now_ms :: nat
  kv_send :: "nat \<Rightarrow> kraken_request \<Rightarrow> string + string \<times> string"
  kv_from_json :: "string \<Rightarrow> jvalue option"

record kraken_state =
  kz_last_nonce :: nat
  kz_clock :: nat
  kz_calls :: nat
  kz_catalog :: "kraken_catalog option"

type_synonym 'a kraken = "kraken_state \<Rightarrow> ((kraken_error + 'a) \<times> kraken_state) option"

definition kret :: "'a \<Rightarrow> 'a kraken" where "kret x s = Some (Inr x, s)"
definition klift :: "kraken_error + 'a \<Rightarrow> 'a kraken" where "klift r s = Some (r, s)"

definition kbind :: "'a kraken \<Rightarrow> ('a \<Rightarrow> 'b kraken) \<Rightarrow> 'b kraken" where
  "kbind m f s = Option.bind (m s) (\<lambda>(r, s'). case r of Inl e \<Rightarrow> Some (Inl e, s') | Inr x \<Rightarrow> f x s')"

definition unreserved :: "char \<Rightarrow> bool" where
  "unreserved c \<longleftrightarrow> is_digit c \<or> (65 :: nat) \<le> of_char c \<and> (of_char c :: nat) \<le> 90 \<or> (97 :: nat) \<le> of_char c \<and> (of_char c :: nat) \<le> 122 \<or>
     c \<in> {CHR ''-'', CHR ''_'', CHR ''.'', CHR ''~''}"

definition hex_upper :: "nat \<Rightarrow> char" where "hex_upper n = ''0123456789ABCDEF'' ! n"

definition form_encode :: "string \<Rightarrow> string" where
  "form_encode s = concat (map (\<lambda>c. if unreserved c then [c]
     else [CHR ''%'', hex_upper (of_char c div 16), hex_upper (of_char c mod 16)]) s)"

definition any_contains :: "string list \<Rightarrow> string list \<Rightarrow> bool" where
  "any_contains parts errors \<longleftrightarrow> (\<exists>e \<in> set errors. \<exists>p \<in> set parts. contains_text e p)"

definition is_denied :: "string list \<Rightarrow> bool" where "is_denied errors = any_contains [''Permission denied''] errors"
definition is_invalid_nonce :: "string list \<Rightarrow> bool" where "is_invalid_nonce errors = any_contains [''Invalid nonce''] errors"
definition is_rate_limited :: "string list \<Rightarrow> bool" where
  "is_rate_limited errors = any_contains [''Rate limit exceeded'', ''Too many requests'', ''Throttled''] errors"
definition is_bad_key :: "string list \<Rightarrow> bool" where "is_bad_key errors = any_contains [''Invalid key'', ''Invalid signature''] errors"

definition kraken_call :: "kraken_env \<Rightarrow> kraken_request \<Rightarrow> string \<Rightarrow> kraken_state \<Rightarrow> (kraken_error + jvalue) \<times> kraken_state" where
  "kraken_call V request path s =
     (and_then (map_err KNetwork (kv_send V (kz_calls s) request)) (\<lambda>(status, body).
        ok_or (KUnexpected path (NotJson status)) (kv_from_json V body)),
      s\<lparr>kz_calls := Suc (kz_calls s)\<rparr>)"

definition result_of :: "string \<Rightarrow> jvalue \<Rightarrow> kraken_error + jvalue" where
  "result_of path body = ok_or (KUnexpected path NoResult) (jget ''result'' body)"

definition api_refusal :: "string \<Rightarrow> string list \<Rightarrow> kraken_error" where
  "api_refusal path errors = KApi path (join_with '', '' errors)"

text \<open>A public call: how many more attempts there are after this one.\<close>

fun public_try :: "kraken_env \<Rightarrow> kraken_client \<Rightarrow> string \<Rightarrow> (string \<times> string) list \<Rightarrow> nat \<Rightarrow> kraken_state \<Rightarrow> (kraken_error + jvalue) \<times> kraken_state" where
  "public_try V K path query left' s =
     (let (answer, s) = kraken_call V (Get (kl_base_url K @ path) query) path s in
      case answer of Inl e \<Rightarrow> (Inl e, s)
      | Inr body \<Rightarrow> let errors = api_errors body in
          if errors = [] then (result_of path body, s)
          else if is_rate_limited errors \<and> left' > 0 then public_try V K path query (left' - 1) s
          else (Inl (api_refusal path errors), s))"

definition kraken_public :: "kraken_env \<Rightarrow> kraken_client \<Rightarrow> string \<Rightarrow> (string \<times> string) list \<Rightarrow> jvalue kraken" where
  "kraken_public V K path query s = Some (public_try V K path query RATE_LIMIT_RETRIES s)"

definition take_nonce :: "kraken_env \<Rightarrow> kraken_state \<Rightarrow> nat \<times> kraken_state" where
  "take_nonce V s = (let nonce = next_nonce (kv_micros V (kz_clock s)) (kz_last_nonce s) in
     (nonce, s\<lparr>kz_last_nonce := nonce, kz_clock := Suc (kz_clock s)\<rparr>))"

definition post_data :: "nat \<Rightarrow> (string \<times> string) list \<Rightarrow> string" where
  "post_data nonce params = ''nonce='' @ show_nat nonce @ concat (map (\<lambda>(k, v). ''&'' @ k @ ''='' @ form_encode v) params)"

definition post_request :: "kraken_env \<Rightarrow> kraken_client \<Rightarrow> string \<Rightarrow> (string \<times> string) list \<Rightarrow> nat \<Rightarrow> kraken_request" where
  "post_request V K path params nonce =
     Post (kl_base_url K @ path) (kc_api_key (kl_credentials K))
       (kraken_sign (kv_crypto V) (kl_credentials K) path (show_nat nonce) (post_data nonce params)) (post_data nonce params)"

text \<open>A private call, after some refusals for the rate and for the nonce. The pause after a nonce draws another one.\<close>

function private_try ::
    "kraken_env \<Rightarrow> kraken_client \<Rightarrow> string \<Rightarrow> (string \<times> string) list \<Rightarrow> nat \<Rightarrow> nat \<Rightarrow> kraken_state \<Rightarrow>
     (kraken_error + string list \<times> jvalue) \<times> kraken_state" where
  "private_try V K path params rate_limited nonce_refused s =
     (let (nonce, s) = take_nonce V s; (answer, s) = kraken_call V (post_request V K path params nonce) path s in
      case answer of Inl e \<Rightarrow> (Inl e, s)
      | Inr body \<Rightarrow>
          if is_rate_limited (api_errors body) \<and> rate_limited < RATE_LIMIT_RETRIES
          then private_try V K path params (Suc rate_limited) nonce_refused s
          else if is_invalid_nonce (api_errors body) \<and> nonce_refused < NONCE_RETRIES
          then private_try V K path params rate_limited (Suc nonce_refused) (snd (take_nonce V s))
          else (Inr (api_errors body, body), s))"
  by pat_completeness auto
termination by (relation "measure (\<lambda>(V, K, path, params, r, n, s). (RATE_LIMIT_RETRIES - r) + (NONCE_RETRIES - n))") auto

declare private_try.simps [simp del] public_try.simps [simp del]

definition private_raw :: "kraken_env \<Rightarrow> kraken_client \<Rightarrow> string \<Rightarrow> (string \<times> string) list \<Rightarrow> (string list \<times> jvalue) kraken" where
  "private_raw V K path params s = Some (private_try V K path params 0 0 s)"

definition kraken_private :: "kraken_env \<Rightarrow> kraken_client \<Rightarrow> string \<Rightarrow> (string \<times> string) list \<Rightarrow> jvalue kraken" where
  "kraken_private V K path params = kbind (private_raw V K path params) (\<lambda>(errors, body).
     klift (if errors = [] then result_of path body else if is_bad_key errors then Inl KBadKey else Inl (api_refusal path errors)))"

definition expected :: "string \<Rightarrow> kraken_reason + 'a \<Rightarrow> kraken_error + 'a" where
  "expected path r = map_err (KUnexpected path) r"

section \<open>Names\<close>

definition add_market :: "kraken_catalog \<Rightarrow> pair_info \<Rightarrow> kraken_catalog" where
  "add_market C pair = (let symbol = kraken_symbol (catalog_asset C (pi_base pair)) (catalog_asset C (pi_quote pair)) in
     C\<lparr>kg_by_name := (kg_by_name C)(pi_key pair \<mapsto> symbol, pi_altname pair \<mapsto> symbol),
       kg_markets := (case kg_markets C symbol of None \<Rightarrow> (kg_markets C)(symbol \<mapsto> pair) | Some _ \<Rightarrow> kg_markets C)\<rparr>)"

definition new_catalog :: "(string, string) btree \<Rightarrow> pair_info list \<Rightarrow> kraken_catalog" where
  "new_catalog assets pairs = foldl add_market
     \<lparr>kg_altnames = assets, kg_known = snd ` set assets, kg_markets = Map.empty, kg_by_name = Map.empty\<rparr> pairs"

definition kraken_catalog_of :: "kraken_env \<Rightarrow> kraken_client \<Rightarrow> kraken_catalog kraken" where
  "kraken_catalog_of V K s = (case kz_catalog s of
       Some C \<Rightarrow> Some (Inr C, s)
     | None \<Rightarrow>
         kbind (kraken_public V K ''/0/public/Assets'' []) (\<lambda>a.
         kbind (klift (expected ''/0/public/Assets'' (parse_assets a))) (\<lambda>assets.
         kbind (kraken_public V K ''/0/public/AssetPairs'' []) (\<lambda>p.
         kbind (klift (expected ''/0/public/AssetPairs'' (parse_pairs p))) (\<lambda>pairs s.
           let C = new_catalog assets pairs in Some (Inr C, s\<lparr>kz_catalog := Some C\<rparr>))))) s)"

text \<open>\<open>None\<close>: a symbol of the catalog without its dash.\<close>

definition resolve_market :: "kraken_catalog \<Rightarrow> string \<Rightarrow> (kraken_error + string \<times> string \<times> string) option" where
  "resolve_market C name = (case kg_by_name C name of
       Some symbol \<Rightarrow> map_option (\<lambda>(base, quote). Inr (symbol, base, quote)) (split_once CHR ''-'' symbol)
     | None \<Rightarrow> Some (and_then (ok_or (KUnknownMarket name) (split_unlisted_pair name)) (\<lambda>(base, quote).
         let base = catalog_asset C base; quote = catalog_asset C quote in Inr (kraken_symbol base quote, base, quote))))"

section \<open>The key\<close>

definition with_base_url :: "kraken_credentials \<Rightarrow> string \<Rightarrow> kraken_client" where
  "with_base_url credentials base_url = \<lparr>kl_base_url = base_url, kl_credentials = credentials\<rparr>"

definition require_permission ::
    "kraken_env \<Rightarrow> kraken_client \<Rightarrow> string \<Rightarrow> string \<Rightarrow> (string \<times> string) list \<Rightarrow> unit kraken" where
  "require_permission V K permission path params = kbind (private_raw V K path params) (\<lambda>(errors, _).
     klift (if errors = [] then Inr ()
       else if is_denied errors then Inl (KMissingPermission permission (join_with '', '' errors))
       else if is_bad_key errors then Inl KBadKey else Inl (api_refusal path errors)))"

datatype key_probe = Denied | Allowed | Unclear string

definition probe_key :: "kraken_env \<Rightarrow> kraken_client \<Rightarrow> string \<Rightarrow> (string \<times> string) list \<Rightarrow> string \<Rightarrow> key_probe kraken" where
  "probe_key V K path params own_prefix = kbind (private_raw V K path params) (\<lambda>(errors, _).
     kret (if errors = [] then Allowed else if is_denied errors then Denied
       else if list_all (\<lambda>e. starts_with e own_prefix) errors then Allowed else Unclear (join_with '', '' errors)))"

text \<open>The names of the permissions; the typographic quotes of the messages are plain here.\<close>

definition ensure_can_read :: "kraken_env \<Rightarrow> kraken_client \<Rightarrow> unit kraken" where
  "ensure_can_read V K =
     kbind (require_permission V K ''Query funds (under Funds)'' ''/0/private/BalanceEx'' []) (\<lambda>_.
     kbind (require_permission V K
       ''query trades: tick Query open orders & trades and Query closed orders & trades (under Orders and trades)''
       ''/0/private/TradesHistory'' [(''ofs'', ''0'')]) (\<lambda>_.
     require_permission V K ''Query ledger entries (under Data)'' ''/0/private/Ledgers'' [(''ofs'', ''0'')]))"

definition test_order :: "(string \<times> string) list" where
  "test_order = [(''pair'', ''XBTUSD''), (''type'', ''buy''), (''ordertype'', ''limit''), (''price'', ''1''), (''volume'', ''0.0001''),
     (''validate'', ''true'')]"

definition withdraw_quote :: "(string \<times> string) list" where
  "withdraw_quote = [(''asset'', ''XBT''), (''key'', ''linvesther-check''), (''amount'', ''0.001'')]"

definition probe_verdict :: "string \<Rightarrow> key_probe \<Rightarrow> kraken_error + unit" where
  "probe_verdict what verdict = (case verdict of
       Denied \<Rightarrow> Inr () | Allowed \<Rightarrow> Inl (KNotReadOnly what) | Unclear said \<Rightarrow> Inl (KUnverifiable said))"

definition ensure_cannot_write :: "kraken_env \<Rightarrow> kraken_client \<Rightarrow> unit kraken" where
  "ensure_cannot_write V K =
     kbind (probe_key V K ''/0/private/AddOrder'' test_order ''EOrder:'') (\<lambda>order.
     kbind (klift (probe_verdict ''it can place orders'' order)) (\<lambda>_.
     kbind (probe_key V K ''/0/private/WithdrawMethods'' [] ''EFunding:'') (\<lambda>listed.
     kbind (case listed of Unclear _ \<Rightarrow> probe_key V K ''/0/private/WithdrawInfo'' withdraw_quote ''EFunding:''
       | answered \<Rightarrow> kret answered) (\<lambda>verdict.
     klift (probe_verdict ''it can withdraw funds'' verdict)))))"

definition kraken_ensure_read_only :: "kraken_env \<Rightarrow> kraken_client \<Rightarrow> unit kraken" where
  "kraken_ensure_read_only V K = kbind (ensure_can_read V K) (\<lambda>_. ensure_cannot_write V K)"

section \<open>The account\<close>

definition merge_balance ::
    "kraken_env \<Rightarrow> kraken_catalog \<Rightarrow> kraken_error + (string, decimal \<times> decimal) btree \<Rightarrow> raw_balance \<Rightarrow>
     (kraken_error + (string, decimal \<times> decimal) btree) option" where
  "merge_balance V C m b =
     (let E = kv_dec V; A = de_arith E; unreadable = KUnexpected ''/0/private/BalanceEx'' (UnreadableBalance (rb_code b)) in
      and_thenp (Some m) (\<lambda>m.
      and_thenp (Some (ok_or unreadable (de_parse E (rb_balance b)))) (\<lambda>total'.
      let hold = (case de_parse E (rb_hold b) of None \<Rightarrow> 0 | Some h \<Rightarrow> h) in
      Option.bind (if is_locked_wallet (rb_code b) (kg_altnames C) then Some (0, total')
        else map_option (\<lambda>free. (free, hold)) (dsub A total' hold)) (\<lambda>(free, locked).
      let asset = catalog_asset C (rb_code b);
          held = (case map_of m asset of None \<Rightarrow> (0, 0) | Some e \<Rightarrow> e) in
      Option.bind (dadd A (fst held) free) (\<lambda>f. Option.bind (dadd A (snd held) locked) (\<lambda>l.
        Some (Inr (bt_insert asset (f, l) m))))))))"

definition kraken_balances :: "kraken_env \<Rightarrow> kraken_client \<Rightarrow> account_balance list kraken" where
  "kraken_balances V K =
     kbind (kraken_private V K ''/0/private/BalanceEx'' []) (\<lambda>body.
     kbind (klift (expected ''/0/private/BalanceEx'' (parse_balances body))) (\<lambda>raw.
     kbind (kraken_catalog_of V K) (\<lambda>C s.
       Option.bind (try_fold (merge_balance V C) (Inr []) raw) (\<lambda>merged.
         Some (and_then merged (\<lambda>m. Inr (map (\<lambda>(asset, free, locked).
           \<lparr>ab_asset = asset, ab_free = de_show (kv_dec V) free, ab_locked = de_show (kv_dec V) locked\<rparr>) m)), s)))))"

text \<open>
  The listing of trades and of the ledger: page after page from an offset, until one is empty or all were given.
  The argument asks for the page at an offset: what it holds, and how many there are in all.
\<close>

partial_function (option) pages_until ::
    "(nat \<Rightarrow> kraken_state \<Rightarrow> ((kraken_error + 'a list \<times> nat) \<times> kraken_state) option) \<Rightarrow> nat \<Rightarrow> 'a list \<Rightarrow> kraken_state \<Rightarrow>
     ((kraken_error + 'a list) \<times> kraken_state) option" where
  "pages_until ask offset out s =
     Option.bind (ask offset s) (\<lambda>(r, s'). case r of Inl e \<Rightarrow> Some (Inl e, s')
       | Inr (page, total') \<Rightarrow>
           let fetched = length page; offset' = wrap_u64 (offset + fetched) in
           if fetched = 0 \<or> offset' \<ge> total' then Some (Inr (out @ page), s')
           else pages_until ask offset' (out @ page) s')"

definition start_of :: "nat \<Rightarrow> string" where "start_of since_ms = show_nat (since_ms div 1000 - 1)"

text \<open>The translation of a page happens before the next is asked for; its first unknown market is the error.\<close>

definition trade_of :: "kraken_catalog \<Rightarrow> raw_trade \<Rightarrow> (kraken_error + kraken_trade) option" where
  "trade_of C t = map_option (\<lambda>r. and_then r (\<lambda>(symbol, base, quote). Inr
     \<lparr>kt_id = rt_id t, kt_order_id = rt_order_id t, kt_symbol = symbol, kt_base = base, kt_quote = quote, kt_is_buy = rt_is_buy t,
      kt_price = rt_price t, kt_volume = rt_volume t, kt_fee = rt_fee t, kt_time_ms = rt_time_ms t\<rparr>)) (resolve_market C (rt_pair t))"

fun trades_of :: "kraken_catalog \<Rightarrow> raw_trade list \<Rightarrow> (kraken_error + kraken_trade list) option" where
  "trades_of C [] = Some (Inr [])"
| "trades_of C (t # ts) = and_thenp (trade_of C t) (\<lambda>x. and_thenp (trades_of C ts) (\<lambda>xs. Some (Inr (x # xs))))"

definition trades_page :: "kraken_env \<Rightarrow> kraken_client \<Rightarrow> kraken_catalog \<Rightarrow> string \<Rightarrow> nat \<Rightarrow> (kraken_trade list \<times> nat) kraken" where
  "trades_page V K C start offset =
     kbind (kraken_private V K ''/0/private/TradesHistory''
       [(''type'', ''all''), (''trades'', ''false''), (''start'', start), (''ofs'', show_nat offset)]) (\<lambda>result.
     kbind (klift (expected ''/0/private/TradesHistory'' (parse_trades_history (kv_seconds V) result))) (\<lambda>(page, total') s.
       map_option (\<lambda>r. (and_then r (\<lambda>ts. Inr (ts, total')), s)) (trades_of C page)))"

definition kraken_trades_since :: "kraken_env \<Rightarrow> kraken_client \<Rightarrow> nat \<Rightarrow> kraken_trade list kraken" where
  "kraken_trades_since V K since_ms =
     kbind (kraken_catalog_of V K) (\<lambda>C.
     kbind (pages_until (trades_page V K C (start_of since_ms)) 0 []) (\<lambda>out.
       kret (sort_key (\<lambda>t. (kt_time_ms t, kt_id t)) out)))"

definition ledger_page :: "kraken_env \<Rightarrow> kraken_client \<Rightarrow> string \<Rightarrow> nat \<Rightarrow> (raw_ledger_entry list \<times> nat) kraken" where
  "ledger_page V K start offset =
     kbind (kraken_private V K ''/0/private/Ledgers'' [(''start'', start), (''ofs'', show_nat offset)]) (\<lambda>result.
       klift (expected ''/0/private/Ledgers'' (parse_ledgers (kv_seconds V) result)))"

definition entry_of :: "kraken_catalog \<Rightarrow> raw_ledger_entry \<Rightarrow> ledger_entry" where
  "entry_of C e = \<lparr>le_id = rl_id e, le_refid = rl_refid e, le_time_ms = rl_time_ms e, le_kind = rl_kind e, le_subtype = rl_subtype e,
     le_asset = catalog_asset C (rl_asset e), le_amount = rl_amount e, le_fee = rl_fee e\<rparr>"

definition kraken_ledger_since :: "kraken_env \<Rightarrow> kraken_client \<Rightarrow> nat \<Rightarrow> ledger_entry list kraken" where
  "kraken_ledger_since V K since_ms =
     kbind (kraken_catalog_of V K) (\<lambda>C.
     kbind (pages_until (ledger_page V K (start_of since_ms)) 0 []) (\<lambda>out.
       kret (sort_key (\<lambda>e. (le_time_ms e, le_id e)) (map (entry_of C) out))))"

section \<open>Prices\<close>

definition kraken_market :: "kraken_env \<Rightarrow> kraken_client \<Rightarrow> string \<Rightarrow> pair_info kraken" where
  "kraken_market V K symbol = kbind (kraken_catalog_of V K) (\<lambda>C. klift (ok_or (KUnknownMarket symbol) (kg_markets C symbol)))"

definition kraken_ohlc :: "kraken_env \<Rightarrow> kraken_client \<Rightarrow> string \<Rightarrow> nat \<Rightarrow> nat \<Rightarrow> raw_candle list kraken" where
  "kraken_ohlc V K pair minutes since_secs =
     kbind (kraken_public V K ''/0/public/OHLC'' [(''pair'', pair), (''interval'', show_nat minutes), (''since'', show_nat since_secs)]) (\<lambda>result.
       klift (expected ''/0/public/OHLC'' (parse_ohlc result (minutes * 60000))))"

text \<open>The last price of a page at or before an instant, and whether the page goes past it.\<close>

fun price_in :: "nat \<Rightarrow> string option \<Rightarrow> public_trade list \<Rightarrow> string option \<times> bool" where
  "price_in at_ms price [] = (price, False)"
| "price_in at_ms price (t # ts) = (if pt_time_ms t \<le> at_ms then price_in at_ms (Some (pt_price t)) ts else (price, True))"

definition trades_from ::
    "kraken_env \<Rightarrow> kraken_client \<Rightarrow> string \<Rightarrow> string \<Rightarrow> (public_trade list \<times> string option) kraken" where
  "trades_from V K pair cursor =
     kbind (kraken_public V K ''/0/public/Trades'' [(''pair'', pair), (''since'', cursor), (''count'', ''1000'')]) (\<lambda>result.
       klift (expected ''/0/public/Trades'' (parse_public_trades (kv_seconds V) result)))"

partial_function (option) price_pages ::
    "kraken_env \<Rightarrow> kraken_client \<Rightarrow> string \<Rightarrow> nat \<Rightarrow> string \<Rightarrow> string option \<Rightarrow> kraken_state \<Rightarrow>
     ((kraken_error + string option) \<times> kraken_state) option" where
  "price_pages V K pair at_ms cursor price s =
     Option.bind (trades_from V K pair cursor s) (\<lambda>(r, s'). case r of Inl e \<Rightarrow> Some (Inl e, s')
       | Inr (trades, next') \<Rightarrow>
           let (price, passed) = price_in at_ms price trades in
           case next' of
             None \<Rightarrow> Some (Inr price, s')
           | Some n \<Rightarrow> if \<not> passed \<and> length trades \<ge> 1000 \<and> n \<noteq> cursor then price_pages V K pair at_ms n price s'
               else Some (Inr price, s'))"

text \<open>Ever wider windows before the instant, up to two weeks.\<close>

partial_function (option) price_windows ::
    "kraken_env \<Rightarrow> kraken_client \<Rightarrow> string \<Rightarrow> nat \<Rightarrow> nat \<Rightarrow> kraken_state \<Rightarrow> ((kraken_error + decimal option) \<times> kraken_state) option" where
  "price_windows V K pair at_ms window_ms s =
     (if window_ms > 14 * 24 * 3600000 then Some (Inr None, s)
      else Option.bind (price_pages V K pair at_ms (show_nat ((at_ms - window_ms) * 1000000)) None s) (\<lambda>(r, s'). case r of
        Inl e \<Rightarrow> Some (Inl e, s')
      | Inr (Some price) \<Rightarrow> Some (Inr (de_parse (kv_dec V) price), s')
      | Inr None \<Rightarrow> price_windows V K pair at_ms (wrap_u64 (window_ms * 4)) s'))"

definition price_from_trades :: "kraken_env \<Rightarrow> kraken_client \<Rightarrow> string \<Rightarrow> nat \<Rightarrow> decimal option kraken" where
  "price_from_trades V K pair at_ms = price_windows V K pair at_ms 60000"

definition native_interval :: "nat \<Rightarrow> market_error + nat \<times> nat" where
  "native_interval interval_ms =
     (if interval_ms = 60000 then Inr (1, 1) else if interval_ms = 300000 then Inr (5, 1)
      else if interval_ms = 900000 then Inr (15, 1) else if interval_ms = 1800000 then Inr (30, 1)
      else if interval_ms = 3600000 then Inr (60, 1) else if interval_ms = 7200000 then Inr (60, 2)
      else if interval_ms = 86400000 then Inr (1440, 1)
      else Inl (MarketError (''no Kraken candle size of '' @ show_nat interval_ms @ '' ms'')))"

text \<open>The candles joined so far, the last one first.\<close>

definition join_candle :: "nat \<Rightarrow> raw_candle list \<Rightarrow> raw_candle \<Rightarrow> raw_candle list" where
  "join_candle interval_ms out c =
     (let bucket = rk_open_time_ms c - rk_open_time_ms c mod interval_ms;
          fresh = \<lparr>rk_open_time_ms = bucket, rk_close_price = rk_close_price c,
            rk_close_time_ms = wrap_u64 (bucket + interval_ms + (2 ^ 64 - 1))\<rparr> in
      case out of
        l # earlier \<Rightarrow> if rk_open_time_ms l = bucket then l\<lparr>rk_close_price := rk_close_price c\<rparr> # earlier else fresh # out
      | [] \<Rightarrow> [fresh])"

definition aggregate_candles :: "raw_candle list \<Rightarrow> nat \<Rightarrow> raw_candle list" where
  "aggregate_candles candles interval_ms = rev (foldl (join_candle interval_ms) [] candles)"

section \<open>MarketData\<close>

text \<open>The messages; how an optional text is shown for debugging is the first argument.\<close>

fun reason_text :: "(string option \<Rightarrow> string) \<Rightarrow> kraken_reason \<Rightarrow> string" where
  "reason_text shown (Said s) = s"
| "reason_text shown (UnknownTradeType t) = ''a trade had an unknown type '' @ shown t"
| "reason_text shown (NotJson status) = ''answered '' @ status @ '' with something that is not JSON''"
| "reason_text shown NoResult = ''no result''"
| "reason_text shown (UnreadableBalance code) = code @ '' had an unreadable balance''"

fun kraken_error_text :: "(string option \<Rightarrow> string) \<Rightarrow> kraken_error \<Rightarrow> string" where
  "kraken_error_text shown (KNetwork s) = ''could not reach Kraken: '' @ s"
| "kraken_error_text shown (KApi path errors) = ''Kraken refused '' @ path @ '': '' @ errors"
| "kraken_error_text shown (KUnexpected path r) = ''Kraken sent something unexpected for '' @ path @ '': '' @ reason_text shown r"
| "kraken_error_text shown KBadKey =
    ''Kraken did not accept this API key. Check that the key and the secret were copied whole.''"
| "kraken_error_text shown (KMissingPermission p said) = ''this API key cannot '' @ p @ '', so Kraken refused it ('' @ said @
    ''). Edit the key at Kraken and tick that permission, or create a new key.''"
| "kraken_error_text shown (KNotReadOnly s) =
    ''this API key can do more than read: '' @ s @ ''. Create a key with only the query permissions.''"
| "kraken_error_text shown (KUnverifiable s) = ''could not confirm this key is read-only, so it was not accepted ('' @ s @ '')''"
| "kraken_error_text shown (KUnknownMarket s) = ''Kraken trade history names a market this account cannot resolve: '' @ s"

type_synonym 'a kraken_data = "kraken_state \<Rightarrow> ((market_error + 'a) \<times> kraken_state) option"

definition as_market :: "(string option \<Rightarrow> string) \<Rightarrow> 'a kraken \<Rightarrow> 'a kraken_data" where
  "as_market shown m s = map_option (\<lambda>(r, s). (map_err (\<lambda>e. MarketError (kraken_error_text shown e)) r, s)) (m s)"

definition mbind :: "'a kraken_data \<Rightarrow> ('a \<Rightarrow> 'b kraken_data) \<Rightarrow> 'b kraken_data" where
  "mbind m f s = Option.bind (m s) (\<lambda>(r, s'). case r of Inl e \<Rightarrow> Some (Inl e, s') | Inr x \<Rightarrow> f x s')"

definition kraken_symbol_assets_for ::
    "(string option \<Rightarrow> string) \<Rightarrow> kraken_env \<Rightarrow> kraken_client \<Rightarrow> string set \<Rightarrow> symbol_assets kraken_data" where
  "kraken_symbol_assets_for shown V K symbols = as_market shown (kbind (kraken_catalog_of V K) (\<lambda>C. kret (\<lambda>symbol.
     if symbol \<in> symbols then map_option (\<lambda>p. (catalog_asset C (pi_base p), catalog_asset C (pi_quote p))) (kg_markets C symbol) else None)))"

definition span_check :: "string \<Rightarrow> nat \<Rightarrow> nat \<Rightarrow> nat \<Rightarrow> raw_candle list \<Rightarrow> market_error + raw_candle list" where
  "span_check symbol minutes interval_ms start_ms candles = (case candles of
       c # _ \<Rightarrow> if rk_open_time_ms c > wrap_u64 (start_ms + 2 * interval_ms)
         then Inl (MarketError (''Kraken only keeps the latest '' @ show_nat MAX_CANDLES @ '' candles of '' @ show_nat minutes @
           '' minutes for '' @ symbol @ '', and the range asked for starts before them''))
         else Inr candles
     | [] \<Rightarrow> Inr candles)"

definition kraken_candles_span ::
    "(string option \<Rightarrow> string) \<Rightarrow> kraken_env \<Rightarrow> kraken_client \<Rightarrow> string \<Rightarrow> nat \<Rightarrow> nat \<Rightarrow> nat \<Rightarrow> raw_candle list kraken_data" where
  "kraken_candles_span shown V K symbol interval_ms start_ms end_ms s = (case native_interval interval_ms of
       Inl e \<Rightarrow> Some (Inl e, s)
     | Inr (minutes, group') \<Rightarrow>
         mbind (as_market shown (kbind (kraken_market V K symbol) (\<lambda>pair. kraken_ohlc V K (pi_key pair) minutes (start_ms div 1000 - 1))))
           (\<lambda>raw s. Some (span_check symbol minutes interval_ms start_ms
             (filter (\<lambda>c. rk_open_time_ms c \<le> end_ms) (if group' > 1 then aggregate_candles raw interval_ms else raw)), s)) s)"

definition price_in_trades :: "(string option \<Rightarrow> string) \<Rightarrow> kraken_env \<Rightarrow> kraken_client \<Rightarrow> string \<Rightarrow> pair_info \<Rightarrow> nat \<Rightarrow> decimal kraken_data" where
  "price_in_trades shown V K symbol pair at_ms = mbind (as_market shown (price_from_trades V K (pi_key pair) at_ms)) (\<lambda>price s.
     Some (ok_or (MarketError (symbol @ '': no trade found by '' @ show_nat at_ms)) price, s))"

definition kraken_price_at_instant ::
    "(string option \<Rightarrow> string) \<Rightarrow> kraken_env \<Rightarrow> kraken_client \<Rightarrow> string \<Rightarrow> nat \<Rightarrow> decimal kraken_data" where
  "kraken_price_at_instant shown V K asset at_ms =
     (let symbol = kraken_symbol asset KRAKEN_QUOTE in
      mbind (as_market shown (kraken_market V K symbol)) (\<lambda>pair.
        if wrap_u64 (at_ms + 11 * 3600000) \<ge> kv_now_ms V
        then mbind (as_market shown (kraken_ohlc V K (pi_key pair) 1 (at_ms div 1000 - (6 * 60 + 1)))) (\<lambda>candles.
          case find (\<lambda>c. rk_close_time_ms c \<le> at_ms) (rev candles) of
            Some c \<Rightarrow> (\<lambda>s. Some (ok_or (MarketError (symbol @ '': invalid price '' @ rk_close_price c)) (de_parse (kv_dec V) (rk_close_price c)), s))
          | None \<Rightarrow> price_in_trades shown V K symbol pair at_ms)
        else price_in_trades shown V K symbol pair at_ms))"

section \<open>A key that is accepted can only read\<close>

lemma kbind_Inr: "kbind m f s = Some (Inr y, s') \<longleftrightarrow> (\<exists>x s1. m s = Some (Inr x, s1) \<and> f x s1 = Some (Inr y, s'))"
proof (cases "m s")
  case (Some p)
  then show ?thesis by (cases p; cases "fst p") (auto simp: kbind_def)
qed (simp add: kbind_def)

lemma klift_Inr: "klift r s = Some (Inr y, s') \<longleftrightarrow> r = Inr y \<and> s' = s" by (auto simp: klift_def)

lemma kret_Inr: "kret x s = Some (Inr y, s') \<longleftrightarrow> y = x \<and> s' = s" by (auto simp: kret_def)

lemmas kraken_steps = kbind_Inr klift_Inr kret_Inr

text \<open>The exchange answered a signed request for a path and parameters with a body.\<close>

definition answered :: "kraken_env \<Rightarrow> kraken_client \<Rightarrow> string \<Rightarrow> (string \<times> string) list \<Rightarrow> jvalue \<Rightarrow> bool" where
  "answered V K path params body \<longleftrightarrow> (\<exists>n c status msg.
     kv_send V c (post_request V K path params n) = Inr (status, msg) \<and> kv_from_json V msg = Some body)"

definition refused :: "kraken_env \<Rightarrow> kraken_client \<Rightarrow> string \<Rightarrow> (string \<times> string) list \<Rightarrow> bool" where
  "refused V K path params \<longleftrightarrow> (\<exists>body. answered V K path params body \<and> is_denied (api_errors body))"

definition served :: "kraken_env \<Rightarrow> kraken_client \<Rightarrow> string \<Rightarrow> (string \<times> string) list \<Rightarrow> bool" where
  "served V K path params \<longleftrightarrow> (\<exists>body. answered V K path params body \<and> api_errors body = [])"

lemma private_try_answer:
  "private_try V K path params r n s = (Inr (errors, body), s') \<Longrightarrow> answered V K path params body \<and> errors = api_errors body"
proof (induction V K path params r n s rule: private_try.induct)
  case (1 V K path params r n s)
  obtain nonce s1 where nonce: "take_nonce V s = (nonce, s1)" by (cases "take_nonce V s")
  obtain answer s2 where answer: "kraken_call V (post_request V K path params nonce) path s1 = (answer, s2)"
    by (cases "kraken_call V (post_request V K path params nonce) path s1")
  obtain b where b: "answer = Inr b" using "1.prems" by (subst (asm) private_try.simps) (auto simp: nonce answer split: sum.splits)
  show ?case
  proof (cases "is_rate_limited (api_errors b) \<and> r < RATE_LIMIT_RETRIES")
    case True
    have "private_try V K path params (Suc r) n s2 = (Inr (errors, body), s')"
      using "1.prems" True by (subst (asm) private_try.simps) (simp add: nonce answer b)
    then show ?thesis by (rule "1.IH"(1) [OF nonce [symmetric] refl answer [symmetric] refl b True])
  next
    case False
    show ?thesis
    proof (cases "is_invalid_nonce (api_errors b) \<and> n < NONCE_RETRIES")
      case True
      have "private_try V K path params r (Suc n) (snd (take_nonce V s2)) = (Inr (errors, body), s')"
        using "1.prems" True False by (subst (asm) private_try.simps) (auto simp: nonce answer b split: if_splits)
      then show ?thesis by (rule "1.IH"(2) [OF nonce [symmetric] refl answer [symmetric] refl b False True])
    next
      case inner: False
      have "errors = api_errors b \<and> body = b"
        using "1.prems" False inner by (subst (asm) private_try.simps) (auto simp: nonce answer b split: if_splits)
      moreover have "answered V K path params b"
        using answer b by (auto simp: answered_def kraken_call_def and_then_Inr map_err_Inr ok_or_Inr)
      ultimately show ?thesis by simp
    qed
  qed
qed

lemma private_raw_answer:
  "private_raw V K path params s = Some (Inr (errors, body), s') \<Longrightarrow> answered V K path params body \<and> errors = api_errors body"
  using private_try_answer by (simp add: private_raw_def)

lemma probe_denied: "probe_key V K path params p s = Some (Inr Denied, s') \<Longrightarrow> refused V K path params"
  using private_raw_answer unfolding probe_key_def kraken_steps refused_def
  by (fastforce simp: kret_Inr split: if_splits)

lemma required_served: "require_permission V K permission path params s = Some (Inr u, s') \<Longrightarrow> served V K path params"
  using private_raw_answer unfolding require_permission_def kraken_steps served_def
  by (fastforce simp: klift_Inr split: if_splits)

text \<open>
  C32. A key that is accepted can only read. Where the check of a key succeeds, the exchange served the balances,
  the trades and the ledger to it, refused it permission to place an order, and refused it permission to list
  the ways to withdraw or to price a withdrawal.
\<close>
theorem kraken_key_cannot_write:
  assumes "kraken_ensure_read_only V K s = Some (Inr (), s')"
  shows "served V K ''/0/private/BalanceEx'' [] \<and> served V K ''/0/private/TradesHistory'' [(''ofs'', ''0'')] \<and>
    served V K ''/0/private/Ledgers'' [(''ofs'', ''0'')] \<and> refused V K ''/0/private/AddOrder'' test_order \<and>
    (refused V K ''/0/private/WithdrawMethods'' [] \<or> refused V K ''/0/private/WithdrawInfo'' withdraw_quote)"
proof -
  obtain s1 where reads: "ensure_can_read V K s = Some (Inr (), s1)" and "ensure_cannot_write V K s1 = Some (Inr (), s')"
    using assms by (auto simp: kraken_ensure_read_only_def kraken_steps)
  then obtain order s2 listed s3 verdict s4 where order: "probe_key V K ''/0/private/AddOrder'' test_order ''EOrder:'' s1 = Some (Inr order, s2)"
      "probe_verdict ''it can place orders'' order = Inr ()"
    and listed: "probe_key V K ''/0/private/WithdrawMethods'' [] ''EFunding:'' s2 = Some (Inr listed, s3)"
    and verdict: "(case listed of Unclear _ \<Rightarrow> probe_key V K ''/0/private/WithdrawInfo'' withdraw_quote ''EFunding:''
       | told \<Rightarrow> kret told) s3 = Some (Inr verdict, s4)" "probe_verdict ''it can withdraw funds'' verdict = Inr ()"
    unfolding ensure_cannot_write_def kraken_steps by auto
  have denied: "order = Denied" "verdict = Denied" using order(2) verdict(2) by (auto simp: probe_verdict_def split: key_probe.splits)
  have "refused V K ''/0/private/WithdrawMethods'' [] \<or> refused V K ''/0/private/WithdrawInfo'' withdraw_quote"
    using listed verdict(1) denied probe_denied by (cases listed) (auto simp: kret_Inr)
  moreover have "served V K ''/0/private/BalanceEx'' [] \<and> served V K ''/0/private/TradesHistory'' [(''ofs'', ''0'')] \<and>
      served V K ''/0/private/Ledgers'' [(''ofs'', ''0'')]"
    using reads required_served unfolding ensure_can_read_def kraken_steps by blast
  ultimately show ?thesis using order(1) denied probe_denied by blast
qed

text \<open>A stand-in exchange that gives every call its answer by its path.\<close>

definition stand_in :: "(string \<Rightarrow> string) \<Rightarrow> (string \<Rightarrow> jvalue option) \<Rightarrow> kraken_env" where
  "stand_in answer parse = \<lparr>kv_crypto = \<lparr>kq_decode = (\<lambda>_. Some [0]), kq_encode = (\<lambda>_. []), kq_sha = (\<lambda>_. []), kq_hmac = (\<lambda>_ _. [])\<rparr>,
     kv_dec = \<lparr>de_arith = exact_arith, de_parse = (\<lambda>_. None), de_show = (\<lambda>_. [])\<rparr>,
     kv_seconds = (\<lambda>v. as_u64 v), kv_micros = (\<lambda>n. n), kv_now_ms = 0,
     kv_send = (\<lambda>_ request. Inr (''200 OK'', case request of Get url _ \<Rightarrow> answer url | Post url _ _ _ \<Rightarrow> answer url)), kv_from_json = parse\<rparr>"

definition kraken_sample :: kraken_client where
  "kraken_sample = with_base_url \<lparr>kc_api_key = ''k'', kc_secret = [0]\<rparr> []"

definition read_only_exchange :: kraken_env where
  "read_only_exchange = stand_in id (\<lambda>msg. Some (if msg \<in> {''/0/private/AddOrder'', ''/0/private/WithdrawMethods''}
     then VObj [(''error'', VArr [VStr ''EGeneral:Permission denied''])] else VObj [(''error'', VArr [])]))"

definition fresh_state :: kraken_state where
  "fresh_state = \<lparr>kz_last_nonce = 0, kz_clock = 0, kz_calls = 0, kz_catalog = None\<rparr>"

lemma stand_in_private:
  assumes "parse (answer (kl_base_url K @ path)) = Some body" and "\<not> is_rate_limited (api_errors body)" "\<not> is_invalid_nonce (api_errors body)"
  shows "\<exists>s'. private_raw (stand_in answer parse) K path params s = Some (Inr (api_errors body, body), s') \<and> kz_catalog s' = kz_catalog s"
  using assms by (auto simp: private_raw_def private_try.simps take_nonce_def kraken_call_def post_request_def Let_def stand_in_def
    split: prod.splits)

theorem kraken_key_cannot_write_witness:
  "\<exists>s'. kraken_ensure_read_only read_only_exchange kraken_sample fresh_state = Some (Inr (), s') \<and>
     refused read_only_exchange kraken_sample ''/0/private/AddOrder'' test_order"
proof -
  let ?ok = "VObj [(''error'', VArr [])]" and ?no = "VObj [(''error'', VArr [VStr ''EGeneral:Permission denied''])]"
  have e: "api_errors ?ok = []" "api_errors ?no = [''EGeneral:Permission denied'']" by (simp_all add: api_errors_def map_filter_simps)
  have plain: "\<not> is_rate_limited (api_errors ?ok)" "\<not> is_invalid_nonce (api_errors ?ok)" "\<not> is_rate_limited (api_errors ?no)"
      "\<not> is_invalid_nonce (api_errors ?no)" "is_denied (api_errors ?no)"
    by code_simp+
  have url: "kl_base_url kraken_sample = []" by (simp add: kraken_sample_def with_base_url_def)
  have raw: "\<exists>s'. private_raw read_only_exchange kraken_sample path params s = Some (Inr (api_errors b, b), s')"
    if "b = (if path \<in> {''/0/private/AddOrder'', ''/0/private/WithdrawMethods''} then ?no else ?ok)" for path params s b
  proof -
    have "\<not> is_rate_limited (api_errors b)" "\<not> is_invalid_nonce (api_errors b)" using that plain by (auto simp del: insert_iff)
    then show ?thesis using that url
      stand_in_private [of "kv_from_json read_only_exchange" id kraken_sample path b params s]
      by (auto simp: read_only_exchange_def stand_in_def)
  qed
  have ok: "\<exists>s'. require_permission read_only_exchange kraken_sample p path params s = Some (Inr (), s')"
    if path: "path \<notin> {''/0/private/AddOrder'', ''/0/private/WithdrawMethods''}" for p path params s
  proof -
    obtain s' where "private_raw read_only_exchange kraken_sample path params s = Some (Inr (api_errors ?ok, ?ok), s')"
      using raw [OF if_not_P [OF path, symmetric], of params s] by blast
    then show ?thesis unfolding require_permission_def kraken_steps e by (auto simp: klift_Inr)
  qed
  have no: "\<exists>s'. probe_key read_only_exchange kraken_sample path params prefix s = Some (Inr Denied, s')"
    if path: "path \<in> {''/0/private/AddOrder'', ''/0/private/WithdrawMethods''}" for path params prefix s
  proof -
    obtain s' where "private_raw read_only_exchange kraken_sample path params s = Some (Inr (api_errors ?no, ?no), s')"
      using raw [OF if_P [OF path, symmetric], of params s] by blast
    then have "probe_key read_only_exchange kraken_sample path params prefix s = Some (Inr Denied, s')"
      unfolding probe_key_def kraken_steps using plain(5) e(2) by (auto simp: kret_Inr)
    then show ?thesis ..
  qed
  have reads: "\<exists>s'. ensure_can_read read_only_exchange kraken_sample s = Some (Inr (), s')" for s
  proof -
    obtain s1 where 1: "require_permission read_only_exchange kraken_sample ''Query funds (under Funds)'' ''/0/private/BalanceEx'' [] s = Some (Inr (), s1)"
      using ok [of "''/0/private/BalanceEx''", simplified] by blast
    obtain s2 where 2: "require_permission read_only_exchange kraken_sample
       ''query trades: tick Query open orders & trades and Query closed orders & trades (under Orders and trades)''
       ''/0/private/TradesHistory'' [(''ofs'', ''0'')] s1 = Some (Inr (), s2)"
      using ok [of "''/0/private/TradesHistory''", simplified] by blast
    obtain s3 where 3: "require_permission read_only_exchange kraken_sample ''Query ledger entries (under Data)'' ''/0/private/Ledgers''
        [(''ofs'', ''0'')] s2 = Some (Inr (), s3)"
      using ok [of "''/0/private/Ledgers''", simplified] by blast
    show ?thesis unfolding ensure_can_read_def kraken_steps using 1 2 3 by blast
  qed
  have writes: "\<exists>s'. ensure_cannot_write read_only_exchange kraken_sample s = Some (Inr (), s')" for s
  proof -
    obtain s1 where 1: "probe_key read_only_exchange kraken_sample ''/0/private/AddOrder'' test_order ''EOrder:'' s = Some (Inr Denied, s1)"
      using no [of "''/0/private/AddOrder''", simplified] by blast
    obtain s2 where 2: "probe_key read_only_exchange kraken_sample ''/0/private/WithdrawMethods'' [] ''EFunding:'' s1 = Some (Inr Denied, s2)"
      using no [of "''/0/private/WithdrawMethods''", simplified] by blast
    have "ensure_cannot_write read_only_exchange kraken_sample s = Some (Inr (), s2)"
      by (simp add: ensure_cannot_write_def kbind_def 1 2 klift_def kret_def probe_verdict_def)
    then show ?thesis ..
  qed
  obtain s1 where 1: "ensure_can_read read_only_exchange kraken_sample fresh_state = Some (Inr (), s1)" using reads by blast
  obtain s2 where 2: "ensure_cannot_write read_only_exchange kraken_sample s1 = Some (Inr (), s2)" using writes by blast
  have "kraken_ensure_read_only read_only_exchange kraken_sample fresh_state = Some (Inr (), s2)"
    unfolding kraken_ensure_read_only_def kraken_steps using 1 2 by blast
  then show ?thesis using kraken_key_cannot_write by blast
qed

section \<open>The ledger is read whole\<close>

text \<open>An honest listing: at an offset it gives the next entries, at least one where there are any, and how many there are.\<close>

definition honest_listing :: "(nat \<Rightarrow> kraken_state \<Rightarrow> ((kraken_error + 'a list \<times> nat) \<times> kraken_state) option) \<Rightarrow> 'a list \<Rightarrow> bool" where
  "honest_listing ask L \<longleftrightarrow> (\<forall>offset s. offset = 0 \<or> offset < length L \<longrightarrow>
     (\<exists>n s'. ask offset s = Some (Inr (take n (List.drop offset L), length L), s') \<and> 0 < n))"

lemma pages_until_complete:
  assumes "honest_listing ask L" and "length L < 2 ^ 64"
  shows "offset = 0 \<or> offset < length L \<Longrightarrow> \<exists>s'. pages_until ask offset out s = Some (Inr (out @ List.drop offset L), s')"
proof (induction "length L - offset" arbitrary: offset out s rule: less_induct)
  case less
  obtain n s' where ask: "ask offset s = Some (Inr (take n (List.drop offset L), length L), s')" and n: "0 < n"
    using assms(1) less.prems unfolding honest_listing_def by blast
  let ?page = "take n (List.drop offset L)"
  have le: "offset \<le> length L" using less.prems by auto
  have fetched: "length ?page = min n (length L - offset)" by simp
  have wrap: "wrap_u64 (offset + length ?page) = offset + length ?page"
    using le assms(2) by (intro wrap_u_id) auto
  show ?case
  proof (cases "length ?page = 0 \<or> offset + length ?page \<ge> length L")
    case True
    then have whole: "?page = List.drop offset L" using n le by auto
    have "wrap_u64 (offset + (length L - offset)) = length L" using wrap le by (simp add: whole)
    then show ?thesis using le by (subst pages_until.simps) (simp add: ask whole)
  next
    case False
    then have "n < length L - offset" using fetched by (auto simp: min_def split: if_splits)
    then have step: "length ?page = n" "offset + n < length L" by simp_all
    obtain s'' where "pages_until ask (offset + n) (out @ ?page) s' = Some (Inr ((out @ ?page) @ List.drop (offset + n) L), s'')"
    proof -
      have "length L - (offset + n) < length L - offset" using step(2) n by simp
      from less.hyps [OF this, of "out @ ?page" s'] step(2) show ?thesis using that by blast
    qed
    moreover have "?page @ List.drop (offset + n) L = List.drop offset L"
      by (metis append_take_drop_id drop_drop add.commute)
    moreover have "min (length L - offset) n = n" using step(2) by simp
    ultimately show ?thesis using False wrap by (subst pages_until.simps) (simp add: ask)
  qed
qed


definition one_line_exchange :: kraken_env where
  "one_line_exchange = stand_in id (\<lambda>_. Some (VObj [(''error'', VArr []), (''result'', VObj [(''count'', VInt 1), (''ledger'', VObj [(''L1'',
     VObj [(''time'', VInt 7), (''type'', VStr ''deposit''), (''asset'', VStr ''ZUSD''), (''amount'', VStr ''5'')])])])]))"

definition sample_catalog :: kraken_catalog where
  "sample_catalog = new_catalog [(''ZUSD'', ''USD'')] []"


end
