(* ===== verification/KrakenWorker.thy ===== *)
theory KrakenWorker
  imports KrakenClient CoinbaseWorker
begin

text \<open>
  services/collector/binance/worker, kraken.rs: the tables of the Kraken connections, a sync, and the trades and
  flows the engine reads from what is stored. The tables are maps from their primary keys and a statement is
  one step; which of the statements of a sync fail, and the moment of the database, are arguments. The outer \<open>None\<close> is a panic, or a
  listing that does not end.
\<close>

section \<open>The tables\<close>

record kraken_connection =
  kn_id :: string
  kn_account_id :: string
  kn_encrypted_api_key :: bytes
  kn_nonce_api_key :: bytes
  kn_encrypted_api_secret :: bytes
  kn_nonce_api_secret :: bytes
  kn_label :: "string option"
  kn_status :: string
  kn_created_at_ms :: nat
  kn_last_synced_at :: "nat option"
  kn_verified_read_only_at :: "nat option"

datatype stored_key_fault = CorruptApiKey | CorruptApiSecret | StoredKeyCrypto crypto_error | StoredKeyAuth kraken_auth_error

definition stored_credentials :: "crypto_env \<Rightarrow> kraken_crypto \<Rightarrow> master_key \<Rightarrow> kraken_connection \<Rightarrow> stored_key_fault + kraken_credentials" where
  "stored_credentials V Q key c =
     (if length (kn_nonce_api_key c) \<noteq> 12 then Inl CorruptApiKey
      else if length (kn_nonce_api_secret c) \<noteq> 12 then Inl CorruptApiSecret
      else and_then (map_err StoredKeyCrypto (decrypt_text V key (kn_encrypted_api_key c) (kn_nonce_api_key c)
          (credential_context ''kraken'' (kn_account_id c) ''api_key''))) (\<lambda>api_key.
        and_then (map_err StoredKeyCrypto (decrypt_text V key (kn_encrypted_api_secret c) (kn_nonce_api_secret c)
          (credential_context ''kraken'' (kn_account_id c) ''api_secret''))) (\<lambda>api_secret.
          map_err StoredKeyAuth (new_credentials Q api_key api_secret))))"

text \<open>The columns of a trade and of a ledger line beside their keys.\<close>

record trade_cell =
  tc_order_id :: string
  tc_symbol :: string
  tc_base :: string
  tc_quote :: string
  tc_is_buy :: bool
  tc_price :: string
  tc_volume :: string
  tc_fee :: string
  tc_time_ms :: int

record ledger_cell =
  lc_refid :: string
  lc_time_ms :: int
  lc_entry_type :: string
  lc_subtype :: string
  lc_asset :: string
  lc_amount :: string
  lc_fee :: string

record kraken_db =
  kd_connections :: "kraken_connection list"
  kd_trades :: "(string \<times> string, trade_cell) btree"
  kd_ledger :: "(string \<times> string, ledger_cell) btree"

definition kraken_insert_connection ::
    "string \<Rightarrow> nat \<Rightarrow> kraken_db \<Rightarrow> string \<Rightarrow> encrypted_field \<Rightarrow> encrypted_field \<Rightarrow> string \<times> kraken_db" where
  "kraken_insert_connection new_id now db account_id api_key api_secret =
     (case find (\<lambda>c. kn_account_id c = account_id) (kd_connections db) of
        Some c \<Rightarrow> (kn_id c, db\<lparr>kd_connections := map (\<lambda>c. if kn_account_id c = account_id
          then c\<lparr>kn_encrypted_api_key := ef_ciphertext api_key, kn_nonce_api_key := encrypted_field.ef_nonce api_key,
            kn_encrypted_api_secret := ef_ciphertext api_secret, kn_nonce_api_secret := encrypted_field.ef_nonce api_secret,
            kn_status := ''active''\<rparr> else c) (kd_connections db)\<rparr>)
      | None \<Rightarrow> (new_id, db\<lparr>kd_connections := kd_connections db @
          [\<lparr>kn_id = new_id, kn_account_id = account_id, kn_encrypted_api_key = ef_ciphertext api_key,
            kn_nonce_api_key = encrypted_field.ef_nonce api_key, kn_encrypted_api_secret = ef_ciphertext api_secret,
            kn_nonce_api_secret = encrypted_field.ef_nonce api_secret, kn_label = None, kn_status = ''active'',
            kn_created_at_ms = now, kn_last_synced_at = None, kn_verified_read_only_at = None\<rparr>]\<rparr>))"

definition kraken_delete_connection :: "kraken_db \<Rightarrow> string \<Rightarrow> bool \<times> kraken_db" where
  "kraken_delete_connection db i =
     (\<exists>c \<in> set (kd_connections db). kn_id c = i,
      \<lparr>kd_connections = filter (\<lambda>c. kn_id c \<noteq> i) (kd_connections db),
       kd_trades = filter (\<lambda>(k, _). fst k \<noteq> i) (kd_trades db), kd_ledger = filter (\<lambda>(k, _). fst k \<noteq> i) (kd_ledger db)\<rparr>)"

definition kraken_update :: "kraken_db \<Rightarrow> string \<Rightarrow> (kraken_connection \<Rightarrow> kraken_connection) \<Rightarrow> kraken_db" where
  "kraken_update db i f = db\<lparr>kd_connections := map (\<lambda>c. if kn_id c = i then f c else c) (kd_connections db)\<rparr>"

definition kraken_set_label :: "kraken_db \<Rightarrow> string \<Rightarrow> string \<Rightarrow> kraken_db" where
  "kraken_set_label db i label = kraken_update db i (\<lambda>c. c\<lparr>kn_label := Some label\<rparr>)"

definition kraken_find_by_account :: "kraken_db \<Rightarrow> string \<Rightarrow> kraken_connection option" where
  "kraken_find_by_account db account_id = find (\<lambda>c. kn_account_id c = account_id) (kd_connections db)"

definition kraken_owned_by :: "kraken_db \<Rightarrow> string \<Rightarrow> (string \<times> string option \<times> nat \<times> string) list" where
  "kraken_owned_by db owner_address =
     map (\<lambda>c. (kn_account_id c, kn_label c, kn_created_at_ms c, kn_status c))
       (sort_key kn_created_at_ms (filter (\<lambda>c. owned_account owner_address (kn_account_id c)) (kd_connections db)))"

definition kraken_due_for_sync :: "kraken_db \<Rightarrow> nat \<Rightarrow> nat \<Rightarrow> kraken_connection list" where
  "kraken_due_for_sync db now interval_seconds =
     filter (\<lambda>c. kn_status c = ''active'' \<and>
       (case kn_last_synced_at c of None \<Rightarrow> True | Some t \<Rightarrow> t + 1000 * interval_seconds < now)) (kd_connections db)"

definition kraken_created_at_ms :: "kraken_db \<Rightarrow> string \<Rightarrow> nat option" where
  "kraken_created_at_ms db i = map_option kn_created_at_ms (find (\<lambda>c. kn_id c = i) (kd_connections db))"

definition insert_trade :: "string \<Rightarrow> kraken_db \<Rightarrow> kraken_trade \<Rightarrow> kraken_db" where
  "insert_trade i db t =
     (if map_of (kd_trades db) (i, kt_id t) = None
      then db\<lparr>kd_trades := bt_insert (i, kt_id t)
        \<lparr>tc_order_id = kt_order_id t, tc_symbol = kt_symbol t, tc_base = kt_base t, tc_quote = kt_quote t, tc_is_buy = kt_is_buy t,
         tc_price = kt_price t, tc_volume = kt_volume t, tc_fee = kt_fee t, tc_time_ms = stored_i64 (kt_time_ms t)\<rparr> (kd_trades db)\<rparr> else db)"

text \<open>The statements of \<open>insert_trades\<close> and of \<open>insert_ledger\<close>, one for each row.\<close>

definition insert_trades :: "string \<Rightarrow> kraken_trade list \<Rightarrow> (kraken_db \<Rightarrow> kraken_db) list" where
  "insert_trades i trades = map (\<lambda>t db. insert_trade i db t) trades"

definition cell_of :: "ledger_entry \<Rightarrow> ledger_cell" where
  "cell_of e = \<lparr>lc_refid = le_refid e, lc_time_ms = stored_i64 (le_time_ms e), lc_entry_type = le_kind e, lc_subtype = le_subtype e,
     lc_asset = le_asset e, lc_amount = le_amount e, lc_fee = le_fee e\<rparr>"

definition insert_ledger_entry :: "string \<Rightarrow> kraken_db \<Rightarrow> ledger_entry \<Rightarrow> kraken_db" where
  "insert_ledger_entry i db e =
     (if map_of (kd_ledger db) (i, le_id e) = None then db\<lparr>kd_ledger := bt_insert (i, le_id e) (cell_of e) (kd_ledger db)\<rparr> else db)"

definition insert_ledger :: "string \<Rightarrow> ledger_entry list \<Rightarrow> (kraken_db \<Rightarrow> kraken_db) list" where
  "insert_ledger i entries = map (\<lambda>e db. insert_ledger_entry i db e) entries"

text \<open>\<open>max(time_ms)\<close> of the rows of a connection.\<close>

definition latest_time :: "(string \<times> string, 'a) btree \<Rightarrow> ('a \<Rightarrow> int) \<Rightarrow> string \<Rightarrow> nat option" where
  "latest_time table time i = (case map (\<lambda>(_, r). time r) (filter (\<lambda>(k, _). fst k = i) table) of
       [] \<Rightarrow> None | t # ts \<Rightarrow> Some (as_u64 (foldl max t ts)))"

definition stored_trade_count :: "kraken_db \<Rightarrow> string \<Rightarrow> nat" where
  "stored_trade_count db i = length (filter (\<lambda>(k, _). fst k = i) (kd_trades db))"

section \<open>Syncing\<close>

definition KRAKEN_SYNC_GAP_MS :: nat where "KRAKEN_SYNC_GAP_MS = 20000"
definition REVERIFY_AFTER_MS :: nat where "REVERIFY_AFTER_MS = 600000"

definition mark_verified :: "kraken_db \<Rightarrow> string \<Rightarrow> nat \<Rightarrow> kraken_db" where
  "mark_verified db i now = kraken_update db i (\<lambda>c. c\<lparr>kn_verified_read_only_at := Some now\<rparr>)"

definition within_gap :: "nat option \<Rightarrow> nat \<Rightarrow> nat \<Rightarrow> bool" where
  "within_gap at_ms gap_ms now = (case at_ms of None \<Rightarrow> False | Some t \<Rightarrow> t + gap_ms > now)"

text \<open>A question about the row of a connection, which may be gone.\<close>

definition of_connection :: "string \<Rightarrow> kraken_db \<Rightarrow> string \<Rightarrow> (kraken_connection \<Rightarrow> 'a) \<Rightarrow> string + 'a" where
  "of_connection row_error db i f = map_sum id f (ok_or row_error (find (\<lambda>c. kn_id c = i) (kd_connections db)))"

text \<open>
  Whether the lock was got is an argument; a key is only tried where its last confirmation is too old. The queries
  are numbered in their order: the time of the last confirmation, the database connection that holds the lock, the lock.
\<close>

definition verify_if_due ::
    "(string option \<Rightarrow> string) \<Rightarrow> kraken_env \<Rightarrow> kraken_client \<Rightarrow> string \<Rightarrow> string db_faults \<Rightarrow> bool \<Rightarrow> kraken_db \<Rightarrow> string \<Rightarrow> nat \<Rightarrow>
     kraken_state \<Rightarrow> ((string + unit) \<times> kraken_db \<times> kraken_state) option" where
  "verify_if_due shown V K row_error D acquired db i now s =
     (case and_then (query D 0 (of_connection row_error db i (\<lambda>c. within_gap (kn_verified_read_only_at c) REVERIFY_AFTER_MS now))) (\<lambda>recent.
        if recent then Inr False else and_then (query D 1 (Inr ())) (\<lambda>_. query D 2 (Inr acquired))) of
        Inl e \<Rightarrow> Some (Inl e, db, s)
      | Inr False \<Rightarrow> Some (Inr (), db, s)
      | Inr True \<Rightarrow> map_option (\<lambda>(r, s). case r of
            Inl e \<Rightarrow> (Inl (kraken_error_text shown e), db, s)
          | Inr _ \<Rightarrow> let (recorded, db) = run_writes D [\<lambda>db. mark_verified db i now] db in (recorded, db, s)) (ensure_cannot_write V K s))"

text \<open>
  Where a sync reads from, if it is to read at all: nothing newer than what is held, and nothing before the connection.
  Its queries are the time of the last sync, that of the connection, and the latest trade and line.
\<close>

definition sync_from :: "nat option \<Rightarrow> nat \<Rightarrow> nat" where
  "sync_from latest created_at = max (case latest of None \<Rightarrow> created_at | Some t \<Rightarrow> t) created_at"

definition sync_span :: "string \<Rightarrow> string db_faults \<Rightarrow> kraken_db \<Rightarrow> string \<Rightarrow> nat \<Rightarrow> bool \<Rightarrow> string + (nat \<times> nat) option" where
  "sync_span row_error D db i now force =
     and_then (if force then Inr False
       else query D 2 (of_connection row_error db i (\<lambda>c. within_gap (kn_last_synced_at c) KRAKEN_SYNC_GAP_MS now))) (\<lambda>recent.
       if recent then Inr None else
       and_then (query D 3 (ok_or row_error (kraken_created_at_ms db i))) (\<lambda>created_at.
       and_then (query D 4 (Inr (latest_time (kd_trades db) tc_time_ms i))) (\<lambda>trade.
       and_then (query D 5 (Inr (latest_time (kd_ledger db) lc_time_ms i))) (\<lambda>line.
         Inr (Some (sync_from trade created_at, sync_from line created_at))))))"

definition kraken_fetch :: "kraken_env \<Rightarrow> kraken_client \<Rightarrow> nat \<times> nat \<Rightarrow> (kraken_trade list \<times> ledger_entry list) kraken" where
  "kraken_fetch V K = (\<lambda>(trades_from, ledger_from).
     kbind (kraken_trades_since V K trades_from) (\<lambda>trades.
     kbind (kraken_ledger_since V K ledger_from) (\<lambda>ledger.
     kret (trades, ledger))))"

definition sync_writes :: "string \<Rightarrow> nat \<Rightarrow> kraken_trade list \<times> ledger_entry list \<Rightarrow> (kraken_db \<Rightarrow> kraken_db) list" where
  "sync_writes i now = (\<lambda>(trades, ledger). insert_trades i trades @ insert_ledger i ledger @
     [\<lambda>db. kraken_update db i (\<lambda>c. c\<lparr>kn_last_synced_at := Some now\<rparr>)])"

definition kraken_sync_locked ::
    "(string option \<Rightarrow> string) \<Rightarrow> kraken_env \<Rightarrow> kraken_client \<Rightarrow> string \<Rightarrow> string db_faults \<Rightarrow> kraken_db \<Rightarrow> string \<Rightarrow> nat \<Rightarrow> bool \<Rightarrow>
     kraken_state \<Rightarrow> ((string + unit) \<times> kraken_db \<times> kraken_state) option" where
  "kraken_sync_locked shown V K row_error D db i now force s = (case sync_span row_error D db i now force of
       Inl e \<Rightarrow> Some (Inl e, db, s)
     | Inr None \<Rightarrow> Some (Inr (), db, s)
     | Inr (Some since) \<Rightarrow> map_option (\<lambda>(r, s). case r of
           Inl e \<Rightarrow> (Inl (kraken_error_text shown e), db, s)
         | Inr fetched \<Rightarrow> let (r, db) = run_writes D (sync_writes i now fetched) db in (r, db, s)) (kraken_fetch V K since s))"

text \<open>The first two queries get the database connection that holds the lock, and the lock.\<close>

definition kraken_sync ::
    "(string option \<Rightarrow> string) \<Rightarrow> kraken_env \<Rightarrow> kraken_client \<Rightarrow> string \<Rightarrow> string db_faults \<Rightarrow> bool \<Rightarrow> kraken_db \<Rightarrow> string \<Rightarrow> nat \<Rightarrow> bool \<Rightarrow>
     kraken_state \<Rightarrow> ((string + unit) \<times> kraken_db \<times> kraken_state) option" where
  "kraken_sync shown V K row_error D acquired db i now force s =
     (case and_then (query D 0 (Inr ())) (\<lambda>_. query D 1 (Inr acquired)) of
        Inl e \<Rightarrow> Some (Inl e, db, s)
      | Inr False \<Rightarrow> Some (Inr (), db, s)
      | Inr True \<Rightarrow> kraken_sync_locked shown V K row_error D db i now force s)"

section \<open>What the engine reads\<close>

record ledger_row =
  lr_ledger_id :: string
  lr_refid :: string
  lr_time_ms :: int
  lr_entry_type :: string
  lr_subtype :: string
  lr_asset :: string
  lr_amount :: string
  lr_fee :: string

definition kraken_trades :: "kraken_db \<Rightarrow> string \<Rightarrow> trade list" where
  "kraken_trades db i = map (\<lambda>((_, trade_id), t).
     \<lparr>tr_symbol = tc_symbol t, tr_id = stable_id trade_id, tr_order_id = stable_id (tc_order_id t), tr_price = tc_price t,
      tr_qty = tc_volume t, tr_commission = tc_fee t, tr_commission_asset = tc_quote t, tr_time_ms = as_u64 (tc_time_ms t),
      tr_is_buyer = tc_is_buy t\<rparr>)
     (sort_key (\<lambda>((_, trade_id), t). (tc_time_ms t, trade_id)) (filter (\<lambda>(k, _). fst k = i) (kd_trades db)))"

datatype line_fault = UnreadableLine string string

definition line_decimal :: "dec_env \<Rightarrow> string \<Rightarrow> string \<Rightarrow> line_fault + decimal" where
  "line_decimal E v what = ok_or (UnreadableLine what v) (de_parse E v)"

definition line_net :: "dec_env \<Rightarrow> ledger_row \<Rightarrow> (line_fault + decimal) option" where
  "line_net E row =
     and_thenp (Some (line_decimal E (lr_amount row) ''amount'')) (\<lambda>amount.
     and_thenp (Some (line_decimal E (lr_fee row) ''fee'')) (\<lambda>fee.
       map_option Inr (dsub (de_arith E) amount fee)))"

definition signed_leg :: "dec_env \<Rightarrow> string \<Rightarrow> decimal \<Rightarrow> asset_leg" where
  "signed_leg E asset change =
     (if change < 0 then debit asset (de_show E \<bar>change\<bar>) else credit asset (de_show E change))"

definition is_wallet_move :: "ledger_row \<Rightarrow> bool" where
  "is_wallet_move row = (let subtype = to_lower (lr_subtype row) in
     if lr_entry_type row = ''transfer'' then contains_text subtype ''staking'' \<or> contains_text subtype ''earn''
     else lr_entry_type row = ''earn'' \<and> subtype \<noteq> ''reward'')"

definition line_source :: "string \<Rightarrow> string" where "line_source ledger_id = ''kraken:'' @ ledger_id"

definition own_flow :: "dec_env \<Rightarrow> ledger_row \<Rightarrow> decimal \<Rightarrow> decimal \<Rightarrow> normalized_flow" where
  "own_flow E row amount fee =
     \<lparr>nf_source_namespace = (if lr_entry_type row = ''deposit'' then Deposit else Withdrawal), nf_source_id = line_source (lr_ledger_id row),
      nf_economic_time_ms = as_u64 (lr_time_ms row), nf_kind = lr_entry_type row,
      nf_legs = [if lr_entry_type row = ''deposit'' then credit (lr_asset row) (de_show E \<bar>amount\<bar>) else debit (lr_asset row) (de_show E \<bar>amount\<bar>)],
      nf_fee = (if fee = 0 then None else Some (debit (lr_asset row) (de_show E fee)))\<rparr>"

definition is_futures_move :: "ledger_row \<Rightarrow> bool" where
  "is_futures_move row \<longleftrightarrow> lr_entry_type row = ''transfer'' \<and> contains_text (to_lower (lr_subtype row)) ''futures''"

definition moved_flow :: "dec_env \<Rightarrow> ledger_row \<Rightarrow> decimal \<Rightarrow> normalized_flow" where
  "moved_flow E row change =
     \<lparr>nf_source_namespace = (if is_futures_move row then if change < 0 then Withdrawal else Deposit
        else if lr_entry_type row \<in> {''staking'', ''dividend'', ''credit'', ''earn''} then Dividend else Transfer),
      nf_source_id = line_source (lr_ledger_id row), nf_economic_time_ms = as_u64 (lr_time_ms row),
      nf_kind = (if is_futures_move row then ''transfer '' @ lr_subtype row else lr_entry_type row),
      nf_legs = [signed_leg E (lr_asset row) change], nf_fee = None\<rparr>"

definition line_group :: "ledger_row \<Rightarrow> string" where
  "line_group row = (if lr_refid row = [] then lr_ledger_id row else lr_refid row)"

text \<open>The loop over the lines: the conversions by what they belong to, and the flows of the other lines.\<close>

fun classify_lines ::
    "dec_env \<Rightarrow> (string, ledger_row list) btree \<times> normalized_flow list \<Rightarrow> ledger_row list \<Rightarrow>
     (line_fault + (string, ledger_row list) btree \<times> normalized_flow list) option" where
  "classify_lines E st [] = Some (Inr st)"
| "classify_lines E (conversions, flows) (row # rows) =
     (if lr_entry_type row = ''trade'' \<or> is_wallet_move row then classify_lines E (conversions, flows) rows
      else and_thenp (Some (line_decimal E (lr_fee row) ''fee'')) (\<lambda>fee.
        if lr_entry_type row = ''deposit'' \<or> lr_entry_type row = ''withdrawal''
        then and_thenp (Some (line_decimal E (lr_amount row) ''amount'')) (\<lambda>amount.
          classify_lines E (conversions, flows @ [own_flow E row amount fee]) rows)
        else if lr_entry_type row \<in> {''spend'', ''receive'', ''adjustment''}
        then classify_lines E (bt_push (line_group row) row conversions, flows) rows
        else and_thenp (line_net E row) (\<lambda>change.
          if change = 0 then classify_lines E (conversions, flows) rows
          else classify_lines E (conversions, flows @ [moved_flow E row change]) rows)))"

fun conversion_legs :: "dec_env \<Rightarrow> ledger_row list \<Rightarrow> (line_fault + asset_leg list) option" where
  "conversion_legs E [] = Some (Inr [])"
| "conversion_legs E (row # rows) =
     and_thenp (line_net E row) (\<lambda>change.
     and_thenp (conversion_legs E rows) (\<lambda>legs.
       Some (Inr (if change = 0 then legs else signed_leg E (lr_asset row) change # legs))))"

definition conversion_flow :: "string \<Rightarrow> ledger_row list \<Rightarrow> asset_leg list \<Rightarrow> normalized_flow" where
  "conversion_flow group' lines legs =
     \<lparr>nf_source_namespace = Convert, nf_source_id = line_source group',
      nf_economic_time_ms = as_u64 (case map lr_time_ms lines of [] \<Rightarrow> 0 | t # ts \<Rightarrow> foldl min t ts),
      nf_kind = ''convert'', nf_legs = legs, nf_fee = None\<rparr>"

fun conversion_flows :: "dec_env \<Rightarrow> (string, ledger_row list) btree \<Rightarrow> (line_fault + normalized_flow list) option" where
  "conversion_flows E [] = Some (Inr [])"
| "conversion_flows E ((group', lines) # m) =
     and_thenp (conversion_legs E lines) (\<lambda>legs.
     and_thenp (conversion_flows E m) (\<lambda>flows.
       Some (Inr (if legs = [] then flows else conversion_flow group' lines legs # flows))))"

definition kraken_classify :: "dec_env \<Rightarrow> ledger_row list \<Rightarrow> (line_fault + normalized_flow list) option" where
  "kraken_classify E rows =
     and_thenp (classify_lines E ([], []) rows) (\<lambda>(conversions, flows).
     and_thenp (conversion_flows E conversions) (\<lambda>converted.
       Some (Inr (sort_key flow_key (flows @ converted)))))"

definition ledger_rows :: "kraken_db \<Rightarrow> string \<Rightarrow> ledger_row list" where
  "ledger_rows db i = sort_key (\<lambda>r. (lr_time_ms r, lr_ledger_id r)) (map (\<lambda>((_, ledger_id), c).
     \<lparr>lr_ledger_id = ledger_id, lr_refid = lc_refid c, lr_time_ms = lc_time_ms c, lr_entry_type = lc_entry_type c,
      lr_subtype = lc_subtype c, lr_asset = lc_asset c, lr_amount = lc_amount c, lr_fee = lc_fee c\<rparr>)
     (filter (\<lambda>(k, _). fst k = i) (kd_ledger db)))"

definition kraken_flows :: "dec_env \<Rightarrow> kraken_db \<Rightarrow> string \<Rightarrow> (line_fault + normalized_flow list) option" where
  "kraken_flows E db i = kraken_classify E (ledger_rows db i)"


section \<open>What is stored stays\<close>

definition ledger_line :: "kraken_db \<Rightarrow> string \<times> string \<Rightarrow> ledger_cell option" where
  "ledger_line db k = map_of (kd_ledger db) k"

definition trade_line :: "kraken_db \<Rightarrow> string \<times> string \<Rightarrow> trade_cell option" where
  "trade_line db k = map_of (kd_trades db) k"

definition trade_cell_of :: "kraken_trade \<Rightarrow> trade_cell" where
  "trade_cell_of t = \<lparr>tc_order_id = kt_order_id t, tc_symbol = kt_symbol t, tc_base = kt_base t, tc_quote = kt_quote t,
     tc_is_buy = kt_is_buy t, tc_price = kt_price t, tc_volume = kt_volume t, tc_fee = kt_fee t, tc_time_ms = stored_i64 (kt_time_ms t)\<rparr>"

interpretation kledger: row_store "insert_ledger_entry i" ledger_line "\<lambda>e. Some (i, le_id e)" cell_of "\<lambda>db. bt_ok (kd_ledger db)" for i
  by unfold_locales (auto simp: insert_ledger_entry_def ledger_line_def bt_ok_insert intro: bt_insert_keeps)

interpretation ktrades: row_store "insert_trade i" trade_line "\<lambda>t. Some (i, kt_id t)" trade_cell_of "\<lambda>db. bt_ok (kd_trades db)" for i
  by unfold_locales (auto simp: insert_trade_def trade_line_def trade_cell_of_def bt_ok_insert intro: bt_insert_keeps)

lemma other_table [simp]:
  "kd_ledger (foldl (insert_trade i) db trades) = kd_ledger db" "kd_trades (foldl (insert_ledger_entry i) db entries) = kd_trades db"
  "kd_ledger (kraken_update db i f) = kd_ledger db" "kd_trades (kraken_update db i f) = kd_trades db"
proof -
  show "kd_ledger (foldl (insert_trade i) db trades) = kd_ledger db" "kd_trades (foldl (insert_ledger_entry i) db entries) = kd_trades db"
    by (induction trades arbitrary: db, simp_all add: insert_trade_def) (induction entries arbitrary: db, simp_all add: insert_ledger_entry_def)
qed (simp_all add: kraken_update_def)

lemma fetched_stored:
  fixes trades :: "kraken_trade list" and ledger :: "ledger_entry list" and now :: nat and i :: string
  assumes "bt_ok (kd_trades db)" "bt_ok (kd_ledger db)"
  defines "db' \<equiv> run_all (sync_writes i now (trades, ledger)) db"
  shows "ledger_line db' k = (case ledger_line db k of Some line \<Rightarrow> Some line
      | None \<Rightarrow> map_option cell_of (find (\<lambda>e. (i, le_id e) = k) ledger))" (is ?lines)
    and "trade_line db' k = (case trade_line db k of Some trade \<Rightarrow> Some trade
      | None \<Rightarrow> map_option trade_cell_of (find (\<lambda>t. (i, kt_id t) = k) trades))" (is ?trades)
proof -
  have db': "db' = kraken_update (foldl (insert_ledger_entry i) (foldl (insert_trade i) db trades) ledger) i (\<lambda>c. c\<lparr>kn_last_synced_at := Some now\<rparr>)"
    by (simp add: db'_def sync_writes_def insert_trades_def insert_ledger_def run_all_map)
  have same: "ledger_line (foldl (insert_trade i) db trades) k = ledger_line db k" by (simp add: ledger_line_def)
  show ?lines using kledger.run_lookup [of "foldl (insert_trade i) db trades" i ledger k, unfolded option.inject] assms(2) same
    by (simp add: db' ledger_line_def)
  show ?trades using ktrades.run_lookup [OF assms(1), of i trades k, unfolded option.inject] by (simp add: db' trade_line_def)
qed

text \<open>The statements before the last leave the connections as they are.\<close>

lemma writes_connections:
  assumes "n < length (sync_writes i now fetched)"
  shows "kd_connections (run_all (take n (sync_writes i now fetched)) db) = kd_connections db"
proof -
  obtain trades ledger where f: "fetched = (trades, ledger)" by (cases fetched)
  let ?rows = "insert_trades i trades @ insert_ledger i ledger"
  have cut: "take n (sync_writes i now fetched) = take n ?rows" using assms by (simp add: sync_writes_def f)
  have row: "kd_connections (g db0) = kd_connections db0" if "g \<in> set ?rows" for g db0
    using that by (auto simp: insert_trades_def insert_ledger_def insert_trade_def insert_ledger_entry_def)
  show ?thesis unfolding cut
    by (rule run_all_inv [where P = "\<lambda>db0. kd_connections db0 = kd_connections db"]) (simp, metis in_set_takeD row)
qed

lemma write_keeps:
  "f \<in> set (sync_writes i now fetched) \<Longrightarrow> ledger_line db k = Some line \<Longrightarrow> ledger_line (f db) k = Some line"
  "f \<in> set (sync_writes i now fetched) \<Longrightarrow> trade_line db k = Some trade \<Longrightarrow> trade_line (f db) k = Some trade"
proof -
  have tables: "kd_ledger (insert_trade i db t) = kd_ledger db" "kd_trades (insert_ledger_entry i db e) = kd_trades db" for t e
    by (simp_all add: insert_trade_def insert_ledger_entry_def)
  show "f \<in> set (sync_writes i now fetched) \<Longrightarrow> ledger_line db k = Some line \<Longrightarrow> ledger_line (f db) k = Some line"
    by (auto simp: sync_writes_def insert_trades_def insert_ledger_def ledger_line_def tables split: prod.splits
      dest: kledger.keeps [unfolded ledger_line_def])
  show "f \<in> set (sync_writes i now fetched) \<Longrightarrow> trade_line db k = Some trade \<Longrightarrow> trade_line (f db) k = Some trade"
    by (auto simp: sync_writes_def insert_trades_def insert_ledger_def trade_line_def tables split: prod.splits
      dest: ktrades.keeps [unfolded trade_line_def])
qed

text \<open>How a sync can end.\<close>

lemma kraken_sync_cases:
  assumes "kraken_sync shown V K row_error D acquired db i now force s = Some (res, db', s')"
  obtains (unchanged) "db' = db"
  | (wrote) since fetched where "sync_span row_error D db i now force = Inr (Some since)" "kraken_fetch V K since s = Some (Inr fetched, s')"
      "run_writes D (sync_writes i now fetched) db = (res, db')"
proof -
  consider "db' = db" | "kraken_sync_locked shown V K row_error D db i now force s = Some (res, db', s')"
    using assms by (auto simp: kraken_sync_def split: sum.splits bool.splits)
  then show thesis
  proof cases
    case 2
    consider "db' = db" | since where "sync_span row_error D db i now force = Inr (Some since)"
      using 2 by (auto simp: kraken_sync_locked_def split: sum.splits option.splits)
    then show thesis
    proof cases
      case (2 since)
      obtain r s1 where f: "kraken_fetch V K since s = Some (r, s1)"
        using \<open>kraken_sync_locked _ _ _ _ _ _ _ _ _ _ = _\<close> by (auto simp: kraken_sync_locked_def 2)
      show thesis
      proof (cases r)
        case (Inl e)
        then have "db' = db" using \<open>kraken_sync_locked _ _ _ _ _ _ _ _ _ _ = _\<close> f by (simp add: kraken_sync_locked_def 2)
        then show thesis by (rule unchanged)
      next
        case (Inr fetched)
        then have "run_writes D (sync_writes i now fetched) db = (res, db')" "s1 = s'"
          using \<open>kraken_sync_locked _ _ _ _ _ _ _ _ _ _ = _\<close> f by (simp_all add: kraken_sync_locked_def 2 split: prod.splits)
        then show thesis using wrote [OF 2, of fetched] f Inr by simp
      qed
    qed (rule unchanged)
  qed (rule unchanged)
qed

text \<open>
  C34. A sync only adds. Whatever it answers and whichever statement of the database fails, no stored trade and no
  stored line of the ledger changes or goes. Where it fails, the connection is as it was, so the next one is due; and
  nothing at all is stored, unless it was one of the writing statements that failed. Where it has read the
  exchange and succeeds, every line and every trade it read is stored as it was read, and nothing else is new.
\<close>
theorem kraken_sync_only_adds:
  assumes "kraken_sync shown V K row_error D acquired db i now force s = Some (res, db', s')"
    and "bt_ok (kd_trades db)" "bt_ok (kd_ledger db)"
  shows "(\<forall>k line. ledger_line db k = Some line \<longrightarrow> ledger_line db' k = Some line) \<and>
    (\<forall>k trade. trade_line db k = Some trade \<longrightarrow> trade_line db' k = Some trade) \<and>
    (\<forall>e. res = Inl e \<longrightarrow> kd_connections db' = kd_connections db \<and> (fa_write D = None \<longrightarrow> db' = db)) \<and>
    (\<forall>since trades ledger. res = Inr () \<and> acquired \<and> sync_span row_error D db i now force = Inr (Some since) \<and>
       kraken_fetch V K since s = Some (Inr (trades, ledger), s') \<longrightarrow>
       (\<forall>k. ledger_line db' k = (case ledger_line db k of Some line \<Rightarrow> Some line
          | None \<Rightarrow> map_option cell_of (find (\<lambda>e. (i, le_id e) = k) ledger))) \<and>
       (\<forall>k. trade_line db' k = (case trade_line db k of Some trade \<Rightarrow> Some trade
          | None \<Rightarrow> map_option trade_cell_of (find (\<lambda>t. (i, kt_id t) = k) trades))))"
proof (intro conjI allI impI)
  have ok: "ledger_line db k = Some line \<Longrightarrow> ledger_line db' k = Some line" "trade_line db k = Some trade \<Longrightarrow> trade_line db' k = Some trade"
    for k line trade
    using assms(1) by (cases rule: kraken_sync_cases; auto intro: run_writes_inv write_keeps)+
  show "ledger_line db k = Some line \<Longrightarrow> ledger_line db' k = Some line" "trade_line db k = Some trade \<Longrightarrow> trade_line db' k = Some trade"
    for k line trade by (fact ok)+
next
  fix e assume e: "res = Inl e"
  show "kd_connections db' = kd_connections db"
    using assms(1) by (cases rule: kraken_sync_cases) (auto simp: e writes_connections dest!: run_writes_Inl)
  show "db' = db" if "fa_write D = None"
    using assms(1) by (cases rule: kraken_sync_cases) (auto simp: e run_writes_def that)
next
  fix since trades ledger k
  assume a: "res = Inr () \<and> acquired \<and> sync_span row_error D db i now force = Inr (Some since) \<and>
    kraken_fetch V K since s = Some (Inr (trades, ledger), s')"
  then have "run_writes D (sync_writes i now (trades, ledger)) db = (Inr (), db')"
    using assms(1) by (auto simp: kraken_sync_def kraken_sync_locked_def Let_def query_def split: option.splits prod.splits)
  then have db': "db' = run_all (sync_writes i now (trades, ledger)) db" by (rule run_writes_Inr)
  show "ledger_line db' k = (case ledger_line db k of Some line \<Rightarrow> Some line
      | None \<Rightarrow> map_option cell_of (find (\<lambda>e. (i, le_id e) = k) ledger))"
    "trade_line db' k = (case trade_line db k of Some trade \<Rightarrow> Some trade
      | None \<Rightarrow> map_option trade_cell_of (find (\<lambda>t. (i, kt_id t) = k) trades))"
    unfolding db' by (rule fetched_stored [OF assms(2,3)])+
qed

text \<open>An exchange with no trades and one line, and an account that holds an older one.\<close>

definition sample_answer :: jvalue where
  "sample_answer = VObj [(''count'', VInt 1), (''trades'', VObj []), (''ledger'', VObj [(''L1'',
     VObj [(''time'', VInt 7), (''type'', VStr ''deposit''), (''asset'', VStr ''ZUSD''), (''amount'', VStr ''5'')])])]"

definition sample_exchange :: kraken_env where
  "sample_exchange = stand_in id (\<lambda>_. Some (VObj [(''error'', VArr []), (''result'', sample_answer)]))"

definition sample_cell :: ledger_cell where
  "sample_cell = \<lparr>lc_refid = [], lc_time_ms = 5, lc_entry_type = ''deposit'', lc_subtype = [], lc_asset = ''USD'', lc_amount = ''2'', lc_fee = ''0''\<rparr>"

definition sample_kraken_db :: kraken_db where
  "sample_kraken_db = \<lparr>kd_connections = [\<lparr>kn_id = ''c'', kn_account_id = ''a'', kn_encrypted_api_key = [], kn_nonce_api_key = [],
       kn_encrypted_api_secret = [], kn_nonce_api_secret = [], kn_label = None, kn_status = ''active'', kn_created_at_ms = 3,
       kn_last_synced_at = None, kn_verified_read_only_at = None\<rparr>],
     kd_trades = [], kd_ledger = [((''c'', ''L0''), sample_cell)]\<rparr>"

lemma sample_sync:
  "\<exists>db' s'. kraken_sync (\<lambda>_. []) sample_exchange kraken_sample [] no_faults True sample_kraken_db ''c'' 9 False
     (fresh_state\<lparr>kz_catalog := Some sample_catalog\<rparr>) = Some (Inr (), db', s')"
proof -
  let ?body = "VObj [(''error'', VArr []), (''result'', sample_answer)]"
  have e: "api_errors ?body = []" by (simp add: api_errors_def map_filter_simps)
  have raw: "\<exists>s'. private_raw sample_exchange kraken_sample path params s = Some (Inr ([], ?body), s') \<and> kz_catalog s' = kz_catalog s" for path params s
    using stand_in_private [of "\<lambda>_. Some ?body" id kraken_sample path ?body params s]
    by (auto simp: e sample_exchange_def is_rate_limited_def is_invalid_nonce_def any_contains_def)
  have sent: "\<exists>s'. kraken_private sample_exchange kraken_sample path params s = Some (Inr sample_answer, s') \<and> kz_catalog s' = kz_catalog s" for path params s
    using raw [of path params s] by (auto simp: kraken_private_def kbind_def klift_def result_of_def)
  have none: "parse_trades_history (kv_seconds sample_exchange) sample_answer = Inr ([], 1)"
    by (simp add: parse_trades_history_def need_def sample_answer_def)
  obtain l where one: "parse_ledgers (kv_seconds sample_exchange) sample_answer = Inr ([l], 1)"
    by (simp add: parse_ledgers_def need_def parse_ledger_entry_def kraken_text_def text_or_def sample_exchange_def stand_in_def sample_answer_def)
  have "\<exists>s'. trades_page sample_exchange kraken_sample C start offset s = Some (Inr ([], 1), s') \<and> kz_catalog s' = kz_catalog s" for C start offset s
    using sent [of "''/0/private/TradesHistory''" "[(''type'', ''all''), (''trades'', ''false''), (''start'', start), (''ofs'', show_nat offset)]" s]
    by (auto simp: trades_page_def kbind_def klift_def expected_def none)
  note empty_page = this
  have trades: "\<exists>s'. kraken_trades_since sample_exchange kraken_sample since s = Some (Inr [], s') \<and> kz_catalog s' = kz_catalog s"
    if "kz_catalog s = Some sample_catalog" for since s
  proof -
    obtain s' where s': "trades_page sample_exchange kraken_sample sample_catalog (start_of since) 0 s = Some (Inr ([], 1), s')"
        "kz_catalog s' = kz_catalog s" using empty_page by blast
    then have "pages_until (trades_page sample_exchange kraken_sample sample_catalog (start_of since)) 0 [] s = Some (Inr [], s')"
      by (subst pages_until.simps) simp
    then show ?thesis using that s'(2) by (simp add: kraken_trades_since_def kbind_def kraken_catalog_of_def kret_def)
  qed
  have page: "\<exists>s'. ledger_page sample_exchange kraken_sample start offset s = Some (Inr ([l], 1), s')" for start offset s
    using sent [of "''/0/private/Ledgers''" "[(''start'', start), (''ofs'', show_nat offset)]" s]
    by (auto simp: ledger_page_def kbind_def klift_def expected_def one)
  have ledger: "\<exists>es s'. kraken_ledger_since sample_exchange kraken_sample since s = Some (Inr es, s')"
    if "kz_catalog s = Some sample_catalog" for since s
  proof -
    obtain s' where "ledger_page sample_exchange kraken_sample (start_of since) 0 s = Some (Inr ([l], 1), s')" using page by blast
    then have "pages_until (ledger_page sample_exchange kraken_sample (start_of since)) 0 [] s = Some (Inr [l], s')"
      by (subst pages_until.simps) (simp add: wrap_u_def)
    then show ?thesis using that by (simp add: kraken_ledger_since_def kbind_def kraken_catalog_of_def kret_def)
  qed
  show ?thesis
  proof -
    let ?s = "fresh_state\<lparr>kz_catalog := Some sample_catalog\<rparr>"
    obtain s1 where s1: "kraken_trades_since sample_exchange kraken_sample 3 ?s = Some (Inr [], s1)" "kz_catalog s1 = Some sample_catalog"
      using trades [of ?s 3] by auto
    obtain es s2 where s2: "kraken_ledger_since sample_exchange kraken_sample 5 s1 = Some (Inr es, s2)" using ledger [OF s1(2)] by blast
    have "kraken_created_at_ms sample_kraken_db ''c'' = Some 3" "latest_time (kd_trades sample_kraken_db) tc_time_ms ''c'' = None"
        "latest_time (kd_ledger sample_kraken_db) lc_time_ms ''c'' = Some 5"
        "of_connection row_error sample_kraken_db ''c'' (\<lambda>c. within_gap (kn_last_synced_at c) KRAKEN_SYNC_GAP_MS 9) = Inr False" for row_error
      by (simp_all add: kraken_created_at_ms_def sample_kraken_db_def latest_time_def sample_cell_def as_u64_def of_connection_def within_gap_def)
    then show ?thesis by (simp add: kraken_sync_def kraken_sync_locked_def sync_span_def sync_from_def kraken_fetch_def kbind_def s1 s2 kret_def)
  qed
qed

theorem kraken_sync_only_adds_witness:
  "\<exists>db' s'. kraken_sync (\<lambda>_. []) sample_exchange kraken_sample [] no_faults True sample_kraken_db ''c'' 9 False
     (fresh_state\<lparr>kz_catalog := Some sample_catalog\<rparr>) = Some (Inr (), db', s') \<and> ledger_line db' (''c'', ''L0'') = Some sample_cell"
proof -
  obtain db' s' where s: "kraken_sync (\<lambda>_. []) sample_exchange kraken_sample [] no_faults True sample_kraken_db ''c'' 9 False
     (fresh_state\<lparr>kz_catalog := Some sample_catalog\<rparr>) = Some (Inr (), db', s')" using sample_sync by blast
  have ok: "bt_ok (kd_trades sample_kraken_db)" "bt_ok (kd_ledger sample_kraken_db)" by (simp_all add: bt_ok_def sample_kraken_db_def)
  have "ledger_line sample_kraken_db (''c'', ''L0'') = Some sample_cell" by (simp add: ledger_line_def sample_kraken_db_def)
  then show ?thesis using s conjunct1 [OF kraken_sync_only_adds [OF s ok]] by blast
qed

section \<open>The flows add up to the ledger\<close>

definition line_amount :: "dec_env \<Rightarrow> string \<Rightarrow> rat" where
  "line_amount E v = (case de_parse E v of None \<Rightarrow> 0 | Some d \<Rightarrow> d)"

definition line_change :: "dec_env \<Rightarrow> string \<Rightarrow> ledger_row \<Rightarrow> rat" where
  "line_change E a r = (if lr_asset r = a then line_amount E (lr_amount r) - line_amount E (lr_fee r) else 0)"

definition kept_line :: "ledger_row \<Rightarrow> bool" where
  "kept_line r \<longleftrightarrow> lr_entry_type r \<noteq> ''trade'' \<and> \<not> is_wallet_move r"

definition is_conversion :: "ledger_row \<Rightarrow> bool" where
  "is_conversion r \<longleftrightarrow> lr_entry_type r \<in> {''spend'', ''receive'', ''adjustment''}"

definition is_own_move :: "ledger_row \<Rightarrow> bool" where
  "is_own_move r \<longleftrightarrow> lr_entry_type r = ''deposit'' \<or> lr_entry_type r = ''withdrawal''"

text \<open>A deposit that takes nothing away and a withdrawal that adds nothing.\<close>

definition usual_sign :: "dec_env \<Rightarrow> ledger_row \<Rightarrow> bool" where
  "usual_sign E r \<longleftrightarrow> (lr_entry_type r = ''deposit'' \<longrightarrow> 0 \<le> line_amount E (lr_amount r)) \<and>
     (lr_entry_type r = ''withdrawal'' \<longrightarrow> line_amount E (lr_amount r) \<le> 0)"

text \<open>What a flow does to an asset, its fee included.\<close>

definition flow_change :: "dec_env \<Rightarrow> string \<Rightarrow> normalized_flow \<Rightarrow> rat" where
  "flow_change E a f = flow_net E a f + (case nf_fee f of None \<Rightarrow> 0 | Some l \<Rightarrow> if al_asset l = a then leg_amount E l else 0)"

lemma signed_leg_amount: "reads_back E \<Longrightarrow> leg_amount E (signed_leg E a d) = d \<and> al_asset (signed_leg E a d) = a"
  by (auto simp: reads_back_def leg_amount_def signed_leg_def debit_def credit_def)

lemma line_decimal_read: "line_decimal E v what = Inr d \<Longrightarrow> line_amount E v = d"
  by (simp add: line_decimal_def line_amount_def)

lemma line_net_exact:
  assumes "line_net E r = Some (Inr d)" and "de_arith E = exact_arith"
  shows "line_change E a r = (if lr_asset r = a then d else 0)"
  using assms line_decimal_read [of E] by (auto simp: line_net_def and_thenp_Inr line_change_def)

lemma own_flow_exact:
  assumes "reads_back E" "line_amount E (lr_amount r) = amount" "line_amount E (lr_fee r) = fee" "is_own_move r" "usual_sign E r"
  shows "flow_change E a (own_flow E r amount fee) = line_change E a r \<and> is_capital (own_flow E r amount fee)"
  using assms by (auto simp: own_flow_def flow_change_def flow_net_def leg_amount_def credit_def debit_def reads_back_def
    line_change_def usual_sign_def is_own_move_def is_capital_def)

lemma moved_flow_exact:
  assumes "reads_back E" "line_net E r = Some (Inr d)" "de_arith E = exact_arith"
  shows "flow_change E a (moved_flow E r d) = line_change E a r \<and> is_capital (moved_flow E r d) = is_futures_move r"
  using line_net_exact [OF assms(2,3), of a] signed_leg_amount [OF assms(1)]
  by (simp add: moved_flow_def flow_change_def flow_net_def is_capital_def)

definition capital_line :: "ledger_row \<Rightarrow> bool" where
  "capital_line r \<longleftrightarrow> kept_line r \<and> (is_own_move r \<or> is_futures_move r)"

text \<open>What the lines put before the conversions come to, and what is left to the conversions.\<close>

definition lines_before :: "dec_env \<Rightarrow> string \<Rightarrow> ledger_row list \<Rightarrow> rat" where
  "lines_before E a rows = (\<Sum>r\<leftarrow>rows. if kept_line r \<and> \<not> is_conversion r then line_change E a r else 0)"

definition capital_lines :: "dec_env \<Rightarrow> string \<Rightarrow> ledger_row list \<Rightarrow> rat" where
  "capital_lines E a rows = (\<Sum>r\<leftarrow>rows. if capital_line r then line_change E a r else 0)"

definition capital_change :: "dec_env \<Rightarrow> string \<Rightarrow> normalized_flow list \<Rightarrow> rat" where
  "capital_change E a fs = (\<Sum>f\<leftarrow>fs. if is_capital f then flow_change E a f else 0)"

lemma change_sums [simp]:
  "lines_before E a [] = 0" "capital_lines E a [] = 0" "capital_change E a [] = 0"
  "lines_before E a (r # rows) = (if kept_line r \<and> \<not> is_conversion r then line_change E a r else 0) + lines_before E a rows"
  "capital_lines E a (r # rows) = (if capital_line r then line_change E a r else 0) + capital_lines E a rows"
  "capital_change E a (fs @ [f]) = capital_change E a fs + (if is_capital f then flow_change E a f else 0)"
  by (simp_all add: lines_before_def capital_lines_def capital_change_def)

lemma line_kinds:
  "is_own_move r \<Longrightarrow> kept_line r \<and> \<not> is_conversion r \<and> \<not> is_futures_move r"
  "is_conversion r \<Longrightarrow> kept_line r \<and> \<not> is_futures_move r \<and> \<not> is_own_move r"
  by (auto simp: is_own_move_def kept_line_def is_conversion_def is_futures_move_def is_wallet_move_def Let_def)

text \<open>A step of the loop, by the kind of the line.\<close>

lemma classify_step:
  assumes "classify_lines E (m, flows) (r # rows) = Some (Inr (m', flows'))"
  obtains (skipped) "\<not> kept_line r" "classify_lines E (m, flows) rows = Some (Inr (m', flows'))"
  | (own) amount fee where "is_own_move r" "line_amount E (lr_amount r) = amount" "line_amount E (lr_fee r) = fee"
      "classify_lines E (m, flows @ [own_flow E r amount fee]) rows = Some (Inr (m', flows'))"
  | (conversion) "is_conversion r" "classify_lines E (bt_push (line_group r) r m, flows) rows = Some (Inr (m', flows'))"
  | (still) "kept_line r" "\<not> is_conversion r" "\<not> is_own_move r" "line_net E r = Some (Inr 0)"
      "classify_lines E (m, flows) rows = Some (Inr (m', flows'))"
  | (moved) d where "kept_line r" "\<not> is_conversion r" "\<not> is_own_move r" "line_net E r = Some (Inr d)"
      "classify_lines E (m, flows @ [moved_flow E r d]) rows = Some (Inr (m', flows'))"
proof (cases "kept_line r")
  case False
  then show thesis using assms skipped by (simp add: kept_line_def split: if_splits)
next
  case True
  then obtain fee where fee: "line_decimal E (lr_fee r) ''fee'' = Inr fee"
    using assms by (auto simp: kept_line_def and_thenp_Inr split: if_splits)
  have rest: "(if is_own_move r then and_thenp (Some (line_decimal E (lr_amount r) ''amount'')) (\<lambda>amount.
          classify_lines E (m, flows @ [own_flow E r amount fee]) rows)
        else if is_conversion r then classify_lines E (bt_push (line_group r) r m, flows) rows
        else and_thenp (line_net E r) (\<lambda>change.
          if change = 0 then classify_lines E (m, flows) rows
          else classify_lines E (m, flows @ [moved_flow E r change]) rows)) = Some (Inr (m', flows'))"
  proof -
    have "(lr_entry_type r = ''trade'' \<or> is_wallet_move r) = False" using True by (simp add: kept_line_def)
    from assms show ?thesis
      unfolding classify_lines.simps \<open>(_ \<or> is_wallet_move r) = False\<close> if_False fee and_thenp_simps is_own_move_def is_conversion_def .
  qed
  show thesis
  proof (cases "is_own_move r")
    case own_move: True
    then obtain amount where "line_decimal E (lr_amount r) ''amount'' = Inr amount"
        "classify_lines E (m, flows @ [own_flow E r amount fee]) rows = Some (Inr (m', flows'))"
      using rest by (auto simp: and_thenp_Inr)
    then show thesis using own [OF own_move] fee line_decimal_read by blast
  next
    case no_own: False
    show thesis
    proof (cases "is_conversion r")
      case c: True
      then show thesis using rest no_own conversion by simp
    next
      case no_conversion: False
      then obtain d where d: "line_net E r = Some (Inr d)"
          "(if d = 0 then classify_lines E (m, flows) rows else classify_lines E (m, flows @ [moved_flow E r d]) rows) = Some (Inr (m', flows'))"
        using rest no_own by (auto simp: and_thenp_Inr)
      then show thesis using still moved True no_own no_conversion by (cases "d = 0") simp_all
    qed
  qed
qed

lemma classify_lines_exact:
  assumes "classify_lines E (m, flows) rows = Some (Inr (m', flows'))" and "grouped line_group done m"
    and "reads_back E" "de_arith E = exact_arith" and "\<forall>r \<in> set rows. usual_sign E r"
  shows "grouped line_group (done @ filter is_conversion rows) m' \<and>
    (\<Sum>f\<leftarrow>flows'. flow_change E a f) = (\<Sum>f\<leftarrow>flows. flow_change E a f) + lines_before E a rows \<and>
    capital_change E a flows' = capital_change E a flows + capital_lines E a rows"
  using assms(1,2,5)
proof (induction rows arbitrary: m flows "done")
  case (Cons r rows)
  have signs: "\<forall>r \<in> set rows. usual_sign E r" "usual_sign E r" using Cons.prems(3) by simp_all
  from Cons.prems(1) show ?case
  proof (cases rule: classify_step)
    case skipped
    then show ?thesis using Cons.IH [OF skipped(2) Cons.prems(2) signs(1)] line_kinds [of r] by (auto simp: capital_line_def)
  next
    case own
    then show ?thesis using Cons.IH [OF own(4) Cons.prems(2) signs(1)] line_kinds(1) [OF own(1)]
        own_flow_exact [OF assms(3) own(2,3,1) signs(2), of a] by (simp add: capital_line_def)
  next
    case conversion
    then show ?thesis using Cons.IH [OF conversion(2) grouped_push [OF Cons.prems(2)] signs(1)] line_kinds(2) [OF conversion(1)]
      by (simp add: capital_line_def)
  next
    case still
    then have "line_change E a r = 0" using line_net_exact [OF still(4) assms(4), of a] by simp
    then show ?thesis using Cons.IH [OF still(5) Cons.prems(2) signs(1)] still(2) by simp
  next
    case moved
    then show ?thesis using Cons.IH [OF moved(5) Cons.prems(2) signs(1)]
        moved_flow_exact [OF assms(3) moved(4) assms(4), of a] by (simp add: capital_line_def)
  qed
qed simp

lemma conversion_legs_exact:
  "conversion_legs E rows = Some (Inr legs) \<Longrightarrow> reads_back E \<Longrightarrow> de_arith E = exact_arith \<Longrightarrow>
    (\<Sum>l\<leftarrow>legs. if al_asset l = a then leg_amount E l else 0) = (\<Sum>r\<leftarrow>rows. line_change E a r)"
proof (induction rows arbitrary: legs)
  case (Cons r rows)
  obtain d rest where d: "line_net E r = Some (Inr d)" and rest: "conversion_legs E rows = Some (Inr rest)"
    and legs: "legs = (if d = 0 then rest else signed_leg E (lr_asset r) d # rest)"
    using Cons.prems(1) by (auto simp: and_thenp_Inr)
  show ?case using Cons.IH [OF rest Cons.prems(2,3)] line_net_exact [OF d Cons.prems(3), of a]
      signed_leg_amount [OF Cons.prems(2)] by (simp add: legs)
qed simp

lemma conversion_flows_exact:
  "conversion_flows E m = Some (Inr fs) \<Longrightarrow> reads_back E \<Longrightarrow> de_arith E = exact_arith \<Longrightarrow>
    (\<Sum>f\<leftarrow>fs. flow_change E a f) = (\<Sum>(k, rows)\<leftarrow>m. \<Sum>r\<leftarrow>rows. line_change E a r) \<and> (\<forall>f \<in> set fs. \<not> is_capital f)"
proof (induction m arbitrary: fs)
  case (Cons e m)
  obtain k rows where e: "e = (k, rows)" by (cases e)
  obtain legs rest where legs: "conversion_legs E rows = Some (Inr legs)" and rest: "conversion_flows E m = Some (Inr rest)"
    and fs: "fs = (if legs = [] then rest else conversion_flow k rows legs # rest)"
    using Cons.prems(1) by (auto simp: e and_thenp_Inr)
  show ?case using Cons.IH [OF rest Cons.prems(2,3)] conversion_legs_exact [OF legs Cons.prems(2,3), of a]
    by (auto simp: fs e flow_change_def flow_net_def conversion_flow_def is_capital_def)
qed simp

text \<open>
  C35. The flows of a Kraken account lose and invent nothing. For every asset the flows, with their fees, add up to
  what the kept lines of the ledger say, amount less fee; what counts as money put in or taken out is the deposits,
  the withdrawals and the moves to and from futures, and no conversion, reward or unknown line. It is relied on that
  decimals read back, nothing rounds, and no deposit is negative and no withdrawal positive.
\<close>
theorem kraken_flows_conserve:
  assumes "kraken_classify E rows = Some (Inr flows)" and "reads_back E" "de_arith E = exact_arith"
    and "\<forall>r \<in> set rows. usual_sign E r"
  shows "(\<Sum>f\<leftarrow>flows. flow_change E a f) = (\<Sum>r\<leftarrow>filter kept_line rows. line_change E a r) \<and>
    (\<Sum>f\<leftarrow>filter is_capital flows. flow_change E a f) = (\<Sum>r\<leftarrow>filter capital_line rows. line_change E a r)"
proof -
  obtain m fs1 fs2 where rows: "classify_lines E ([], []) rows = Some (Inr (m, fs1))" and groups: "conversion_flows E m = Some (Inr fs2)"
    and flows: "flows = sort_key flow_key (fs1 @ fs2)"
    using assms(1) by (auto simp: kraken_classify_def and_thenp_Inr)
  note c = classify_lines_exact [OF rows grouped_Nil assms(2,3,4), of a]
  note t = conversion_flows_exact [OF groups assms(2,3), of a]
  let ?cs = "filter is_conversion rows"
  have "grouped line_group ?cs m" using c by simp
  then have m: "m = map (\<lambda>k. (k, filter (\<lambda>r. line_group r = k) ?cs)) (map fst m)" and ks: "distinct (map fst m)" "set (map fst m) = line_group ` set ?cs"
    using grouped_entries by blast+
  have "(\<Sum>(k, rs)\<leftarrow>m. \<Sum>r\<leftarrow>rs. line_change E a r) = (\<Sum>k\<leftarrow>map fst m. \<Sum>r\<leftarrow>filter (\<lambda>r. line_group r = k) ?cs. line_change E a r)"
    by (subst m) (simp add: comp_def)
  also have "\<dots> = (\<Sum>r\<leftarrow>?cs. line_change E a r)" using ks by (intro sum_over_keys) simp_all
  finally have all: "(\<Sum>f\<leftarrow>fs2. flow_change E a f) = (\<Sum>r\<leftarrow>?cs. line_change E a r)" using t by simp
  have split: "(\<Sum>r\<leftarrow>filter kept_line rs. line_change E a r) = lines_before E a rs + (\<Sum>r\<leftarrow>filter is_conversion rs. line_change E a r)"
    "(\<Sum>r\<leftarrow>filter capital_line rs. line_change E a r) = capital_lines E a rs" for rs
    by (induction rs) (auto dest: line_kinds(2))
  have filtered: "(\<Sum>f\<leftarrow>filter is_capital fs. flow_change E a f) = (\<Sum>f\<leftarrow>fs. if is_capital f then flow_change E a f else 0)" for fs
    by (induction fs) auto
  have sorted: "(\<Sum>f\<leftarrow>flows. flow_change E a f) = (\<Sum>f\<leftarrow>fs1 @ fs2. flow_change E a f)"
    "(\<Sum>f\<leftarrow>flows. if is_capital f then flow_change E a f else 0) = (\<Sum>f\<leftarrow>fs1 @ fs2. if is_capital f then flow_change E a f else 0)"
    unfolding flows by (rule sum_list_sort_key)+
  have "(\<Sum>f\<leftarrow>fs. if is_capital f then flow_change E a f else 0) = 0" if "\<forall>f \<in> set fs. \<not> is_capital f" for fs
    using that by (induction fs) auto
  then have "(\<Sum>f\<leftarrow>fs2. if is_capital f then flow_change E a f else 0) = 0" using t by blast
  then show ?thesis using c all sorted split [of rows] by (simp add: filtered capital_change_def)
qed

definition sample_line :: "string \<Rightarrow> string \<Rightarrow> string \<Rightarrow> string \<Rightarrow> string \<Rightarrow> ledger_row" where
  "sample_line ident refid kind asset amount = \<lparr>lr_ledger_id = ident, lr_refid = refid, lr_time_ms = 5, lr_entry_type = kind,
     lr_subtype = [], lr_asset = asset, lr_amount = amount, lr_fee = ''1''\<rparr>"

theorem kraken_flows_conserve_witness:
  "\<exists>flows. kraken_classify fraction_dec
       [sample_line ''a'' ''p'' ''deposit'' ''USD'' ''100'', sample_line ''b'' ''q'' ''spend'' ''USD'' ''-100'',
        sample_line ''c'' ''q'' ''receive'' ''BTC'' ''3'', sample_line ''d'' ''r'' ''staking'' ''BTC'' ''2'',
        sample_line ''e'' ''s'' ''trade'' ''BTC'' ''2''] = Some (Inr flows) \<and>
     (\<Sum>f\<leftarrow>flows. flow_change fraction_dec ''BTC'' f) = 3 \<and> (\<Sum>f\<leftarrow>filter is_capital flows. flow_change fraction_dec ''USD'' f) = 99"
proof -
  let ?rows = "[sample_line ''a'' ''p'' ''deposit'' ''USD'' ''100'', sample_line ''b'' ''q'' ''spend'' ''USD'' ''-100'',
        sample_line ''c'' ''q'' ''receive'' ''BTC'' ''3'', sample_line ''d'' ''r'' ''staking'' ''BTC'' ''2'',
        sample_line ''e'' ''s'' ''trade'' ''BTC'' ''2'']"
  have p: "de_parse fraction_dec ''-100'' = Some (- 100)"
    by (simp add: fraction_dec_def split_once_def parse_whole_def digits_value_def)
  have A: "de_arith fraction_dec = exact_arith" by (simp add: fraction_dec_def)
  note d = line_decimal_def line_net_def p sample_parse A
  have low: "to_lower [] = []" by (simp add: to_lower_def)
  have k: "is_wallet_move (sample_line ident refid kind asset amount) = (kind = ''earn'')" for ident refid kind asset amount
    by (simp add: is_wallet_move_def sample_line_def low)
  let ?q = "[sample_line ''b'' ''q'' ''spend'' ''USD'' ''-100'', sample_line ''c'' ''q'' ''receive'' ''BTC'' ''3'']"
  have fields: "lr_fee (sample_line ident refid kind asset amount) = ''1''" "lr_entry_type (sample_line ident refid kind asset amount) = kind"
      "lr_amount (sample_line ident refid kind asset amount) = amount"
      "refid \<noteq> [] \<Longrightarrow> line_group (sample_line ident refid kind asset amount) = refid" for ident refid kind asset amount
    by (simp_all add: sample_line_def line_group_def)
  have "\<exists>fs. classify_lines fraction_dec ([], []) ?rows = Some (Inr ([(''q'', ?q)], fs))"
    by (simp add: k fields d bt_push_def)
  moreover have "\<exists>fs. conversion_flows fraction_dec [(''q'', ?q)] = Some (Inr fs)"
    by (simp add: fields d)
  ultimately have "\<exists>flows. kraken_classify fraction_dec ?rows = Some (Inr flows)"
    unfolding kraken_classify_def by (elim exE) (simp only: and_thenp_simps prod.case, blast)
  then obtain flows where f: "kraken_classify fraction_dec ?rows = Some (Inr flows)" by blast
  have u: "\<forall>r \<in> set ?rows. usual_sign fraction_dec r"
    by (simp add: usual_sign_def sample_line_def line_amount_def p sample_parse)
  have "(\<Sum>r\<leftarrow>filter kept_line ?rows. line_change fraction_dec ''BTC'' r) = 3"
      "(\<Sum>r\<leftarrow>filter capital_line ?rows. line_change fraction_dec ''USD'' r) = 99"
    by (simp_all add: kept_line_def k capital_line_def is_own_move_def is_futures_move_def)
      (simp_all add: sample_line_def line_change_def line_amount_def p sample_parse)
  then show ?thesis using kraken_flows_conserve [OF f fraction_dec_reads_back A u] f by simp
qed

text \<open>
  The sign of a deposit is not looked at: one that was taken back, which the ledger shows as a deposit below zero,
  becomes as much money put in as it took away.
\<close>
theorem kraken_reversed_deposit:
  assumes "lr_entry_type r = ''deposit''" "de_parse E (lr_amount r) = Some d" "d < 0" "de_parse E (lr_fee r) = Some 0" "reads_back E"
  shows "\<exists>f. kraken_classify E [r] = Some (Inr [f]) \<and> is_capital f \<and>
    flow_change E (lr_asset r) f = - line_change E (lr_asset r) r \<and> line_change E (lr_asset r) r < 0"
  using assms by (simp add: kraken_classify_def is_wallet_move_def line_decimal_def own_flow_def is_capital_def flow_change_def
    flow_net_def line_change_def line_amount_def leg_amount_def credit_def reads_back_def)

end
