(* ===== verification/IbkrClient.thy ===== *)
theory IbkrClient
  imports Decimal Strings
begin

text \<open>
  services/collector/ibkr/client: the report of an Interactive Brokers account (wire.rs) and the two calls that
  fetch it (client.rs). The reader of XML gives the structures of the source from a text, and is a parameter; so is
  the network, whose answers depend on how often it was asked. The pauses between polls are left out.
\<close>

section \<open>wire.rs\<close>

datatype wire_error = XmlFault string | NoStatement

record send_response =
  sr_status :: string
  sr_reference_code :: "string option"
  sr_error_code :: "string option"
  sr_error_message :: "string option"

datatype send_outcome = Accepted string | Rejected string string

record raw_equity_row =
  re_report_date :: string
  re_total :: decimal

record raw_cash_transaction =
  rc_report_date :: string
  rc_amount :: decimal
  rc_currency :: string
  rc_kind :: string

record raw_flex_trade =
  rx_trade_date :: string
  rx_symbol :: string
  rx_buy_sell :: string
  rx_quantity :: decimal
  rx_trade_price :: decimal

text \<open>A section that is not in the report is \<open>None\<close>.\<close>

record raw_flex_statement =
  rw_account_id :: string
  rw_equity_summary :: "raw_equity_row list option"
  rw_cash_transactions :: "raw_cash_transaction list option"
  rw_trades :: "raw_flex_trade list option"

record flex_reader =
  fx_send_response :: "string \<Rightarrow> string + send_response"
  fx_statement_error :: "string \<Rightarrow> string + (string option \<times> string option)"
  fx_query_response :: "string \<Rightarrow> string + raw_flex_statement option"

definition is_markup :: "string \<Rightarrow> bool" where
  "is_markup xml \<longleftrightarrow> starts_with (dropWhile is_space xml) ''<''"

definition not_markup :: "string \<Rightarrow> wire_error" where
  "not_markup xml = XmlFault (''Interactive Brokers returned: '' @ trim xml)"

definition or_text :: "string \<Rightarrow> string option \<Rightarrow> string" where
  "or_text d x = (case x of None \<Rightarrow> d | Some s \<Rightarrow> s)"

definition parse_send_request :: "flex_reader \<Rightarrow> string \<Rightarrow> wire_error + send_outcome" where
  "parse_send_request X xml =
     (if \<not> is_markup xml then Inl (not_markup xml)
      else and_then (map_err XmlFault (fx_send_response X xml)) (\<lambda>r.
        if sr_status r = ''Success''
        then and_then (ok_or (XmlFault ''Success response missing ReferenceCode'') (sr_reference_code r)) (\<lambda>c. Inr (Accepted c))
        else Inr (Rejected (or_text [] (sr_error_code r)) (or_text ''no error message given'' (sr_error_message r)))))"

definition STILL_GENERATING :: string where "STILL_GENERATING = ''1019''"

record equity_point =
  eq_report_date :: string
  eq_total :: decimal

record cash_flow =
  cf_report_date :: string
  cf_amount :: decimal
  cf_currency :: string

record trade_record =
  tx_trade_date :: string
  tx_symbol :: string
  tx_is_buy :: bool
  tx_quantity :: decimal
  tx_price :: decimal

record flex_statement =
  fs_account_id :: string
  fs_equity :: "equity_point list"
  fs_flows :: "cash_flow list"
  fs_trades :: "trade_record list"

definition rows_of :: "'a list option \<Rightarrow> 'a list" where
  "rows_of x = (case x of None \<Rightarrow> [] | Some rows \<Rightarrow> rows)"

definition statement_of :: "raw_flex_statement \<Rightarrow> flex_statement" where
  "statement_of raw =
     \<lparr>fs_account_id = rw_account_id raw,
      fs_equity = map (\<lambda>r. \<lparr>eq_report_date = re_report_date r, eq_total = re_total r\<rparr>) (rows_of (rw_equity_summary raw)),
      fs_flows = map (\<lambda>r. \<lparr>cf_report_date = rc_report_date r, cf_amount = rc_amount r, cf_currency = rc_currency r\<rparr>)
        (filter (\<lambda>r. rc_kind r = ''Deposits/Withdrawals'') (rows_of (rw_cash_transactions raw))),
      fs_trades = map (\<lambda>r. \<lparr>tx_trade_date = rx_trade_date r, tx_symbol = rx_symbol r, tx_is_buy = (rx_buy_sell r = ''BUY''),
        tx_quantity = rx_quantity r, tx_price = rx_trade_price r\<rparr>) (rows_of (rw_trades raw))\<rparr>"

text \<open>The statement, or the code and message of a refusal.\<close>

definition parse_get_statement :: "flex_reader \<Rightarrow> string \<Rightarrow> wire_error + ((string \<times> string) + flex_statement)" where
  "parse_get_statement X xml =
     (if \<not> is_markup xml then Inl (not_markup xml)
      else if contains_text xml ''<FlexStatementResponse''
      then and_then (map_err XmlFault (fx_statement_error X xml)) (\<lambda>(code, message).
        Inr (Inl (or_text [] code, or_text ''unknown error'' message)))
      else and_then (map_err XmlFault (fx_query_response X xml)) (\<lambda>r.
        and_then (ok_or NoStatement r) (\<lambda>raw. Inr (Inr (statement_of raw)))))"

section \<open>client.rs\<close>

definition HOST :: string where "HOST = ''https://ndcdyn.interactivebrokers.com/AccountManagement/FlexWebService''"
definition POLL_ATTEMPTS :: nat where "POLL_ATTEMPTS = 10"

datatype ibkr_error = INetwork string | IWire wire_error | IRejected string string | TimedOut

record ibkr_credentials =
  ic_token :: string
  ic_query_id :: string

definition new_ibkr_credentials :: "string \<Rightarrow> string \<Rightarrow> ibkr_error + ibkr_credentials" where
  "new_ibkr_credentials token query_id =
     (if trim token = [] \<or> trim query_id = [] then Inl (IRejected ''0'' ''both the token and the query ID are required'')
      else Inr \<lparr>ic_token = trim token, ic_query_id = trim query_id\<rparr>)"

text \<open>A request: how many went before it, and its address. A network error carries no address.\<close>

type_synonym flex_network = "nat \<Rightarrow> string \<Rightarrow> string + string"

definition send_url :: "ibkr_credentials \<Rightarrow> string" where
  "send_url c = HOST @ ''/SendRequest?t='' @ ic_token c @ ''&q='' @ ic_query_id c @ ''&v=3''"

definition poll_url :: "ibkr_credentials \<Rightarrow> string \<Rightarrow> string" where
  "poll_url c reference_code = HOST @ ''/GetStatement?q='' @ reference_code @ ''&t='' @ ic_token c @ ''&v=3''"

definition send_request :: "flex_reader \<Rightarrow> flex_network \<Rightarrow> ibkr_credentials \<Rightarrow> ibkr_error + string" where
  "send_request X net c =
     and_then (map_err INetwork (net 0 (send_url c))) (\<lambda>body.
     and_then (map_err IWire (parse_send_request X body)) (\<lambda>outcome. case outcome of
         Accepted reference_code \<Rightarrow> Inr reference_code
       | Rejected code message \<Rightarrow> Inl (IRejected code message)))"

text \<open>The polls that are left, after some.\<close>

fun poll_from :: "flex_reader \<Rightarrow> flex_network \<Rightarrow> string \<Rightarrow> nat \<Rightarrow> nat \<Rightarrow> ibkr_error + flex_statement" where
  "poll_from X net url asked 0 = Inl TimedOut"
| "poll_from X net url asked (Suc left') =
     and_then (map_err INetwork (net asked url)) (\<lambda>body.
     and_then (map_err IWire (parse_get_statement X body)) (\<lambda>r. case r of
         Inr statement \<Rightarrow> Inr statement
       | Inl (code, message) \<Rightarrow> if code = STILL_GENERATING then poll_from X net url (Suc asked) left' else Inl (IRejected code message)))"

definition poll_statement :: "flex_reader \<Rightarrow> flex_network \<Rightarrow> ibkr_credentials \<Rightarrow> string \<Rightarrow> ibkr_error + flex_statement" where
  "poll_statement X net c reference_code = poll_from X net (poll_url c reference_code) 1 POLL_ATTEMPTS"

definition fetch_report :: "flex_reader \<Rightarrow> flex_network \<Rightarrow> ibkr_credentials \<Rightarrow> ibkr_error + flex_statement" where
  "fetch_report X net c = and_then (send_request X net c) (\<lambda>reference_code. poll_statement X net c reference_code)"

section \<open>A report that is ready in time is fetched\<close>

lemma poll_from_ready:
  assumes "parse_get_statement X body = Inr (Inr st)" and "k < left'" and "net (asked + k) url = Inr body"
    and "\<And>i. i < k \<Longrightarrow> \<exists>b m. net (asked + i) url = Inr b \<and> parse_get_statement X b = Inr (Inl (STILL_GENERATING, m))"
  shows "poll_from X net url asked left' = Inr st"
  using assms(2,3,4)
proof (induction k arbitrary: asked left')
  case 0
  then obtain n where "left' = Suc n" by (cases left') auto
  then show ?case using 0 assms(1) by simp
next
  case (Suc k)
  obtain n where n: "left' = Suc n" "k < n" using Suc.prems(1) by (cases left') auto
  obtain b m where first: "net asked url = Inr b" "parse_get_statement X b = Inr (Inl (STILL_GENERATING, m))"
    using Suc.prems(3) [of 0] by auto
  have "poll_from X net url (Suc asked) n = Inr st"
  proof (rule Suc.IH [OF n(2)])
    show "net (Suc asked + k) url = Inr body" using Suc.prems(2) by simp
    fix i assume "i < k"
    then show "\<exists>b m. net (Suc asked + i) url = Inr b \<and> parse_get_statement X b = Inr (Inl (STILL_GENERATING, m))"
      using Suc.prems(3) [of "Suc i"] by simp
  qed
  then show ?case by (simp add: n first)
qed

end
