(* ===== verification/IbkrWorker.thy ===== *)
theory IbkrWorker
  imports IbkrClient CoinbaseWorker Chart
begin

text \<open>
  services/collector/binance/worker, ibkr.rs: the tables of the Interactive Brokers connections, a sync of the daily
  report, and the index and the figures computed from the stored days. A date is its number of days
  since 1970; reading one from a text, and the date of a moment, are parameters. The tables are maps from their primary
  keys; a statement is taken to succeed. Among rows the query does not order, the model has them in the order
  of their keys. The outer \<open>None\<close> is a panic of the decimal operators.
\<close>

section \<open>The tables\<close>

definition IBKR_DAY_MS :: int where "IBKR_DAY_MS = 86400000"

record ibkr_connection =
  ik_id :: string
  ik_account_id :: string
  ik_encrypted_token :: bytes
  ik_nonce_token :: bytes
  ik_encrypted_query_id :: bytes
  ik_nonce_query_id :: bytes
  ik_label :: "string option"
  ik_status :: string
  ik_created_at_ms :: nat
  ik_last_synced_at :: "nat option"

datatype ibkr_key_fault = CorruptToken | CorruptQueryId | IbkrCrypto crypto_error | IbkrCredentials ibkr_error

definition ibkr_credentials_of :: "crypto_env \<Rightarrow> master_key \<Rightarrow> ibkr_connection \<Rightarrow> ibkr_key_fault + ibkr_credentials" where
  "ibkr_credentials_of V master c =
     (if length (ik_nonce_token c) \<noteq> 12 then Inl CorruptToken
      else if length (ik_nonce_query_id c) \<noteq> 12 then Inl CorruptQueryId
      else and_then (map_err IbkrCrypto (decrypt_text V master (ik_encrypted_token c) (ik_nonce_token c)
          (credential_context ''ibkr'' (ik_account_id c) ''token''))) (\<lambda>token.
        and_then (map_err IbkrCrypto (decrypt_text V master (ik_encrypted_query_id c) (ik_nonce_query_id c)
          (credential_context ''ibkr'' (ik_account_id c) ''query_id''))) (\<lambda>query_id.
          map_err IbkrCredentials (new_ibkr_credentials token query_id))))"

record ibkr_trade_cell =
  itc_is_buy :: bool
  itc_quantity :: decimal
  itc_price :: decimal

text \<open>The key of a trade is its connection, day, symbol and place in the report.\<close>

record ibkr_db =
  id_connections :: "ibkr_connection list"
  id_equity :: "(string \<times> int, decimal) btree"
  id_flows :: "(string \<times> int \<times> decimal, string) btree"
  id_trades :: "(string \<times> int \<times> string \<times> int, ibkr_trade_cell) btree"

definition ibkr_insert_connection ::
    "string \<Rightarrow> nat \<Rightarrow> ibkr_db \<Rightarrow> string \<Rightarrow> encrypted_field \<Rightarrow> encrypted_field \<Rightarrow> string \<times> ibkr_db" where
  "ibkr_insert_connection new_id now db account_id token query_id =
     (case find (\<lambda>c. ik_account_id c = account_id) (id_connections db) of
        Some c \<Rightarrow> (ik_id c, db\<lparr>id_connections := map (\<lambda>c. if ik_account_id c = account_id
          then c\<lparr>ik_encrypted_token := ef_ciphertext token, ik_nonce_token := encrypted_field.ef_nonce token,
            ik_encrypted_query_id := ef_ciphertext query_id, ik_nonce_query_id := encrypted_field.ef_nonce query_id,
            ik_status := ''active''\<rparr> else c) (id_connections db)\<rparr>)
      | None \<Rightarrow> (new_id, db\<lparr>id_connections := id_connections db @
          [\<lparr>ik_id = new_id, ik_account_id = account_id, ik_encrypted_token = ef_ciphertext token,
            ik_nonce_token = encrypted_field.ef_nonce token, ik_encrypted_query_id = ef_ciphertext query_id,
            ik_nonce_query_id = encrypted_field.ef_nonce query_id, ik_label = None, ik_status = ''active'',
            ik_created_at_ms = now, ik_last_synced_at = None\<rparr>]\<rparr>))"

definition ibkr_delete_connection :: "ibkr_db \<Rightarrow> string \<Rightarrow> bool \<times> ibkr_db" where
  "ibkr_delete_connection db i =
     (\<exists>c \<in> set (id_connections db). ik_id c = i,
      \<lparr>id_connections = filter (\<lambda>c. ik_id c \<noteq> i) (id_connections db), id_equity = filter (\<lambda>(k, _). fst k \<noteq> i) (id_equity db),
       id_flows = filter (\<lambda>(k, _). fst k \<noteq> i) (id_flows db), id_trades = filter (\<lambda>(k, _). fst k \<noteq> i) (id_trades db)\<rparr>)"

definition ibkr_update :: "string \<Rightarrow> (ibkr_connection \<Rightarrow> ibkr_connection) \<Rightarrow> ibkr_db \<Rightarrow> ibkr_db" where
  "ibkr_update i f db = db\<lparr>id_connections := map (\<lambda>c. if ik_id c = i then f c else c) (id_connections db)\<rparr>"

definition ibkr_set_label :: "ibkr_db \<Rightarrow> string \<Rightarrow> string \<Rightarrow> ibkr_db" where
  "ibkr_set_label db i label = ibkr_update i (\<lambda>c. c\<lparr>ik_label := Some label\<rparr>) db"

definition ibkr_find_by_account :: "ibkr_db \<Rightarrow> string \<Rightarrow> ibkr_connection option" where
  "ibkr_find_by_account db account_id = find (\<lambda>c. ik_account_id c = account_id) (id_connections db)"

definition ibkr_created_at_ms :: "ibkr_db \<Rightarrow> string \<Rightarrow> nat option" where
  "ibkr_created_at_ms db i = map_option ik_created_at_ms (find (\<lambda>c. ik_id c = i) (id_connections db))"

definition ibkr_owned_by :: "ibkr_db \<Rightarrow> string \<Rightarrow> (string \<times> string option \<times> nat \<times> string) list" where
  "ibkr_owned_by db owner_address =
     map (\<lambda>c. (ik_account_id c, ik_label c, ik_created_at_ms c, ik_status c))
       (sort_key ik_created_at_ms (filter (\<lambda>c. owned_account owner_address (ik_account_id c)) (id_connections db)))"

definition ibkr_due_for_sync :: "ibkr_db \<Rightarrow> nat \<Rightarrow> nat \<Rightarrow> ibkr_connection list" where
  "ibkr_due_for_sync db now interval_seconds =
     filter (\<lambda>c. ik_status c = ''active'' \<and>
       (case ik_last_synced_at c of None \<Rightarrow> True | Some t \<Rightarrow> t + 1000 * interval_seconds < now)) (id_connections db)"

section \<open>A sync\<close>

record dates =
  da_parse :: "string \<Rightarrow> int option"
  da_of_ms :: "int \<Rightarrow> int option"

definition parse_report_date :: "dates \<Rightarrow> string \<Rightarrow> int option" where
  "parse_report_date D msg = da_parse D msg"

definition date_at_ms :: "dates \<Rightarrow> int \<Rightarrow> int" where
  "date_at_ms D ms = (case da_of_ms D ms of None \<Rightarrow> 0 | Some d \<Rightarrow> d)"

definition ms_at_date :: "int \<Rightarrow> int" where "ms_at_date d = d * IBKR_DAY_MS"

text \<open>The day of a row of the report, where it can be read and the account was connected.\<close>

definition kept_date :: "dates \<Rightarrow> int \<Rightarrow> string \<Rightarrow> int option" where
  "kept_date D since_date msg = (case parse_report_date D msg of
     None \<Rightarrow> None | Some d \<Rightarrow> if d < since_date then None else Some d)"

definition store_equity :: "dates \<Rightarrow> string \<Rightarrow> int \<Rightarrow> ibkr_db \<Rightarrow> equity_point \<Rightarrow> ibkr_db" where
  "store_equity D i since_date db p = (case kept_date D since_date (eq_report_date p) of None \<Rightarrow> db
     | Some d \<Rightarrow> db\<lparr>id_equity := bt_insert (i, d) (eq_total p) (id_equity db)\<rparr>)"

definition store_flow :: "dates \<Rightarrow> string \<Rightarrow> int \<Rightarrow> ibkr_db \<Rightarrow> cash_flow \<Rightarrow> ibkr_db" where
  "store_flow D i since_date db f = (case kept_date D since_date (cf_report_date f) of None \<Rightarrow> db
     | Some d \<Rightarrow> if map_of (id_flows db) (i, d, cf_amount f) = None
         then db\<lparr>id_flows := bt_insert (i, d, cf_amount f) (cf_currency f) (id_flows db)\<rparr> else db)"

definition store_trade :: "dates \<Rightarrow> string \<Rightarrow> int \<Rightarrow> ibkr_db \<Rightarrow> nat \<times> trade_record \<Rightarrow> ibkr_db" where
  "store_trade D i since_date db = (\<lambda>(ordinal, t). case kept_date D since_date (tx_trade_date t) of None \<Rightarrow> db
     | Some d \<Rightarrow> let k = (i, d, tx_symbol t, wrap_s 32 (int ordinal)) in
         if map_of (id_trades db) k = None
         then db\<lparr>id_trades := bt_insert k \<lparr>itc_is_buy = tx_is_buy t, itc_quantity = tx_quantity t, itc_price = tx_price t\<rparr> (id_trades db)\<rparr>
         else db)"

definition store_statement :: "dates \<Rightarrow> string \<Rightarrow> int \<Rightarrow> flex_statement \<Rightarrow> ibkr_db \<Rightarrow> ibkr_db" where
  "store_statement D i since_date st db =
     foldl (store_trade D i since_date) (foldl (store_flow D i since_date) (foldl (store_equity D i since_date) db (fs_equity st)) (fs_flows st))
       (enumerate 0 (fs_trades st))"

datatype ibkr_sync_error = IbkrNoConnection | IbkrReport ibkr_error

definition ibkr_sync :: "dates \<Rightarrow> ibkr_error + flex_statement \<Rightarrow> ibkr_db \<Rightarrow> string \<Rightarrow> nat \<Rightarrow> (ibkr_sync_error + unit) \<times> ibkr_db" where
  "ibkr_sync D report db i now = (case ibkr_created_at_ms db i of
     None \<Rightarrow> (Inl IbkrNoConnection, db)
   | Some since_ms \<Rightarrow> (case report of
       Inl e \<Rightarrow> (Inl (IbkrReport e), db)
     | Inr st \<Rightarrow> (Inr (), ibkr_update i (\<lambda>c. c\<lparr>ik_last_synced_at := Some now\<rparr>)
         (store_statement D i (date_at_ms D (int since_ms)) st db))))"

section \<open>The index\<close>

definition stored_equity :: "ibkr_db \<Rightarrow> string \<Rightarrow> (int \<times> decimal) list" where
  "stored_equity db i = map (\<lambda>((_, d), t). (d, t)) (filter (\<lambda>(k, _). fst k = i) (id_equity db))"

definition ibkr_stored_flows :: "ibkr_db \<Rightarrow> string \<Rightarrow> (int \<times> decimal) list" where
  "ibkr_stored_flows db i = map (\<lambda>((_, d, amount), _). (d, amount)) (filter (\<lambda>(k, _). fst k = i) (id_flows db))"

definition ibkr_stored_trades :: "ibkr_db \<Rightarrow> string \<Rightarrow> (int \<times> ibkr_trade_cell) list" where
  "ibkr_stored_trades db i = map (\<lambda>((_, d, _, _), t). (d, t))
     (sort_key (\<lambda>((_, d, _, ordinal), _). (d, ordinal)) (filter (\<lambda>(k, _). fst k = i) (id_trades db)))"

definition stored_equity_count :: "ibkr_db \<Rightarrow> string \<Rightarrow> nat" where
  "stored_equity_count db i = length (filter (\<lambda>(k, _). fst k = i) (id_equity db))"

definition ibkr_flow_count :: "ibkr_db \<Rightarrow> string \<Rightarrow> nat" where
  "ibkr_flow_count db i = length (filter (\<lambda>(k, _). fst k = i) (id_flows db))"

definition ibkr_currency :: "ibkr_db \<Rightarrow> string \<Rightarrow> string" where
  "ibkr_currency db i = (case filter (\<lambda>(k, _). fst k = i) (id_flows db) of [] \<Rightarrow> ''USD'' | (_, currency) # _ \<Rightarrow> currency)"

record ibkr_index_point =
  ip_time_ms :: nat
  ip_nav :: decimal
  ip_index :: decimal

definition add_flow :: "arith \<Rightarrow> (int, decimal) btree \<Rightarrow> int \<times> decimal \<Rightarrow> (int, decimal) btree option" where
  "add_flow A m = (\<lambda>(d, amount).
     map_option (\<lambda>x. bt_insert d x m) (dadd A (case map_of m d of None \<Rightarrow> 0 | Some x \<Rightarrow> x) amount))"

definition grown :: "arith \<Rightarrow> decimal \<Rightarrow> decimal \<Rightarrow> decimal \<Rightarrow> decimal \<Rightarrow> decimal option" where
  "grown A index previous flow total' =
     Option.bind (dsub A total' flow) (\<lambda>net. Option.bind (ddiv A net previous) (\<lambda>q. Option.bind (dsub A q 1) (\<lambda>period_return.
     Option.bind (dadd A 1 period_return) (dmul A index))))"

fun index_loop :: "arith \<Rightarrow> (int, decimal) btree \<Rightarrow> decimal \<Rightarrow> decimal option \<Rightarrow> (int \<times> decimal) list \<Rightarrow> ibkr_index_point list option" where
  "index_loop A flows index previous [] = Some []"
| "index_loop A flows index previous ((d, total') # days) =
     Option.bind (case previous of
         Some p \<Rightarrow> if p > 0 then grown A index p (case map_of flows d of None \<Rightarrow> 0 | Some x \<Rightarrow> x) total' else Some index
       | None \<Rightarrow> Some index) (\<lambda>index.
     map_option (\<lambda>points. \<lparr>ip_time_ms = as_u64 (ms_at_date d), ip_nav = total', ip_index = index\<rparr> # points)
       (index_loop A flows index (Some total') days))"

definition build_index :: "arith \<Rightarrow> (int \<times> decimal) list \<Rightarrow> (int \<times> decimal) list \<Rightarrow> ibkr_index_point list option" where
  "build_index A equity flows = (if equity = [] then Some []
     else Option.bind (try_fold (add_flow A) [] flows) (\<lambda>by_date. index_loop A by_date 1 None equity))"

definition ibkr_series :: "arith \<Rightarrow> ibkr_db \<Rightarrow> string \<Rightarrow> series_range \<Rightarrow> int \<Rightarrow> (ibkr_index_point list \<times> nat) option" where
  "ibkr_series A db i range' now_ms =
     map_option (\<lambda>points. (case window_ms range' of None \<Rightarrow> points
       | Some w \<Rightarrow> filter (\<lambda>p. wrap_i64 (int (ip_time_ms p)) \<ge> wrap_i64 (now_ms - int w)) points, nat IBKR_DAY_MS))
     (build_index A (stored_equity db i) (ibkr_stored_flows db i))"

record ibkr_performance =
  ib_daily_nav :: "(nat \<times> decimal) list"
  ib_daily_returns :: "decimal list"
  ib_sharpe :: "stats_error + decimal"
  ib_sortino :: "stats_error + decimal"
  ib_max_drawdown :: "drawdown_episode option"
  ib_cagr :: "cagr_error + decimal"
  ib_win_rate :: "win_rate_result option"
  ib_earliest_reliable_checkpoint_ms :: "nat option"
  ib_total_change :: decimal
  ib_currency :: string

fun ratios :: "arith \<Rightarrow> ibkr_index_point list \<Rightarrow> decimal list option" where
  "ratios A (p # q # ps) = Option.bind (ddiv A (ip_index q) (ip_index p)) (\<lambda>x. Option.bind (dsub A x 1) (\<lambda>r.
     map_option (\<lambda>rs. r # rs) (ratios A (q # ps))))"
| "ratios A _ = Some []"

definition growth_of :: "arith \<Rightarrow> (decimal \<Rightarrow> decimal \<Rightarrow> decimal option) \<Rightarrow> ibkr_index_point list \<Rightarrow> cagr_error + decimal" where
  "growth_of A pw points = (case points of
     first # _ \<Rightarrow> let final = last points in
       if ip_time_ms final > ip_time_ms first
       then cagr A pw (ip_index first) (ip_index final) (wrap_u 32 ((ip_time_ms final - ip_time_ms first) div nat IBKR_DAY_MS))
       else Inl (CagrInsufficientSample 0 365)
   | [] \<Rightarrow> Inl (CagrInsufficientSample 0 365))"

definition change_of :: "arith \<Rightarrow> (int \<times> decimal) list \<Rightarrow> (int \<times> decimal) list \<Rightarrow> decimal option" where
  "change_of A equity flows = Option.bind (dsum A (map snd flows)) (\<lambda>net_flows. case equity of
     (_, first) # _ \<Rightarrow> Option.bind (dsub A (snd (last equity)) first) (\<lambda>x. dsub A x net_flows)
   | [] \<Rightarrow> Some 0)"

definition ibkr_fills :: "(int \<times> ibkr_trade_cell) list \<Rightarrow> fill list" where
  "ibkr_fills trades = map (\<lambda>(d, t). \<lparr>fl_time_ms = as_u64 (ms_at_date d), fl_qty = itc_quantity t, fl_price = itc_price t,
     fl_is_buy = itc_is_buy t\<rparr>) trades"

definition ibkr_load_performance ::
    "arith \<Rightarrow> (decimal \<Rightarrow> decimal option) \<Rightarrow> (decimal \<Rightarrow> decimal \<Rightarrow> decimal option) \<Rightarrow> ibkr_db \<Rightarrow> string \<Rightarrow> ibkr_performance option" where
  "ibkr_load_performance A sq pw db i =
     (let equity = stored_equity db i; flows = ibkr_stored_flows db i in
      Option.bind (build_index A equity flows) (\<lambda>points.
      Option.bind (ratios A points) (\<lambda>daily_returns.
      Option.bind (sharpe A sq daily_returns 0) (\<lambda>sh.
      Option.bind (sortino A sq daily_returns 0) (\<lambda>so.
      Option.bind (max_drawdown A (map (\<lambda>p. \<lparr>pt_time_ms = ip_time_ms p, pt_index = ip_index p\<rparr>) points)) (\<lambda>dd.
      Option.bind (compute_win_rate A (ibkr_fills (ibkr_stored_trades db i))) (\<lambda>wr.
      Option.bind (change_of A equity flows) (\<lambda>total_change.
        Some \<lparr>ib_daily_nav = map (\<lambda>p. (ip_time_ms p, ip_nav p)) points, ib_daily_returns = daily_returns, ib_sharpe = sh,
          ib_sortino = so, ib_max_drawdown = dd, ib_cagr = growth_of A pw points,
          ib_win_rate = (case wr of Inl _ \<Rightarrow> None | Inr w \<Rightarrow> Some w),
          ib_earliest_reliable_checkpoint_ms = (case points of [] \<Rightarrow> None | p # _ \<Rightarrow> Some (ip_time_ms p)),
          ib_total_change = total_change, ib_currency = ibkr_currency db i\<rparr>))))))))"

definition ibkr_current_nav :: "ibkr_db \<Rightarrow> string \<Rightarrow> (decimal \<times> string) option" where
  "ibkr_current_nav db i = (case stored_equity db i of [] \<Rightarrow> None
     | days \<Rightarrow> Some (snd (last days), ibkr_currency db i))"

section \<open>The index is the time-weighted return\<close>

definition flow_on :: "(int \<times> decimal) list \<Rightarrow> int \<Rightarrow> decimal" where
  "flow_on flows d = (\<Sum>(d', amount)\<leftarrow>flows. if d' = d then amount else 0)"

text \<open>
  The days and the flows as events of the returns, every flow at its own day. A flow between two days of the report
  moves the baseline there; on a day of the report the account is valued before the flow of that day. Nothing in it
  is taken from \<open>build_index\<close>.
\<close>

definition between_days :: "(int \<times> decimal) list \<Rightarrow> int \<Rightarrow> int \<Rightarrow> (int \<times> decimal) list" where
  "between_days flows d d' = sort_key fst (filter (\<lambda>f. d < fst f \<and> fst f < d') flows)"

fun day_events :: "(int \<times> decimal) list \<Rightarrow> int \<Rightarrow> (int \<times> decimal) list \<Rightarrow> timeline_event list" where
  "day_events flows before [] = []"
| "day_events flows before ((d, total') # days) =
     map (\<lambda>(d', amount). Flow (as_u64 (ms_at_date d')) amount) (between_days flows before d) @
     Valuation (as_u64 (ms_at_date d)) (total' - flow_on flows d) # Flow (as_u64 (ms_at_date d)) (flow_on flows d) #
     day_events flows d days"

fun ibkr_timeline :: "(int \<times> decimal) list \<Rightarrow> (int \<times> decimal) list \<Rightarrow> timeline_event list" where
  "ibkr_timeline [] flows = []"
| "ibkr_timeline ((d, total') # days) flows = Valuation (as_u64 (ms_at_date d)) total' # day_events flows d days"

text \<open>Every flow between the first and the last day of the report is dated on a day of the report.\<close>

definition flows_on_report_days :: "(int \<times> decimal) list \<Rightarrow> (int \<times> decimal) list \<Rightarrow> bool" where
  "flows_on_report_days equity flows \<longleftrightarrow> (\<forall>d \<in> fst ` set flows. fst (hd equity) < d \<longrightarrow> d < fst (last equity) \<longrightarrow> d \<in> fst ` set equity)"

definition at_day :: "(int, decimal) btree \<Rightarrow> int \<Rightarrow> decimal" where
  "at_day m d = (case map_of m d of None \<Rightarrow> 0 | Some x \<Rightarrow> x)"

lemma add_flow_step [simp]: "add_flow exact_arith m (d, amount) = Some (bt_insert d (at_day m d + amount) m)"
  by (simp add: add_flow_def at_day_def)

lemma add_flows_exact:
  "try_fold (add_flow exact_arith) m flows = Some m' \<Longrightarrow> bt_ok m \<Longrightarrow> bt_ok m' \<and> at_day m' d = at_day m d + flow_on flows d"
proof (induction flows arbitrary: m)
  case (Cons f flows)
  obtain d' amount where f: "f = (d', amount)" by (cases f)
  let ?m = "bt_insert d' (at_day m d' + amount) m"
  have step: "try_fold (add_flow exact_arith) ?m flows = Some m'" using Cons.prems(1) by (simp add: f)
  have "bt_ok ?m" using Cons.prems(2) by (rule bt_ok_insert)
  from Cons.IH [OF step this] show ?case using Cons.prems(2) by (auto simp: f flow_on_def at_day_def)
qed (simp add: flow_on_def)

lemma grown_exact: "p > 0 \<Longrightarrow> grown exact_arith index p flow total' = Some (index * ((total' - flow) / p))"
  by (simp add: grown_def)

text \<open>Between two neighbouring days of the report there is then no flow.\<close>

definition gapless :: "(int \<times> decimal) list \<Rightarrow> int \<Rightarrow> (int \<times> decimal) list \<Rightarrow> bool" where
  "gapless flows before days \<longleftrightarrow> (\<forall>d \<in> fst ` set flows. before < d \<longrightarrow> days \<noteq> [] \<longrightarrow> d < fst (last days) \<longrightarrow> d \<in> fst ` set days)"

lemma gapless_step:
  assumes "gapless flows before ((d, e) # days)" "sorted_wrt (<) (before # d # map fst days)"
  shows "between_days flows before d = []" "gapless flows d days"
proof -
  have last: "d \<le> fst (last ((d, e) # days))" using assms(2) by (cases days rule: rev_cases) auto
  have "\<not> (before < fst f \<and> fst f < d)" if "f \<in> set flows" for f
    using assms that last by (fastforce simp: gapless_def)
  then show "between_days flows before d = []" by (auto simp: between_days_def filter_empty_conv)
  show "gapless flows d days" using assms by (fastforce simp: gapless_def)
qed

lemma index_loop_exact:
  assumes "p > 0" and "\<forall>(d, e) \<in> set days. e > 0" and "at_day m = flow_on flows"
    and "gapless flows before days" and "sorted_wrt (<) (before # map fst days)"
  shows "\<exists>points. index_loop exact_arith m index (Some p) days = Some points \<and>
    last (index # map ip_index points) = index * (\<Prod>q\<leftarrow>subperiods (Some p) (day_events flows before days). snd q / fst q) \<and>
    (\<forall>q \<in> set (subperiods (Some p) (day_events flows before days)). fst q > 0)"
  using assms(1,2,4,5)
proof (induction days arbitrary: p index before)
  case (Cons day days)
  obtain d e where day: "day = (d, e)" by (cases day)
  have e: "e > 0" and rest: "\<forall>(d, e) \<in> set days. e > 0" using Cons.prems(2) by (simp_all add: day)
  have sorted: "sorted_wrt (<) (before # d # map fst days)" using Cons.prems(4) by (simp add: day)
  note gap = gapless_step [OF Cons.prems(3) [unfolded day] sorted]
  let ?i = "index * ((e - flow_on flows d) / p)"
  have "sorted_wrt (<) (d # map fst days)" using sorted by simp
  from Cons.IH [OF e rest gap(2) this, of ?i] obtain points where points: "index_loop exact_arith m ?i (Some e) days = Some points"
      "last (?i # map ip_index points) = ?i * (\<Prod>q\<leftarrow>subperiods (Some e) (day_events flows d days). snd q / fst q)"
      "\<forall>q \<in> set (subperiods (Some e) (day_events flows d days)). fst q > 0"
    by blast
  let ?pt = "\<lparr>ip_time_ms = as_u64 (ms_at_date d), ip_nav = e, ip_index = ?i\<rparr>"
  have "(case map_of m d of None \<Rightarrow> 0 | Some x \<Rightarrow> x) = flow_on flows d" using fun_cong [OF assms(3), of d] by (simp add: at_day_def)
  then have "index_loop exact_arith m index (Some p) (day # days) = Some (?pt # points)"
    using Cons.prems(1) points(1) grown_exact [OF Cons.prems(1), of index "flow_on flows d" e] by (simp add: day)
  moreover have "subperiods (Some p) (day_events flows before (day # days)) =
      (p, e - flow_on flows d) # subperiods (Some e) (day_events flows d days)" by (simp add: day gap(1))
  ultimately show ?case using points(2,3) Cons.prems(1) by (simp add: mult.assoc)
qed simp

text \<open>
  C36. The index of an Interactive Brokers account is its time-weighted return. Where every day of the report values the
  account above zero and every flow between the first and the last day is dated on a day of the report, the index
  computed from the stored days and flows ends at the index the crate of returns gives for all those days and all
  those flows, each flow at its own day. (The condition on the flows is needed: see
  \<open>ibkr_flow_between_reports_is_a_gain\<close>.)
\<close>
theorem ibkr_index_is_twr:
  assumes "equity \<noteq> []" and "\<forall>(d, e) \<in> set equity. e > 0" and "sorted_wrt (<) (map fst equity)"
    and "flows_on_report_days equity flows"
  shows "\<exists>points r. build_index exact_arith equity flows = Some points \<and> compute_twr exact_arith (ibkr_timeline equity flows) = Inr r \<and>
    points \<noteq> [] \<and> ip_index (last points) = tw_index r"
proof -
  obtain d e days where equity: "equity = (d, e) # days" using assms(1) by (cases equity) auto
  have e: "e > 0" and rest: "\<forall>(d, e) \<in> set days. e > 0" using assms(2) by (simp_all add: equity)
  have gap: "gapless flows d days" using assms(3,4) by (fastforce simp: gapless_def flows_on_report_days_def equity)
  have sorted: "sorted_wrt (<) (d # map fst days)" using assms(3) by (simp add: equity)
  obtain m where m: "try_fold (add_flow exact_arith) [] flows = Some m"
  proof -
    have "\<exists>m. try_fold (add_flow exact_arith) m0 flows = Some m" for m0
      by (induction flows arbitrary: m0) auto
    then show thesis using that by blast
  qed
  have at: "at_day m = flow_on flows" using add_flows_exact [OF m] by (simp add: at_day_def fun_eq_iff)
  let ?periods = "subperiods (Some e) (day_events flows d days)"
  obtain points where points: "index_loop exact_arith m 1 (Some e) days = Some points"
      "last (1 # map ip_index points) = (\<Prod>q\<leftarrow>?periods. snd q / fst q)" "\<forall>q \<in> set ?periods. fst q > 0"
    using index_loop_exact [OF e rest at gap sorted, of 1] by auto
  let ?all = "\<lparr>ip_time_ms = as_u64 (ms_at_date d), ip_nav = e, ip_index = 1\<rparr> # points"
  have built: "build_index exact_arith equity flows = Some ?all" by (simp add: build_index_def m equity points(1))
  have "ip_index (last ?all) = last (map ip_index ?all)" by (rule last_map [symmetric]) simp
  then have final: "ip_index (last ?all) = (\<Prod>q\<leftarrow>?periods. snd q / fst q)" using points(2) by simp
  have "find (\<lambda>p. fst p \<le> 0) ?periods = None" using points(3) by (auto simp: find_None_iff)
  then have "compute_twr exact_arith (ibkr_timeline equity flows) =
      Inr \<lparr>tw_index = (\<Prod>q\<leftarrow>?periods. snd q / fst q), tw_sub_returns = map (\<lambda>p. snd p / fst p - 1) ?periods\<rparr>"
    unfolding compute_twr_def twr_from_exact by (simp add: equity)
  then show ?thesis using built final by (intro exI [of _ ?all]) simp
qed

theorem ibkr_index_is_twr_witness:
  "\<exists>points r. build_index exact_arith [(1, 10000), (2, 10500), (4, 11550)] [(2, 500), (4, 0)] = Some points \<and>
     compute_twr exact_arith (ibkr_timeline [(1, 10000), (2, 10500), (4, 11550)] [(2, 500), (4, 0)]) = Inr r \<and>
     points \<noteq> [] \<and> ip_index (last points) = tw_index r"
  by (rule ibkr_index_is_twr) (simp_all add: flows_on_report_days_def)

text \<open>
  What is paid in on a day without a report is in the next value and in no day's flow: it counts as a gain, where the
  time-weighted return of the same days and flows is none.
\<close>

theorem ibkr_flow_between_reports_is_a_gain:
  assumes "e > 0" "e + paid_in > 0" "d0 < d1" "d1 < d2"
  shows "map_option (map ip_index) (build_index exact_arith [(d0, e), (d2, e + paid_in)] [(d1, paid_in)]) = Some [1, (e + paid_in) / e] \<and>
    compute_twr exact_arith (ibkr_timeline [(d0, e), (d2, e + paid_in)] [(d1, paid_in)]) = Inr \<lparr>tw_index = 1, tw_sub_returns = [0]\<rparr>"
proof -
  have "build_index exact_arith [(d0, e), (d2, e + paid_in)] [(d1, paid_in)] =
      Some [\<lparr>ip_time_ms = as_u64 (ms_at_date d0), ip_nav = e, ip_index = 1\<rparr>,
        \<lparr>ip_time_ms = as_u64 (ms_at_date d2), ip_nav = e + paid_in, ip_index = (e + paid_in) / e\<rparr>]"
    using assms by (simp add: build_index_def grown_exact at_day_def)
  moreover have "compute_twr exact_arith (ibkr_timeline [(d0, e), (d2, e + paid_in)] [(d1, paid_in)]) = Inr \<lparr>tw_index = 1, tw_sub_returns = [0]\<rparr>"
    unfolding compute_twr_def twr_from_exact using assms by (simp add: between_days_def flow_on_def)
  ultimately show ?thesis by simp
qed

section \<open>The same report again\<close>

lemma bt_eqI:
  assumes "bt_ok m" "bt_ok m'" "map_of m = map_of m'"
  shows "m = m'"
proof -
  have "(k, v) \<in> set m \<longleftrightarrow> (k, v) \<in> set m'" for k v using assms by (simp add: bt_mem)
  then have same: "set m = set m'" by auto
  have "inj_on fst (set m \<union> set m')" using bt_distinct [OF assms(1)] by (simp add: same [symmetric] distinct_map)
  then show ?thesis using assms(1,2) same
    by (intro map_sorted_distinct_set_unique [of fst]) (simp_all add: bt_ok_def strict_sorted_iff)
qed

definition put_day :: "dates \<Rightarrow> string \<Rightarrow> int \<Rightarrow> (string \<times> int, decimal) btree \<Rightarrow> equity_point \<Rightarrow> (string \<times> int, decimal) btree" where
  "put_day D i since m p = (case kept_date D since (eq_report_date p) of None \<Rightarrow> m | Some d \<Rightarrow> bt_insert (i, d) (eq_total p) m)"

lemma store_equity_table:
  "foldl (store_equity D i since) db ps = db\<lparr>id_equity := foldl (put_day D i since) (id_equity db) ps\<rparr>"
proof (induction ps arbitrary: db)
  case (Cons p ps)
  have "store_equity D i since db p = db\<lparr>id_equity := put_day D i since (id_equity db) p\<rparr>"
    by (simp add: store_equity_def put_day_def split: option.split)
  then show ?case by (simp add: Cons.IH)
qed simp

text \<open>The last value given for a key.\<close>

definition day_value :: "dates \<Rightarrow> string \<Rightarrow> int \<Rightarrow> string \<times> int \<Rightarrow> equity_point \<Rightarrow> decimal option" where
  "day_value D i since k p = (case kept_date D since (eq_report_date p) of None \<Rightarrow> None
     | Some d \<Rightarrow> if (i, d) = k then Some (eq_total p) else None)"

definition later :: "'a option \<Rightarrow> 'a option \<Rightarrow> 'a option" where
  "later a b = (case b of None \<Rightarrow> a | Some _ \<Rightarrow> b)"

lemma put_days:
  "bt_ok m \<Longrightarrow> bt_ok (foldl (put_day D i since) m ps) \<and>
    map_of (foldl (put_day D i since) m ps) k = foldl later (map_of m k) (map (day_value D i since k) ps)"
proof (induction ps arbitrary: m)
  case (Cons p ps)
  have ok: "bt_ok (put_day D i since m p)" using Cons.prems by (simp add: put_day_def bt_ok_insert split: option.split)
  have "map_of (put_day D i since m p) k = later (map_of m k) (day_value D i since k p)"
    using Cons.prems by (auto simp: put_day_def day_value_def later_def split: option.split)
  then show ?case using Cons.IH [OF ok] by simp
qed simp

lemma later_twice: "foldl later (foldl later a xs) xs = foldl later a xs"
proof -
  have whole: "foldl later a xs = later a (foldl later None xs)" for a
  proof (induction xs arbitrary: a)
    case (Cons x xs)
    show ?case by (simp add: Cons.IH [of "later a x"] Cons.IH [of "later None x"]) (simp add: later_def split: option.split)
  qed (simp add: later_def)
  then have "foldl later (foldl later a xs) xs = later (later a (foldl later None xs)) (foldl later None xs)" by metis
  then show ?thesis by (simp add: whole [of a]) (simp add: later_def split: option.split)
qed

lemma put_days_twice: "bt_ok m \<Longrightarrow> foldl (put_day D i since) (foldl (put_day D i since) m ps) ps = foldl (put_day D i since) m ps"
  by (rule bt_eqI) (simp_all add: put_days later_twice fun_eq_iff)

text \<open>A stored flow and a stored trade keep what they have.\<close>

definition flow_cell :: "ibkr_db \<Rightarrow> string \<times> int \<times> decimal \<Rightarrow> string option" where
  "flow_cell db k = map_of (id_flows db) k"

definition trade_cell_at :: "ibkr_db \<Rightarrow> string \<times> int \<times> string \<times> int \<Rightarrow> ibkr_trade_cell option" where
  "trade_cell_at db k = map_of (id_trades db) k"

definition flow_key_of :: "dates \<Rightarrow> string \<Rightarrow> int \<Rightarrow> cash_flow \<Rightarrow> (string \<times> int \<times> decimal) option" where
  "flow_key_of D i since f = map_option (\<lambda>d. (i, d, cf_amount f)) (kept_date D since (cf_report_date f))"

definition trade_key_of :: "dates \<Rightarrow> string \<Rightarrow> int \<Rightarrow> nat \<times> trade_record \<Rightarrow> (string \<times> int \<times> string \<times> int) option" where
  "trade_key_of D i since = (\<lambda>(n, t). map_option (\<lambda>d. (i, d, tx_symbol t, wrap_s 32 (int n))) (kept_date D since (tx_trade_date t)))"

definition trade_row_of :: "nat \<times> trade_record \<Rightarrow> ibkr_trade_cell" where
  "trade_row_of = (\<lambda>(_, t). \<lparr>itc_is_buy = tx_is_buy t, itc_quantity = tx_quantity t, itc_price = tx_price t\<rparr>)"

interpretation iflows: row_store "store_flow D i since" flow_cell "flow_key_of D i since" cf_currency "\<lambda>db. bt_ok (id_flows db)" for D i since
  by unfold_locales (auto simp: store_flow_def flow_cell_def flow_key_of_def bt_ok_insert map_of_bt_insert_other
    intro: bt_insert_keeps split: option.splits if_splits)

interpretation itrades: row_store "store_trade D i since" trade_cell_at "trade_key_of D i since" trade_row_of "\<lambda>db. bt_ok (id_trades db)"
  for D i since
  by unfold_locales (auto simp: store_trade_def trade_cell_at_def trade_key_of_def trade_row_of_def Let_def bt_ok_insert
    map_of_bt_insert_other intro: bt_insert_keeps split: option.splits prod.splits if_splits)

lemma store_tables:
  "id_equity (foldl (store_flow D i since) db fs) = id_equity db" "id_trades (foldl (store_flow D i since) db fs) = id_trades db"
  "id_equity (foldl (store_trade D i since) db ts) = id_equity db" "id_flows (foldl (store_trade D i since) db ts) = id_flows db"
  "bt_ok (id_flows db) \<Longrightarrow> bt_ok (id_flows (foldl (store_flow D i since) db fs))"
  "bt_ok (id_trades db) \<Longrightarrow> bt_ok (id_trades (foldl (store_trade D i since) db ts))"
proof -
  have f: "id_equity (store_flow D i since db f) = id_equity db \<and> id_trades (store_flow D i since db f) = id_trades db \<and>
      (bt_ok (id_flows db) \<longrightarrow> bt_ok (id_flows (store_flow D i since db f)))" for db f
    by (simp add: store_flow_def bt_ok_insert split: option.split)
  have t: "id_equity (store_trade D i since db t) = id_equity db \<and> id_flows (store_trade D i since db t) = id_flows db \<and>
      (bt_ok (id_trades db) \<longrightarrow> bt_ok (id_trades (store_trade D i since db t)))" for db t
    by (simp add: store_trade_def bt_ok_insert Let_def split: option.split prod.split)
  show "id_equity (foldl (store_flow D i since) db fs) = id_equity db" "id_trades (foldl (store_flow D i since) db fs) = id_trades db"
    "bt_ok (id_flows db) \<Longrightarrow> bt_ok (id_flows (foldl (store_flow D i since) db fs))"
    using f by (induction fs arbitrary: db) simp_all
  show "id_equity (foldl (store_trade D i since) db ts) = id_equity db" "id_flows (foldl (store_trade D i since) db ts) = id_flows db"
    "bt_ok (id_trades db) \<Longrightarrow> bt_ok (id_trades (foldl (store_trade D i since) db ts))"
    using t by (induction ts arbitrary: db) simp_all
qed

lemma store_statement_connections: "id_connections (store_statement D i since st db) = id_connections db"
proof -
  have "id_connections (store_flow D i since db f) = id_connections db" "id_connections (store_trade D i since db t) = id_connections db" for db f t
    by (simp_all add: store_flow_def store_trade_def Let_def split: option.split prod.split)
  then have "id_connections (foldl (store_flow D i since) db fs) = id_connections db"
      "id_connections (foldl (store_trade D i since) db ts) = id_connections db" for db fs ts
    by (induction fs arbitrary: db, simp_all) (induction ts arbitrary: db, simp_all)
  then show ?thesis by (simp add: store_statement_def store_equity_table)
qed

definition ibkr_ok :: "ibkr_db \<Rightarrow> bool" where
  "ibkr_ok db \<longleftrightarrow> bt_ok (id_equity db) \<and> bt_ok (id_flows db) \<and> bt_ok (id_trades db)"

lemma store_statement_twice:
  assumes "ibkr_ok db" and "db' = store_statement D i since st db"
  shows "store_statement D i since st db' = db'"
proof -
  let ?e = "foldl (store_equity D i since) db (fs_equity st)"
  let ?f = "foldl (store_flow D i since) ?e (fs_flows st)"
  have db': "db' = foldl (store_trade D i since) ?f (enumerate 0 (fs_trades st))" by (simp add: assms(2) store_statement_def)
  have e: "id_equity ?e = foldl (put_day D i since) (id_equity db) (fs_equity st)" "id_flows ?e = id_flows db" "id_trades ?e = id_trades db"
    by (simp_all add: store_equity_table)
  have tables: "id_equity db' = id_equity ?e" "id_flows db' = id_flows ?f" by (simp_all add: db' store_tables)
  have "foldl (store_equity D i since) db' (fs_equity st) = db'"
    using put_days_twice assms(1) by (simp add: store_equity_table tables(1) ibkr_ok_def)
  moreover have "foldl (store_flow D i since) db' (fs_flows st) = db'"
    using iflows.run_again [of ?e db'] assms(1) e(2) tables(2) by (simp add: ibkr_ok_def flow_cell_def store_tables)
  moreover have "foldl (store_trade D i since) db' (enumerate 0 (fs_trades st)) = db'"
    using itrades.run_again [of ?f db'] assms(1) e(3) by (simp add: db' store_tables ibkr_ok_def)
  ultimately show ?thesis by (simp add: store_statement_def)
qed

text \<open>
  C37. A report that is fetched again changes nothing. Whatever rows it repeats and whatever was stored before, a sync
  that gets the report of the last sync leaves every table as it was, and only notes when it ran.
\<close>
theorem ibkr_sync_again:
  assumes "ibkr_ok db" and "ibkr_sync D (Inr st) db i now = (Inr (), db')"
  shows "ibkr_sync D (Inr st) db' i later_on = (Inr (), ibkr_update i (\<lambda>c. c\<lparr>ik_last_synced_at := Some later_on\<rparr>) db')"
proof -
  obtain since_ms where since: "ibkr_created_at_ms db i = Some since_ms"
      "db' = ibkr_update i (\<lambda>c. c\<lparr>ik_last_synced_at := Some now\<rparr>) (store_statement D i (date_at_ms D (int since_ms)) st db)"
    using assms(2) by (auto simp: ibkr_sync_def split: option.splits)
  let ?s = "date_at_ms D (int since_ms)" and ?mark = "\<lambda>c. c\<lparr>ik_last_synced_at := Some now\<rparr>"
  have rows: "foldl (store_equity D i ?s) (ibkr_update i f db) ps = ibkr_update i f (foldl (store_equity D i ?s) db ps)"
    "foldl (store_flow D i ?s) (ibkr_update i f db) fs = ibkr_update i f (foldl (store_flow D i ?s) db fs)"
    "foldl (store_trade D i ?s) (ibkr_update i f db) ts = ibkr_update i f (foldl (store_trade D i ?s) db ts)" for f db ps fs ts
  proof -
    have "store_equity D i ?s (ibkr_update i f db) p = ibkr_update i f (store_equity D i ?s db p)"
      "store_flow D i ?s (ibkr_update i f db) x = ibkr_update i f (store_flow D i ?s db x)"
      "store_trade D i ?s (ibkr_update i f db) t = ibkr_update i f (store_trade D i ?s db t)" for db p x t
      by (auto simp: store_equity_def store_flow_def store_trade_def ibkr_update_def Let_def split: option.split prod.split)
    then show "foldl (store_equity D i ?s) (ibkr_update i f db) ps = ibkr_update i f (foldl (store_equity D i ?s) db ps)"
      "foldl (store_flow D i ?s) (ibkr_update i f db) fs = ibkr_update i f (foldl (store_flow D i ?s) db fs)"
      "foldl (store_trade D i ?s) (ibkr_update i f db) ts = ibkr_update i f (foldl (store_trade D i ?s) db ts)"
      by (induction ps arbitrary: db, simp_all) (induction fs arbitrary: db, simp_all, induction ts arbitrary: db, simp_all)
  qed
  have again: "store_statement D i ?s st db' = db'"
    using store_statement_twice [OF assms(1) refl] rows by (simp add: since(2) store_statement_def)
  have connections: "id_connections (store_statement D i ?s st db) = id_connections db"
    by (rule store_statement_connections)
  have marked: "map_option ik_created_at_ms (find (\<lambda>c. ik_id c = i) (map (\<lambda>c. if ik_id c = i then ?mark c else c) cs)) =
      map_option ik_created_at_ms (find (\<lambda>c. ik_id c = i) cs)" for cs
    by (induction cs) simp_all
  have "ibkr_created_at_ms db' i = Some since_ms"
    using since(1) unfolding since(2) ibkr_created_at_ms_def ibkr_update_def by (simp add: connections marked del: map_option_eq_Some)
  then show ?thesis by (simp add: ibkr_sync_def again)
qed

definition sample_dates :: dates where
  "sample_dates = \<lparr>da_parse = (\<lambda>msg. Some (int (digits_value msg))), da_of_ms = (\<lambda>ms. Some (ms div IBKR_DAY_MS))\<rparr>"

definition sample_ibkr_db :: ibkr_db where
  "sample_ibkr_db = \<lparr>id_connections = [\<lparr>ik_id = ''c'', ik_account_id = ''a'', ik_encrypted_token = [], ik_nonce_token = [],
       ik_encrypted_query_id = [], ik_nonce_query_id = [], ik_label = None, ik_status = ''active'', ik_created_at_ms = 86400000,
       ik_last_synced_at = None\<rparr>],
     id_equity = [((''c'', 1), 100)], id_flows = [], id_trades = []\<rparr>"

definition sample_report :: flex_statement where
  "sample_report = \<lparr>fs_account_id = ''a'',
     fs_equity = [\<lparr>eq_report_date = ''0'', eq_total = 90\<rparr>, \<lparr>eq_report_date = ''1'', eq_total = 110\<rparr>, \<lparr>eq_report_date = ''2'', eq_total = 130\<rparr>],
     fs_flows = [\<lparr>cf_report_date = ''2'', cf_amount = 10, cf_currency = ''USD''\<rparr>],
     fs_trades = [\<lparr>tx_trade_date = ''2'', tx_symbol = ''A'', tx_is_buy = True, tx_quantity = 1, tx_price = 10\<rparr>]\<rparr>"

theorem ibkr_sync_again_witness:
  "\<exists>db'. ibkr_sync sample_dates (Inr sample_report) sample_ibkr_db ''c'' 7 = (Inr (), db') \<and>
     ibkr_sync sample_dates (Inr sample_report) db' ''c'' 9 = (Inr (), ibkr_update ''c'' (\<lambda>c. c\<lparr>ik_last_synced_at := Some 9\<rparr>) db')"
proof -
  obtain db' where s: "ibkr_sync sample_dates (Inr sample_report) sample_ibkr_db ''c'' 7 = (Inr (), db')"
    by (simp add: ibkr_sync_def ibkr_created_at_ms_def sample_ibkr_db_def)
  have "ibkr_ok sample_ibkr_db" by (simp add: ibkr_ok_def bt_ok_def sample_ibkr_db_def)
  then show ?thesis using s ibkr_sync_again [OF _ s] by blast
qed

section \<open>What the tables and the figures lose\<close>

text \<open>The key of a flow is its day and its amount: two deposits of one amount on one day are one.\<close>

theorem ibkr_equal_deposits_count_once:
  "bt_ok (id_flows db) \<Longrightarrow> foldl (store_flow D i since) db [f, f] = foldl (store_flow D i since) db [f]"
  using iflows.run_again [of db "foldl (store_flow D i since) db [f]" D i since "[f]"] iflows.ok_step by simp

text \<open>
  The key of a trade has its place in the report. Where the next report has the same trade at another place, as one
  whose span begins a day later does, the trade is stored a second time.
\<close>

theorem ibkr_shifted_report_repeats_trades:
  assumes "bt_ok (id_trades db)" "kept_date D since (tx_trade_date t) = Some d" "n < 2 ^ 31" "n' < 2 ^ 31"
  shows "trade_cell_at (foldl (store_trade D i since) db [(n, t), (n', t)]) (i, d, tx_symbol t, int n) \<noteq> None \<and>
    trade_cell_at (foldl (store_trade D i since) db [(n, t), (n', t)]) (i, d, tx_symbol t, int n') \<noteq> None"
proof -
  have "wrap_s 32 (int n) = int n" "wrap_s 32 (int n') = int n'" using assms(3,4) by (simp_all add: wrap_s_def)
  then have "trade_key_of D i since (n, t) = Some (i, d, tx_symbol t, int n)" "trade_key_of D i since (n', t) = Some (i, d, tx_symbol t, int n')"
    using assms(2) by (simp_all add: trade_key_of_def)
  then show ?thesis using itrades.run_stored [OF assms(1), of _ "[(n, t), (n', t)]" D i since] by (metis list.set_intros(1,2))
qed

text \<open>The fills of every symbol are one queue: a share of A bought at 10 and a share of B sold at 20 are a round trip that won.\<close>

theorem ibkr_win_rate_mixes_symbols:
  "compute_win_rate exact_arith (ibkr_fills (ibkr_stored_trades (sample_ibkr_db\<lparr>id_trades :=
      [((''c'', 1, ''A'', 0), \<lparr>itc_is_buy = True, itc_quantity = 1, itc_price = 10\<rparr>),
       ((''c'', 2, ''B'', 1), \<lparr>itc_is_buy = False, itc_quantity = 1, itc_price = 20\<rparr>)]\<rparr>) ''c'')) =
    Some (Inr \<lparr>closed_round_trips = 1, wins = 1, win_rate = 1\<rparr>)"
proof -
  have one: "match_sell exact_arith 20 1 [(1, 10)] 0 0 = Some ([], 1, 1)"
    by (subst match_sell.simps, simp, subst match_sell.simps, simp)
  show ?thesis
    by (simp add: ibkr_stored_trades_def ibkr_fills_def compute_win_rate_def ms_at_date_def IBKR_DAY_MS_def as_u64_def fill_step_def one)
qed

end
