(* ===== verification/BinanceWorker.thy ===== *)
theory BinanceWorker
  imports LiveClient CoinbaseWorker Catalog
begin

text \<open>
  services/collector/binance/worker, db.rs and sync.rs: the tables of the Binance connections, what is written to them
  and read back, and one sync. The tables are maps from their primary keys and a statement is one step; which
  of the statements of a sync fail, the moments of the client and of the database, and whether a balance is above zero in floating point, are
  arguments. The outer \<open>None\<close> is a fetch that panics or does not end; nothing is stored then.
\<close>

section \<open>The tables\<close>

record binance_connection =
  bc_id :: string
  bc_account_id :: string
  bc_encrypted_api_key :: bytes
  bc_nonce_api_key :: bytes
  bc_encrypted_api_secret :: bytes
  bc_nonce_api_secret :: bytes
  bc_symbols :: "string list"
  bc_label :: "string option"
  bc_status :: string
  bc_created_at_ms :: nat
  bc_last_synced_at :: "nat option"

record trade_columns =
  tl_order_id :: int
  tl_price :: string
  tl_qty :: string
  tl_commission :: string
  tl_commission_asset :: string
  tl_time_ms :: int
  tl_is_buyer :: bool

record flow_columns =
  fo_economic_time_ms :: int
  fo_kind :: string
  fo_legs_json :: jvalue
  fo_fee_json :: "jvalue option"

record binance_db =
  be_connections :: "binance_connection list"
  be_trades :: "(string \<times> string \<times> int, trade_columns) btree"
  be_flows :: "(string \<times> string \<times> string, flow_columns) btree"
  be_catalog :: "(string \<times> int \<times> string) set"

definition binance_insert_connection ::
    "string \<Rightarrow> nat \<Rightarrow> binance_db \<Rightarrow> string \<Rightarrow> encrypted_field \<Rightarrow> encrypted_field \<Rightarrow> string list \<Rightarrow> string \<times> binance_db" where
  "binance_insert_connection new_id now db account_id ak sk symbols =
     (case find (\<lambda>c. bc_account_id c = account_id) (be_connections db) of
        Some c \<Rightarrow> (bc_id c, db\<lparr>be_connections := map (\<lambda>c. if bc_account_id c = account_id
          then c\<lparr>bc_encrypted_api_key := ef_ciphertext ak, bc_nonce_api_key := encrypted_field.ef_nonce ak,
            bc_encrypted_api_secret := ef_ciphertext sk, bc_nonce_api_secret := encrypted_field.ef_nonce sk,
            bc_symbols := symbols, bc_status := ''active''\<rparr> else c) (be_connections db)\<rparr>)
      | None \<Rightarrow> (new_id, db\<lparr>be_connections := be_connections db @
          [\<lparr>bc_id = new_id, bc_account_id = account_id, bc_encrypted_api_key = ef_ciphertext ak,
            bc_nonce_api_key = encrypted_field.ef_nonce ak, bc_encrypted_api_secret = ef_ciphertext sk,
            bc_nonce_api_secret = encrypted_field.ef_nonce sk, bc_symbols = symbols, bc_label = None, bc_status = ''active'',
            bc_created_at_ms = now, bc_last_synced_at = None\<rparr>]\<rparr>))"

definition find_connection_by_account :: "binance_db \<Rightarrow> string \<Rightarrow> binance_connection option" where
  "find_connection_by_account db account_id = find (\<lambda>c. bc_account_id c = account_id) (be_connections db)"

definition connections_due_for_sync :: "binance_db \<Rightarrow> nat \<Rightarrow> nat \<Rightarrow> binance_connection list" where
  "connections_due_for_sync db now interval_seconds =
     filter (\<lambda>c. bc_status c = ''active'' \<and>
       (case bc_last_synced_at c of None \<Rightarrow> True | Some t \<Rightarrow> t + 1000 * interval_seconds < now)) (be_connections db)"

definition binance_update :: "string \<Rightarrow> (binance_connection \<Rightarrow> binance_connection) \<Rightarrow> binance_db \<Rightarrow> binance_db" where
  "binance_update i f db = db\<lparr>be_connections := map (\<lambda>c. if bc_id c = i then f c else c) (be_connections db)\<rparr>"

definition mark_synced :: "binance_db \<Rightarrow> string \<Rightarrow> nat \<Rightarrow> binance_db" where
  "mark_synced db i now = binance_update i (\<lambda>c. c\<lparr>bc_last_synced_at := Some now\<rparr>) db"

definition set_connection_label :: "binance_db \<Rightarrow> string \<Rightarrow> string \<Rightarrow> binance_db" where
  "set_connection_label db i label = binance_update i (\<lambda>c. c\<lparr>bc_label := Some label\<rparr>) db"

definition upsert_trade :: "string \<Rightarrow> binance_db \<Rightarrow> trade \<Rightarrow> binance_db" where
  "upsert_trade i db t = (let k = (i, tr_symbol t, stored_i64 (tr_id t)) in
     if map_of (be_trades db) k = None
     then db\<lparr>be_trades := bt_insert k \<lparr>tl_order_id = stored_i64 (tr_order_id t), tl_price = tr_price t, tl_qty = tr_qty t,
       tl_commission = tr_commission t, tl_commission_asset = tr_commission_asset t, tl_time_ms = stored_i64 (tr_time_ms t),
       tl_is_buyer = tr_is_buyer t\<rparr> (be_trades db)\<rparr> else db)"

text \<open>The statements of the three loops, one for each row.\<close>

definition upsert_trades :: "string \<Rightarrow> trade list \<Rightarrow> (binance_db \<Rightarrow> binance_db) list" where
  "upsert_trades i trades = map (\<lambda>t db. upsert_trade i db t) trades"

definition leg_json :: "asset_leg \<Rightarrow> jvalue" where
  "leg_json leg = VObj [(''asset'', VStr (al_asset leg)), (''amount'', VStr (al_amount leg)), (''isCredit'', VBool (al_is_credit leg))]"

definition flow_columns_of :: "normalized_flow \<Rightarrow> flow_columns" where
  "flow_columns_of f = \<lparr>fo_economic_time_ms = stored_i64 (nf_economic_time_ms f), fo_kind = nf_kind f,
     fo_legs_json = VArr (map leg_json (nf_legs f)), fo_fee_json = map_option leg_json (nf_fee f)\<rparr>"

definition upsert_flow :: "string \<Rightarrow> binance_db \<Rightarrow> normalized_flow \<Rightarrow> binance_db" where
  "upsert_flow i db f = (let k = (i, family_name (nf_source_namespace f), nf_source_id f) in
     if map_of (be_flows db) k = None then db\<lparr>be_flows := bt_insert k (flow_columns_of f) (be_flows db)\<rparr> else db)"

definition upsert_flows :: "string \<Rightarrow> normalized_flow list \<Rightarrow> (binance_db \<Rightarrow> binance_db) list" where
  "upsert_flows i flows = map (\<lambda>f db. upsert_flow i db f) flows"

definition traded_symbols :: "binance_db \<Rightarrow> string \<Rightarrow> string set" where
  "traded_symbols db i = (\<lambda>((_, symbol, _), _). symbol) ` set (filter (\<lambda>(k, _). fst k = i) (be_trades db))"

definition latest_earn_reward_ms :: "binance_db \<Rightarrow> string \<Rightarrow> nat option" where
  "latest_earn_reward_ms db i =
     (case map (\<lambda>(_, r). fo_economic_time_ms r) (filter (\<lambda>((c, _, source_id), _). c = i \<and> starts_with source_id ''earn:'') (be_flows db)) of
        [] \<Rightarrow> None | t # ts \<Rightarrow> Some (WalletFlows.as_u64 (foldl max t ts)))"

definition upsert_catalog_snapshot :: "string \<Rightarrow> catalog_snapshot \<Rightarrow> (binance_db \<Rightarrow> binance_db) list" where
  "upsert_catalog_snapshot i snapshot = map (\<lambda>symbol db.
     db\<lparr>be_catalog := insert (i, stored_i64 (cs_captured_at_ms snapshot), symbol) (be_catalog db)\<rparr>) (cs_symbols snapshot)"

record connection_summary =
  su_connected :: bool
  su_status :: "string option"
  su_last_synced_at :: "nat option"
  su_trade_count :: nat
  su_flow_count :: nat

definition summary_of :: "binance_db \<Rightarrow> string \<Rightarrow> connection_summary" where
  "summary_of db account_id = (case find_connection_by_account db account_id of
     None \<Rightarrow> \<lparr>su_connected = False, su_status = None, su_last_synced_at = None, su_trade_count = 0, su_flow_count = 0\<rparr>
   | Some c \<Rightarrow> \<lparr>su_connected = True, su_status = Some (bc_status c), su_last_synced_at = bc_last_synced_at c,
       su_trade_count = length (filter (\<lambda>(k, _). fst k = bc_id c) (be_trades db)),
       su_flow_count = length (filter (\<lambda>(k, _). fst k = bc_id c) (be_flows db))\<rparr>)"

definition trade_of_row :: "(string \<times> string \<times> int) \<times> trade_columns \<Rightarrow> trade" where
  "trade_of_row = (\<lambda>((_, symbol, trade_id), r).
     \<lparr>tr_symbol = symbol, tr_id = WalletFlows.as_u64 trade_id, tr_order_id = WalletFlows.as_u64 (tl_order_id r), tr_price = tl_price r,
      tr_qty = tl_qty r, tr_commission = tl_commission r, tr_commission_asset = tl_commission_asset r,
      tr_time_ms = WalletFlows.as_u64 (tl_time_ms r), tr_is_buyer = tl_is_buyer r\<rparr>)"

definition fetch_stored_trades :: "binance_db \<Rightarrow> string \<Rightarrow> trade list" where
  "fetch_stored_trades db i = map trade_of_row (sort_key (\<lambda>(_, r). tl_time_ms r) (filter (\<lambda>(k, _). fst k = i) (be_trades db)))"

definition parse_flow_family :: "string \<Rightarrow> flow_family option" where
  "parse_flow_family s = (if s = ''deposit'' then Some Deposit else if s = ''withdrawal'' then Some Withdrawal
     else if s = ''transfer'' then Some Transfer else if s = ''convert'' then Some Convert
     else if s = ''dust'' then Some Dust else if s = ''dividend'' then Some Dividend else None)"

definition parse_asset_leg :: "jvalue \<Rightarrow> asset_leg option" where
  "parse_asset_leg v =
     Option.bind (Option.bind (jget ''asset'' v) as_str) (\<lambda>asset.
     Option.bind (Option.bind (jget ''amount'' v) as_str) (\<lambda>amount.
     Option.bind (Option.bind (jget ''isCredit'' v) as_bool) (\<lambda>is_credit.
       Some \<lparr>al_asset = asset, al_amount = amount, al_is_credit = is_credit\<rparr>)))"

definition flow_of_row :: "(string \<times> string \<times> string) \<times> flow_columns \<Rightarrow> normalized_flow option" where
  "flow_of_row = (\<lambda>((_, namespace, source_id), r).
     Option.bind (parse_flow_family namespace) (\<lambda>family.
     Option.bind (as_array (fo_legs_json r)) (\<lambda>legs.
       Some \<lparr>nf_source_namespace = family, nf_source_id = source_id, nf_economic_time_ms = WalletFlows.as_u64 (fo_economic_time_ms r),
         nf_kind = fo_kind r, nf_legs = List.map_filter parse_asset_leg legs,
         nf_fee = Option.bind (fo_fee_json r) parse_asset_leg\<rparr>)))"

definition fetch_stored_flows :: "binance_db \<Rightarrow> string \<Rightarrow> normalized_flow list" where
  "fetch_stored_flows db i =
     List.map_filter flow_of_row (sort_key (\<lambda>(_, r). fo_economic_time_ms r) (filter (\<lambda>(k, _). fst k = i) (be_flows db)))"

definition connection_created_at_ms :: "binance_db \<Rightarrow> string \<Rightarrow> nat option" where
  "connection_created_at_ms db i = map_option bc_created_at_ms (find (\<lambda>c. bc_id c = i) (be_connections db))"

definition binance_delete_connection :: "binance_db \<Rightarrow> string \<Rightarrow> bool \<times> binance_db" where
  "binance_delete_connection db i =
     (\<exists>c \<in> set (be_connections db). bc_id c = i,
      \<lparr>be_connections = filter (\<lambda>c. bc_id c \<noteq> i) (be_connections db), be_trades = filter (\<lambda>(k, _). fst k \<noteq> i) (be_trades db),
       be_flows = filter (\<lambda>(k, _). fst k \<noteq> i) (be_flows db), be_catalog = {k \<in> be_catalog db. fst k \<noteq> i}\<rparr>)"

record owned_connection =
  ow_account_id :: string
  ow_label :: "string option"
  ow_connected_at_ms :: nat
  ow_status :: string
  ow_broker :: string

definition connections_owned_by :: "binance_db \<Rightarrow> string \<Rightarrow> owned_connection list" where
  "connections_owned_by db owner_address =
     map (\<lambda>c. \<lparr>ow_account_id = bc_account_id c, ow_label = bc_label c, ow_connected_at_ms = bc_created_at_ms c,
         ow_status = bc_status c, ow_broker = ''binance''\<rparr>)
       (sort_key bc_created_at_ms (filter (\<lambda>c. owned_account owner_address (bc_account_id c)) (be_connections db)))"

section \<open>One sync\<close>

record sync_summary =
  sx_trades_fetched :: nat
  sx_flows_fetched :: nat
  sx_catalog_symbols_fetched :: nat

record raw_fetch =
  rf_trades :: "trade list"
  rf_flows :: "normalized_flow list"
  rf_catalog :: "catalog_snapshot option"

definition FIRST_EARN_LOOKBACK_MS :: nat where "FIRST_EARN_LOOKBACK_MS = 90 * 24 * 60 * 60 * 1000"
definition EARN_OVERLAP_MS :: nat where "EARN_OVERLAP_MS = 2 * 24 * 60 * 60 * 1000"
definition SPOT_QUOTES :: "string list" where "SPOT_QUOTES = [''USDT'', ''USDC'', ''FDUSD'', ''BTC'', ''ETH'', ''BNB'']"

definition markets_of :: "string set \<Rightarrow> string \<Rightarrow> string set" where
  "markets_of listed asset = (\<lambda>quote. asset @ quote) ` set (filter (\<lambda>quote. asset \<noteq> quote \<and> asset @ quote \<in> listed) SPOT_QUOTES)"

definition symbols_to_read :: "string list \<Rightarrow> string set \<Rightarrow> string set \<Rightarrow> string set \<Rightarrow> string set" where
  "symbols_to_read chosen traded held_assets listed = set chosen \<union> traded \<union> (\<Union>asset \<in> held_assets. markets_of listed asset)"

record sync_env =
  sv_live :: live_env
  sv_dec :: dec_env
  sv_is_held :: "account_balance \<Rightarrow> bool"
  sv_now_ms :: nat

fun trades_of_markets :: "(string \<Rightarrow> live_error + trade list) \<Rightarrow> string list \<Rightarrow> live_error + trade list" where
  "trades_of_markets fetch [] = Inr []"
| "trades_of_markets fetch (symbol # symbols) =
     and_then (fetch symbol) (\<lambda>ts. and_then (trades_of_markets fetch symbols) (\<lambda>rest. Inr (ts @ rest)))"

definition earn_from :: "nat option \<Rightarrow> nat \<Rightarrow> nat" where
  "earn_from earn_from_ms now = (case earn_from_ms of Some t \<Rightarrow> t - EARN_OVERLAP_MS | None \<Rightarrow> now - FIRST_EARN_LOOKBACK_MS)"

definition fetch_all :: "sync_env \<Rightarrow> live_state \<Rightarrow> string list \<Rightarrow> string set \<Rightarrow> nat option \<Rightarrow> (live_error + raw_fetch) option" where
  "fetch_all Y c symbols traded earn_from_ms =
     (let V = sv_live Y; catalog = (case fetch_exchange_info V c of Inl _ \<Rightarrow> None | Inr snapshot \<Rightarrow> Some snapshot);
          listed = (case catalog of None \<Rightarrow> {} | Some snapshot \<Rightarrow> set (cs_symbols snapshot)) in
      and_thenp (fetch_balances_with_earn (sv_dec Y) V c) (\<lambda>balances.
      let held = ab_asset ` set (filter (sv_is_held Y) balances) in
      and_thenp (Some (trades_of_markets (fetch_my_trades V c) (sorted_list_of_set (symbols_to_read symbols traded held listed)))) (\<lambda>trades.
      and_thenp (Some (fetch_deposits V c)) (\<lambda>deposits.
      and_thenp (Some (fetch_withdrawals V c)) (\<lambda>withdrawals.
      and_thenp (fetch_earn_rewards (sv_dec Y) V c (earn_from earn_from_ms (sv_now_ms Y)) (sv_now_ms Y)) (\<lambda>rewards.
        Some (Inr \<lparr>rf_trades = trades, rf_flows = deposits @ withdrawals @ rewards, rf_catalog = catalog\<rparr>)))))))"

definition fetch_blocking :: "sync_env \<Rightarrow> string \<Rightarrow> string list \<Rightarrow> string set \<Rightarrow> nat option \<Rightarrow> (live_error + raw_fetch) option" where
  "fetch_blocking Y secret symbols traded earn_from_ms =
     (case ensure_read_only (sv_live Y) (new_client secret Production) of
        (_, Inl e) \<Rightarrow> Some (Inl e)
      | (c, Inr _) \<Rightarrow> fetch_all Y c symbols traded earn_from_ms)"

datatype sync_error = SyncClient live_error | SyncDb string

definition persist_writes :: "string \<Rightarrow> nat \<Rightarrow> raw_fetch \<Rightarrow> (binance_db \<Rightarrow> binance_db) list" where
  "persist_writes i now fetch =
     upsert_trades i (rf_trades fetch) @ upsert_flows i (rf_flows fetch) @
     (case rf_catalog fetch of None \<Rightarrow> [] | Some snapshot \<Rightarrow> upsert_catalog_snapshot i snapshot) @
     [\<lambda>db. mark_synced db i now]"

definition persist_fetch :: "binance_db \<Rightarrow> string \<Rightarrow> nat \<Rightarrow> raw_fetch \<Rightarrow> binance_db" where
  "persist_fetch db i now fetch = run_all (persist_writes i now fetch) db"

definition summary_of_fetch :: "raw_fetch \<Rightarrow> sync_summary" where
  "summary_of_fetch fetch = \<lparr>sx_trades_fetched = length (rf_trades fetch), sx_flows_fetched = length (rf_flows fetch),
     sx_catalog_symbols_fetched = (case rf_catalog fetch of None \<Rightarrow> 0 | Some snapshot \<Rightarrow> length (cs_symbols snapshot))\<rparr>"

text \<open>The two queries are the latest reward and the markets traded; the statements that write are not one transaction.\<close>

definition sync_and_persist ::
    "sync_env \<Rightarrow> string db_faults \<Rightarrow> binance_db \<Rightarrow> string \<Rightarrow> nat \<Rightarrow> string \<Rightarrow> string list \<Rightarrow> ((sync_error + sync_summary) \<times> binance_db) option" where
  "sync_and_persist Y D db i now secret symbols =
     (case and_then (query D 0 (Inr (latest_earn_reward_ms db i))) (\<lambda>earn. and_then (query D 1 (Inr (traded_symbols db i))) (\<lambda>traded. Inr (earn, traded))) of
        Inl e \<Rightarrow> Some (Inl (SyncDb e), db)
      | Inr (earn, traded) \<Rightarrow> map_option (\<lambda>r. case r of
            Inl e \<Rightarrow> (Inl (SyncClient e), db)
          | Inr fetch \<Rightarrow> let (r, db) = run_writes D (persist_writes i now fetch) db in
              (map_sum SyncDb (\<lambda>_. summary_of_fetch fetch) r, db)) (fetch_blocking Y secret symbols traded earn))"

section \<open>What is fetched is what is read\<close>

lemma leg_json_back [simp]: "parse_asset_leg (leg_json leg) = Some leg"
  by (cases leg) (simp add: parse_asset_leg_def leg_json_def)

lemma legs_json_back: "List.map_filter parse_asset_leg (map leg_json legs) = legs"
  by (induction legs) (simp_all add: map_filter_simps)

lemma family_back: "parse_flow_family (family_name family) = Some family"
  by (cases family) (simp_all add: parse_flow_family_def family_name_def)

lemma i64_back: "n < 2 ^ 64 \<Longrightarrow> WalletFlows.as_u64 (stored_i64 n) = n"
proof -
  assume "n < 2 ^ 64"
  have "wrap_i64 (int n) mod 2 ^ 64 = int n mod 2 ^ 64" by (simp add: wrap_s_def mod_simps)
  also have "\<dots> = int n" using \<open>n < 2 ^ 64\<close> by simp
  finally show ?thesis by (simp add: WalletFlows.as_u64_def stored_i64_def)
qed

lemma flow_back:
  "nf_economic_time_ms f < 2 ^ 64 \<Longrightarrow> flow_of_row ((i, family_name (nf_source_namespace f), nf_source_id f), flow_columns_of f) = Some f"
  by (cases f; cases "nf_fee f") (simp_all add: flow_of_row_def flow_columns_of_def family_back i64_back legs_json_back)

text \<open>New rows under distinct keys are added to a table as they are.\<close>

lemma new_rows:
  assumes "\<And>m x. step m x = (if map_of m (row_key x) = None then bt_insert (row_key x) (row x) m else m)"
  shows "distinct (map row_key xs) \<Longrightarrow> \<forall>x \<in> set xs. map_of m (row_key x) = None \<Longrightarrow>
    mset (foldl step m xs) = mset m + mset (map (\<lambda>x. (row_key x, row x)) xs)"
proof (induction xs arbitrary: m)
  case (Cons x xs)
  let ?m = "bt_insert (row_key x) (row x) m"
  have step: "step m x = ?m" using Cons.prems(2) assms by simp
  have "\<forall>y \<in> set xs. map_of ?m (row_key y) = None"
  proof
    fix y assume y: "y \<in> set xs"
    then have "row_key y \<noteq> row_key x" using Cons.prems(1) rev_image_eqI [OF y, of "row_key x" row_key] by fastforce
    then show "map_of ?m (row_key y) = None" using Cons.prems(2) y by (simp add: map_of_bt_insert_other)
  qed
  then have "mset (foldl step ?m xs) = mset ?m + mset (map (\<lambda>x. (row_key x, row x)) xs)" using Cons by simp
  moreover have "mset ?m = add_mset (row_key x, row x) (mset m)" using Cons.prems(2) by (intro mset_bt_insert) simp
  ultimately show ?case by (simp add: step)
qed simp

definition trade_row_key :: "string \<Rightarrow> trade \<Rightarrow> string \<times> string \<times> int" where
  "trade_row_key i t = (i, tr_symbol t, stored_i64 (tr_id t))"

definition flow_row_key :: "string \<Rightarrow> normalized_flow \<Rightarrow> string \<times> string \<times> string" where
  "flow_row_key i f = (i, family_name (nf_source_namespace f), nf_source_id f)"

definition trade_columns_of :: "trade \<Rightarrow> trade_columns" where
  "trade_columns_of t = \<lparr>tl_order_id = stored_i64 (tr_order_id t), tl_price = tr_price t, tl_qty = tr_qty t,
     tl_commission = tr_commission t, tl_commission_asset = tr_commission_asset t, tl_time_ms = stored_i64 (tr_time_ms t),
     tl_is_buyer = tr_is_buyer t\<rparr>"

definition fits :: "trade \<Rightarrow> bool" where
  "fits t \<longleftrightarrow> tr_id t < 2 ^ 64 \<and> tr_order_id t < 2 ^ 64 \<and> tr_time_ms t < 2 ^ 64"

lemma trade_back: "fits t \<Longrightarrow> trade_of_row (trade_row_key i t, trade_columns_of t) = t"
  by (cases t) (simp add: trade_of_row_def trade_row_key_def trade_columns_of_def fits_def i64_back)

definition put_trade :: "string \<Rightarrow> (string \<times> string \<times> int, trade_columns) btree \<Rightarrow> trade \<Rightarrow> (string \<times> string \<times> int, trade_columns) btree" where
  "put_trade i m t = (if map_of m (trade_row_key i t) = None then bt_insert (trade_row_key i t) (trade_columns_of t) m else m)"

definition put_flow :: "string \<Rightarrow> (string \<times> string \<times> string, flow_columns) btree \<Rightarrow> normalized_flow \<Rightarrow> (string \<times> string \<times> string, flow_columns) btree" where
  "put_flow i m f = (if map_of m (flow_row_key i f) = None then bt_insert (flow_row_key i f) (flow_columns_of f) m else m)"

lemma upsert_trades_table: "run_all (upsert_trades i ts) db = db\<lparr>be_trades := foldl (put_trade i) (be_trades db) ts\<rparr>"
proof -
  have "upsert_trade i db t = db\<lparr>be_trades := put_trade i (be_trades db) t\<rparr>" for db t
    by (simp add: upsert_trade_def put_trade_def trade_row_key_def trade_columns_of_def Let_def)
  then show ?thesis unfolding upsert_trades_def by (induction ts arbitrary: db) simp_all
qed

lemma upsert_flows_table: "run_all (upsert_flows i fs) db = db\<lparr>be_flows := foldl (put_flow i) (be_flows db) fs\<rparr>"
proof -
  have "upsert_flow i db f = db\<lparr>be_flows := put_flow i (be_flows db) f\<rparr>" for db f
    by (simp add: upsert_flow_def put_flow_def flow_row_key_def Let_def)
  then show ?thesis unfolding upsert_flows_def by (induction fs arbitrary: db) simp_all
qed

text \<open>The catalog and the time of the sync leave the two tables as they are.\<close>

lemma other_writes:
  assumes "f \<in> set (case rf_catalog r of None \<Rightarrow> [] | Some snapshot \<Rightarrow> upsert_catalog_snapshot i snapshot) \<union> {\<lambda>db. mark_synced db i now}"
  shows "be_trades (f db) = be_trades db" "be_flows (f db) = be_flows db"
  using assms by (auto simp: upsert_catalog_snapshot_def mark_synced_def binance_update_def split: option.splits)

lemma persist_tables:
  "be_trades (persist_fetch db i now r) = foldl (put_trade i) (be_trades db) (rf_trades r)"
  "be_flows (persist_fetch db i now r) = foldl (put_flow i) (be_flows db) (rf_flows r)"
proof -
  let ?rest = "(case rf_catalog r of None \<Rightarrow> [] | Some snapshot \<Rightarrow> upsert_catalog_snapshot i snapshot) @ [\<lambda>db. mark_synced db i now]"
  have "be_trades (run_all ?rest db0) = be_trades db0" "be_flows (run_all ?rest db0) = be_flows db0" for db0
    using run_all_inv [of "\<lambda>db. be_trades db = be_trades db0 \<and> be_flows db = be_flows db0" db0 ?rest] other_writes [of _ i r now]
    by simp_all
  then show "be_trades (persist_fetch db i now r) = foldl (put_trade i) (be_trades db) (rf_trades r)"
    "be_flows (persist_fetch db i now r) = foldl (put_flow i) (be_flows db) (rf_flows r)"
    by (simp_all add: persist_fetch_def persist_writes_def upsert_trades_table upsert_flows_table)
qed

lemma mset_map_filter: "mset (List.map_filter g xs) = image_mset (\<lambda>x. the (g x)) (filter_mset (\<lambda>x. g x \<noteq> None) (mset xs))"
  by (simp add: List.map_filter_def comp_def)

definition own_row :: "string \<Rightarrow> (string \<times> 'k) \<times> 'r \<Rightarrow> bool" where
  "own_row i = (\<lambda>(k, _). fst k = i)"

lemma read_rows:
  "mset (fetch_stored_trades db i) = image_mset trade_of_row (filter_mset (own_row i) (mset (be_trades db)))"
  "mset (fetch_stored_flows db i) =
    image_mset (\<lambda>x. the (flow_of_row x)) (filter_mset (\<lambda>x. flow_of_row x \<noteq> None) (filter_mset (own_row i) (mset (be_flows db))))"
  by (simp_all only: fetch_stored_trades_def fetch_stored_flows_def own_row_def mset_map mset_sort mset_filter mset_map_filter)

lemma new_trades_read:
  "\<forall>t \<in> set ts. fits t \<Longrightarrow>
    image_mset trade_of_row (filter_mset (own_row i) (mset (map (\<lambda>t. (trade_row_key i t, trade_columns_of t)) ts))) = mset ts"
proof (induction ts)
  case (Cons t ts)
  have "own_row i (trade_row_key i t, trade_columns_of t)" by (simp add: own_row_def trade_row_key_def)
  then show ?case using Cons by (simp add: trade_back)
qed simp

lemma new_flows_read:
  "\<forall>f \<in> set fs. nf_economic_time_ms f < 2 ^ 64 \<Longrightarrow>
    image_mset (\<lambda>x. the (flow_of_row x)) (filter_mset (\<lambda>x. flow_of_row x \<noteq> None)
      (filter_mset (own_row i) (mset (map (\<lambda>f. (flow_row_key i f, flow_columns_of f)) fs)))) = mset fs"
proof (induction fs)
  case (Cons f fs)
  have "own_row i (flow_row_key i f, flow_columns_of f)" by (simp add: own_row_def flow_row_key_def)
  moreover have "flow_of_row (flow_row_key i f, flow_columns_of f) = Some f" using Cons.prems by (simp add: flow_back flow_row_key_def)
  ultimately show ?case using Cons by simp
qed simp

text \<open>
  C38. What a sync fetched is what the engine reads. Where the trades and the flows it fetched are new, each once, reading
  the account gives what it gave before and exactly those: no number, leg, fee or flag is changed by the way
  through the database.
\<close>
theorem fetched_is_read_back:
  assumes "distinct (map (trade_row_key i) (rf_trades r))" "\<forall>t \<in> set (rf_trades r). fits t \<and> map_of (be_trades db) (trade_row_key i t) = None"
    and "distinct (map (flow_row_key i) (rf_flows r))"
    and "\<forall>f \<in> set (rf_flows r). nf_economic_time_ms f < 2 ^ 64 \<and> map_of (be_flows db) (flow_row_key i f) = None"
  shows "mset (fetch_stored_trades (persist_fetch db i now r) i) = mset (fetch_stored_trades db i) + mset (rf_trades r) \<and>
    mset (fetch_stored_flows (persist_fetch db i now r) i) = mset (fetch_stored_flows db i) + mset (rf_flows r)"
proof -
  have "mset (be_trades (persist_fetch db i now r)) = mset (be_trades db) + mset (map (\<lambda>t. (trade_row_key i t, trade_columns_of t)) (rf_trades r))"
    unfolding persist_tables using assms(1,2) by (intro new_rows) (simp_all add: put_trade_def)
  moreover have "mset (be_flows (persist_fetch db i now r)) = mset (be_flows db) + mset (map (\<lambda>f. (flow_row_key i f, flow_columns_of f)) (rf_flows r))"
    unfolding persist_tables using assms(3,4) by (intro new_rows) (simp_all add: put_flow_def)
  moreover have "\<forall>t \<in> set (rf_trades r). fits t" "\<forall>f \<in> set (rf_flows r). nf_economic_time_ms f < 2 ^ 64" using assms(2,4) by blast+
  note new = new_trades_read [OF this(1), of i] new_flows_read [OF this(2), of i]
  ultimately show ?thesis by (simp only: read_rows filter_union_mset image_mset_union new simp_thms)
qed

definition sample_trade :: trade where
  "sample_trade = \<lparr>tr_symbol = ''BTCUSDT'', tr_id = 7, tr_order_id = 3, tr_price = ''100'', tr_qty = ''1'', tr_commission = ''0'',
     tr_commission_asset = ''BNB'', tr_time_ms = 5, tr_is_buyer = True\<rparr>"

definition sample_flow :: normalized_flow where
  "sample_flow = \<lparr>nf_source_namespace = Deposit, nf_source_id = ''d'', nf_economic_time_ms = 4, nf_kind = ''Credited'',
     nf_legs = [credit ''BTC'' ''1''], nf_fee = None\<rparr>"

definition empty_binance_db :: binance_db where
  "empty_binance_db = \<lparr>be_connections = [], be_trades = [], be_flows = [], be_catalog = {}\<rparr>"

definition sample_fetch :: raw_fetch where
  "sample_fetch = \<lparr>rf_trades = [sample_trade], rf_flows = [sample_flow], rf_catalog = None\<rparr>"

theorem fetched_is_read_back_witness:
  "mset (fetch_stored_trades (persist_fetch empty_binance_db ''c'' 9 sample_fetch) ''c'') = {#sample_trade#} \<and>
   mset (fetch_stored_flows (persist_fetch empty_binance_db ''c'' 9 sample_fetch) ''c'') = {#sample_flow#}"
proof -
  have "fits sample_trade" "nf_economic_time_ms sample_flow < 2 ^ 64" by (simp_all add: fits_def sample_trade_def sample_flow_def)
  then have "mset (fetch_stored_trades (persist_fetch empty_binance_db ''c'' 9 sample_fetch) ''c'') =
      mset (fetch_stored_trades empty_binance_db ''c'') + mset (rf_trades sample_fetch) \<and>
    mset (fetch_stored_flows (persist_fetch empty_binance_db ''c'' 9 sample_fetch) ''c'') =
      mset (fetch_stored_flows empty_binance_db ''c'') + mset (rf_flows sample_fetch)"
    by (intro fetched_is_read_back) (simp_all add: sample_fetch_def empty_binance_db_def)
  then show ?thesis
    by (simp add: fetch_stored_trades_def fetch_stored_flows_def empty_binance_db_def sample_fetch_def map_filter_simps)
qed

section \<open>Nothing is stored with a key that can do more than read\<close>

definition binance_trade_at :: "binance_db \<Rightarrow> string \<times> string \<times> int \<Rightarrow> trade_columns option" where
  "binance_trade_at db k = map_of (be_trades db) k"

interpretation btrades: row_store "upsert_trade i" binance_trade_at "\<lambda>t. Some (trade_row_key i t)" trade_columns_of
    "\<lambda>db. bt_ok (be_trades db)" for i
  by unfold_locales (auto simp: upsert_trade_def binance_trade_at_def trade_row_key_def trade_columns_of_def Let_def bt_ok_insert
    map_of_bt_insert_other intro: bt_insert_keeps)

lemma trades_of_markets_each: "trades_of_markets fetch symbols = Inr ts \<Longrightarrow> t \<in> set ts \<Longrightarrow> \<exists>symbol own. fetch symbol = Inr own \<and> t \<in> set own"
  by (induction symbols arbitrary: ts) fastforce+

lemma trades_of_markets_all:
  "trades_of_markets fetch symbols = Inr ts \<Longrightarrow> symbol \<in> set symbols \<Longrightarrow> \<exists>own. fetch symbol = Inr own \<and> set own \<subseteq> set ts"
  by (induction symbols arbitrary: ts) fastforce+

lemma finite_symbols: "finite traded \<Longrightarrow> finite held \<Longrightarrow> finite (symbols_to_read chosen traded held listed)"
  by (simp add: symbols_to_read_def markets_of_def)

lemma fetch_all_trades:
  assumes "fetch_all Y c symbols traded earn_from_ms = Some (Inr r)"
  shows "finite traded \<Longrightarrow> symbol \<in> set symbols \<union> traded \<Longrightarrow>
      \<exists>own. fetch_my_trades (sv_live Y) c symbol = Inr own \<and> set own \<subseteq> set (rf_trades r)"
    and "t \<in> set (rf_trades r) \<Longrightarrow> \<exists>symbol own. fetch_my_trades (sv_live Y) c symbol = Inr own \<and> t \<in> set own"
proof -
  obtain balances where "trades_of_markets (fetch_my_trades (sv_live Y) c) (sorted_list_of_set (symbols_to_read symbols traded
        (ab_asset ` set (filter (sv_is_held Y) balances)) (case (case fetch_exchange_info (sv_live Y) c of Inl _ \<Rightarrow> None | Inr x \<Rightarrow> Some x) of
          None \<Rightarrow> {} | Some x \<Rightarrow> set (cs_symbols x)))) = Inr (rf_trades r)"
    using assms by (auto simp: fetch_all_def Let_def and_thenp_Inr)
  note t = trades_of_markets_all [OF this] and each = trades_of_markets_each [OF this]
  have "symbol \<in> symbols_to_read symbols traded held listed" if "symbol \<in> set symbols \<union> traded" for held listed
    using that by (simp add: symbols_to_read_def)
  then show "finite traded \<Longrightarrow> symbol \<in> set symbols \<union> traded \<Longrightarrow>
      \<exists>own. fetch_my_trades (sv_live Y) c symbol = Inr own \<and> set own \<subseteq> set (rf_trades r)"
    using finite_symbols by (intro t) simp
  show "t \<in> set (rf_trades r) \<Longrightarrow> \<exists>symbol own. fetch_my_trades (sv_live Y) c symbol = Inr own \<and> t \<in> set own" by (rule each)
qed

text \<open>
  A part of the statements stores a part of the trades that were fetched, and the last one is what moves the time
  of the sync.
\<close>

lemma part_of_writes:
  obtains m where "be_trades (run_all (take n (persist_writes i now r)) db) = be_trades (foldl (upsert_trade i) db (take m (rf_trades r)))"
proof -
  define rest where "rest = upsert_flows i (rf_flows r) @
     (case rf_catalog r of None \<Rightarrow> [] | Some snapshot \<Rightarrow> upsert_catalog_snapshot i snapshot) @ [\<lambda>db. mark_synced db i now]"
  have cut: "take n (persist_writes i now r) = upsert_trades i (take n (rf_trades r)) @ take (n - length (rf_trades r)) rest"
    by (simp add: persist_writes_def rest_def upsert_trades_def take_map)
  have "be_trades (f db0) = be_trades db0" if "f \<in> set rest" for f db0
    using that other_writes(1) [of f i r now] by (auto simp: rest_def upsert_flows_def upsert_flow_def Let_def)
  then have "be_trades (run_all (take k rest) db0) = be_trades db0" for k db0
    by (intro run_all_inv [where P = "\<lambda>db. be_trades db = be_trades db0"]) (simp, metis in_set_takeD)
  then show thesis using that [of n] by (simp add: cut upsert_trades_def run_all_map)
qed

lemma writes_leave_connections:
  assumes "n < length (persist_writes i now r)"
  shows "be_connections (run_all (take n (persist_writes i now r)) db) = be_connections db"
proof -
  let ?rows = "upsert_trades i (rf_trades r) @ upsert_flows i (rf_flows r) @
    (case rf_catalog r of None \<Rightarrow> [] | Some snapshot \<Rightarrow> upsert_catalog_snapshot i snapshot)"
  have cut: "take n (persist_writes i now r) = take n ?rows" using assms by (simp add: persist_writes_def)
  have row: "be_connections (f db0) = be_connections db0" if "f \<in> set ?rows" for f db0
    using that by (auto simp: upsert_trades_def upsert_flows_def upsert_catalog_snapshot_def upsert_trade_def upsert_flow_def Let_def
      split: option.splits)
  show ?thesis unfolding cut
    by (rule run_all_inv [where P = "\<lambda>db0. be_connections db0 = be_connections db"]) (simp, metis in_set_takeD row)
qed

lemma sync_cases:
  assumes "sync_and_persist Y D db i now secret symbols = Some (res, db')"
  obtains (unchanged) e where "res = Inl e" "db' = db"
  | (wrote) c restrictions r w where "ensure_read_only (sv_live Y) (new_client secret Production) = (c, Inr restrictions)"
      "fetch_all Y c symbols (traded_symbols db i) (latest_earn_reward_ms db i) = Some (Inr r)"
      "run_writes D (persist_writes i now r) db = (w, db')" "res = map_sum SyncDb (\<lambda>_. summary_of_fetch r) w"
proof (cases "query D 0 (Inr (latest_earn_reward_ms db i))")
  case (Inl e)
  then have "res = Inl (SyncDb e) \<and> db' = db" using assms by (simp add: sync_and_persist_def)
  then show thesis using unchanged by blast
next
  case earn: (Inr earn)
  show thesis
  proof (cases "query D (Suc 0) (Inr (traded_symbols db i))")
    case (Inl e)
    then have "res = Inl (SyncDb e) \<and> db' = db" using assms by (simp add: sync_and_persist_def earn)
    then show thesis using unchanged by blast
  next
    case traded: (Inr traded)
    have same: "earn = latest_earn_reward_ms db i" "traded = traded_symbols db i" using earn traded by (simp_all add: query_Inr)
    from assms obtain f where f: "fetch_blocking Y secret symbols traded earn = Some f" by (auto simp: sync_and_persist_def earn traded)
    show thesis
    proof (cases f)
      case (Inl e)
      then have "res = Inl (SyncClient e) \<and> db' = db" using assms by (simp add: sync_and_persist_def earn traded f)
      then show thesis using unchanged by blast
    next
      case (Inr r)
      obtain w db1 where w: "run_writes D (persist_writes i now r) db = (w, db1)" by (cases "run_writes D (persist_writes i now r) db")
      obtain c restrictions where c: "ensure_read_only (sv_live Y) (new_client secret Production) = (c, Inr restrictions)"
          "fetch_all Y c symbols traded earn = Some (Inr r)"
        using f Inr by (auto simp: fetch_blocking_def split: prod.splits sum.splits)
      show thesis using assms w wrote [OF c(1) c(2) [unfolded same]] by (simp add: sync_and_persist_def earn traded f Inr)
    qed
  qed
qed

text \<open>
  C39. A sync stores something only when, in this very cycle, the exchange said that the key can only read. Whichever
  statement of the database fails, no stored trade changes and every new one is a trade the exchange listed, column
  by column; and after a failure the connection is as it was, so it is due again, with nothing at all stored
  unless a writing statement failed. Where the sync succeeds, every market that was chosen, and every market ever traded
  on, was read, and every trade the exchange listed there is stored.
\<close>
theorem sync_reads_only_and_whole:
  assumes "sync_and_persist Y D db i now secret symbols = Some (res, db')" and "bt_ok (be_trades db)"
  shows "(\<forall>k row. binance_trade_at db k = Some row \<longrightarrow> binance_trade_at db' k = Some row) \<and>
    (\<forall>e. res = Inl e \<longrightarrow> be_connections db' = be_connections db \<and> (fa_write D = None \<longrightarrow> db' = db)) \<and>
    ((\<exists>summary. res = Inr summary) \<or> db' \<noteq> db \<longrightarrow> (\<exists>c restrictions.
      ensure_read_only (sv_live Y) (new_client secret Production) = (c, Inr restrictions) \<and> validate_read_only restrictions = Inr () \<and>
      (\<forall>k row. binance_trade_at db k = None \<and> binance_trade_at db' k = Some row \<longrightarrow>
        (\<exists>symbol own t. fetch_my_trades (sv_live Y) c symbol = Inr own \<and> t \<in> set own \<and> k = trade_row_key i t \<and> row = trade_columns_of t)) \<and>
      (\<forall>summary. res = Inr summary \<longrightarrow> (\<forall>symbol \<in> set symbols \<union> traded_symbols db i. \<exists>own.
        fetch_my_trades (sv_live Y) c symbol = Inr own \<and> (\<forall>t \<in> set own. binance_trade_at db' (trade_row_key i t) \<noteq> None)))))"
  using assms(1)
proof (cases rule: sync_cases)
  case (unchanged e)
  then show ?thesis by simp
next
  case (wrote c restrictions r w)
  have valid: "validate_read_only restrictions = Inr ()" using wrote(1) by (auto simp: ensure_read_only_def split: sum.splits)
  obtain n where n: "db' = run_all (take n (persist_writes i now r)) db" "w = Inr () \<longrightarrow> length (persist_writes i now r) \<le> n"
      "\<forall>e. w = Inl e \<longrightarrow> n < length (persist_writes i now r) \<and> fa_write D \<noteq> None"
    using wrote(3) that [of "length (persist_writes i now r)"]
    by (cases w) (auto simp: run_writes_def split: option.splits if_splits)
  obtain m where m: "be_trades db' = be_trades (foldl (upsert_trade i) db (take m (rf_trades r)))" unfolding n(1) by (rule part_of_writes)
  have at: "binance_trade_at db' k = (case binance_trade_at db k of Some row \<Rightarrow> Some row
      | None \<Rightarrow> map_option trade_columns_of (find (\<lambda>t. trade_row_key i t = k) (take m (rf_trades r))))" for k
    using btrades.run_lookup [OF assms(2), of i "take m (rf_trades r)" k, unfolded option.inject] m by (simp add: binance_trade_at_def)
  have kept: "binance_trade_at db k = Some row \<Longrightarrow> binance_trade_at db' k = Some row" for k row by (simp add: at)
  have listed: "\<exists>symbol own t. fetch_my_trades (sv_live Y) c symbol = Inr own \<and> t \<in> set own \<and> k = trade_row_key i t \<and> row = trade_columns_of t"
    if "binance_trade_at db k = None" "binance_trade_at db' k = Some row" for k row
    using that fetch_all_trades(2) [OF wrote(2)] by (fastforce simp: at find_Some_iff dest: in_set_takeD nth_mem)
  have whole: "\<exists>own. fetch_my_trades (sv_live Y) c symbol = Inr own \<and> (\<forall>t \<in> set own. binance_trade_at db' (trade_row_key i t) \<noteq> None)"
    if "res = Inr summary" "symbol \<in> set symbols \<union> traded_symbols db i" for summary symbol
  proof -
    have "w = Inr ()" using that(1) wrote(4) by (cases w) simp_all
    then have "db' = persist_fetch db i now r" using n(1,2) by (simp add: persist_fetch_def)
    then have "be_trades db' = be_trades (foldl (upsert_trade i) db (rf_trades r))"
      using upsert_trades_table [of i "rf_trades r" db] by (simp add: persist_tables upsert_trades_def run_all_map)
    then have "binance_trade_at db' (trade_row_key i t) \<noteq> None" if "t \<in> set (rf_trades r)" for t
      using btrades.run_stored [OF assms(2) that refl] by (simp add: binance_trade_at_def)
    moreover have "finite (traded_symbols db i)" by (simp add: traded_symbols_def)
    ultimately show ?thesis using fetch_all_trades(1) [OF wrote(2)] that(2) by blast
  qed
  have "be_connections db' = be_connections db \<and> fa_write D \<noteq> None" if "res = Inl e" for e
    using that n wrote(4) by (cases w) (auto simp: writes_leave_connections)
  then show ?thesis using kept listed whole wrote(1) valid by (intro conjI allI impI exI [of _ c] exI [of _ restrictions] ballI) blast+
qed

text \<open>An exchange with nothing to tell, asked with a key that can only read.\<close>

definition quiet_answer :: jvalue where
  "quiet_answer = VObj [(''rows'', VArr []), (''total'', VInt 0)]"

definition quiet_env :: sync_env where
  "quiet_env = \<lparr>sv_live = \<lparr>lv_http = (\<lambda>_. Inr quiet_answer), lv_hmac = (\<lambda>_ _. []), lv_hex = (\<lambda>_. []),
       lv_decode = (\<lambda>_. Inr \<lparr>ar_ip_restrict = True, ar_enable_reading = True, ar_enable_withdrawals = False,
         ar_enable_internal_transfer = False, ar_enable_universal_transfer = False, ar_enable_spot_and_margin_trading = False,
         ar_enable_margin = False, ar_enable_futures = False, ar_permits_universal_transfer = False, ar_enable_fix_api_trade = False,
         ar_enable_fix_read_only = True, ar_enable_portfolio_margin_trading = False, ar_enable_vanilla_options = False,
         ar_create_time = None, ar_unknown_fields = []\<rparr>),
       lv_datetime = (\<lambda>_. None), lv_vtext = (\<lambda>_. []), lv_timestamp_ms = 0\<rparr>,
     sv_dec = fraction_dec, sv_is_held = (\<lambda>_. True), sv_now_ms = 0\<rparr>"

lemma quiet_get:
  assumes "path \<in> set ALLOWED_PATHS" "lv_api_secret c \<noteq> []" "lv_read_only_confirmed c \<or> path = restrictions_path"
  shows "signed_get (sv_live quiet_env) c path params = Inr quiet_answer"
  using assms by (auto simp: signed_get_def sign_request_def send_def Let_def quiet_env_def quiet_answer_def)

lemma quiet_exchange_sync: "\<exists>summary db'. sync_and_persist quiet_env no_faults empty_binance_db ''c'' 9 ''s'' [''BTCUSDT''] = Some (Inr summary, db')"
proof -
  let ?V = "sv_live quiet_env"
  obtain c where c: "ensure_read_only ?V (new_client ''s'' Production) = (c, Inr (projr (lv_decode ?V quiet_answer)))"
      "lv_api_secret c = ''s''" "lv_read_only_confirmed c"
  proof -
    have "signed_get ?V (new_client ''s'' Production) restrictions_path [] = Inr quiet_answer"
      by (rule quiet_get) (simp_all add: new_client_def ALLOWED_PATHS_def restrictions_path_def)
    then have "ensure_read_only ?V (new_client ''s'' Production) =
        ((new_client ''s'' Production)\<lparr>lv_read_only_confirmed := True\<rparr>, Inr (projr (lv_decode ?V quiet_answer)))"
      by (simp add: ensure_read_only_def quiet_env_def validate_read_only_def)
    then show thesis by (rule that) (simp_all add: new_client_def)
  qed
  have get: "signed_get ?V c path params = Inr quiet_answer" if "path \<in> set ALLOWED_PATHS" for path params
    using that c by (intro quiet_get) simp_all
  have empty: "rows_of quiet_answer = []" "rows_of (jat ''balances'' quiet_answer) = []"
    by (simp_all add: quiet_answer_def rows_of_def jat_def)
  have lists: "fetch_my_trades ?V c symbol = Inr []" "fetch_deposits ?V c = Inr []" "fetch_withdrawals ?V c = Inr []"
      "fetch_account_balances ?V c = Inr []" for symbol
    by (simp_all add: fetch_my_trades_def fetch_deposits_def fetch_withdrawals_def fetch_account_balances_def get ALLOWED_PATHS_def empty map_filter_simps)
  have pages: "earn_pages ?V c path extra (parse_positions (de_parse fraction_dec) kind) = Some (Inr [])"
    if "path \<in> set ALLOWED_PATHS" for path extra kind
  proof -
    have "parse_positions (de_parse fraction_dec) kind quiet_answer = Inr \<lparr>pg_rows = [], pg_total = 0\<rparr>"
      by (simp add: parse_positions_def earn_rows_def earn_total_def quiet_answer_def)
    then show ?thesis by (simp add: earn_pages_def earn_page_at_def get [OF that] pages_from.simps)
  qed
  have held: "fetch_balances_with_earn fraction_dec ?V c = Some (Inr [])"
    by (simp add: fetch_balances_with_earn_def fetch_earn_positions_def lists pages ALLOWED_PATHS_def with_earn_def)
  have rewards: "fetch_earn_rewards fraction_dec ?V c 0 0 = Some (Inr [])"
    by (simp add: fetch_earn_rewards_def rewards_from.simps)
  have markets: "trades_of_markets (fetch_my_trades ?V c) symbols = Inr []" for symbols
    by (induction symbols) (simp_all add: lists)
  have env: "sv_dec quiet_env = fraction_dec" "sv_now_ms quiet_env = 0" by (simp_all add: quiet_env_def)
  have "latest_earn_reward_ms empty_binance_db ''c'' = None" by (simp add: latest_earn_reward_ms_def empty_binance_db_def)
  then have "\<exists>r. fetch_blocking quiet_env ''s'' [''BTCUSDT''] (traded_symbols empty_binance_db ''c'')
      (latest_earn_reward_ms empty_binance_db ''c'') = Some (Inr r)"
    by (simp add: fetch_blocking_def c(1) fetch_all_def Let_def env held markets lists rewards earn_from_def)
  then show ?thesis by (auto simp: sync_and_persist_def)
qed

theorem sync_reads_only_and_whole_witness:
  "\<exists>summary db' c restrictions. sync_and_persist quiet_env no_faults empty_binance_db ''c'' 9 ''s'' [''BTCUSDT''] = Some (Inr summary, db') \<and>
     ensure_read_only (sv_live quiet_env) (new_client ''s'' Production) = (c, Inr restrictions) \<and> validate_read_only restrictions = Inr () \<and>
     (\<exists>own. fetch_my_trades (sv_live quiet_env) c ''BTCUSDT'' = Inr own)"
proof -
  obtain summary db' where s: "sync_and_persist quiet_env no_faults empty_binance_db ''c'' 9 ''s'' [''BTCUSDT''] = Some (Inr summary, db')"
    using quiet_exchange_sync by blast
  have "bt_ok (be_trades empty_binance_db)" by (simp add: empty_binance_db_def)
  from sync_reads_only_and_whole [OF s this] obtain c restrictions where
      "ensure_read_only (sv_live quiet_env) (new_client ''s'' Production) = (c, Inr restrictions)" "validate_read_only restrictions = Inr ()"
      "\<exists>own. fetch_my_trades (sv_live quiet_env) c ''BTCUSDT'' = Inr own"
    by auto
  then show ?thesis using s by blast
qed

end
