(* ===== verification/Spec2Isabelle.thy ===== *)
theory Spec2Isabelle
  imports Framing Canonical Merkle Checkpoint Decimal Bracket ClaimStats Attestation Peak Performance
    Returns Drawdown Metrics WinRate Ledger Trades Catalog Flows Prices Valuations Consolidation
    Corrections Jobs Store Verifier TlsOrigin Vault Connection Recovery LocalAgent TradeLog Pnl BTree
    Market History Track Chart LiveClient Strings JsonValue WalletChain WalletEffects WalletWire Explorer
    WalletPrices WalletRead Synthetic Keys WalletFlows WalletStore CoinbaseWorker KrakenWire KrakenClient KrakenWorker IbkrClient IbkrWorker BinanceWorker
begin

text \<open>
  Linvesther keeps a verifiable track record of trading accounts. A collector reads an account that it may only
  read, works out what the account is worth and how it performed, and attests to what it read. Zero-knowledge
  guests recompute the figures from the attested data. A verifier checks a portable bundle without trusting
  whoever made it. This development models the Rust of that pipeline, one theory for each part, and states
  what makes each part correct.

  \<^bold>\<open>The parts, and how they call each other.\<close>

  \<^item> Commitments, \<open>crates/commitments\<close>. Framing (framing.rs): domain-separated hashing of a list of fields.
    Canonical (canonical.rs, commitment.rs): strict JSON and data commitments. Merkle (merkle.rs): trees and
    inclusion proofs. They are used by the verifier and by Corrections.
  \<^item> Domain rules, \<open>crates/domain\<close>. Checkpoint (calendar.rs, continuity.rs, chain.rs), Ledger (event.rs,
    ledger.rs), Returns (twr.rs), Drawdown, Metrics and WinRate (metrics), Valuations (valuation), Consolidation,
    Corrections. Each is a function of its inputs; Ledger keeps a state.
  \<^item> Guests, \<open>zkvm/methods\<close>. Performance (performance guest: compute.rs, envelope.rs, origin.rs, lib.rs), with
    Peak for its largest drop; Bracket and ClaimStats (statistics guest); TlsOrigin (the guest and the collector
    crate it mirrors, services/collector/tlsn).
  \<^item> Attestation, \<open>services/collector/attestation\<close>: the envelope the collector signs and the badge it gives. The
    performance guest decodes the same bytes.
  \<^item> Verifier, \<open>crates/verifier\<close>: the five checks of a bundle, the trust list, the assessment of origin. It calls
    Merkle and Checkpoint, and reads what the performance guest has committed.
  \<^item> Collection from Binance, \<open>services/collector/binance\<close>. Trades, Catalog, Flows, Prices; LiveClient (lib.rs,
    earn.rs), the read-only client they are filled from; Vault and Connection (services/collector/credentials),
    where its keys live and what a key must satisfy.
  \<^item> The worker, \<open>services/collector/binance/worker\<close>. Market (exchange-core, market.rs, publish.rs), History with
    Track (history.rs: the series, the returns and what they say), Chart (history.rs: the chart), TradeLog and Pnl
    (trade_log.rs, pnl.rs), Keys (crypto.rs, secrets.rs, rekey.rs), WalletFlows and WalletStore (wallet.rs),
    CoinbaseWorker (coinbase.rs), KrakenWorker (kraken.rs), IbkrWorker (ibkr.rs) and BinanceWorker (db.rs, sync.rs).
    History calls Market for prices, Valuations for holdings, Returns for the index and Pnl for the profit. Each
    exchange module syncs what it reads into its tables and turns the tables into the trades and the flows that
    History consumes; IbkrWorker has a daily report instead and builds its index itself.
  \<^item> Kraken, \<open>services/collector/kraken/client\<close>. KrakenWire (names.rs, wire.rs, auth.rs) and KrakenClient
    (client.rs): the check of a key, the account and its ledger, the prices. KrakenWorker calls them.
  \<^item> Interactive Brokers, \<open>services/collector/ibkr/client\<close>. IbkrClient (wire.rs, client.rs): the report, and the two
    calls that fetch it. IbkrWorker calls them.
  \<^item> Wallets, \<open>services/collector/wallet/client\<close>. WalletChain (amounts.rs, chains.rs, coverage.rs), WalletEffects
    (effects.rs), WalletWire (wire.rs, rpc.rs), Explorer (explorer.rs, reader.rs), WalletPrices (prices.rs,
    market.rs), WalletRead (snapshot.rs), Synthetic (synthetic.rs). A reading asks a reader of the network for
    transfers and balances; WalletStore keeps what a sync reads, and WalletFlows turns the stored effects into the
    flows that History consumes.
  \<^item> Around them: Jobs (services/compute/jobs), Recovery (infra/recovery), LocalAgent (services/local-agent).
  \<^item> Shared: Prelude (errors, wrapping integers, folds that may fail, bytes), Decimal (the arithmetic), Strings
    and JsonValue (the texts and the JSON the code reads), BTree (ordered maps), Store (the stores with a law).

  \<^bold>\<open>How the code is read.\<close> A struct is a record, an enum a datatype; an error is the left of a sum, with the
  constructors of the source. A panic, or a loop that does not return, is the outer \<open>None\<close> of an option around
  that. A \<open>BTreeMap\<close> is a map where its order is not seen, and the sorted list of its entries (BTree) where it is.
  Integers are \<open>int\<close> or \<open>nat\<close> with the wrap-around of a release build written out: \<open>wrap_s\<close> and \<open>wrap_u64\<close> for
  the plain operators, \<open>chk_s\<close> for the checked ones. A loop is a recursive function: structural, or with
  its measure, or, where it may not end, a \<open>partial_function\<close> whose \<open>None\<close> is that it does not; then a theorem
  says when it returns. Only \<open>drain\<close> (TradeLog), the caller that reads page after page, has fuel: one more than the
  number of trades, which its theorem shows is enough. The retries of the calls to a node, an explorer, an exchange
  or the price source count attempts as the source does. Async functions are read as the
  function they compute; \<open>parallel_map\<close> gives the results in the order of its inputs, and the pauses between
  calls are left out.

  \<^bold>\<open>What is a parameter.\<close> Code outside the repository is an argument of the definitions that use it. SHA-256
  is a function \<open>sha\<close> whose results have 32 bytes, and "binds" always means: or there is a collision. Signatures
  are a pair of functions; AES-GCM is a pair whose opening undoes its sealing. The arithmetic of \<open>rust_decimal\<close>
  is a record \<open>arith\<close>; the locale \<open>rounded_arith\<close> says what rounding may do, \<open>dec96\<close> (96 bits, 28 places) and
  \<open>exact_arith\<close> satisfy it, and the statements about sums are over computations that do not round. The HTTP
  exchange, the JSON and hex readers and the calendar are functions that may answer anything; where a property
  needs the other side to be honest, it is a hypothesis by name (\<open>honest_reader\<close>, \<open>honest_pages\<close>, \<open>honest_listing\<close>), with an
  instance: the synthetic chain of the source is one. The tables of Unicode behind \<open>to_lowercase\<close> are a function on bytes
  where a cut depends on them (\<open>redact\<close>). A database is a state of tables and a record \<open>db_faults\<close> (Store) of the queries and
  of the writing statement that fail: a sync of Binance, Coinbase or Kraken writes row by row outside a transaction, and
  stops at the one that fails with the rows before it kept. The reads and writes of the wallets, of Interactive
  Brokers and of the other operations on the tables are taken to succeed.

  \<^bold>\<open>The interfaces.\<close> \<open>rounded_arith\<close> (Decimal) is the contract of decimals, used by the drawdown and the metrics.
  \<open>injective_encoding\<close> (Prelude) is an encoding from which its input can be recovered: frames and envelopes are
  two. \<open>append_only\<close> and its extension \<open>first_write_store\<close> (Store) are the stores that never change what they
  hold: the catalog, the symbol universe, the trade store and the ledger.
  \<open>row_store\<close> (Store) is a table that takes a row under its key once, and says what every row is after a run of
  writes: the outbox of the jobs and the tables of KrakenWorker, IbkrWorker and BinanceWorker.
  \<open>drawdown_measure\<close> (Peak) is what a running peak needs from the size of a drop. \<open>honest_reader\<close> (WalletRead)
  is a network that lists every transfer and reads every balance at one history.

  \<^bold>\<open>What the groups of lemmas show.\<close>

  \<^item> Encodings and trees (Framing, Attestation, Merkle): equal digests mean equal content, and an accepted proof
    means membership, or a collision.
  \<^item> The guests (Performance, Bracket, ClaimStats): the integer loops compute the index and the largest drop with
    no wrap-around, every bracket encloses the real number it stands for, and a verdict on a claim is true of the
    real metric. What the guest does not sign is stated too.
  \<^item> The verifier: the summary is exactly the conjunction of the checks, and a trusted origin is traced from the
    verdict to the guest run and the trust list.
  \<^item> Stores and state machines (Ledger, Trades, Catalog, Jobs, Vault, LocalAgent): invariants of every reachable
    state; order, retries and restarts change nothing; leases never overlap; what is revoked stays unreadable.
  \<^item> Performance of an account (Returns, Drawdown, Metrics, WinRate, Valuations, History, Track, Chart, Pnl):
    each loop refines a short specification, a deposit or a withdrawal does not move the index, and the profit
    is what went in and came out.
  \<^item> Reading (TradeLog, LiveClient, Explorer): paging returns every row once or fails, the loops end, and every
    operation is refused with a key that is not known to be read-only.
  \<^item> Wallets (WalletChain, WalletEffects, WalletRead, Synthetic, WalletStore, WalletFlows): amounts are exact, the
    effects of the transfers add up to the change of every balance, what a sync keeps adds up to the balances it
    keeps, the flows add up to the effects, and an address does not show in a message whose lower case has
    its bytes in the same places (where it has not, it may).
  \<^item> Syncs (KrakenClient, KrakenWorker, CoinbaseWorker, IbkrWorker, BinanceWorker): a key of Kraken that is accepted
    was refused orders and withdrawals, its ledger is read whole, a sync only adds, whichever statement fails, and the
    flows add up to the ledger; a sync of Coinbase records as transfers the amounts that were moved, given what the fills
    settle; the index of an Interactive Brokers account is the time-weighted return where its flows are dated on days of
    the report (elsewhere they count as gains), and reading a report again changes nothing; what a sync of Binance
    fetches is what the engine reads back, and nothing is stored with a key that can do more than read.
  \<^item> This theory: properties of several parts together, a change of membership and the index, and the purge of the
    vault against the deadline of retention.

  \<^bold>\<open>Not modelled.\<close> The entry point (main.rs), the websocket (stream.rs) and the calls of the prover (prove.rs) of the
  worker, and the command lines: they move data between the parts above and the outside. \<open>jittered_delay_ms\<close> of the
  job queue scales by a random floating-point number. The client of Coinbase repeats the pattern of the ones modelled
  on another wire format. The proving hosts call the guests. The web application, the API, the contracts, the chain
  worker and the MCP server are TypeScript and Solidity.
\<close>

section \<open>Membership changes and returns\<close>

lemma subperiods_append:
  "subperiods cur (es @ Valuation t n # rest) = subperiods cur (es @ [Valuation t n]) @ subperiods (Some n) rest"
proof (induction es arbitrary: cur)
  case Nil
  then show ?case by (cases cur) simp_all
next
  case (Cons e es)
  then show ?case by (cases e; cases cur) simp_all
qed

lemma find_append: "find P (xs @ ys) = (case find P xs of None \<Rightarrow> find P ys | Some x \<Rightarrow> Some x)"
  by (induction xs) simp_all

lemma twr_after_valuation:
  assumes "compute_twr exact_arith (es @ [Valuation t n]) = Inr r"
  shows "compute_twr exact_arith (es @ Valuation t n # rest) =
    (case find (\<lambda>p. fst p \<le> 0) (subperiods (Some n) rest) of
       Some p \<Rightarrow> Inl (NonPositiveBaseline (fst p))
     | None \<Rightarrow> Inr \<lparr>tw_index = tw_index r * (\<Prod>p\<leftarrow>subperiods (Some n) rest. snd p / fst p),
         tw_sub_returns = tw_sub_returns r @ map (\<lambda>p. snd p / fst p - 1) (subperiods (Some n) rest)\<rparr>)"
  using assms unfolding compute_twr_def twr_from_exact subperiods_append [of None es t n rest] find_append
  by (auto split: option.splits)

text \<open>
  C12. Adding or removing an account creates no performance: when the aggregate NAV of the members is
  followed by the flow the consolidation prescribes for an account that joins (or leaves) and by the
  aggregate NAV of the new member set, the index of the track is what it was and the new subperiod's
  return is zero, whatever came before and whatever the account holds.
\<close>

theorem membership_change_makes_no_profit:
  assumes "consolidated_nav exact_arith ms = Some (Inr small)"
    and "consolidated_nav exact_arith (m # ms) = Some (Inr big)" and "0 < small" and "0 < big"
  shows "(compute_twr exact_arith (es @ [Valuation t small]) = Inr r \<longrightarrow>
      compute_twr exact_arith (es @ [Valuation t small, Flow t' (account_added_flow (ma_nav m)), Valuation t'' big]) =
        Inr \<lparr>tw_index = tw_index r, tw_sub_returns = tw_sub_returns r @ [0]\<rparr>) \<and>
    (compute_twr exact_arith (es @ [Valuation t big]) = Inr r \<longrightarrow>
      compute_twr exact_arith (es @ [Valuation t big, Flow t' (account_removed_flow (ma_nav m)), Valuation t'' small]) =
        Inr \<lparr>tw_index = tw_index r, tw_sub_returns = tw_sub_returns r @ [0]\<rparr>)"
proof -
  have big: "big = small + ma_nav m" using assms(1,2) by (simp add: consolidated_Inr)
  show ?thesis using assms(3,4)
    by (auto simp: twr_after_valuation account_added_flow_def account_removed_flow_def big)
qed

theorem membership_change_makes_no_profit_witness:
  "compute_twr exact_arith [Valuation 0 100, Valuation 1 110, Flow 1 (account_added_flow 40), Valuation 1 150] =
     Inr \<lparr>tw_index = 11 / 10, tw_sub_returns = [1 / 10, 0]\<rparr>"
proof -
  define m where "m = \<lparr>ma_account_id = ''b'', ma_nav = 40, ma_has_gap = False\<rparr>"
  have "compute_twr exact_arith ([Valuation 0 100] @ [Valuation 1 110]) =
      Inr \<lparr>tw_index = 11 / 10, tw_sub_returns = [1 / 10]\<rparr>" by code_simp
  then show ?thesis
    using membership_change_makes_no_profit [of "[\<lparr>ma_account_id = ''a'', ma_nav = 110, ma_has_gap = False\<rparr>]" 110 m 150
        "[Valuation 0 100]" 1 _ 1 1]
    by (simp add: consolidated_Inr m_def)
qed

section \<open>The vault and the retention deadlines\<close>

text \<open>
  The purge of the vault cannot meet the retention deadline of credentials except at one instant:
  for a credential revoked at \<open>t0\<close>, \<open>purge\<close> succeeds only from \<open>t0\<close> plus 24 hours on, and the retention
  check, given that the credential was still present at the time of the purge, accepts only up to that
  same millisecond. Any later purge is a violation, and an earlier one is refused.
\<close>

theorem purge_misses_retention_deadline:
  assumes "vault_reachable V v" and "revoke v cid t0 = Inr v'" and "t0 + PURGE_GRACE_PERIOD_MS < 2 ^ 63"
    and "purge (vault_run V v' ops) cid t = Inr v''"
  shows "t0 + PURGE_GRACE_PERIOD_MS \<le> t \<and>
    (check_purged_by_deadline Credential (int t0) True (int t) = Inr () \<longleftrightarrow> t = t0 + PURGE_GRACE_PERIOD_MS)"
proof -
  have v: "vault_ok v" using vault_reachable_ok [OF assms(1)] .
  have w: "wrap_u64 (t0 + PURGE_GRACE_PERIOD_MS) = t0 + PURGE_GRACE_PERIOD_MS"
    using assms(3) by (intro wrap_u_id) simp
  obtain r0 where r0: "v' cid = Some r0" "cr_revoked_at_ms r0 = Some t0"
      "cr_purge_deadline_ms r0 = Some (t0 + PURGE_GRACE_PERIOD_MS)" "\<not> cr_purged r0"
    using assms(2) vault_okD [OF v] w by (fastforce simp: revoke_Inr record_ok_def is_revoked_def)
  obtain r where "vault_run V v' ops cid = Some r" "cr_purge_deadline_ms r = Some (t0 + PURGE_GRACE_PERIOD_MS)"
    using revoked_stays_run [where v = v' and cid = cid and V = V and ops = ops, OF r0] by blast
  then have le: "t0 + PURGE_GRACE_PERIOD_MS \<le> t" using assms(4) by (auto simp: purge_Inr)
  have "in_i64 (int t0 + 86400000)" using assms(3) by (simp add: in_s_def PURGE_GRACE_PERIOD_MS_def)
  then have "purge_deadline_ms Credential (int t0) = int (t0 + PURGE_GRACE_PERIOD_MS)"
    by (simp add: purge_deadline_ms_def HOUR_MS_def PURGE_GRACE_PERIOD_MS_def)
  then show ?thesis using le by (auto simp: check_purged_ok)
qed

theorem purge_misses_retention_deadline_witness:
  "\<exists>v' v''. revoke sample_vault ''c1'' 200 = Inr v' \<and> purge v' ''c1'' 86400201 = Inr v'' \<and>
     check_purged_by_deadline Credential 200 True 86400201 \<noteq> Inr ()"
proof -
  obtain v' where v': "revoke sample_vault ''c1'' 200 = Inr v'" using sample_revoke by blast
  obtain r where r: "sample_vault ''c1'' = Some r" "\<not> cr_purged r"
    using sample_store by (elim store_Inr) (metis credential_record.select_convs(8) fun_upd_same)
  have "\<exists>v''. purge v' ''c1'' 86400201 = Inr v''"
    using v' r by (auto simp: revoke_Inr purge_Inr wrap_u_def PURGE_GRACE_PERIOD_MS_def)
  then obtain v'' where v'': "purge (vault_run sample_env v' []) ''c1'' 86400201 = Inr v''"
    by (auto simp: vault_run_def)
  show ?thesis
    using purge_misses_retention_deadline [OF sample_vault_reachable v' _ v''] v' v''
    by (auto simp: PURGE_GRACE_PERIOD_MS_def vault_run_def)
qed

end
